(* ===== verification/Prelude.thy ===== *)
theory Prelude
  imports Main "HOL-Library.Word"
begin

text \<open>
  The vocabulary shared by every component theory of the development: the fixed-width
  integers of the C++ sources as words, the error codes of the wire, request and safety
  modules as datatypes, the result type of a fallible function, the bit-level facts that
  decide equality of octets and of wider words, and the big-endian octet packing of
  \<open>include/rcp/avtp.hpp\<close> that every codec reuses.
\<close>

unbundle bit_operations_syntax

section \<open>Machine integers\<close>

type_synonym u8 = "8 word"
type_synonym u16 = "16 word"
type_synonym u32 = "32 word"
type_synonym u64 = "64 word"

text \<open>A buffer (\<open>std::vector<uint8_t>\<close>, or a pointer with its length) is a list of octets.\<close>

type_synonym octets = "u8 list"

text \<open>
  \<open>SIZE_MAX\<close> of a platform with a 64-bit \<open>size_t\<close>; the only place where the sources
  depend on it are two saturating length computations.
\<close>

definition size_max :: nat where
  "size_max = 2 ^ 64 - 1"

named_theorems wire_defs
  \<open>definitions of constants and bit masks of the wire format\<close>

named_theorems wire_len
  \<open>lengths of encoded headers and messages\<close>

section \<open>Error codes\<close>

text \<open>
  One datatype per \<open>enum class ...Errc\<close>. A \<open>std::error_code\<close> pairs such a value with
  its category, so the error type of a function that can report codes of several
  categories is the disjoint sum of them.
\<close>

datatype avtp_errc = Short_buffer | Bad_subtype | Length_mismatch

datatype acf_errc = Bad_acf_msg_type | Bad_acf_msg_length

datatype e2e_errc = Crc_error | Sequence_violation | Short_frame

datatype request_errc =
    Timestamp_not_repurposed
  | Unknown_request_type
  | Index_out_of_range
  | Unknown_transaction
  | Invalid_lifecycle_transition
  | Transaction_num_collision
  | Request_not_found
  | Request_canceled
  | Compound_bundle_incomplete
  | Request_not_cancellable
  | Reserved_field_nonzero
  | Evt_hs_cs_nonzero
  | Unsupported_cmd
  | Ledger_full

datatype fragment_errc = Disabled | Too_many_segments | Bad_segment_count

datatype lifecycle_errc =
    Invalid_transition
  | Hw_cfg_inconsistent
  | Rcp_cfg_inconsistent
  | Unauthorized
  | Eps_not_idle

datatype endpoint_errc =
    Reserved_write_semantics
  | Non_combinable_write_semantics
  | Reserved_evt_row2

datatype watchdog_errc =
    Stream_not_registered
  | Stream_capacity_exceeded
  | Callback_capacity_exceeded

datatype regmap_errc = Unauthorized_access | Locked_mem_access | Request_rejected | Invalid_parameter

datatype general_map_errc = Gm_short_frame | Gm_bad_msg_type | Gm_wrong_bus | Gm_wrong_op

text \<open>
  The writable tables of the register map each have an error category of their own with these
  two codes.
\<close>

datatype reconfig_errc = Short_write | Out_of_range

datatype error =
    Avtp_err avtp_errc
  | Acf_err acf_errc
  | E2e_err e2e_errc
  | Request_err request_errc
  | Fragment_err fragment_errc
  | Lifecycle_err lifecycle_errc
  | Endpoint_err endpoint_errc
  | Watchdog_err watchdog_errc
  | Regmap_err regmap_errc
  | General_map_err general_map_errc
  | Ep_generic_cfg_err reconfig_errc
  | Hw_pin_map_err reconfig_errc
  | Request_stream_cfg_err reconfig_errc
  | Ep_id_map_err reconfig_errc
  | Response_queue_cfg_err reconfig_errc
  | Optional_subsystem_cfg_err reconfig_errc

text \<open>
  A decoder that fills out-parameters and returns a \<open>std::error_code\<close> is a function into
  \<open>error + 'a\<close>: \<open>Inl\<close> the error, \<open>Inr\<close> the values of the out-parameters. What a failing
  decoder leaves in its out-parameters is not modelled. A method that changes its object
  returns the error (\<open>None\<close> for the default-constructed, successful code) with the new state.
\<close>

type_synonym 'a result = "error + 'a"

section \<open>Bits of words\<close>

lemma u8_bit_high [simp]: "8 \<le> n \<Longrightarrow> \<not> bit (x :: u8) n"
  by (auto dest: bit_imp_le_length)

lemma u16_bit_high [simp]: "16 \<le> n \<Longrightarrow> \<not> bit (x :: u16) n"
  by (auto dest: bit_imp_le_length)

lemma u32_bit_high [simp]: "32 \<le> n \<Longrightarrow> \<not> bit (x :: u32) n"
  by (auto dest: bit_imp_le_length)

lemma u64_bit_high [simp]: "64 \<le> n \<Longrightarrow> \<not> bit (x :: u64) n"
  by (auto dest: bit_imp_le_length)

lemma unat_bound: "unat (x :: 'a :: len word) < 2 ^ LENGTH('a)"
  by (rule unsigned_less)

lemma u8_eq_iff:
  "(x :: u8) = y \<longleftrightarrow>
     bit x 0 = bit y 0 \<and> bit x 1 = bit y 1 \<and> bit x 2 = bit y 2 \<and> bit x 3 = bit y 3 \<and>
     bit x 4 = bit y 4 \<and> bit x 5 = bit y 5 \<and> bit x 6 = bit y 6 \<and> bit x 7 = bit y 7"
proof -
  have "x = y \<longleftrightarrow> (\<forall>n < 8. bit x n = bit y n)"
    by (auto simp: bit_eq_iff)
  then show ?thesis
    by (simp add: eval_nat_numeral All_less_Suc2)
qed

lemma u16_eq_iff:
  "(x :: u16) = y \<longleftrightarrow>
     bit x 0 = bit y 0 \<and> bit x 1 = bit y 1 \<and> bit x 2 = bit y 2 \<and> bit x 3 = bit y 3 \<and>
     bit x 4 = bit y 4 \<and> bit x 5 = bit y 5 \<and> bit x 6 = bit y 6 \<and> bit x 7 = bit y 7 \<and>
     bit x 8 = bit y 8 \<and> bit x 9 = bit y 9 \<and> bit x 10 = bit y 10 \<and> bit x 11 = bit y 11 \<and>
     bit x 12 = bit y 12 \<and> bit x 13 = bit y 13 \<and> bit x 14 = bit y 14 \<and> bit x 15 = bit y 15"
proof -
  have "x = y \<longleftrightarrow> (\<forall>n < 16. bit x n = bit y n)"
    by (auto simp: bit_eq_iff)
  then show ?thesis
    by (simp add: eval_nat_numeral All_less_Suc2)
qed

text \<open>
  \<open>simp add: bits\<close> decides an equation between packed octets: it is split into its eight
  (or sixteen) bits, and each bit of a shift, mask or union is evaluated at a numeral.
\<close>

lemma bit_times_2:
  "bit (x * 2 :: 'a :: len word) n \<longleftrightarrow> n \<noteq> 0 \<and> n < LENGTH('a) \<and> bit x (n - 1)"
  by (auto simp: bit_double_iff mult.commute [of x])

lemma bit_index_numerals:
  "bit x (Suc (Suc 0)) = bit x 2" "bit x (Suc (Suc (Suc 0))) = bit x 3"
  by (simp_all add: eval_nat_numeral)

lemmas bits = u8_eq_iff u16_eq_iff bit_times_2 bit_index_numerals bit_simps

lemma unat_and_0x1FF: "unat ((w :: u16) AND 0x1FF) = unat w mod 512"
proof -
  have "w AND 0x1FF = take_bit 9 w"
    by (simp add: take_bit_eq_mask mask_numeral)
  then have "unat (w AND 0x1FF) = take_bit 9 (unat w)"
    by (simp only: unsigned_take_bit_eq)
  then show ?thesis
    by (simp add: take_bit_eq_mod)
qed

text \<open>Masking a value that fits its wire field changes nothing.\<close>

lemma masked_field:
  "v < 4 \<Longrightarrow> v AND 0x03 = (v :: u8)"
  "v < 8 \<Longrightarrow> v AND 0x07 = (v :: u8)"
  "v < 0x80 \<Longrightarrow> v AND 0x7F = (v :: u8)"
  "w < 0x200 \<Longrightarrow> w AND 0x1FF = (w :: u16)"
  "w < 0x800 \<Longrightarrow> w AND 0x7FF = (w :: u16)"
  "w < 0x1000 \<Longrightarrow> w AND 0xFFF = (w :: u16)"
  using less_mask_eq [of v 2] less_mask_eq [of v 3] less_mask_eq [of v 7]
    less_mask_eq [of w 9] less_mask_eq [of w 11] less_mask_eq [of w 12]
  by (simp_all add: mask_numeral)

section \<open>Big-endian octets\<close>

text \<open>
  \<open>put_u16\<close>, \<open>put_u32\<close>, \<open>put_u64\<close> and their \<open>get\<close> counterparts of
  \<open>include/rcp/avtp.hpp\<close>. A \<open>put\<close> writes through a pointer; its model is the list of
  octets written. A \<open>get\<close> reads the first octets behind a pointer.
\<close>

definition put_u16 :: "u16 \<Rightarrow> octets" where
  "put_u16 v = [ucast (drop_bit 8 v), ucast (v AND 0xFF)]"

definition put_u32 :: "u32 \<Rightarrow> octets" where
  "put_u32 v =
     [ucast (drop_bit 24 v), ucast (drop_bit 16 v AND 0xFF),
      ucast (drop_bit 8 v AND 0xFF), ucast (v AND 0xFF)]"

definition put_u64 :: "u64 \<Rightarrow> octets" where
  "put_u64 v = map (\<lambda>i. ucast (drop_bit (56 - 8 * i) v AND 0xFF)) [0..<8]"

definition get_u16 :: "octets \<Rightarrow> u16" where
  "get_u16 p = push_bit 8 (ucast (p ! 0)) OR ucast (p ! 1)"

definition get_u32 :: "octets \<Rightarrow> u32" where
  "get_u32 p =
     push_bit 24 (ucast (p ! 0)) OR push_bit 16 (ucast (p ! 1)) OR
     push_bit 8 (ucast (p ! 2)) OR ucast (p ! 3)"

definition get_u64 :: "octets \<Rightarrow> u64" where
  "get_u64 p = fold (\<lambda>i v. push_bit 8 v OR ucast (p ! i)) [0..<8] 0"

lemma length_put [simp, wire_len]:
  "length (put_u16 a) = 2" "length (put_u32 b) = 4" "length (put_u64 c) = 8"
  by (simp_all add: put_u16_def put_u32_def put_u64_def)

lemma put_ne_Nil [simp]: "put_u16 a \<noteq> []" "put_u32 b \<noteq> []" "put_u64 c \<noteq> []"
  by (simp_all add: put_u16_def put_u32_def put_u64_def)

lemma upt_8: "[0..<8] = [0, 1, 2, 3, 4, 5, 6, 7 :: nat]"
  by (simp add: upt_rec)

lemma get_put_u16 [simp]: "get_u16 (put_u16 v @ r) = v"
  by (simp add: get_u16_def put_u16_def bits)

text \<open>
  One step of reading a big-endian integer: shifting in the next octet of \<open>v\<close> turns the
  part of \<open>v\<close> above bit \<open>k + 8\<close> into the part above bit \<open>k\<close>.
\<close>

lemma low_octet [simp]:
  "ucast (a AND 0xFF) = (ucast (a :: u16) :: u8)"
  "ucast (b AND 0xFF) = (ucast (b :: u32) :: u8)"
  "ucast (c AND 0xFF) = (ucast (c :: u64) :: u8)"
  by (simp_all add: bits)

lemma low_u16 [simp]:
  "ucast (b AND 0xFFFF) = (ucast (b :: u32) :: u16)"
  "ucast (c AND 0xFFFF) = (ucast (c :: u64) :: u16)"
  by (simp_all add: bits)

lemma shift_in_octet:
  fixes v :: "'a :: len word"
  shows "push_bit 8 (drop_bit (k + 8) v) OR ucast (ucast (drop_bit k v) :: u8) = drop_bit k v"
proof (rule bit_eqI)
  fix n
  show "bit (push_bit 8 (drop_bit (k + 8) v) OR ucast (ucast (drop_bit k v) :: u8)) n
      = bit (drop_bit k v) n"
    by (cases "n < 8") (auto simp: bit_simps dest: bit_imp_le_length)
qed

lemma octet_steps:
  fixes v :: u64
  shows
    "ucast (ucast (drop_bit 56 v) :: u8) = drop_bit 56 v"
    "push_bit 8 (drop_bit 56 v) OR ucast (ucast (drop_bit 48 v) :: u8) = drop_bit 48 v"
    "push_bit 8 (drop_bit 48 v) OR ucast (ucast (drop_bit 40 v) :: u8) = drop_bit 40 v"
    "push_bit 8 (drop_bit 40 v) OR ucast (ucast (drop_bit 32 v) :: u8) = drop_bit 32 v"
    "push_bit 8 (drop_bit 32 v) OR ucast (ucast (drop_bit 24 v) :: u8) = drop_bit 24 v"
    "push_bit 8 (drop_bit 24 v) OR ucast (ucast (drop_bit 16 v) :: u8) = drop_bit 16 v"
    "push_bit 8 (drop_bit 16 v) OR ucast (ucast (drop_bit 8 v) :: u8) = drop_bit 8 v"
    "push_bit 8 (drop_bit 8 v) OR ucast (ucast v :: u8) = v"
proof -
  show "ucast (ucast (drop_bit 56 v) :: u8) = drop_bit 56 v"
    by (rule bit_eqI) (auto simp: bit_simps dest: bit_imp_le_length)
qed (use shift_in_octet [of 48 v] shift_in_octet [of 40 v] shift_in_octet [of 32 v]
      shift_in_octet [of 24 v] shift_in_octet [of 16 v] shift_in_octet [of 8 v]
      shift_in_octet [of 0 v] in simp_all)

lemma get_put_u64 [simp]: "get_u64 (put_u64 v @ r) = v"
  by (simp add: get_u64_def put_u64_def upt_8 octet_steps)

lemma get_put_u32 [simp]: "get_u32 (put_u32 v @ r) = v"
proof (rule bit_eqI)
  fix n :: nat
  consider "n < 8" | "8 \<le> n" "n < 16" | "16 \<le> n" "n < 24" | "24 \<le> n" "n < 32" | "32 \<le> n"
    by fastforce
  then show "bit (get_u32 (put_u32 v @ r)) n = bit v n"
    by cases (auto simp: get_u32_def put_u32_def bit_simps)
qed

lemma get_zeros [simp]: "get_u16 (0 # 0 # r) = 0" "get_u32 (0 # 0 # 0 # 0 # r) = 0"
  by (simp_all add: get_u16_def get_u32_def)

text \<open>Reading eight octets and writing them again gives them back.\<close>

lemma put_get_u64: "put_u64 (get_u64 [a, b, c, d, e, f, g, h]) = [a, b, c, d, e, f, g, h]"
  by (simp add: get_u64_def put_u64_def upt_8 bits)

section \<open>Circular distance\<close>

text \<open>
  \<open>circ (a - b)\<close> is the distance of \<open>a\<close> and \<open>b\<close> on the circle of the word's values: the
  shorter way round. Free-running counters and clocks are compared with it.
\<close>

definition circ :: "'a :: len word \<Rightarrow> nat" where
  "circ a = min (unat a) (unat (- a))"

lemma circ_minus [simp]: "circ (- a) = circ a"
  by (simp add: circ_def min.commute)

lemma unat_plus_le: "unat (a + b :: 'a :: len word) \<le> unat a + unat b"
  by (simp add: unat_word_ariths)

lemma circ_mixed: "circ (a - b :: 'a :: len word) \<le> unat a + unat b"
proof (cases "b \<le> a")
  case True
  then have "unat (a - b) = unat a - unat b" by (simp add: unat_sub word_le_nat_alt)
  then show ?thesis by (simp add: circ_def)
next
  case False
  then have "unat (b - a) = unat b - unat a" by (simp add: unat_sub word_le_nat_alt)
  then show ?thesis by (simp add: circ_def)
qed

lemma circ_triangle: "circ (a + b :: 'a :: len word) \<le> circ a + circ b"
proof -
  have "circ (a + b) \<le> unat a + unat b" 
    using unat_plus_le [of a b] by (simp add: circ_def min.coboundedI1)
  moreover have "circ (a + b) \<le> unat (- a) + unat (- b)"
    using unat_plus_le [of "- a" "- b"] by (simp add: circ_def min.coboundedI2)
  moreover have "circ (a + b) \<le> unat a + unat (- b)"
    using circ_mixed [of a "- b"] by simp
  moreover have "circ (a + b) \<le> unat (- a) + unat b"
    using circ_mixed [of b "- a"] by (simp add: add.commute)
  ultimately show ?thesis by (simp add: circ_def [of a] circ_def [of b] min_def)
qed

end
