(* ===== verification/Codec.thy ===== *)
theory Codec
  imports Prelude
begin

text \<open>
  The contract every encoder/decoder pair of the sources is held to. A message codec
  recovers each well-formed value from its encoding; a header codec does so whatever octets
  follow, so the header can stand in front of a payload. The clients' facts are proved here
  once, and each codec of the development interprets one of the two locales.
\<close>

locale message_codec =
  fixes enc :: "'a \<Rightarrow> octets"
    and dec :: "octets \<Rightarrow> 'e + 'a"
    and wf :: "'a \<Rightarrow> bool"
  assumes dec_enc: "wf x \<Longrightarrow> dec (enc x) = Inr x"
begin

lemma enc_inject: "wf x \<Longrightarrow> wf y \<Longrightarrow> enc x = enc y \<Longrightarrow> x = y"
  by (metis dec_enc sum.inject(2))

lemma dec_enc_iff: "wf x \<Longrightarrow> wf y \<Longrightarrow> dec (enc x) = Inr y \<longleftrightarrow> x = y"
  by (auto simp: dec_enc)

lemma dec_not_error: "wf x \<Longrightarrow> dec (enc x) \<noteq> Inl e"
  by (simp add: dec_enc)

end

locale header_codec =
  fixes enc :: "'a \<Rightarrow> octets"
    and dec :: "octets \<Rightarrow> 'e + 'a"
    and wf :: "'a \<Rightarrow> bool"
  assumes dec_enc_append: "wf x \<Longrightarrow> dec (enc x @ r) = Inr x"
begin

lemma self_delimiting: "wf x \<Longrightarrow> wf y \<Longrightarrow> enc x @ r = enc y @ s \<Longrightarrow> x = y \<and> r = s"
  by (metis dec_enc_append sum.inject(2) same_append_eq)

lemma dec_prefix: "wf x \<Longrightarrow> dec (enc x @ r) = dec (enc x @ s)"
  by (simp add: dec_enc_append)

end

sublocale header_codec \<subseteq> message_codec
  using dec_enc_append [where r = "[]"] by unfold_locales simp

end
