(* ===== verification/Avtp.thy ===== *)
theory Avtp
  imports Codec
begin

text \<open>
  The framing half of the wire codec, \<open>include/rcp/avtp.hpp\<close>: stream identifiers, the NTSCF
  and TSCF headers with their encoders and decoders, the reconstruction of a 64-bit time from
  a 32-bit wire timestamp, and the rules for dropping a TSCF frame.
\<close>

section \<open>Subtypes and stream identifiers\<close>

definition kSubtypeTscf :: u8 where [wire_defs]: "kSubtypeTscf = 0x05"

definition kSubtypeNtscf :: u8 where [wire_defs]: "kSubtypeNtscf = 0x82"

text \<open>\<open>std::array<uint8_t, 6> mac\<close> is a list of six octets: \<open>wf_stream_id\<close>.\<close>

record stream_id =
  mac :: octets
  suffix :: u16

definition wf_stream_id :: "stream_id \<Rightarrow> bool" where
  "wf_stream_id s \<longleftrightarrow> length (mac s) = 6"

definition to_u64 :: "stream_id \<Rightarrow> u64" where
  "to_u64 s =
     (let v = fold (\<lambda>b v. push_bit 8 v OR ucast b) (mac s) 0
      in push_bit 16 v OR ucast (suffix s))"

text \<open>The loop runs from octet 5 down to octet 0, taking the low octet each time.\<close>

fun mac_loop :: "nat \<Rightarrow> u64 \<Rightarrow> octets \<Rightarrow> octets" where
  "mac_loop 0 mac_bits m = m"
| "mac_loop (Suc i) mac_bits m =
     mac_loop i (drop_bit 8 mac_bits) (m[i := ucast (mac_bits AND 0xFF)])"

definition from_u64 :: "u64 \<Rightarrow> stream_id" where
  "from_u64 v = \<lparr>mac = mac_loop 6 (drop_bit 16 v) (replicate 6 0), suffix = ucast (v AND 0xFFFF)\<rparr>"

section \<open>Headers\<close>

record ntscf_header =
  n_sv :: bool
  n_version :: u8
  n_stream_id :: stream_id
  n_sequence_num :: u8
  n_control_data_length :: u16

record tscf_header =
  t_sv :: bool
  t_version :: u8
  t_mr :: bool
  t_stream_id :: stream_id
  t_sequence_num :: u8
  t_control_data_length :: u16
  t_timestamp_valid :: bool
  t_avtp_timestamp :: u32
  t_tu :: bool
  t_reserved0 :: u32
  t_reserved1 :: u16

definition kNtscfHeaderLen :: nat where [wire_defs]: "kNtscfHeaderLen = 12"

definition kTscfHeaderLen :: nat where [wire_defs]: "kTscfHeaderLen = 24"

definition kFlagStreamValid :: u8 where [wire_defs]: "kFlagStreamValid = 0x80"

definition kFlagTimestampValid :: u8 where [wire_defs]: "kFlagTimestampValid = 0x01"

definition kFlagMediaRestart :: u8 where [wire_defs]: "kFlagMediaRestart = 0x08"

definition kFlagTimestampUncertain :: u8 where [wire_defs]: "kFlagTimestampUncertain = 0x01"

definition kNtscfDataLengthMask :: u16 where [wire_defs]: "kNtscfDataLengthMask = 0x07FF"

definition encode_ntscf_header :: "ntscf_header \<Rightarrow> octets" where
  "encode_ntscf_header h =
     (let data_len = n_control_data_length h AND kNtscfDataLengthMask in
      [kSubtypeNtscf,
       (if n_sv h then kFlagStreamValid else 0) OR push_bit 4 (n_version h AND 0x07) OR
         ucast (drop_bit 8 data_len AND 0x07),
       ucast (data_len AND 0xFF),
       n_sequence_num h] @ put_u64 (to_u64 (n_stream_id h)))"

definition decode_ntscf_header :: "octets \<Rightarrow> ntscf_header result" where
  "decode_ntscf_header b =
     (if length b < 1 then Inl (Avtp_err Short_buffer)
      else if b ! 0 \<noteq> kSubtypeNtscf then Inl (Avtp_err Bad_subtype)
      else if length b < kNtscfHeaderLen then Inl (Avtp_err Short_buffer)
      else Inr
        \<lparr>n_sv = (b ! 1 AND kFlagStreamValid \<noteq> 0),
         n_version = drop_bit 4 (b ! 1) AND 0x07,
         n_stream_id = from_u64 (get_u64 (drop 4 b)),
         n_sequence_num = b ! 3,
         n_control_data_length = push_bit 8 (ucast (b ! 1 AND 0x07)) OR ucast (b ! 2)\<rparr>)"

definition encode_tscf_header :: "tscf_header \<Rightarrow> octets" where
  "encode_tscf_header h =
     [kSubtypeTscf,
      (if t_sv h then kFlagStreamValid else 0) OR push_bit 4 (t_version h AND 0x07) OR
        (if t_mr h then kFlagMediaRestart else 0) OR
        (if t_timestamp_valid h then kFlagTimestampValid else 0),
      t_sequence_num h,
      (if t_tu h then kFlagTimestampUncertain else 0)] @
     put_u64 (to_u64 (t_stream_id h)) @
     put_u32 (t_avtp_timestamp h) @ [0, 0, 0, 0] @
     put_u16 (t_control_data_length h) @ [0, 0]"

definition decode_tscf_header :: "octets \<Rightarrow> tscf_header result" where
  "decode_tscf_header b =
     (if length b < 1 then Inl (Avtp_err Short_buffer)
      else if b ! 0 \<noteq> kSubtypeTscf then Inl (Avtp_err Bad_subtype)
      else if length b < kTscfHeaderLen then Inl (Avtp_err Short_buffer)
      else Inr
        \<lparr>t_sv = (b ! 1 AND kFlagStreamValid \<noteq> 0),
         t_version = drop_bit 4 (b ! 1) AND 0x07,
         t_mr = (b ! 1 AND kFlagMediaRestart \<noteq> 0),
         t_stream_id = from_u64 (get_u64 (drop 4 b)),
         t_sequence_num = b ! 2,
         t_control_data_length = get_u16 (drop 20 b),
         t_timestamp_valid = (b ! 1 AND kFlagTimestampValid \<noteq> 0),
         t_avtp_timestamp = get_u32 (drop 12 b),
         t_tu = (b ! 3 AND kFlagTimestampUncertain \<noteq> 0),
         t_reserved0 = get_u32 (drop 16 b),
         t_reserved1 = get_u16 (drop 22 b)\<rparr>)"

definition peek_subtype :: "octets \<Rightarrow> u8 result" where
  "peek_subtype b = (if length b < 1 then Inl (Avtp_err Short_buffer) else Inr (b ! 0))"

section \<open>Timestamps and the TSCF drop rules\<close>

definition extend_timestamp :: "u32 \<Rightarrow> u64 \<Rightarrow> u64" where
  "extend_timestamp wire_ts reference_now =
     (let period = push_bit 32 1;
          half = period div 2;
          base = reference_now AND NOT (period - 1);
          candidate = base OR ucast wire_ts
      in if reference_now < candidate \<and> half < candidate - reference_now
         then candidate - period
         else if candidate < reference_now \<and> half < reference_now - candidate
         then candidate + period
         else candidate)"

datatype tscf_fallback = Fallback_drop | Fallback_ignore

definition should_drop_tscf :: "bool \<Rightarrow> u8 \<Rightarrow> tscf_fallback \<Rightarrow> bool" where
  "should_drop_tscf server_time_sync_supported subtype unsupported_time_sync_policy =
     (if subtype \<noteq> kSubtypeTscf then False
      else if \<not> server_time_sync_supported
      then unsupported_time_sync_policy = Fallback_drop
      else False)"

definition tscf_reserved_all_zero :: "tscf_header \<Rightarrow> bool" where
  "tscf_reserved_all_zero h \<longleftrightarrow> t_reserved0 h = 0 \<and> t_reserved1 h = 0"

section \<open>Stream identifiers are 64-bit values\<close>

lemma mac_cases:
  assumes "wf_stream_id s"
  obtains a b c d e f where "mac s = [a, b, c, d, e, f]"
  using assms by (auto simp: wf_stream_id_def length_Suc_conv eval_nat_numeral)

lemma mac_loop_eq:
  "mac_loop 6 v [0, 0, 0, 0, 0, 0] =
     [ucast (drop_bit 40 v), ucast (drop_bit 32 v), ucast (drop_bit 24 v),
      ucast (drop_bit 16 v), ucast (drop_bit 8 v), ucast v]"
proof -
  have six: "(6 :: nat) = Suc (Suc (Suc (Suc (Suc (Suc 0)))))"
    by simp
  show ?thesis
    by (subst six) simp
qed

lemma replicate_6: "replicate 6 x = [x, x, x, x, x, x]"
  by (simp add: eval_nat_numeral)

lemma from_to_u64: "wf_stream_id s \<Longrightarrow> from_u64 (to_u64 s) = s"
  by (erule mac_cases)
     (cases s; simp add: from_u64_def to_u64_def mac_loop_eq replicate_6 bits)

lemma wf_from_u64: "wf_stream_id (from_u64 v)"
  by (simp add: wf_stream_id_def from_u64_def mac_loop_eq replicate_6)

lemma to_from_u64: "to_u64 (from_u64 v) = v"
proof -
  have "push_bit 16 (drop_bit 16 v) OR ucast (ucast v :: u16) = v"
    by (rule bit_eqI) (auto simp: bit_simps)
  then show ?thesis
    by (simp add: from_u64_def to_u64_def mac_loop_eq replicate_6 octet_steps)
qed

section \<open>Headers survive the wire\<close>

definition wf_ntscf :: "ntscf_header \<Rightarrow> bool" where
  "wf_ntscf h \<longleftrightarrow> wf_stream_id (n_stream_id h) \<and> n_version h < 8 \<and> n_control_data_length h < 2 ^ 11"

definition wf_tscf :: "tscf_header \<Rightarrow> bool" where
  "wf_tscf h \<longleftrightarrow> wf_stream_id (t_stream_id h) \<and> t_version h < 8 \<and>
     t_reserved0 h = 0 \<and> t_reserved1 h = 0"

lemma ntscf_len [simp, wire_len]: "length (encode_ntscf_header h) = kNtscfHeaderLen"
  by (simp add: encode_ntscf_header_def Let_def kNtscfHeaderLen_def)

lemma tscf_len [simp, wire_len]: "length (encode_tscf_header h) = kTscfHeaderLen"
  by (simp add: encode_tscf_header_def kTscfHeaderLen_def)

text \<open>Whatever the header holds, the decoder returns it with its sub-octet fields masked.\<close>

lemma decode_encode_ntscf:
  assumes "wf_stream_id (n_stream_id h)"
  shows "decode_ntscf_header (encode_ntscf_header h @ r) =
     Inr (h\<lparr>n_version := n_version h AND 7,
            n_control_data_length := n_control_data_length h AND kNtscfDataLengthMask\<rparr>)"
  using assms
  by (cases h)
     (simp add: encode_ntscf_header_def decode_ntscf_header_def Let_def from_to_u64 wire_defs
        bits)

lemma decode_encode_tscf:
  assumes "wf_stream_id (t_stream_id h)"
  shows "decode_tscf_header (encode_tscf_header h @ r) =
     Inr (h\<lparr>t_version := t_version h AND 7, t_reserved0 := 0, t_reserved1 := 0\<rparr>)"
  using assms
  by (cases h)
     (simp add: encode_tscf_header_def decode_tscf_header_def Let_def from_to_u64 wire_defs
        bits)

interpretation ntscf: header_codec encode_ntscf_header decode_ntscf_header wf_ntscf
  by unfold_locales (simp add: decode_encode_ntscf wf_ntscf_def masked_field wire_defs)

interpretation tscf: header_codec encode_tscf_header decode_tscf_header wf_tscf
  by unfold_locales (simp add: decode_encode_tscf wf_tscf_def masked_field)

section \<open>Reconstruction of the presentation time\<close>

lemma circ_multiple:
  assumes "(ucast a :: u32) = 0" and "(a :: u64) \<noteq> 0"
  shows "2 ^ 32 \<le> circ a"
proof -
  have dvd: "2 ^ 32 dvd unat a"
    proof -
    have "unat (ucast a :: u32) = 0" using assms(1) by simp
    then have "unat a mod 2 ^ 32 = 0" by (simp add: unsigned_ucast_eq take_bit_eq_mod)
    then show ?thesis by blast
  qed
  have pos: "0 < unat a"  using assms(2) by (simp add: unat_gt_0)
  have neg: "unat (- a) = 2 ^ 64 - unat a"
    using pos unat_sub_if' [of 0 a] by simp
  have lt: "unat a < 2 ^ 64" using unat_bound [of a] by simp
  from dvd obtain k where k: "unat a = 2 ^ 32 * k" by blast
  with lt pos have "1 \<le> k" "k < 2 ^ 32" by auto
  then show ?thesis using k neg by (simp add: circ_def)
qed


lemma low_mask: "push_bit 32 1 - 1 = (mask 32 :: u64)"
  by (simp add: mask_eq_exp_minus_1)

lemma extend_timestamp_low: "ucast (extend_timestamp wire_ts now) = wire_ts"
proof -
  have base: "ucast ((now AND NOT (push_bit 32 1 - 1)) OR ucast wire_ts) = wire_ts"
    unfolding low_mask by (rule bit_eqI) (auto simp: bit_simps)
  have m: "(ucast (c - push_bit 32 1) :: u32) = ucast c" "(ucast (c + push_bit 32 1) :: u32) = ucast c" for c :: u64
  proof -
    have "uint (ucast (c + push_bit 32 1) :: u32) = uint (ucast c :: u32)"
      by (simp add: unsigned_ucast_eq take_bit_eq_mod uint_word_ariths mod_mod_cancel)
    then show "(ucast (c + push_bit 32 1) :: u32) = ucast c"
      by (rule unsigned_word_eqI)
    have "uint (ucast (c - push_bit 32 1) :: u32) = uint (ucast c :: u32)"
      by (simp add: unsigned_ucast_eq take_bit_eq_mod uint_word_ariths mod_mod_cancel)
    then show "(ucast (c - push_bit 32 1) :: u32) = ucast c"
      by (rule unsigned_word_eqI)
  qed
  show ?thesis using base 
    by (auto simp only: extend_timestamp_def Let_def m split: if_split)
qed

lemma candidate_eq: "(now AND NOT (mask 32)) OR ucast (w :: u32) = now - take_bit 32 now + (ucast w :: u64)"
proof -
  have "(now AND NOT (mask 32)) OR ucast w = (now AND NOT (mask 32)) + (ucast w :: u64)"
    by (rule disjunctive_add [symmetric]) (auto simp: bit_simps)
  moreover have "(now AND NOT (mask 32)) + take_bit 32 now = (now AND NOT (mask 32)) OR take_bit 32 now"
    by (rule disjunctive_add) (auto simp: bit_simps)
  moreover have "(now AND NOT (mask 32)) OR take_bit 32 now = now"
    by (rule bit_eqI) (auto simp: bit_simps)
  ultimately show ?thesis by (simp add: eq_diff_eq)
qed

lemma extend_timestamp_near: "circ (extend_timestamp w now - now) \<le> 2 ^ 31"
proof -
  define W :: u64 where "W = ucast w"
  define L where "L = take_bit 32 now"
  define c where "c = now - L + W"
  have W: "unat W < 2 ^ 32" 
    using unat_bound [of w] by (simp add: W_def unsigned_ucast_eq take_bit_eq_mod)
  have Lmod: "unat L = unat now mod 2 ^ 32" by (simp only: L_def unsigned_take_bit_eq) (simp add: take_bit_eq_mod)
  then have L: "unat L < 2 ^ 32" "unat L \<le> unat now" "L \<le> now"
    by (simp_all add: word_le_nat_alt)
  have "unat (now - L) = unat now - unat L" using L by (simp add: unat_sub)
  also have "\<dots> = 2 ^ 32 * (unat now div 2 ^ 32)" by (simp add: Lmod minus_mod_eq_mult_div)
  finally have base: "unat (now - L) = 2 ^ 32 * (unat now div 2 ^ 32)" .
  have "unat now div 2 ^ 32 < 2 ^ 32"
    using unat_bound [of now] by simp
  then have "unat (now - L) + unat W < 2 ^ 64" using base W by simp
  then have c: "unat c = unat now - unat L + unat W"
    using \<open>unat (now - L) = unat now - unat L\<close> by (simp add: c_def unat_plus_if')
  have gt: "now < c \<longleftrightarrow> unat L < unat W" "c < now \<longleftrightarrow> unat W < unat L"
    using c L by (auto simp: word_less_nat_alt)
  have d: "c - now = W - L" "now - c = L - W" by (simp_all add: c_def)
  have P: "unat (push_bit 32 1 :: u64) = 2 ^ 32" by simp
  have c_eq: "(now AND NOT (push_bit 32 1 - 1)) OR ucast w = c"
    by (simp only: low_mask candidate_eq c_def W_def L_def)
  have one_down: "c - push_bit 32 1 - now = - (push_bit 32 1 - (W - L))"
    and one_up: "c + push_bit 32 1 - now = push_bit 32 1 - (L - W)"
    by (simp_all only: c_def) (simp_all add: algebra_simps)
  have r: "extend_timestamp w now - now =
     (if unat L < unat W \<and> push_bit 32 1 div 2 < W - L then - (push_bit 32 1 - (W - L))
      else if unat W < unat L \<and> push_bit 32 1 div 2 < L - W then push_bit 32 1 - (L - W)
      else W - L)"
    unfolding extend_timestamp_def Let_def c_eq gt d
    by (auto simp only: one_down one_up d split: if_split)
  have less_half: "push_bit 32 1 div 2 < x \<longleftrightarrow> 2 ^ 31 < unat x" for x :: u64
    by (simp add: word_less_nat_alt)
  consider (ahead) "unat L < unat W" "2 ^ 31 < unat (W - L)"
    | (behind) "unat W < unat L" "2 ^ 31 < unat (L - W)"
    | (close) "\<not> (unat L < unat W \<and> 2 ^ 31 < unat (W - L))"
        "\<not> (unat W < unat L \<and> 2 ^ 31 < unat (L - W))"
    by blast
  then show ?thesis
  proof cases
    case ahead
    then have "unat (push_bit 32 1 - (W - L)) \<le> 2 ^ 31"
      using W by (auto simp: unat_sub_if')
    moreover have "extend_timestamp w now - now = - (push_bit 32 1 - (W - L))"
      using ahead by (simp only: r less_half) simp
    ultimately show ?thesis by (simp add: circ_def)
  next
    case behind
    then have "unat (push_bit 32 1 - (L - W)) \<le> 2 ^ 31"
      using L by (auto simp: unat_sub_if')
    moreover have "extend_timestamp w now - now = push_bit 32 1 - (L - W)"
      using behind by (simp only: r less_half) simp
    ultimately show ?thesis by (simp add: circ_def)
  next
    case close
    then have "extend_timestamp w now - now = W - L"
      by (simp only: r less_half) simp
    moreover have "unat (W - L) \<le> 2 ^ 31 \<or> unat (L - W) \<le> 2 ^ 31"
      using close W L by (auto simp: unat_sub_if' split: if_splits)
    ultimately show ?thesis by (auto simp: circ_def)
  qed
qed

lemma extend_timestamp_min:
  assumes "(ucast c :: u32) = w"
  shows "circ (extend_timestamp w now - now) \<le> circ (c - now)"
proof (cases "c = extend_timestamp w now")
  case False
  have "ucast (c - extend_timestamp w now) = (0 :: u32)"
  proof -
    have "ucast (c - extend_timestamp w now) = (ucast c - ucast (extend_timestamp w now) :: u32)"
    proof -
      have "uint (ucast (c - extend_timestamp w now) :: u32)
          = uint (ucast c - ucast (extend_timestamp w now) :: u32)"
        by (simp add: unsigned_ucast_eq take_bit_eq_mod uint_word_ariths mod_mod_cancel mod_simps)
      then show ?thesis
        by (rule unsigned_word_eqI)
    qed
    then show ?thesis using assms by (simp add: extend_timestamp_low)
  qed
  then have "2 ^ 32 \<le> circ (c - extend_timestamp w now)"
    using False by (intro circ_multiple) simp_all
  also have "\<dots> \<le> circ (c - now) + circ (now - extend_timestamp w now)"
    using circ_triangle [of "c - now" "now - extend_timestamp w now"] by simp
  also have "circ (now - extend_timestamp w now) \<le> 2 ^ 31"
    using extend_timestamp_near [of w now] circ_minus [of "now - extend_timestamp w now"] by simp
  finally show ?thesis using extend_timestamp_near [of w now] by simp
qed simp
text \<open>How far two instants are apart.\<close>

definition distance :: "u64 \<Rightarrow> u64 \<Rightarrow> nat" where
  "distance a b = (if b \<le> a then unat a - unat b else unat b - unat a)"

lemma circ_le_distance: "circ (a - b) \<le> distance a b"
proof (cases "b \<le> a")
  case True
  then have "unat (a - b) = unat a - unat b" by (simp add: unat_sub)
  then show ?thesis using True by (simp add: circ_def distance_def)
next
  case False
  then have "unat (b - a) = unat b - unat a" by (simp add: unat_sub)
  then show ?thesis using False by (simp add: circ_def distance_def)
qed

lemma distance_circ:
  fixes e b :: u64
  assumes "circ (e - b) \<le> 2 ^ 31" "2 ^ 31 \<le> unat b" "unat b < 2 ^ 48 - 2 ^ 31"
  shows "distance e b \<le> circ (e - b) \<and> unat e < 2 ^ 48"
proof -
  consider "unat (e - b) = circ (e - b)" | "unat (b - e) = circ (e - b)"
    by (cases "unat (e - b) \<le> unat (b - e)") (simp_all add: circ_def min_def)
  then show ?thesis
  proof cases
    case 1
    moreover have "e = b + (e - b)" by simp
    ultimately have "unat e = unat b + circ (e - b)"
      using assms unat_plus_if' [of b "e - b"] by simp
    then show ?thesis using assms by (auto simp: distance_def)
  next
    case 2
    moreover have "e = b - (b - e)" by simp
    ultimately have "unat e = unat b - circ (e - b)"
      using assms unat_sub [of "b - e" b] by (simp add: word_le_nat_alt)
    then show ?thesis using assms by (auto simp: distance_def)
  qed
qed

section \<open>Properties\<close>

text \<open>
  An NTSCF header comes back from the wire unchanged, whatever payload follows it, except
  that the encoder keeps only the three bits of the version and the eleven bits of the data
  length that the header has room for; the header occupies twelve octets.
\<close>

theorem ntscf_roundtrip:
  assumes "wf_stream_id (n_stream_id h)"
  shows "decode_ntscf_header (encode_ntscf_header h @ payload) =
      Inr (h\<lparr>n_version := n_version h AND 7,
             n_control_data_length := n_control_data_length h AND 0x7FF\<rparr>)
    \<and> length (encode_ntscf_header h) = 12"
  using decode_encode_ntscf [OF assms] by (simp add: wire_defs)

theorem ntscf_roundtrip_witness:
  "decode_ntscf_header
     (encode_ntscf_header
        \<lparr>n_sv = True, n_version = 9, n_stream_id = \<lparr>mac = [1, 2, 3, 4, 5, 6], suffix = 7\<rparr>,
         n_sequence_num = 255, n_control_data_length = 0x1234\<rparr> @ [42]) =
   Inr \<lparr>n_sv = True, n_version = 1, n_stream_id = \<lparr>mac = [1, 2, 3, 4, 5, 6], suffix = 7\<rparr>,
        n_sequence_num = 255, n_control_data_length = 0x234\<rparr>"
  using ntscf_roundtrip [of "\<lparr>n_sv = True, n_version = 9,
      n_stream_id = \<lparr>mac = [1, 2, 3, 4, 5, 6], suffix = 7\<rparr>,
      n_sequence_num = 255, n_control_data_length = 0x1234\<rparr>" "[42]"]
  by (simp add: wf_stream_id_def)

text \<open>
  A TSCF header comes back from the wire unchanged, whatever payload follows it, except
  that the version is cut to three bits and the two reserved fields, which the encoder
  always writes as zero, read as zero; so the decoded header passes the all-zero test.
\<close>

theorem tscf_roundtrip:
  assumes "wf_stream_id (t_stream_id h)"
  shows "\<exists>h'. decode_tscf_header (encode_tscf_header h @ payload) = Inr h'
    \<and> h' = h\<lparr>t_version := t_version h AND 7, t_reserved0 := 0, t_reserved1 := 0\<rparr>
    \<and> tscf_reserved_all_zero h'"
  using decode_encode_tscf [OF assms] by (simp add: tscf_reserved_all_zero_def)

theorem tscf_roundtrip_witness:
  "\<exists>h'. decode_tscf_header
     (encode_tscf_header
        \<lparr>t_sv = False, t_version = 3, t_mr = True,
         t_stream_id = \<lparr>mac = [1, 2, 3, 4, 5, 6], suffix = 7\<rparr>,
         t_sequence_num = 1, t_control_data_length = 20, t_timestamp_valid = True,
         t_avtp_timestamp = 99, t_tu = True, t_reserved0 = 5, t_reserved1 = 6\<rparr> @ []) = Inr h'
     \<and> t_reserved0 h' = 0 \<and> t_avtp_timestamp h' = 99 \<and> tscf_reserved_all_zero h'"
  using tscf_roundtrip [of "\<lparr>t_sv = False, t_version = 3, t_mr = True,
         t_stream_id = \<lparr>mac = [1, 2, 3, 4, 5, 6], suffix = 7\<rparr>,
         t_sequence_num = 1, t_control_data_length = 20, t_timestamp_valid = True,
         t_avtp_timestamp = 99, t_tu = True, t_reserved0 = 5, t_reserved1 = 6\<rparr>" "[]"]
  by (auto simp: wf_stream_id_def)

text \<open>
  C40. For a reference clock that is at least half a period (\<open>2 ^ 31\<close>) away from both ends of the 48-bit
  range, the reconstructed time is a 48-bit instant congruent to the wire timestamp modulo \<open>2 ^ 32\<close>, at most
  half a period away from the reference, and no other 48-bit instant congruent to the wire timestamp is
  closer to it.
\<close>

theorem extend_timestamp_closest:
  assumes "2 ^ 31 \<le> unat now" "unat now < 2 ^ 48 - 2 ^ 31"
  shows "let e = extend_timestamp wire_ts now in
    unat e < 2 ^ 48 \<and> ucast e = wire_ts \<and> distance e now \<le> 2 ^ 31 \<and>
    (\<forall>c. unat c < 2 ^ 48 \<and> ucast c = wire_ts \<longrightarrow> distance e now \<le> distance c now)"
proof -
  note near = extend_timestamp_near [of wire_ts now]
  note d = distance_circ [OF near assms]
  have "circ (extend_timestamp wire_ts now - now) \<le> distance c now" if "ucast c = wire_ts" for c
    by (rule le_trans [OF extend_timestamp_min [OF that] circ_le_distance])
  then show ?thesis
    using d near extend_timestamp_low [of wire_ts now] by (auto simp: Let_def intro: le_trans)
qed

theorem extend_timestamp_closest_witness:
  "extend_timestamp 5 0x1FFFFFFFF = 0x200000005 \<and> distance (extend_timestamp 5 0x1FFFFFFFF) 0x1FFFFFFFF \<le> 2 ^ 31"
proof -
  have "distance (extend_timestamp 5 0x1FFFFFFFF) 0x1FFFFFFFF \<le> 2 ^ 31"
    using extend_timestamp_closest [of "0x1FFFFFFFF" 5] unfolding Let_def by simp
  then show ?thesis by (simp add: extend_timestamp_def Let_def)
qed

text \<open>Outside of that range the result need not be a 48-bit instant.\<close>

lemma early_reference_wraps: "extend_timestamp 0xFFFFFFFF 0 = - 1"
  by (simp add: extend_timestamp_def Let_def)

end
