(* ===== verification/Acf.thy ===== *)
theory Acf
  imports Avtp
begin

text \<open>
  The message half of the wire codec, \<open>include/rcp/acf.hpp\<close>: the bit-packed Message Info
  header, the ACF_ABB and ACF_GBB messages, the decoder of a buffer that packs several
  messages, the response kinds and their builders, the comparison modes of compound-wait,
  and the canonical relay view of a message.
\<close>

section \<open>Message types and the shared header\<close>

definition kAcfMsgTypeGbb :: u8 where [wire_defs]: "kAcfMsgTypeGbb = 0x0D"

definition kAcfMsgTypeAbb :: u8 where [wire_defs]: "kAcfMsgTypeAbb = 0x0E"

text \<open>\<open>struct AcfMessageInfo\<close>, fields in the source's order.\<close>

record acf_info =
  a_msg_type :: u8
  a_msg_length :: u16
  a_pad :: u8
  a_mtv :: bool
  a_byte_bus_id :: u16
  a_evt_ack :: bool
  a_evt_op :: u8
  a_hs :: bool
  a_cs :: bool
  a_transaction_num :: u8
  a_op :: bool
  a_rsp :: bool
  a_err :: bool
  a_ms :: bool
  a_read_size :: u16

text \<open>A default-initialised \<open>AcfMessageInfo\<close>.\<close>

definition acf_default :: acf_info where
  "acf_default =
     \<lparr>a_msg_type = kAcfMsgTypeAbb, a_msg_length = 0, a_pad = 0, a_mtv = False,
      a_byte_bus_id = 0, a_evt_ack = False, a_evt_op = 0, a_hs = False, a_cs = False,
      a_transaction_num = 0, a_op = False, a_rsp = False, a_err = False, a_ms = False,
      a_read_size = 0\<rparr>"

definition kAcfCommonHeaderLen :: nat where [wire_defs]: "kAcfCommonHeaderLen = 8"

definition kAcfGbbTimestampLen :: nat where [wire_defs]: "kAcfGbbTimestampLen = 8"

definition kAcfGbbTimestampOffset :: nat where [wire_defs]:
  "kAcfGbbTimestampOffset = kAcfCommonHeaderLen"

definition kAcfGbbMessageInfoLen :: nat where [wire_defs]:
  "kAcfGbbMessageInfoLen = kAcfCommonHeaderLen + kAcfGbbTimestampLen"

text \<open>The return value is \<open>static_cast<uint16_t>\<close> of a \<open>size_t\<close>.\<close>

definition compute_acf_msg_length :: "u8 \<Rightarrow> nat \<Rightarrow> u16" where
  "compute_acf_msg_length acf_msg_type payload_len =
     (let fixed_len = kAcfCommonHeaderLen +
            (if acf_msg_type = kAcfMsgTypeGbb then kAcfGbbTimestampLen else 0);
          total = fixed_len + payload_len
      in of_nat ((total + 3) div 4))"

definition kEvtAcknowledge :: u8 where [wire_defs]: "kEvtAcknowledge = 0x0F"

definition kMsgTypeMask :: u8 where [wire_defs]: "kMsgTypeMask = 0x7F"
definition kMsgLengthMask :: u16 where [wire_defs]: "kMsgLengthMask = 0x01FF"
definition kPadMask :: u8 where [wire_defs]: "kPadMask = 0x03"
definition kByte2MtvBit :: u8 where [wire_defs]: "kByte2MtvBit = 0x20"
definition kByteBusIdMask :: u16 where [wire_defs]: "kByteBusIdMask = 0x07FF"
definition kEvtMask :: u8 where [wire_defs]: "kEvtMask = 0x0F"
definition kEvtOpMask :: u8 where [wire_defs]: "kEvtOpMask = 0x07"
definition kEvtAckBit :: u8 where [wire_defs]: "kEvtAckBit = 0x08"
definition kByte4HsBit :: u8 where [wire_defs]: "kByte4HsBit = 0x02"
definition kByte4CsBit :: u8 where [wire_defs]: "kByte4CsBit = 0x01"
definition kByte6OpBit :: u8 where [wire_defs]: "kByte6OpBit = 0x80"
definition kByte6RspBit :: u8 where [wire_defs]: "kByte6RspBit = 0x40"
definition kByte6ErrBit :: u8 where [wire_defs]: "kByte6ErrBit = 0x20"
definition kByte6MsBit :: u8 where [wire_defs]: "kByte6MsBit = 0x10"
definition kReadSizeMask :: u16 where [wire_defs]: "kReadSizeMask = 0x0FFF"

definition evt_of :: "acf_info \<Rightarrow> u8" where
  "evt_of info = (if a_evt_ack info then kEvtAckBit else 0) OR (a_evt_op info AND kEvtOpMask)"

definition encode_acf_message_info :: "acf_info \<Rightarrow> octets" where
  "encode_acf_message_info info =
     (let msg_length = a_msg_length info AND kMsgLengthMask;
          bus_id = a_byte_bus_id info AND kByteBusIdMask;
          evt = evt_of info;
          read_size = a_read_size info AND kReadSizeMask
      in
       [push_bit 1 (a_msg_type info AND kMsgTypeMask) OR ucast (drop_bit 8 msg_length AND 0x01),
        ucast (msg_length AND 0xFF),
        push_bit 6 (a_pad info AND kPadMask) OR (if a_mtv info then kByte2MtvBit else 0) OR
          ucast (drop_bit 8 bus_id AND 0x07),
        ucast (bus_id AND 0xFF),
        push_bit 4 evt OR (if a_hs info then kByte4HsBit else 0) OR
          (if a_cs info then kByte4CsBit else 0),
        a_transaction_num info,
        (if a_op info then kByte6OpBit else 0) OR (if a_rsp info then kByte6RspBit else 0) OR
          (if a_err info then kByte6ErrBit else 0) OR (if a_ms info then kByte6MsBit else 0) OR
          ucast (drop_bit 8 read_size AND 0x0F),
        ucast (read_size AND 0xFF)])"

definition decode_acf_message_info :: "octets \<Rightarrow> acf_info" where
  "decode_acf_message_info b =
     (let evt = drop_bit 4 (b ! 4) AND kEvtMask in
      \<lparr>a_msg_type = drop_bit 1 (b ! 0),
       a_msg_length = push_bit 8 (ucast (b ! 0 AND 0x01)) OR ucast (b ! 1),
       a_pad = drop_bit 6 (b ! 2) AND kPadMask,
       a_mtv = (b ! 2 AND kByte2MtvBit \<noteq> 0),
       a_byte_bus_id = push_bit 8 (ucast (b ! 2 AND 0x07)) OR ucast (b ! 3),
       a_evt_ack = (evt AND kEvtAckBit \<noteq> 0),
       a_evt_op = evt AND kEvtOpMask,
       a_hs = (b ! 4 AND kByte4HsBit \<noteq> 0),
       a_cs = (b ! 4 AND kByte4CsBit \<noteq> 0),
       a_transaction_num = b ! 5,
       a_op = (b ! 6 AND kByte6OpBit \<noteq> 0),
       a_rsp = (b ! 6 AND kByte6RspBit \<noteq> 0),
       a_err = (b ! 6 AND kByte6ErrBit \<noteq> 0),
       a_ms = (b ! 6 AND kByte6MsBit \<noteq> 0),
       a_read_size = push_bit 8 (ucast (b ! 6 AND 0x0F)) OR ucast (b ! 7)\<rparr>)"

definition encode_acf_gbb_message_info :: "acf_info \<Rightarrow> u64 \<Rightarrow> octets" where
  "encode_acf_gbb_message_info info message_timestamp =
     encode_acf_message_info info @ put_u64 message_timestamp"

definition decode_acf_gbb_message_info :: "octets \<Rightarrow> acf_info \<times> u64" where
  "decode_acf_gbb_message_info b =
     (decode_acf_message_info b, get_u64 (drop kAcfGbbTimestampOffset b))"

section \<open>ACF_ABB and ACF_GBB messages\<close>

definition peek_acf_msg_type :: "octets \<Rightarrow> u8" where
  "peek_acf_msg_type b = drop_bit 1 (b ! 0)"

definition peek_msg_type :: "octets \<Rightarrow> u8 result" where
  "peek_msg_type b =
     (if length b < 1 then Inl (Avtp_err Short_buffer) else Inr (peek_acf_msg_type b))"

definition pad_len :: "nat \<Rightarrow> u8" where
  "pad_len unpadded_len = of_nat ((4 - unpadded_len mod 4) mod 4)"

definition kAcfMaxQuadlets :: nat where [wire_defs]: "kAcfMaxQuadlets = 0x1FF"

definition kAcfAbbMaxPayload :: nat where [wire_defs]:
  "kAcfAbbMaxPayload = kAcfMaxQuadlets * 4 - kAcfCommonHeaderLen"

definition kAcfGbbMaxPayload :: nat where [wire_defs]:
  "kAcfGbbMaxPayload = kAcfMaxQuadlets * 4 - kAcfGbbMessageInfoLen"

text \<open>A length of zero in the caller's header means \<open>compute it from the payload\<close>.\<close>

definition fill_length :: "acf_info \<Rightarrow> nat \<Rightarrow> acf_info" where
  "fill_length info payload_len =
     (if a_msg_length info = 0
      then info\<lparr>a_msg_length := compute_acf_msg_length (a_msg_type info) payload_len\<rparr>
      else info)"

definition encode_acf_abb :: "acf_info \<Rightarrow> octets \<Rightarrow> octets" where
  "encode_acf_abb info payload =
     (let info = info\<lparr>a_msg_type := kAcfMsgTypeAbb, a_mtv := False\<rparr>;
          info = fill_length info (length payload)
      in encode_acf_message_info info @ payload)"

definition decode_acf_abb :: "octets \<Rightarrow> (acf_info \<times> octets) result" where
  "decode_acf_abb b =
     (if length b < 1 then Inl (Avtp_err Short_buffer)
      else if peek_acf_msg_type b \<noteq> kAcfMsgTypeAbb then Inl (Acf_err Bad_acf_msg_type)
      else if length b < kAcfCommonHeaderLen then Inl (Avtp_err Short_buffer)
      else Inr (decode_acf_message_info b, drop kAcfCommonHeaderLen b))"

definition encode_acf_gbb :: "acf_info \<Rightarrow> u64 \<Rightarrow> octets \<Rightarrow> octets" where
  "encode_acf_gbb info message_timestamp payload =
     (let info = info\<lparr>a_msg_type := kAcfMsgTypeGbb\<rparr>;
          info = fill_length info (length payload)
      in encode_acf_gbb_message_info info message_timestamp @ payload)"

definition decode_acf_gbb :: "octets \<Rightarrow> (acf_info \<times> u64 \<times> octets) result" where
  "decode_acf_gbb b =
     (if length b < 1 then Inl (Avtp_err Short_buffer)
      else if peek_acf_msg_type b \<noteq> kAcfMsgTypeGbb then Inl (Acf_err Bad_acf_msg_type)
      else if length b < kAcfGbbMessageInfoLen then Inl (Avtp_err Short_buffer)
      else
        (let (info, message_timestamp) = decode_acf_gbb_message_info b
         in Inr (info, message_timestamp, drop kAcfGbbMessageInfoLen b)))"

section \<open>Several messages in one buffer\<close>

record acf_entry =
  en_info :: acf_info
  en_timestamp :: u64
  en_payload :: octets

text \<open>
  The loop of \<open>decode_acf_messages\<close>: \<open>b\<close> is what remains of the buffer behind \<open>off\<close>, \<open>out\<close>
  the entries found so far. A declared length that does not cover the fixed part, or claims
  more than remains, is replaced by what remains.
\<close>

definition fixed_len_of :: "bool \<Rightarrow> nat" where
  "fixed_len_of is_gbb = (if is_gbb then kAcfGbbMessageInfoLen else kAcfCommonHeaderLen)"

definition msg_bytes_of :: "acf_info \<Rightarrow> nat \<Rightarrow> nat \<Rightarrow> nat" where
  "msg_bytes_of info fixed_len remaining =
     (let msg_bytes = unat (a_msg_length info) * 4
      in if msg_bytes < fixed_len \<or> remaining < msg_bytes then remaining else msg_bytes)"

function decode_messages_loop :: "octets \<Rightarrow> acf_entry list \<Rightarrow> acf_entry list result" where
  "decode_messages_loop b out =
     (if b = [] then Inr out
      else
        (let is_gbb = (peek_acf_msg_type b = kAcfMsgTypeGbb);
             is_abb = (peek_acf_msg_type b = kAcfMsgTypeAbb)
         in
          if \<not> is_gbb \<and> \<not> is_abb
          then (if out = [] then Inl (Acf_err Bad_acf_msg_type) else Inr out)
          else if length b < fixed_len_of is_gbb
          then (if out = [] then Inl (Avtp_err Short_buffer) else Inr out)
          else
            (let (info, message_timestamp) =
                   (if is_gbb then decode_acf_gbb_message_info b
                    else (decode_acf_message_info b, 0));
                 msg_bytes = msg_bytes_of info (fixed_len_of is_gbb) (length b);
                 entry = \<lparr>en_info = info, en_timestamp = message_timestamp,
                   en_payload = take (msg_bytes - fixed_len_of is_gbb) (drop (fixed_len_of is_gbb) b)\<rparr>
             in decode_messages_loop (drop msg_bytes b) (out @ [entry]))))"
  by pat_completeness auto
termination
  by (relation "measure (\<lambda>(b, out). length b)")
     (auto simp: msg_bytes_of_def fixed_len_of_def Let_def wire_defs split: if_splits)

declare decode_messages_loop.simps [simp del]

definition decode_acf_messages :: "octets \<Rightarrow> acf_entry list result" where
  "decode_acf_messages b = decode_messages_loop b []"

section \<open>Messages survive the wire\<close>

text \<open>What the header keeps of each field.\<close>

definition mask_info :: "acf_info \<Rightarrow> acf_info" where
  "mask_info info = info
     \<lparr>a_msg_type := a_msg_type info AND 0x7F, a_msg_length := a_msg_length info AND 0x1FF,
      a_pad := a_pad info AND 0x03, a_byte_bus_id := a_byte_bus_id info AND 0x7FF,
      a_evt_op := a_evt_op info AND 0x07, a_read_size := a_read_size info AND 0xFFF\<rparr>"

definition wf_info :: "acf_info \<Rightarrow> bool" where
  "wf_info info \<longleftrightarrow>
     a_msg_type info < 0x80 \<and> a_msg_length info < 0x200 \<and> a_pad info < 4 \<and>
     a_byte_bus_id info < 0x800 \<and> a_evt_op info < 8 \<and> a_read_size info < 0x1000"

lemma mask_wf: "wf_info info \<Longrightarrow> mask_info info = info"
  by (cases info) (simp add: wf_info_def mask_info_def masked_field)

lemma info_len [simp, wire_len]: "length (encode_acf_message_info info) = 8"
  by (simp add: encode_acf_message_info_def Let_def)

lemma gbb_info_len [simp, wire_len]: "length (encode_acf_gbb_message_info info ts) = 16"
  by (simp add: encode_acf_gbb_message_info_def)

lemma decode_encode_info [simp]:
  "decode_acf_message_info (encode_acf_message_info info @ r) = mask_info info"
  by (cases info)
     (simp add: encode_acf_message_info_def decode_acf_message_info_def mask_info_def evt_of_def
        Let_def wire_defs bits)

lemma encode_mask_info: "encode_acf_message_info (mask_info info) = encode_acf_message_info info"
  by (simp add: encode_acf_message_info_def mask_info_def evt_of_def Let_def wire_defs bits)

lemma decode_encode_gbb_info [simp]:
  "decode_acf_gbb_message_info (encode_acf_gbb_message_info info ts @ r) = (mask_info info, ts)"
  by (simp add: decode_acf_gbb_message_info_def encode_acf_gbb_message_info_def wire_defs)

lemma peek_info [simp]:
  "peek_acf_msg_type (encode_acf_message_info info @ r) = a_msg_type info AND 0x7F"
  by (simp add: peek_acf_msg_type_def encode_acf_message_info_def Let_def wire_defs bits)

lemma peek_gbb_info [simp]:
  "peek_acf_msg_type (encode_acf_gbb_message_info info ts @ r) = a_msg_type info AND 0x7F"
  by (simp add: encode_acf_gbb_message_info_def)

lemma info_ne_Nil [simp]: "encode_acf_message_info info \<noteq> []" "encode_acf_gbb_message_info info ts \<noteq> []"
  using info_len [of info] gbb_info_len [of info ts] by (metis list.size(3) zero_neq_numeral)+

lemma unat_msg_length: "unat (a_msg_length (mask_info info)) = unat (a_msg_length info) mod 512"
  by (simp add: mask_info_def unat_and_0x1FF)

interpretation acf_header: header_codec encode_acf_message_info
    "\<lambda>b. Inr (decode_acf_message_info b)" wf_info
  by unfold_locales (simp add: mask_wf)

interpretation gbb_header: header_codec "\<lambda>(info, ts). encode_acf_gbb_message_info info ts"
    "\<lambda>b. Inr (decode_acf_gbb_message_info b)" "\<lambda>(info, ts). wf_info info"
  by unfold_locales (auto simp: mask_wf)

text \<open>The header that goes on the wire for an ACF_ABB or ACF_GBB message with this payload.\<close>

definition abb_header :: "acf_info \<Rightarrow> octets \<Rightarrow> acf_info" where
  "abb_header info payload =
     fill_length (info\<lparr>a_msg_type := kAcfMsgTypeAbb, a_mtv := False\<rparr>) (length payload)"

definition gbb_header :: "acf_info \<Rightarrow> octets \<Rightarrow> acf_info" where
  "gbb_header info payload =
     fill_length (info\<lparr>a_msg_type := kAcfMsgTypeGbb\<rparr>) (length payload)"

lemma fill_length_simps [simp]:
  "a_msg_type (fill_length info n) = a_msg_type info"
  "a_mtv (fill_length info n) = a_mtv info"
  "a_pad (fill_length info n) = a_pad info"
  by (simp_all add: fill_length_def)

lemma encode_abb_eq: "encode_acf_abb info payload = encode_acf_message_info (abb_header info payload) @ payload"
  by (simp add: encode_acf_abb_def abb_header_def Let_def)

lemma encode_gbb_eq:
  "encode_acf_gbb info ts payload = encode_acf_gbb_message_info (gbb_header info payload) ts @ payload"
  by (simp add: encode_acf_gbb_def gbb_header_def Let_def)

lemma decode_encode_abb:
  "decode_acf_abb (encode_acf_abb info payload) = Inr (mask_info (abb_header info payload), payload)"
  by (simp add: decode_acf_abb_def encode_abb_eq abb_header_def wire_defs)

lemma decode_encode_gbb:
  "decode_acf_gbb (encode_acf_gbb info ts payload) = Inr (mask_info (gbb_header info payload), ts, payload)"
  by (simp add: decode_acf_gbb_def encode_gbb_eq gbb_header_def wire_defs)

section \<open>Buffers of several messages\<close>

text \<open>An entry as its sender encodes it, and the entries whose declared length is exact.\<close>

definition encode_entry :: "acf_entry \<Rightarrow> octets" where
  "encode_entry e =
     (if a_msg_type (en_info e) = kAcfMsgTypeGbb
      then encode_acf_gbb (en_info e) (en_timestamp e) (en_payload e)
      else encode_acf_abb (en_info e) (en_payload e))"

definition exact_entry :: "acf_entry \<Rightarrow> bool" where
  "exact_entry e \<longleftrightarrow>
     wf_info (en_info e) \<and>
     (if a_msg_type (en_info e) = kAcfMsgTypeGbb
      then unat (a_msg_length (en_info e)) * 4 = kAcfGbbMessageInfoLen + length (en_payload e)
      else a_msg_type (en_info e) = kAcfMsgTypeAbb \<and> \<not> a_mtv (en_info e) \<and> en_timestamp e = 0 \<and>
           unat (a_msg_length (en_info e)) * 4 = kAcfCommonHeaderLen + length (en_payload e))"

lemma exact_length: "exact_entry e \<Longrightarrow> a_msg_length (en_info e) \<noteq> 0"
  by (auto simp: exact_entry_def wire_defs split: if_splits)

lemma loop_Nil [simp]: "decode_messages_loop [] out = Inr out"
  by (subst decode_messages_loop.simps) simp

lemma loop_entry:
  assumes "exact_entry e"
  shows "decode_messages_loop (encode_entry e @ rest) out = decode_messages_loop rest (out @ [e])"
proof (cases "a_msg_type (en_info e) = kAcfMsgTypeGbb")
  case True
  have wf: "wf_info (en_info e)" and len: "unat (a_msg_length (en_info e)) * 4 = 16 + length (en_payload e)"
    using assms True by (auto simp: exact_entry_def wire_defs)
  have hdr: "gbb_header (en_info e) (en_payload e) = en_info e"
    using True exact_length [OF assms] by (simp add: gbb_header_def fill_length_def)
  have e_eq: "\<lparr>en_info = en_info e, en_timestamp = en_timestamp e, en_payload = en_payload e\<rparr> = e"
    by simp
  show ?thesis
    by (subst decode_messages_loop.simps)
       (use True wf len in \<open>simp add: e_eq encode_entry_def encode_gbb_eq hdr mask_wf wire_defs
         fixed_len_of_def msg_bytes_of_def Let_def\<close>)
next
  case False
  have wf: "wf_info (en_info e)" and len: "unat (a_msg_length (en_info e)) * 4 = 8 + length (en_payload e)"
    and ty: "a_msg_type (en_info e) = kAcfMsgTypeAbb" and mtv: "\<not> a_mtv (en_info e)" and ts: "en_timestamp e = 0"
    using assms False by (auto simp: exact_entry_def wire_defs split: if_splits)
  have hdr: "abb_header (en_info e) (en_payload e) = en_info e"
    using ty mtv exact_length [OF assms] by (cases "en_info e") (simp add: abb_header_def fill_length_def)
  have e_eq: "\<lparr>en_info = en_info e, en_timestamp = 0, en_payload = en_payload e\<rparr> = e"
    using ts by (cases e) simp
  show ?thesis
    by (subst decode_messages_loop.simps)
       (use ty ts wf len in \<open>simp add: e_eq encode_entry_def encode_abb_eq hdr mask_wf wire_defs
         fixed_len_of_def msg_bytes_of_def Let_def\<close>)
qed

lemma loop_entries:
  "\<forall>e \<in> set es. exact_entry e \<Longrightarrow>
     decode_messages_loop (concat (map encode_entry es)) out = Inr (out @ es)"
  by (induction es arbitrary: out) (simp_all add: loop_entry)

text \<open>Arbitrary buffers: each turn of the loop takes one message off the front.\<close>

definition entry_octets :: "acf_entry \<Rightarrow> nat" where
  "entry_octets e =
     fixed_len_of (a_msg_type (en_info e) = kAcfMsgTypeGbb) + length (en_payload e)"

definition known_type :: "u8 \<Rightarrow> bool" where
  "known_type ty \<longleftrightarrow> ty \<in> {kAcfMsgTypeAbb, kAcfMsgTypeGbb}"

lemma msg_bytes_bounds:
  "fixed_len \<le> remaining \<Longrightarrow>
     fixed_len \<le> msg_bytes_of info fixed_len remaining \<and> msg_bytes_of info fixed_len remaining \<le> remaining"
  by (auto simp: msg_bytes_of_def Let_def)

lemma fixed_len_pos: "0 < fixed_len_of g"
  by (simp add: fixed_len_of_def wire_defs)

lemma decode_type: "a_msg_type (decode_acf_message_info b) = peek_acf_msg_type b"
  by (simp add: decode_acf_message_info_def peek_acf_msg_type_def Let_def)

lemma loop_step:
  assumes "b \<noteq> []" and "known_type (peek_acf_msg_type b)"
    and "fixed_len_of (peek_acf_msg_type b = kAcfMsgTypeGbb) \<le> length b"
  obtains e where "decode_messages_loop b out = decode_messages_loop (drop (entry_octets e) b) (out @ [e])"
    and "0 < entry_octets e" and "entry_octets e \<le> length b" and "known_type (a_msg_type (en_info e))"
proof -
  let ?g = "peek_acf_msg_type b = kAcfMsgTypeGbb"
  define info where "info = decode_acf_message_info b"
  define ts where "ts = (if ?g then get_u64 (drop kAcfGbbTimestampOffset b) else 0)"
  define n where "n = msg_bytes_of info (fixed_len_of ?g) (length b)"
  define e where "e = \<lparr>en_info = info, en_timestamp = ts,
      en_payload = take (n - fixed_len_of ?g) (drop (fixed_len_of ?g) b)\<rparr>"
  have pair: "(if ?g then decode_acf_gbb_message_info b else (decode_acf_message_info b, 0)) = (info, ts)"
    by (simp add: decode_acf_gbb_message_info_def info_def ts_def)
  have n: "fixed_len_of ?g \<le> n" "n \<le> length b"
    using assms(3) msg_bytes_bounds by (auto simp: n_def)
  have len: "entry_octets e = n"
    using n by (simp add: entry_octets_def e_def info_def decode_type)
  have "decode_messages_loop b out = decode_messages_loop (drop n b) (out @ [e])"
    by (subst decode_messages_loop.simps)
       (use assms in \<open>auto simp: pair n_def [symmetric] e_def known_type_def Let_def\<close>)
  moreover have "known_type (a_msg_type (en_info e))"
    using assms(2) by (simp add: e_def info_def decode_type)
  ultimately show thesis
    using that [of e] n fixed_len_pos [of ?g] by (simp add: len)
qed

text \<open>
  Otherwise the loop stops, and reports an error only if it has found no message yet.
\<close>

lemma loop_stop:
  "b \<noteq> [] \<Longrightarrow> \<not> known_type (peek_acf_msg_type b) \<Longrightarrow>
     decode_messages_loop b out = (if out = [] then Inl (Acf_err Bad_acf_msg_type) else Inr out)"
  "b \<noteq> [] \<Longrightarrow> known_type (peek_acf_msg_type b) \<Longrightarrow>
     length b < fixed_len_of (peek_acf_msg_type b = kAcfMsgTypeGbb) \<Longrightarrow>
     decode_messages_loop b out = (if out = [] then Inl (Avtp_err Short_buffer) else Inr out)"
  by (subst decode_messages_loop.simps, auto simp: known_type_def Let_def)+

lemma loop_cases [consumes 1, case_names alien short message]:
  assumes "b \<noteq> []"
  obtains "\<not> known_type (peek_acf_msg_type b)"
    | "known_type (peek_acf_msg_type b)"
      "length b < fixed_len_of (peek_acf_msg_type b = kAcfMsgTypeGbb)"
    | "known_type (peek_acf_msg_type b)"
      "fixed_len_of (peek_acf_msg_type b = kAcfMsgTypeGbb) \<le> length b"
  using assms by linarith

lemma loop_total:
  "out \<noteq> [] \<Longrightarrow> \<exists>new. decode_messages_loop b out = Inr (out @ new) \<and>
     sum_list (map entry_octets new) \<le> length b \<and> (\<forall>e \<in> set new. known_type (a_msg_type (en_info e)))"
proof (induction b arbitrary: out rule: measure_induct_rule [of length])
  case (less b)
  show ?case
  proof (cases "b = []")
    case False
    then show ?thesis
    proof (cases rule: loop_cases)
      case message
      obtain e where e: "decode_messages_loop b out
            = decode_messages_loop (drop (entry_octets e) b) (out @ [e])"
        "0 < entry_octets e" "entry_octets e \<le> length b" "known_type (a_msg_type (en_info e))"
        using False message by (rule loop_step)
      have "length (drop (entry_octets e) b) < length b"
        using e by simp
      then obtain new where "decode_messages_loop (drop (entry_octets e) b) (out @ [e]) = Inr ((out @ [e]) @ new)"
        "sum_list (map entry_octets new) \<le> length (drop (entry_octets e) b)"
        "\<forall>e \<in> set new. known_type (a_msg_type (en_info e))"
        using less.IH [of "drop (entry_octets e) b" "out @ [e]"] by blast
      then show ?thesis
        using e by (intro exI [of _ "e # new"]) auto
    qed (use False less.prems in \<open>auto simp: loop_stop\<close>)
  qed simp
qed

lemma compute_length_exact:
  assumes "payload_len mod 4 = 0" and "fixed + payload_len < 2048"
    and "fixed = kAcfCommonHeaderLen + (if ty = kAcfMsgTypeGbb then kAcfGbbTimestampLen else 0)"
  shows "unat (compute_acf_msg_length ty payload_len) * 4 = fixed + payload_len"
proof -
  have "fixed mod 4 = 0"
    using assms(3) by (simp add: wire_defs)
  then have m: "(fixed + payload_len) mod 4 = 0"
    using assms(1) by (simp add: mod_add_eq [symmetric])
  then have "(fixed + payload_len + 3) div 4 = (fixed + payload_len) div 4"
    by presburger
  moreover have "(fixed + payload_len) div 4 < 2 ^ 16"
    using assms(2) by simp
  ultimately have "unat (compute_acf_msg_length ty payload_len) = (fixed + payload_len) div 4"
    using assms(3)
    by (simp add: compute_acf_msg_length_def Let_def unsigned_of_nat take_bit_eq_mod)
  then show ?thesis
    using m by presburger
qed

section \<open>Properties\<close>

text \<open>
  An ACF_ABB message decodes to its header, with each field cut to its wire width, and to
  exactly its payload; an ACF_GBB message also gives back its full 64-bit timestamp.
\<close>

theorem acf_message_roundtrip:
  "decode_acf_abb (encode_acf_abb info payload) =
     Inr (mask_info (abb_header info payload), payload)
   \<and> decode_acf_gbb (encode_acf_gbb info ts payload) =
     Inr (mask_info (gbb_header info payload), ts, payload)"
  by (simp add: decode_encode_abb decode_encode_gbb)

text \<open>
  C20. A buffer that packs messages whose declared lengths are exact decodes to those messages,
  in order, each with its own header, timestamp and payload: every message boundary is found.
\<close>

theorem decode_acf_messages_concat:
  assumes "\<forall>e \<in> set es. exact_entry e"
  shows "decode_acf_messages (concat (map encode_entry es)) = Inr es"
  using loop_entries [OF assms, of "[]"] by (simp add: decode_acf_messages_def)

theorem decode_acf_messages_concat_witness:
  "decode_acf_messages (concat (map encode_entry
      [\<lparr>en_info = acf_default\<lparr>a_msg_length := 3, a_byte_bus_id := 5\<rparr>, en_timestamp = 0,
        en_payload = [1, 2, 3, 4]\<rparr>,
       \<lparr>en_info = acf_default\<lparr>a_msg_type := kAcfMsgTypeGbb, a_msg_length := 4\<rparr>, en_timestamp = 77,
        en_payload = []\<rparr>])) =
   Inr [\<lparr>en_info = acf_default\<lparr>a_msg_length := 3, a_byte_bus_id := 5\<rparr>, en_timestamp = 0,
        en_payload = [1, 2, 3, 4]\<rparr>,
       \<lparr>en_info = acf_default\<lparr>a_msg_type := kAcfMsgTypeGbb, a_msg_length := 4\<rparr>, en_timestamp = 77,
        en_payload = []\<rparr>]"
  by (rule decode_acf_messages_concat)
     (simp add: exact_entry_def wf_info_def acf_default_def wire_defs)

text \<open>
  C21. Whatever octets a buffer holds, the decoder of several messages returns: either an error,
  which can only come from the first message (an unknown type, or too few octets for the fixed
  part), or a list of messages of the two known types that together fit inside the buffer,
  empty only for an empty buffer.
\<close>

theorem decode_acf_messages_total:
  "case decode_acf_messages b of
     Inl e \<Rightarrow> b \<noteq> [] \<and>
       (e = Acf_err Bad_acf_msg_type \<and>
          \<not> known_type (peek_acf_msg_type b)
        \<or> e = Avtp_err Short_buffer \<and>
          length b < fixed_len_of (peek_acf_msg_type b = kAcfMsgTypeGbb))
   | Inr es \<Rightarrow>
       sum_list (map entry_octets es) \<le> length b \<and>
       (\<forall>e \<in> set es. known_type (a_msg_type (en_info e))) \<and>
       (es = [] \<longleftrightarrow> b = [])"
proof (cases "b = []")
  case False
  then show ?thesis
  proof (cases rule: loop_cases)
    case message
    obtain e where e: "decode_messages_loop b []
          = decode_messages_loop (drop (entry_octets e) b) ([] @ [e])"
      "entry_octets e \<le> length b" "known_type (a_msg_type (en_info e))"
      using False message by (rule loop_step)
    then obtain new where "decode_acf_messages b = Inr (e # new)"
      "sum_list (map entry_octets new) \<le> length (drop (entry_octets e) b)"
      "\<forall>e \<in> set new. known_type (a_msg_type (en_info e))"
      using loop_total [of "[e]" "drop (entry_octets e) b"] by (auto simp: decode_acf_messages_def)
    then show ?thesis
      using e False by auto
  qed (use False in \<open>auto simp: decode_acf_messages_def loop_stop\<close>)
qed (simp add: decode_acf_messages_def)

lemma decode_acf_messages_total_witness:
  "case decode_acf_messages [28, 2, 0, 0, 0, 0, 0, 0] of
     Inl e \<Rightarrow> False
   | Inr es \<Rightarrow> es \<noteq> [] \<and> sum_list (map entry_octets es) \<le> 8"
  using decode_acf_messages_total [of "[28, 2, 0, 0, 0, 0, 0, 0]"]
  by (simp add: known_type_def peek_acf_msg_type_def wire_defs fixed_len_of_def split: sum.splits)

text \<open>
  When a caller leaves the length field at zero and the payload is a whole number of
  quadlets, small enough for the nine-bit field, the header that goes on the wire declares
  exactly the octets of the message, so the next message in the buffer is found.
\<close>

theorem auto_length_exact:
  assumes "a_msg_length info = 0" and "length payload mod 4 = 0"
    and "length payload \<le> kAcfGbbMaxPayload"
  shows "unat (a_msg_length (mask_info (abb_header info payload))) * 4
       = length (encode_acf_abb info payload)
   \<and> unat (a_msg_length (mask_info (gbb_header info payload))) * 4
       = length (encode_acf_gbb info ts payload)"
proof -
  have abb: "unat (compute_acf_msg_length kAcfMsgTypeAbb (length payload)) * 4 = 8 + length payload"
    using assms by (intro compute_length_exact) (auto simp: wire_defs)
  have gbb: "unat (compute_acf_msg_length kAcfMsgTypeGbb (length payload)) * 4 = 16 + length payload"
    using assms by (intro compute_length_exact) (auto simp: wire_defs)
  show ?thesis
    using abb gbb assms
    by (simp add: unat_msg_length abb_header_def gbb_header_def fill_length_def encode_abb_eq
        encode_gbb_eq wire_defs)
qed

theorem auto_length_exact_witness:
  "unat (a_msg_length (mask_info (abb_header acf_default [1, 2, 3, 4]))) * 4
     = length (encode_acf_abb acf_default [1, 2, 3, 4])"
  using auto_length_exact [of acf_default "[1, 2, 3, 4]" 0]
  by (simp add: acf_default_def wire_defs)

end
