(* ===== verification/Acf_Response.thy ===== *)
theory Acf_Response
  imports Acf
begin

text \<open>
  The second half of \<open>include/rcp/acf.hpp\<close>: response kinds and response builders, the
  validation of request headers, the comparison modes of compound-wait, register-write
  lengths, the choice of a timestamp and the canonical relay view of a message.
\<close>

section \<open>Requests and responses\<close>

definition make_standard_request :: "u16 \<Rightarrow> u8 \<Rightarrow> bool \<Rightarrow> u16 \<Rightarrow> acf_info" where
  "make_standard_request bus_id transaction_num write read_size =
     acf_default\<lparr>a_msg_type := kAcfMsgTypeAbb, a_byte_bus_id := bus_id,
       a_transaction_num := transaction_num, a_op := write, a_rsp := False, a_err := False,
       a_read_size := (if write then 0 else read_size)\<rparr>"

datatype response_kind = Acknowledge | WriteResponse | ReadResponse | ErrorResponse

definition response_kind_of :: "acf_info \<Rightarrow> response_kind" where
  "response_kind_of info =
     (let evt = (if a_evt_ack info then kEvtAckBit else 0) OR (a_evt_op info AND kEvtOpMask)
      in if evt = kEvtAcknowledge then Acknowledge
         else if a_err info then ErrorResponse
         else if a_op info then WriteResponse else ReadResponse)"

definition make_response :: "acf_info \<Rightarrow> response_kind \<Rightarrow> acf_info" where
  "make_response request kind =
     (let resp = acf_default\<lparr>a_msg_type := a_msg_type request,
            a_byte_bus_id := a_byte_bus_id request,
            a_transaction_num := a_transaction_num request, a_rsp := True\<rparr>;
          resp = (if kind = Acknowledge
            then resp\<lparr>a_evt_ack := True, a_evt_op := kEvtOpMask\<rparr> else resp)
      in resp\<lparr>a_err := (kind = ErrorResponse), a_op := (kind = WriteResponse)\<rparr>)"

datatype wire_error_code =
    UnsupportedCmd | SequencerNotKnown | UnauthorizedAccess | LockedMemAccess
  | RequestCanceled | RequestNotFound | EpError | EpNotFound | PwmInNoSignal
  | ReqStorageOverflow | RequestRejected | PociFailure | PresentationTimeTooFar
  | GptpFail | InvalidParameter | ChainAborted | ChainError

fun wire_code :: "wire_error_code \<Rightarrow> u8" where
  "wire_code UnsupportedCmd = 1"
| "wire_code SequencerNotKnown = 2"
| "wire_code UnauthorizedAccess = 3"
| "wire_code LockedMemAccess = 4"
| "wire_code RequestCanceled = 5"
| "wire_code RequestNotFound = 6"
| "wire_code EpError = 7"
| "wire_code EpNotFound = 8"
| "wire_code PwmInNoSignal = 9"
| "wire_code ReqStorageOverflow = 10"
| "wire_code RequestRejected = 11"
| "wire_code PociFailure = 12"
| "wire_code PresentationTimeTooFar = 13"
| "wire_code GptpFail = 14"
| "wire_code InvalidParameter = 15"
| "wire_code ChainAborted = 16"
| "wire_code ChainError = 17"

definition encode_error_payload :: "wire_error_code \<Rightarrow> octets" where
  "encode_error_payload code = [wire_code code]"

definition build_error_response :: "u16 \<Rightarrow> u8 \<Rightarrow> wire_error_code \<Rightarrow> octets" where
  "build_error_response byte_bus_id transaction_num error_code =
     encode_acf_abb
       (acf_default\<lparr>a_byte_bus_id := byte_bus_id, a_transaction_num := transaction_num,
          a_op := True, a_rsp := True, a_err := True\<rparr>)
       (encode_error_payload error_code)"

definition evt_requests_acknowledge :: "u8 \<Rightarrow> bool" where
  "evt_requests_acknowledge evt \<longleftrightarrow> evt AND 0x08 \<noteq> 0"

definition build_acknowledge_response :: "u16 \<Rightarrow> u8 \<Rightarrow> octets" where
  "build_acknowledge_response byte_bus_id transaction_num =
     encode_acf_abb
       (acf_default\<lparr>a_byte_bus_id := byte_bus_id, a_transaction_num := transaction_num,
          a_evt_ack := True, a_evt_op := kEvtOpMask, a_op := True, a_rsp := True\<rparr>) []"

definition build_acknowledge_rejected_response :: "u16 \<Rightarrow> u8 \<Rightarrow> wire_error_code \<Rightarrow> octets" where
  "build_acknowledge_rejected_response byte_bus_id transaction_num error_code =
     encode_acf_abb
       (acf_default\<lparr>a_byte_bus_id := byte_bus_id, a_transaction_num := transaction_num,
          a_evt_ack := True, a_evt_op := kEvtOpMask, a_op := True, a_rsp := True, a_err := True\<rparr>)
       (encode_error_payload error_code)"

definition header_is_request :: "acf_info \<Rightarrow> bool" where
  "header_is_request hdr \<longleftrightarrow> \<not> a_rsp hdr"

definition request_header_constraints_valid :: "acf_info \<Rightarrow> bool \<Rightarrow> bool" where
  "request_header_constraints_valid hdr cs_has_meaning =
     (if a_hs hdr then False
      else if a_rsp hdr then False
      else if a_err hdr then False
      else if \<not> cs_has_meaning \<and> a_cs hdr then False
      else True)"

definition evt_row2_is_plain :: "u8 \<Rightarrow> bool" where
  "evt_row2_is_plain evt \<longleftrightarrow> evt AND 0x7 = 0"

section \<open>Compound-wait comparison\<close>

definition kCompoundWaitModeExact :: u8 where "kCompoundWaitModeExact = 0x0"
definition kCompoundWaitModeAndOnes :: u8 where "kCompoundWaitModeAndOnes = 0x1"
definition kCompoundWaitModeAndZeros :: u8 where "kCompoundWaitModeAndZeros = 0x2"
definition kCompoundWaitModeReserved :: u8 where "kCompoundWaitModeReserved = 0x3"
definition kCompoundWaitModeHiGe :: u8 where "kCompoundWaitModeHiGe = 0x4"
definition kCompoundWaitModeHiLe :: u8 where "kCompoundWaitModeHiLe = 0x5"
definition kCompoundWaitModeLoGe :: u8 where "kCompoundWaitModeLoGe = 0x6"
definition kCompoundWaitModeLoLe :: u8 where "kCompoundWaitModeLoLe = 0x7"

lemmas wait_modes = kCompoundWaitModeExact_def kCompoundWaitModeAndOnes_def
  kCompoundWaitModeAndZeros_def kCompoundWaitModeReserved_def kCompoundWaitModeHiGe_def
  kCompoundWaitModeHiLe_def kCompoundWaitModeLoGe_def kCompoundWaitModeLoLe_def

definition be16 :: "octets \<Rightarrow> u16" where
  "be16 p = push_bit 8 (ucast (p ! 0)) OR ucast (p ! 1)"

definition compound_wait_evt_valid :: "u8 \<Rightarrow> bool" where
  "compound_wait_evt_valid evt \<longleftrightarrow> evt AND 0x7 \<noteq> kCompoundWaitModeReserved"

definition compound_wait_match :: "u8 \<Rightarrow> octets \<Rightarrow> octets \<Rightarrow> bool" where
  "compound_wait_match evt payload status =
     (let mode = evt AND 0x7 in
      if length status < length payload then False
      else if mode = kCompoundWaitModeExact
      then (if length payload = 0 then True
            else list_all (\<lambda>i. payload ! i = status ! i) [0..<length payload])
      else if mode = kCompoundWaitModeAndOnes
      then list_all (\<lambda>i. ((payload ! i AND status ! i) OR NOT (payload ! i)) = 0xFF)
             [0..<length payload]
      else if mode = kCompoundWaitModeAndZeros
      then list_all (\<lambda>i. payload ! i AND status ! i = 0x00) [0..<length payload]
      else if mode = kCompoundWaitModeHiGe \<or> mode = kCompoundWaitModeHiLe
      then (if length payload < 4 then False
            else if mode = kCompoundWaitModeHiGe then be16 status \<le> be16 payload
            else be16 payload \<le> be16 status)
      else if mode = kCompoundWaitModeLoGe \<or> mode = kCompoundWaitModeLoLe
      then (if length payload < 4 then False
            else if mode = kCompoundWaitModeLoGe then be16 (drop 2 status) \<le> be16 (drop 2 payload)
            else be16 (drop 2 payload) \<le> be16 (drop 2 status))
      else False)"

section \<open>Lengths, opcodes and timestamps\<close>

definition reg_write_len :: "u16 \<Rightarrow> u8 \<Rightarrow> nat" where
  "reg_write_len acf_msg_length pad =
     (if acf_msg_length < 3 then 0
      else
        (let total_octets = unat (acf_msg_length - 3) * 4;
             overhead = unat pad + 2
         in if total_octets < overhead then 0 else total_octets - overhead))"

definition peek_gbb_request_type :: "octets \<Rightarrow> u8 option" where
  "peek_gbb_request_type frame =
     (if length frame < 9 then None
      else if a_msg_type (decode_acf_message_info frame) \<noteq> kAcfMsgTypeGbb then None
      else Some (frame ! kAcfCommonHeaderLen))"

definition effective_timestamp :: "tscf_header option \<Rightarrow> acf_info option \<Rightarrow> u64 \<Rightarrow> u64 option" where
  "effective_timestamp tscf acf_info message_timestamp =
     (case tscf of
        Some h \<Rightarrow> if t_timestamp_valid h then Some (ucast (t_avtp_timestamp h))
          else (case acf_info of
             Some i \<Rightarrow> if a_msg_type i = kAcfMsgTypeGbb \<and> a_mtv i then Some message_timestamp else None
           | None \<Rightarrow> None)
      | None \<Rightarrow> (case acf_info of
             Some i \<Rightarrow> if a_msg_type i = kAcfMsgTypeGbb \<and> a_mtv i then Some message_timestamp else None
           | None \<Rightarrow> None))"

section \<open>The canonical relay view\<close>

definition FlagAck :: u8 where [wire_defs]: "FlagAck = push_bit 7 1"
definition FlagRead :: u8 where [wire_defs]: "FlagRead = push_bit 6 1"
definition FlagWrite :: u8 where [wire_defs]: "FlagWrite = push_bit 5 1"
definition FlagResponse :: u8 where [wire_defs]: "FlagResponse = push_bit 4 1"
definition FlagError :: u8 where [wire_defs]: "FlagError = push_bit 3 1"
definition FlagMoreSegments :: u8 where [wire_defs]: "FlagMoreSegments = push_bit 2 1"

definition has_flag :: "u8 \<Rightarrow> u8 \<Rightarrow> bool" where
  "has_flag v flag \<longleftrightarrow> v AND flag = flag"

record relay_message =
  m_byte_bus_id :: u8
  m_transaction_num :: u16
  m_control :: u8
  m_read_size_or_segment :: u16
  m_timestamp :: u64
  m_body :: octets

definition to_message :: "acf_info \<Rightarrow> u64 \<Rightarrow> octets \<Rightarrow> relay_message" where
  "to_message info message_timestamp body =
     (let flags = (if a_evt_ack info then FlagAck else 0);
          flags = flags OR (if a_op info then FlagWrite else FlagRead);
          flags = (if a_rsp info then flags OR FlagResponse else flags);
          flags = (if a_err info then flags OR FlagError else flags);
          flags = (if a_ms info then flags OR FlagMoreSegments else flags)
      in \<lparr>m_byte_bus_id = ucast (a_byte_bus_id info AND 0xFF),
          m_transaction_num = ucast (a_transaction_num info),
          m_control = flags,
          m_read_size_or_segment = a_read_size info,
          m_timestamp = (if a_msg_type info = kAcfMsgTypeGbb then message_timestamp else 0),
          m_body = body\<rparr>)"

definition from_message :: "relay_message \<Rightarrow> bool \<Rightarrow> bool \<Rightarrow> acf_info \<times> u64" where
  "from_message msg as_gbb mtv =
     (acf_default
        \<lparr>a_msg_type := (if as_gbb then kAcfMsgTypeGbb else kAcfMsgTypeAbb),
         a_mtv := (as_gbb \<and> mtv),
         a_byte_bus_id := ucast (m_byte_bus_id msg),
         a_evt_ack := has_flag (m_control msg) FlagAck,
         a_op := has_flag (m_control msg) FlagWrite,
         a_rsp := has_flag (m_control msg) FlagResponse,
         a_err := has_flag (m_control msg) FlagError,
         a_ms := has_flag (m_control msg) FlagMoreSegments,
         a_transaction_num := ucast (m_transaction_num msg AND 0xFF),
         a_read_size := m_read_size_or_segment msg\<rparr>,
      m_timestamp msg)"

section \<open>Properties\<close>

text \<open>
  A response built for a request is classified as the kind it was built with, is not
  itself a request, and echoes the bus address, the transaction number and the message type
  of the request unchanged.
\<close>

theorem make_response_classified:
  "response_kind_of (make_response request kind) = kind
   \<and> \<not> header_is_request (make_response request kind)
   \<and> a_byte_bus_id (make_response request kind) = a_byte_bus_id request
   \<and> a_transaction_num (make_response request kind) = a_transaction_num request
   \<and> a_msg_type (make_response request kind) = a_msg_type request"
  by (cases kind)
     (simp_all add: make_response_def response_kind_of_def header_is_request_def acf_default_def
        Let_def wire_defs)

text \<open>
  The three response builders produce ACF_ABB messages that a receiver decodes to the
  answered request's address and transaction: the error response is an error response with
  the numbered code as its only payload octet; the plain and the rejecting acknowledge are
  both classified as acknowledges and are told apart by the error bit.
\<close>

theorem response_builders_decode:
  assumes "bus < 0x800"
  shows "(\<exists>h. decode_acf_abb (build_error_response bus txn code) = Inr (h, [wire_code code])
           \<and> response_kind_of h = ErrorResponse
           \<and> a_byte_bus_id h = bus \<and> a_transaction_num h = txn)
    \<and> (\<exists>h. decode_acf_abb (build_acknowledge_response bus txn) = Inr (h, [])
           \<and> response_kind_of h = Acknowledge \<and> \<not> a_err h
           \<and> a_byte_bus_id h = bus \<and> a_transaction_num h = txn)
    \<and> (\<exists>h. decode_acf_abb (build_acknowledge_rejected_response bus txn code)
             = Inr (h, [wire_code code])
           \<and> response_kind_of h = Acknowledge \<and> a_err h
           \<and> a_byte_bus_id h = bus \<and> a_transaction_num h = txn)"
  using assms
  by (simp add: build_error_response_def build_acknowledge_response_def
      build_acknowledge_rejected_response_def decode_encode_abb abb_header_def fill_length_def
      encode_error_payload_def mask_info_def response_kind_of_def acf_default_def masked_field
      wire_defs)

theorem response_builders_decode_witness:
  "\<exists>h. decode_acf_abb (build_error_response 0x123 7 RequestNotFound) = Inr (h, [6])
     \<and> response_kind_of h = ErrorResponse \<and> a_byte_bus_id h = 0x123 \<and> a_transaction_num h = 7"
  using response_builders_decode [of "0x123" 7 RequestNotFound] by simp

lemma all_bits_u8:
  "(\<forall>k. bit (p :: u8) k \<longrightarrow> P k) \<longleftrightarrow>
     (bit p 0 \<longrightarrow> P 0) \<and> (bit p 1 \<longrightarrow> P 1) \<and> (bit p 2 \<longrightarrow> P 2) \<and> (bit p 3 \<longrightarrow> P 3) \<and>
     (bit p 4 \<longrightarrow> P 4) \<and> (bit p 5 \<longrightarrow> P 5) \<and> (bit p 6 \<longrightarrow> P 6) \<and> (bit p 7 \<longrightarrow> P 7)"
proof -
  have "(\<forall>k. bit p k \<longrightarrow> P k) \<longleftrightarrow> (\<forall>k < 8. bit p k \<longrightarrow> P k)"
    by (meson linorder_not_le u8_bit_high)
  then show ?thesis
    by (simp add: eval_nat_numeral All_less_Suc2)
qed

lemma bits_within: "(p AND q) OR NOT p = 0xFF \<longleftrightarrow> (\<forall>k. bit p k \<longrightarrow> bit q k)" for p q :: u8
  unfolding all_bits_u8 by (simp add: bits) blast

lemma bits_disjoint: "p AND q = 0 \<longleftrightarrow> (\<forall>k. bit p k \<longrightarrow> \<not> bit q k)" for p q :: u8
  unfolding all_bits_u8 by (simp add: bits)

lemma take_eq_iff_nth:
  "length p \<le> length s \<Longrightarrow> (\<forall>i < length p. p ! i = s ! i) \<longleftrightarrow> take (length p) s = p"
  by (auto simp: list_eq_iff_nth_eq)

lemma be16_append [simp]: "2 \<le> length s \<Longrightarrow> be16 (s @ t) = be16 s"
  by (cases s; cases "tl s") (simp_all add: be16_def)

text \<open>
  The compound-wait comparison in its three octet-wise modes: the exact mode holds iff
  the status starts with the payload, the ones mode iff every bit set in the payload is set in
  the status, the zeros mode iff every bit set in the payload is clear in the status. In every
  mode a status shorter than the payload never matches, and status octets past the length of
  the payload never matter.
\<close>

theorem compound_wait_modes:
  "(length s < length p \<longrightarrow> \<not> compound_wait_match evt p s) \<and>
   (length p \<le> length s \<longrightarrow>
      compound_wait_match evt p (s @ t) = compound_wait_match evt p s \<and>
      (evt AND 7 = 0 \<longrightarrow> compound_wait_match evt p s = (take (length p) s = p)) \<and>
      (evt AND 7 = 1 \<longrightarrow> compound_wait_match evt p s =
         (\<forall>i < length p. \<forall>k. bit (p ! i) k \<longrightarrow> bit (s ! i) k)) \<and>
      (evt AND 7 = 2 \<longrightarrow> compound_wait_match evt p s =
         (\<forall>i < length p. \<forall>k. bit (p ! i) k \<longrightarrow> \<not> bit (s ! i) k)))"
  (is "?short \<and> (?len \<longrightarrow> ?tail \<and> ?exact \<and> ?ones \<and> ?zeros)")
proof (intro conjI impI)
  assume len: ?len
  have drop2: "4 \<le> length p \<Longrightarrow> be16 (drop 2 (s @ t)) = be16 (drop 2 s)"
    using len by (subst drop_append) simp
  show ?tail
    using len drop2
    by (simp add: compound_wait_match_def Let_def list_all_iff nth_append)
  show "compound_wait_match evt p s = (take (length p) s = p)" if "evt AND 7 = 0"
    using len that
    by (simp add: compound_wait_match_def wait_modes list_all_iff atLeast0LessThan
        Ball_def take_eq_iff_nth)
  show "compound_wait_match evt p s = (\<forall>i < length p. \<forall>k. bit (p ! i) k \<longrightarrow> bit (s ! i) k)"
    if "evt AND 7 = 1"
    using len that
    by (simp add: compound_wait_match_def wait_modes list_all_iff atLeast0LessThan
        Ball_def bits_within)
  show "compound_wait_match evt p s = (\<forall>i < length p. \<forall>k. bit (p ! i) k \<longrightarrow> \<not> bit (s ! i) k)"
    if "evt AND 7 = 2"
    using len that
    by (simp add: compound_wait_match_def wait_modes list_all_iff atLeast0LessThan
        Ball_def bits_disjoint)
qed (simp add: compound_wait_match_def Let_def)

theorem compound_wait_modes_witness:
  "compound_wait_match 1 [0x81] [0xC1, 0x55] \<and> \<not> compound_wait_match 0 [0x81, 2] [0x81]"
proof -
  have "\<forall>k. bit (0x81 :: u8) k \<longrightarrow> bit (0xC1 :: u8) k"
    unfolding all_bits_u8 by (simp add: bits)
  then show ?thesis
    using compound_wait_modes [of "[0xC1, 0x55]" "[0x81]" 1 "[]"]
      compound_wait_modes [of "[0x81]" "[0x81, 2]" 0 "[]"]
    by simp
qed

text \<open>The fields of a header that the relay view carries.\<close>

definition relay_part :: "acf_info \<Rightarrow> acf_info" where
  "relay_part info =
     acf_default\<lparr>a_msg_type := a_msg_type info, a_mtv := a_mtv info,
       a_byte_bus_id := a_byte_bus_id info AND 0xFF, a_evt_ack := a_evt_ack info,
       a_op := a_op info, a_rsp := a_rsp info, a_err := a_err info, a_ms := a_ms info,
       a_transaction_num := a_transaction_num info, a_read_size := a_read_size info\<rparr>"

text \<open>
  A decoded message turned into the canonical relay view and back keeps its type,
  validity flag, request and response flags, transaction number, read size, timestamp and
  body; of the bus address it keeps the low eight bits, which is the whole of it below 256.
\<close>

theorem relay_view_roundtrip:
  assumes "a_msg_type info = kAcfMsgTypeGbb \<or> a_msg_type info = kAcfMsgTypeAbb \<and> \<not> a_mtv info"
  shows "from_message (to_message info ts body) (a_msg_type info = kAcfMsgTypeGbb) (a_mtv info)
           = (relay_part info, if a_msg_type info = kAcfMsgTypeGbb then ts else 0)
     \<and> m_body (to_message info ts body) = body
     \<and> (a_byte_bus_id info < 256 \<longrightarrow> a_byte_bus_id (relay_part info) = a_byte_bus_id info)"
proof -
  have bus: "a_byte_bus_id info AND 0xFF = a_byte_bus_id info" if "a_byte_bus_id info < 256"
    using less_mask_eq [of "a_byte_bus_id info" 8] that by (simp add: mask_numeral)
  have "ucast (ucast (a_byte_bus_id info AND 0xFF) :: u8) = a_byte_bus_id info AND 0xFF"
    by (simp add: bits)
  moreover have "ucast (ucast (a_transaction_num info) AND 0xFF :: u16) = a_transaction_num info"
    by (simp add: bits)
  moreover have "kAcfMsgTypeAbb \<noteq> kAcfMsgTypeGbb" by (simp add: wire_defs)
  ultimately show ?thesis
    using assms bus
    by (auto simp: to_message_def from_message_def relay_part_def acf_default_def has_flag_def
        Let_def wire_defs simp del: low_octet)
qed

theorem relay_view_roundtrip_witness:
  "fst (from_message (to_message (make_standard_request 5 9 True 0) 0 [1]) False False)
     = relay_part (make_standard_request 5 9 True 0)"
  using relay_view_roundtrip [of "make_standard_request 5 9 True 0" 0 "[1]"]
  by (simp add: make_standard_request_def acf_default_def wire_defs)

end
