(* ===== verification/Request.thy ===== *)
theory Request
  imports Acf_Response
begin

text \<open>
  The request kinds of \<open>include/rcp/request.hpp\<close>: the opcode that a conditional or
  cancellation request packs into the otherwise unused timestamp field of an ACF_GBB message,
  and the codecs of the seven kinds of request. The behaviour of requests (which one runs
  next, sequencers, triggers, timed admission) is in theory \<open>Schedule\<close>, their lifecycle in
  theory \<open>Ledger\<close>.
\<close>

section \<open>Request opcodes\<close>

datatype opcode =
    Chained | ClearAll | ClearNonSafestate | ClearSingle | Timed | CompoundWait | Triggered
  | Compound | CompoundWaitSafety | TriggeredSafety | CompoundSafety

fun opcode_byte :: "opcode \<Rightarrow> u8" where
  "opcode_byte Chained = 0x01"
| "opcode_byte ClearAll = 0x05"
| "opcode_byte ClearNonSafestate = 0x06"
| "opcode_byte ClearSingle = 0x07"
| "opcode_byte Timed = 0x0A"
| "opcode_byte CompoundWait = 0x0B"
| "opcode_byte Triggered = 0x0E"
| "opcode_byte Compound = 0x0F"
| "opcode_byte CompoundWaitSafety = 0x8B"
| "opcode_byte TriggeredSafety = 0x8E"
| "opcode_byte CompoundSafety = 0x8F"

definition all_opcodes :: "opcode list" where
  "all_opcodes =
     [Chained, ClearAll, ClearNonSafestate, ClearSingle, Timed, CompoundWait, Triggered,
      Compound, CompoundWaitSafety, TriggeredSafety, CompoundSafety]"

text \<open>
  \<open>static_cast<RequestTypeOpcode>(byte)\<close>, followed by the \<open>switch\<close> that accepts the
  enumerators and nothing else.
\<close>

definition opcode_of_byte :: "u8 \<Rightarrow> opcode option" where
  "opcode_of_byte byte = find (\<lambda>t. opcode_byte t = byte) all_opcodes"

definition is_valid_request_type :: "u8 \<Rightarrow> bool" where
  "is_valid_request_type byte \<longleftrightarrow> opcode_of_byte byte \<noteq> None"

definition is_safety_variant :: "opcode \<Rightarrow> bool" where
  "is_safety_variant type \<longleftrightarrow>
     (case type of CompoundWaitSafety \<Rightarrow> True | TriggeredSafety \<Rightarrow> True | CompoundSafety \<Rightarrow> True
      | _ \<Rightarrow> False)"

definition is_compound :: "opcode \<Rightarrow> bool" where
  "is_compound type \<longleftrightarrow> type = Compound \<or> type = CompoundSafety"

definition is_compound_wait :: "opcode \<Rightarrow> bool" where
  "is_compound_wait type \<longleftrightarrow> type = CompoundWait \<or> type = CompoundWaitSafety"

definition is_triggered :: "opcode \<Rightarrow> bool" where
  "is_triggered type \<longleftrightarrow> type = Triggered \<or> type = TriggeredSafety"

lemma opcode_of_byte [simp]: "opcode_of_byte (opcode_byte t) = Some t"
  by (cases t) (simp_all add: opcode_of_byte_def all_opcodes_def)

lemma opcode_byte_of: "opcode_of_byte b = Some t \<Longrightarrow> opcode_byte t = b"
  by (simp add: opcode_of_byte_def find_Some_iff) blast

section \<open>The repurposed timestamp\<close>

text \<open>The seven parameter octets, a \<open>std::array<uint8_t, 7>\<close>, are a list of that length.\<close>

definition encode_request_type :: "opcode \<Rightarrow> octets \<Rightarrow> u64" where
  "encode_request_type type params =
     fold (\<lambda>i v. v OR push_bit (48 - 8 * i) (ucast (params ! i))) [0..<7]
       (push_bit 56 (ucast (opcode_byte type)))"

definition decode_request_type :: "bool \<Rightarrow> u64 \<Rightarrow> (opcode \<times> octets) result" where
  "decode_request_type mtv message_timestamp =
     (if mtv then Inl (Request_err Timestamp_not_repurposed)
      else
        (let byte0 = ucast (drop_bit 56 message_timestamp AND 0xFF) in
         case opcode_of_byte byte0 of
           None \<Rightarrow> Inl (Request_err Unknown_request_type)
         | Some type \<Rightarrow>
             Inr (type, map (\<lambda>i. ucast (drop_bit (48 - 8 * i) message_timestamp AND 0xFF)) [0..<7])))"

definition make_conditional_request :: "u16 \<Rightarrow> u8 \<Rightarrow> bool \<Rightarrow> acf_info" where
  "make_conditional_request bus_id transaction_num cs =
     acf_default\<lparr>a_msg_type := kAcfMsgTypeGbb, a_mtv := False, a_byte_bus_id := bus_id,
       a_transaction_num := transaction_num, a_cs := cs\<rparr>"

definition decode_repurposed :: "octets \<Rightarrow> (acf_info \<times> opcode \<times> octets \<times> octets) result" where
  "decode_repurposed b =
     (case decode_acf_gbb b of
        Inl ec \<Rightarrow> Inl ec
      | Inr (info, ts, payload) \<Rightarrow>
          (case decode_request_type (a_mtv info) ts of
             Inl ec \<Rightarrow> Inl ec
           | Inr (type, params) \<Rightarrow> Inr (info, type, params, payload)))"

definition all_zero :: "octets \<Rightarrow> nat list \<Rightarrow> bool" where
  "all_zero p indices \<longleftrightarrow> list_all (\<lambda>i. p ! i = 0) indices"

definition check_evt_hs_cs_zero :: "acf_info \<Rightarrow> error option" where
  "check_evt_hs_cs_zero info =
     (if a_evt_op info \<noteq> 0 \<or> a_hs info \<or> a_cs info then Some (Request_err Evt_hs_cs_nonzero)
      else None)"

section \<open>Compound and compound-wait requests\<close>

definition kCompoundRepeatInfinite :: u16 where "kCompoundRepeatInfinite = 0xFFFF"

record compound_step =
  cs_start_state :: u8
  cs_next_state :: u8
  cs_sequencer_index :: u8
  cs_exec_delay :: u16
  cs_repeat_count :: u16

definition encode_compound_step_params :: "compound_step \<Rightarrow> octets" where
  "encode_compound_step_params step =
     [cs_start_state step, cs_next_state step, cs_sequencer_index step,
      ucast (drop_bit 8 (cs_exec_delay step) AND 0xFF), ucast (cs_exec_delay step AND 0xFF),
      ucast (drop_bit 8 (cs_repeat_count step) AND 0xFF), ucast (cs_repeat_count step AND 0xFF)]"

definition decode_compound_step_params :: "octets \<Rightarrow> compound_step" where
  "decode_compound_step_params p =
     \<lparr>cs_start_state = p ! 0, cs_next_state = p ! 1, cs_sequencer_index = p ! 2,
      cs_exec_delay = push_bit 8 (ucast (p ! 3)) OR ucast (p ! 4),
      cs_repeat_count = push_bit 8 (ucast (p ! 5)) OR ucast (p ! 6)\<rparr>"

record compound_request =
  cr_type :: opcode
  cr_byte_bus_id :: u16
  cr_step :: compound_step
  cr_evt_op :: u8
  cr_transaction_num :: u8
  cr_payload :: octets

definition encode_compound_request ::
    "opcode \<Rightarrow> u16 \<Rightarrow> compound_step \<Rightarrow> u8 \<Rightarrow> u8 \<Rightarrow> octets \<Rightarrow> octets" where
  "encode_compound_request type byte_bus_id step evt_op transaction_num payload =
     (let info = acf_default\<lparr>a_byte_bus_id := byte_bus_id, a_evt_op := evt_op AND 0x7,
            a_cs := False, a_transaction_num := transaction_num\<rparr>;
          ts = encode_request_type type (encode_compound_step_params step)
      in encode_acf_gbb info ts payload)"

definition decode_compound_request :: "octets \<Rightarrow> compound_request result" where
  "decode_compound_request b =
     (case decode_repurposed b of
        Inl ec \<Rightarrow> Inl ec
      | Inr (info, type, params, payload) \<Rightarrow>
          if \<not> is_compound type \<and> \<not> is_compound_wait type
          then Inl (Request_err Unknown_request_type)
          else Inr \<lparr>cr_type = type, cr_byte_bus_id = a_byte_bus_id info,
                 cr_step = decode_compound_step_params params, cr_evt_op = a_evt_op info,
                 cr_transaction_num = a_transaction_num info, cr_payload = payload\<rparr>)"

section \<open>Cancellation requests\<close>

record clear_request =
  cl_byte_bus_id :: u16
  cl_transaction_num :: u8

definition no_params :: octets where "no_params = replicate 7 0"

definition encode_clear_non_safestate :: "u16 \<Rightarrow> u8 \<Rightarrow> octets" where
  "encode_clear_non_safestate byte_bus_id transaction_num =
     (let info = acf_default\<lparr>a_byte_bus_id := byte_bus_id, a_transaction_num := transaction_num\<rparr>;
          ts = encode_request_type ClearNonSafestate no_params
      in encode_acf_gbb info ts [])"

definition decode_clear_non_safestate :: "octets \<Rightarrow> clear_request result" where
  "decode_clear_non_safestate b =
     (case decode_repurposed b of
        Inl ec \<Rightarrow> Inl ec
      | Inr (info, type, params, payload) \<Rightarrow>
          if type \<noteq> ClearNonSafestate then Inl (Request_err Unknown_request_type)
          else if \<not> all_zero params [0, 1, 2, 3, 4, 5, 6]
          then Inl (Request_err Reserved_field_nonzero)
          else (case check_evt_hs_cs_zero info of
              Some ec \<Rightarrow> Inl ec
            | None \<Rightarrow> Inr \<lparr>cl_byte_bus_id = a_byte_bus_id info,
                        cl_transaction_num = a_transaction_num info\<rparr>))"

definition encode_clear_all :: "u16 \<Rightarrow> u8 \<Rightarrow> octets" where
  "encode_clear_all byte_bus_id transaction_num =
     (let info = acf_default\<lparr>a_byte_bus_id := byte_bus_id, a_transaction_num := transaction_num\<rparr>;
          ts = encode_request_type ClearAll no_params
      in encode_acf_gbb info ts [])"

definition decode_clear_all :: "octets \<Rightarrow> clear_request result" where
  "decode_clear_all b =
     (case decode_repurposed b of
        Inl ec \<Rightarrow> Inl ec
      | Inr (info, type, params, payload) \<Rightarrow>
          if type \<noteq> ClearAll then Inl (Request_err Unknown_request_type)
          else if \<not> all_zero params [0, 1, 2, 3, 4, 5, 6]
          then Inl (Request_err Reserved_field_nonzero)
          else (case check_evt_hs_cs_zero info of
              Some ec \<Rightarrow> Inl ec
            | None \<Rightarrow> Inr \<lparr>cl_byte_bus_id = a_byte_bus_id info,
                        cl_transaction_num = a_transaction_num info\<rparr>))"

record clear_single_request =
  cl1_byte_bus_id :: u16
  cl1_clear_transaction_num :: u8
  cl1_transaction_num :: u8

definition encode_clear_single :: "u16 \<Rightarrow> u8 \<Rightarrow> u8 \<Rightarrow> octets" where
  "encode_clear_single byte_bus_id clear_transaction_num transaction_num =
     (let info = acf_default\<lparr>a_byte_bus_id := byte_bus_id, a_transaction_num := transaction_num\<rparr>;
          params = [0, 0, clear_transaction_num, 0, 0, 0, 0];
          ts = encode_request_type ClearSingle params
      in encode_acf_gbb info ts [])"

definition decode_clear_single :: "octets \<Rightarrow> clear_single_request result" where
  "decode_clear_single b =
     (case decode_repurposed b of
        Inl ec \<Rightarrow> Inl ec
      | Inr (info, type, params, payload) \<Rightarrow>
          if type \<noteq> ClearSingle then Inl (Request_err Unknown_request_type)
          else if \<not> all_zero params [0, 1, 3, 4, 5, 6]
          then Inl (Request_err Reserved_field_nonzero)
          else (case check_evt_hs_cs_zero info of
              Some ec \<Rightarrow> Inl ec
            | None \<Rightarrow> Inr \<lparr>cl1_byte_bus_id = a_byte_bus_id info,
                        cl1_clear_transaction_num = params ! 2,
                        cl1_transaction_num = a_transaction_num info\<rparr>))"

section \<open>Chained members\<close>

record chained_member =
  ch_byte_bus_id :: u16
  ch_exec_delay :: u16
  ch_cs :: bool
  ch_transaction_num :: u8
  ch_payload :: octets

definition encode_chained_member :: "u16 \<Rightarrow> u16 \<Rightarrow> bool \<Rightarrow> u8 \<Rightarrow> octets \<Rightarrow> octets" where
  "encode_chained_member byte_bus_id chain_exec_delay cs transaction_num payload =
     (let info = acf_default\<lparr>a_byte_bus_id := byte_bus_id, a_cs := cs,
            a_transaction_num := transaction_num\<rparr>;
          params = [0, 0, 0, ucast (drop_bit 8 chain_exec_delay AND 0xFF),
            ucast (chain_exec_delay AND 0xFF), 0, 0];
          ts = encode_request_type Chained params
      in encode_acf_gbb info ts payload)"

definition decode_chained_member :: "octets \<Rightarrow> chained_member result" where
  "decode_chained_member b =
     (case decode_repurposed b of
        Inl ec \<Rightarrow> Inl ec
      | Inr (info, type, params, payload) \<Rightarrow>
          if type \<noteq> Chained then Inl (Request_err Unknown_request_type)
          else if \<not> all_zero params [0, 1, 2, 5, 6] then Inl (Request_err Reserved_field_nonzero)
          else Inr \<lparr>ch_byte_bus_id = a_byte_bus_id info,
                 ch_exec_delay = push_bit 8 (ucast (params ! 3)) OR ucast (params ! 4),
                 ch_cs = a_cs info, ch_transaction_num = a_transaction_num info,
                 ch_payload = payload\<rparr>)"

section \<open>Triggered requests\<close>

definition kTriggeredRepeatInfinite :: u16 where "kTriggeredRepeatInfinite = 0xFFFF"

record triggered_step =
  ts_source_ep :: u8
  ts_signal_nr :: u8
  ts_threshold :: u8
  ts_exec_delay :: u16
  ts_repeat_count :: u16

definition encode_triggered_step_params :: "triggered_step \<Rightarrow> octets" where
  "encode_triggered_step_params step =
     [ts_source_ep step, ts_signal_nr step, ts_threshold step,
      ucast (drop_bit 8 (ts_exec_delay step) AND 0xFF), ucast (ts_exec_delay step AND 0xFF),
      ucast (drop_bit 8 (ts_repeat_count step) AND 0xFF), ucast (ts_repeat_count step AND 0xFF)]"

definition decode_triggered_step_params :: "octets \<Rightarrow> triggered_step" where
  "decode_triggered_step_params p =
     \<lparr>ts_source_ep = p ! 0, ts_signal_nr = p ! 1, ts_threshold = p ! 2,
      ts_exec_delay = push_bit 8 (ucast (p ! 3)) OR ucast (p ! 4),
      ts_repeat_count = push_bit 8 (ucast (p ! 5)) OR ucast (p ! 6)\<rparr>"

record triggered_request =
  tr_type :: opcode
  tr_byte_bus_id :: u16
  tr_step :: triggered_step
  tr_transaction_num :: u8
  tr_payload :: octets

definition encode_triggered_request ::
    "opcode \<Rightarrow> u16 \<Rightarrow> triggered_step \<Rightarrow> u8 \<Rightarrow> octets \<Rightarrow> octets" where
  "encode_triggered_request type byte_bus_id step transaction_num payload =
     (let info = acf_default\<lparr>a_byte_bus_id := byte_bus_id, a_transaction_num := transaction_num\<rparr>;
          ts = encode_request_type type (encode_triggered_step_params step)
      in encode_acf_gbb info ts payload)"

definition decode_triggered_request :: "octets \<Rightarrow> triggered_request result" where
  "decode_triggered_request b =
     (case decode_repurposed b of
        Inl ec \<Rightarrow> Inl ec
      | Inr (info, type, params, payload) \<Rightarrow>
          if \<not> is_triggered type then Inl (Request_err Unknown_request_type)
          else Inr \<lparr>tr_type = type, tr_byte_bus_id = a_byte_bus_id info,
                 tr_step = decode_triggered_step_params params,
                 tr_transaction_num = a_transaction_num info, tr_payload = payload\<rparr>)"

section \<open>Timed requests\<close>

definition kTimedPresentationTimeMax :: u64 where
  "kTimedPresentationTimeMax = 0x0000FFFFFFFFFFFF"

definition kTimedPresentationTimeModulus :: u64 where
  "kTimedPresentationTimeModulus = 0x0001000000000000"

record timed_request =
  td_byte_bus_id :: u16
  td_presentation_time :: u64
  td_transaction_num :: u8
  td_payload :: octets

definition timed_params :: "u64 \<Rightarrow> octets" where
  "timed_params presentation_time =
     [0,
      ucast (drop_bit 40 presentation_time AND 0xFF), ucast (drop_bit 32 presentation_time AND 0xFF),
      ucast (drop_bit 24 presentation_time AND 0xFF), ucast (drop_bit 16 presentation_time AND 0xFF),
      ucast (drop_bit 8 presentation_time AND 0xFF), ucast (presentation_time AND 0xFF)]"

definition encode_timed_request :: "u16 \<Rightarrow> u64 \<Rightarrow> u8 \<Rightarrow> octets \<Rightarrow> octets option" where
  "encode_timed_request byte_bus_id presentation_time transaction_num payload =
     (if kTimedPresentationTimeMax < presentation_time then None
      else
        (let info = acf_default\<lparr>a_byte_bus_id := byte_bus_id, a_transaction_num := transaction_num\<rparr>;
             ts = encode_request_type Timed (timed_params presentation_time)
         in Some (encode_acf_gbb info ts payload)))"

definition decode_timed_request :: "octets \<Rightarrow> timed_request result" where
  "decode_timed_request b =
     (case decode_repurposed b of
        Inl ec \<Rightarrow> Inl ec
      | Inr (info, type, params, payload) \<Rightarrow>
          if type \<noteq> Timed then Inl (Request_err Unknown_request_type)
          else if params ! 0 \<noteq> 0 then Inl (Request_err Reserved_field_nonzero)
          else if a_hs info \<or> a_cs info then Inl (Request_err Unsupported_cmd)
          else Inr \<lparr>td_byte_bus_id = a_byte_bus_id info,
                 td_presentation_time =
                   fold (\<lambda>i pt. push_bit 8 pt OR ucast (params ! i)) [1..<7] 0,
                 td_transaction_num = a_transaction_num info, td_payload = payload\<rparr>)"

section \<open>Every request survives the wire\<close>

lemma upt_7: "[0..<7] = [0, 1, 2, 3, 4, 5, 6 :: nat]" "[Suc 0..<7] = [1, 2, 3, 4, 5, 6 :: nat]"
  by (simp_all add: upt_rec)

lemma list7: "length xs = 7 \<Longrightarrow> \<exists>a b c d e f g. xs = [a, b, c, d, e, f, g]"
  by (auto simp: length_Suc_conv eval_nat_numeral)

lemma decode_encode_request_type [simp]:
  assumes "length params = 7"
  shows "decode_request_type False (encode_request_type type params) = Inr (type, params)"
proof -
  obtain a b c d e f g where p: "params = [a, b, c, d, e, f, g]" using list7 [OF assms] by blast
  have op: "ucast (drop_bit 56 (encode_request_type type params)) = opcode_byte type"
    by (simp add: encode_request_type_def upt_7 p bits)
  have "map (\<lambda>i. ucast (drop_bit (48 - 8 * i) (encode_request_type type params))) [0..<7]
      = (params :: octets)"
    by (simp add: encode_request_type_def upt_7 p bits)
  then show ?thesis
    using op by (simp add: decode_request_type_def)
qed

text \<open>The header of a repurposed message as its receiver sees it.\<close>

definition request_header :: "acf_info \<Rightarrow> octets \<Rightarrow> acf_info" where
  "request_header info payload = mask_info (gbb_header info payload)"

lemma decode_repurposed_encode:
  assumes "\<not> a_mtv info" "length params = 7"
  shows "decode_repurposed (encode_acf_gbb info (encode_request_type type params) payload)
    = Inr (request_header info payload, type, params, payload)"
  using assms
  by (simp add: decode_repurposed_def decode_encode_gbb request_header_def mask_info_def
      gbb_header_def)

lemma request_header_simps [simp]:
  "a_byte_bus_id (request_header info payload) = a_byte_bus_id info AND 0x7FF"
  "a_evt_op (request_header info payload) = a_evt_op info AND 7"
  "a_hs (request_header info payload) = a_hs info"
  "a_cs (request_header info payload) = a_cs info"
  "a_transaction_num (request_header info payload) = a_transaction_num info"
  by (simp_all add: request_header_def mask_info_def gbb_header_def fill_length_def)

lemma acf_default_simps [simp]:
  "a_mtv acf_default = False" "a_evt_op acf_default = 0" "a_hs acf_default = False"
  "a_cs acf_default = False"
  by (simp_all add: acf_default_def)

lemma params_len [simp]:
  "length (encode_compound_step_params s) = 7" "length (encode_triggered_step_params t) = 7"
  "length no_params = 7" "length (timed_params pt) = 7"
  by (simp_all add: encode_compound_step_params_def encode_triggered_step_params_def
      no_params_def timed_params_def)

lemma all_zero_no_params [simp]: "all_zero no_params [0, Suc 0, 2, 3, 4, 5, 6]"
  by (simp add: all_zero_def no_params_def eval_nat_numeral)

lemma decode_compound_params [simp]:
  "decode_compound_step_params (encode_compound_step_params s) = s"
  by (cases s)
     (simp add: decode_compound_step_params_def encode_compound_step_params_def bits)

lemma decode_triggered_params [simp]:
  "decode_triggered_step_params (encode_triggered_step_params s) = s"
  by (cases s)
     (simp add: decode_triggered_step_params_def encode_triggered_step_params_def bits)

lemma timed_params_value:
  assumes "pt \<le> kTimedPresentationTimeMax"
  shows "fold (\<lambda>i v. push_bit 8 v OR ucast (timed_params pt ! i)) [1..<7] (0 :: u64) = pt"
proof -
  have "pt < 2 ^ 48"
    using assms unfolding kTimedPresentationTimeMax_def by (simp add: word_le_nat_alt word_less_nat_alt)
  then have "pt AND mask 48 = pt"
    using less_mask_eq [of pt 48] by simp
  then have high: "drop_bit 48 pt = 0"
    by (metis drop_bit_of_0 drop_bit_take_bit take_bit_eq_mask diff_self_eq_0 take_bit_0)
  then have first: "ucast (ucast (drop_bit 40 pt) :: u8) = drop_bit 40 pt"
    using octet_steps(3) [of pt] by simp
  show ?thesis
    by (simp add: timed_params_def upt_7 first octet_steps)
qed

lemmas request_decoders = decode_compound_request_def decode_clear_non_safestate_def
  decode_clear_all_def decode_clear_single_def decode_chained_member_def
  decode_triggered_request_def decode_timed_request_def

lemmas request_encoders = encode_compound_request_def encode_clear_non_safestate_def
  encode_clear_all_def encode_clear_single_def encode_chained_member_def
  encode_triggered_request_def encode_timed_request_def

lemma evt_mask: "(evt AND 7) AND 7 = (evt AND 7 :: u8)"
  by (simp add: bits)

interpretation compound: message_codec
  "\<lambda>r. encode_compound_request (cr_type r) (cr_byte_bus_id r) (cr_step r) (cr_evt_op r)
     (cr_transaction_num r) (cr_payload r)"
  decode_compound_request
  "\<lambda>r. (is_compound (cr_type r) \<or> is_compound_wait (cr_type r)) \<and> cr_byte_bus_id r < 0x800 \<and>
     cr_evt_op r < 8"
  by unfold_locales
     (auto simp: request_encoders request_decoders decode_repurposed_encode Let_def masked_field
       evt_mask)

interpretation triggered: message_codec
  "\<lambda>r. encode_triggered_request (tr_type r) (tr_byte_bus_id r) (tr_step r)
     (tr_transaction_num r) (tr_payload r)"
  decode_triggered_request
  "\<lambda>r. is_triggered (tr_type r) \<and> tr_byte_bus_id r < 0x800"
  by unfold_locales
     (auto simp: request_encoders request_decoders decode_repurposed_encode Let_def masked_field)

interpretation chained: message_codec
  "\<lambda>r. encode_chained_member (ch_byte_bus_id r) (ch_exec_delay r) (ch_cs r)
     (ch_transaction_num r) (ch_payload r)"
  decode_chained_member
  "\<lambda>r. ch_byte_bus_id r < 0x800"
  by unfold_locales
     (simp add: request_encoders request_decoders decode_repurposed_encode Let_def masked_field
       all_zero_def bits)

interpretation clear_non_safestate: message_codec
  "\<lambda>r. encode_clear_non_safestate (cl_byte_bus_id r) (cl_transaction_num r)"
  decode_clear_non_safestate "\<lambda>r. cl_byte_bus_id r < 0x800"
  by unfold_locales
     (simp add: request_encoders request_decoders decode_repurposed_encode Let_def masked_field
       check_evt_hs_cs_zero_def)

interpretation clear_all: message_codec
  "\<lambda>r. encode_clear_all (cl_byte_bus_id r) (cl_transaction_num r)"
  decode_clear_all "\<lambda>r. cl_byte_bus_id r < 0x800"
  by unfold_locales
     (simp add: request_encoders request_decoders decode_repurposed_encode Let_def masked_field
       check_evt_hs_cs_zero_def)

interpretation clear_single: message_codec
  "\<lambda>r. encode_clear_single (cl1_byte_bus_id r) (cl1_clear_transaction_num r)
     (cl1_transaction_num r)"
  decode_clear_single "\<lambda>r. cl1_byte_bus_id r < 0x800"
  by unfold_locales
     (simp add: request_encoders request_decoders decode_repurposed_encode Let_def masked_field
       check_evt_hs_cs_zero_def all_zero_def)

interpretation timed: message_codec
  "\<lambda>r. case encode_timed_request (td_byte_bus_id r) (td_presentation_time r)
     (td_transaction_num r) (td_payload r) of Some b \<Rightarrow> b | None \<Rightarrow> []"
  decode_timed_request
  "\<lambda>r. td_byte_bus_id r < 0x800 \<and> td_presentation_time r \<le> kTimedPresentationTimeMax"
proof unfold_locales
  fix r :: timed_request
  assume wf: "td_byte_bus_id r < 0x800 \<and> td_presentation_time r \<le> kTimedPresentationTimeMax"
  have "timed_params (td_presentation_time r) ! 0 = 0" by (simp add: timed_params_def)
  moreover have "\<not> kTimedPresentationTimeMax < td_presentation_time r"
    using wf by (simp add: not_less)
  ultimately show "decode_timed_request
      (case encode_timed_request (td_byte_bus_id r) (td_presentation_time r)
         (td_transaction_num r) (td_payload r) of Some b \<Rightarrow> b | None \<Rightarrow> []) = Inr r"
    using wf timed_params_value [of "td_presentation_time r"]
    by (simp add: request_encoders request_decoders decode_repurposed_encode Let_def masked_field)
qed

section \<open>Properties\<close>

text \<open>
  The opcode slot is a lossless encoding. Packing an opcode and its seven parameter
  octets and unpacking them gives both back; conversely, whatever slot value the decoder
  accepts is the packing of what it returned. With the timestamp-valid flag set, nothing is
  decoded.
\<close>

theorem opcode_slot_roundtrip:
  "(length params = 7 \<longrightarrow>
      decode_request_type False (encode_request_type type params) = Inr (type, params)) \<and>
   (\<forall>t ps. decode_request_type mtv slot = Inr (t, ps) \<longrightarrow>
      \<not> mtv \<and> length ps = 7 \<and> encode_request_type t ps = slot)"
proof (intro conjI impI allI)
  fix t ps
  assume dec: "decode_request_type mtv slot = Inr (t, ps)"
  then have byte: "opcode_byte t = ucast (drop_bit 56 slot)"
    and ps: "ps = map (\<lambda>i. ucast (drop_bit (48 - 8 * i) slot)) [0..<7]" and "\<not> mtv"
    by (auto simp: decode_request_type_def Let_def split: if_splits option.splits
        dest: opcode_byte_of)
  have "put_u64 (encode_request_type t ps) = put_u64 slot"
    by (simp add: encode_request_type_def put_u64_def upt_7 upt_8 ps byte bits)
  then have "get_u64 (put_u64 (encode_request_type t ps) @ []) = get_u64 (put_u64 slot @ [])"
    by simp
  then show "encode_request_type t ps = slot" by (simp only: get_put_u64)
  show "\<not> mtv" by fact
  show "length ps = 7" by (simp add: ps)
qed simp

theorem opcode_slot_roundtrip_witness:
  "decode_request_type False (encode_request_type Timed [0, 1, 2, 3, 4, 5, 6])
     = Inr (Timed, [0, 1, 2, 3, 4, 5, 6])"
  using opcode_slot_roundtrip [of "[0, 1, 2, 3, 4, 5, 6]" Timed] by simp

text \<open>
  A request of each kind, encoded and decoded again, is the same request, for every bus
  address, transaction number and parameter value that fits the wire: compound and
  compound-wait, triggered, chained, timed, and the three cancellation requests. A timed
  request is encoded iff its presentation time fits 48 bits.
\<close>

theorem request_codecs_roundtrip:
  assumes "bus < 0x800"
  shows "((is_compound t \<or> is_compound_wait t) \<and> evt < 8 \<longrightarrow>
      decode_compound_request (encode_compound_request t bus cstep evt txn pl)
      = Inr \<lparr>cr_type = t, cr_byte_bus_id = bus, cr_step = cstep, cr_evt_op = evt,
             cr_transaction_num = txn, cr_payload = pl\<rparr>)
   \<and> (is_triggered t \<longrightarrow>
      decode_triggered_request (encode_triggered_request t bus tstep txn pl)
      = Inr \<lparr>tr_type = t, tr_byte_bus_id = bus, tr_step = tstep, tr_transaction_num = txn,
             tr_payload = pl\<rparr>)
   \<and> decode_chained_member (encode_chained_member bus delay cs txn pl)
      = Inr \<lparr>ch_byte_bus_id = bus, ch_exec_delay = delay, ch_cs = cs, ch_transaction_num = txn,
             ch_payload = pl\<rparr>
   \<and> (case encode_timed_request bus pt txn pl of
        None \<Rightarrow> kTimedPresentationTimeMax < pt
      | Some b \<Rightarrow> decode_timed_request b
          = Inr \<lparr>td_byte_bus_id = bus, td_presentation_time = pt, td_transaction_num = txn,
                 td_payload = pl\<rparr>)
   \<and> decode_clear_non_safestate (encode_clear_non_safestate bus txn)
      = Inr \<lparr>cl_byte_bus_id = bus, cl_transaction_num = txn\<rparr>
   \<and> decode_clear_all (encode_clear_all bus txn)
      = Inr \<lparr>cl_byte_bus_id = bus, cl_transaction_num = txn\<rparr>
   \<and> decode_clear_single (encode_clear_single bus victim txn)
      = Inr \<lparr>cl1_byte_bus_id = bus, cl1_clear_transaction_num = victim,
             cl1_transaction_num = txn\<rparr>"
proof (intro conjI impI)
  show "case encode_timed_request bus pt txn pl of
        None \<Rightarrow> kTimedPresentationTimeMax < pt
      | Some b \<Rightarrow> decode_timed_request b
          = Inr \<lparr>td_byte_bus_id = bus, td_presentation_time = pt, td_transaction_num = txn,
                 td_payload = pl\<rparr>"
    using assms timed.dec_enc [of "\<lparr>td_byte_bus_id = bus, td_presentation_time = pt,
        td_transaction_num = txn, td_payload = pl\<rparr>"]
    by (cases "kTimedPresentationTimeMax < pt") (simp_all add: encode_timed_request_def Let_def)
qed (use assms
      compound.dec_enc [of "\<lparr>cr_type = t, cr_byte_bus_id = bus, cr_step = cstep,
        cr_evt_op = evt, cr_transaction_num = txn, cr_payload = pl\<rparr>"]
      triggered.dec_enc [of "\<lparr>tr_type = t, tr_byte_bus_id = bus, tr_step = tstep,
        tr_transaction_num = txn, tr_payload = pl\<rparr>"]
      chained.dec_enc [of "\<lparr>ch_byte_bus_id = bus, ch_exec_delay = delay, ch_cs = cs,
        ch_transaction_num = txn, ch_payload = pl\<rparr>"]
      clear_non_safestate.dec_enc [of "\<lparr>cl_byte_bus_id = bus, cl_transaction_num = txn\<rparr>"]
      clear_all.dec_enc [of "\<lparr>cl_byte_bus_id = bus, cl_transaction_num = txn\<rparr>"]
      clear_single.dec_enc [of "\<lparr>cl1_byte_bus_id = bus, cl1_clear_transaction_num = victim,
        cl1_transaction_num = txn\<rparr>"]
      in simp_all)

definition sample_step :: compound_step where
  "sample_step = \<lparr>cs_start_state = 1, cs_next_state = 2, cs_sequencer_index = 3,
     cs_exec_delay = 0x0102, cs_repeat_count = 0xFFFF\<rparr>"

definition sample_trigger :: triggered_step where
  "sample_trigger = \<lparr>ts_source_ep = 4, ts_signal_nr = 1, ts_threshold = 2,
     ts_exec_delay = 10, ts_repeat_count = 1\<rparr>"

theorem request_codecs_roundtrip_witness:
  "decode_compound_request (encode_compound_request CompoundWait 0x7FF sample_step 5 4 [7])
     = Inr \<lparr>cr_type = CompoundWait, cr_byte_bus_id = 0x7FF, cr_step = sample_step,
            cr_evt_op = 5, cr_transaction_num = 4, cr_payload = [7]\<rparr>"
  using request_codecs_roundtrip [of "0x7FF" CompoundWait 5 sample_step 4 "[7]" sample_trigger
      0 False 0 3]
  by (simp add: is_compound_wait_def)

text \<open>The kinds under which a frame is accepted.\<close>

definition accepted_as :: "octets \<Rightarrow> opcode set" where
  "accepted_as b =
     {t. (\<exists>r. decode_compound_request b = Inr r \<and> cr_type r = t)
       \<or> (\<exists>r. decode_triggered_request b = Inr r \<and> tr_type r = t)
       \<or> (\<exists>r. decode_chained_member b = Inr r) \<and> t = Chained
       \<or> (\<exists>r. decode_timed_request b = Inr r) \<and> t = Timed
       \<or> (\<exists>r. decode_clear_non_safestate b = Inr r) \<and> t = ClearNonSafestate
       \<or> (\<exists>r. decode_clear_all b = Inr r) \<and> t = ClearAll
       \<or> (\<exists>r. decode_clear_single b = Inr r) \<and> t = ClearSingle}"

lemma accepted_opcode:
  assumes "t \<in> accepted_as b"
  shows "\<exists>info params payload. decode_repurposed b = Inr (info, t, params, payload)"
  using assms
  by (auto simp: accepted_as_def request_decoders split: sum.splits prod.splits if_splits
      option.splits)

text \<open>
  No octet sequence is a request of two kinds: whichever of the seven decoders are tried
  on it, at most one opcode is ever accepted, and that is the opcode in the ninth octet.
\<close>

theorem request_kind_unique:
  assumes "s \<in> accepted_as b" and "t \<in> accepted_as b"
  shows "s = t \<and> opcode_byte t = b ! 8"
proof -
  obtain i ps pl j qs ql where s: "decode_repurposed b = Inr (i, s, ps, pl)"
    and t: "decode_repurposed b = Inr (j, t, qs, ql)"
    using accepted_opcode assms by metis
  have "opcode_byte t = ucast (drop_bit 56 (get_u64 (drop 8 b)))"
    using t
    by (auto simp: decode_repurposed_def decode_acf_gbb_def decode_acf_gbb_message_info_def
        decode_request_type_def kAcfGbbTimestampOffset_def kAcfCommonHeaderLen_def Let_def
        split: sum.splits prod.splits if_splits option.splits dest: opcode_byte_of)
  moreover have "16 \<le> length b"
    using t by (auto simp: decode_repurposed_def decode_acf_gbb_def kAcfGbbMessageInfoLen_def
        kAcfGbbTimestampLen_def kAcfCommonHeaderLen_def split: if_splits)
  ultimately have "opcode_byte t = b ! 8"
    by (simp add: get_u64_def upt_8 bits)
  then show ?thesis using s t by simp
qed

theorem request_kind_unique_witness:
  "accepted_as (encode_clear_all 5 9) = {ClearAll}"
proof -
  have "decode_clear_all (encode_clear_all 5 9)
      = Inr \<lparr>cl_byte_bus_id = 5, cl_transaction_num = 9\<rparr>"
    using clear_all.dec_enc [of "\<lparr>cl_byte_bus_id = 5, cl_transaction_num = 9\<rparr>"] by simp
  then have "ClearAll \<in> accepted_as (encode_clear_all 5 9)"
    by (auto simp: accepted_as_def)
  then show ?thesis
    using request_kind_unique by blast
qed

end
