(* ===== verification/Schedule.thy ===== *)
theory Schedule
  imports Request
begin

text \<open>
  When a request runs: the second part of \<open>include/rcp/request.hpp\<close>. Which of the due
  requests is served next, the sequencer table that gates compound requests, the occurrence
  counter of triggered requests, the admission and due times of timed requests on the 48-bit
  clock, and the consistency rules between advertised features.
\<close>

section \<open>Priority\<close>

datatype request_category =
    Cancellation | TriggeredCat | TimedCat | CompoundCat | CompoundWaitCat | ChainedCat | Standard

fun category_of :: "opcode option \<Rightarrow> request_category" where
  "category_of None = Standard"
| "category_of (Some ClearAll) = Cancellation"
| "category_of (Some ClearNonSafestate) = Cancellation"
| "category_of (Some ClearSingle) = Cancellation"
| "category_of (Some Triggered) = TriggeredCat"
| "category_of (Some TriggeredSafety) = TriggeredCat"
| "category_of (Some Timed) = TimedCat"
| "category_of (Some Compound) = CompoundCat"
| "category_of (Some CompoundSafety) = CompoundCat"
| "category_of (Some CompoundWait) = CompoundWaitCat"
| "category_of (Some CompoundWaitSafety) = CompoundWaitCat"
| "category_of (Some Chained) = ChainedCat"

fun priority_rank :: "request_category \<Rightarrow> u8" where
  "priority_rank Cancellation = 0"
| "priority_rank TriggeredCat = 1"
| "priority_rank TimedCat = 2"
| "priority_rank CompoundCat = 3"
| "priority_rank CompoundWaitCat = 4"
| "priority_rank ChainedCat = 5"
| "priority_rank Standard = 6"

lemma priority_rank_inject [simp]: "priority_rank a = priority_rank b \<longleftrightarrow> a = b"
  by (cases a; cases b) simp_all

text \<open>The categories are linearly ordered by their rank.\<close>

instantiation request_category :: linorder
begin

definition less_eq_request_category :: "request_category \<Rightarrow> request_category \<Rightarrow> bool" where
  "less_eq_request_category a b \<longleftrightarrow> priority_rank a \<le> priority_rank b"

definition less_request_category :: "request_category \<Rightarrow> request_category \<Rightarrow> bool" where
  "less_request_category a b \<longleftrightarrow> priority_rank a < priority_rank b"

instance
proof
  fix a b :: request_category
  assume "a \<le> b" "b \<le> a"
  then have "priority_rank a = priority_rank b" by (simp add: less_eq_request_category_def)
  then show "a = b" by simp
qed (auto simp: less_eq_request_category_def less_request_category_def less_le)

end

record due_candidate =
  dc_category :: request_category
  dc_arrival_seq :: nat

definition better_candidate :: "due_candidate \<Rightarrow> due_candidate \<Rightarrow> bool" where
  "better_candidate cur best_c \<longleftrightarrow>
     priority_rank (dc_category cur) < priority_rank (dc_category best_c) \<or>
     (priority_rank (dc_category cur) = priority_rank (dc_category best_c) \<and>
      dc_arrival_seq cur < dc_arrival_seq best_c)"

definition select_next_due :: "due_candidate list \<Rightarrow> nat option" where
  "select_next_due due =
     (if due = [] then None
      else Some (fold (\<lambda>i best. if better_candidate (due ! i) (due ! best) then i else best)
             [1..<length due] 0))"

text \<open>A candidate's place in the order of service.\<close>

definition due_key :: "due_candidate \<Rightarrow> request_category \<times> nat" where
  "due_key c = (dc_category c, dc_arrival_seq c)"

definition key_less :: "due_candidate \<Rightarrow> due_candidate \<Rightarrow> bool" where
  "key_less c d \<longleftrightarrow>
     dc_category c < dc_category d \<or> dc_category c = dc_category d \<and> dc_arrival_seq c < dc_arrival_seq d"

lemma better_iff_key_less: "better_candidate c d \<longleftrightarrow> key_less c d"
  by (simp add: better_candidate_def key_less_def less_request_category_def)

lemma key_less_trans: "key_less a b \<Longrightarrow> key_less b c \<Longrightarrow> key_less a c"
  by (auto simp: key_less_def)

lemma key_less_mixed: "key_less a b \<Longrightarrow> \<not> key_less c b \<Longrightarrow> key_less a c"
  by (auto simp: key_less_def)

text \<open>The best candidate among the first \<open>n + 1\<close>, as the loop computes it.\<close>

definition best_upto :: "due_candidate list \<Rightarrow> nat \<Rightarrow> nat" where
  "best_upto due n =
     fold (\<lambda>i best. if better_candidate (due ! i) (due ! best) then i else best) [1..<Suc n] 0"

lemma best_upto_simps:
  "best_upto due 0 = 0"
  "best_upto due (Suc n) =
     (if key_less (due ! Suc n) (due ! best_upto due n) then Suc n else best_upto due n)"
  by (simp_all add: best_upto_def better_iff_key_less)

lemma best_upto_spec:
  "best_upto due n \<le> n \<and> (\<forall>j \<le> n. \<not> key_less (due ! j) (due ! best_upto due n))
   \<and> (\<forall>j < best_upto due n. key_less (due ! best_upto due n) (due ! j))"
proof (induction n)
  case 0
  then show ?case by (simp add: best_upto_simps key_less_def)
next
  case (Suc n)
  show ?case
  proof (cases "key_less (due ! Suc n) (due ! best_upto due n)")
    case True
    have "\<not> key_less (due ! j) (due ! Suc n)" if "j \<le> Suc n" for j
      using that Suc True key_less_trans [of "due ! j" "due ! Suc n" "due ! best_upto due n"]
      by (cases "j = Suc n") (auto simp: key_less_def)
    moreover have "key_less (due ! Suc n) (due ! j)" if "j < Suc n" for j
      using that Suc True
      by (meson key_less_mixed less_Suc_eq_le)
    ultimately show ?thesis using True by (simp add: best_upto_simps)
  next
    case False
    then show ?thesis
      using Suc by (auto simp: best_upto_simps le_Suc_eq)
  qed
qed

lemma select_next_due_Some:
  "select_next_due due = Some i \<longleftrightarrow> due \<noteq> [] \<and> i = best_upto due (length due - 1)"
  by (cases due) (auto simp: select_next_due_def best_upto_def simp del: upt_Suc)

section \<open>Frames and feature bundles\<close>

definition frame_timing_consistent :: "bool \<Rightarrow> bool list \<Rightarrow> bool" where
  "frame_timing_consistent is_tscf member_is_timed =
     (if \<not> is_tscf \<or> member_is_timed = [] then True
      else list_all (\<lambda>i. member_is_timed ! i = member_is_timed ! 0) [1..<length member_is_timed])"

definition should_execute_chained :: "bool \<Rightarrow> bool \<Rightarrow> bool" where
  "should_execute_chained cs predecessor_errored \<longleftrightarrow> \<not> cs \<or> \<not> predecessor_errored"

definition chained_exec_delay_elapsed :: "u16 \<Rightarrow> u32 \<Rightarrow> bool" where
  "chained_exec_delay_elapsed chain_exec_delay elapsed \<longleftrightarrow> ucast chain_exec_delay \<le> elapsed"

definition kMinCompoundSequencers :: nat where "kMinCompoundSequencers = 4"

record feature_set =
  fs_compound :: bool
  fs_compound_wait :: bool
  fs_triggered :: bool
  fs_chained :: bool
  fs_timed :: bool
  fs_clear_non_safestate :: bool
  fs_clear_single :: bool
  fs_sequencer_count :: nat

definition validate_feature_bundles :: "feature_set \<Rightarrow> error option" where
  "validate_feature_bundles f =
     (let claims_compound_support = fs_compound f \<or> fs_compound_wait f in
      if \<not> claims_compound_support then None
      else
        (let complete = fs_compound f \<and> fs_compound_wait f \<and> fs_clear_non_safestate f \<and>
               kMinCompoundSequencers \<le> fs_sequencer_count f
         in if complete then None else Some (Request_err Compound_bundle_incomplete)))"

definition kOptConditionalRequests :: u32 where "kOptConditionalRequests = 0x00000001"

definition implemented_options_bits :: "feature_set \<Rightarrow> u32" where
  "implemented_options_bits f =
     (let any_conditional = fs_compound f \<or> fs_compound_wait f \<or> fs_triggered f \<or> fs_chained f \<or>
            fs_timed f
      in if any_conditional then kOptConditionalRequests else 0)"

section \<open>Sequencers\<close>

text \<open>
  \<open>SequencerTable\<close> is a view over the register map's vector of sequencer states: its state
  is that vector. A sequencer in state 0 is disabled.
\<close>

type_synonym sequencers = "u8 list"

definition kDefaultState :: u8 where "kDefaultState = 1"

definition ensure_size :: "sequencers \<Rightarrow> nat \<Rightarrow> sequencers" where
  "ensure_size states count =
     (if length states < count then states @ replicate (count - length states) kDefaultState
      else states)"

definition state_of :: "sequencers \<Rightarrow> nat \<Rightarrow> u8 result" where
  "state_of states index =
     (if length states \<le> index then Inl (Request_err Index_out_of_range) else Inr (states ! index))"

definition set_state :: "sequencers \<Rightarrow> nat \<Rightarrow> u8 \<Rightarrow> error option \<times> sequencers" where
  "set_state states index state =
     (if length states \<le> index then (Some (Request_err Index_out_of_range), states)
      else (None, states[index := state]))"

definition reset_all_to_default :: "sequencers \<Rightarrow> sequencers" where
  "reset_all_to_default states = map (\<lambda>_. kDefaultState) states"

definition advance_guard :: "sequencers \<Rightarrow> compound_step \<Rightarrow> bool" where
  "advance_guard states step =
     (case state_of states (unat (cs_sequencer_index step)) of
        Inl ec \<Rightarrow> False
      | Inr cur \<Rightarrow> if cur = 0 then False else cur = cs_start_state step)"

definition start_condition_met :: "sequencers \<Rightarrow> compound_step \<Rightarrow> bool" where
  "start_condition_met states step =
     (case state_of states (unat (cs_sequencer_index step)) of
        Inl ec \<Rightarrow> False
      | Inr cur \<Rightarrow>
          if cur = 0 then False
          else if cs_start_state step = 0 then True
          else cur = cs_start_state step)"

definition apply_next_state :: "sequencers \<Rightarrow> compound_step \<Rightarrow> error option \<times> sequencers" where
  "apply_next_state states step =
     (if cs_next_state step = 0
      then (case state_of states (unat (cs_sequencer_index step)) of
              Inl ec \<Rightarrow> (Some ec, states)
            | Inr dummy \<Rightarrow> (None, states))
      else set_state states (unat (cs_sequencer_index step)) (cs_next_state step))"

definition exec_delay_elapsed :: "compound_step \<Rightarrow> u32 \<Rightarrow> bool" where
  "exec_delay_elapsed step elapsed \<longleftrightarrow> ucast (cs_exec_delay step) \<le> elapsed"

definition tick :: "sequencers \<Rightarrow> compound_step \<Rightarrow> u32 \<Rightarrow> bool \<times> sequencers" where
  "tick states step elapsed =
     (if \<not> exec_delay_elapsed step elapsed then (False, states)
      else if \<not> advance_guard states step then (False, states)
      else (case apply_next_state states step of (ec, states') \<Rightarrow> (ec = None, states')))"

definition wait_tick :: "sequencers \<Rightarrow> compound_step \<Rightarrow> bool \<Rightarrow> bool \<times> sequencers" where
  "wait_tick states step condition_met =
     (if \<not> condition_met then (False, states)
      else if \<not> advance_guard states step then (False, states)
      else (case apply_next_state states step of (ec, states') \<Rightarrow> (ec = None, states')))"

text \<open>One step of the table under compound and compound-wait requests, and runs of steps.\<close>

inductive sequencer_step :: "sequencers \<Rightarrow> sequencers \<Rightarrow> bool" where
  by_tick: "tick states step elapsed = (fired, states') \<Longrightarrow> sequencer_step states states'"
| by_wait: "wait_tick states step condition = (fired, states') \<Longrightarrow> sequencer_step states states'"
| by_finalize: "advance_guard states step \<Longrightarrow> apply_next_state states step = (ec, states') \<Longrightarrow>
    sequencer_step states states'"

inductive_cases sequencer_stepE: "sequencer_step states states'"

lemma advance_guard_iff:
  "advance_guard states step \<longleftrightarrow>
     unat (cs_sequencer_index step) < length states
     \<and> states ! unat (cs_sequencer_index step) \<noteq> 0
     \<and> states ! unat (cs_sequencer_index step) = cs_start_state step"
  by (auto simp: advance_guard_def state_of_def)

lemma apply_next_state_in_range:
  "unat (cs_sequencer_index step) < length states \<Longrightarrow>
   apply_next_state states step =
     (None, if cs_next_state step = 0 then states
            else states[unat (cs_sequencer_index step) := cs_next_state step])"
  by (simp add: apply_next_state_def state_of_def set_state_def)

lemma sequencer_step_effect:
  assumes "sequencer_step states states'"
  shows "states' = states \<or>
    (\<exists>i v. i < length states \<and> states ! i \<noteq> 0 \<and> v \<noteq> 0 \<and> states' = states[i := v])"
  using assms
proof cases
  case (by_tick step elapsed fired)
  then show ?thesis
    by (auto simp: tick_def advance_guard_iff apply_next_state_in_range split: if_splits)
next
  case (by_wait step condition fired)
  then show ?thesis
    by (auto simp: wait_tick_def advance_guard_iff apply_next_state_in_range split: if_splits)
next
  case (by_finalize step ec)
  then show ?thesis
    by (auto simp: advance_guard_iff apply_next_state_in_range split: if_splits)
qed

section \<open>Triggered requests\<close>

record triggered_runtime =
  rt_occurrence_count :: u32
  rt_started :: bool

definition triggered_enter_started :: "triggered_runtime \<Rightarrow> triggered_runtime" where
  "triggered_enter_started rt = rt\<lparr>rt_occurrence_count := 0, rt_started := True\<rparr>"

definition triggered_record_occurrence ::
    "triggered_runtime \<Rightarrow> triggered_step \<Rightarrow> u8 \<Rightarrow> u8 \<Rightarrow> bool \<times> triggered_runtime" where
  "triggered_record_occurrence rt step source_ep signal_nr =
     (if \<not> rt_started rt then (False, rt)
      else if source_ep \<noteq> ts_source_ep step \<or> signal_nr \<noteq> ts_signal_nr step then (False, rt)
      else (True, rt\<lparr>rt_occurrence_count := rt_occurrence_count rt + 1\<rparr>))"

definition triggered_threshold_reached :: "triggered_step \<Rightarrow> triggered_runtime \<Rightarrow> bool" where
  "triggered_threshold_reached step rt \<longleftrightarrow> ucast (ts_threshold step) < rt_occurrence_count rt"

definition triggered_exec_delay_elapsed :: "triggered_step \<Rightarrow> u32 \<Rightarrow> bool" where
  "triggered_exec_delay_elapsed step elapsed \<longleftrightarrow> ucast (ts_exec_delay step) \<le> elapsed"

definition triggered_tick ::
    "triggered_step \<Rightarrow> triggered_runtime \<Rightarrow> u32 \<Rightarrow> bool \<Rightarrow> bool \<times> triggered_runtime" where
  "triggered_tick step rt elapsed endpoint_idle =
     (if \<not> rt_started rt then (False, rt)
      else if \<not> triggered_threshold_reached step rt then (False, rt)
      else if \<not> triggered_exec_delay_elapsed step elapsed then (False, rt)
      else if \<not> endpoint_idle then (False, rt)
      else (True, rt\<lparr>rt_occurrence_count := 0, rt_started := False\<rparr>))"

text \<open>Trigger signals arriving one after the other, and those a request waits for.\<close>

definition record_signals ::
    "triggered_step \<Rightarrow> (u8 \<times> u8) list \<Rightarrow> triggered_runtime \<Rightarrow> triggered_runtime" where
  "record_signals step signals rt =
     fold (\<lambda>(ep, nr) rt. snd (triggered_record_occurrence rt step ep nr)) signals rt"

definition matching :: "triggered_step \<Rightarrow> (u8 \<times> u8) list \<Rightarrow> nat" where
  "matching step signals = count_list signals (ts_source_ep step, ts_signal_nr step)"

lemma record_signals_started:
  assumes "rt_started rt"
  shows "rt_started (record_signals step signals rt) \<and>
    rt_occurrence_count (record_signals step signals rt)
      = rt_occurrence_count rt + of_nat (matching step signals)"
  using assms
proof (induction signals arbitrary: rt)
  case Nil
  then show ?case by (simp add: record_signals_def matching_def)
next
  case (Cons x xs)
  obtain ep nr where x: "x = (ep, nr)" by (cases x)
  define rt1 where "rt1 = snd (triggered_record_occurrence rt step ep nr)"
  have run: "record_signals step (x # xs) rt = record_signals step xs rt1"
    by (simp add: record_signals_def x rt1_def)
  have "rt_started rt1"
    and "rt_occurrence_count rt1 = rt_occurrence_count rt
      + (if x = (ts_source_ep step, ts_signal_nr step) then 1 else 0)"
    using Cons.prems by (auto simp: rt1_def triggered_record_occurrence_def x)
  with Cons.IH [of rt1] show ?case
    unfolding run by (simp add: matching_def)
qed

section \<open>Timed requests\<close>

definition timed_feature_enabled :: "u32 \<Rightarrow> bool" where
  "timed_feature_enabled options \<longleftrightarrow> options AND kOptConditionalRequests \<noteq> 0"

datatype timed_admission = Accept | RejectGptpFail | RejectPresentationTimeTooFar

definition timed_forward_delta :: "u64 \<Rightarrow> u64 \<Rightarrow> u64" where
  "timed_forward_delta presentation_time now =
     (presentation_time - now) AND kTimedPresentationTimeMax"

definition timed_in_the_past :: "u64 \<Rightarrow> bool" where
  "timed_in_the_past delta \<longleftrightarrow> kTimedPresentationTimeModulus div 2 < delta"

definition timed_too_far :: "u64 \<Rightarrow> u64 \<Rightarrow> u64 \<Rightarrow> bool" where
  "timed_too_far presentation_time now max_horizon =
     (let delta = timed_forward_delta presentation_time now in
      if timed_in_the_past delta then False else max_horizon < delta)"

definition timed_due :: "u64 \<Rightarrow> u64 \<Rightarrow> bool" where
  "timed_due presentation_time now =
     (let delta = timed_forward_delta presentation_time now in
      delta = 0 \<or> timed_in_the_past delta)"

definition timed_admit :: "bool \<Rightarrow> u64 \<Rightarrow> u64 \<Rightarrow> u64 \<Rightarrow> timed_admission" where
  "timed_admit gptp_locked presentation_time now max_horizon =
     (if \<not> gptp_locked then RejectGptpFail
      else if timed_too_far presentation_time now max_horizon then RejectPresentationTimeTooFar
      else Accept)"

fun wire_error_for :: "timed_admission \<Rightarrow> wire_error_code option" where
  "wire_error_for RejectGptpFail = Some GptpFail"
| "wire_error_for RejectPresentationTimeTooFar = Some PresentationTimeTooFar"
| "wire_error_for Accept = None"

lemma unat_forward_delta:
  "unat (timed_forward_delta pt now) = unat (pt - now) mod 2 ^ 48"
proof -
  have "timed_forward_delta pt now = take_bit 48 (pt - now)"
    by (simp add: timed_forward_delta_def kTimedPresentationTimeMax_def take_bit_eq_mask mask_numeral)
  then have "unat (timed_forward_delta pt now) = take_bit 48 (unat (pt - now))"
    by (simp only: unsigned_take_bit_eq)
  then show ?thesis by (simp add: take_bit_eq_mod)
qed

lemma past_iff: "timed_in_the_past delta \<longleftrightarrow> 2 ^ 47 < unat delta"
  by (simp add: timed_in_the_past_def kTimedPresentationTimeModulus_def word_less_nat_alt unat_div)

text \<open>The clock on the circle of \<open>2 ^ 48\<close> nanoseconds: advancing it shrinks the distance.\<close>

lemma unat_minus_of_nat:
  assumes "k < 2 ^ 64"
  shows "unat (x - of_nat k :: u64) = (unat x + 2 ^ 64 - k) mod 2 ^ 64"
proof -
  have k: "unat (of_nat k :: u64) = k" using assms by (simp add: unat_of_nat)
  then show ?thesis
    using unat_bound [of x] assms
    by (cases "k \<le> unat x") (simp_all add: unat_sub_if' mod_if)
qed

lemma forward_delta_advance:
  assumes "k < 2 ^ 48"
  shows "unat (timed_forward_delta pt (now + of_nat k))
    = (unat (timed_forward_delta pt now) + 2 ^ 48 - k) mod 2 ^ 48"
proof -
  let ?x = "unat (pt - now)"
  have "unat (pt - (now + of_nat k)) = (?x + 2 ^ 64 - k) mod 2 ^ 64"
    using unat_minus_of_nat [of k "pt - now"] assms by (simp add: algebra_simps)
  then have "unat (timed_forward_delta pt (now + of_nat k)) = (?x + 2 ^ 64 - k) mod 2 ^ 48"
    by (simp add: unat_forward_delta mod_mod_cancel)
  also have "?x + 2 ^ 64 - k = (?x + (2 ^ 48 - k)) + 65535 * 2 ^ 48"
    using assms by simp
  also have "\<dots> mod 2 ^ 48 = (?x + (2 ^ 48 - k)) mod 2 ^ 48"
    by (rule mod_mult_self1)
  also have "\<dots> = (?x mod 2 ^ 48 + (2 ^ 48 - k)) mod 2 ^ 48"
    by (rule mod_add_left_eq [symmetric])
  also have "\<dots> = (unat (timed_forward_delta pt now) + 2 ^ 48 - k) mod 2 ^ 48"
    using assms by (simp add: unat_forward_delta)
  finally show ?thesis .
qed

section \<open>Properties\<close>

text \<open>
  The next request to serve is a candidate of the highest priority present and, among
  those, of the earliest arrival; among equal candidates it is the first of the list. Nothing
  is chosen only when nothing is due.
\<close>

theorem select_next_due_minimal:
  "(select_next_due due = None \<longleftrightarrow> due = []) \<and>
   (\<forall>i. select_next_due due = Some i \<longrightarrow>
      i < length due \<and>
      (\<forall>j < length due.
         dc_category (due ! i) < dc_category (due ! j) \<or>
         dc_category (due ! i) = dc_category (due ! j) \<and>
         dc_arrival_seq (due ! i) \<le> dc_arrival_seq (due ! j)) \<and>
      (\<forall>j < i. due_key (due ! j) \<noteq> due_key (due ! i)))"
proof (intro conjI allI impI)
  show "select_next_due due = None \<longleftrightarrow> due = []" by (simp add: select_next_due_def)
next
  fix i assume i: "select_next_due due = Some i"
  then have ne: "due \<noteq> []" and best: "i = best_upto due (length due - 1)"
    by (simp_all add: select_next_due_Some)
  note spec = best_upto_spec [of due "length due - 1", folded best]
  from spec have "i \<le> length due - 1" by blast
  moreover have "0 < length due" using ne by simp
  ultimately show "i < length due" by linarith
  show "due_key (due ! j) \<noteq> due_key (due ! i)" if "j < i" for j
  proof -
    have "key_less (due ! i) (due ! j)" using spec that by blast
    then show ?thesis by (auto simp: due_key_def key_less_def)
  qed
  show "dc_category (due ! i) < dc_category (due ! j) \<or>
      dc_category (due ! i) = dc_category (due ! j) \<and>
      dc_arrival_seq (due ! i) \<le> dc_arrival_seq (due ! j)" if "j < length due" for j
  proof -
    have "j \<le> length due - 1" using that by linarith
    then have "\<not> key_less (due ! j) (due ! i)" using spec by blast
    then show ?thesis by (auto simp: key_less_def not_less)
  qed
qed

definition sample_due :: "due_candidate list" where
  "sample_due =
     [\<lparr>dc_category = Standard, dc_arrival_seq = 0\<rparr>,
      \<lparr>dc_category = TimedCat, dc_arrival_seq = 7\<rparr>,
      \<lparr>dc_category = TimedCat, dc_arrival_seq = 3\<rparr>]"

theorem select_next_due_minimal_witness:
  "select_next_due sample_due = Some 2 \<and>
   dc_category (sample_due ! 2) < dc_category (sample_due ! 0)"
proof -
  have "select_next_due sample_due = Some 2"
    by (simp add: select_next_due_def sample_due_def better_candidate_def)
  then show ?thesis
    using select_next_due_minimal [of sample_due] by (auto simp: sample_due_def)
qed

text \<open>
  Compound requests can neither enable a disabled sequencer nor disable an enabled one:
  along every run of ticks, wait-ticks and finalizations the table keeps its size and each
  sequencer is in state 0 exactly if it was before.
\<close>

theorem sequencer_run_keeps_disabled:
  assumes "sequencer_step\<^sup>*\<^sup>* states states'"
  shows "length states' = length states
    \<and> (\<forall>i < length states. states' ! i = 0 \<longleftrightarrow> states ! i = 0)"
  using assms
proof induction
  case (step s t)
  then show ?case
    using sequencer_step_effect [of s t] by (auto simp: nth_list_update split: if_splits)
qed simp

theorem sequencer_run_keeps_disabled_witness:
  "snd (tick [1, 0, 3] \<lparr>cs_start_state = 3, cs_next_state = 9, cs_sequencer_index = 2,
     cs_exec_delay = 0, cs_repeat_count = 1\<rparr> 5) ! 1 = 0"
proof -
  let ?step = "\<lparr>cs_start_state = 3, cs_next_state = 9, cs_sequencer_index = 2,
     cs_exec_delay = 0, cs_repeat_count = 1\<rparr> :: compound_step"
  have "sequencer_step [1, 0, 3] (snd (tick [1, 0, 3] ?step 5))"
    by (rule by_tick [where fired = "fst (tick [1, 0, 3] ?step 5)"]) simp
  then have "sequencer_step\<^sup>*\<^sup>* [1, 0, 3] (snd (tick [1, 0, 3] ?step 5))" by blast
  from sequencer_run_keeps_disabled [OF this]
  have "\<forall>i < 3. (snd (tick [1, 0, 3] ?step 5) ! i = 0) = ([1, 0, 3 :: u8] ! i = 0)" by simp
  from spec [OF this, of 1] show ?thesis by simp
qed

text \<open>
  A tick of a compound request moves the table iff the delay has elapsed and the
  sequencer exists, is enabled and sits in the start state; then that sequencer alone takes
  the next state (or keeps its own for next state 0). A step whose start state is the
  wildcard 0 may start in any enabled state, yet it never advances its sequencer.
\<close>

theorem tick_advances_iff:
  "(let i = unat (cs_sequencer_index step) in
    tick states step elapsed =
      (if ucast (cs_exec_delay step) \<le> elapsed \<and> i < length states \<and> states ! i \<noteq> 0
          \<and> states ! i = cs_start_state step
       then (True, if cs_next_state step = 0 then states else states[i := cs_next_state step])
       else (False, states)))
   \<and> (cs_start_state step = 0 \<longrightarrow>
        tick states step elapsed = (False, states) \<and> wait_tick states step condition = (False, states))"
  by (auto simp: tick_def wait_tick_def exec_delay_elapsed_def advance_guard_iff
      apply_next_state_in_range Let_def)

theorem tick_advances_iff_witness:
  "start_condition_met [4] \<lparr>cs_start_state = 0, cs_next_state = 2, cs_sequencer_index = 0,
      cs_exec_delay = 0, cs_repeat_count = 0\<rparr>
   \<and> tick [4] \<lparr>cs_start_state = 0, cs_next_state = 2, cs_sequencer_index = 0,
      cs_exec_delay = 0, cs_repeat_count = 0\<rparr> 100 = (False, [4])"
  using tick_advances_iff [of "\<lparr>cs_start_state = 0, cs_next_state = 2, cs_sequencer_index = 0,
      cs_exec_delay = 0, cs_repeat_count = 0\<rparr>" "[4]" 100]
  by (simp add: start_condition_met_def state_of_def)

text \<open>
  A triggered request fires on the right occurrence: after it was started and any
  sequence of trigger signals arrived (fewer than \<open>2 ^ 32\<close>), an idle endpoint whose delay has
  elapsed fires iff more matching signals than the threshold were among them. Firing stops
  the request, so it does not fire again.
\<close>

theorem triggered_fires_after_threshold:
  assumes "length signals < 2 ^ 32"
    and "triggered_exec_delay_elapsed step elapsed"
  shows "let rt' = record_signals step signals (triggered_enter_started rt);
             (fired, rt'') = triggered_tick step rt' elapsed True
         in fired = (unat (ts_threshold step) < matching step signals)
            \<and> (fired \<longrightarrow> (\<forall>e idle. triggered_tick step rt'' e idle = (False, rt'')))"
proof -
  define rt' where "rt' = record_signals step signals (triggered_enter_started rt)"
  have "matching step signals \<le> length signals"
    by (simp add: matching_def count_le_length)
  then have "unat (of_nat (matching step signals) :: u32) = matching step signals"
    using assms(1) by (simp add: unat_of_nat)
  moreover have "rt_started rt'" "rt_occurrence_count rt' = of_nat (matching step signals)"
    using record_signals_started [of "triggered_enter_started rt" step signals]
    by (simp_all add: rt'_def triggered_enter_started_def)
  ultimately show ?thesis
    using assms(2) unfolding rt'_def [symmetric] Let_def
    by (auto simp: triggered_tick_def triggered_threshold_reached_def word_less_nat_alt
        unsigned_ucast_eq take_bit_eq_mod split: if_splits)
       (use unat_bound [of "ts_threshold step"] in simp_all)
qed

theorem triggered_fires_after_threshold_witness:
  "fst (triggered_tick sample_trigger
     (record_signals sample_trigger [(4, 1), (4, 2), (4, 1), (4, 1)]
       (triggered_enter_started \<lparr>rt_occurrence_count = 9, rt_started = False\<rparr>)) 10 True)"
  using triggered_fires_after_threshold [of "[(4, 1), (4, 2), (4, 1), (4, 1)]" sample_trigger 10
      "\<lparr>rt_occurrence_count = 9, rt_started = False\<rparr>"]
  by (auto simp: triggered_exec_delay_elapsed_def sample_trigger_def matching_def Let_def
      split: prod.splits)

text \<open>
  A timed request that is admitted becomes due exactly when its time comes. If the
  presentation time lies \<open>d\<close> nanoseconds ahead on the 48-bit clock, at most half a turn, the
  request is not due for the next \<open>d - 1\<close> nanoseconds and is due from then on for half a
  turn, whatever wraps of the clock lie between; and it is admitted, with the time base
  locked, iff \<open>d\<close> does not exceed the horizon.
\<close>

theorem timed_request_due_window:
  assumes "unat (timed_forward_delta pt now) = d" and "d \<le> 2 ^ 47" and "k < d + 2 ^ 47"
  shows "timed_due pt (now + of_nat k) = (d \<le> k)
    \<and> timed_admit True pt now horizon =
        (if d \<le> unat horizon then Accept else RejectPresentationTimeTooFar)
    \<and> timed_admit False pt now horizon = RejectGptpFail"
proof -
  have k: "k < 2 ^ 48" using assms by simp
  have "unat (timed_forward_delta pt (now + of_nat k)) = (d + 2 ^ 48 - k) mod 2 ^ 48"
    using forward_delta_advance [OF k, of pt now] assms(1) by simp
  moreover have "\<dots> = (if k \<le> d then d - k else d + 2 ^ 48 - k)"
    using k assms by (auto simp: mod_if)
  ultimately have "timed_due pt (now + of_nat k) = (d \<le> k)"
    using assms k by (auto simp: timed_due_def past_iff Let_def unat_eq_0 [symmetric])
  then show ?thesis
    using assms by (simp add: timed_admit_def timed_too_far_def past_iff word_less_nat_alt Let_def not_less)
qed

theorem timed_request_due_window_witness:
  "\<not> timed_due 5 (0xFFFFFFFFFFFE + of_nat 6) \<and> timed_due 5 (0xFFFFFFFFFFFE + of_nat 7)"
proof -
  have "unat (timed_forward_delta 5 0xFFFFFFFFFFFE) = 7"
    by (simp add: timed_forward_delta_def kTimedPresentationTimeMax_def)
  then show ?thesis
    using timed_request_due_window [of 5 "0xFFFFFFFFFFFE" 7 6 0]
      timed_request_due_window [of 5 "0xFFFFFFFFFFFE" 7 7 0] by simp
qed

end
