(* ===== verification/Ledger.thy ===== *)
theory Ledger
  imports Schedule
begin

text \<open>
  The lifecycle of tracked requests: \<open>RequestRecord\<close> and \<open>RequestLedger\<close> of
  \<open>include/rcp/request.hpp\<close>. The ledger is modelled with its bounded storage, its cancellation
  cascade over chained successors and the completion rule of chains; the cascade is proved to
  terminate and to cancel exactly the records that are reachable through live ones.
\<close>

section \<open>Records\<close>

definition kMaxTrackedRequests :: nat where "kMaxTrackedRequests = 64"

datatype request_state = Pending | Started | UnderExecution | Finalized | Canceled

record request_record =
  rr_transaction_num :: u8
  rr_request_type :: "opcode option"
  rr_state :: request_state
  rr_cs :: bool
  rr_is_safety :: bool
  rr_arrival_seq :: nat
  rr_compound_step :: "compound_step option"
  rr_chained_predecessor :: "u8 option"
  rr_chained_successors :: "u8 list"
  rr_outcome :: "error option"

definition request_record_for :: "u8 \<Rightarrow> opcode option \<Rightarrow> bool \<Rightarrow> request_record" where
  "request_record_for transaction_num type cs =
     \<lparr>rr_transaction_num = transaction_num, rr_request_type = type, rr_state = Pending,
      rr_cs = cs, rr_is_safety = (case type of None \<Rightarrow> False | Some t \<Rightarrow> is_safety_variant t),
      rr_arrival_seq = 0, rr_compound_step = None, rr_chained_predecessor = None,
      rr_chained_successors = [], rr_outcome = None\<rparr>"

text \<open>
  \<open>BoundedVector<RequestRecord, 64>\<close> is the list of its first \<open>size()\<close> slots; the pointer
  that \<open>find_mut\<close> returns is used at once to update the record, which is an update of the
  first record with that transaction number.
\<close>

record ledger =
  lg_records :: "request_record list"
  lg_next_arrival_seq :: nat

definition empty_ledger :: ledger where
  "empty_ledger = \<lparr>lg_records = [], lg_next_arrival_seq = 0\<rparr>"

definition find_record :: "request_record list \<Rightarrow> u8 \<Rightarrow> request_record option" where
  "find_record records txn = find (\<lambda>rec. rr_transaction_num rec = txn) records"

fun update_record ::
    "u8 \<Rightarrow> (request_record \<Rightarrow> request_record) \<Rightarrow> request_record list \<Rightarrow> request_record list" where
  "update_record txn f [] = []"
| "update_record txn f (rec # recs) =
     (if rr_transaction_num rec = txn then f rec # recs else rec # update_record txn f recs)"

section \<open>Operations\<close>

definition submit :: "ledger \<Rightarrow> request_record \<Rightarrow> error option \<times> ledger" where
  "submit lg rec =
     (if find_record (lg_records lg) (rr_transaction_num rec) \<noteq> None
      then (Some (Request_err Transaction_num_collision), lg)
      else if kMaxTrackedRequests \<le> length (lg_records lg)
      then (Some (Request_err Ledger_full), lg)
      else
        (let rec = rec\<lparr>rr_state := Pending, rr_arrival_seq := lg_next_arrival_seq lg\<rparr>
         in (None, \<lparr>lg_records = lg_records lg @ [rec],
                    lg_next_arrival_seq = lg_next_arrival_seq lg + 1\<rparr>)))"

definition transition ::
    "request_record list \<Rightarrow> u8 \<Rightarrow> request_state \<Rightarrow> request_state \<Rightarrow> error option \<times> request_record list" where
  "transition records txn from_state to_state =
     (case find_record records txn of
        None \<Rightarrow> (Some (Request_err Unknown_transaction), records)
      | Some rec \<Rightarrow>
          if rr_state rec \<noteq> from_state
          then (Some (Request_err Invalid_lifecycle_transition), records)
          else (None, update_record txn (\<lambda>r. r\<lparr>rr_state := to_state\<rparr>) records))"

definition start :: "ledger \<Rightarrow> u8 \<Rightarrow> error option \<times> ledger" where
  "start lg txn =
     (case transition (lg_records lg) txn Pending Started of
        (ec, records) \<Rightarrow> (ec, lg\<lparr>lg_records := records\<rparr>))"

definition begin_execution :: "ledger \<Rightarrow> u8 \<Rightarrow> error option \<times> ledger" where
  "begin_execution lg txn =
     (case transition (lg_records lg) txn Started UnderExecution of
        (ec, records) \<Rightarrow> (ec, lg\<lparr>lg_records := records\<rparr>))"

text \<open>\<open>Pending\<close> and \<open>Started\<close> requests can still be canceled.\<close>

fun past_cancellation :: "request_state \<Rightarrow> bool" where
  "past_cancellation UnderExecution = True"
| "past_cancellation Finalized = True"
| "past_cancellation Canceled = True"
| "past_cancellation Pending = False"
| "past_cancellation Started = False"

definition mark_canceled :: "request_record \<Rightarrow> request_record" where
  "mark_canceled rec = rec\<lparr>rr_state := Canceled, rr_outcome := Some (Request_err Request_canceled)\<rparr>"

definition live_count :: "request_record list \<Rightarrow> nat" where
  "live_count records = length (filter (\<lambda>rec. \<not> past_cancellation (rr_state rec)) records)"

text \<open>
  \<open>cascade_cancel\<close> and its loop over the successors. Every recursive descent has just
  canceled a live record, so the number of live records decreases and the recursion ends
  even when the successor lists form a cycle.
\<close>

function (sequential) cascade_cancel :: "u8 \<Rightarrow> request_record list \<Rightarrow> request_record list"
    and cascade_each :: "u8 list \<Rightarrow> request_record list \<Rightarrow> request_record list" where
  "cascade_cancel txn records =
     (case find_record records txn of
        None \<Rightarrow> records
      | Some rec \<Rightarrow>
          if past_cancellation (rr_state rec) then records
          else cascade_each (rr_chained_successors rec) (update_record txn mark_canceled records))"
| "cascade_each [] records = records"
| "cascade_each (succ # succs) records = cascade_each succs (cascade_cancel succ records)"
  by pat_completeness auto

lemma find_record_update_count:
  assumes "find_record records txn = Some rec" and "\<not> past_cancellation (rr_state rec)"
  shows "live_count (update_record txn mark_canceled records) < live_count records"
  using assms
  by (induction records)
     (auto simp: find_record_def live_count_def mark_canceled_def split: if_splits)

lemma cascade_live_count:
  "cascade_cancel_cascade_each_dom (Inl (txn, records)) \<Longrightarrow>
     live_count (cascade_cancel txn records) \<le> live_count records"
  "cascade_cancel_cascade_each_dom (Inr (succs, records)) \<Longrightarrow>
     live_count (cascade_each succs records) \<le> live_count records"
proof (induction txn records and succs records rule: cascade_cancel_cascade_each.pinduct)
  case (1 txn records)
  then show ?case
    using find_record_update_count [of records txn]
    by (auto simp: cascade_cancel.psimps split: option.splits)
qed (auto simp: cascade_each.psimps)

termination cascade_cancel
proof (relation "measures
    [\<lambda>x. case x of Inl (txn, records) \<Rightarrow> live_count records
       | Inr (succs, records) \<Rightarrow> live_count records,
     \<lambda>x. case x of Inl _ \<Rightarrow> 0 | Inr (succs, records) \<Rightarrow> Suc (length succs)]")
qed (auto simp: find_record_update_count le_less dest!: cascade_live_count)

declare cascade_cancel.simps [simp del]

definition cancel_single :: "ledger \<Rightarrow> u8 \<Rightarrow> error option \<times> ledger" where
  "cancel_single lg txn =
     (case find_record (lg_records lg) txn of
        None \<Rightarrow> (Some (Request_err Request_not_found), lg)
      | Some rec \<Rightarrow>
          if past_cancellation (rr_state rec) then (Some (Request_err Request_not_cancellable), lg)
          else (None, lg\<lparr>lg_records := cascade_cancel txn (lg_records lg)\<rparr>))"

definition cancel_all_step :: "bool \<Rightarrow> nat \<Rightarrow> request_record list \<times> nat \<Rightarrow> request_record list \<times> nat" where
  "cancel_all_step non_safestate_only i = (\<lambda>(records, count).
     let rec = records ! i in
     if rr_state rec \<noteq> Pending \<and> rr_state rec \<noteq> Started then (records, count)
     else if non_safestate_only \<and> rr_is_safety rec then (records, count)
     else (cascade_cancel (rr_transaction_num rec) records, count + 1))"

definition cancel_all :: "ledger \<Rightarrow> bool \<Rightarrow> nat \<times> ledger" where
  "cancel_all lg non_safestate_only =
     (case fold (cancel_all_step non_safestate_only) [0..<length (lg_records lg)] (lg_records lg, 0) of
        (records, count) \<Rightarrow> (count, lg\<lparr>lg_records := records\<rparr>))"

definition propagate_chain_completion ::
    "request_record list \<Rightarrow> u8 \<Rightarrow> bool \<Rightarrow> request_record list" where
  "propagate_chain_completion records predecessor_txn predecessor_errored =
     (let successors = take kMaxTrackedRequests
            (map rr_transaction_num
               (filter (\<lambda>rec. rr_chained_predecessor rec = Some predecessor_txn) records))
      in fold (\<lambda>succ records.
                case find_record records succ of
                  None \<Rightarrow> records
                | Some rec \<Rightarrow>
                    if \<not> should_execute_chained (rr_cs rec) predecessor_errored
                    then cascade_cancel succ records else records)
           successors records)"

text \<open>The sequencer table is an optional in-out argument, a pointer that may be null.\<close>

definition finalize_sequencers :: "request_record \<Rightarrow> sequencers option \<Rightarrow> sequencers option" where
  "finalize_sequencers rec sequencers =
     (case (sequencers, rr_compound_step rec, rr_request_type rec) of
        (Some states, Some step, Some type) \<Rightarrow>
          if (is_compound type \<or> is_compound_wait type) \<and> advance_guard states step
          then Some (snd (apply_next_state states step))
          else Some states
      | _ \<Rightarrow> sequencers)"

definition finalize ::
    "ledger \<Rightarrow> u8 \<Rightarrow> bool \<Rightarrow> sequencers option \<Rightarrow> error option \<times> ledger \<times> sequencers option" where
  "finalize lg txn errored sequencers =
     (case transition (lg_records lg) txn UnderExecution Finalized of
        (Some ec, _) \<Rightarrow> (Some ec, lg, sequencers)
      | (None, records) \<Rightarrow>
          (None, lg\<lparr>lg_records := propagate_chain_completion records txn errored\<rparr>,
           case find_record records txn of
             None \<Rightarrow> sequencers
           | Some rec \<Rightarrow> finalize_sequencers rec sequencers))"

definition outcome_of :: "ledger \<Rightarrow> u8 \<Rightarrow> error option result" where
  "outcome_of lg txn =
     (case find_record (lg_records lg) txn of
        None \<Rightarrow> Inl (Request_err Unknown_transaction)
      | Some rec \<Rightarrow> Inr (case rr_outcome rec of None \<Rightarrow> None | Some out \<Rightarrow> Some out))"

section \<open>What a cascade cancels\<close>

text \<open>The transactions that can still be canceled, and the successor relation.\<close>

definition live :: "request_record list \<Rightarrow> u8 set" where
  "live records = {t. \<exists>rec. find_record records t = Some rec \<and> \<not> past_cancellation (rr_state rec)}"

definition succs_of :: "request_record list \<Rightarrow> u8 \<Rightarrow> u8 set" where
  "succs_of records t =
     (case find_record records t of None \<Rightarrow> {} | Some rec \<Rightarrow> set (rr_chained_successors rec))"

text \<open>What is reachable from \<open>S\<close> along successors without leaving \<open>L\<close>.\<close>

inductive_set reach :: "u8 set \<Rightarrow> (u8 \<Rightarrow> u8 set) \<Rightarrow> u8 set \<Rightarrow> u8 set"
  for L :: "u8 set" and g :: "u8 \<Rightarrow> u8 set" and S :: "u8 set" where
  base: "s \<in> S \<Longrightarrow> s \<in> L \<Longrightarrow> s \<in> reach L g S"
| step: "u \<in> reach L g S \<Longrightarrow> v \<in> g u \<Longrightarrow> v \<in> L \<Longrightarrow> v \<in> reach L g S"

lemma reach_live: "u \<in> reach L g S \<Longrightarrow> u \<in> L"
  by (induction rule: reach.induct) auto

lemma reach_mono: "u \<in> reach L g S \<Longrightarrow> L \<subseteq> M \<Longrightarrow> S \<subseteq> T \<Longrightarrow> u \<in> reach M g T"
  by (induction rule: reach.induct) (auto intro: reach.intros)

lemma reach_needs_root: "u \<in> reach L g S \<Longrightarrow> S \<inter> L \<noteq> {}"
  by (induction rule: reach.induct) auto

lemma reach_dead: "S \<inter> L = {} \<Longrightarrow> reach L g S = {}"
  using reach_needs_root by fastforce

lemma reach_root:
  assumes "s \<in> L"
  shows "reach L g {s} = insert s (reach (L - {s}) g (g s))"
proof (intro equalityI subsetI)
  fix u assume "u \<in> reach L g {s}"
  then show "u \<in> insert s (reach (L - {s}) g (g s))"
    by (induction rule: reach.induct) (auto intro: reach.intros)
next
  have "u \<in> reach L g {s}" if "u \<in> reach (L - {s}) g (g s)" for u
    using that by (induction rule: reach.induct) (auto intro: reach.intros assms)
  then show "u \<in> reach L g {s}" if "u \<in> insert s (reach (L - {s}) g (g s))" for u
    using that assms by (auto intro: reach.base)
qed

lemma reach_insert:
  "reach L g (insert s T) = reach L g {s} \<union> reach (L - reach L g {s}) g T"
proof (intro equalityI subsetI)
  fix u assume "u \<in> reach L g (insert s T)"
  then show "u \<in> reach L g {s} \<union> reach (L - reach L g {s}) g T"
    by (induction rule: reach.induct) (blast intro: reach.intros)+
next
  fix u assume "u \<in> reach L g {s} \<union> reach (L - reach L g {s}) g T"
  then show "u \<in> reach L g (insert s T)"
    by (auto intro: reach_mono)
qed

text \<open>Canceling a set of transactions at once.\<close>

definition cancel_set :: "u8 set \<Rightarrow> request_record list \<Rightarrow> request_record list" where
  "cancel_set C records =
     map (\<lambda>rec. if rr_transaction_num rec \<in> C then mark_canceled rec else rec) records"

abbreviation distinct_txns :: "request_record list \<Rightarrow> bool" where
  "distinct_txns records \<equiv> distinct (map rr_transaction_num records)"

lemma mark_canceled_simps [simp]:
  "rr_transaction_num (mark_canceled r) = rr_transaction_num r"
  "rr_state (mark_canceled r) = Canceled"
  "rr_is_safety (mark_canceled r) = rr_is_safety r"
  "rr_arrival_seq (mark_canceled r) = rr_arrival_seq r"
  "rr_cs (mark_canceled r) = rr_cs r"
  "rr_chained_predecessor (mark_canceled r) = rr_chained_predecessor r"
  "rr_chained_successors (mark_canceled r) = rr_chained_successors r"
  "rr_outcome (mark_canceled r) = Some (Request_err Request_canceled)"
  "mark_canceled (mark_canceled r) = mark_canceled r"
  by (simp_all add: mark_canceled_def)

lemma mark_canceled_live [simp]: "\<not> past_cancellation (rr_state r) \<Longrightarrow> r \<noteq> mark_canceled r"
  by (metis mark_canceled_simps(2) past_cancellation.simps(3))

lemma update_record_map:
  "distinct_txns records \<Longrightarrow>
     update_record t f records = map (\<lambda>r. if rr_transaction_num r = t then f r else r) records"
  by (induction records) (auto simp: image_iff intro!: map_idI [symmetric])

lemma update_record_mark:
  "distinct_txns records \<Longrightarrow> update_record t mark_canceled records = cancel_set {t} records"
  by (simp add: update_record_map cancel_set_def)

lemma find_record_map:
  "(\<And>r. rr_transaction_num (f r) = rr_transaction_num r) \<Longrightarrow>
     find_record (map f records) t = map_option f (find_record records t)"
  by (induction records) (auto simp: find_record_def)

lemma find_record_Some_txn: "find_record records t = Some rec \<Longrightarrow> rr_transaction_num rec = t"
  by (auto simp: find_record_def find_Some_iff)

lemma find_record_nth:
  "distinct_txns records \<Longrightarrow> i < length records \<Longrightarrow>
     find_record records (rr_transaction_num (records ! i)) = Some (records ! i)"
  by (auto simp: find_record_def find_Some_iff distinct_conv_nth intro!: exI [of _ i])

lemma find_record_None: "find_record records t = None \<longleftrightarrow> t \<notin> rr_transaction_num ` set records"
  by (auto simp: find_record_def find_None_iff)

lemma find_cancel_set:
  "find_record (cancel_set C records) t =
     map_option (\<lambda>rec. if t \<in> C then mark_canceled rec else rec) (find_record records t)"
  unfolding cancel_set_def
  by (subst find_record_map)
     (auto simp: option.map_comp intro!: option.map_cong0 dest: find_record_Some_txn
        simp: map_option_case split: option.splits)

lemma live_cancel_set [simp]: "live (cancel_set C records) = live records - C"
  by (auto simp: live_def find_cancel_set split: if_splits)

lemma succs_cancel_set [simp]: "succs_of (cancel_set C records) = succs_of records"
  by (rule ext) (auto simp: succs_of_def find_cancel_set split: option.splits)

lemma cancel_set_twice [simp]: "cancel_set C (cancel_set D records) = cancel_set (C \<union> D) records"
  by (auto simp: cancel_set_def)

lemma txns_cancel_set [simp]:
  "map rr_transaction_num (cancel_set C records) = map rr_transaction_num records"
  by (simp add: cancel_set_def)

lemma length_cancel_set [simp]: "length (cancel_set C records) = length records"
  by (simp add: cancel_set_def)

lemma cancel_set_nth:
  "i < length records \<Longrightarrow> cancel_set C records ! i =
     (if rr_transaction_num (records ! i) \<in> C then mark_canceled (records ! i) else records ! i)"
  by (simp add: cancel_set_def)

lemma cancel_set_empty [simp]: "cancel_set {} records = records"
  by (simp add: cancel_set_def)

lemma cascade_is_reach:
  "distinct_txns records \<Longrightarrow>
     cascade_cancel txn records = cancel_set (reach (live records) (succs_of records) {txn}) records"
  "distinct_txns records \<Longrightarrow>
     cascade_each succs records = cancel_set (reach (live records) (succs_of records) (set succs)) records"
proof (induction txn records and succs records rule: cascade_cancel_cascade_each.induct)
  case (1 txn records)
  show ?case
  proof (cases "txn \<in> live records")
    case True
    then obtain rec where rec: "find_record records txn = Some rec" "\<not> past_cancellation (rr_state rec)"
      by (auto simp: live_def)
    then have "cascade_cancel txn records
        = cascade_each (rr_chained_successors rec) (cancel_set {txn} records)"
      using 1 by (simp add: cascade_cancel.simps update_record_mark)
    also have "\<dots> = cancel_set (reach (live records - {txn}) (succs_of records)
        (succs_of records txn) \<union> {txn}) records"
      using 1 rec by (simp add: update_record_mark succs_of_def [of records txn])
    finally show ?thesis
      using reach_root [OF True, of "succs_of records"] by simp
  next
    case False
    then have "cascade_cancel txn records = records"
      by (simp add: cascade_cancel.simps live_def split: option.splits)
    with False show ?thesis by (simp add: reach_dead)
  qed
next
  case (2 records)
  then show ?case by (simp add: reach_dead)
next
  case (3 succ succs records)
  let ?C = "reach (live records) (succs_of records) {succ}"
  have "cascade_each (succ # succs) records = cascade_each succs (cancel_set ?C records)"
    using 3 by simp
  also have "\<dots> = cancel_set (reach (live records - ?C) (succs_of records) (set succs) \<union> ?C) records"
    using 3 by simp
  also have "reach (live records - ?C) (succs_of records) (set succs) \<union> ?C
      = reach (live records) (succs_of records) (set (succ # succs))"
    by (simp only: list.set reach_insert [of "live records" "succs_of records" succ "set succs"] Un_commute)
  finally show ?case .
qed

text \<open>The two loops that cancel several roots are the cascade over a list of roots.\<close>

lemma cascade_cancel_cancel_set:
  "distinct_txns records \<Longrightarrow>
     cascade_cancel t (cancel_set C records)
       = cancel_set (reach (live records - C) (succs_of records) {t} \<union> C) records"
  by (simp add: cascade_is_reach)

lemma cascade_each_append: "cascade_each (xs @ ys) rs = cascade_each ys (cascade_each xs rs)"
  by (induction xs arbitrary: rs) auto

lemma cascade_each_distinct [simp]:
  "distinct_txns rs \<Longrightarrow> map rr_transaction_num (cascade_each ts rs) = map rr_transaction_num rs"
  by (simp add: cascade_is_reach)

definition eligible :: "bool \<Rightarrow> request_record \<Rightarrow> bool" where
  "eligible non_safestate_only rec \<longleftrightarrow> \<not> (non_safestate_only \<and> rr_is_safety rec)"

lemma cancel_all_prefix:
  assumes "distinct_txns rs" and "n \<le> length rs"
  shows "fst (fold (cancel_all_step nss) [0..<n] (rs, c))
    = cascade_each (map rr_transaction_num (filter (eligible nss) (take n rs))) rs"
  using assms(2)
proof (induction n)
  case (Suc n)
  let ?ts = "map rr_transaction_num (filter (eligible nss) (take n rs))"
  let ?now = "cascade_each ?ts rs"
  obtain m where prefix: "fold (cancel_all_step nss) [0..<n] (rs, c) = (?now, m)"
    using Suc by (metis Suc_leD prod.collapse)
  have n: "n < length rs" using Suc by simp
  obtain C where now: "?now = cancel_set C rs"
    using cascade_is_reach(2) [OF assms(1)] by blast
  have at_n: "find_record ?now (rr_transaction_num (rs ! n)) = Some (?now ! n)"
    using find_record_nth [OF assms(1) n] n by (simp add: now find_cancel_set cancel_set_nth)
  have same: "rr_transaction_num (?now ! n) = rr_transaction_num (rs ! n)"
    "eligible nss (?now ! n) = eligible nss (rs ! n)"
    using n by (simp_all add: now cancel_set_nth eligible_def)
  have "fst (cancel_all_step nss n (?now, m))
      = (if eligible nss (rs ! n) then cascade_cancel (rr_transaction_num (rs ! n)) ?now else ?now)"
    using same at_n
    by (cases "rr_state (?now ! n)")
       (auto simp: cancel_all_step_def Let_def eligible_def cascade_cancel.simps)
  then show ?case
    using n by (simp add: prefix take_Suc_conv_app_nth cascade_each_append)
qed simp

lemma cancel_all_records:
  assumes "distinct_txns (lg_records lg)"
  shows "lg_records (snd (cancel_all lg nss)) =
     cancel_set (reach (live (lg_records lg)) (succs_of (lg_records lg))
       (rr_transaction_num ` {rec \<in> set (lg_records lg). eligible nss rec})) (lg_records lg)"
  using cancel_all_prefix [OF assms, of "length (lg_records lg)" nss 0]
  by (simp add: cancel_all_def split_beta cascade_is_reach assms)

lemma cancel_all_next [simp]: "lg_next_arrival_seq (snd (cancel_all lg nss)) = lg_next_arrival_seq lg"
  by (simp add: cancel_all_def split_beta)

lemma propagate_records:
  assumes "distinct_txns rs" and "length rs \<le> kMaxTrackedRequests"
  shows "propagate_chain_completion rs p errored =
    (if errored
     then cancel_set (reach (live rs) (succs_of rs)
            (rr_transaction_num ` {rec \<in> set rs. rr_chained_predecessor rec = Some p \<and> rr_cs rec})) rs
     else rs)"
proof -
  let ?step = "\<lambda>succ records. case find_record records succ of None \<Rightarrow> records
      | Some rec \<Rightarrow> if \<not> should_execute_chained (rr_cs rec) errored
          then cascade_cancel succ records else records"
  have loop: "fold ?step (map rr_transaction_num xs) (cascade_each ts rs)
      = cascade_each (ts @ map rr_transaction_num (filter (\<lambda>r. rr_cs r \<and> errored) xs)) rs"
    if "set xs \<subseteq> set rs" for xs ts
    using that
  proof (induction xs arbitrary: ts)
    case (Cons x xs)
    obtain C where now: "cascade_each ts rs = cancel_set C rs"
      using cascade_is_reach(2) [OF assms(1)] by blast
    have "find_record rs (rr_transaction_num x) = Some x"
      using Cons.prems find_record_nth [OF assms(1)] by (auto simp: in_set_conv_nth)
    then have "?step (rr_transaction_num x) (cascade_each ts rs)
        = cascade_each (ts @ (if rr_cs x \<and> errored then [rr_transaction_num x] else [])) rs"
      by (simp add: now find_cancel_set cascade_each_append should_execute_chained_def)
    then show ?case using Cons by simp
  qed simp
  have "length (filter (\<lambda>r. rr_chained_predecessor r = Some p) rs) \<le> kMaxTrackedRequests"
    using assms(2) length_filter_le order_trans by blast
  then have "propagate_chain_completion rs p errored
      = cascade_each (map rr_transaction_num
          (filter (\<lambda>r. rr_cs r \<and> errored) (filter (\<lambda>r. rr_chained_predecessor r = Some p) rs))) rs"
    using loop [of "filter (\<lambda>r. rr_chained_predecessor r = Some p) rs" "[]"]
    by (simp add: propagate_chain_completion_def)
  then show ?thesis
    by (simp add: cascade_is_reach assms(1) conj_commute reach_dead)
qed

section \<open>Runs of the ledger\<close>

inductive ledger_step :: "ledger \<Rightarrow> ledger \<Rightarrow> bool" where
  by_submit: "submit lg rec = (ec, lg') \<Longrightarrow> ledger_step lg lg'"
| by_start: "start lg txn = (ec, lg') \<Longrightarrow> ledger_step lg lg'"
| by_begin: "begin_execution lg txn = (ec, lg') \<Longrightarrow> ledger_step lg lg'"
| by_finalize: "finalize lg txn errored sq = (ec, lg', sq') \<Longrightarrow> ledger_step lg lg'"
| by_cancel: "cancel_single lg txn = (ec, lg') \<Longrightarrow> ledger_step lg lg'"
| by_cancel_all: "cancel_all lg nss = (n, lg') \<Longrightarrow> ledger_step lg lg'"

lemma ledger_steps:
  "ledger_step lg (snd (submit lg rec))" "ledger_step lg (snd (start lg txn))"
  "ledger_step lg (snd (begin_execution lg txn))"
  by (blast intro: by_submit by_start by_begin prod.collapse [symmetric])+

text \<open>Well-formedness: distinct transactions, bounded, numbered in order of arrival.\<close>

definition wf_ledger :: "ledger \<Rightarrow> bool" where
  "wf_ledger lg \<longleftrightarrow>
     distinct_txns (lg_records lg) \<and> length (lg_records lg) \<le> kMaxTrackedRequests \<and>
     map rr_arrival_seq (lg_records lg) = [0..<length (lg_records lg)] \<and>
     lg_next_arrival_seq lg = length (lg_records lg)"

text \<open>The transitions of one request that the lifecycle allows.\<close>

inductive next_state :: "request_state \<Rightarrow> request_state \<Rightarrow> bool" where
  "next_state Pending Started"
| "next_state Started UnderExecution"
| "next_state UnderExecution Finalized"
| "next_state Pending Canceled"
| "next_state Started Canceled"

inductive_cases next_stateE: "next_state s t"

inductive_simps next_from_terminal [simp]: "next_state Finalized t" "next_state Canceled t"

text \<open>Records that kept their identity and moved along the lifecycle.\<close>

definition evolves :: "request_record list \<Rightarrow> request_record list \<Rightarrow> bool" where
  "evolves rs rs' \<longleftrightarrow> list_all2 (\<lambda>r r'. rr_transaction_num r' = rr_transaction_num r
     \<and> rr_arrival_seq r' = rr_arrival_seq r \<and> next_state\<^sup>*\<^sup>* (rr_state r) (rr_state r')) rs rs'"

lemma evolves_refl [simp]: "evolves rs rs"
  by (simp add: evolves_def list_all2_refl)

lemma evolves_trans: "evolves rs ss \<Longrightarrow> evolves ss ts \<Longrightarrow> evolves rs ts"
  by (force simp: evolves_def list_all2_conv_all_nth intro: rtranclp_trans)

lemma evolves_keeps:
  assumes "evolves rs rs'"
  shows "length rs' = length rs" "map rr_transaction_num rs' = map rr_transaction_num rs"
    "map rr_arrival_seq rs' = map rr_arrival_seq rs"
proof -
  show len: "length rs' = length rs"
    using assms by (simp add: evolves_def list_all2_lengthD)
  show "map rr_transaction_num rs' = map rr_transaction_num rs"
    "map rr_arrival_seq rs' = map rr_arrival_seq rs"
    using assms by (auto simp: evolves_def list_all2_conv_all_nth intro!: nth_equalityI)
qed

lemma transition_evolves:
  assumes "transition rs txn s t = (ec, rs')" "next_state s t" "distinct_txns rs"
  shows "evolves rs rs'"
proof (cases "find_record rs txn")
  case None
  then show ?thesis using assms by (simp add: transition_def)
next
  case (Some rec)
  show ?thesis
  proof (cases "rr_state rec = s")
    case True
    then have rs': "rs' = map (\<lambda>r. if rr_transaction_num r = txn then r\<lparr>rr_state := t\<rparr> else r) rs"
      using assms Some by (simp add: transition_def update_record_map)
    have "rr_state r = s" if "r \<in> set rs" "rr_transaction_num r = txn" for r
    proof -
      have "find_record rs (rr_transaction_num r) = Some r"
        using that(1) find_record_nth [OF assms(3)] by (auto simp: in_set_conv_nth)
      then show ?thesis using Some True that(2) by simp
    qed
    then show ?thesis
      using assms(2) by (auto simp: rs' evolves_def list_all2_conv_all_nth)
  next
    case False
    then show ?thesis using assms Some by (simp add: transition_def)
  qed
qed

lemma cancel_set_evolves:
  assumes "distinct_txns rs" "C \<subseteq> live rs"
  shows "evolves rs (cancel_set C rs)"
proof -
  have "next_state\<^sup>*\<^sup>* (rr_state (rs ! i)) Canceled"
    if i: "i < length rs" "rr_transaction_num (rs ! i) \<in> C" for i
  proof -
    have "\<not> past_cancellation (rr_state (rs ! i))"
      using i assms find_record_nth [OF assms(1) i(1)] by (auto simp: live_def)
    then show ?thesis by (cases "rr_state (rs ! i)") (auto intro: next_state.intros)
  qed
  then show ?thesis by (simp add: evolves_def list_all2_conv_all_nth cancel_set_nth)
qed

lemmas reach_evolves = cancel_set_evolves [OF _ subsetI [OF reach_live]]

lemma ledger_step_evolves:
  assumes "ledger_step lg lg'" "wf_ledger lg"
  shows "wf_ledger lg' \<and>
    evolves (lg_records lg) (take (length (lg_records lg)) (lg_records lg'))"
proof -
  have wf: "distinct_txns (lg_records lg)" "length (lg_records lg) \<le> kMaxTrackedRequests"
    using assms(2) by (simp_all add: wf_ledger_def)
  have keep: ?thesis
    if "evolves (lg_records lg) (lg_records lg')" "lg_next_arrival_seq lg' = lg_next_arrival_seq lg"
    using that assms(2) evolves_keeps [OF that(1)] by (simp add: wf_ledger_def)
  show ?thesis
    using assms(1)
  proof cases
    case (by_submit rec ec)
    have "find_record (lg_records lg) (rr_transaction_num rec) = None \<Longrightarrow>
        rr_transaction_num rec \<notin> rr_transaction_num ` set (lg_records lg)"
      by (simp add: find_record_None)
    then show ?thesis
      using by_submit assms(2)
      by (auto simp: submit_def Let_def wf_ledger_def split: if_splits)
  next
    case (by_start txn ec)
    then show ?thesis
      using keep transition_evolves [OF _ next_state.intros(1) wf(1)]
      by (auto simp: start_def split: prod.splits)
  next
    case (by_begin txn ec)
    then show ?thesis
      using keep transition_evolves [OF _ next_state.intros(2) wf(1)]
      by (auto simp: begin_execution_def split: prod.splits)
  next
    case (by_finalize txn errored sq ec sq')
    obtain ec1 rs where t: "transition (lg_records lg) txn UnderExecution Finalized = (ec1, rs)"
      by fastforce
    have e: "evolves (lg_records lg) rs"
      by (rule transition_evolves [OF t next_state.intros(3) wf(1)])
    have rs: "distinct_txns rs" "length rs \<le> kMaxTrackedRequests"
      using evolves_keeps [OF e] wf by simp_all
    have "evolves rs (propagate_chain_completion rs txn errored)"
      using rs by (simp add: propagate_records reach_evolves)
    then have e2: "evolves (lg_records lg) (propagate_chain_completion rs txn errored)"
      by (rule evolves_trans [OF e])
    show ?thesis
    proof (cases ec1)
      case None
      then have "lg' = lg\<lparr>lg_records := propagate_chain_completion rs txn errored\<rparr>"
        using by_finalize by (simp add: finalize_def t)
      then show ?thesis using keep e2 by simp
    next
      case (Some e1)
      then have "lg' = lg" using by_finalize by (simp add: finalize_def t)
      then show ?thesis using keep by simp
    qed
  next
    case (by_cancel txn ec)
    then show ?thesis
      using keep wf(1)
      by (auto simp: cancel_single_def cascade_is_reach reach_evolves split: option.splits if_splits)
  next
    case (by_cancel_all nss n)
    then have "lg' = snd (cancel_all lg nss)" by simp
    then show ?thesis
      using keep by (simp add: cancel_all_records wf(1) reach_evolves)
  qed
qed

lemma ledger_run_evolves:
  assumes "ledger_step\<^sup>*\<^sup>* lg lg'" "wf_ledger lg"
  shows "wf_ledger lg' \<and> length (lg_records lg) \<le> length (lg_records lg') \<and>
    evolves (lg_records lg) (take (length (lg_records lg)) (lg_records lg'))"
  using assms
proof induction
  case (step a b)
  let ?n = "length (lg_records lg)"
  have a: "wf_ledger a" "?n \<le> length (lg_records a)" "evolves (lg_records lg) (take ?n (lg_records a))"
    using step by simp_all
  have b: "wf_ledger b" "evolves (lg_records a) (take (length (lg_records a)) (lg_records b))"
    using ledger_step_evolves [OF step.hyps(2) a(1)] by simp_all
  have len: "length (lg_records a) \<le> length (lg_records b)"
    using evolves_keeps(1) [OF b(2)] by simp
  have "evolves (take ?n (lg_records a)) (take ?n (take (length (lg_records a)) (lg_records b)))"
    using b(2) unfolding evolves_def by (rule list_all2_takeI)
  then show ?case
    using a b len evolves_trans by (auto simp: min_absorb1)
qed simp

lemma wf_empty_ledger [simp]: "wf_ledger empty_ledger"
  by (simp add: wf_ledger_def empty_ledger_def)

section \<open>Properties\<close>

text \<open>
  C14. Every ledger reachable from the empty one by any sequence of operations is
  well-formed: no transaction number is tracked twice, at most 64 records are held, and the
  records are numbered consecutively in their order of arrival.
\<close>

theorem reachable_ledger_wf:
  assumes "ledger_step\<^sup>*\<^sup>* empty_ledger lg"
  shows "distinct (map rr_transaction_num (lg_records lg)) \<and> length (lg_records lg) \<le> 64 \<and>
    map rr_arrival_seq (lg_records lg) = [0..<length (lg_records lg)]"
  using ledger_run_evolves [OF assms wf_empty_ledger]
  unfolding wf_ledger_def kMaxTrackedRequests_def by blast

definition sample_ledger :: ledger where
  "sample_ledger =
     snd (submit (snd (submit empty_ledger
       ((request_record_for 1 (Some Compound) False)\<lparr>rr_chained_successors := [2]\<rparr>)))
       ((request_record_for 2 (Some CompoundSafety) True)\<lparr>rr_chained_predecessor := Some 1\<rparr>))"

lemma sample_ledger_records:
  "lg_records sample_ledger =
    [\<lparr>rr_transaction_num = 1, rr_request_type = Some Compound, rr_state = Pending, rr_cs = False,
      rr_is_safety = False, rr_arrival_seq = 0, rr_compound_step = None,
      rr_chained_predecessor = None, rr_chained_successors = [2], rr_outcome = None\<rparr>,
     \<lparr>rr_transaction_num = 2, rr_request_type = Some CompoundSafety, rr_state = Pending, rr_cs = True,
      rr_is_safety = True, rr_arrival_seq = 1, rr_compound_step = None,
      rr_chained_predecessor = Some 1, rr_chained_successors = [], rr_outcome = None\<rparr>]"
  "lg_next_arrival_seq sample_ledger = 2"
  by (simp_all add: sample_ledger_def submit_def empty_ledger_def request_record_for_def
      find_record_def kMaxTrackedRequests_def Let_def is_safety_variant_def)

lemma sample_ledger_reachable: "ledger_step\<^sup>*\<^sup>* empty_ledger sample_ledger"
  unfolding sample_ledger_def
  by (rule rtranclp.rtrancl_into_rtrancl [OF rtranclp.rtrancl_into_rtrancl
        [OF rtranclp.rtrancl_refl]]) (rule ledger_steps)+

lemma wf_sample_ledger: "wf_ledger sample_ledger"
  using ledger_run_evolves [OF sample_ledger_reachable] by simp

theorem reachable_ledger_wf_witness:
  "map rr_arrival_seq (lg_records sample_ledger) = [0, 1]"
  using reachable_ledger_wf [OF sample_ledger_reachable]
  by (simp add: sample_ledger_records upt_rec)

text \<open>
  Requests move through their lifecycle forward only. Along any sequence of operations
  each tracked record keeps its place and transaction number, and its state changes only
  along Pending, Started, UnderExecution, Finalized, or from Pending or Started to Canceled.
  So a request under execution is never canceled, and a finished one never changes state.
\<close>

theorem lifecycle_forward_only:
  assumes "wf_ledger lg" and "ledger_step\<^sup>*\<^sup>* lg lg'" and "i < length (lg_records lg)"
  shows "i < length (lg_records lg')
    \<and> rr_transaction_num (lg_records lg' ! i) = rr_transaction_num (lg_records lg ! i)
    \<and> next_state\<^sup>*\<^sup>* (rr_state (lg_records lg ! i)) (rr_state (lg_records lg' ! i))
    \<and> (rr_state (lg_records lg ! i) = UnderExecution \<longrightarrow>
         rr_state (lg_records lg' ! i) \<in> {UnderExecution, Finalized})
    \<and> (rr_state (lg_records lg ! i) \<in> {Finalized, Canceled} \<longrightarrow>
         rr_state (lg_records lg' ! i) = rr_state (lg_records lg ! i))"
proof -
  let ?s = "rr_state (lg_records lg ! i)" and ?t = "rr_state (lg_records lg' ! i)"
  have run: "length (lg_records lg) \<le> length (lg_records lg')"
    "evolves (lg_records lg) (take (length (lg_records lg)) (lg_records lg'))"
    using ledger_run_evolves [OF assms(2,1)] by simp_all
  then have keep: "rr_transaction_num (lg_records lg' ! i) = rr_transaction_num (lg_records lg ! i)"
    and path: "next_state\<^sup>*\<^sup>* ?s ?t"
    using assms(3) by (auto simp: evolves_def list_all2_conv_all_nth)
  have terminal: "u = s" if "next_state\<^sup>*\<^sup>* s u" "s \<in> {Finalized, Canceled}" for s u
    using that by (auto elim: converse_rtranclpE)
  have executing: "u \<in> {UnderExecution, Finalized}" if "next_state\<^sup>*\<^sup>* UnderExecution u" for u
    using that by (induction rule: rtranclp_induct) (auto elim: next_stateE)
  show ?thesis
    using run(1) assms(3) keep path terminal [of ?s ?t] executing [of ?t] by auto
qed

theorem lifecycle_forward_only_witness:
  "next_state\<^sup>*\<^sup>* Pending (rr_state (lg_records (snd (start sample_ledger 1)) ! 0))"
proof -
  have "ledger_step\<^sup>*\<^sup>* sample_ledger (snd (start sample_ledger 1))"
    by (rule r_into_rtranclp) (rule ledger_steps)
  from lifecycle_forward_only [OF wf_sample_ledger this, of 0] show ?thesis
    by (simp add: sample_ledger_records)
qed

text \<open>
  C23. Canceling one request cancels exactly the requests that can be reached from it through
  chained successors that are themselves still cancelable, however the successor lists are
  linked (cycles included), and leaves every other record as it was. An unknown request and
  one past cancellation are reported as such, with nothing changed.
\<close>

theorem cancel_single_exact:
  assumes "wf_ledger lg"
  shows "cancel_single lg txn =
    (if find_record (lg_records lg) txn = None then (Some (Request_err Request_not_found), lg)
     else if txn \<notin> live (lg_records lg) then (Some (Request_err Request_not_cancellable), lg)
     else (None, lg\<lparr>lg_records :=
       cancel_set (reach (live (lg_records lg)) (succs_of (lg_records lg)) {txn}) (lg_records lg)\<rparr>))"
  using assms
  by (auto simp: cancel_single_def live_def wf_ledger_def cascade_is_reach split: option.splits)

theorem cancel_single_exact_witness:
  "map rr_state (lg_records (snd (cancel_single sample_ledger 1))) = [Canceled, Canceled]"
proof -
  have "live (lg_records sample_ledger) = {1, 2}"
    by (auto simp: live_def sample_ledger_records find_record_def split: if_splits)
  moreover have "succs_of (lg_records sample_ledger) 1 = {2}"
    by (simp add: succs_of_def sample_ledger_records find_record_def)
  ultimately have "1 \<in> reach (live (lg_records sample_ledger)) (succs_of (lg_records sample_ledger)) {1}"
    "2 \<in> reach (live (lg_records sample_ledger)) (succs_of (lg_records sample_ledger)) {1}"
    by (auto intro: reach.base reach.step [where u = 1])
  then show ?thesis
    using cancel_single_exact [OF wf_sample_ledger, of 1] \<open>live (lg_records sample_ledger) = {1, 2}\<close>
    by (simp add: sample_ledger_records find_record_def cancel_set_def)
qed

text \<open>What clearing the non-safe-state requests leaves of the normal ones.\<close>

lemma cancel_all_normal:
  assumes "wf_ledger lg" "rec \<in> set (lg_records (snd (cancel_all lg True)))" "\<not> rr_is_safety rec"
  shows "past_cancellation (rr_state rec)"
proof -
  let ?rs = "lg_records lg"
  have d: "distinct_txns ?rs" using assms(1) by (simp add: wf_ledger_def)
  have root: "rr_transaction_num r \<in> reach (live ?rs) (succs_of ?rs)
      (rr_transaction_num ` {rec \<in> set ?rs. eligible True rec})"
    if r: "r \<in> set ?rs" "\<not> past_cancellation (rr_state r)" "\<not> rr_is_safety r" for r
  proof (rule reach.base)
    obtain i where "i < length ?rs" "?rs ! i = r" using r(1) unfolding in_set_conv_nth by blast
    then show "rr_transaction_num r \<in> live ?rs"
      using find_record_nth [OF d, of i] r(2) by (simp add: live_def)
    show "rr_transaction_num r \<in> rr_transaction_num ` {rec \<in> set ?rs. eligible True rec}"
      using r by (auto simp: eligible_def)
  qed
  show ?thesis
    using assms(2,3) root by (auto simp: cancel_all_records d cancel_set_def split: if_splits)
qed

text \<open>
  Clearing all requests leaves no cancelable record. Clearing the non-safe-state requests
  leaves no cancelable normal record and leaves untouched every safety record that no record
  names as its chained successor. Both leave untouched whatever is past cancellation.
\<close>

theorem cancel_all_exact:
  assumes "wf_ledger lg"
  shows "live (lg_records (snd (cancel_all lg False))) = {}
    \<and> (\<forall>rec \<in> set (lg_records (snd (cancel_all lg True))).
         \<not> rr_is_safety rec \<longrightarrow> past_cancellation (rr_state rec))
    \<and> (\<forall>rec \<in> set (lg_records lg).
         rr_is_safety rec \<and> (\<forall>pre \<in> set (lg_records lg).
            rr_transaction_num rec \<notin> set (rr_chained_successors pre)) \<longrightarrow>
         rec \<in> set (lg_records (snd (cancel_all lg True))))
    \<and> (\<forall>rec \<in> set (lg_records lg). past_cancellation (rr_state rec) \<longrightarrow>
         rec \<in> set (lg_records (snd (cancel_all lg nss))))"
proof -
  let ?rs = "lg_records lg"
  let ?R = "\<lambda>nss. reach (live ?rs) (succs_of ?rs) (rr_transaction_num ` {rec \<in> set ?rs. eligible nss rec})"
  have d: "distinct_txns ?rs" using assms by (simp add: wf_ledger_def)
  have found: "find_record ?rs (rr_transaction_num rec) = Some rec" if "rec \<in> set ?rs" for rec
    using that find_record_nth [OF d] by (auto simp: in_set_conv_nth)
  have alive: "rr_transaction_num rec \<in> live ?rs \<longleftrightarrow> \<not> past_cancellation (rr_state rec)"
    if "rec \<in> set ?rs" for rec
    using found [OF that] by (simp add: live_def)
  have root: "rr_transaction_num rec \<in> ?R nss"
    if "rec \<in> set ?rs" "\<not> past_cancellation (rr_state rec)" "eligible nss rec" for rec nss
    using that alive by (auto intro: reach.base)
  have kept: "rec \<in> set (cancel_set C ?rs)" if "rec \<in> set ?rs" "rr_transaction_num rec \<notin> C" for rec C
    using that by (force simp: cancel_set_def)
  have all: "live ?rs \<subseteq> ?R False"
  proof
    fix t assume "t \<in> live ?rs"
    then obtain rec where rec: "find_record ?rs t = Some rec" "\<not> past_cancellation (rr_state rec)"
      by (auto simp: live_def)
    then have "rec \<in> set ?rs" "rr_transaction_num rec = t"
      by (auto simp: find_record_def find_Some_iff)
    then show "t \<in> ?R False" using root [of rec False] rec(2) by (simp add: eligible_def)
  qed
  have safe: "rr_transaction_num rec \<notin> ?R True"
    if rec: "rec \<in> set ?rs" "rr_is_safety rec"
      "\<forall>pre \<in> set ?rs. rr_transaction_num rec \<notin> set (rr_chained_successors pre)" for rec
  proof
    assume "rr_transaction_num rec \<in> ?R True"
    then show False
    proof cases
      case base
      then obtain r where r: "r \<in> set ?rs" "eligible True r"
          "rr_transaction_num r = rr_transaction_num rec"
        by auto
      have "r = rec" using found [OF r(1)] found [OF rec(1)] r(3) by (metis option.inject)
      then show False using r(2) rec(2) by (simp add: eligible_def)
    next
      case (step u)
      then show False using rec(3)
        by (auto simp: succs_of_def find_record_def find_Some_iff split: option.splits)
    qed
  qed
  have past: "rr_transaction_num rec \<notin> ?R nss" if "rec \<in> set ?rs" "past_cancellation (rr_state rec)"
    for rec nss
    using alive [OF that(1)] that(2) reach_live by blast
  show ?thesis
  proof (intro conjI ballI impI)
    show "live (lg_records (snd (cancel_all lg False))) = {}"
      using all by (simp add: cancel_all_records d)
    show "past_cancellation (rr_state rec)"
      if "rec \<in> set (lg_records (snd (cancel_all lg True)))" "\<not> rr_is_safety rec" for rec
      using cancel_all_normal [OF assms that] .
    show "rec \<in> set (lg_records (snd (cancel_all lg True)))"
      if "rec \<in> set ?rs" "rr_is_safety rec \<and> (\<forall>pre \<in> set ?rs.
            rr_transaction_num rec \<notin> set (rr_chained_successors pre))" for rec
      using that safe kept by (simp add: cancel_all_records d)
    show "rec \<in> set (lg_records (snd (cancel_all lg nss)))"
      if "rec \<in> set ?rs" "past_cancellation (rr_state rec)" for rec
      using that past kept by (simp add: cancel_all_records d)
  qed
qed

theorem cancel_all_exact_witness:
  "live (lg_records (snd (cancel_all sample_ledger False))) = {}"
  using cancel_all_exact [OF wf_sample_ledger] by simp

text \<open>
  The exception for chained successors is real: clearing the non-safe-state requests of
  \<open>sample_ledger\<close> cancels the safety-tagged request 2 along with the normal request 1 that
  lists it as successor.
\<close>

lemma clear_non_safestate_reaches_safety:
  "map (\<lambda>r. (rr_is_safety r, rr_state r)) (lg_records (snd (cancel_all sample_ledger True)))
     = [(False, Canceled), (True, Canceled)]"
proof -
  have "live (lg_records sample_ledger) = {1, 2}"
    by (auto simp: live_def sample_ledger_records find_record_def split: if_splits)
  moreover have "succs_of (lg_records sample_ledger) 1 = {2}"
    by (simp add: succs_of_def sample_ledger_records find_record_def)
  moreover have "{rec \<in> set (lg_records sample_ledger). eligible True rec}
      = {hd (lg_records sample_ledger)}"
    by (auto simp: sample_ledger_records eligible_def)
  then have "rr_transaction_num ` {rec \<in> set (lg_records sample_ledger). eligible True rec} = {1}"
    by (simp add: sample_ledger_records)
  ultimately have "{1, 2} \<subseteq> reach (live (lg_records sample_ledger)) (succs_of (lg_records sample_ledger))
      (rr_transaction_num ` {rec \<in> set (lg_records sample_ledger). eligible True rec})"
    by (auto intro: reach.base reach.step [where u = 1])
  then show ?thesis
    using cancel_all_records [of sample_ledger True] wf_sample_ledger
    by (simp add: wf_ledger_def sample_ledger_records cancel_set_def)
qed

text \<open>
  C25. When a request under execution is finalized, it is the only record that becomes
  Finalized. If it did not fail, nothing else changes; if it failed, the records canceled are
  exactly those reachable from the live records chained to it whose conditional-start flag is
  set. A chained record without that flag is not canceled for it.
\<close>

theorem finalize_chain_rule:
  assumes "wf_ledger lg" and "find_record (lg_records lg) txn = Some rec"
    and "rr_state rec = UnderExecution"
  shows "let done_rs = update_record txn (\<lambda>r. r\<lparr>rr_state := Finalized\<rparr>) (lg_records lg)
    in fst (finalize lg txn errored sq) = None \<and>
       lg_records (fst (snd (finalize lg txn errored sq))) =
         (if errored
          then cancel_set (reach (live done_rs) (succs_of done_rs)
                 (rr_transaction_num `
                    {r \<in> set done_rs. rr_chained_predecessor r = Some txn \<and> rr_cs r})) done_rs
          else done_rs)"
proof -
  define rs where "rs = update_record txn (\<lambda>r. r\<lparr>rr_state := Finalized\<rparr>) (lg_records lg)"
  have t: "transition (lg_records lg) txn UnderExecution Finalized = (None, rs)"
    using assms by (simp add: transition_def rs_def)
  have wf: "distinct_txns (lg_records lg)" "length (lg_records lg) \<le> kMaxTrackedRequests"
    using assms(1) by (simp_all add: wf_ledger_def)
  have "evolves (lg_records lg) rs"
    by (rule transition_evolves [OF t next_state.intros(3) wf(1)])
  note keeps = evolves_keeps [OF this]
  have "distinct_txns rs" "length rs \<le> kMaxTrackedRequests"
    using keeps(1,2) wf by simp_all
  then show ?thesis
    unfolding Let_def rs_def [symmetric] by (simp add: finalize_def t propagate_records)
qed

theorem finalize_chain_rule_witness:
  "fst (finalize (snd (begin_execution (snd (start sample_ledger 1)) 1)) 1 True None) = None"
proof -
  let ?lg = "snd (begin_execution (snd (start sample_ledger 1)) 1)"
  have "ledger_step\<^sup>*\<^sup>* sample_ledger ?lg"
    by (rule rtranclp.rtrancl_into_rtrancl [OF r_into_rtranclp]) (rule ledger_steps)+
  then have "wf_ledger ?lg" using ledger_run_evolves wf_sample_ledger by blast
  moreover have "\<exists>rec. find_record (lg_records ?lg) 1 = Some rec \<and> rr_state rec = UnderExecution"
    by (simp add: start_def begin_execution_def transition_def sample_ledger_records find_record_def)
  ultimately show ?thesis
    using finalize_chain_rule [of ?lg 1] by (auto simp: Let_def)
qed

end
