(* ===== verification/Regmap.thy ===== *)
theory Regmap
  imports Acf_Response
begin

text \<open>
  The configuration tables of \<open>include/rcp/regmap.hpp\<close>: the generic endpoint configuration,
  the hardware pin map, the request streams, the byte-bus address map and the response queues,
  each with its row layout, its rendering into the register image and its reconfiguration by
  an addressed write. Four of the tables share the idiom \<open>render, patch, parse again\<close>; its
  contract is the locale \<open>row_table\<close>.
\<close>

section \<open>Tables of fixed-width rows\<close>

text \<open>
  \<open>render_rows\<close> is the loop of a \<open>render\<close>; \<open>patch\<close> the loop that copies the written octets
  over the image; \<open>parse_rows\<close> the loop that reads every row of the image back. A row is
  parsed into the old row, because some fields have no place on the wire and are kept.
\<close>

definition render_rows :: "('r \<Rightarrow> octets) \<Rightarrow> 'r list \<Rightarrow> octets" where
  "render_rows render_row rows = concat (map render_row rows)"

definition patch :: "octets \<Rightarrow> nat \<Rightarrow> octets \<Rightarrow> octets" where
  "patch block start data = fold (\<lambda>i b. b[start + i := data ! i]) [0..<length data] block"

definition parse_rows :: "nat \<Rightarrow> ('r \<Rightarrow> octets \<Rightarrow> 'r) \<Rightarrow> 'r list \<Rightarrow> octets \<Rightarrow> 'r list" where
  "parse_rows row_len parse_row rows block =
     map (\<lambda>i. parse_row (rows ! i) (drop (row_len * i) block)) [0..<length rows]"

lemma patch_props:
  assumes "start + length data \<le> length block"
  shows "patch block start data = take start block @ data @ drop (start + length data) block"
proof -
  have "fold (\<lambda>i b. b[start + i := data ! i]) [0..<n] block
      = take start block @ take n data @ drop (start + n) block" if "n \<le> length data" for n
    using that
  proof (induction n)
    case (Suc n)
    then have "n < length data" by simp
    then have d: "drop (start + n) block = block ! (start + n) # drop (start + Suc n) block"
      using assms by (simp add: Cons_nth_drop_Suc)
    show ?case
      using Suc assms by (simp add: d list_update_append take_Suc_conv_app_nth)
  qed simp
  from this [of "length data"] show ?thesis by (simp add: patch_def)
qed

locale row_table =
  fixes row_len :: nat
    and render_row :: "'r \<Rightarrow> octets"
    and parse_row :: "'r \<Rightarrow> octets \<Rightarrow> 'r"
    and wf_row :: "'r \<Rightarrow> bool"
  assumes render_len: "length (render_row r) = row_len"
    and parse_render: "wf_row r \<Longrightarrow> parse_row r (render_row r @ rest) = r"
    and parse_local: "length b = row_len \<Longrightarrow> parse_row r (b @ rest) = parse_row r b"
begin

lemma length_render_rows: "length (render_rows render_row rows) = length rows * row_len"
  by (induction rows) (simp_all add: render_rows_def render_len)

lemma drop_render_rows:
  "i < length rows \<Longrightarrow> \<exists>rest. drop (row_len * i) (render_rows render_row rows)
     = render_row (rows ! i) @ rest"
proof (induction rows arbitrary: i)
  case (Cons r rows)
  show ?case
  proof (cases i)
    case 0
    then show ?thesis by (simp add: render_rows_def)
  next
    case (Suc j)
    then show ?thesis
      using Cons.IH [of j] Cons.prems by (simp add: render_rows_def render_len)
  qed
qed simp

lemma row_image:
  assumes "i < length rows"
  shows "parse_row r (drop (row_len * i) (render_rows render_row rows)) = parse_row r (render_row (rows ! i))"
  using drop_render_rows [OF assms] parse_local [OF render_len] by metis

text \<open>A row is parsed from its own octets only.\<close>

lemma parse_own:
  assumes "row_len * Suc i \<le> length block"
  shows "parse_row r (drop (row_len * i) block) = parse_row r (take row_len (drop (row_len * i) block))"
proof -
  have "drop (row_len * i) block
      = take row_len (drop (row_len * i) block) @ drop row_len (drop (row_len * i) block)"
    by (rule append_take_drop_id [symmetric])
  moreover have "length (take row_len (drop (row_len * i) block)) = row_len"
    using assms by simp
  ultimately show ?thesis using parse_local by metis
qed

text \<open>
  The write changes a row it does not touch only by rendering and parsing it, which keeps
  every well-formed row; a row it covers is parsed from the octets written over it.
\<close>

lemma untouched_row:
  assumes "start + length data \<le> length rows * row_len" and "i < length rows"
    and "row_len * i + row_len \<le> start \<or> start + length data \<le> row_len * i"
  shows "parse_rows row_len parse_row rows (patch (render_rows render_row rows) start data) ! i
    = parse_row (rows ! i) (render_row (rows ! i))"
proof -
  let ?img = "render_rows render_row rows"
  have len: "row_len * Suc i \<le> length ?img"
    using assms(2) by (simp add: length_render_rows mult.commute mult_le_mono2 del: mult_Suc_right mult_Suc)
  have le: "row_len * i \<le> length ?img" using len by simp
  have p: "patch ?img start data = take start ?img @ data @ drop (start + length data) ?img"
    using assms(1) by (simp add: patch_props length_render_rows)
  have plen: "length (patch ?img start data) = length ?img"
    using assms(1) by (simp add: p length_render_rows)
  have "take row_len (drop (row_len * i) (patch ?img start data))
      = take row_len (drop (row_len * i) ?img)"
    using assms(1,3) len le
    by (intro nth_equalityI) (auto simp: p nth_append length_render_rows nth_drop)
  then have "parse_row (rows ! i) (drop (row_len * i) (patch ?img start data))
      = parse_row (rows ! i) (drop (row_len * i) ?img)"
    using parse_own [of i ?img] parse_own [of i "patch ?img start data"] len plen by simp
  then show ?thesis using assms(2) row_image by (simp add: parse_rows_def)
qed

lemma kept_row:
  assumes "start + length data \<le> length rows * row_len" and "i < length rows"
    and "row_len * i + row_len \<le> start \<or> start + length data \<le> row_len * i"
    and "wf_row (rows ! i)"
  shows "parse_rows row_len parse_row rows (patch (render_rows render_row rows) start data) ! i
    = rows ! i"
  using untouched_row [OF assms(1-3)] parse_render [OF assms(4), of "[]"] by simp

lemma covered_row:
  assumes "start + length data \<le> length rows * row_len" and "i < length rows"
    and "start \<le> row_len * i" and "row_len * i + row_len \<le> start + length data"
  shows "parse_rows row_len parse_row rows (patch (render_rows render_row rows) start data) ! i
    = parse_row (rows ! i) (take row_len (drop (row_len * i - start) data))"
proof -
  let ?img = "render_rows render_row rows"
  have len: "row_len * Suc i \<le> length ?img"
    using assms(2) by (simp add: length_render_rows mult.commute mult_le_mono2 del: mult_Suc_right mult_Suc)
  have p: "patch ?img start data = take start ?img @ data @ drop (start + length data) ?img"
    using assms(1) by (simp add: patch_props length_render_rows)
  have plen: "length (patch ?img start data) = length ?img"
    using assms(1) by (simp add: p length_render_rows)
  have "take row_len (drop (row_len * i) (patch ?img start data))
      = take row_len (drop (row_len * i - start) data)"
    using assms len by (simp add: p length_render_rows)
  then show ?thesis
    using parse_own [of i "patch ?img start data"] len plen assms(2) by (simp add: parse_rows_def)
qed

text \<open>Writing a rendered row back at its own address installs it.\<close>

lemma write_rendered_row:
  assumes "i < length rows" and "wf_row r"
    and "\<And>old b. parse_row old b = parse_row r b"
  shows "parse_rows row_len parse_row rows
      (patch (render_rows render_row rows) (row_len * i) (render_row r)) ! i = r"
proof -
  have "row_len * i + length (render_row r) \<le> length rows * row_len"
    using assms(1) by (metis Suc_leI add.commute mult.commute mult_Suc_right mult_le_mono2 render_len)
  from covered_row [OF this assms(1)] show ?thesis
    using parse_render [OF assms(2), of "[]"] assms(3) [of "rows ! i" "render_row r"]
    by (simp add: render_len)
qed

end

lemma get_append:
  "2 \<le> length b \<Longrightarrow> get_u16 (b @ r) = get_u16 b"
  "4 \<le> length b \<Longrightarrow> get_u32 (b @ r) = get_u32 b"
  "8 \<le> length b \<Longrightarrow> get_u64 (b @ r) = get_u64 b"
  by (auto simp: get_u16_def get_u32_def get_u64_def upt_8 nth_append)

section \<open>Hardware pin map\<close>

record hw_pin_map_entry =
  hp_hw_ep_nr :: u8
  hp_hw_ep_pin_nr :: u8
  hp_hw_pin_type :: u8

definition kHwPinRowLen :: nat where [wire_defs]: "kHwPinRowLen = 3"

definition kMaxEntries :: nat where "kMaxEntries = 64"

definition hw_pin_render_row :: "hw_pin_map_entry \<Rightarrow> octets" where
  "hw_pin_render_row e = [hp_hw_ep_nr e, hp_hw_ep_pin_nr e, hp_hw_pin_type e]"

definition hw_pin_parse_row :: "hw_pin_map_entry \<Rightarrow> octets \<Rightarrow> hw_pin_map_entry" where
  "hw_pin_parse_row e row =
     e\<lparr>hp_hw_ep_nr := row ! 0, hp_hw_ep_pin_nr := row ! 1, hp_hw_pin_type := row ! 2\<rparr>"

definition hw_pin_apply_reconfig ::
    "hw_pin_map_entry list \<Rightarrow> nat \<Rightarrow> octets \<Rightarrow> hw_pin_map_entry list result" where
  "hw_pin_apply_reconfig entries relative_start_address data =
     (if length data = 0 then Inl (Hw_pin_map_err Short_write)
      else if kMaxEntries < length entries then Inl (Hw_pin_map_err Out_of_range)
      else
        (let block_len = length entries * kHwPinRowLen in
         if block_len < relative_start_address + length data then Inl (Hw_pin_map_err Out_of_range)
         else
           (let block = patch (render_rows hw_pin_render_row entries) relative_start_address data
            in Inr (parse_rows kHwPinRowLen hw_pin_parse_row entries block))))"

interpretation hw_pin: row_table kHwPinRowLen hw_pin_render_row hw_pin_parse_row "\<lambda>_. True"
  by unfold_locales
     (simp_all add: hw_pin_render_row_def hw_pin_parse_row_def kHwPinRowLen_def nth_append)

section \<open>Generic endpoint configuration\<close>

record endpoint_generic_config =
  eg_ep_type :: u8
  eg_ep_used :: bool
  eg_ep_delay_time :: u32
  eg_ep_req_storage_size :: u32
  eg_ep_description :: u32
  eg_ep_tx_buffer_size :: u16
  eg_ep_rx_buffer_size :: u16
  eg_ep_req_crc_enable :: bool
  eg_ep_ack_crc_enable :: bool
  eg_ep_response_crc_enable :: bool

definition ep_delay_time_us_to_reg :: "u32 \<Rightarrow> u8 option" where
  "ep_delay_time_us_to_reg delay_us =
     (if delay_us = 1 then Some 0
      else if delay_us = 10 then Some 1
      else if delay_us = 20 then Some 2
      else if delay_us = 50 then Some 3
      else None)"

definition ep_delay_time_reg_to_us :: "u8 \<Rightarrow> u32" where
  "ep_delay_time_reg_to_us reg = [1, 10, 20, 50] ! unat (reg AND 0x3)"

definition ep_req_storage_size_words_to_octets :: "u16 \<Rightarrow> u32" where
  "ep_req_storage_size_words_to_octets words = ucast words * 4"

definition ep_req_storage_size_octets_to_words :: "u32 \<Rightarrow> u16 option" where
  "ep_req_storage_size_octets_to_words octets =
     (if octets mod 4 \<noteq> 0 then None
      else (let words = octets div 4 in if 0xFFFF < words then None else Some (ucast words)))"

definition kEpGenericRowLen :: nat where [wire_defs]: "kEpGenericRowLen = 12"

definition ep_generic_render_row :: "endpoint_generic_config \<Rightarrow> octets" where
  "ep_generic_render_row e =
     (let delay_reg = (case ep_delay_time_us_to_reg (eg_ep_delay_time e) of Some r \<Rightarrow> r | None \<Rightarrow> 0);
          req_storage_words =
            (case ep_req_storage_size_octets_to_words (eg_ep_req_storage_size e) of
               Some w \<Rightarrow> w
             | None \<Rightarrow>
                 (let clamped = eg_ep_req_storage_size e;
                      clamped = (if 0xFFFF * 4 < clamped then 0xFFFF * 4 else clamped)
                  in ucast (clamped div 4)));
          octet1 = (if eg_ep_used e then 0x01 else 0x00) OR push_bit 4 (delay_reg AND 0x3)
      in [eg_ep_type e, octet1] @ put_u16 req_storage_words @ put_u32 (eg_ep_description e) @
         put_u16 (eg_ep_tx_buffer_size e) @ put_u16 (eg_ep_rx_buffer_size e))"

definition ep_generic_render :: "endpoint_generic_config list \<Rightarrow> octets" where
  "ep_generic_render entries = render_rows ep_generic_render_row entries"

text \<open>Whether the write from \<open>ts\<close> to \<open>te\<close> covers the \<open>n\<close> octets of a field at \<open>off\<close> in full.\<close>

definition covers :: "nat \<Rightarrow> nat \<Rightarrow> nat \<Rightarrow> nat \<Rightarrow> bool" where
  "covers ts te off n \<longleftrightarrow> ts \<le> off \<and> off + n \<le> te"

definition ep_generic_write_row ::
    "nat \<Rightarrow> nat \<Rightarrow> octets \<Rightarrow> nat \<Rightarrow> endpoint_generic_config \<Rightarrow> endpoint_generic_config" where
  "ep_generic_write_row ts te data row_i e =
     (let row_base = row_i * kEpGenericRowLen;
          at = (\<lambda>k. drop (row_base + k - ts) data);
          e = (if covers ts te (row_base + 1) 1
               then (let octet1 = hd (at 1) in
                     e\<lparr>eg_ep_used := (if row_i = 0 then True else octet1 AND 0x01 \<noteq> 0),
                       eg_ep_delay_time := ep_delay_time_reg_to_us (drop_bit 4 octet1 AND 0x3)\<rparr>)
               else e);
          e = (if covers ts te (row_base + 2) 2
               then e\<lparr>eg_ep_req_storage_size := ep_req_storage_size_words_to_octets (get_u16 (at 2))\<rparr>
               else e);
          e = (if covers ts te (row_base + 4) 4
               then e\<lparr>eg_ep_description := get_u32 (at 4)\<rparr> else e);
          e = (if covers ts te (row_base + 8) 2
               then e\<lparr>eg_ep_tx_buffer_size := get_u16 (at 8)\<rparr> else e)
      in (if covers ts te (row_base + 10) 2
          then e\<lparr>eg_ep_rx_buffer_size := get_u16 (at 10)\<rparr> else e))"

definition ep_generic_apply_reconfig ::
    "endpoint_generic_config list \<Rightarrow> nat \<Rightarrow> octets \<Rightarrow> endpoint_generic_config list result" where
  "ep_generic_apply_reconfig entries relative_start_address data =
     (if length data = 0 then Inl (Ep_generic_cfg_err Short_write)
      else
        (let touched_start = relative_start_address;
             touched_end = touched_start + length data
         in
         if length entries * kEpGenericRowLen < touched_end
         then Inl (Ep_generic_cfg_err Out_of_range)
         else
           (let row_start_idx = touched_start div kEpGenericRowLen;
                row_end_idx = (touched_end - 1) div kEpGenericRowLen
            in Inr (fold (\<lambda>row_i es. es[row_i :=
                      ep_generic_write_row touched_start touched_end data row_i (es ! row_i)])
                    [row_start_idx..<Suc row_end_idx] entries))))"

section \<open>Request streams\<close>

datatype rx_safety_measure = ForceHighImpedance | RunSafeSequencer

record request_stream_config =
  rs_stream_id :: stream_id
  rs_queue_size :: u16
  rs_rx_wd_timeout_interval :: u32
  rs_rx_wd_enable :: bool
  rs_rx_wd_safestate_enable :: bool
  rs_rx_wd_info_enable :: bool
  rs_rx_enforce_e2e :: bool
  rs_rx_enforce_seq :: bool
  rs_rx_seq_safestate_enable :: bool
  rs_rx_ovrflw_safestate_enable :: bool
  rs_rx_safety_measure :: rx_safety_measure
  rs_rx_safestate_sequencer :: u16
  rs_rx_safe_sequencer_state :: u8
  rs_rx_secure_channel_index :: u8
  rs_rx_ack_stream_index :: u8
  rs_rx_resp_stream_index :: u8
  rs_rx_stream_max_request_size :: nat

definition request_stream_default :: request_stream_config where
  "request_stream_default =
     \<lparr>rs_stream_id = \<lparr>mac = replicate 6 0, suffix = 0\<rparr>, rs_queue_size = 0,
      rs_rx_wd_timeout_interval = 0, rs_rx_wd_enable = False, rs_rx_wd_safestate_enable = False,
      rs_rx_wd_info_enable = False, rs_rx_enforce_e2e = False, rs_rx_enforce_seq = False,
      rs_rx_seq_safestate_enable = False, rs_rx_ovrflw_safestate_enable = False,
      rs_rx_safety_measure = ForceHighImpedance, rs_rx_safestate_sequencer = 0,
      rs_rx_safe_sequencer_state = 0, rs_rx_secure_channel_index = 0,
      rs_rx_ack_stream_index = 0, rs_rx_resp_stream_index = 1,
      rs_rx_stream_max_request_size = 0\<rparr>"

definition wd_timeout_ms_to_ticks :: "u32 \<Rightarrow> u32 \<Rightarrow> u16 option" where
  "wd_timeout_ms_to_ticks timeout_ms ms_per_tick =
     (if ms_per_tick = 0 then None
      else (let ticks = timeout_ms div ms_per_tick in
            if 0xFFFF < ticks then None else Some (ucast ticks)))"

definition wd_timeout_ticks_to_ms :: "u16 \<Rightarrow> u32 \<Rightarrow> u32 option" where
  "wd_timeout_ticks_to_ms ticks ms_per_tick =
     (if ms_per_tick = 0 then None
      else (let product = ucast ticks * ucast ms_per_tick :: u64 in
            if 0xFFFFFFFF < product then None else Some (ucast product)))"

definition kRequestStreamRowLen :: nat where [wire_defs]: "kRequestStreamRowLen = 24"

definition request_stream_render_row :: "u32 \<Rightarrow> bool \<Rightarrow> request_stream_config \<Rightarrow> octets" where
  "request_stream_render_row watchdog_ms_per_tick blocked e =
     (let max_request_size_wire =
            (if 0xFFFF < rs_rx_stream_max_request_size e then 0xFFFF
             else of_nat (rs_rx_stream_max_request_size e));
          wd_timeout =
            (case wd_timeout_ms_to_ticks (rs_rx_wd_timeout_interval e) watchdog_ms_per_tick of
               Some ticks \<Rightarrow> put_u16 ticks
             | None \<Rightarrow> [0x00, 0x00]);
          bits_0x000d =
            (if rs_rx_enforce_e2e e then 0x01 else 0x00) OR
            (if rs_rx_enforce_seq e \<and> rs_rx_seq_safestate_enable e then 0x02 else 0x00) OR
            (if rs_rx_wd_enable e \<and> rs_rx_wd_safestate_enable e then 0x04 else 0x00) OR
            (if rs_rx_ovrflw_safestate_enable e then 0x08 else 0x00) OR
            (if blocked then 0x80 else 0x00);
          safestate_sequencer_wire =
            (if 0xFF < rs_rx_safestate_sequencer e then 0xFF else ucast (rs_rx_safestate_sequencer e))
      in put_u64 (to_u64 (rs_stream_id e)) @ put_u16 max_request_size_wire @ wd_timeout @
         [rs_rx_secure_channel_index e, bits_0x000d, safestate_sequencer_wire,
          rs_rx_safe_sequencer_state e, rs_rx_ack_stream_index e, rs_rx_resp_stream_index e,
          0x00, 0x00, 0x00, 0x00, 0x00, 0x00])"

definition request_stream_parse_row ::
    "u32 \<Rightarrow> request_stream_config \<Rightarrow> octets \<Rightarrow> request_stream_config" where
  "request_stream_parse_row watchdog_ms_per_tick e row =
     (let bits_0x000d = row ! 0x000D;
          seq_bit = (bits_0x000d AND 0x02 \<noteq> 0);
          wd_bit = (bits_0x000d AND 0x04 \<noteq> 0)
      in e\<lparr>rs_stream_id := from_u64 (get_u64 row),
           rs_rx_stream_max_request_size := unat (get_u16 (drop 0x0008 row)),
           rs_rx_wd_timeout_interval :=
             (case wd_timeout_ticks_to_ms (get_u16 (drop 0x000A row)) watchdog_ms_per_tick of
                Some wd_timeout_ms \<Rightarrow> wd_timeout_ms
              | None \<Rightarrow> rs_rx_wd_timeout_interval e),
           rs_rx_secure_channel_index := row ! 0x000C,
           rs_rx_enforce_e2e := (bits_0x000d AND 0x01 \<noteq> 0),
           rs_rx_enforce_seq := seq_bit,
           rs_rx_seq_safestate_enable := seq_bit,
           rs_rx_wd_enable := wd_bit,
           rs_rx_wd_safestate_enable := wd_bit,
           rs_rx_ovrflw_safestate_enable := (bits_0x000d AND 0x08 \<noteq> 0),
           rs_rx_safestate_sequencer := ucast (row ! 0x000E),
           rs_rx_safe_sequencer_state := row ! 0x000F,
           rs_rx_ack_stream_index := row ! 0x0010,
           rs_rx_resp_stream_index := row ! 0x0011\<rparr>)"

definition request_stream_render ::
    "request_stream_config list \<Rightarrow> u32 \<Rightarrow> bool list option \<Rightarrow> octets" where
  "request_stream_render entries watchdog_ms_per_tick rx_stream_status_blocked =
     concat (map (\<lambda>i. request_stream_render_row watchdog_ms_per_tick
        (case rx_stream_status_blocked of None \<Rightarrow> False | Some bs \<Rightarrow> bs ! i) (entries ! i))
       [0..<length entries])"

definition request_stream_apply_reconfig ::
    "request_stream_config list \<Rightarrow> nat \<Rightarrow> octets \<Rightarrow> u32 \<Rightarrow> request_stream_config list result" where
  "request_stream_apply_reconfig entries relative_start_address data watchdog_ms_per_tick =
     (if length data = 0 then Inl (Request_stream_cfg_err Short_write)
      else if kMaxEntries < length entries then Inl (Request_stream_cfg_err Out_of_range)
      else
        (let block_len = length entries * kRequestStreamRowLen in
         if block_len < relative_start_address + length data
         then Inl (Request_stream_cfg_err Out_of_range)
         else
           (let block = patch (request_stream_render entries watchdog_ms_per_tick None)
                  relative_start_address data
            in Inr (parse_rows kRequestStreamRowLen
                 (request_stream_parse_row watchdog_ms_per_tick) entries block))))"

definition resolve_index :: "request_stream_config list \<Rightarrow> u64 \<Rightarrow> u8" where
  "resolve_index entries sid =
     (case find (\<lambda>i. to_u64 (rs_stream_id (entries ! i)) = sid) [0..<length entries] of
        Some i \<Rightarrow> of_nat (i + 1)
      | None \<Rightarrow> 0)"

lemma request_stream_render_rows:
  "request_stream_render entries ms None = render_rows (request_stream_render_row ms False) entries"
proof -
  have "map (\<lambda>i. request_stream_render_row ms False (entries ! i)) [0..<length entries]
      = map (request_stream_render_row ms False) entries"
    by (intro nth_equalityI) simp_all
  then show ?thesis by (simp add: request_stream_render_def render_rows_def)
qed

text \<open>The rows that the register image represents without loss.\<close>

definition wf_request_stream :: "u32 \<Rightarrow> request_stream_config \<Rightarrow> bool" where
  "wf_request_stream ms e \<longleftrightarrow>
     wf_stream_id (rs_stream_id e) \<and> rs_rx_stream_max_request_size e \<le> 0xFFFF \<and>
     rs_rx_safestate_sequencer e \<le> 0xFF \<and>
     rs_rx_enforce_seq e = rs_rx_seq_safestate_enable e \<and>
     rs_rx_wd_enable e = rs_rx_wd_safestate_enable e \<and>
     (ms = 0 \<or> rs_rx_wd_timeout_interval e mod ms = 0 \<and> rs_rx_wd_timeout_interval e div ms \<le> 0xFFFF)"

lemma wd_ticks_roundtrip:
  assumes "t mod ms = 0" "t div ms \<le> 0xFFFF" "ms \<noteq> 0"
  shows "wd_timeout_ms_to_ticks t ms = Some (ucast (t div ms))"
    and "wd_timeout_ticks_to_ms (ucast (t div ms)) ms = Some t"
proof -
  show "wd_timeout_ms_to_ticks t ms = Some (ucast (t div ms))"
    using assms by (auto simp: wd_timeout_ms_to_ticks_def Let_def dest: leD)
  have q: "unat (t div ms) \<le> 0xFFFF" using assms(2) by (simp add: word_le_nat_alt)
  then have tick: "unat (ucast (t div ms) :: u16) = unat (t div ms)"
    by (simp add: unsigned_ucast_eq take_bit_eq_mod)
  have "unat t mod unat ms = 0"
    using assms(1) by (metis unat_mod unsigned_0)
  then have prod: "unat (t div ms) * unat ms = unat t"
    using div_mult_mod_eq [of "unat t" "unat ms"] by (simp add: unat_div)
  have "unat (ucast (ucast (t div ms) :: u16) * ucast ms :: u64) = unat t"
    using tick prod unat_bound [of t] unat_bound [of ms]
    by (simp add: unat_word_ariths unsigned_ucast_eq take_bit_eq_mod)
  moreover have "unat (ucast t :: u64) = unat t"
    using unat_bound [of t] by (simp add: unsigned_ucast_eq take_bit_eq_mod)
  ultimately have "(ucast (ucast (t div ms) :: u16) * ucast ms :: u64) = ucast t"
    by (metis unsigned_word_eqI)
  moreover have "\<not> 0xFFFFFFFF < (ucast t :: u64)"
    using unat_bound [of t] by (simp add: word_less_nat_alt unsigned_ucast_eq take_bit_eq_mod)
  moreover have "ucast (ucast t :: u64) = t" 
    by (rule bit_word_eqI) (simp add: bit_simps)
  ultimately show "wd_timeout_ticks_to_ms (ucast (t div ms)) ms = Some t"
    using assms(3) by (simp add: wd_timeout_ticks_to_ms_def)
qed

lemma stream_flags:
  fixes w :: u8
  assumes "w = (if a then 0x01 else 0x00) OR (if b then 0x02 else 0x00) OR
    (if c then 0x04 else 0x00) OR (if d then 0x08 else 0x00) OR 0x00"
  shows "(w AND 0x01 \<noteq> 0) = a" "(w AND 0x02 \<noteq> 0) = b" "(w AND 0x04 \<noteq> 0) = c" "(w AND 0x08 \<noteq> 0) = d"
  unfolding assms by (cases a; cases b; cases c; cases d; simp)+

lemma ucast_low_octet:
  assumes "s \<le> 0xFF"
  shows "ucast (if 0xFF < s then 0xFF else ucast s :: u8) = (s :: u16)"
proof -
  have "s AND mask 8 = s"
    using assms less_mask_eq [of s 8] by (simp add: word_le_nat_alt word_less_nat_alt)
  moreover have "ucast (ucast s :: u8) = s AND mask 8"
    by (rule bit_word_eqI) (auto simp: bit_simps)
  ultimately show ?thesis using assms by (simp add: leD)
qed

lemma wf_request_stream_roundtrip:
  assumes "wf_request_stream ms e"
  shows "request_stream_parse_row ms e (request_stream_render_row ms False e @ rest) = e"
proof -
  define W where "W = (case wd_timeout_ms_to_ticks (rs_rx_wd_timeout_interval e) ms of
       Some ticks \<Rightarrow> put_u16 ticks | None \<Rightarrow> [0x00, 0x00])"
  have wd: "(case wd_timeout_ticks_to_ms (get_u16 (W @ r)) ms of
      Some t \<Rightarrow> t | None \<Rightarrow> rs_rx_wd_timeout_interval e) = rs_rx_wd_timeout_interval e" for r
    using assms wd_ticks_roundtrip [of "rs_rx_wd_timeout_interval e" ms]
    by (cases "ms = 0") (auto simp: W_def wf_request_stream_def wd_timeout_ticks_to_ms_def)
  have len: "length W = 2"
    by (simp add: W_def split: option.split)
  define B :: u8 where "B = (if rs_rx_enforce_e2e e then 0x01 else 0x00) OR
    (if rs_rx_enforce_seq e \<and> rs_rx_seq_safestate_enable e then 0x02 else 0x00) OR
    (if rs_rx_wd_enable e \<and> rs_rx_wd_safestate_enable e then 0x04 else 0x00) OR
    (if rs_rx_ovrflw_safestate_enable e then 0x08 else 0x00) OR 0x00"
  define M :: u16 where "M = (if 0xFFFF < rs_rx_stream_max_request_size e then 0xFFFF
               else of_nat (rs_rx_stream_max_request_size e))"
  define Q :: u8 where "Q = (if 0xFF < rs_rx_safestate_sequencer e then 0xFF
               else ucast (rs_rx_safestate_sequencer e))"
  define R where "R = request_stream_render_row ms False e @ rest"
  have R: "R = put_u64 (to_u64 (rs_stream_id e)) @ put_u16 M @ W @
      [rs_rx_secure_channel_index e, B, Q, rs_rx_safe_sequencer_state e, rs_rx_ack_stream_index e,
       rs_rx_resp_stream_index e, 0x00, 0x00, 0x00, 0x00, 0x00, 0x00] @ rest"
    by (simp add: R_def request_stream_render_row_def Let_def W_def B_def M_def Q_def)
  note wf = assms [unfolded wf_request_stream_def]
  have ids: "from_u64 (get_u64 R) = rs_stream_id e" using wf by (simp add: R from_to_u64)
  have size: "unat (get_u16 (drop 8 R)) = rs_rx_stream_max_request_size e"
    using wf by (simp add: R M_def unat_of_nat)
  have ticks: "(case wd_timeout_ticks_to_ms (get_u16 (drop 10 R)) ms of
      Some t \<Rightarrow> t | None \<Rightarrow> rs_rx_wd_timeout_interval e) = rs_rx_wd_timeout_interval e"
    using wd by (simp add: R)
  have octets: "R ! 12 = rs_rx_secure_channel_index e" "R ! 13 = B" "R ! 14 = Q"
    "R ! 15 = rs_rx_safe_sequencer_state e" "R ! 16 = rs_rx_ack_stream_index e"
    "R ! 17 = rs_rx_resp_stream_index e"
    by (simp_all add: R nth_append len)
  have sq: "ucast Q = rs_rx_safestate_sequencer e"
    unfolding Q_def using wf by (intro ucast_low_octet) simp
  have "request_stream_parse_row ms e R = e"
    using wf
    by (simp add: request_stream_parse_row_def Let_def ids size ticks octets sq stream_flags [OF B_def])
  then show ?thesis by (simp add: R_def)
qed

lemma request_stream_row_len: "length (request_stream_render_row ms blocked e) = kRequestStreamRowLen"
  by (simp add: request_stream_render_row_def kRequestStreamRowLen_def Let_def split: option.split)

interpretation request_stream: row_table kRequestStreamRowLen "request_stream_render_row ms False"
    "request_stream_parse_row ms" "wf_request_stream ms" for ms
proof unfold_locales
  show "request_stream_parse_row ms r (b @ rest) = request_stream_parse_row ms r b"
    if "length b = kRequestStreamRowLen" for r b rest
    using that
    by (simp add: request_stream_parse_row_def kRequestStreamRowLen_def get_append nth_append Let_def)
qed (simp_all add: request_stream_row_len wf_request_stream_roundtrip)

section \<open>The address map of byte-bus identifiers\<close>

record ep_id_mapping_entry =
  em_ep_id :: u16
  em_byte_bus_id :: u16
  em_request_stream_index :: u8
  em_crc_required :: bool

definition kEpIdMapRowLen :: nat where [wire_defs]: "kEpIdMapRowLen = 4"

definition is_ascending :: "ep_id_mapping_entry list \<Rightarrow> bool" where
  "is_ascending entries =
     (if length entries < 2 then True
      else list_all (\<lambda>i. let prev = entries ! (i - 1); cur = entries ! i in
             if em_request_stream_index prev \<noteq> em_request_stream_index cur
             then em_request_stream_index prev < em_request_stream_index cur
             else em_byte_bus_id prev < em_byte_bus_id cur) [1..<length entries])"

fun effective_count :: "ep_id_mapping_entry list \<Rightarrow> nat" where
  "effective_count [] = 0"
| "effective_count (e # es) = (if em_request_stream_index e = 0 then 0 else 1 + effective_count es)"

definition kEp0 :: u16 where "kEp0 = 0"

definition row_init_default :: "ep_id_mapping_entry \<Rightarrow> ep_id_mapping_entry" where
  "row_init_default row =
     row\<lparr>em_request_stream_index := 1, em_ep_id := kEp0, em_byte_bus_id := 0\<rparr>"

definition ep_id_map_render_row :: "ep_id_mapping_entry \<Rightarrow> octets" where
  "ep_id_map_render_row e =
     (let bbid_ctrl = push_bit 5 (em_byte_bus_id e AND 0x07FF);
          bbid_ctrl = bbid_ctrl OR (if em_crc_required e then 0x10 else 0x00)
      in [em_request_stream_index e, ucast (em_ep_id e)] @ put_u16 bbid_ctrl)"

definition ep_id_map_parse_row :: "ep_id_mapping_entry \<Rightarrow> octets \<Rightarrow> ep_id_mapping_entry" where
  "ep_id_map_parse_row e row =
     (let bbid_ctrl = get_u16 (drop 2 row) in
      e\<lparr>em_request_stream_index := row ! 0, em_ep_id := ucast (row ! 1),
        em_byte_bus_id := drop_bit 5 bbid_ctrl AND 0x07FF,
        em_crc_required := (bbid_ctrl AND 0x10 \<noteq> 0)\<rparr>)"

definition ep_id_map_apply_reconfig ::
    "ep_id_mapping_entry list \<Rightarrow> nat \<Rightarrow> octets \<Rightarrow> ep_id_mapping_entry list result" where
  "ep_id_map_apply_reconfig entries relative_start_address data =
     (if length data = 0 then Inl (Ep_id_map_err Short_write)
      else if kMaxEntries < length entries then Inl (Ep_id_map_err Out_of_range)
      else
        (let block_len = length entries * kEpIdMapRowLen in
         if block_len < relative_start_address + length data then Inl (Ep_id_map_err Out_of_range)
         else
           (let block = patch (render_rows ep_id_map_render_row entries) relative_start_address data
            in Inr (parse_rows kEpIdMapRowLen ep_id_map_parse_row entries block))))"

definition has_single_client_per_ep :: "ep_id_mapping_entry list \<Rightarrow> bool" where
  "has_single_client_per_ep entries =
     list_all (\<lambda>i. list_all (\<lambda>j.
         \<not> (em_ep_id (entries ! i) = em_ep_id (entries ! j) \<and>
            em_request_stream_index (entries ! i) \<noteq> em_request_stream_index (entries ! j)))
       [i + 1..<length entries]) [0..<length entries]"

definition shared_bus_homogeneous :: "ep_id_mapping_entry list \<Rightarrow> u8 list \<Rightarrow> bool" where
  "shared_bus_homogeneous entries ep_types =
     list_all (\<lambda>i. list_all (\<lambda>j.
         \<not> (em_request_stream_index (entries ! i) = em_request_stream_index (entries ! j) \<and>
            em_byte_bus_id (entries ! i) = em_byte_bus_id (entries ! j) \<and>
            ep_types ! i \<noteq> ep_types ! j))
       [i + 1..<length entries]) [0..<length entries]"

definition ep_type_has_fixed_ep_id :: "ep_id_mapping_entry list \<Rightarrow> u8 list \<Rightarrow> u8 \<Rightarrow> u16 \<Rightarrow> bool" where
  "ep_type_has_fixed_ep_id entries ep_types target_ep_type required_ep_id =
     list_all (\<lambda>i. \<not> (ep_types ! i = target_ep_type \<and> em_ep_id (entries ! i) \<noteq> required_ep_id))
       [0..<length entries]"

text \<open>
  The loop of \<open>byte_bus_ids_for_stream\<close>: the identifiers written (at most the capacity of the
  caller's array) and the number found.
\<close>

definition byte_bus_ids_for_stream :: "ep_id_mapping_entry list \<Rightarrow> u8 \<Rightarrow> nat \<Rightarrow> u16 list \<times> nat" where
  "byte_bus_ids_for_stream entries request_stream_index out_capacity =
     fold (\<lambda>i (out, found).
         if em_request_stream_index (entries ! i) \<noteq> request_stream_index then (out, found)
         else
           (let already_written = list_ex (\<lambda>j.
                  em_request_stream_index (entries ! j) = request_stream_index \<and>
                  em_byte_bus_id (entries ! j) = em_byte_bus_id (entries ! i)) [0..<i]
            in if already_written then (out, found)
               else ((if found < out_capacity then out @ [em_byte_bus_id (entries ! i)] else out),
                     found + 1)))
       [0..<length entries] ([], 0)"

definition is_valid_association :: "ep_id_mapping_entry list \<Rightarrow> u8 \<Rightarrow> u16 \<Rightarrow> bool" where
  "is_valid_association entries request_stream_index byte_bus_id =
     list_ex (\<lambda>e. em_request_stream_index e = request_stream_index \<and> em_byte_bus_id e = byte_bus_id)
       entries"

definition wf_ep_id_map :: "ep_id_mapping_entry \<Rightarrow> bool" where
  "wf_ep_id_map e \<longleftrightarrow> em_ep_id e \<le> 0xFF \<and> em_byte_bus_id e \<le> 0x7FF"

lemma ep_id_low: "s \<le> 0xFF \<Longrightarrow> ucast (ucast s :: u8) = (s :: u16)"
  using ucast_low_octet [of s] by (simp add: leD)

lemma bus_field:
  "drop_bit 5 (push_bit 5 (v AND 0x07FF) OR (if c then 0x10 else 0x00)) AND 0x07FF = (v AND 0x7FF :: u16)"
  "(push_bit 5 (v AND 0x07FF) OR (if c then 0x10 else 0x00) :: u16) AND 0x10 \<noteq> 0 \<longleftrightarrow> c"
  "drop_bit 5 (push_bit 5 (v AND 0x07FF)) AND 0x07FF = (v AND 0x7FF :: u16)"
  "push_bit 5 (v AND 0x07FF) AND 0x10 = (0 :: u16)"
  by (cases c; simp add: bits)+

interpretation ep_id_map: row_table kEpIdMapRowLen ep_id_map_render_row ep_id_map_parse_row wf_ep_id_map
proof unfold_locales
  show "ep_id_map_parse_row r (ep_id_map_render_row r @ rest) = r" if "wf_ep_id_map r" for r rest
  proof -
    have "ep_id_map_parse_row r (ep_id_map_render_row r @ rest)
        = r\<lparr>em_ep_id := ucast (ucast (em_ep_id r) :: u8), em_byte_bus_id := em_byte_bus_id r AND 0x7FF\<rparr>"
      by (simp add: ep_id_map_parse_row_def ep_id_map_render_row_def Let_def bus_field
          del: push_bit_and)
    moreover have "em_byte_bus_id r AND 0x7FF = em_byte_bus_id r"
      using that less_mask_eq [of "em_byte_bus_id r" 11]
      by (simp add: wf_ep_id_map_def mask_numeral word_le_nat_alt word_less_nat_alt)
    ultimately show ?thesis
      using that by (simp add: ep_id_low wf_ep_id_map_def)
  qed
  show "ep_id_map_parse_row r (b @ rest) = ep_id_map_parse_row r b"
    if "length b = kEpIdMapRowLen" for r b rest
    using that by (simp add: ep_id_map_parse_row_def kEpIdMapRowLen_def get_append nth_append)
qed (simp add: ep_id_map_render_row_def kEpIdMapRowLen_def Let_def)

section \<open>Response queues\<close>

record response_queue_config =
  rq_stream_uid :: u16
  rq_max_avtpdu_size :: u16
  rq_queue_size :: u16
  rq_flush_on_count :: u16
  rq_flush_time_us :: u32

definition response_queue_stream_id :: "response_queue_config \<Rightarrow> octets \<Rightarrow> stream_id" where
  "response_queue_stream_id cfg addr = \<lparr>mac = addr, suffix = rq_stream_uid cfg\<rparr>"

definition kResponseQueueRowLen :: nat where [wire_defs]: "kResponseQueueRowLen = 10"

definition response_queue_render_row :: "response_queue_config \<Rightarrow> octets" where
  "response_queue_render_row e =
     (let flush_time_wire = (if 0xFFFF < rq_flush_time_us e then 0xFFFF else ucast (rq_flush_time_us e))
      in put_u16 (rq_stream_uid e) @ put_u16 (rq_max_avtpdu_size e) @ put_u16 (rq_queue_size e) @
         put_u16 (rq_flush_on_count e) @ put_u16 flush_time_wire)"

definition response_queue_parse_row :: "response_queue_config \<Rightarrow> octets \<Rightarrow> response_queue_config" where
  "response_queue_parse_row e row =
     e\<lparr>rq_stream_uid := get_u16 row, rq_max_avtpdu_size := get_u16 (drop 2 row),
       rq_queue_size := get_u16 (drop 4 row), rq_flush_on_count := get_u16 (drop 6 row),
       rq_flush_time_us := ucast (get_u16 (drop 8 row))\<rparr>"

definition response_queue_apply_reconfig ::
    "response_queue_config list \<Rightarrow> nat \<Rightarrow> octets \<Rightarrow> response_queue_config list result" where
  "response_queue_apply_reconfig entries relative_start_address data =
     (if length data = 0 then Inl (Response_queue_cfg_err Short_write)
      else if kMaxEntries < length entries then Inl (Response_queue_cfg_err Out_of_range)
      else
        (let block_len = length entries * kResponseQueueRowLen in
         if block_len < relative_start_address + length data
         then Inl (Response_queue_cfg_err Out_of_range)
         else
           (let block = patch (render_rows response_queue_render_row entries)
                  relative_start_address data
            in Inr (parse_rows kResponseQueueRowLen response_queue_parse_row entries block))))"

interpretation response_queue: row_table kResponseQueueRowLen response_queue_render_row
    response_queue_parse_row "\<lambda>e. rq_flush_time_us e \<le> 0xFFFF"
proof unfold_locales
  show "response_queue_parse_row r (response_queue_render_row r @ rest) = r"
    if "rq_flush_time_us r \<le> 0xFFFF" for r rest
  proof -
    have "rq_flush_time_us r AND mask 16 = rq_flush_time_us r"
      using that less_mask_eq [of "rq_flush_time_us r" 16] by (simp add: word_le_nat_alt word_less_nat_alt)
    moreover have "ucast (ucast (rq_flush_time_us r) :: u16) = rq_flush_time_us r AND mask 16"
      by (rule bit_word_eqI) (auto simp: bit_simps)
    ultimately show ?thesis
      using that by (simp add: response_queue_parse_row_def response_queue_render_row_def Let_def leD)
  qed
  show "response_queue_parse_row r (b @ rest) = response_queue_parse_row r b"
    if "length b = kResponseQueueRowLen" for r b rest
    using that by (simp add: response_queue_parse_row_def kResponseQueueRowLen_def get_append)
qed (simp add: response_queue_render_row_def kResponseQueueRowLen_def Let_def)

section \<open>Optional subsystems\<close>

text \<open>A 256-octet array of which the first \<open>len\<close> octets are in use.\<close>

record optional_subsystem_cfg =
  os_data :: octets
  os_len :: nat

definition optional_subsystem_apply_reconfig ::
    "optional_subsystem_cfg \<Rightarrow> nat \<Rightarrow> octets \<Rightarrow> optional_subsystem_cfg result" where
  "optional_subsystem_apply_reconfig cfg relative_start_address data =
     (if length data = 0 then Inl (Optional_subsystem_cfg_err Short_write)
      else if os_len cfg < relative_start_address + length data
      then Inl (Optional_subsystem_cfg_err Out_of_range)
      else Inr (cfg\<lparr>os_data := patch (os_data cfg) relative_start_address data\<rparr>))"

section \<open>Properties\<close>

text \<open>
  A configuration write is local. When a write to one of the four tables that are patched
  as a whole succeeds, the table keeps its size, and every row outside the written octets that
  the register image represents without loss is exactly as before; for the pin map that is
  every row.
\<close>

theorem table_write_local:
  "(hw_pin_apply_reconfig hw start data = Inr hw' \<longrightarrow>
      length hw' = length hw \<and>
      (\<forall>i < length hw. 3 * i + 3 \<le> start \<or> start + length data \<le> 3 * i \<longrightarrow> hw' ! i = hw ! i))
   \<and> (request_stream_apply_reconfig rs start data ms = Inr rs' \<longrightarrow>
      length rs' = length rs \<and>
      (\<forall>i < length rs. (24 * i + 24 \<le> start \<or> start + length data \<le> 24 * i)
         \<and> wf_request_stream ms (rs ! i) \<longrightarrow> rs' ! i = rs ! i))
   \<and> (ep_id_map_apply_reconfig em start data = Inr em' \<longrightarrow>
      length em' = length em \<and>
      (\<forall>i < length em. (4 * i + 4 \<le> start \<or> start + length data \<le> 4 * i)
         \<and> wf_ep_id_map (em ! i) \<longrightarrow> em' ! i = em ! i))
   \<and> (response_queue_apply_reconfig rq start data = Inr rq' \<longrightarrow>
      length rq' = length rq \<and>
      (\<forall>i < length rq. (10 * i + 10 \<le> start \<or> start + length data \<le> 10 * i)
         \<and> rq_flush_time_us (rq ! i) \<le> 0xFFFF \<longrightarrow> rq' ! i = rq ! i))"
proof (intro conjI impI)
  assume "hw_pin_apply_reconfig hw start data = Inr hw'"
  then show "length hw' = length hw"
    and "\<forall>i < length hw. 3 * i + 3 \<le> start \<or> start + length data \<le> 3 * i \<longrightarrow> hw' ! i = hw ! i"
    using hw_pin.kept_row [of start data hw]
    by (auto simp: hw_pin_apply_reconfig_def Let_def parse_rows_def kHwPinRowLen_def split: if_splits)
next
  assume "request_stream_apply_reconfig rs start data ms = Inr rs'"
  then show "length rs' = length rs"
    and "\<forall>i < length rs. (24 * i + 24 \<le> start \<or> start + length data \<le> 24 * i)
         \<and> wf_request_stream ms (rs ! i) \<longrightarrow> rs' ! i = rs ! i"
    using request_stream.kept_row [of start data rs _ ms]
    by (auto simp: request_stream_apply_reconfig_def Let_def parse_rows_def kRequestStreamRowLen_def
        request_stream_render_rows split: if_splits)
next
  assume "ep_id_map_apply_reconfig em start data = Inr em'"
  then show "length em' = length em"
    and "\<forall>i < length em. (4 * i + 4 \<le> start \<or> start + length data \<le> 4 * i)
         \<and> wf_ep_id_map (em ! i) \<longrightarrow> em' ! i = em ! i"
    using ep_id_map.kept_row [of start data em]
    by (auto simp: ep_id_map_apply_reconfig_def Let_def parse_rows_def kEpIdMapRowLen_def split: if_splits)
next
  assume "response_queue_apply_reconfig rq start data = Inr rq'"
  then show "length rq' = length rq"
    and "\<forall>i < length rq. (10 * i + 10 \<le> start \<or> start + length data \<le> 10 * i)
         \<and> rq_flush_time_us (rq ! i) \<le> 0xFFFF \<longrightarrow> rq' ! i = rq ! i"
    using response_queue.kept_row [of start data rq]
    by (auto simp: response_queue_apply_reconfig_def Let_def parse_rows_def kResponseQueueRowLen_def
        split: if_splits)
qed

theorem table_write_local_witness:
  "hw_pin_apply_reconfig [\<lparr>hp_hw_ep_nr = 1, hp_hw_ep_pin_nr = 2, hp_hw_pin_type = 3\<rparr>, \<lparr>hp_hw_ep_nr = 4, hp_hw_ep_pin_nr = 5, hp_hw_pin_type = 6\<rparr>] 4 [9] =
     Inr [\<lparr>hp_hw_ep_nr = 1, hp_hw_ep_pin_nr = 2, hp_hw_pin_type = 3\<rparr>, \<lparr>hp_hw_ep_nr = 4, hp_hw_ep_pin_nr = 9, hp_hw_pin_type = 6\<rparr>] \<and>
   [\<lparr>hp_hw_ep_nr = 1, hp_hw_ep_pin_nr = 2, hp_hw_pin_type = 3\<rparr>, \<lparr>hp_hw_ep_nr = 4, hp_hw_ep_pin_nr = 9, hp_hw_pin_type = 6\<rparr>] ! 0 = [\<lparr>hp_hw_ep_nr = 1, hp_hw_ep_pin_nr = 2, hp_hw_pin_type = 3\<rparr>, \<lparr>hp_hw_ep_nr = 4, hp_hw_ep_pin_nr = 5, hp_hw_pin_type = 6\<rparr>] ! 0"
proof -
  have "hw_pin_apply_reconfig [\<lparr>hp_hw_ep_nr = 1, hp_hw_ep_pin_nr = 2, hp_hw_pin_type = 3\<rparr>, \<lparr>hp_hw_ep_nr = 4, hp_hw_ep_pin_nr = 5, hp_hw_pin_type = 6\<rparr>] 4 [9] =
     Inr [\<lparr>hp_hw_ep_nr = 1, hp_hw_ep_pin_nr = 2, hp_hw_pin_type = 3\<rparr>, \<lparr>hp_hw_ep_nr = 4, hp_hw_ep_pin_nr = 9, hp_hw_pin_type = 6\<rparr>]"
    by code_simp
  then show ?thesis
    using conjunct1 [OF table_write_local [of "[\<lparr>hp_hw_ep_nr = 1, hp_hw_ep_pin_nr = 2, hp_hw_pin_type = 3\<rparr>, \<lparr>hp_hw_ep_nr = 4, hp_hw_ep_pin_nr = 5, hp_hw_pin_type = 6\<rparr>]" 4 "[9]"]]
    by simp
qed

text \<open>
  Writing a row's own image at the row's address installs exactly that row, for rows the
  image represents without loss. For a request stream, the three fields without a place in the
  image (queue size, information enable, safety measure) keep their old values.
\<close>

lemma request_stream_parse_old:
  assumes "wf_request_stream ms r" and "ms \<noteq> 0"
  shows "request_stream_parse_row ms old (request_stream_render_row ms False r) =
    r\<lparr>rs_queue_size := rs_queue_size old, rs_rx_wd_info_enable := rs_rx_wd_info_enable old,
      rs_rx_safety_measure := rs_rx_safety_measure old\<rparr>"
proof -
  let ?b = "request_stream_render_row ms False r"
  have "get_u16 (drop 10 ?b) = ucast (rs_rx_wd_timeout_interval r div ms)"
    using assms wd_ticks_roundtrip(1) [of "rs_rx_wd_timeout_interval r" ms]
    by (simp add: request_stream_render_row_def Let_def wf_request_stream_def)
  then have "wd_timeout_ticks_to_ms (get_u16 (drop 10 ?b)) ms \<noteq> None"
    using assms wd_ticks_roundtrip(2) [of "rs_rx_wd_timeout_interval r" ms]
    by (simp add: wf_request_stream_def)
  then have "request_stream_parse_row ms old ?b = (request_stream_parse_row ms r ?b)
    \<lparr>rs_queue_size := rs_queue_size old, rs_rx_wd_info_enable := rs_rx_wd_info_enable old,
      rs_rx_safety_measure := rs_rx_safety_measure old\<rparr>"
    by (cases old; cases r) (auto simp: request_stream_parse_row_def Let_def)
  then show ?thesis using wf_request_stream_roundtrip [OF assms(1), of "[]"] by simp
qed

lemma row_in_table: "i < n \<Longrightarrow> w * i + w \<le> n * (w :: nat)"
  using mult_le_mono2 [of "Suc i" n w] by (simp add: mult.commute add.commute)

theorem row_write_installs:
  "(i < length hw \<and> length hw \<le> 64 \<longrightarrow> (\<exists>hw'.
      hw_pin_apply_reconfig hw (3 * i) (hw_pin_render_row p) = Inr hw' \<and> hw' ! i = p))
   \<and> (i < length em \<and> length em \<le> 64 \<and> wf_ep_id_map m \<longrightarrow> (\<exists>em'.
      ep_id_map_apply_reconfig em (4 * i) (ep_id_map_render_row m) = Inr em' \<and> em' ! i = m))
   \<and> (i < length rq \<and> length rq \<le> 64 \<and> rq_flush_time_us q \<le> 0xFFFF \<longrightarrow> (\<exists>rq'.
      response_queue_apply_reconfig rq (10 * i) (response_queue_render_row q) = Inr rq'
      \<and> rq' ! i = q))
   \<and> (i < length rs \<and> length rs \<le> 64 \<and> wf_request_stream ms r \<and> ms \<noteq> 0 \<longrightarrow> (\<exists>rs'.
      request_stream_apply_reconfig rs (24 * i) (request_stream_render_row ms False r) ms = Inr rs'
      \<and> rs' ! i = r\<lparr>rs_queue_size := rs_queue_size (rs ! i),
            rs_rx_wd_info_enable := rs_rx_wd_info_enable (rs ! i),
            rs_rx_safety_measure := rs_rx_safety_measure (rs ! i)\<rparr>))"
proof (intro conjI impI)
  assume "i < length hw \<and> length hw \<le> 64"
  then show "\<exists>hw'. hw_pin_apply_reconfig hw (3 * i) (hw_pin_render_row p) = Inr hw' \<and> hw' ! i = p"
    using hw_pin.covered_row [of "3 * i" "hw_pin_render_row p" hw i]
      hw_pin.parse_render [of p "[]"] hw_pin.render_len [of p] row_in_table [of i "length hw" 3]
    by (simp add: hw_pin_apply_reconfig_def kHwPinRowLen_def kMaxEntries_def Let_def
        hw_pin_parse_row_def hw_pin_render_row_def)
next
  assume a: "i < length em \<and> length em \<le> 64 \<and> wf_ep_id_map m"
  have "ep_id_map_parse_row old b = ep_id_map_parse_row m b" for old b
    by (simp add: ep_id_map_parse_row_def Let_def)
  then show "\<exists>em'. ep_id_map_apply_reconfig em (4 * i) (ep_id_map_render_row m) = Inr em' \<and> em' ! i = m"
    using a ep_id_map.write_rendered_row [of i em m] ep_id_map.render_len [of m]
      row_in_table [of i "length em" 4]
    by (simp add: ep_id_map_apply_reconfig_def kEpIdMapRowLen_def kMaxEntries_def)
next
  assume a: "i < length rq \<and> length rq \<le> 64 \<and> rq_flush_time_us q \<le> 0xFFFF"
  have "response_queue_parse_row old b = response_queue_parse_row q b" for old b
    by (simp add: response_queue_parse_row_def)
  then show "\<exists>rq'. response_queue_apply_reconfig rq (10 * i) (response_queue_render_row q) = Inr rq'
      \<and> rq' ! i = q"
    using a response_queue.write_rendered_row [of i rq q] response_queue.render_len [of q]
      row_in_table [of i "length rq" 10]
    by (simp add: response_queue_apply_reconfig_def kResponseQueueRowLen_def kMaxEntries_def)
next
  assume a: "i < length rs \<and> length rs \<le> 64 \<and> wf_request_stream ms r \<and> ms \<noteq> 0"
  let ?b = "request_stream_render_row ms False r"
  have len: "length ?b = 24" using request_stream_row_len [of ms False r]
    by (simp add: kRequestStreamRowLen_def)
  show "\<exists>rs'. request_stream_apply_reconfig rs (24 * i) ?b ms = Inr rs'
      \<and> rs' ! i = r\<lparr>rs_queue_size := rs_queue_size (rs ! i),
            rs_rx_wd_info_enable := rs_rx_wd_info_enable (rs ! i),
            rs_rx_safety_measure := rs_rx_safety_measure (rs ! i)\<rparr>"
    using a len request_stream.covered_row [of "24 * i" ?b rs i ms]
      request_stream_parse_old [of ms r "rs ! i"] row_in_table [of i "length rs" 24]
    by (simp add: request_stream_apply_reconfig_def kRequestStreamRowLen_def kMaxEntries_def
        request_stream_render_rows)
qed

theorem row_write_installs_witness:
  "\<exists>em'. ep_id_map_apply_reconfig
       [\<lparr>em_ep_id = 0, em_byte_bus_id = 0, em_request_stream_index = 1, em_crc_required = False\<rparr>] 0
       (ep_id_map_render_row
         \<lparr>em_ep_id = 7, em_byte_bus_id = 0x123, em_request_stream_index = 2, em_crc_required = True\<rparr>)
     = Inr em' \<and> em' ! 0 =
       \<lparr>em_ep_id = 7, em_byte_bus_id = 0x123, em_request_stream_index = 2, em_crc_required = True\<rparr>"
  using row_write_installs [of 0 "[]"
      "\<lparr>hp_hw_ep_nr = 0, hp_hw_ep_pin_nr = 0, hp_hw_pin_type = 0\<rparr>" "[\<lparr>em_ep_id = 0, em_byte_bus_id = 0,
      em_request_stream_index = 1, em_crc_required = False\<rparr>]"
      "\<lparr>em_ep_id = 7, em_byte_bus_id = 0x123, em_request_stream_index = 2, em_crc_required = True\<rparr>"]
  by (simp add: wf_ep_id_map_def)

text \<open>
  The image of a request stream joins enforcement and safe state in one bit, set only when
  both are on. So every write that succeeds anywhere in the table, even one that touches no
  octet of this row, switches off the sequence enforcement of a row that enforces sequence
  numbers without entering safe state, and likewise its watchdog.
\<close>

theorem unrelated_write_disables_enforcement:
  assumes "request_stream_apply_reconfig rs start data ms = Inr rs'" and "i < length rs"
    and "24 * i + 24 \<le> start \<or> start + length data \<le> 24 * i"
  shows "rs_rx_enforce_seq (rs' ! i) = (rs_rx_enforce_seq (rs ! i) \<and> rs_rx_seq_safestate_enable (rs ! i))
    \<and> rs_rx_wd_enable (rs' ! i) = (rs_rx_wd_enable (rs ! i) \<and> rs_rx_wd_safestate_enable (rs ! i))"
proof -
  have fits: "start + length data \<le> length rs * kRequestStreamRowLen"
    and rs': "rs' = parse_rows kRequestStreamRowLen (request_stream_parse_row ms) rs
      (patch (render_rows (request_stream_render_row ms False) rs) start data)"
    using assms(1) by (auto simp: request_stream_apply_reconfig_def Let_def
        request_stream_render_rows split: if_splits)
  have "rs' ! i = request_stream_parse_row ms (rs ! i) (request_stream_render_row ms False (rs ! i))"
    using request_stream.untouched_row [OF fits assms(2)] assms(3)
    by (simp add: rs' kRequestStreamRowLen_def)
  moreover have "request_stream_render_row ms False e ! 13 =
      (if rs_rx_enforce_e2e e then 0x01 else 0x00) OR
      (if rs_rx_enforce_seq e \<and> rs_rx_seq_safestate_enable e then 0x02 else 0x00) OR
      (if rs_rx_wd_enable e \<and> rs_rx_wd_safestate_enable e then 0x04 else 0x00) OR
      (if rs_rx_ovrflw_safestate_enable e then 0x08 else 0x00) OR 0x00" for e
  proof -
    have W: "length (case wd_timeout_ms_to_ticks (rs_rx_wd_timeout_interval e) ms of
       Some ticks \<Rightarrow> put_u16 ticks | None \<Rightarrow> [0x00, 0x00]) = 2" by (simp split: option.split)
    show ?thesis
      unfolding request_stream_render_row_def Let_def by (simp add: nth_append W)
  qed
  note stream_flags [OF this [of "rs ! i"]]
  ultimately show ?thesis by (simp add: request_stream_parse_row_def Let_def)
qed

definition seq_only_stream :: request_stream_config where
  "seq_only_stream = request_stream_default\<lparr>rs_rx_enforce_seq := True\<rparr>"

theorem unrelated_write_disables_enforcement_witness:
  "rs_rx_enforce_seq seq_only_stream \<and>
   (\<exists>rs'. request_stream_apply_reconfig [seq_only_stream, request_stream_default] 40 [7] 1 = Inr rs'
      \<and> \<not> rs_rx_enforce_seq (rs' ! 0))"
proof -
  obtain rs' where rs': "request_stream_apply_reconfig [seq_only_stream, request_stream_default] 40 [7] 1
      = Inr rs'"
    by (simp add: request_stream_apply_reconfig_def kMaxEntries_def kRequestStreamRowLen_def)
  from unrelated_write_disables_enforcement [OF rs', of 0] rs' show ?thesis
    by (simp add: seq_only_stream_def request_stream_default_def)
qed

lemma fold_update_rows:
  "fold (\<lambda>i es. es[i := f i (es ! i)]) [a..<b] es =
     map (\<lambda>i. if a \<le> i \<and> i < b then f i (es ! i) else es ! i) [0..<length es]"
proof (induction b)
  case 0
  show ?case by (simp add: map_nth)
next
  case (Suc b)
  then show ?case
    by (cases "a \<le> b") (auto intro!: nth_equalityI simp: nth_list_update less_Suc_eq)
qed

lemma ep_generic_write_row_keeps:
  "eg_ep_type (ep_generic_write_row ts te data i e) = eg_ep_type e"
  "eg_ep_req_crc_enable (ep_generic_write_row ts te data i e) = eg_ep_req_crc_enable e"
  "eg_ep_ack_crc_enable (ep_generic_write_row ts te data i e) = eg_ep_ack_crc_enable e"
  "eg_ep_response_crc_enable (ep_generic_write_row ts te data i e) = eg_ep_response_crc_enable e"
  "eg_ep_used e \<Longrightarrow> eg_ep_used (ep_generic_write_row ts te data 0 e)"
  by (simp_all add: ep_generic_write_row_def Let_def)

lemma ep_generic_untouched:
  assumes "te \<le> i * 12 \<or> i * 12 + 12 \<le> ts"
  shows "ep_generic_write_row ts te data i e = e"
proof -
  have "covers ts te (i * 12 + k) n = False" if "0 < n" "k + n \<le> 12" for k n
    using assms that by (auto simp: covers_def)
  note this [of 1 1] this [of 2 2] this [of 4 4] this [of 2 8] this [of 2 10]
  then show ?thesis
    by (simp add: ep_generic_write_row_def kEpGenericRowLen_def)
qed

lemma ep_generic_apply_rows:
  assumes "ep_generic_apply_reconfig es start data = Inr es'" and "i < length es"
  shows "length es' = length es"
    and "es' ! i = ep_generic_write_row start (start + length data) data i (es ! i)"
proof -
  let ?te = "start + length data"
  have es': "es' = map (\<lambda>i. if start div 12 \<le> i \<and> i < Suc ((?te - 1) div 12)
      then ep_generic_write_row start ?te data i (es ! i) else es ! i) [0..<length es]"
    and data: "data \<noteq> []"
    using assms(1) by (auto simp: ep_generic_apply_reconfig_def kEpGenericRowLen_def Let_def
        fold_update_rows simp del: upt_Suc split: if_splits)
  show "length es' = length es" by (simp add: es')
  have "ep_generic_write_row start ?te data i e = e"
    if "\<not> (start div 12 \<le> i \<and> i < Suc ((?te - 1) div 12))" for e
  proof (rule ep_generic_untouched)
    have "0 < ?te" using data by simp
    show "?te \<le> i * 12 \<or> i * 12 + 12 \<le> start"
    proof (cases "start div 12 \<le> i")
      case True
      then have "(?te - 1) div 12 < i" using that by simp
      then have "?te - 1 < i * 12" by (simp add: div_less_iff_less_mult)
      then show ?thesis using \<open>0 < ?te\<close> by linarith
    next
      case False
      then have "i < start div 12" by simp
      then have "Suc i * 12 \<le> start" by (metis Suc_leI div_times_less_eq_dividend le_trans mult_le_mono1)
      then show ?thesis by simp
    qed
  qed
  then show "es' ! i = ep_generic_write_row start ?te data i (es ! i)"
    using assms(2) by (simp add: es')
qed

definition wf_ep_generic :: "endpoint_generic_config \<Rightarrow> bool" where
  "wf_ep_generic e \<longleftrightarrow>
     eg_ep_delay_time e \<in> {1, 10, 20, 50} \<and>
     eg_ep_req_storage_size e mod 4 = 0 \<and> eg_ep_req_storage_size e div 4 \<le> 0xFFFF"

lemma storage_size_roundtrip:
  assumes "s mod 4 = 0" "s div 4 \<le> 0xFFFF"
  shows "ep_req_storage_size_octets_to_words s = Some (ucast (s div 4))"
    and "ep_req_storage_size_words_to_octets (ucast (s div 4)) = s"
proof -
  show "ep_req_storage_size_octets_to_words s = Some (ucast (s div 4))"
    using assms by (auto simp: ep_req_storage_size_octets_to_words_def Let_def dest: leD)
  have q: "unat s div 4 \<le> 0xFFFF"
    using assms(2) by (simp add: word_le_nat_alt unat_div)
  have "unat (s mod 4) = 0" by (simp add: assms(1))
  then have m: "unat s mod 4 = 0" by (simp add: unat_mod)
  have "unat (ucast (ucast (s div 4) :: u16) :: u32) = unat s div 4"
    using q by (simp add: unsigned_ucast_eq take_bit_eq_mod unat_div unat_mod)
  moreover have "unat s div 4 * 4 = unat s" using m by presburger
  ultimately have "unat (ucast (ucast (s div 4) :: u16) * 4 :: u32) = unat s"
    using unat_bound [of s] by (simp add: unat_word_ariths)
  then show "ep_req_storage_size_words_to_octets (ucast (s div 4)) = s"
    unfolding ep_req_storage_size_words_to_octets_def by (rule unsigned_word_eqI)
qed

lemma ep_octet1:
  assumes "d \<in> {1, 10, 20, 50}"
  shows "ep_delay_time_reg_to_us (drop_bit 4 ((if u then 0x01 else 0x00) OR push_bit 4
      ((case ep_delay_time_us_to_reg d of Some r \<Rightarrow> r | None \<Rightarrow> 0) AND 0x3)) AND 0x3) = d"
    and "((if u then 0x01 else 0x00) OR push_bit 4
      ((case ep_delay_time_us_to_reg d of Some r \<Rightarrow> r | None \<Rightarrow> 0) AND 0x3)) AND 0x01 \<noteq> (0 :: u8) \<longleftrightarrow> u"
  using assms
  by (auto simp: ep_delay_time_us_to_reg_def ep_delay_time_reg_to_us_def)

text \<open>
  The generic endpoint table is written field by field. A successful write never changes
  an endpoint's type or its CRC switches, never clears EP0's in-use flag, changes nothing of a
  row outside the written octets, however invalid that row is, and writing the image of a valid
  row over another row installs all writable fields of it.
\<close>

theorem ep_generic_write_per_field:
  assumes "ep_generic_apply_reconfig es start data = Inr es'" and "i < length es"
  shows "length es' = length es
    \<and> eg_ep_type (es' ! i) = eg_ep_type (es ! i)
    \<and> eg_ep_req_crc_enable (es' ! i) = eg_ep_req_crc_enable (es ! i)
    \<and> (eg_ep_used (es ! 0) \<longrightarrow> eg_ep_used (es' ! 0))
    \<and> (start + length data \<le> 12 * i \<or> 12 * i + 12 \<le> start \<longrightarrow> es' ! i = es ! i)
    \<and> (start = 12 * i \<and> wf_ep_generic e \<and> data = ep_generic_render_row e \<longrightarrow>
         es' ! i = (es ! i)\<lparr>eg_ep_used := (i = 0 \<or> eg_ep_used e),
           eg_ep_delay_time := eg_ep_delay_time e,
           eg_ep_req_storage_size := eg_ep_req_storage_size e,
           eg_ep_description := eg_ep_description e,
           eg_ep_tx_buffer_size := eg_ep_tx_buffer_size e,
           eg_ep_rx_buffer_size := eg_ep_rx_buffer_size e\<rparr>)"
proof -
  have zero: "0 < length es" using assms(2) by linarith
  note row = ep_generic_apply_rows(2) [OF assms] and row0 = ep_generic_apply_rows(2) [OF assms(1) zero]
  have installs: "es' ! i = (es ! i)\<lparr>eg_ep_used := (i = 0 \<or> eg_ep_used e),
           eg_ep_delay_time := eg_ep_delay_time e,
           eg_ep_req_storage_size := eg_ep_req_storage_size e,
           eg_ep_description := eg_ep_description e,
           eg_ep_tx_buffer_size := eg_ep_tx_buffer_size e,
           eg_ep_rx_buffer_size := eg_ep_rx_buffer_size e\<rparr>"
    if "start = 12 * i" "wf_ep_generic e" "data = ep_generic_render_row e"
  proof -
    define o1 :: u8 where "o1 = (if eg_ep_used e then 0x01 else 0x00) OR push_bit 4
      ((case ep_delay_time_us_to_reg (eg_ep_delay_time e) of Some r \<Rightarrow> r | None \<Rightarrow> 0) AND 0x3)"
    have wf: "eg_ep_delay_time e \<in> {1, 10, 20, 50}" "eg_ep_req_storage_size e mod 4 = 0"
      "eg_ep_req_storage_size e div 4 \<le> 0xFFFF"
      using that(2) by (simp_all add: wf_ep_generic_def)
    note s = storage_size_roundtrip [OF wf(2,3)]
    have data: "data = [eg_ep_type e, o1] @ put_u16 (ucast (eg_ep_req_storage_size e div 4)) @
        put_u32 (eg_ep_description e) @ put_u16 (eg_ep_tx_buffer_size e) @
        put_u16 (eg_ep_rx_buffer_size e) @ []"
      by (simp add: that(3) ep_generic_render_row_def Let_def o1_def s(1))
    have at: "hd (drop (Suc 0) data) = o1" "get_u16 (drop 2 data) = ucast (eg_ep_req_storage_size e div 4)"
      "get_u32 (drop 4 data) = eg_ep_description e" "get_u16 (drop 8 data) = eg_ep_tx_buffer_size e"
      "get_u16 (drop 10 data) = eg_ep_rx_buffer_size e" "length data = 12"
      by (simp_all add: data del: append_Nil2)
    show ?thesis
      unfolding row ep_generic_write_row_def Let_def
      using that(1) ep_octet1 [OF wf(1), of "eg_ep_used e", folded o1_def]
      by (simp add: covers_def kEpGenericRowLen_def at s(2))
  qed
  show ?thesis
    using ep_generic_apply_rows(1) [OF assms] installs row row0
    by (simp add: ep_generic_write_row_keeps ep_generic_untouched)
qed

definition sample_generic :: endpoint_generic_config where
  "sample_generic = \<lparr>eg_ep_type = 3, eg_ep_used = True, eg_ep_delay_time = 7,
     eg_ep_req_storage_size = 5, eg_ep_description = 0, eg_ep_tx_buffer_size = 1,
     eg_ep_rx_buffer_size = 2, eg_ep_req_crc_enable = True, eg_ep_ack_crc_enable = False,
     eg_ep_response_crc_enable = False\<rparr>"

theorem ep_generic_write_per_field_witness:
  "\<exists>es'. ep_generic_apply_reconfig [sample_generic, sample_generic] 13 [0] = Inr es'
     \<and> es' ! 0 = sample_generic"
proof -
  obtain es' where "ep_generic_apply_reconfig [sample_generic, sample_generic] 13 [0] = Inr es'"
    by (simp add: ep_generic_apply_reconfig_def kEpGenericRowLen_def)
  with ep_generic_write_per_field [OF this, of 0 sample_generic] show ?thesis by simp
qed

text \<open>
  The identifiers listed for a stream are exactly the byte-bus addresses the map binds to
  it, each once, in order; the number returned counts them all even when the caller's array is
  too small, and an address is listed iff the map accepts its association with the stream.
\<close>

definition stream_ids :: "ep_id_mapping_entry list \<Rightarrow> u8 \<Rightarrow> u16 list" where
  "stream_ids es s = map em_byte_bus_id (filter (\<lambda>e. em_request_stream_index e = s) es)"

lemma byte_bus_ids_loop:
  assumes "n \<le> length es"
  shows "\<exists>ids. distinct ids \<and> set ids = set (stream_ids (take n es) s) \<and>
    fold (\<lambda>i (out, found).
         if em_request_stream_index (es ! i) \<noteq> s then (out, found)
         else
           (let already_written = list_ex (\<lambda>j. em_request_stream_index (es ! j) = s \<and>
                  em_byte_bus_id (es ! j) = em_byte_bus_id (es ! i)) [0..<i]
            in if already_written then (out, found)
               else ((if found < cap then out @ [em_byte_bus_id (es ! i)] else out), found + 1)))
       [0..<n] ([], 0) = (take cap ids, length ids)"
  using assms
proof (induction n)
  case 0
  show ?case by (simp add: stream_ids_def)
next
  case (Suc n)
  then obtain ids where ids: "distinct ids" "set ids = set (stream_ids (take n es) s)"
    "fold (\<lambda>i (out, found).
         if em_request_stream_index (es ! i) \<noteq> s then (out, found)
         else
           (let already_written = list_ex (\<lambda>j. em_request_stream_index (es ! j) = s \<and>
                  em_byte_bus_id (es ! j) = em_byte_bus_id (es ! i)) [0..<i]
            in if already_written then (out, found)
               else ((if found < cap then out @ [em_byte_bus_id (es ! i)] else out), found + 1)))
       [0..<n] ([], 0) = (take cap ids, length ids)"
    by auto
  have n: "n < length es" using Suc.prems by simp
  let ?b = "em_byte_bus_id (es ! n)"
  have seen: "list_ex (\<lambda>j. em_request_stream_index (es ! j) = s \<and> em_byte_bus_id (es ! j) = ?b) [0..<n]
      \<longleftrightarrow> ?b \<in> set ids"
    using n by (auto simp: ids(2) list_ex_iff stream_ids_def in_set_conv_nth image_iff)
       (metis nth_take length_take min.absorb2 less_imp_le nth_mem in_set_conv_nth)+
  show ?case
  proof (cases "em_request_stream_index (es ! n) = s \<and> ?b \<notin> set ids")
    case True
    then show ?thesis
      using ids seen n by (intro exI [of _ "ids @ [?b]"]) (auto simp: take_Suc_conv_app_nth stream_ids_def)
  next
    case False
    then show ?thesis
      using ids seen n by (intro exI [of _ ids]) (auto simp: take_Suc_conv_app_nth stream_ids_def)
  qed
qed

theorem byte_bus_ids_exact:
  "\<exists>ids. byte_bus_ids_for_stream es s cap = (take cap ids, length ids) \<and> distinct ids
     \<and> (\<forall>b. b \<in> set ids \<longleftrightarrow> is_valid_association es s b)"
proof -
  obtain ids where "distinct ids" "set ids = set (stream_ids es s)"
    "byte_bus_ids_for_stream es s cap = (take cap ids, length ids)"
    using byte_bus_ids_loop [of "length es" es s cap] by (auto simp: byte_bus_ids_for_stream_def)
  then show ?thesis
    by (intro exI [of _ ids]) (auto simp: is_valid_association_def list_ex_iff stream_ids_def)
qed

end
