(* ===== verification/E2e.thy ===== *)
theory E2e
  imports Ledger Regmap
begin

text \<open>
  End-to-end protection, \<open>include/rcp/e2e.hpp\<close>: the CRC and what it covers, the protected
  form of a message, and the receiver's guards (CRC latch, fault tracker, stream status,
  sequence numbers, watchdog and safe state).
\<close>

section \<open>The CRC\<close>

definition kCrc32PolyNormal :: u32 where "kCrc32PolyNormal = 0xF4ACFB13"

definition reflect32 :: "u32 \<Rightarrow> u32" where
  "reflect32 v =
     fst (fold (\<lambda>_ (r, v). (push_bit 1 r OR (v AND 1), drop_bit 1 v)) [0..<32] (0, v))"

definition crc32_reflected_poly :: u32 where
  "crc32_reflected_poly = reflect32 kCrc32PolyNormal"

definition crc32_step :: "u32 \<Rightarrow> u32" where
  "crc32_step crc =
     (if crc AND 1 \<noteq> 0 then drop_bit 1 crc XOR crc32_reflected_poly else drop_bit 1 crc)"

definition crc32_update :: "u32 \<Rightarrow> u8 \<Rightarrow> u32" where
  "crc32_update crc byte_in = fold (\<lambda>_. crc32_step) [0..<8] (crc XOR ucast byte_in)"

definition crc32 :: "octets \<Rightarrow> u32" where
  "crc32 data = fold (\<lambda>b crc. crc32_update crc b) data 0xFFFFFFFF XOR 0xFFFFFFFF"

definition wire_error_code_of :: "e2e_errc \<Rightarrow> int option" where
  "wire_error_code_of e = (case e of Crc_error \<Rightarrow> Some 12 | _ \<Rightarrow> None)"

text \<open>
  The reflected polynomial has its top bit set, so one step of the shift register is
  injective: the bit shifted out can be read off the top of the result.
\<close>

lemma reflected_poly: "crc32_reflected_poly = 0xC8DF352F"
  by (simp add: crc32_reflected_poly_def reflect32_def kCrc32PolyNormal_def upt_rec)

lemma crc32_step_eq:
  "crc32_step c = drop_bit 1 c XOR (if bit c 0 then crc32_reflected_poly else 0)"
proof -
  have "c AND 1 \<noteq> 0 \<longleftrightarrow> bit c 0"
    by (simp add: and_one_eq bit_0 odd_iff_mod_2_eq_one)
  then show ?thesis by (simp add: crc32_step_def)
qed

lemma crc32_step_xor: "crc32_step (a XOR b) = crc32_step a XOR crc32_step b"
  by (rule bit_eqI) (auto simp: crc32_step_eq bit_simps)

lemma xor_cancel: "a XOR c = b XOR c \<longleftrightarrow> a = b" "c XOR a = c XOR b \<longleftrightarrow> a = b" for a b c :: u32
  by (auto simp: bit_eq_iff bit_simps)

lemma crc32_step_inj: "crc32_step a = crc32_step b \<Longrightarrow> a = b"
proof -
  have top: "bit (crc32_step c) 31 = bit c 0" for c
    by (simp add: crc32_step_eq reflected_poly bit_simps)
  assume eq: "crc32_step a = crc32_step b"
  then have low: "bit a 0 = bit b 0" using top by metis
  with eq have drop: "drop_bit 1 a = drop_bit 1 b"
    by (simp add: crc32_step_eq xor_cancel)
  show "a = b"
  proof (rule bit_eqI)
    fix n
    show "bit a n = bit b n"
    proof (cases n)
      case 0
      then show ?thesis using low by simp
    next
      case (Suc m)
      then show ?thesis using drop by (metis bit_drop_bit_eq comp_apply plus_1_eq_Suc)
    qed
  qed
qed

lemma fold_steps: "fold (\<lambda>_. f) [0..<n] x = (f ^^ n) x"
  by (induction n) simp_all

lemma crc32_update_steps: "crc32_update crc b = (crc32_step ^^ 8) (crc XOR ucast b)"
  unfolding crc32_update_def by (rule fold_steps)

lemma steps_xor: "(crc32_step ^^ n) (a XOR b) = (crc32_step ^^ n) a XOR (crc32_step ^^ n) b"
  by (induction n) (simp_all add: crc32_step_xor)

lemma steps_inj: "(crc32_step ^^ n) a = (crc32_step ^^ n) b \<Longrightarrow> a = b"
  by (induction n) (auto dest: crc32_step_inj)

lemma steps_push:
  "k \<le> 32 \<Longrightarrow> (crc32_step ^^ k) (push_bit k d) = take_bit (32 - k) d"
proof (induction k arbitrary: d)
  case 0
  show ?case by (rule bit_eqI) (auto simp: bit_simps)
next
  case (Suc k)
  have "crc32_step (push_bit (Suc k) d) = push_bit k (take_bit (32 - Suc k) d)"
    using Suc.prems by (intro bit_eqI) (auto simp: crc32_step_eq bit_simps simp del: push_bit_Suc)
  then have "(crc32_step ^^ Suc k) (push_bit (Suc k) d) = take_bit (32 - k) (take_bit (32 - Suc k) d)"
    using Suc by (simp add: funpow_swap1 del: push_bit_Suc)
  then show ?case using Suc.prems by (simp add: min_def)
qed

text \<open>The octets of a burst, read as a little-endian number.\<close>

fun burst :: "octets \<Rightarrow> u32" where
  "burst [] = 0"
| "burst (b # bs) = ucast b XOR push_bit 8 (burst bs)"

lemma burst_bits: "bit (burst bs) n \<Longrightarrow> n < 8 * length bs"
proof (induction bs arbitrary: n)
  case (Cons b bs)
  show ?case
  proof (cases "n < 8")
    case False
    then have "bit (burst bs) (n - 8)" using Cons.prems by (auto simp: bit_simps)
    then have "n - 8 < 8 * length bs" by (rule Cons.IH)
    then show ?thesis by simp
  qed simp
qed simp

lemma burst_fits: "length bs \<le> 3 \<Longrightarrow> take_bit 24 (burst bs) = burst bs"
  by (rule bit_eqI) (auto simp: bit_simps dest: burst_bits)

lemma burst_inject:
  "length bs = length cs \<Longrightarrow> length bs \<le> 4 \<Longrightarrow> burst bs = burst cs \<Longrightarrow> bs = cs"
proof (induction bs cs rule: list_induct2)
  case (Cons b bs c cs)
  have low: "bit b n = bit c n" if "n < 8" for n
    using arg_cong [OF Cons.prems(2), of "\<lambda>w. bit w n"] that by (simp add: bit_simps)
  have high: "bit (burst bs) n = bit (burst cs) n" if "n < 24" for n
    using arg_cong [OF Cons.prems(2), of "\<lambda>w. bit w (n + 8)"] that by (simp add: bit_simps)
  have "take_bit 24 (burst bs) = burst bs" "take_bit 24 (burst cs) = burst cs"
    using Cons.hyps Cons.prems(1) by (simp_all add: burst_fits)
  then have "burst bs = burst cs"
    using high by (metis bit_eqI bit_take_bit_iff)
  moreover have "b = c" by (rule bit_eqI) (use low in auto)
  ultimately show ?case using Cons by simp
qed simp

lemma fold_update_burst:
  "length bs \<le> 4 \<Longrightarrow> fold (\<lambda>b crc. crc32_update crc b) bs crc
     = (crc32_step ^^ (8 * length bs)) (crc XOR burst bs)"
proof (induction bs arbitrary: crc)
  case (Cons b bs)
  have fits: "take_bit 24 (burst bs) = burst bs"
    using Cons.prems by (simp add: burst_fits)
  have "(crc32_step ^^ 8) (crc XOR burst (b # bs))
      = (crc32_step ^^ 8) (crc XOR ucast b) XOR (crc32_step ^^ 8) (push_bit 8 (burst bs))"
    by (simp add: steps_xor [symmetric] xor.assoc)
  also have "\<dots> = crc32_update crc b XOR burst bs"
    by (simp add: crc32_update_steps steps_push fits)
  finally have "crc32_update crc b XOR burst bs = (crc32_step ^^ 8) (crc XOR burst (b # bs))" ..
  moreover have "crc32_step ^^ (8 * length (b # bs)) = (crc32_step ^^ (8 * length bs)) \<circ> (crc32_step ^^ 8)"
    by (simp add: funpow_add [symmetric] add.commute)
  ultimately show ?case using Cons by simp
qed simp

lemma fold_update_inj:
  "fold (\<lambda>b crc. crc32_update crc b) bs x = fold (\<lambda>b crc. crc32_update crc b) bs y \<Longrightarrow> x = y"
proof (induction bs arbitrary: x y)
  case (Cons b bs)
  then have "crc32_update x b = crc32_update y b" by simp
  then have "x XOR ucast b = y XOR ucast b"
    unfolding crc32_update_steps by (rule steps_inj)
  then show ?case by (simp add: xor_cancel)
qed simp

text \<open>Two messages that differ only within four consecutive octets have different CRCs.\<close>

lemma crc32_burst:
  assumes "length mid = length mid'" "length mid \<le> 4" "mid \<noteq> mid'"
  shows "crc32 (pre @ mid @ suf) \<noteq> crc32 (pre @ mid' @ suf)"
proof
  let ?upd = "\<lambda>bs. fold (\<lambda>b crc. crc32_update crc b) bs"
  assume "crc32 (pre @ mid @ suf) = crc32 (pre @ mid' @ suf)"
  then have "?upd (pre @ mid @ suf) 0xFFFFFFFF = ?upd (pre @ mid' @ suf) 0xFFFFFFFF"
    by (simp only: crc32_def xor_cancel)
  then have "?upd mid (?upd pre 0xFFFFFFFF) = ?upd mid' (?upd pre 0xFFFFFFFF)"
    by (auto dest: fold_update_inj)
  then have "burst mid = burst mid'"
    using assms(1,2) by (auto simp: fold_update_burst xor_cancel dest: steps_inj)
  then show False using burst_inject assms by blast
qed

section \<open>Length adjustments\<close>

definition kCrcLengthAdjustQuadlets :: u16 where "kCrcLengthAdjustQuadlets = 1"

definition kCrcLengthAdjustOctets :: nat where [wire_defs]: "kCrcLengthAdjustOctets = 4"

definition apply_acf_length_adjustment :: "acf_info \<Rightarrow> acf_info" where
  "apply_acf_length_adjustment info =
     info\<lparr>a_msg_length := a_msg_length info + kCrcLengthAdjustQuadlets\<rparr>"

text \<open>\<open>apply_frame_length_adjustment\<close> is a template over the two AVTPDU headers.\<close>

definition adjust_ntscf_length :: "ntscf_header \<Rightarrow> ntscf_header" where
  "adjust_ntscf_length hdr =
     hdr\<lparr>n_control_data_length := n_control_data_length hdr + of_nat kCrcLengthAdjustOctets\<rparr>"

definition adjust_tscf_length :: "tscf_header \<Rightarrow> tscf_header" where
  "adjust_tscf_length hdr =
     hdr\<lparr>t_control_data_length := t_control_data_length hdr + of_nat kCrcLengthAdjustOctets\<rparr>"

definition length_with_crc :: "nat \<Rightarrow> nat" where
  "length_with_crc payload_len =
     (if size_max - kCrcLengthAdjustOctets < payload_len then size_max
      else payload_len + kCrcLengthAdjustOctets)"

definition data_length_for_protected_members :: "nat \<Rightarrow> nat" where
  "data_length_for_protected_members protected_member_count =
     (if size_max div kCrcLengthAdjustOctets < protected_member_count then size_max
      else protected_member_count * kCrcLengthAdjustOctets)"

section \<open>Coverage\<close>

definition value_or :: "'a option \<Rightarrow> 'a \<Rightarrow> 'a" where
  "value_or x d = (case x of None \<Rightarrow> d | Some v \<Rightarrow> v)"

definition coverage_buffer ::
    "u8 \<Rightarrow> u8 \<Rightarrow> bool \<Rightarrow> stream_id \<Rightarrow> u32 option \<Rightarrow> acf_info \<Rightarrow> u64 option \<Rightarrow> octets \<Rightarrow> octets" where
  "coverage_buffer avtp_subtype header_octet1 tu sid avtp_timestamp info message_timestamp payload =
     (let is_gbb = (a_msg_type info = kAcfMsgTypeGbb)
      in [avtp_subtype, header_octet1, if tu then 0x01 else 0x00] @
         put_u64 (to_u64 sid) @ put_u32 (value_or avtp_timestamp 0) @
         (if is_gbb then encode_acf_gbb_message_info info (value_or message_timestamp 0)
          else encode_acf_message_info info) @
         payload)"

definition compute_crc ::
    "u8 \<Rightarrow> u8 \<Rightarrow> bool \<Rightarrow> stream_id \<Rightarrow> u32 option \<Rightarrow> acf_info \<Rightarrow> u64 option \<Rightarrow> octets \<Rightarrow> u32" where
  "compute_crc avtp_subtype header_octet1 tu sid avtp_timestamp info message_timestamp payload =
     crc32 (coverage_buffer avtp_subtype header_octet1 tu sid avtp_timestamp info
       message_timestamp payload)"

definition compute_crc_framed ::
    "bool \<Rightarrow> u8 \<Rightarrow> stream_id \<Rightarrow> bool \<Rightarrow> u32 option \<Rightarrow> acf_info \<Rightarrow> u64 option \<Rightarrow> octets \<Rightarrow> u32" where
  "compute_crc_framed is_ntscf_framed header_octet1 sid tu avtp_timestamp info message_timestamp payload =
     (let subtype = (if is_ntscf_framed then kSubtypeNtscf else kSubtypeTscf)
      in compute_crc subtype header_octet1 (if is_ntscf_framed then False else tu) sid
           (if is_ntscf_framed then None else avtp_timestamp) info message_timestamp payload)"

definition append_crc :: "octets \<Rightarrow> u32 \<Rightarrow> octets" where
  "append_crc frame crc = frame @ put_u32 crc"

definition verify_crc ::
    "u8 \<Rightarrow> u8 \<Rightarrow> bool \<Rightarrow> stream_id \<Rightarrow> u32 option \<Rightarrow> acf_info \<Rightarrow> u64 option \<Rightarrow> octets \<Rightarrow> u32 \<Rightarrow>
     error option" where
  "verify_crc avtp_subtype header_octet1 tu sid avtp_timestamp info message_timestamp payload received_crc =
     (if compute_crc avtp_subtype header_octet1 tu sid avtp_timestamp info message_timestamp payload
           \<noteq> received_crc
      then Some (E2e_err Crc_error) else None)"

definition verify_crc_framed ::
    "bool \<Rightarrow> u8 \<Rightarrow> stream_id \<Rightarrow> bool \<Rightarrow> u32 option \<Rightarrow> acf_info \<Rightarrow> u64 option \<Rightarrow> octets \<Rightarrow> u32 \<Rightarrow>
     error option" where
  "verify_crc_framed is_ntscf_framed header_octet1 sid tu avtp_timestamp info message_timestamp payload
     received_crc =
     (if compute_crc_framed is_ntscf_framed header_octet1 sid tu avtp_timestamp info message_timestamp
           payload \<noteq> received_crc
      then Some (E2e_err Crc_error) else None)"

section \<open>Protected messages\<close>

definition wrap ::
    "u8 \<Rightarrow> u8 \<Rightarrow> bool \<Rightarrow> stream_id \<Rightarrow> u32 option \<Rightarrow> acf_info \<Rightarrow> u64 option \<Rightarrow> octets \<Rightarrow> octets" where
  "wrap avtp_subtype header_octet1 tu sid avtp_timestamp info message_timestamp payload =
     (let pad_octets = unat (a_pad info) in
      if length payload < pad_octets then []
      else
        (let real_len = length payload - pad_octets;
             real_payload = take real_len payload;
             info = fill_length info (length real_payload);
             info = apply_acf_length_adjustment info;
             crc = compute_crc avtp_subtype header_octet1 tu sid avtp_timestamp info
               message_timestamp real_payload;
             out = (if a_msg_type info = kAcfMsgTypeGbb
               then encode_acf_gbb info (value_or message_timestamp 0) real_payload
               else encode_acf_abb info real_payload)
         in append_crc out crc @ drop real_len payload))"

definition wrap_framed ::
    "bool \<Rightarrow> u8 \<Rightarrow> bool \<Rightarrow> stream_id \<Rightarrow> u32 option \<Rightarrow> acf_info \<Rightarrow> u64 option \<Rightarrow> octets \<Rightarrow> octets" where
  "wrap_framed is_ntscf_framed header_octet1 tu sid avtp_timestamp info message_timestamp payload =
     (let subtype = (if is_ntscf_framed then kSubtypeNtscf else kSubtypeTscf)
      in wrap subtype header_octet1 (if is_ntscf_framed then False else tu) sid
           (if is_ntscf_framed then None else avtp_timestamp) info message_timestamp payload)"

text \<open>\<open>UnwrapResult\<close>: the error, if any, and the message without its CRC.\<close>

definition unwrap ::
    "u8 \<Rightarrow> u8 \<Rightarrow> bool \<Rightarrow> stream_id \<Rightarrow> u32 option \<Rightarrow> octets \<Rightarrow> error option \<times> octets" where
  "unwrap avtp_subtype header_octet1 tu sid avtp_timestamp frame =
     (if length frame < kAcfCommonHeaderLen then (Some (E2e_err Short_frame), [])
      else
        (let peek = decode_acf_message_info frame;
             is_gbb = (a_msg_type peek = kAcfMsgTypeGbb);
             header_len = (if is_gbb then kAcfGbbMessageInfoLen else kAcfCommonHeaderLen);
             pad_octets = unat (a_pad peek)
         in
         if length frame < header_len + kCrcLengthAdjustOctets + pad_octets
         then (Some (E2e_err Short_frame), [])
         else
           (let real_len = length frame - kCrcLengthAdjustOctets - pad_octets;
                (info, message_timestamp) =
                  (if is_gbb then decode_acf_gbb_message_info frame
                   else (decode_acf_message_info frame, 0));
                ts_opt = (if is_gbb then Some message_timestamp else None);
                real_payload = drop header_len (take real_len frame);
                got = get_u32 (drop real_len frame);
                want = compute_crc avtp_subtype header_octet1 tu sid avtp_timestamp info ts_opt
                  real_payload;
                info = info\<lparr>a_msg_length := a_msg_length info - kCrcLengthAdjustQuadlets\<rparr>;
                header = (if is_gbb then encode_acf_gbb_message_info info message_timestamp
                          else encode_acf_message_info info);
                body = header @ real_payload @ drop (real_len + kCrcLengthAdjustOctets) frame;
                ec = (if got = want then None else Some (E2e_err Crc_error))
            in (ec, body))))"

definition unwrap_framed ::
    "bool \<Rightarrow> u8 \<Rightarrow> bool \<Rightarrow> stream_id \<Rightarrow> u32 option \<Rightarrow> octets \<Rightarrow> error option \<times> octets" where
  "unwrap_framed is_ntscf_framed header_octet1 tu sid avtp_timestamp frame =
     (let subtype = (if is_ntscf_framed then kSubtypeNtscf else kSubtypeTscf)
      in unwrap subtype header_octet1 (if is_ntscf_framed then False else tu) sid
           (if is_ntscf_framed then None else avtp_timestamp) frame)"

definition fragment_carries_crc :: "bool \<Rightarrow> bool" where
  "fragment_carries_crc is_last_fragment = is_last_fragment"

definition compute_fragmented_crc ::
    "u8 \<Rightarrow> u8 \<Rightarrow> bool \<Rightarrow> stream_id \<Rightarrow> u32 option \<Rightarrow> octets \<Rightarrow> octets \<Rightarrow> u32" where
  "compute_fragmented_crc avtp_subtype header_octet1 tu sid avtp_timestamp first_fragment_header
     reassembled_payload =
     crc32 ([avtp_subtype, header_octet1, if tu then 0x01 else 0x00] @ put_u64 (to_u64 sid) @
       put_u32 (value_or avtp_timestamp 0) @ first_fragment_header @ reassembled_payload)"

text \<open>
  The shape of a protected frame: header, payload, CRC, padding. \<open>protectable\<close> says when
  \<open>wrap\<close> produces one the receiver can undo: the message is an ACF_GBB message or an ACF_ABB
  message without the timestamp flag, its padding is at most three octets and part of the
  payload, and one more quadlet still fits the nine-bit length field.
\<close>

definition wrapped_info :: "acf_info \<Rightarrow> octets \<Rightarrow> acf_info" where
  "wrapped_info info payload =
     apply_acf_length_adjustment (fill_length info (length payload - unat (a_pad info)))"

definition protectable :: "acf_info \<Rightarrow> octets \<Rightarrow> bool" where
  "protectable info payload \<longleftrightarrow>
     (a_msg_type info = kAcfMsgTypeGbb \<or> a_msg_type info = kAcfMsgTypeAbb \<and> \<not> a_mtv info) \<and>
     a_pad info < 4 \<and> unat (a_pad info) \<le> length payload \<and>
     a_msg_length (fill_length info (length payload - unat (a_pad info))) < 0x1FF"

definition wire_header :: "acf_info \<Rightarrow> u64 \<Rightarrow> octets" where
  "wire_header info ts =
     (if a_msg_type info = kAcfMsgTypeGbb then encode_acf_gbb_message_info info ts
      else encode_acf_message_info info)"

lemma wire_header_length:
  "length (wire_header info ts) =
     (if a_msg_type info = kAcfMsgTypeGbb then kAcfGbbMessageInfoLen else kAcfCommonHeaderLen)"
  by (simp add: wire_header_def wire_defs)

lemma wrapped_info_simps [simp]:
  "a_msg_type (wrapped_info info payload) = a_msg_type info"
  "a_mtv (wrapped_info info payload) = a_mtv info"
  "a_pad (wrapped_info info payload) = a_pad info"
  by (simp_all add: wrapped_info_def apply_acf_length_adjustment_def)

lemma wrap_shape:
  assumes "protectable info payload"
  defines "n \<equiv> length payload - unat (a_pad info)" and "i \<equiv> wrapped_info info payload"
  shows "wrap st o1 tu sid ats info mts payload =
    wire_header i (value_or mts 0) @ take n payload @
    put_u32 (compute_crc st o1 tu sid ats i mts (take n payload)) @ drop n payload"
proof -
  have "a_msg_length (fill_length info n) < 0x1FF"
    using assms by (simp add: protectable_def)
  then have "a_msg_length i \<noteq> 0"
    unfolding i_def wrapped_info_def apply_acf_length_adjustment_def n_def [symmetric]
      kCrcLengthAdjustQuadlets_def
    by (auto simp: word_less_nat_alt unat_eq_0 [symmetric] unat_word_ariths)
  then have fill: "fill_length i k = i" for k by (simp add: fill_length_def)
  have pad: "unat (a_pad info) \<le> length payload" "length (take n payload) = n"
    using assms(1) by (simp_all add: protectable_def n_def)
  have i: "apply_acf_length_adjustment (fill_length info n) = i"
    by (simp add: i_def wrapped_info_def n_def)
  have "wrap st o1 tu sid ats info mts payload =
      (if a_msg_type i = kAcfMsgTypeGbb then encode_acf_gbb i (value_or mts 0) (take n payload)
       else encode_acf_abb i (take n payload)) @
      put_u32 (compute_crc st o1 tu sid ats i mts (take n payload)) @ drop n payload"
    using pad by (simp add: wrap_def Let_def append_crc_def n_def [symmetric] i leD)
  moreover have "encode_acf_gbb i ts p = wire_header i ts @ p" if "a_msg_type i = kAcfMsgTypeGbb" for ts p
  proof -
    have "i\<lparr>a_msg_type := kAcfMsgTypeGbb\<rparr> = i" using that by simp
    then show ?thesis
      unfolding encode_acf_gbb_def Let_def by (simp only: fill wire_header_def that if_True simp_thms)
  qed
  moreover have "encode_acf_abb i p = wire_header i ts @ p" if "a_msg_type i \<noteq> kAcfMsgTypeGbb" for ts p
  proof -
    have "a_msg_type i = kAcfMsgTypeAbb" "\<not> a_mtv i"
      using that assms(1) by (auto simp: protectable_def i_def)
    then have "i\<lparr>a_msg_type := kAcfMsgTypeAbb, a_mtv := False\<rparr> = i" by (cases i) simp
    then show ?thesis
      unfolding encode_acf_abb_def Let_def by (simp only: fill wire_header_def that if_False simp_thms)
  qed
  ultimately show ?thesis by simp
qed

definition crc_prefix :: "u8 \<Rightarrow> u8 \<Rightarrow> bool \<Rightarrow> stream_id \<Rightarrow> u32 option \<Rightarrow> octets" where
  "crc_prefix st o1 tu sid ats =
     [st, o1, if tu then 0x01 else 0x00] @ put_u64 (to_u64 sid) @ put_u32 (value_or ats 0)"

lemma compute_crc_eq:
  "compute_crc st o1 tu sid ats i mts pl = crc32 (crc_prefix st o1 tu sid ats @ wire_header i (value_or mts 0) @ pl)"
  by (simp add: compute_crc_def coverage_buffer_def crc_prefix_def wire_header_def Let_def)

lemma wire_header_mask:
  assumes "a_msg_type i = kAcfMsgTypeGbb \<or> a_msg_type i = kAcfMsgTypeAbb"
  shows "wire_header (mask_info i) ts = wire_header i ts"
    and "a_msg_type (mask_info i) = a_msg_type i"
proof -
  show "a_msg_type (mask_info i) = a_msg_type i"
    using assms by (auto simp: mask_info_def wire_defs)
  then show "wire_header (mask_info i) ts = wire_header i ts"
    by (simp add: wire_header_def encode_acf_gbb_message_info_def encode_mask_info)
qed

lemma decode_wire_header:
  "decode_acf_message_info (wire_header i ts @ r) = mask_info i"
  "a_msg_type i = kAcfMsgTypeGbb \<Longrightarrow>
     decode_acf_gbb_message_info (wire_header i ts @ r) = (mask_info i, ts)"
proof -
  show "decode_acf_message_info (wire_header i ts @ r) = mask_info i"
    by (simp add: wire_header_def encode_acf_gbb_message_info_def)
  show "a_msg_type i = kAcfMsgTypeGbb \<Longrightarrow>
      decode_acf_gbb_message_info (wire_header i ts @ r) = (mask_info i, ts)"
    by (simp add: wire_header_def)
qed

lemma unwrap_shape:
  assumes type: "a_msg_type i = kAcfMsgTypeGbb \<or> a_msg_type i = kAcfMsgTypeAbb"
    and pad: "a_pad i < 4" "length padding = unat (a_pad i)"
    and ts: "a_msg_type i = kAcfMsgTypeAbb \<Longrightarrow> ts = 0"
  shows "unwrap st o1 tu sid ats (wire_header i ts @ pl @ put_u32 crc @ padding) =
    (if crc = crc32 (crc_prefix st o1 tu sid ats @ wire_header i ts @ pl) then None
     else Some (E2e_err Crc_error),
     wire_header ((mask_info i)\<lparr>a_msg_length := a_msg_length (mask_info i) - 1\<rparr>) ts @ pl @ padding)"
proof -
  let ?f = "wire_header i ts @ pl @ put_u32 crc @ padding"
  define hl where "hl = (if a_msg_type i = kAcfMsgTypeGbb then kAcfGbbMessageInfoLen else kAcfCommonHeaderLen)"
  have hl: "length (wire_header i ts) = hl" "kAcfCommonHeaderLen \<le> hl"
    by (simp_all add: wire_header_length hl_def wire_defs)
  have peek: "decode_acf_message_info ?f = mask_info i" by (rule decode_wire_header)
  have type': "a_msg_type (mask_info i) = a_msg_type i" using wire_header_mask type by blast
  have pad': "a_pad (mask_info i) = a_pad i"
    using pad(1) by (simp add: mask_info_def masked_field)
  define rl where "rl = length ?f - kCrcLengthAdjustOctets - unat (a_pad i)"
  have rl: "rl = hl + length pl"
    by (simp add: rl_def hl pad(2) wire_defs)
  have parts: "drop hl (take rl ?f) = pl" "get_u32 (drop rl ?f) = crc"
    "drop (rl + kCrcLengthAdjustOctets) ?f = padding"
    by (simp_all add: rl hl(1) [symmetric] wire_defs)
  have ne: "kAcfMsgTypeAbb \<noteq> kAcfMsgTypeGbb" by (simp add: wire_defs)
  have dec: "(if a_msg_type i = kAcfMsgTypeGbb then decode_acf_gbb_message_info ?f
      else (mask_info i, 0)) = (mask_info i, ts)"
    using type ts ne by (auto simp: decode_wire_header)
  have want: "compute_crc st o1 tu sid ats (mask_info i)
      (if a_msg_type i = kAcfMsgTypeGbb then Some ts else None) pl
      = crc32 (crc_prefix st o1 tu sid ats @ wire_header i ts @ pl)"
    using type ts ne by (auto simp: compute_crc_eq wire_header_mask value_or_def)
  have long: "\<not> length ?f < kAcfCommonHeaderLen" "\<not> length ?f < hl + kCrcLengthAdjustOctets + unat (a_pad i)"
    using hl by (simp_all add: pad(2) wire_defs)
  show ?thesis
    unfolding unwrap_def Let_def peek type' pad' hl_def [symmetric] rl_def [symmetric]
    by (simp only: long if_False dec prod.case want parts)
       (simp add: wire_header_def type' kCrcLengthAdjustQuadlets_def)
qed

lemma put_get_u32: "put_u32 (get_u32 [a, b, c, d]) = [a, b, c, d]"
  by (simp add: get_u32_def put_u32_def bits)

text \<open>The protected message without its CRC, and the receiver's view of a protected frame.\<close>

definition plain_message :: "acf_info \<Rightarrow> u64 option \<Rightarrow> octets \<Rightarrow> octets" where
  "plain_message info mts payload =
     wire_header (fill_length info (length payload - unat (a_pad info))) (value_or mts 0) @ payload"

lemma fill_pad [simp]: "a_pad (fill_length info n) = a_pad info"
  by (simp add: fill_length_def)

lemma restored_header:
  assumes "protectable info payload"
  defines "j \<equiv> fill_length info (length payload - unat (a_pad info))"
    and "i \<equiv> wrapped_info info payload"
  shows "wire_header ((mask_info i)\<lparr>a_msg_length := a_msg_length (mask_info i) - 1\<rparr>) ts = wire_header j ts"
proof -
  have i: "i = j\<lparr>a_msg_length := a_msg_length j + 1\<rparr>"
    by (simp add: i_def j_def wrapped_info_def apply_acf_length_adjustment_def kCrcLengthAdjustQuadlets_def)
  have small: "a_msg_length j < 0x1FF" using assms(1) by (simp add: protectable_def j_def)
  then have "a_msg_length j + 1 < 0x200"
    by (auto simp: word_less_nat_alt unat_word_ariths)
  then have "(a_msg_length j + 1) AND 0x1FF = a_msg_length j + 1" by (simp add: masked_field)
  moreover have "a_msg_length j AND 0x1FF = a_msg_length j"
    using small by (intro masked_field) (simp add: word_less_nat_alt)
  ultimately have "(mask_info i)\<lparr>a_msg_length := a_msg_length (mask_info i) - 1\<rparr> = mask_info j"
    by (simp add: i mask_info_def)
  then show ?thesis
    using wire_header_mask(1) [of j ts] assms(1) by (auto simp: protectable_def j_def)
qed

lemma unwrap_protected:
  fixes mts :: "u64 option"
  assumes "protectable info payload"
  defines "n \<equiv> length payload - unat (a_pad info)" and "i \<equiv> wrapped_info info payload"
    and "ts \<equiv> value_or mts 0"
  shows "unwrap st o1 tu sid ats (wire_header i ts @ pl @ put_u32 crc @ drop n payload) =
    (if crc = crc32 (crc_prefix st o1 tu sid ats @ wire_header i ts @ pl) then None
     else Some (E2e_err Crc_error),
     wire_header (fill_length info n) ts @ pl @ drop n payload)"
proof -
  define ts' where "ts' = (if a_msg_type i = kAcfMsgTypeGbb then ts else 0)"
  have same: "wire_header k ts = wire_header k ts'" if "a_msg_type k = a_msg_type i" for k
    using that by (simp add: wire_header_def ts'_def)
  have "unwrap st o1 tu sid ats (wire_header i ts' @ pl @ put_u32 crc @ drop n payload) =
    (if crc = crc32 (crc_prefix st o1 tu sid ats @ wire_header i ts' @ pl) then None
     else Some (E2e_err Crc_error),
     wire_header ((mask_info i)\<lparr>a_msg_length := a_msg_length (mask_info i) - 1\<rparr>) ts' @ pl @ drop n payload)"
    by (rule unwrap_shape)
       (use assms(1) in \<open>auto simp: protectable_def i_def n_def ts'_def wire_defs\<close>)
  then show ?thesis
    using restored_header [OF assms(1), of ts'] same
    by (simp add: i_def n_def)
qed

section \<open>Receiver guards\<close>

text \<open>
  Several guards latch: once an event has set them, only an explicit reset clears them. The
  steps of the guard are those of its operations that are not the reset.
\<close>

locale latch =
  fixes step :: "'s \<Rightarrow> 's \<Rightarrow> bool" and reset :: "'s \<Rightarrow> 's" and latched :: "'s \<Rightarrow> bool"
  assumes step_keeps: "step s t \<Longrightarrow> latched s \<Longrightarrow> latched t"
    and reset_clears: "\<not> latched (reset s)"
begin

lemma run_keeps: "step\<^sup>*\<^sup>* s t \<Longrightarrow> latched s \<Longrightarrow> latched t"
  by (induction rule: rtranclp_induct) (auto dest: step_keeps)

lemma run_from_reset: "step\<^sup>*\<^sup>* (reset s) t \<Longrightarrow> latched t \<Longrightarrow> \<exists>u v. step u v \<and> \<not> latched u \<and> latched v"
proof (induction rule: rtranclp_induct)
  case base
  then show ?case by (simp add: reset_clears)
qed auto

end

datatype message_role = RoleRequest | RoleAcknowledge | RoleResponse

fun crc_required :: "endpoint_generic_config \<Rightarrow> message_role \<Rightarrow> bool" where
  "crc_required cfg RoleRequest = eg_ep_req_crc_enable cfg"
| "crc_required cfg RoleAcknowledge = eg_ep_ack_crc_enable cfg"
| "crc_required cfg RoleResponse = eg_ep_response_crc_enable cfg"

definition kOptSafetyRequests :: u32 where "kOptSafetyRequests = 0x00000002"

definition implemented_options_bit :: "bool \<Rightarrow> u32" where
  "implemented_options_bit safety_requests_implemented =
     (if safety_requests_implemented then kOptSafetyRequests else 0)"

record rx_stream_guard =
  gd_latched :: bool

definition record_crc_result ::
    "rx_stream_guard \<Rightarrow> request_stream_config \<Rightarrow> bool \<Rightarrow> error option \<times> rx_stream_guard" where
  "record_crc_result guard cfg ok =
     (if gd_latched guard then (Some (E2e_err Crc_error), guard)
      else if ok then (None, guard)
      else (Some (E2e_err Crc_error),
            if rs_rx_enforce_e2e cfg then guard\<lparr>gd_latched := True\<rparr> else guard))"

definition reset_latch :: "rx_stream_guard \<Rightarrow> rx_stream_guard" where
  "reset_latch guard = guard\<lparr>gd_latched := False\<rparr>"

definition crc_error_should_enter_safe_state :: "bool \<Rightarrow> bool" where
  "crc_error_should_enter_safe_state rx_enforce_e2e = rx_enforce_e2e"

interpretation crc_latch: latch "\<lambda>g g'. \<exists>cfg ok. g' = snd (record_crc_result g cfg ok)"
    reset_latch gd_latched
  by unfold_locales (auto simp: record_crc_result_def reset_latch_def)

subsection \<open>The fault tracker\<close>

definition kMaxStreams :: nat where "kMaxStreams = 16"

record fault_slot =
  fl_stream_id :: u64
  fl_used :: bool
  fl_guard :: rx_stream_guard

text \<open>The array of 16 slots; a slot is addressed by its index.\<close>

type_synonym fault_tracker = "fault_slot list"

definition new_tracker :: fault_tracker where
  "new_tracker = replicate kMaxStreams
     \<lparr>fl_stream_id = 0, fl_used = False, fl_guard = \<lparr>gd_latched = False\<rparr>\<rparr>"

definition find_slot :: "fault_tracker \<Rightarrow> u64 \<Rightarrow> nat option" where
  "find_slot slots sid =
     find (\<lambda>i. fl_used (slots ! i) \<and> fl_stream_id (slots ! i) = sid) [0..<length slots]"

definition find_free :: "fault_tracker \<Rightarrow> nat option" where
  "find_free slots = find (\<lambda>i. \<not> fl_used (slots ! i)) [0..<length slots]"

definition fault_in_slot :: "fault_tracker \<Rightarrow> nat \<Rightarrow> bool \<Rightarrow> fault_tracker" where
  "fault_in_slot slots i rx_enforce_e2e =
     slots[i := (slots ! i)\<lparr>fl_guard := snd (record_crc_result (fl_guard (slots ! i))
        (request_stream_default\<lparr>rs_rx_enforce_e2e := rx_enforce_e2e\<rparr>) False)\<rparr>]"

definition on_crc_error :: "fault_tracker \<Rightarrow> u64 \<Rightarrow> bool \<Rightarrow> bool \<times> fault_tracker" where
  "on_crc_error slots sid rx_enforce_e2e =
     (case find_slot slots sid of
        Some i \<Rightarrow> (True, fault_in_slot slots i rx_enforce_e2e)
      | None \<Rightarrow>
          (case find_free slots of
             None \<Rightarrow> (False, slots)
           | Some i \<Rightarrow>
               (let slots = slots[i :=
                      \<lparr>fl_stream_id = sid, fl_used = True, fl_guard = \<lparr>gd_latched = False\<rparr>\<rparr>]
                in (True, fault_in_slot slots i rx_enforce_e2e))))"

definition is_faulted :: "fault_tracker \<Rightarrow> u64 \<Rightarrow> bool" where
  "is_faulted slots sid =
     (case find_slot slots sid of None \<Rightarrow> False | Some i \<Rightarrow> gd_latched (fl_guard (slots ! i)))"

definition reset_fault :: "fault_tracker \<Rightarrow> u64 \<Rightarrow> fault_tracker" where
  "reset_fault slots sid =
     (case find_slot slots sid of
        None \<Rightarrow> slots
      | Some i \<Rightarrow> slots[i := (slots ! i)\<lparr>fl_guard := reset_latch (fl_guard (slots ! i))\<rparr>])"

subsection \<open>Stream status\<close>

record stream_status =
  st_crc :: rx_stream_guard
  st_seq_blocked :: bool
  st_wd_blocked :: bool
  st_overflow_blocked :: bool

definition note_crc_error :: "bool \<Rightarrow> stream_status \<Rightarrow> stream_status" where
  "note_crc_error rx_enforce_e2e st =
     st\<lparr>st_crc := snd (record_crc_result (st_crc st)
         (request_stream_default\<lparr>rs_rx_enforce_e2e := rx_enforce_e2e\<rparr>) False)\<rparr>"

definition note_seq :: "bool \<Rightarrow> stream_status \<Rightarrow> stream_status" where
  "note_seq enter_safe_state st = (if enter_safe_state then st\<lparr>st_seq_blocked := True\<rparr> else st)"

definition note_wd :: "bool \<Rightarrow> stream_status \<Rightarrow> stream_status" where
  "note_wd enter_safe_state st = (if enter_safe_state then st\<lparr>st_wd_blocked := True\<rparr> else st)"

definition note_overflow :: "bool \<Rightarrow> stream_status \<Rightarrow> stream_status" where
  "note_overflow enter_safe_state st =
     (if enter_safe_state then st\<lparr>st_overflow_blocked := True\<rparr> else st)"

definition reset_crc :: "stream_status \<Rightarrow> stream_status" where
  "reset_crc st = st\<lparr>st_crc := reset_latch (st_crc st)\<rparr>"

definition reset_seq :: "stream_status \<Rightarrow> stream_status" where
  "reset_seq st = st\<lparr>st_seq_blocked := False\<rparr>"

definition reset_wd :: "stream_status \<Rightarrow> stream_status" where
  "reset_wd st = st\<lparr>st_wd_blocked := False\<rparr>"

definition reset_overflow :: "stream_status \<Rightarrow> stream_status" where
  "reset_overflow st = st\<lparr>st_overflow_blocked := False\<rparr>"

definition rx_blocked :: "stream_status \<Rightarrow> bool" where
  "rx_blocked st \<longleftrightarrow>
     gd_latched (st_crc st) \<or> st_seq_blocked st \<or> st_wd_blocked st \<or> st_overflow_blocked st"

inductive status_step :: "stream_status \<Rightarrow> stream_status \<Rightarrow> bool" where
  "status_step st (note_crc_error e st)"
| "status_step st (note_seq e st)"
| "status_step st (note_wd e st)"
| "status_step st (note_overflow e st)"

lemmas status_defs = note_crc_error_def note_seq_def note_wd_def note_overflow_def
  reset_crc_def reset_seq_def reset_wd_def reset_overflow_def rx_blocked_def
  record_crc_result_def reset_latch_def request_stream_default_def

interpretation status_latch: latch status_step "reset_crc \<circ> reset_seq \<circ> reset_wd \<circ> reset_overflow" rx_blocked
  by unfold_locales (auto simp: status_defs split: if_splits elim!: status_step.cases)

subsection \<open>Sequence numbers\<close>

record seq_result =
  sq_accept :: bool
  sq_discontinuity :: bool
  sq_enter_safe_state :: bool

record rx_sequence_guard =
  sg_has_last :: bool
  sg_last_seq :: u8

definition evaluate ::
    "rx_sequence_guard \<Rightarrow> request_stream_config \<Rightarrow> u8 \<Rightarrow> seq_result \<times> rx_sequence_guard" where
  "evaluate guard cfg seq =
     (if \<not> sg_has_last guard
      then (\<lparr>sq_accept = True, sq_discontinuity = False, sq_enter_safe_state = False\<rparr>,
            guard\<lparr>sg_has_last := True, sg_last_seq := seq\<rparr>)
      else
        (let fwd_distance = seq - sg_last_seq guard;
             accept = (\<not> rs_rx_enforce_seq cfg \<or> 1 \<le> fwd_distance \<and> fwd_distance \<le> 127);
             discontinuity = (fwd_distance \<noteq> 1)
         in (\<lparr>sq_accept = accept, sq_discontinuity = discontinuity,
              sq_enter_safe_state = (discontinuity \<and> rs_rx_seq_safestate_enable cfg)\<rparr>,
             if accept then guard\<lparr>sg_last_seq := seq\<rparr> else guard)))"

definition check_seq ::
    "rx_sequence_guard \<Rightarrow> request_stream_config \<Rightarrow> u8 \<Rightarrow> error option \<times> rx_sequence_guard" where
  "check_seq guard cfg seq =
     (case evaluate guard cfg seq of
        (r, guard') \<Rightarrow> (if sq_accept r then None else Some (E2e_err Sequence_violation), guard'))"

subsection \<open>Watchdog and safe state\<close>

record rx_watchdog =
  rw_kicked :: bool
  rw_last_kick_ms :: u64
  rw_in_safe_state :: bool

definition kick_wd :: "rx_watchdog \<Rightarrow> u64 \<Rightarrow> rx_watchdog" where
  "kick_wd wd now_ms = wd\<lparr>rw_last_kick_ms := now_ms, rw_kicked := True\<rparr>"

definition overflowed :: "rx_watchdog \<Rightarrow> request_stream_config \<Rightarrow> u64 \<Rightarrow> bool" where
  "overflowed wd cfg now_ms =
     (if \<not> rs_rx_wd_enable cfg \<or> \<not> rw_kicked wd then False
      else ucast (rs_rx_wd_timeout_interval cfg) < now_ms - rw_last_kick_ms wd)"

definition enter_safe_state :: "rx_watchdog \<Rightarrow> rx_watchdog" where
  "enter_safe_state wd = wd\<lparr>rw_in_safe_state := True\<rparr>"

definition clear_safe_state :: "rx_watchdog \<Rightarrow> rx_watchdog" where
  "clear_safe_state wd = wd\<lparr>rw_in_safe_state := False\<rparr>"

definition should_emit_info_notification :: "rx_watchdog \<Rightarrow> request_stream_config \<Rightarrow> bool" where
  "should_emit_info_notification wd cfg \<longleftrightarrow> rw_in_safe_state wd \<and> rs_rx_wd_info_enable cfg"

definition apply_watchdog_overflow ::
    "request_stream_config \<Rightarrow> rx_watchdog \<Rightarrow> ledger \<Rightarrow> nat \<times> rx_watchdog \<times> ledger" where
  "apply_watchdog_overflow cfg wd lg =
     (if \<not> rs_rx_wd_safestate_enable cfg then (0, wd, lg)
      else (case cancel_all lg True of (count, lg') \<Rightarrow> (count, enter_safe_state wd, lg')))"

definition apply_queue_overflow ::
    "request_stream_config \<Rightarrow> rx_watchdog \<Rightarrow> ledger \<Rightarrow> nat \<times> rx_watchdog \<times> ledger" where
  "apply_queue_overflow cfg wd lg =
     (if \<not> rs_rx_ovrflw_safestate_enable cfg then (0, wd, lg)
      else (case cancel_all lg True of (count, lg') \<Rightarrow> (count, enter_safe_state wd, lg')))"

definition overflow_should_enter_safe_state :: "bool \<Rightarrow> bool" where
  "overflow_should_enter_safe_state rx_ovrflw_safestate_enable = rx_ovrflw_safestate_enable"

definition endpoint_in_configured_safe_state ::
    "request_stream_config \<Rightarrow> sequencers \<Rightarrow> bool \<Rightarrow> bool" where
  "endpoint_in_configured_safe_state cfg states force_high_impedance_asserted =
     (if rs_rx_safety_measure cfg = ForceHighImpedance then force_high_impedance_asserted
      else (case state_of states (unat (rs_rx_safestate_sequencer cfg)) of
          Inl ec \<Rightarrow> False
        | Inr cur \<Rightarrow> if cur = 0 then False else cur = rs_rx_safe_sequencer_state cfg))"

definition may_execute_now :: "request_record \<Rightarrow> bool \<Rightarrow> bool" where
  "may_execute_now rec endpoint_in_safe_state \<longleftrightarrow> \<not> rr_is_safety rec \<or> endpoint_in_safe_state"

interpretation wd_latch: latch
    "\<lambda>wd wd'. (\<exists>now. wd' = kick_wd wd now) \<or> (\<exists>cfg lg. wd' = fst (snd (apply_watchdog_overflow cfg wd lg)))
       \<or> (\<exists>cfg lg. wd' = fst (snd (apply_queue_overflow cfg wd lg)))"
    clear_safe_state rw_in_safe_state
  by unfold_locales
     (auto simp: kick_wd_def apply_watchdog_overflow_def apply_queue_overflow_def
        enter_safe_state_def clear_safe_state_def split_beta split: if_splits)

subsection \<open>The tracker as a set of faulted streams\<close>

lemma find_upt_Some:
  "find P [0..<n] = Some i \<longleftrightarrow> i < n \<and> P i \<and> (\<forall>j < i. \<not> P j)"
  by (auto simp: find_Some_iff)

lemma find_upt_None: "find P [0..<n] = None \<longleftrightarrow> (\<forall>i < n. \<not> P i)"
  by (auto simp: find_None_iff)

text \<open>At most one slot of 16 is used for a stream.\<close>

definition wf_tracker :: "fault_tracker \<Rightarrow> bool" where
  "wf_tracker slots \<longleftrightarrow> length slots = kMaxStreams \<and>
     (\<forall>i < length slots. \<forall>j < length slots. fl_used (slots ! i) \<and> fl_used (slots ! j) \<and>
        fl_stream_id (slots ! i) = fl_stream_id (slots ! j) \<longrightarrow> i = j)"

lemma is_faulted_iff:
  assumes "wf_tracker slots"
  shows "is_faulted slots s \<longleftrightarrow>
    (\<exists>i < length slots. fl_used (slots ! i) \<and> fl_stream_id (slots ! i) = s \<and> gd_latched (fl_guard (slots ! i)))"
proof (cases "find_slot slots s")
  case None
  then have "\<not> is_faulted slots s" by (simp add: is_faulted_def)
  then show ?thesis using None by (auto simp: find_slot_def find_upt_None)
next
  case (Some i)
  then have "i < length slots" "fl_used (slots ! i)" "fl_stream_id (slots ! i) = s"
    by (auto simp: find_slot_def find_upt_Some)
  then show ?thesis
    using Some assms unfolding is_faulted_def wf_tracker_def by auto
qed

lemma wf_tracker_update:
  assumes "wf_tracker slots" "i < length slots" "fl_used r"
    and "\<forall>j < length slots. j \<noteq> i \<longrightarrow> \<not> (fl_used (slots ! j) \<and> fl_stream_id (slots ! j) = fl_stream_id r)"
  shows "wf_tracker (slots[i := r])"
  using assms unfolding wf_tracker_def by (auto simp: nth_list_update)

lemma is_faulted_update:
  assumes "wf_tracker slots" "i < length slots" "fl_used r" "fl_stream_id r = sid"
    and others: "\<forall>j < length slots. j \<noteq> i \<longrightarrow> \<not> (fl_used (slots ! j) \<and> fl_stream_id (slots ! j) = sid)"
    and old: "fl_used (slots ! i) \<Longrightarrow> fl_stream_id (slots ! i) = sid"
  shows "is_faulted (slots[i := r]) s = (if s = sid then gd_latched (fl_guard r) else is_faulted slots s)"
proof -
  have wf: "wf_tracker (slots[i := r])" using assms by (intro wf_tracker_update) auto
  show ?thesis
    unfolding is_faulted_iff [OF wf] is_faulted_iff [OF assms(1)]
    using assms by (auto simp: nth_list_update split: if_splits) metis+
qed

lemma tracker_slot:
  assumes "wf_tracker slots" "find_slot slots sid = Some i"
  shows "i < length slots" "fl_used (slots ! i)" "fl_stream_id (slots ! i) = sid"
    "\<forall>j < length slots. j \<noteq> i \<longrightarrow> \<not> (fl_used (slots ! j) \<and> fl_stream_id (slots ! j) = sid)"
    "gd_latched (fl_guard (slots ! i)) = is_faulted slots sid"
proof -
  show "i < length slots" "fl_used (slots ! i)" "fl_stream_id (slots ! i) = sid"
    using assms(2) by (auto simp: find_slot_def find_upt_Some)
  then show "\<forall>j < length slots. j \<noteq> i \<longrightarrow> \<not> (fl_used (slots ! j) \<and> fl_stream_id (slots ! j) = sid)"
    using assms(1) unfolding wf_tracker_def by metis
  show "gd_latched (fl_guard (slots ! i)) = is_faulted slots sid"
    by (simp add: is_faulted_def assms(2))
qed

section \<open>Properties\<close>

text \<open>
  C32. The CRC detects every burst of up to 32 bits: two messages of the same length that
  differ only within four consecutive octets, anywhere, have different CRCs.
\<close>

theorem crc_detects_bursts:
  assumes "length mid = length mid'" and "length mid \<le> 4" and "mid \<noteq> mid'"
  shows "crc32 (pre @ mid @ suf) \<noteq> crc32 (pre @ mid' @ suf)"
  using assms by (rule crc32_burst)

theorem crc_detects_bursts_witness:
  "crc32 ([0x10, 0x20] @ [1, 2, 3, 4] @ [0x30]) \<noteq> crc32 ([0x10, 0x20] @ [1, 0, 0, 4] @ [0x30])"
  by (rule crc_detects_bursts) simp_all

lemma unwrap_wrapped:
  assumes "protectable info payload"
  shows "unwrap st o1 tu sid ats (wrap st o1 tu sid ats info mts payload) = (None, plain_message info mts payload)"
proof -
  have "take n payload @ drop n payload = payload" for n by simp
  then show ?thesis
    using unwrap_protected [OF assms, of st o1 tu sid ats mts]
    by (simp add: wrap_shape [OF assms] compute_crc_eq plain_message_def)
qed

text \<open>
  A message that is wrapped and unwrapped with the same frame context comes back without
  error, as its header with the original length field followed by payload and padding, for
  ACF_ABB and ACF_GBB messages under either kind of frame header.
\<close>

theorem wrap_unwrap_roundtrip:
  assumes "protectable info payload"
  shows "unwrap st o1 tu sid ats (wrap st o1 tu sid ats info mts payload)
      = (None, plain_message info mts payload)
    \<and> unwrap_framed ntscf o1 tu sid ats (wrap_framed ntscf o1 tu sid ats info mts payload)
      = (None, plain_message info mts payload)"
  by (simp add: unwrap_framed_def wrap_framed_def Let_def unwrap_wrapped [OF assms])

definition sample_header :: acf_info where
  "sample_header = acf_default\<lparr>a_pad := 1, a_byte_bus_id := 0x42, a_transaction_num := 7\<rparr>"

lemma sample_protectable: "protectable sample_header [1, 2, 3, 0]"
  by (simp add: protectable_def sample_header_def acf_default_def fill_length_def
      compute_acf_msg_length_def wire_defs)

theorem wrap_unwrap_roundtrip_witness:
  "fst (unwrap 0x82 0 False \<lparr>mac = [1, 2, 3, 4, 5, 6], suffix = 7\<rparr> None
     (wrap 0x82 0 False \<lparr>mac = [1, 2, 3, 4, 5, 6], suffix = 7\<rparr> None sample_header None [1, 2, 3, 0])) = None"
  using wrap_unwrap_roundtrip [OF sample_protectable] by simp

lemma frame_edit:
  assumes "length h \<le> k" "k + length m' \<le> length h + length pl"
  shows "\<exists>a m b. pl = a @ m @ b \<and> length m = length m' \<and>
    take k (h @ pl @ r) @ m' @ drop (k + length m') (h @ pl @ r) = h @ (a @ m' @ b) @ r \<and>
    take (length m') (drop k (h @ pl @ r)) = m"
proof -
  define a where "a = take (k - length h) pl"
  define m where "m = take (length m') (drop (k - length h) pl)"
  define b where "b = drop (k - length h + length m') pl"
  have "pl = a @ m @ b"
    by (simp add: a_def m_def b_def) (metis add.commute append_take_drop_id drop_drop)
  moreover have "length a = k - length h" "length m = length m'"
    using assms by (simp_all add: a_def m_def)
  ultimately show ?thesis
    using assms by (intro exI [of _ a] exI [of _ m] exI [of _ b]) simp
qed

text \<open>
  The receiver reports a CRC error for every wrapped frame that was changed within four
  consecutive octets of its payload, or in any way within its CRC octets.
\<close>

theorem corruption_detected:
  assumes "protectable info payload"
    and "frame = wrap st o1 tu sid ats info mts payload"
    and "n = length payload - unat (a_pad info)"
    and "h = (if a_msg_type info = kAcfMsgTypeGbb then 16 else 8)"
    and "m' \<noteq> take (length m') (drop k frame)"
    and "h \<le> k \<and> k + length m' \<le> h + n \<and> length m' \<le> 4 \<or> h + n \<le> k \<and> k + length m' \<le> h + n + 4"
  shows "fst (unwrap st o1 tu sid ats (take k frame @ m' @ drop (k + length m') frame))
    = Some (E2e_err Crc_error)"
proof -
  let ?i = "wrapped_info info payload" and ?ts = "value_or mts 0"
  let ?H = "wire_header ?i ?ts" and ?P = "crc_prefix st o1 tu sid ats"
  let ?pl = "take n payload" and ?pad = "drop n payload"
  have H: "length ?H = h" by (simp add: wire_header_length assms(4) wire_defs)
  have pl: "length ?pl = n" by (simp add: assms(3))
  define crc where "crc = crc32 (?P @ ?H @ ?pl)"
  have frame: "frame = ?H @ ?pl @ put_u32 crc @ ?pad"
    by (simp add: assms(2,3) wrap_shape [OF assms(1)] compute_crc_eq crc_def)
  note rx = unwrap_protected [OF assms(1), of st o1 tu sid ats mts, folded assms(3)]
  show ?thesis
    using assms(6)
  proof
    assume in_payload: "h \<le> k \<and> k + length m' \<le> h + n \<and> length m' \<le> 4"
    then have "length ?H \<le> k" "k + length m' \<le> length ?H + length ?pl"
      using H pl by simp_all
    from frame_edit [OF this, of "put_u32 crc @ ?pad", folded frame]
    obtain a m b where m: "?pl = a @ m @ b" "length m = length m'"
      "take k frame @ m' @ drop (k + length m') frame = ?H @ (a @ m' @ b) @ put_u32 crc @ ?pad"
      "take (length m') (drop k frame) = m"
      by blast
    have "crc \<noteq> crc32 (?P @ ?H @ (a @ m' @ b))"
      using crc32_burst [of m m' "?P @ ?H @ a" b] m assms(5) in_payload
      unfolding crc_def m(1) by simp
    then show ?thesis unfolding m(3) using rx [of "a @ m' @ b" crc] by simp
  next
    assume in_crc: "h + n \<le> k \<and> k + length m' \<le> h + n + 4"
    then have "length (?H @ ?pl) \<le> k" "k + length m' \<le> length (?H @ ?pl) + length (put_u32 crc)"
      using H pl by simp_all
    moreover have "frame = (?H @ ?pl) @ put_u32 crc @ ?pad" by (simp add: frame)
    ultimately obtain a m b where m: "put_u32 crc = a @ m @ b" "length m = length m'"
      "take k frame @ m' @ drop (k + length m') frame = (?H @ ?pl) @ (a @ m' @ b) @ ?pad"
      "take (length m') (drop k frame) = m"
      using frame_edit [of "?H @ ?pl" k m' "put_u32 crc" ?pad] by metis
    define q where "q = a @ m' @ b"
    have "length q = 4" using m(1,2) by (metis length_append length_put(2) q_def)
    then obtain w x y z where "q = [w, x, y, z]"
      by (auto simp: length_Suc_conv eval_nat_numeral)
    then have q: "put_u32 (get_u32 q) = q" by (simp add: put_get_u32)
    have "q \<noteq> put_u32 crc" using m assms(5) by (simp add: q_def)
    then have "get_u32 q \<noteq> crc32 (?P @ ?H @ ?pl)" using q unfolding crc_def [symmetric] by metis
    then show ?thesis
      unfolding m(3) q_def [symmetric] using rx [of ?pl "get_u32 q"] by (simp add: q)
  qed
qed

theorem corruption_detected_witness:
  "fst (unwrap 0x82 0 False \<lparr>mac = [1, 2, 3, 4, 5, 6], suffix = 7\<rparr> None
     (take 8 (wrap 0x82 0 False \<lparr>mac = [1, 2, 3, 4, 5, 6], suffix = 7\<rparr> None sample_header None [1, 2, 3, 0])
      @ [9] @
      drop 9 (wrap 0x82 0 False \<lparr>mac = [1, 2, 3, 4, 5, 6], suffix = 7\<rparr> None sample_header None [1, 2, 3, 0])))
   = Some (E2e_err Crc_error)"
proof -
  have "take 1 (drop 8 (wrap 0x82 0 False \<lparr>mac = [1, 2, 3, 4, 5, 6], suffix = 7\<rparr> None sample_header
      None [1, 2, 3, 0])) = [1]"
    by (simp add: wrap_shape [OF sample_protectable] wire_header_def)
       (simp add: sample_header_def acf_default_def wire_defs)
  then show ?thesis
    using corruption_detected [OF sample_protectable refl refl refl, of "[9]" 8 "0x82" 0 False
        "\<lparr>mac = [1, 2, 3, 4, 5, 6], suffix = 7\<rparr>" None None]
    by (simp add: sample_header_def acf_default_def wire_defs)
qed

text \<open>
  The fault tracker is a bounded set of faulted streams: recording a CRC error under
  enforcement makes exactly that stream faulted and leaves every other stream as it was; it is
  refused, with nothing changed, only when all 16 slots are taken by other streams; a reset
  clears exactly that stream. The slots stay consistent.
\<close>

theorem fault_tracker_exact:
  assumes "wf_tracker slots"
  shows "case on_crc_error slots sid enforce of (ok, slots') \<Rightarrow>
      wf_tracker slots'
      \<and> (\<forall>s. is_faulted slots' s = (is_faulted slots s \<or> ok \<and> enforce \<and> s = sid))
      \<and> (ok = (\<exists>i < 16. \<not> fl_used (slots ! i) \<or> fl_stream_id (slots ! i) = sid))
      \<and> wf_tracker (reset_fault slots sid)
      \<and> (\<forall>s. is_faulted (reset_fault slots sid) s = (is_faulted slots s \<and> s \<noteq> sid))"
proof (cases "find_slot slots sid")
  case (Some i)
  note i = tracker_slot [OF assms Some]
  have len: "length slots = 16" using assms by (simp add: wf_tracker_def kMaxStreams_def)
  let ?r = "(slots ! i)\<lparr>fl_guard := snd (record_crc_result (fl_guard (slots ! i))
        (request_stream_default\<lparr>rs_rx_enforce_e2e := enforce\<rparr>) False)\<rparr>"
  let ?c = "(slots ! i)\<lparr>fl_guard := reset_latch (fl_guard (slots ! i))\<rparr>"
  have g: "gd_latched (fl_guard ?r) = (is_faulted slots sid \<or> enforce)" "\<not> gd_latched (fl_guard ?c)"
    using i(5) by (simp_all add: record_crc_result_def reset_latch_def)
  have r: "wf_tracker (slots[i := ?r])"
    by (rule wf_tracker_update) (use i assms in simp_all)
  have rf: "is_faulted (slots[i := ?r]) s = (if s = sid then gd_latched (fl_guard ?r) else is_faulted slots s)" for s
    by (rule is_faulted_update) (use i assms in simp_all)
  have c: "wf_tracker (slots[i := ?c])"
    by (rule wf_tracker_update) (use i assms in simp_all)
  have cf: "is_faulted (slots[i := ?c]) s = (if s = sid then gd_latched (fl_guard ?c) else is_faulted slots s)" for s
    by (rule is_faulted_update) (use i assms in simp_all)
  have on: "on_crc_error slots sid enforce = (True, slots[i := ?r])"
    by (simp add: on_crc_error_def Some fault_in_slot_def)
  have off: "reset_fault slots sid = slots[i := ?c]" by (simp add: reset_fault_def Some)
  show ?thesis
    unfolding on off prod.case using r rf c cf g i(1,3) len by auto
next
  case None
  have len: "length slots = 16" using assms by (simp add: wf_tracker_def kMaxStreams_def)
  have unseen: "\<not> (fl_used (slots ! j) \<and> fl_stream_id (slots ! j) = sid)" if "j < length slots" for j
    using None that by (simp add: find_slot_def find_upt_None)
  have off: "reset_fault slots sid = slots" by (simp add: reset_fault_def None)
  have clear: "\<not> is_faulted slots sid" by (simp add: is_faulted_def None)
  show ?thesis
  proof (cases "find_free slots")
    case None': None
    then have full: "fl_used (slots ! j)" if "j < length slots" for j
      using that by (simp add: find_free_def find_upt_None)
    have on: "on_crc_error slots sid enforce = (False, slots)"
      by (simp add: on_crc_error_def None None')
    show ?thesis
      unfolding on off prod.case using assms clear unseen full len by auto
  next
    case (Some i)
    then have i: "i < length slots" "\<not> fl_used (slots ! i)"
      by (auto simp: find_free_def find_upt_Some)
    let ?r = "\<lparr>fl_stream_id = sid, fl_used = True, fl_guard = snd (record_crc_result \<lparr>gd_latched = False\<rparr>
        (request_stream_default\<lparr>rs_rx_enforce_e2e := enforce\<rparr>) False)\<rparr>"
    have on: "on_crc_error slots sid enforce = (True, slots[i := ?r])"
      using i by (simp add: on_crc_error_def None Some fault_in_slot_def Let_def)
    have g: "gd_latched (fl_guard ?r) = enforce"
      by (simp add: record_crc_result_def)
    have r: "wf_tracker (slots[i := ?r])"
      by (rule wf_tracker_update) (use i assms unseen in simp_all)
    have rf: "is_faulted (slots[i := ?r]) s = (if s = sid then gd_latched (fl_guard ?r) else is_faulted slots s)" for s
      by (rule is_faulted_update) (use i assms unseen in simp_all)
    show ?thesis
      unfolding on off prod.case using r rf g i clear len assms by auto
  qed
qed

lemma wf_new_tracker: "wf_tracker new_tracker"
  by (simp add: wf_tracker_def new_tracker_def)

theorem fault_tracker_exact_witness:
  "is_faulted (snd (on_crc_error new_tracker 0x99 True)) 0x99"
proof -
  have free: "\<exists>i < 16. \<not> fl_used (new_tracker ! i) \<or> fl_stream_id (new_tracker ! i) = 0x99"
    by (intro exI [of _ 0]) (simp add: new_tracker_def kMaxStreams_def)
  show ?thesis
    using fault_tracker_exact [OF wf_new_tracker, where sid = "0x99" and enforce = True] free
    by (cases "on_crc_error new_tracker 0x99 True") simp
qed

text \<open>
  The receiver's guards latch. After one CRC failure under enforcement every later frame
  is refused, good ones included, through any number of further checks, until the latch is
  reset; then a good frame passes. A blocked stream stays blocked through any further events,
  and each reset withdraws only its own cause.
\<close>

definition check_all :: "(request_stream_config \<times> bool) list \<Rightarrow> rx_stream_guard \<Rightarrow> rx_stream_guard" where
  "check_all checks guard = fold (\<lambda>(cfg, ok) g. snd (record_crc_result g cfg ok)) checks guard"

lemma check_all_run: "(\<lambda>g g'. \<exists>cfg ok. g' = snd (record_crc_result g cfg ok))\<^sup>*\<^sup>* g (check_all checks g)"
proof (induction checks arbitrary: g)
  case (Cons c checks)
  obtain cfg ok where c: "c = (cfg, ok)" by (cases c)
  show ?case
    unfolding check_all_def c
    by (rule converse_rtranclp_into_rtranclp [of _ _ "snd (record_crc_result g cfg ok)"])
       (use Cons [of "snd (record_crc_result g cfg ok)"] in \<open>auto simp: check_all_def\<close>)
qed (simp add: check_all_def)

theorem guards_latch:
  assumes "rs_rx_enforce_e2e cfg" and "status_step\<^sup>*\<^sup>* st st'" and "rx_blocked st"
  shows "(let g' = check_all checks (snd (record_crc_result g cfg False)) in
       record_crc_result g' cfg' ok' = (Some (E2e_err Crc_error), g')
       \<and> record_crc_result (reset_latch g') cfg' True = (None, reset_latch g'))
    \<and> rx_blocked st'
    \<and> rx_blocked (reset_crc st') = (st_seq_blocked st' \<or> st_wd_blocked st' \<or> st_overflow_blocked st')"
proof -
  have "gd_latched (snd (record_crc_result g cfg False))"
    using assms(1) by (simp add: record_crc_result_def)
  then have "gd_latched (check_all checks (snd (record_crc_result g cfg False)))"
    using crc_latch.run_keeps [OF check_all_run] by blast
  moreover have "rx_blocked st'" using status_latch.run_keeps assms(2,3) by blast
  ultimately show ?thesis
    by (simp add: record_crc_result_def reset_latch_def reset_crc_def rx_blocked_def Let_def)
qed

theorem guards_latch_witness:
  "record_crc_result (snd (record_crc_result \<lparr>gd_latched = False\<rparr>
       (request_stream_default\<lparr>rs_rx_enforce_e2e := True\<rparr>) False))
     (request_stream_default\<lparr>rs_rx_enforce_e2e := True\<rparr>) True
   = (Some (E2e_err Crc_error), \<lparr>gd_latched = True\<rparr>)"
  using guards_latch [of "request_stream_default\<lparr>rs_rx_enforce_e2e := True\<rparr>"
      "\<lparr>st_crc = \<lparr>gd_latched = True\<rparr>, st_seq_blocked = False, st_wd_blocked = False,
        st_overflow_blocked = False\<rparr>"
      "\<lparr>st_crc = \<lparr>gd_latched = True\<rparr>, st_seq_blocked = False, st_wd_blocked = False,
        st_overflow_blocked = False\<rparr>" "[]" "\<lparr>gd_latched = False\<rparr>"]
  by (simp add: rx_blocked_def check_all_def record_crc_result_def Let_def)

definition counts_up :: "request_stream_config \<Rightarrow> nat \<Rightarrow> rx_sequence_guard \<Rightarrow> rx_sequence_guard" where
  "counts_up cfg n g = fold (\<lambda>i g. snd (evaluate g cfg (sg_last_seq g + 1))) [0..<n] g"

lemma evaluate_next:
  "sg_has_last g \<Longrightarrow> evaluate g cfg (sg_last_seq g + 1) =
     (\<lparr>sq_accept = True, sq_discontinuity = False, sq_enter_safe_state = False\<rparr>,
      g\<lparr>sg_last_seq := sg_last_seq g + 1\<rparr>)"
  by (simp add: evaluate_def Let_def word_le_nat_alt)

lemma counts_up_last:
  assumes "sg_has_last g"
  shows "sg_has_last (counts_up cfg n g) \<and> sg_last_seq (counts_up cfg n g) = sg_last_seq g + of_nat n"
proof (induction n)
  case 0
  show ?case using assms by (simp add: counts_up_def)
next
  case (Suc n)
  have "counts_up cfg (Suc n) g = snd (evaluate (counts_up cfg n g) cfg (sg_last_seq (counts_up cfg n g) + 1))"
    by (simp add: counts_up_def)
  then show ?case using Suc evaluate_next [of "counts_up cfg n g" cfg] by (simp add: algebra_simps)
qed

text \<open>
  Under enforcement the sequence guard accepts, after the first number, exactly the
  numbers one to 127 ahead of the last accepted one on the circle of 256, and a refused number
  leaves it unchanged. So a repeated number is refused, and a stream that counts up by one is
  never refused nor reported discontinuous, across any number of wraps.
\<close>

theorem sequence_guard_accepts:
  assumes "sg_has_last g" and "rs_rx_enforce_seq cfg"
  shows "sq_accept (fst (evaluate g cfg seq)) = (1 \<le> unat (seq - sg_last_seq g) \<and> unat (seq - sg_last_seq g) \<le> 127)
    \<and> (\<not> sq_accept (fst (evaluate g cfg seq)) \<longrightarrow> snd (evaluate g cfg seq) = g)
    \<and> \<not> sq_accept (fst (evaluate (snd (evaluate g cfg seq)) cfg (sg_last_seq (snd (evaluate g cfg seq)))))
    \<and> (let r = fst (evaluate (counts_up cfg n g) cfg (sg_last_seq g + of_nat n + 1))
        in sq_accept r \<and> \<not> sq_discontinuity r \<and> \<not> sq_enter_safe_state r)"
proof -
  have range: "1 \<le> d \<and> d \<le> 127 \<longleftrightarrow> 1 \<le> unat d \<and> unat d \<le> 127" for d :: u8
    by (simp add: word_le_nat_alt)
  let ?c = "counts_up cfg n g"
  have c: "sg_has_last ?c" "sg_last_seq ?c = sg_last_seq g + of_nat n"
    using counts_up_last [OF assms(1), of cfg n] by simp_all
  have accept: "sq_accept (fst (evaluate g cfg seq)) =
      (1 \<le> unat (seq - sg_last_seq g) \<and> unat (seq - sg_last_seq g) \<le> 127)"
    using assms range [of "seq - sg_last_seq g"] by (simp add: evaluate_def Let_def)
  moreover have "\<not> sq_accept (fst (evaluate g cfg seq)) \<longrightarrow> snd (evaluate g cfg seq) = g"
    using assms by (simp add: evaluate_def Let_def)
  moreover have "\<not> sq_accept (fst (evaluate h cfg (sg_last_seq h)))" if "sg_has_last h" for h
    using that assms(2) by (simp add: evaluate_def Let_def)
  moreover have "sg_has_last (snd (evaluate g cfg seq))"
    using assms(1) by (simp add: evaluate_def Let_def)
  moreover have "fst (evaluate ?c cfg (sg_last_seq g + of_nat n + 1)) =
      \<lparr>sq_accept = True, sq_discontinuity = False, sq_enter_safe_state = False\<rparr>"
    using evaluate_next [OF c(1), of cfg] by (simp add: c(2))
  ultimately show ?thesis by (simp add: Let_def)
qed

theorem sequence_guard_accepts_witness:
  "sq_accept (fst (evaluate \<lparr>sg_has_last = True, sg_last_seq = 0xFF\<rparr>
       (request_stream_default\<lparr>rs_rx_enforce_seq := True\<rparr>) 0))
   \<and> \<not> sq_accept (fst (evaluate \<lparr>sg_has_last = True, sg_last_seq = 0x10\<rparr>
       (request_stream_default\<lparr>rs_rx_enforce_seq := True\<rparr>) 0x90))"
  using sequence_guard_accepts [of "\<lparr>sg_has_last = True, sg_last_seq = 0xFF\<rparr>"
      "request_stream_default\<lparr>rs_rx_enforce_seq := True\<rparr>" 0]
    sequence_guard_accepts [of "\<lparr>sg_has_last = True, sg_last_seq = 0x10\<rparr>"
      "request_stream_default\<lparr>rs_rx_enforce_seq := True\<rparr>" "0x90"]
  by simp

text \<open>
  A watchdog or queue overflow, where it is configured to enter safe state, latches the
  safe state and leaves no normal request that could still be started: every record that is
  not past cancellation is safety-tagged, and a safety-tagged one may execute only once the
  endpoint is in its configured safe state, which a disabled or missing sequencer never is.
\<close>

theorem overflow_enters_safe_state:
  assumes "wf_ledger lg"
    and "rs_rx_wd_safestate_enable cfg \<and> r = apply_watchdog_overflow cfg wd lg
      \<or> rs_rx_ovrflw_safestate_enable cfg \<and> r = apply_queue_overflow cfg wd lg"
  shows "rw_in_safe_state (fst (snd r))
    \<and> (\<forall>rec \<in> set (lg_records (snd (snd r))). \<not> past_cancellation (rr_state rec) \<longrightarrow>
         rr_is_safety rec \<and> \<not> may_execute_now rec False)
    \<and> (rs_rx_safety_measure cfg = RunSafeSequencer \<and>
         (unat (rs_rx_safestate_sequencer cfg) < length states \<longrightarrow>
            states ! unat (rs_rx_safestate_sequencer cfg) = 0) \<longrightarrow>
         \<not> endpoint_in_configured_safe_state cfg states hiz)"
proof -
  have r: "rw_in_safe_state (fst (snd r))" "snd (snd r) = snd (cancel_all lg True)"
    using assms(2) by (auto simp: apply_watchdog_overflow_def apply_queue_overflow_def
        enter_safe_state_def split_beta)
  have "rr_is_safety rec" if "rec \<in> set (lg_records (snd (cancel_all lg True)))"
      "\<not> past_cancellation (rr_state rec)" for rec
    using that cancel_all_normal [OF assms(1)] by blast
  then show ?thesis
    using r by (auto simp: may_execute_now_def endpoint_in_configured_safe_state_def state_of_def)
qed

theorem overflow_enters_safe_state_witness:
  "rw_in_safe_state (fst (snd (apply_watchdog_overflow
     (request_stream_default\<lparr>rs_rx_wd_safestate_enable := True\<rparr>)
     \<lparr>rw_kicked = True, rw_last_kick_ms = 5, rw_in_safe_state = False\<rparr> sample_ledger)))"
  using overflow_enters_safe_state [OF wf_sample_ledger, of
      "request_stream_default\<lparr>rs_rx_wd_safestate_enable := True\<rparr>" _
      "\<lparr>rw_kicked = True, rw_last_kick_ms = 5, rw_in_safe_state = False\<rparr>"]
  by simp

text \<open>
  The restriction to ACF_ABB messages without the timestamp flag is needed: the CRC of a
  wrapped ACF_ABB message is computed before the encoder clears that flag, so a message whose
  caller left it set is reported as corrupted by its own receiver.
\<close>

lemma wrap_abb_with_timestamp_flag_fails:
  assumes "a_msg_type info = kAcfMsgTypeAbb" "a_mtv info" "protectable (info\<lparr>a_mtv := False\<rparr>) payload"
  shows "fst (unwrap st o1 tu sid ats (wrap st o1 tu sid ats info mts payload)) = Some (E2e_err Crc_error)"
proof -
  let ?info = "info\<lparr>a_mtv := False\<rparr>"
  define n where "n = length payload - unat (a_pad info)"
  define i where "i = wrapped_info ?info payload"
  define pl where "pl = take n payload"
  have types: "a_msg_type i = kAcfMsgTypeAbb" "kAcfMsgTypeAbb \<noteq> kAcfMsgTypeGbb" "\<not> a_mtv i"
    using assms(1) by (simp_all add: i_def wire_defs)
  have adj: "apply_acf_length_adjustment (fill_length info n) = i\<lparr>a_mtv := True\<rparr>"
    using assms(2)
    by (cases info) (simp add: i_def wrapped_info_def n_def apply_acf_length_adjustment_def fill_length_def)
  have "a_msg_length (fill_length ?info n) < 0x1FF"
    using assms(3) by (simp add: protectable_def n_def)
  then have "a_msg_length i \<noteq> 0"
    unfolding i_def wrapped_info_def apply_acf_length_adjustment_def kCrcLengthAdjustQuadlets_def
    by (auto simp: n_def word_less_nat_alt unat_eq_0 [symmetric] unat_word_ariths)
  then have fill: "fill_length i k = i" for k by (simp add: fill_length_def)
  have pad: "\<not> length payload < unat (a_pad info)" "length pl = n"
    using assms(3) by (simp_all add: protectable_def n_def pl_def)
  define crc where "crc = compute_crc st o1 tu sid ats (i\<lparr>a_mtv := True\<rparr>) mts pl"
  have same: "i\<lparr>a_mtv := True, a_msg_type := kAcfMsgTypeAbb, a_mtv := False\<rparr> = i"
    using types by (cases i) simp
  have "encode_acf_abb (i\<lparr>a_mtv := True\<rparr>) pl = encode_acf_message_info i @ pl"
    unfolding encode_acf_abb_def Let_def by (simp only: same fill)
  then have frame: "wrap st o1 tu sid ats info mts payload
      = wire_header i (value_or mts 0) @ pl @ put_u32 crc @ drop n payload"
    using pad types unfolding wrap_def Let_def n_def [symmetric] pl_def [symmetric]
    by (simp add: adj append_crc_def crc_def wire_header_def)
  have octets: "\<exists>a b c d. c \<noteq> d \<and> encode_acf_message_info (i\<lparr>a_mtv := True\<rparr>) = a @ [c] @ b \<and>
      encode_acf_message_info i = a @ [d] @ b"
  proof -
    let ?e = "encode_acf_message_info i" and ?f = "encode_acf_message_info (i\<lparr>a_mtv := True\<rparr>)"
    have "?f ! 2 \<noteq> ?e ! 2"
      using types(3) by (simp add: encode_acf_message_info_def Let_def wire_defs bits)
    moreover have "?f = take 2 ?e @ [?f ! 2] @ drop 3 ?e" "?e = take 2 ?e @ [?e ! 2] @ drop 3 ?e"
      by (simp_all add: encode_acf_message_info_def evt_of_def Let_def numeral_2_eq_2 numeral_3_eq_3)
    ultimately show ?thesis by blast
  qed
  then obtain a b c d where "c \<noteq> d" "encode_acf_message_info (i\<lparr>a_mtv := True\<rparr>) = a @ [c] @ b"
    "encode_acf_message_info i = a @ [d] @ b" by blast
  then have "crc \<noteq> crc32 (crc_prefix st o1 tu sid ats @ wire_header i (value_or mts 0) @ pl)"
    using types crc32_burst [of "[c]" "[d]" "crc_prefix st o1 tu sid ats @ a" "b @ pl"]
    by (simp add: crc_def compute_crc_eq wire_header_def)
  then show ?thesis
    using unwrap_protected [OF assms(3), of st o1 tu sid ats mts pl crc]
    by (simp add: frame i_def n_def)
qed

end
