(* ===== verification/RespQueue.thy ===== *)
theory RespQueue
  imports Prelude "HOL-Library.Multiset" "HOL-Library.Sublist"
begin

text \<open>
  The response queue of \<open>include/rcp/respqueue.hpp\<close>: a first-in first-out queue of encoded
  messages with an octet budget and 64 slots, which makes room by evicting the entry with the
  lowest sequence number.
\<close>

section \<open>State\<close>

definition kMaxQueueEntries :: nat where "kMaxQueueEntries = 64"

record queue_entry =
  qe_data :: octets
  qe_sequence_num :: u8

text \<open>
  The entries in use are a list; \<open>q_octets\<close> is the running total the code keeps beside them.
\<close>

record resp_queue =
  q_entries :: "queue_entry list"
  q_octets :: nat
  q_capacity_octets :: nat
  q_max_avtpdu_size_octets :: nat
  q_next_sequence_num :: u8
  q_overflow :: bool

definition new_queue :: "nat \<Rightarrow> nat \<Rightarrow> resp_queue" where
  "new_queue capacity_octets max_avtpdu_size_octets =
     \<lparr>q_entries = [], q_octets = 0, q_capacity_octets = capacity_octets,
      q_max_avtpdu_size_octets = max_avtpdu_size_octets, q_next_sequence_num = 0,
      q_overflow = False\<rparr>"

section \<open>Operations\<close>

definition lowest_idx :: "queue_entry list \<Rightarrow> nat" where
  "lowest_idx entries =
     fold (\<lambda>i lowest. if qe_sequence_num (entries ! i) < qe_sequence_num (entries ! lowest) then i
                      else lowest) [1..<length entries] 0"

definition remove_at :: "nat \<Rightarrow> 'a list \<Rightarrow> 'a list" where
  "remove_at i xs = take i xs @ drop (Suc i) xs"

definition needs_room :: "resp_queue \<Rightarrow> nat \<Rightarrow> bool" where
  "needs_room q frame_len \<longleftrightarrow>
     q_capacity_octets q \<noteq> 0 \<and> q_capacity_octets q - q_octets q < frame_len \<or>
     length (q_entries q) = kMaxQueueEntries"

text \<open>
  The eviction loop. Its body reads the first entry; on an empty queue that would be outside
  the entries in use, and the result is \<open>None\<close>. \<open>make_room_Some\<close> shows that this does not
  happen for a queue in a consistent state.
\<close>

function make_room :: "resp_queue \<Rightarrow> nat \<Rightarrow> resp_queue option" where
  "make_room q frame_len =
     (if \<not> needs_room q frame_len then Some q
      else if q_entries q = [] then None
      else
        (let lowest = lowest_idx (q_entries q) in
         make_room (q\<lparr>q_octets := q_octets q - length (qe_data (q_entries q ! lowest)),
                      q_entries := remove_at lowest (q_entries q),
                      q_overflow := True\<rparr>) frame_len))"
  by pat_completeness auto

lemma best_fold_bound:
  "fold (\<lambda>i low. if P i low then i else low) [1..<n] 0 < n \<or> n = 0" for n :: nat
  by (induction n) (auto simp: less_Suc_eq)

lemma lowest_idx_bound: "entries \<noteq> [] \<Longrightarrow> lowest_idx entries < length entries"
  using best_fold_bound [of _ "length entries"] by (auto simp: lowest_idx_def)

lemma remove_at_length: "i < length xs \<Longrightarrow> length (remove_at i xs) = length xs - 1"
  by (simp add: remove_at_def)

termination make_room
  by (relation "measure (\<lambda>(q, n). length (q_entries q))")
     (auto simp: remove_at_length lowest_idx_bound)

declare make_room.simps [simp del]

definition push_seq :: "resp_queue \<Rightarrow> octets \<Rightarrow> u8 \<Rightarrow> (bool \<times> resp_queue) option" where
  "push_seq q frame sequence_num =
     (if q_max_avtpdu_size_octets q \<noteq> 0 \<and> q_max_avtpdu_size_octets q < length frame
      then Some (False, q)
      else if q_capacity_octets q \<noteq> 0 \<and> q_capacity_octets q < length frame then Some (False, q)
      else
        (case make_room q (length frame) of
           None \<Rightarrow> None
         | Some q \<Rightarrow> Some (True,
             q\<lparr>q_entries := q_entries q @ [\<lparr>qe_data = frame, qe_sequence_num = sequence_num\<rparr>],
               q_octets := q_octets q + length frame\<rparr>)))"

definition push :: "resp_queue \<Rightarrow> octets \<Rightarrow> (bool \<times> resp_queue) option" where
  "push q frame =
     (case push_seq q frame (q_next_sequence_num q) of
        None \<Rightarrow> None
      | Some (ok, q) \<Rightarrow>
          Some (ok, if ok then q\<lparr>q_next_sequence_num := q_next_sequence_num q + 1\<rparr> else q))"

definition clear_overflow :: "resp_queue \<Rightarrow> resp_queue" where
  "clear_overflow q = q\<lparr>q_overflow := False\<rparr>"

definition max_avtpdu_size_within_mtu :: "nat \<Rightarrow> nat \<Rightarrow> bool" where
  "max_avtpdu_size_within_mtu max_avtpdu_size_octets mtu_budget_octets =
     (if max_avtpdu_size_octets = 0 then mtu_budget_octets = 0
      else max_avtpdu_size_octets \<le> mtu_budget_octets)"

definition pop :: "resp_queue \<Rightarrow> (octets \<times> resp_queue) option" where
  "pop q =
     (case q_entries q of
        [] \<Rightarrow> None
      | e # es \<Rightarrow> Some (qe_data e, q\<lparr>q_entries := es, q_octets := q_octets q - length (qe_data e)\<rparr>))"

definition max_fragment_payload :: "nat \<Rightarrow> nat \<Rightarrow> nat" where
  "max_fragment_payload max_avtpdu_size_octets header_len =
     (if max_avtpdu_size_octets = 0 then 0
      else
        (let reserved = header_len + 3 in
         if max_avtpdu_size_octets \<le> reserved then 0 else max_avtpdu_size_octets - reserved))"

definition should_flush :: "resp_queue \<Rightarrow> nat \<Rightarrow> bool" where
  "should_flush q flush_on_count_octets =
     (if length (q_entries q) = 0 then False
      else if flush_on_count_octets = 0 then True
      else flush_on_count_octets \<le> q_octets q)"

text \<open>The loop of \<open>plan_batch\<close> from index \<open>i\<close> with \<open>planned\<close> octets planned so far.\<close>

fun plan_batch_loop :: "nat \<Rightarrow> queue_entry list \<Rightarrow> nat \<Rightarrow> nat \<Rightarrow> nat" where
  "plan_batch_loop max_size [] i planned = i"
| "plan_batch_loop max_size (e # es) i planned =
     (let next_total = planned + length (qe_data e) in
      if 0 < i \<and> max_size < next_total then i
      else plan_batch_loop max_size es (i + 1) next_total)"

definition plan_batch :: "resp_queue \<Rightarrow> nat \<Rightarrow> nat" where
  "plan_batch q max_avtpdu_size_octets =
     (if length (q_entries q) = 0 then 0
      else if max_avtpdu_size_octets = 0 then length (q_entries q)
      else plan_batch_loop max_avtpdu_size_octets (q_entries q) 0 0)"

definition should_flush_by_time :: "u64 \<Rightarrow> u64 \<Rightarrow> bool" where
  "should_flush_by_time elapsed_since_last_transmit_us flush_time_us =
     (if flush_time_us = 0 then False else flush_time_us \<le> elapsed_since_last_transmit_us)"

section \<open>The queue's invariant\<close>

definition total_octets :: "queue_entry list \<Rightarrow> nat" where
  "total_octets es = sum_list (map (\<lambda>e. length (qe_data e)) es)"

definition fits_alone :: "resp_queue \<Rightarrow> nat \<Rightarrow> bool" where
  "fits_alone q n \<longleftrightarrow>
     (q_max_avtpdu_size_octets q = 0 \<or> n \<le> q_max_avtpdu_size_octets q) \<and>
     (q_capacity_octets q = 0 \<or> n \<le> q_capacity_octets q)"

definition wf_queue :: "resp_queue \<Rightarrow> bool" where
  "wf_queue q \<longleftrightarrow>
     q_octets q = total_octets (q_entries q) \<and>
     length (q_entries q) \<le> kMaxQueueEntries \<and>
     (q_capacity_octets q \<noteq> 0 \<longrightarrow> q_octets q \<le> q_capacity_octets q) \<and>
     (\<forall>e \<in> set (q_entries q). fits_alone q (length (qe_data e)))"

lemma total_remove:
  "i < length es \<Longrightarrow> total_octets (remove_at i es) + length (qe_data (es ! i)) = total_octets es"
  using arg_cong [OF id_take_nth_drop [of i es], of total_octets]
  by (simp add: total_octets_def remove_at_def)

lemma set_remove_at: "set (remove_at i xs) \<subseteq> set xs"
  by (auto simp: remove_at_def dest: in_set_takeD in_set_dropD)

lemma lowest_idx_fold:
  fixes v :: "nat \<Rightarrow> 'a :: linorder"
  assumes "j < n"
  shows "v (fold (\<lambda>i low. if v i < v low then i else low) [1..<n] 0) \<le> v j"
  using assms
proof (induction n)
  case (Suc n)
  let ?low = "fold (\<lambda>i low. if v i < v low then i else low) [1..<n] 0"
  show ?case
  proof (cases "n = 0")
    case False
    have "v (if v n < v ?low then n else ?low) \<le> v j"
      using Suc by (cases "j = n") (auto simp: not_less intro: order.trans less_imp_le)
    then show ?thesis using False by (auto split: if_splits)
  qed (use Suc in simp)
qed simp

lemma lowest_idx_least:
  assumes "j < length entries"
  shows "qe_sequence_num (entries ! lowest_idx entries) \<le> qe_sequence_num (entries ! j)"
  using lowest_idx_fold [of j "length entries" "\<lambda>i. qe_sequence_num (entries ! i)", OF assms]
  by (simp add: lowest_idx_def)

text \<open>
  What making room does to the entries: some are taken out, in order, and each of those has a
  sequence number at most that of every entry that stays.
\<close>

definition evicted_from :: "queue_entry list \<Rightarrow> queue_entry list \<Rightarrow> queue_entry list \<Rightarrow> bool" where
  "evicted_from es out rest \<longleftrightarrow> mset es = mset out + mset rest \<and> subseq rest es \<and>
     (\<forall>e \<in> set out. \<forall>r \<in> set rest. qe_sequence_num e \<le> qe_sequence_num r)"


lemma total_octets_simps [simp]:
  "total_octets [] = 0" "total_octets (e # es) = length (qe_data e) + total_octets es"
  "total_octets (es @ fs) = total_octets es + total_octets fs"
  by (simp_all add: total_octets_def)

lemma mset_remove_at: "i < length xs \<Longrightarrow> mset xs = add_mset (xs ! i) (mset (remove_at i xs))"
  using arg_cong [OF id_take_nth_drop [of i xs], of mset] by (simp add: remove_at_def)

lemma subseq_remove_at: "subseq (remove_at i xs) xs"
proof -
  have "subseq (drop (Suc i) xs) (drop i xs)"
    by (metis drop_drop plus_1_eq_Suc suffix_drop suffix_imp_subseq)
  then have "subseq (take i xs @ drop (Suc i) xs) (take i xs @ drop i xs)"
    by (simp only: subseq_append')
  then show ?thesis by (simp only: remove_at_def append_take_drop_id)
qed

text \<open>One round of the eviction loop.\<close>

definition evict_one :: "resp_queue \<Rightarrow> resp_queue" where
  "evict_one q =
     (let lowest = lowest_idx (q_entries q) in
      q\<lparr>q_octets := q_octets q - length (qe_data (q_entries q ! lowest)),
        q_entries := remove_at lowest (q_entries q), q_overflow := True\<rparr>)"

lemma make_room_unfold:
  "make_room q n =
     (if \<not> needs_room q n then Some q
      else if q_entries q = [] then None else make_room (evict_one q) n)"
  by (subst make_room.simps) (simp add: evict_one_def Let_def)

lemma evict_one_wf:
  assumes "wf_queue q" "q_entries q \<noteq> []"
  shows "wf_queue (evict_one q)"
proof -
  note i = lowest_idx_bound [OF assms(2)]
  show ?thesis
    using assms(1) total_remove [OF i] remove_at_length [OF i] set_remove_at [of "lowest_idx (q_entries q)" "q_entries q"]
    by (auto simp: evict_one_def Let_def wf_queue_def fits_alone_def)
qed

lemma evict_one_frame [simp]:
  "q_capacity_octets (evict_one q) = q_capacity_octets q"
  "q_max_avtpdu_size_octets (evict_one q) = q_max_avtpdu_size_octets q"
  "q_next_sequence_num (evict_one q) = q_next_sequence_num q"
  "q_overflow (evict_one q)"
  "q_entries (evict_one q) = remove_at (lowest_idx (q_entries q)) (q_entries q)"
  by (simp_all add: evict_one_def Let_def)

definition crowded :: "resp_queue \<Rightarrow> queue_entry list \<Rightarrow> nat \<Rightarrow> bool" where
  "crowded q es n \<longleftrightarrow>
     q_capacity_octets q \<noteq> 0 \<and> q_capacity_octets q < total_octets es + n \<or>
     length es = kMaxQueueEntries"

lemma needs_room_crowded: "wf_queue q \<Longrightarrow> needs_room q n \<longleftrightarrow> crowded q (q_entries q) n"
  by (auto simp: needs_room_def crowded_def wf_queue_def)

text \<open>
  The outcome of making room: from a consistent queue the loop ends within the entries, leaves
  room for the frame, and evicted a list of entries in which each was needed when it was taken.
\<close>

definition made_room :: "resp_queue \<Rightarrow> nat \<Rightarrow> resp_queue \<Rightarrow> queue_entry list \<Rightarrow> bool" where
  "made_room q n q' out \<longleftrightarrow>
     wf_queue q' \<and> \<not> crowded q (q_entries q') n \<and>
     evicted_from (q_entries q) out (q_entries q') \<and>
     (out \<noteq> [] \<longrightarrow> crowded q (last out # q_entries q') n) \<and>
     q' = q\<lparr>q_entries := q_entries q', q_octets := q_octets q',
            q_overflow := q_overflow q \<or> out \<noteq> []\<rparr>"

lemma crowded_mset: "mset es = mset fs \<Longrightarrow> crowded q es n = crowded q fs n"
proof -
  assume a: "mset es = mset fs"
  then have "total_octets es = total_octets fs"
    by (metis mset_map sum_mset_sum_list total_octets_def)
  with a show ?thesis by (simp add: crowded_def size_mset [symmetric] del: size_mset)
qed

lemma make_room_Some:
  assumes "wf_queue q" "q_capacity_octets q = 0 \<or> n \<le> q_capacity_octets q"
  shows "\<exists>q' out. make_room q n = Some q' \<and> made_room q n q' out"
  using assms
proof (induction q n rule: make_room.induct)
  case (1 q n)
  show ?case
  proof (cases "needs_room q n")
    case False
    then have "make_room q n = Some q" by (simp add: make_room_unfold)
    moreover have "made_room q n q []"
      using False 1(2) by (simp add: made_room_def needs_room_crowded evicted_from_def)
    ultimately show ?thesis by blast
  next
    case True
    then have ne: "q_entries q \<noteq> []"
      using 1(2,3) by (auto simp: needs_room_def wf_queue_def kMaxQueueEntries_def)
    define low where "low = lowest_idx (q_entries q)"
    let ?e = "q_entries q ! low"
    have low: "low < length (q_entries q)" using ne by (simp add: low_def lowest_idx_bound)
    obtain q' out where r: "make_room (evict_one q) n = Some q'" "made_room (evict_one q) n q' out"
      using 1(1) [OF _ ne refl] True 1(3) evict_one_wf [OF 1(2) ne]
      by (fastforce simp: evict_one_def Let_def)
    have ev: "evicted_from (q_entries q) (?e # out) (q_entries q')"
    proof -
      have m: "mset (q_entries q) = mset (?e # out) + mset (q_entries q')"
        using r(2) mset_remove_at [OF low] by (simp add: made_room_def evicted_from_def low_def)
      have "\<forall>r \<in> set (q_entries q). qe_sequence_num ?e \<le> qe_sequence_num r"
        using lowest_idx_least [of _ "q_entries q"] by (auto simp: in_set_conv_nth low_def)
      moreover have "set (q_entries q') \<subseteq> set (q_entries q)"
        using arg_cong [OF m, of set_mset] by auto
      ultimately show ?thesis
        using r(2) m subseq_order.trans [OF _ subseq_remove_at]
        by (auto simp: made_room_def evicted_from_def)
    qed
    have "crowded q (last (?e # out) # q_entries q') n"
    proof (cases "out = []")
      case True
      then have "mset (q_entries q) = mset (?e # q_entries q')" using ev by (simp add: evicted_from_def)
      then show ?thesis using True \<open>needs_room q n\<close> 1(2) crowded_mset needs_room_crowded
        by (metis last_ConsL)
    next
      case False
      then show ?thesis using r(2) by (simp add: made_room_def crowded_def)
    qed
    moreover have "q' = q\<lparr>q_entries := q_entries q', q_octets := q_octets q', q_overflow := True\<rparr>"
      using r(2) by (auto simp: made_room_def evict_one_def Let_def)
    ultimately have "made_room q n q' (?e # out)"
      using r(2) ev by (auto simp: made_room_def crowded_def)
    moreover have "make_room q n = Some q'" using r(1) True ne by (subst make_room_unfold) simp
    ultimately show ?thesis by blast
  qed
qed

section \<open>Pushing and popping\<close>

lemma push_seq_refused: "\<not> fits_alone q (length frame) \<Longrightarrow> push_seq q frame s = Some (False, q)"
  by (auto simp: push_seq_def fits_alone_def)

definition appended :: "resp_queue \<Rightarrow> octets \<Rightarrow> u8 \<Rightarrow> resp_queue" where
  "appended q frame s =
     q\<lparr>q_entries := q_entries q @ [\<lparr>qe_data = frame, qe_sequence_num = s\<rparr>],
       q_octets := q_octets q + length frame\<rparr>"

lemma push_seq_accepted:
  assumes "wf_queue q" "fits_alone q (length frame)"
  shows "\<exists>q' out. made_room q (length frame) q' out \<and>
    push_seq q frame s = Some (True, appended q' frame s)"
  using make_room_Some [OF assms(1), of "length frame"] assms(2)
  by (auto simp: push_seq_def fits_alone_def appended_def)

lemma made_room_frame:
  "made_room q n q' out \<Longrightarrow>
     q' = q\<lparr>q_entries := q_entries q', q_octets := q_octets q', q_overflow := q_overflow q \<or> out \<noteq> []\<rparr>"
  by (simp add: made_room_def)

lemma appended_wf:
  assumes "made_room q (length frame) q' out" "fits_alone q (length frame)"
  shows "wf_queue (appended q' frame s)"
proof -
  have f: "q_capacity_octets q' = q_capacity_octets q" "q_max_avtpdu_size_octets q' = q_max_avtpdu_size_octets q"
    by (subst made_room_frame [OF assms(1)], simp)+
  have w: "wf_queue q'" and c: "\<not> crowded q (q_entries q') (length frame)"
    using assms(1) by (simp_all add: made_room_def)
  have "length (q_entries q') < kMaxQueueEntries"
    using w c by (simp add: wf_queue_def crowded_def)
  then show ?thesis
    using w c assms(2) f by (auto simp: wf_queue_def appended_def fits_alone_def crowded_def not_less)
qed

lemma push_accepted:
  assumes "wf_queue q" "fits_alone q (length frame)"
  shows "\<exists>q'. push q frame = Some (True, q') \<and> wf_queue q'"
proof -
  obtain q1 out where q1: "made_room q (length frame) q1 out"
      "push_seq q frame (q_next_sequence_num q) = Some (True, appended q1 frame (q_next_sequence_num q))"
    using push_seq_accepted [OF assms] by blast
  have "wf_queue (q'\<lparr>q_next_sequence_num := n\<rparr>) = wf_queue q'" for q' n
    by (simp add: wf_queue_def fits_alone_def)
  then show ?thesis
    using q1(2) appended_wf [OF q1(1) assms(2)] by (simp add: push_def)
qed

lemma pop_wf: "wf_queue q \<Longrightarrow> pop q = Some (frame, q') \<Longrightarrow> wf_queue q'"
  by (auto simp: pop_def wf_queue_def fits_alone_def split: list.splits)

text \<open>
  C31. The queue keeps its octet budget and its 64 slots through every push, never reads
  outside its entries, and refuses a frame exactly when the frame alone exceeds the
  per-message ceiling or the budget, with the queue unchanged. An accepted frame becomes the
  last entry with the next sequence number; the entries in front of it are those of before, in
  order, without the evicted ones. Each evicted entry has a sequence number at most that of
  every entry kept, the last eviction was needed (putting that entry back would leave no
  room), and the overflow bit is set exactly when something was evicted.
\<close>

theorem push_evicts_lowest:
  assumes "wf_queue q"
  shows "if fits_alone q (length frame)
    then (\<exists>q' kept out. push q frame = Some (True, q') \<and> wf_queue q' \<and>
      q_entries q' = kept @ [\<lparr>qe_data = frame, qe_sequence_num = q_next_sequence_num q\<rparr>] \<and>
      q_next_sequence_num q' = q_next_sequence_num q + 1 \<and>
      evicted_from (q_entries q) out kept \<and>
      (out \<noteq> [] \<longrightarrow> crowded q (last out # kept) (length frame)) \<and>
      (q_overflow q' \<longleftrightarrow> q_overflow q \<or> out \<noteq> []))
    else push q frame = Some (False, q)"
proof (cases "fits_alone q (length frame)")
  case True
  obtain q1 out where r: "made_room q (length frame) q1 out"
    "push_seq q frame (q_next_sequence_num q) = Some (True, appended q1 frame (q_next_sequence_num q))"
    using push_seq_accepted [OF assms True] by blast
  define q' where "q' = (appended q1 frame (q_next_sequence_num q))\<lparr>q_next_sequence_num := q_next_sequence_num q + 1\<rparr>"
  have n: "q_next_sequence_num q1 = q_next_sequence_num q" "q_overflow q1 = (q_overflow q \<or> out \<noteq> [])"
    by (subst made_room_frame [OF r(1)], simp)+
  have p: "push q frame = Some (True, q')"
    using r(2) n by (simp add: push_def appended_def q'_def)
  have w: "wf_queue q'"
    using appended_wf [OF r(1) True, of "q_next_sequence_num q"] by (auto simp: wf_queue_def fits_alone_def q'_def)
  have "q_entries q' = q_entries q1 @ [\<lparr>qe_data = frame, qe_sequence_num = q_next_sequence_num q\<rparr>]"
    "q_next_sequence_num q' = q_next_sequence_num q + 1" "q_overflow q' = q_overflow q1"
    by (simp_all add: q'_def appended_def)
  moreover have "evicted_from (q_entries q) out (q_entries q1)"
    "out \<noteq> [] \<longrightarrow> crowded q (last out # q_entries q1) (length frame)"
    using r(1) by (simp_all add: made_room_def)
  ultimately show ?thesis
    using True p w n(2) by (subst if_P) blast+
qed (simp add: push_def push_seq_refused)

definition best_prefix :: "nat \<Rightarrow> queue_entry list \<Rightarrow> nat \<Rightarrow> bool" where
  "best_prefix m es k \<longleftrightarrow>
     k \<le> length es \<and> (es \<noteq> [] \<longrightarrow> 0 < k) \<and> (k \<le> 1 \<or> total_octets (take k es) \<le> m) \<and>
     (k < length es \<longrightarrow> m < total_octets (take (k + 1) es))"

lemma plan_batch_loop_spec:
  assumes "ds \<noteq> [] \<longrightarrow> length ds \<le> 1 \<or> total_octets ds \<le> m"
  shows "best_prefix m (ds @ es) (plan_batch_loop m es (length ds) (total_octets ds))"
  using assms
proof (induction es arbitrary: ds)
  case (Cons e es)
  let ?t = "total_octets ds + length (qe_data e)"
  show ?case
  proof (cases "0 < length ds \<and> m < ?t")
    case True
    then show ?thesis using Cons.prems by (simp add: best_prefix_def)
  next
    case False
    then have "best_prefix m ((ds @ [e]) @ es)
        (plan_batch_loop m es (length (ds @ [e])) (total_octets (ds @ [e])))"
      by (intro Cons.IH) (cases ds; auto simp: not_less add.assoc)
    with False show ?thesis by (simp only: plan_batch_loop.simps Let_def length_append) auto
  qed
qed (auto simp: best_prefix_def)

text \<open>
  The batch planned for one AVTPDU is the longest prefix of the queue that fits the given
  size, but at least one entry when there is one; a size of zero means no limit. Popping takes
  the entries from the front, in order, and keeps the queue consistent.
\<close>

theorem plan_batch_maximal_prefix:
  assumes "wf_queue q" "q_entries q = e # es" "k = plan_batch q m"
  shows "1 \<le> k \<and> k \<le> length (q_entries q) \<and>
    (m = 0 \<longrightarrow> k = length (q_entries q)) \<and>
    (m \<noteq> 0 \<longrightarrow> k = 1 \<or> total_octets (take k (q_entries q)) \<le> m) \<and>
    (m \<noteq> 0 \<longrightarrow> k < length (q_entries q) \<longrightarrow> m < total_octets (take (k + 1) (q_entries q))) \<and>
    (\<exists>q'. pop q = Some (qe_data e, q') \<and> q_entries q' = es \<and> wf_queue q')"
proof -
  have "\<exists>q'. pop q = Some (qe_data e, q') \<and> q_entries q' = es \<and> wf_queue q'"
    using assms(1,2) pop_wf [OF assms(1)] by (simp add: pop_def)
  moreover have "m \<noteq> 0 \<Longrightarrow> best_prefix m (q_entries q) k"
    using plan_batch_loop_spec [of "[]" m "q_entries q"] assms(2,3) by (simp add: plan_batch_def)
  ultimately show ?thesis
    using assms(2,3) by (cases "m = 0") (auto simp: plan_batch_def best_prefix_def)
qed

section \<open>Inputs\<close>

definition sample_queue :: resp_queue where
  "sample_queue =
     \<lparr>q_entries = [\<lparr>qe_data = [1, 2, 3], qe_sequence_num = 255\<rparr>,
                   \<lparr>qe_data = [4, 5], qe_sequence_num = 0\<rparr>, \<lparr>qe_data = [6], qe_sequence_num = 1\<rparr>],
      q_octets = 6, q_capacity_octets = 7, q_max_avtpdu_size_octets = 0,
      q_next_sequence_num = 2, q_overflow = False\<rparr>"

lemma sample_queue_wf: "wf_queue sample_queue"
  by (simp add: wf_queue_def sample_queue_def fits_alone_def kMaxQueueEntries_def)

lemma sample_push: "(case push sample_queue [7, 8] of None \<Rightarrow> [] | Some (ok, q) \<Rightarrow> map qe_sequence_num (q_entries q)) = [255, 1, 2]"
  by code_simp

lemma push_evicts_lowest_witness:
  "\<exists>q'. push sample_queue [7, 8] = Some (True, q') \<and> wf_queue q' \<and> last (q_entries q') = \<lparr>qe_data = [7, 8], qe_sequence_num = 2\<rparr>"
  using push_evicts_lowest [OF sample_queue_wf, of "[7, 8]"]
  by (auto simp: fits_alone_def sample_queue_def)

lemma plan_batch_maximal_prefix_witness:
  "plan_batch sample_queue 5 = 2 \<and> (\<exists>q'. pop sample_queue = Some ([1, 2, 3], q') \<and> wf_queue q')"
  using plan_batch_maximal_prefix [OF sample_queue_wf, where m = 5 and k = 2]
  by (auto simp: plan_batch_def sample_queue_def)

end
