(* ===== verification/Fragment.thy ===== *)
theory Fragment
  imports Prelude
begin

text \<open>
  Fragmentation and reassembly, \<open>include/rcp/fragment.hpp\<close>: the plan that splits a payload
  into fragments of a fixed size, and the accumulator that joins them again in order.
  A \<open>size_t\<close> is a natural number below \<open>2 ^ 64\<close>, its wrap-around written out.
\<close>

section \<open>Planning\<close>

definition size_add :: "nat \<Rightarrow> nat \<Rightarrow> nat" where
  "size_add a b = (a + b) mod 2 ^ 64"

definition size_sub :: "nat \<Rightarrow> nat \<Rightarrow> nat" where
  "size_sub a b = (a + 2 ^ 64 - b) mod 2 ^ 64"

definition kMaxIntermediateSegments :: nat where
  "kMaxIntermediateSegments = 4096"

record segment =
  sg_offset :: nat
  sg_len :: nat
  sg_ms :: bool
  sg_segment_num :: u16

definition plan_count :: "nat \<Rightarrow> nat \<Rightarrow> nat" where
  "plan_count payload_len max_fragment_payload =
     (if payload_len = 0 then 1
      else if max_fragment_payload = 0 then 0
      else if payload_len \<le> max_fragment_payload then 1
      else
        (let count = size_sub (size_add payload_len max_fragment_payload) 1 div max_fragment_payload;
             intermediate = size_sub count 1
         in if kMaxIntermediateSegments < intermediate then 0 else count))"

text \<open>The segments written by the loop of \<open>plan\<close>, and the last one behind it.\<close>

definition intermediate_segment :: "nat \<Rightarrow> nat \<Rightarrow> segment" where
  "intermediate_segment max_fragment_payload i =
     \<lparr>sg_offset = i * max_fragment_payload, sg_len = max_fragment_payload, sg_ms = True,
      sg_segment_num = word_of_nat i\<rparr>"

fun plan_loop :: "nat \<Rightarrow> nat \<Rightarrow> nat \<Rightarrow> nat \<Rightarrow> segment list \<times> nat" where
  "plan_loop 0 max_fragment_payload i off = ([], off)"
| "plan_loop (Suc n) max_fragment_payload i off =
     (case plan_loop n max_fragment_payload (i + 1) (off + max_fragment_payload) of
        (segs, off') \<Rightarrow>
          (\<lparr>sg_offset = off, sg_len = max_fragment_payload, sg_ms = True,
            sg_segment_num = word_of_nat i\<rparr> # segs, off'))"

definition plan :: "nat \<Rightarrow> nat \<Rightarrow> nat \<Rightarrow> segment list result" where
  "plan payload_len max_fragment_payload segment_count =
     (let expected = plan_count payload_len max_fragment_payload in
      if expected = 0
      then Inl (Fragment_err (if max_fragment_payload = 0 then Disabled else Too_many_segments))
      else if segment_count \<noteq> expected then Inl (Fragment_err Bad_segment_count)
      else if expected = 1
      then Inr [\<lparr>sg_offset = 0, sg_len = payload_len, sg_ms = False, sg_segment_num = 0\<rparr>]
      else
        (case plan_loop (expected - 1) max_fragment_payload 0 0 of
           (segs, off) \<Rightarrow>
             Inr (segs @ [\<lparr>sg_offset = off, sg_len = payload_len - off, sg_ms = False,
                           sg_segment_num = 0\<rparr>])))"

section \<open>Reassembly\<close>

datatype reasm_result = KContinue | KComplete | KErr_out_of_order | KErr_too_large

definition kDefaultReassemblyCapacity :: nat where
  "kDefaultReassemblyCapacity = 4096"

text \<open>\<open>ra_data\<close> is the first \<open>len_\<close> octets of the fixed buffer, the part \<open>data()\<close> shows.\<close>

record reassembler =
  ra_data :: octets
  ra_max_total_len :: nat
  ra_collecting :: bool
  ra_expected_segment_num :: u16

definition new_reassembler :: "nat \<Rightarrow> reassembler" where
  "new_reassembler max_total_len =
     \<lparr>ra_data = [], ra_max_total_len = max_total_len, ra_collecting = False,
      ra_expected_segment_num = 0\<rparr>"

definition ra_reset :: "reassembler \<Rightarrow> reassembler" where
  "ra_reset r = r\<lparr>ra_collecting := False, ra_expected_segment_num := 0, ra_data := []\<rparr>"

definition ra_fits :: "reassembler \<Rightarrow> nat \<Rightarrow> bool" where
  "ra_fits r append_len \<longleftrightarrow>
     append_len \<le> size_sub (min (ra_max_total_len r) kDefaultReassemblyCapacity) (length (ra_data r))"

definition ra_append :: "reassembler \<Rightarrow> octets \<Rightarrow> reassembler" where
  "ra_append r payload = r\<lparr>ra_data := ra_data r @ payload\<rparr>"

definition feed :: "reassembler \<Rightarrow> bool \<Rightarrow> u16 \<Rightarrow> octets \<Rightarrow> reasm_result \<times> reassembler" where
  "feed r ms segment_num payload =
     (if \<not> ra_collecting r then
        if \<not> ra_fits r (length payload) then (KErr_too_large, r)
        else if \<not> ms then (KComplete, ra_append r payload)
        else if segment_num \<noteq> 0 then (KErr_out_of_order, r)
        else (KContinue,
          (ra_append r payload)\<lparr>ra_collecting := True, ra_expected_segment_num := 1\<rparr>)
      else if ms \<and> segment_num \<noteq> ra_expected_segment_num r then (KErr_out_of_order, r)
      else if \<not> ra_fits r (length payload) then (KErr_too_large, r)
      else if ms then (KContinue,
          (ra_append r payload)\<lparr>ra_expected_segment_num := ra_expected_segment_num r + 1\<rparr>)
      else (KComplete, (ra_append r payload)\<lparr>ra_collecting := False\<rparr>))"

section \<open>The plan\<close>

lemma plan_loop_eq:
  "plan_loop n m i (i * m) = (map (intermediate_segment m) [i..<i + n], (i + n) * m)"
proof (induction n arbitrary: i)
  case (Suc n)
  then show ?case
    using Suc.IH [of "Suc i"] by (simp add: intermediate_segment_def upt_conv_Cons add.commute del: upt_Suc)
qed simp

text \<open>
  For payloads whose length and fragment size together fit \<open>size_t\<close>, the count is the
  quotient rounded up.
\<close>

lemma plan_count_eq:
  assumes "n + m < 2 ^ 64"
  shows "plan_count n m =
     (if n = 0 \<or> (0 < m \<and> n \<le> m) then 1
      else if m = 0 \<or> kMaxIntermediateSegments < (n - 1) div m then 0 else (n - 1) div m + 1)"
proof (cases "n = 0 \<or> m = 0 \<or> n \<le> m")
  case False
  then have nm: "0 < m" "m < n" by auto
  have "size_sub (size_add n m) 1 = n - 1 + m"
    using nm assms by (simp add: size_add_def size_sub_def mod_if)
  moreover have "(n - 1 + m) div m = (n - 1) div m + 1"
    by (rule div_add_self2) (use nm in simp)
  moreover have "(n - 1) div m < 2 ^ 64" using assms by (meson add_lessD1 div_le_dividend le_less_trans less_imp_diff_less)
  then have "size_sub ((n - 1) div m + 1) 1 = (n - 1) div m"
    by (simp add: size_sub_def)
  ultimately show ?thesis using nm by (simp add: plan_count_def Let_def)
qed (auto simp: plan_count_def)

lemma plan_eq:
  assumes "n + m < 2 ^ 64" "plan n m c = Inr segs"
  shows "\<exists>k off. c = Suc k \<and> off = k * m \<and> off \<le> n \<and> k \<le> kMaxIntermediateSegments \<and>
    (m = 0 \<or> n - off \<le> m) \<and> (m = 0 \<longrightarrow> n = 0) \<and>
    segs = map (intermediate_segment m) [0..<k] @
      [\<lparr>sg_offset = off, sg_len = n - off, sg_ms = False, sg_segment_num = 0\<rparr>]"
proof (cases "n = 0 \<or> (0 < m \<and> n \<le> m)")
  case True
  then show ?thesis
    using assms by (auto simp: plan_def plan_count_eq Let_def split: if_splits)
next
  case False
  let ?k = "(n - 1) div m"
  have c: "plan_count n m \<noteq> 0" "c = plan_count n m"
    using assms(2) by (auto simp: plan_def Let_def split: if_splits)
  then have k: "0 < m" "?k \<le> kMaxIntermediateSegments" "c = Suc ?k"
    using False assms(1) by (auto simp: plan_count_eq split: if_splits)
  have d: "?k * m \<le> n - 1" "n - 1 < ?k * m + m"
    using k(1) using dividend_less_div_times [OF k(1), of "n - 1"] by (simp_all add: div_times_less_eq_dividend add.commute)
  have "0 < ?k" using False k(1) by (auto simp: div_greater_zero_iff)
  then have "segs = map (intermediate_segment m) [0..<?k] @
      [\<lparr>sg_offset = ?k * m, sg_len = n - ?k * m, sg_ms = False, sg_segment_num = 0\<rparr>]"
    using assms(2) c(1) c(2) [unfolded k(3)] plan_loop_eq [of ?k m 0]
    by (simp add: plan_def Let_def k(3) flip: c(2))
  moreover have "?k * m \<le> n" "m = 0 \<or> n - ?k * m \<le> m" "m = 0 \<longrightarrow> n = 0"
    using d k(1) by linarith+
  ultimately show ?thesis using k by blast
qed

definition slice :: "octets \<Rightarrow> segment \<Rightarrow> octets" where
  "slice payload s = take (sg_len s) (drop (sg_offset s) payload)"

lemma slices_concat:
  "k * m \<le> length xs \<Longrightarrow> concat (map (slice xs \<circ> intermediate_segment m) [0..<k]) = take (k * m) xs"
proof (induction k)
  case (Suc k)
  then show ?case
    using take_add [of "k * m" m xs]
    by (simp add: slice_def intermediate_segment_def add.commute)
qed simp

lemma slice_length:
  "(Suc i) * m \<le> length xs \<Longrightarrow> length (slice xs (intermediate_segment m i)) = m"
  by (simp add: slice_def intermediate_segment_def)

text \<open>
  A plan that is produced splits the payload completely: the slices joined give the
  payload, there are as many as the count says, no slice exceeds the fragment size, all but the
  last are marked as intermediate and numbered from zero without wrapping the 12-bit field, and
  the last one is not marked. The plan fails exactly when the size is zero for a non-empty
  payload or more than 4096 intermediate fragments would be needed.
\<close>

theorem plan_partitions_payload:
  assumes "length xs + m < 2 ^ 64"
  shows "(case plan (length xs) m (plan_count (length xs) m) of
      Inr segs \<Rightarrow>
        length segs = plan_count (length xs) m \<and> concat (map (slice xs) segs) = xs \<and>
        (\<forall>s \<in> set segs. m \<noteq> 0 \<longrightarrow> sg_len s \<le> m) \<and>
        (\<forall>i < length segs. sg_ms (segs ! i) \<longleftrightarrow> i + 1 < length segs) \<and>
        (\<forall>i < length segs. i + 1 < length segs \<longrightarrow> i < 4096 \<and> unat (sg_segment_num (segs ! i)) = i)
    | Inl e \<Rightarrow> xs \<noteq> [] \<and>
        (m = 0 \<and> e = Fragment_err Disabled \<or>
         m \<noteq> 0 \<and> 4097 * m < length xs \<and> e = Fragment_err Too_many_segments))"
proof (cases "plan (length xs) m (plan_count (length xs) m)")
  case (Inr segs)
  obtain k where s: "plan_count (length xs) m = Suc k" "k * m \<le> length xs" "k \<le> 4096"
      "m = 0 \<or> length xs - k * m \<le> m" and
    segs: "segs = map (intermediate_segment m) [0..<k] @
      [\<lparr>sg_offset = k * m, sg_len = length xs - k * m, sg_ms = False, sg_segment_num = 0\<rparr>]"
    using plan_eq [OF assms Inr] by (auto simp: kMaxIntermediateSegments_def)
  have l: "length segs = Suc k" by (simp add: segs)
  have c: "concat (map (slice xs) segs) = xs"
    using slices_concat [OF s(2)] by (simp add: segs slice_def)
  have b: "\<forall>t \<in> set segs. m \<noteq> 0 \<longrightarrow> sg_len t \<le> m"
    using s(4) by (auto simp: segs intermediate_segment_def)
  have i: "segs ! i = intermediate_segment m i" if "i < k" for i
    using that by (simp add: segs nth_append)
  have ms: "\<forall>i < length segs. sg_ms (segs ! i) \<longleftrightarrow> i + 1 < length segs"
    using l i by (auto simp: less_Suc_eq intermediate_segment_def) (simp add: segs nth_append)
  have n: "i < 4096 \<and> unat (sg_segment_num (segs ! i)) = i" if "i + 1 < length segs" for i
    using that s(3) i l by (simp add: intermediate_segment_def unat_of_nat)
  show ?thesis using Inr l s(1) c b ms n by simp
next
  case (Inl e)
  then have p: "plan_count (length xs) m = 0"
    by (auto simp: plan_def Let_def split: if_splits prod.splits)
  then have x: "xs \<noteq> []" by (auto simp: plan_count_def)
  have "4097 * m < length xs" if "m \<noteq> 0"
  proof -
    have "4096 < (length xs - 1) div m"
      using p x that assms by (auto simp: plan_count_eq kMaxIntermediateSegments_def split: if_splits)
    then have "4097 * m \<le> length xs - 1"
      using that less_eq_div_iff_mult_less_eq [of m 4097 "length xs - 1"] by simp
    with x show ?thesis by (cases xs) auto
  qed
  then show ?thesis using Inl p x by (cases "m = 0") (auto simp: plan_def)
qed

section \<open>Feeding a plan\<close>

definition wf_reassembler :: "reassembler \<Rightarrow> bool" where
  "wf_reassembler r \<longleftrightarrow> length (ra_data r) \<le> min (ra_max_total_len r) kDefaultReassemblyCapacity"

lemma ra_fits_iff:
  "wf_reassembler r \<Longrightarrow>
     ra_fits r n \<longleftrightarrow> length (ra_data r) + n \<le> min (ra_max_total_len r) kDefaultReassemblyCapacity"
proof -
  assume w: "wf_reassembler r"
  let ?c = "min (ra_max_total_len r) kDefaultReassemblyCapacity"
  have "?c < 2 ^ 64" by (simp add: min_def kDefaultReassemblyCapacity_def)
  then have "size_sub ?c (length (ra_data r)) = ?c - length (ra_data r)"
    using w by (simp add: size_sub_def wf_reassembler_def mod_if del: min.bounded_iff)
  then show ?thesis using w by (auto simp: ra_fits_def wf_reassembler_def)
qed

lemma feed_wf: "wf_reassembler r \<Longrightarrow> wf_reassembler (snd (feed r ms n payload))"
  by (auto simp: feed_def ra_append_def wf_reassembler_def dest: ra_fits_iff [THEN iffD1, rotated])

definition accepted :: "reasm_result \<Rightarrow> bool" where
  "accepted x \<longleftrightarrow> x = KContinue \<or> x = KComplete"

lemma feed_effect:
  "feed r ms n payload = (x, r') \<Longrightarrow>
     ra_max_total_len r' = ra_max_total_len r \<and>
     (if accepted x then ra_data r' = ra_data r @ payload \<and> (ra_collecting r' \<longleftrightarrow> ms) else r' = r)"
  by (auto simp: feed_def ra_append_def accepted_def split: if_splits)

text \<open>A run: the fragments fed one after the other, with the result of each.\<close>

type_synonym fragment = "bool \<times> u16 \<times> octets"

fun feed_all :: "reassembler \<Rightarrow> fragment list \<Rightarrow> reasm_result list \<times> reassembler" where
  "feed_all r [] = ([], r)"
| "feed_all r ((ms, n, payload) # fs) =
     (case feed r ms n payload of
        (x, r') \<Rightarrow> (case feed_all r' fs of (xs, r'') \<Rightarrow> (x # xs, r'')))"

fun accepted_payload :: "reasm_result list \<Rightarrow> fragment list \<Rightarrow> octets" where
  "accepted_payload (x # xs) ((ms, n, payload) # fs) =
     (if accepted x then payload else []) @ accepted_payload xs fs"
| "accepted_payload xs fs = []"

lemma feed_all_append:
  "feed_all r (fs @ gs) =
     (case feed_all r fs of (xs, r') \<Rightarrow> (case feed_all r' gs of (ys, r'') \<Rightarrow> (xs @ ys, r'')))"
  by (induction r fs rule: feed_all.induct) (simp_all split: prod.splits)

lemma feed_all_run:
  assumes "wf_reassembler r" "feed_all r fs = (xs, r')"
  shows "wf_reassembler r' \<and> ra_max_total_len r' = ra_max_total_len r \<and>
    ra_data r' = ra_data r @ accepted_payload xs fs"
  using assms
proof (induction r fs arbitrary: xs rule: feed_all.induct)
  case (2 r ms n payload fs)
  obtain x r1 where f: "feed r ms n payload = (x, r1)" by force
  then show ?case
    using 2 feed_wf [OF "2.prems"(1), of ms n payload] feed_effect [OF f]
    by (fastforce split: prod.splits if_splits)
qed simp

text \<open>
  Whatever sequence of fragments is fed, the reassembled data never exceeds the limit of
  the message or the 4096 octets of the buffer, and is exactly the payloads of the accepted
  fragments, in order; a refused fragment leaves the accumulator as it was.
\<close>

theorem reassembly_bounded:
  assumes "feed_all (new_reassembler limit) fs = (xs, r')"
  shows "length (ra_data r') \<le> min limit kDefaultReassemblyCapacity \<and>
    ra_data r' = accepted_payload xs fs \<and> length xs = length fs \<and>
    (\<forall>ms n payload x r''. feed r' ms n payload = (x, r'') \<longrightarrow> \<not> accepted x \<longrightarrow> r'' = r')"
proof -
  have "length xs = length fs" if "feed_all r fs = (xs, r')" for r
    using that by (induction r fs arbitrary: xs rule: feed_all.induct) (auto split: prod.splits)
  moreover have "wf_reassembler (new_reassembler limit)"
    by (simp add: wf_reassembler_def new_reassembler_def)
  ultimately show ?thesis
    using feed_all_run [OF _ assms] assms feed_effect [of r']
    by (auto simp: wf_reassembler_def new_reassembler_def split: if_splits)
qed

definition fragment_of :: "octets \<Rightarrow> segment \<Rightarrow> fragment" where
  "fragment_of payload s = (sg_ms s, sg_segment_num s, slice payload s)"

text \<open>Each intermediate fragment sent once and then \<open>dups i\<close> more times.\<close>

definition transmissions :: "(nat \<Rightarrow> nat) \<Rightarrow> octets \<Rightarrow> nat \<Rightarrow> nat \<Rightarrow> fragment list" where
  "transmissions dups xs m k =
     concat (map (\<lambda>i. replicate (Suc (dups i)) (fragment_of xs (intermediate_segment m i))) [0..<k])"

definition outcomes :: "(nat \<Rightarrow> nat) \<Rightarrow> nat \<Rightarrow> reasm_result list" where
  "outcomes dups k = concat (map (\<lambda>i. KContinue # replicate (dups i) KErr_out_of_order) [0..<k])"

lemma feed_stale:
  assumes "ra_collecting r" "n \<noteq> ra_expected_segment_num r"
  shows "feed_all r (replicate d (True, n, payload)) = (replicate d KErr_out_of_order, r)"
  using assms by (induction d) (simp_all add: feed_def)

definition midway :: "nat \<Rightarrow> octets \<Rightarrow> nat \<Rightarrow> nat \<Rightarrow> reassembler" where
  "midway limit xs m k =
     \<lparr>ra_data = take (k * m) xs, ra_max_total_len = limit, ra_collecting = k \<noteq> 0,
      ra_expected_segment_num = word_of_nat k\<rparr>"

lemma midway_fits:
  assumes "length xs \<le> limit" "length xs \<le> kDefaultReassemblyCapacity" "k * m + n \<le> length xs"
  shows "ra_fits (midway limit xs m k) n"
proof -
  have "wf_reassembler (midway limit xs m k)"
    using assms by (simp add: wf_reassembler_def midway_def)
  then show ?thesis using assms by (simp add: ra_fits_iff) (simp add: midway_def)
qed

lemma feed_next:
  assumes "length xs \<le> limit" "length xs \<le> kDefaultReassemblyCapacity"
    and "Suc k * m \<le> length xs" "k < 4096"
  shows "feed (midway limit xs m k) True (word_of_nat k) (slice xs (intermediate_segment m k)) =
    (KContinue, midway limit xs m (Suc k))"
proof -
  have f: "ra_fits (midway limit xs m k) m"
    using assms by (intro midway_fits) simp_all
  have d: "take (k * m) xs @ slice xs (intermediate_segment m k) = take (Suc k * m) xs"
    using take_add [of "k * m" m xs] by (simp add: slice_def intermediate_segment_def add.commute)
  show ?thesis
  proof (cases "k = 0")
    case True
    then show ?thesis using f d slice_length [OF assms(3)]
      by (simp add: feed_def) (simp add: midway_def ra_append_def)
  next
    case False
    then have "ra_collecting (midway limit xs m k)" "ra_expected_segment_num (midway limit xs m k) = word_of_nat k"
      by (simp_all add: midway_def)
    then show ?thesis using f d slice_length [OF assms(3)]
      by (simp add: feed_def) (simp add: midway_def ra_append_def add.commute)
  qed
qed

lemma feed_transmissions:
  assumes "length xs \<le> limit" "length xs \<le> kDefaultReassemblyCapacity" "k * m \<le> length xs" "k \<le> 4096"
  shows "feed_all (midway limit xs m 0) (transmissions dups xs m k) = (outcomes dups k, midway limit xs m k)"
  using assms(3,4)
proof (induction k)
  case (Suc k)
  have n: "feed (midway limit xs m k) True (word_of_nat k) (slice xs (intermediate_segment m k)) =
      (KContinue, midway limit xs m (Suc k))"
    using assms Suc.prems by (intro feed_next) simp_all
  have "(word_of_nat k :: u16) \<noteq> word_of_nat (Suc k)" by simp
  then have "feed_all (midway limit xs m (Suc k))
      (replicate (dups k) (True, word_of_nat k, slice xs (intermediate_segment m k))) =
      (replicate (dups k) KErr_out_of_order, midway limit xs m (Suc k))"
    by (intro feed_stale) (simp_all add: midway_def)
  then have "feed_all (midway limit xs m k)
      (replicate (Suc (dups k)) (fragment_of xs (intermediate_segment m k))) =
      (KContinue # replicate (dups k) KErr_out_of_order, midway limit xs m (Suc k))"
    using n by (simp add: fragment_of_def intermediate_segment_def)
  moreover have "feed_all (midway limit xs m 0) (transmissions dups xs m k) = (outcomes dups k, midway limit xs m k)"
    using Suc by simp
  ultimately show ?case
    by (simp add: transmissions_def outcomes_def feed_all_append del: replicate_Suc)
qed (simp add: transmissions_def outcomes_def)

lemma plan_feeds:
  assumes "plan (length xs) m c = Inr segs" "length xs + m < 2 ^ 64"
    and "length xs \<le> limit" "length xs \<le> kDefaultReassemblyCapacity"
  shows "\<exists>r. feed_all (new_reassembler limit)
      (transmissions dups xs m (length segs - 1) @ [fragment_of xs (last segs)]) =
      (outcomes dups (length segs - 1) @ [KComplete], r) \<and> ra_data r = xs \<and> \<not> ra_collecting r"
proof -
  obtain k where k: "k * m \<le> length xs" "k \<le> 4096" and
    segs: "segs = map (intermediate_segment m) [0..<k] @
      [\<lparr>sg_offset = k * m, sg_len = length xs - k * m, sg_ms = False, sg_segment_num = 0\<rparr>]"
    using plan_eq [OF assms(2,1)] by (auto simp: kMaxIntermediateSegments_def)
  have i: "new_reassembler limit = midway limit xs m 0"
    by (simp add: new_reassembler_def midway_def)
  have "fragment_of xs (last segs) = (False, 0, drop (k * m) xs)"
    by (simp add: segs fragment_of_def slice_def)
  moreover have "ra_fits (midway limit xs m k) (length (drop (k * m) xs))"
    using assms k by (intro midway_fits) simp_all
  ultimately show ?thesis
    using feed_transmissions [OF assms(3,4) k, of dups]
    by (simp add: i feed_all_append feed_def segs) (simp add: ra_append_def midway_def)
qed

text \<open>The fragments in order, each once.\<close>

lemma plan_feeds_in_order:
  assumes "plan (length xs) m c = Inr segs" "length xs + m < 2 ^ 64"
    and "length xs \<le> limit" "length xs \<le> kDefaultReassemblyCapacity"
  shows "\<exists>r. feed_all (new_reassembler limit) (map (fragment_of xs) segs) =
      (replicate (length segs - 1) KContinue @ [KComplete], r) \<and> ra_data r = xs \<and> \<not> ra_collecting r"
proof -
  obtain k off where segs: "segs = map (intermediate_segment m) [0..<k] @
      [\<lparr>sg_offset = off, sg_len = length xs - off, sg_ms = False, sg_segment_num = 0\<rparr>]"
    using plan_eq [OF assms(2,1)] by blast
  have "transmissions (\<lambda>_. 0) xs m k = map (fragment_of xs \<circ> intermediate_segment m) [0..<k]" for k
    by (induction k) (simp_all add: transmissions_def)
  moreover have "outcomes (\<lambda>_. 0) k = replicate k KContinue" for k
    by (induction k) (simp_all add: outcomes_def replicate_append_same)
  ultimately show ?thesis
    using plan_feeds [OF assms, of "\<lambda>_. 0"] by (simp add: segs)
qed

text \<open>
  C30. A payload within the limits that is planned, sent fragment by fragment with any
  intermediate fragment repeated any number of times, and fed to a fresh accumulator is
  reassembled exactly: the first copy of each fragment is accepted, every repeated copy is
  refused as out of order, and the last fragment completes the payload.
\<close>

theorem plan_reassembles:
  assumes "plan (length xs) m c = Inr segs" "length xs + m < 2 ^ 64"
    and "length xs \<le> limit" "length xs \<le> kDefaultReassemblyCapacity"
  shows "\<exists>r. feed_all (new_reassembler limit)
      (transmissions dups xs m (length segs - 1) @ [fragment_of xs (last segs)]) =
      (outcomes dups (length segs - 1) @ [KComplete], r) \<and> ra_data r = xs \<and> \<not> ra_collecting r"
  using plan_feeds [OF assms, of dups] by blast

section \<open>Inputs\<close>

lemma sample_plan:
  "plan_count 5 2 = 3"
  "plan 5 2 3 = Inr [intermediate_segment 2 0, intermediate_segment 2 1,
     \<lparr>sg_offset = 4, sg_len = 1, sg_ms = False, sg_segment_num = 0\<rparr>]"
proof -
  show c: "plan_count 5 2 = 3"
    by (simp add: plan_count_eq kMaxIntermediateSegments_def)
  have "plan_loop 2 2 0 0 = ([intermediate_segment 2 0, intermediate_segment 2 1], 4)"
    by (simp add: numeral_2_eq_2 intermediate_segment_def)
  then show "plan 5 2 3 = Inr [intermediate_segment 2 0, intermediate_segment 2 1,
     \<lparr>sg_offset = 4, sg_len = 1, sg_ms = False, sg_segment_num = 0\<rparr>]"
    by (simp add: plan_def c)
qed

definition sample_payload :: octets where
  "sample_payload = [1, 2, 3, 4, 5]"

lemma length_sample_payload: "length sample_payload = 5"
  by (simp add: sample_payload_def)

lemma plan_partitions_payload_witness:
  "concat (map (slice sample_payload) [intermediate_segment 2 0, intermediate_segment 2 1,
     \<lparr>sg_offset = 4, sg_len = 1, sg_ms = False, sg_segment_num = 0\<rparr>]) = sample_payload"
proof -
  have "length sample_payload + 2 < 2 ^ 64" by (simp add: length_sample_payload)
  from plan_partitions_payload [OF this] show ?thesis
    by (simp only: length_sample_payload sample_plan sum.case)
qed

definition sample_fragments :: "fragment list" where
  "sample_fragments = [(True, 0, [1, 2]), (True, 2, [3]), (True, 1, [4, 5]), (False, 0, [6, 7])]"

lemma reassembly_bounded_witness:
  "length (ra_data (snd (feed_all (new_reassembler 5) sample_fragments))) \<le> min 5 kDefaultReassemblyCapacity \<and>
   fst (feed_all (new_reassembler 5) sample_fragments) = [KContinue, KErr_out_of_order, KContinue, KErr_too_large]"
proof -
  have "fst (feed_all (new_reassembler 5) sample_fragments) = [KContinue, KErr_out_of_order, KContinue, KErr_too_large]"
    by (simp add: sample_fragments_def feed_def new_reassembler_def ra_fits_def ra_append_def
        size_sub_def kDefaultReassemblyCapacity_def)
  then show ?thesis
    using reassembly_bounded [OF prod.collapse [symmetric], of 5 sample_fragments] by blast
qed

lemma plan_reassembles_witness:
  "\<exists>r. feed_all (new_reassembler 100)
     ([(True, 0, [1, 2]), (True, 0, [1, 2]), (True, 1, [3, 4])] @ [(False, 0, [5])]) =
     ([KContinue, KErr_out_of_order, KContinue] @ [KComplete], r) \<and> ra_data r = sample_payload \<and>
     \<not> ra_collecting r"
proof -
  let ?d = "\<lambda>i. if i = 0 then 1 else 0 :: nat"
  let ?segs = "[intermediate_segment 2 0, intermediate_segment 2 1,
     \<lparr>sg_offset = 4, sg_len = 1, sg_ms = False, sg_segment_num = 0\<rparr>]"
  have l: "length ?segs - 1 = 2" by simp
  have t: "transmissions ?d sample_payload 2 2 = [(True, 0, [1, 2]), (True, 0, [1, 2]), (True, 1, [3, 4])]"
    "outcomes ?d 2 = [KContinue, KErr_out_of_order, KContinue]"
    "fragment_of sample_payload (last ?segs) = (False, 0, [5])"
    by code_simp+
  show ?thesis
    by (rule plan_reassembles [where xs = sample_payload and m = 2 and c = 3 and limit = 100 and dups = ?d
          and segs = ?segs, unfolded l t])
      (simp_all add: length_sample_payload sample_plan kDefaultReassemblyCapacity_def)
qed

end
