(* ===== verification/Endpoint.thy ===== *)
theory Endpoint
  imports Prelude
begin

text \<open>
  The scaffolding shared by the endpoint types, \<open>include/rcp/endpoint.hpp\<close>: the meaning of the
  low three bits of \<open>evt\<close> in a write request, the saturating combination of an operand with
  the current value, and the table of armed trigger signals with its queue of pending ones.
\<close>

section \<open>Write semantics\<close>

definition kEndpointTypeWakeup :: u8 where "kEndpointTypeWakeup = 0x01"
definition kEndpointTypeGpio :: u8 where "kEndpointTypeGpio = 0x02"
definition kEndpointTypeSpi :: u8 where "kEndpointTypeSpi = 0x03"
definition kEndpointTypeI2c :: u8 where "kEndpointTypeI2c = 0x04"
definition kEndpointTypeUart :: u8 where "kEndpointTypeUart = 0x05"
definition kEndpointTypeLin :: u8 where "kEndpointTypeLin = 0x06"
definition kEndpointTypePwmOut :: u8 where "kEndpointTypePwmOut = 0x07"
definition kEndpointTypePwmIn :: u8 where "kEndpointTypePwmIn = 0x08"
definition kEndpointTypeAdc :: u8 where "kEndpointTypeAdc = 0x09"
definition kEndpointTypeCan :: u8 where "kEndpointTypeCan = 0x0B"
definition kEndpointTypeIseled :: u8 where "kEndpointTypeIseled = 0x0C"
definition kEndpointTypeMdio :: u8 where "kEndpointTypeMdio = 0x0D"

datatype write_semantics = WReplace | WOr | WAnd | WXor | WReserved | WAdd | WSubtract | WReconfigure

text \<open>The enumerators in the order of their values, as \<open>static_cast\<close> reads them.\<close>

definition write_semantics_values :: "write_semantics list" where
  "write_semantics_values =
     [WReplace, WOr, WAnd, WXor, WReserved, WAdd, WSubtract, WReconfigure]"

definition write_semantics_of :: "u8 \<Rightarrow> write_semantics" where
  "write_semantics_of evt_op = write_semantics_values ! unat (evt_op AND 0x07)"

datatype evt_row2_kind = Plain | Config_write | Reserved_row2

definition evt_row2_kind_of :: "u8 \<Rightarrow> evt_row2_kind" where
  "evt_row2_kind_of evt_op =
     (let masked = evt_op AND 0x07 in
      if masked = 0x00 then Plain else if masked = 0x07 then Config_write else Reserved_row2)"

section \<open>Saturating arithmetic\<close>

definition saturating_add :: "'a :: len word \<Rightarrow> 'a word \<Rightarrow> 'a word" where
  "saturating_add a b = (let sum = a + b in if sum < a then - 1 else sum)"

definition saturating_subtract :: "'a :: len word \<Rightarrow> 'a word \<Rightarrow> 'a word" where
  "saturating_subtract a b = (if a < b then 0 else a - b)"

fun apply_bitmask_write :: "write_semantics \<Rightarrow> u32 \<Rightarrow> u32 \<Rightarrow> u32 result" where
  "apply_bitmask_write WReplace current operand = Inr operand"
| "apply_bitmask_write WOr current operand = Inr (current OR operand)"
| "apply_bitmask_write WAnd current operand = Inr (current AND operand)"
| "apply_bitmask_write WXor current operand = Inr (current XOR operand)"
| "apply_bitmask_write WAdd current operand = Inr (saturating_add current operand)"
| "apply_bitmask_write WSubtract current operand = Inr (saturating_subtract current operand)"
| "apply_bitmask_write WReserved current operand = Inl (Endpoint_err Reserved_write_semantics)"
| "apply_bitmask_write WReconfigure current operand =
     Inl (Endpoint_err Non_combinable_write_semantics)"

lemma saturating_add_eq:
  "unat (saturating_add a b) = min (unat a + unat b) (2 ^ LENGTH('a) - 1)" for a b :: "'a :: len word"
proof (cases "unat a + unat b < 2 ^ LENGTH('a)")
  case True
  then have "unat (a + b) = unat a + unat b" by (simp add: unat_word_ariths)
  with True show ?thesis by (simp add: saturating_add_def Let_def word_less_nat_alt)
next
  case False
  have "unat a + unat b - 2 ^ LENGTH('a) < 2 ^ LENGTH('a)"
    using unat_bound [of a] unat_bound [of b] by linarith
  then have "unat (a + b) = unat a + unat b - 2 ^ LENGTH('a)"
    using False by (simp add: unat_word_ariths le_mod_geq not_less)
  then have "a + b < a" using False unat_bound [of b] unfolding word_less_nat_alt by linarith
  with False show ?thesis by (simp add: saturating_add_def Let_def unsigned_minus_1_eq_mask mask_eq_exp_minus_1)
qed

lemma saturating_subtract_eq:
  "unat (saturating_subtract a b) = unat a - unat b" for a b :: "'a :: len word"
  by (auto simp: saturating_subtract_def word_less_nat_alt unat_sub word_le_nat_alt not_less)

lemma low3_cases:
  fixes e :: u8
  shows "unat (e AND 0x07) = unat e mod 8"
proof -
  have "e AND 0x07 = take_bit 3 e" by (simp add: take_bit_eq_mask mask_numeral)
  then have "unat (e AND 0x07) = take_bit 3 (unat e)" by (simp only: unsigned_take_bit_eq)
  then show ?thesis by (simp add: take_bit_eq_mod)
qed

lemma write_semantics_of_cases:
  "write_semantics_of e = write_semantics_values ! (unat e mod 8)"
  by (simp add: write_semantics_of_def low3_cases)

text \<open>
  What a write request does to a value, by the low three bits of its \<open>evt\<close>: replace, or,
  and, exclusive or, add clamped at the largest 32-bit value, subtract clamped at zero; four is
  refused as reserved and seven as not a combination. The upper bits of \<open>evt\<close> do not matter.
\<close>

theorem evt_write_semantics:
  "(case apply_bitmask_write (write_semantics_of evt) current operand of
      Inr v \<Rightarrow>
        (unat evt mod 8, unat v) \<in>
          {(0, unat operand), (1, unat (current OR operand)), (2, unat (current AND operand)),
           (3, unat (current XOR operand)), (5, min (unat current + unat operand) (2 ^ 32 - 1)),
           (6, unat current - unat operand)}
    | Inl e \<Rightarrow>
        (unat evt mod 8, e) \<in>
          {(4, Endpoint_err Reserved_write_semantics), (7, Endpoint_err Non_combinable_write_semantics)})"
proof -
  have "unat evt mod 8 \<in> {0, 1, 2, 3, 4, 5, 6, 7}"
    using mod_less_divisor [of 8 "unat evt"] by auto
  then consider "unat evt mod 8 = 0" | "unat evt mod 8 = 1" | "unat evt mod 8 = 2" | "unat evt mod 8 = 3"
    | "unat evt mod 8 = 4" | "unat evt mod 8 = 5" | "unat evt mod 8 = 6" | "unat evt mod 8 = 7"
    unfolding insert_iff empty_iff by metis
  then show ?thesis
    by cases (simp_all add: write_semantics_of_cases write_semantics_values_def saturating_add_eq
        saturating_subtract_eq)
qed

section \<open>Trigger signals\<close>

record trigger_registry =
  tr_enabled :: "u16 set"
  tr_pending :: "u16 list"

definition new_registry :: trigger_registry where
  "new_registry = \<lparr>tr_enabled = {}, tr_pending = []\<rparr>"

definition tr_enable :: "trigger_registry \<Rightarrow> u16 \<Rightarrow> trigger_registry" where
  "tr_enable t sig = t\<lparr>tr_enabled := insert sig (tr_enabled t)\<rparr>"

definition tr_disable :: "trigger_registry \<Rightarrow> u16 \<Rightarrow> trigger_registry" where
  "tr_disable t sig = t\<lparr>tr_enabled := tr_enabled t - {sig}\<rparr>"

definition tr_is_enabled :: "trigger_registry \<Rightarrow> u16 \<Rightarrow> bool" where
  "tr_is_enabled t sig \<longleftrightarrow> sig \<in> tr_enabled t"

definition tr_notify :: "trigger_registry \<Rightarrow> u16 \<Rightarrow> bool \<times> trigger_registry" where
  "tr_notify t sig =
     (if \<not> tr_is_enabled t sig then (False, t)
      else (True, t\<lparr>tr_pending := tr_pending t @ [sig]\<rparr>))"

definition tr_has_pending :: "trigger_registry \<Rightarrow> bool" where
  "tr_has_pending t \<longleftrightarrow> tr_pending t \<noteq> []"

definition tr_drain :: "trigger_registry \<Rightarrow> u16 list \<times> trigger_registry" where
  "tr_drain t = (tr_pending t, t\<lparr>tr_pending := []\<rparr>)"

text \<open>The calls a client and an endpoint make, and the list of signals drained in a run.\<close>

datatype trigger_call = Enable u16 | Disable u16 | Notify u16 | Drain

fun trigger_step :: "trigger_call \<Rightarrow> trigger_registry \<times> u16 list \<Rightarrow> trigger_registry \<times> u16 list" where
  "trigger_step (Enable sig) (t, out) = (tr_enable t sig, out)"
| "trigger_step (Disable sig) (t, out) = (tr_disable t sig, out)"
| "trigger_step (Notify sig) (t, out) = (snd (tr_notify t sig), out)"
| "trigger_step Drain (t, out) = (snd (tr_drain t), out @ fst (tr_drain t))"

definition trigger_run :: "trigger_call list \<Rightarrow> trigger_registry \<times> u16 list" where
  "trigger_run calls = fold trigger_step calls (new_registry, [])"

text \<open>Over the history of calls, latest first: whether the last call about arming \<open>sig\<close> armed it,
  and the occurrences that were armed, in the order they happened.\<close>

fun armed :: "trigger_call list \<Rightarrow> u16 \<Rightarrow> bool" where
  "armed [] sig = False"
| "armed (Enable s # earlier) sig = (s = sig \<or> armed earlier sig)"
| "armed (Disable s # earlier) sig = (s \<noteq> sig \<and> armed earlier sig)"
| "armed (c # earlier) sig = armed earlier sig"

fun armed_occurrences :: "trigger_call list \<Rightarrow> u16 list" where
  "armed_occurrences [] = []"
| "armed_occurrences (Notify sig # earlier) =
     armed_occurrences earlier @ (if armed earlier sig then [sig] else [])"
| "armed_occurrences (c # earlier) = armed_occurrences earlier"

lemma trigger_run_snoc: "trigger_run (calls @ [c]) = trigger_step c (trigger_run calls)"
  by (simp add: trigger_run_def)

text \<open>
  A signal is delivered exactly for each occurrence at a moment when it was armed: the
  signals drained so far, followed by those pending, are those occurrences in their order, none
  lost, none twice, and none that happened while the signal was disarmed.
\<close>

theorem triggers_delivered_once:
  "(case trigger_run calls of (t, out) \<Rightarrow>
     out @ tr_pending t = armed_occurrences (rev calls) \<and>
     (\<forall>sig. tr_is_enabled t sig = armed (rev calls) sig))"
proof (induction calls rule: rev_induct)
  case Nil
  then show ?case
    by (simp add: trigger_run_def new_registry_def tr_is_enabled_def)
next
  case (snoc c calls)
  then show ?case
    by (cases c; cases "trigger_run calls")
       (auto simp: trigger_run_snoc tr_enable_def tr_disable_def
         tr_notify_def tr_drain_def tr_is_enabled_def)
qed

end
