(* ===== verification/Lifecycle.thy ===== *)
theory Lifecycle
  imports Acf_Response
begin

text \<open>
  The lifecycle of an RC server, \<open>include/rcp/lifecycle.hpp\<close>: its three states, the two ways to
  change them (\<open>advance\<close>/\<open>deconfigure\<close> and the guarded \<open>transition\<close>), the plausibility checks,
  the filter on incoming frames, and who may write which kind of register field in which state.
\<close>

section \<open>State\<close>

datatype server_state = Hw_unconfigured | Hw_configured | Rcp_configured

fun server_state_code :: "server_state \<Rightarrow> u8" where
  "server_state_code Hw_unconfigured = 0x00"
| "server_state_code Hw_configured = 0x55"
| "server_state_code Rcp_configured = 0xAA"

record endpoint_plausibility =
  ep_used :: bool
  hw_pin_mapped :: bool
  has_request_stream :: bool
  has_stream_assoc :: bool
  request_stream_index :: nat

record request_stream_plausibility =
  rs_configured :: bool
  has_response_stream :: bool
  response_stream_index :: nat

record plausibility_snapshot =
  snap_endpoints :: "endpoint_plausibility list"
  snap_request_streams :: "request_stream_plausibility list"
  snap_response_stream_count :: nat

record writer_ctx =
  via_root_client_ep0 :: bool
  via_owning_stream :: bool
  via_non_unicast_frame :: bool
  via_discovery_stream :: bool
  via_valid_stream_association :: bool

text \<open>
  The callbacks are the client's code. \<open>lc_callbacks\<close> is the number of subscribers and
  \<open>lc_calls\<close> the calls made so far: the subscriber's index with the previous and the new state.
\<close>

record server_lifecycle =
  lc_state :: server_state
  lc_callbacks :: nat
  lc_calls :: "(nat \<times> server_state \<times> server_state) list"

definition new_lifecycle :: server_lifecycle where
  "new_lifecycle = \<lparr>lc_state = Hw_unconfigured, lc_callbacks = 0, lc_calls = []\<rparr>"

section \<open>Plausibility\<close>

definition request_streams_consistent :: "plausibility_snapshot \<Rightarrow> bool" where
  "request_streams_consistent snap =
     list_all (\<lambda>(i, rs).
       if \<not> rs_configured rs then True
       else if \<not> has_response_stream rs then False
       else if snap_response_stream_count snap \<le> response_stream_index rs then False
       else list_ex (\<lambda>ep. ep_used ep \<and> has_stream_assoc ep \<and> request_stream_index ep = i)
              (snap_endpoints snap))
     (enumerate 0 (snap_request_streams snap))"

definition check_hw_cfg :: "plausibility_snapshot \<Rightarrow> error option" where
  "check_hw_cfg snap =
     (if list_all (\<lambda>ep. if \<not> ep_used ep then True
           else if \<not> hw_pin_mapped ep then False
           else if \<not> has_request_stream ep then False else True) (snap_endpoints snap)
      then None else Some (Lifecycle_err Hw_cfg_inconsistent))"

definition check_rcp_cfg :: "plausibility_snapshot \<Rightarrow> error option" where
  "check_rcp_cfg snap =
     (if \<not> list_all (\<lambda>ep. if \<not> ep_used ep then True else has_stream_assoc ep) (snap_endpoints snap)
      then Some (Lifecycle_err Rcp_cfg_inconsistent)
      else if \<not> request_streams_consistent snap then Some (Lifecycle_err Rcp_cfg_inconsistent)
      else None)"

section \<open>Transitions\<close>

definition notify_state_changed ::
  "server_state \<Rightarrow> server_state \<Rightarrow> server_lifecycle \<Rightarrow> server_lifecycle" where
  "notify_state_changed previous current lc =
     (if previous = current then lc
      else lc\<lparr>lc_calls := lc_calls lc @ map (\<lambda>i. (i, previous, current)) [0..<lc_callbacks lc]\<rparr>)"

definition lc_commit :: "server_state \<Rightarrow> server_lifecycle \<Rightarrow> server_lifecycle" where
  "lc_commit target lc = notify_state_changed (lc_state lc) target (lc\<lparr>lc_state := target\<rparr>)"

text \<open>
  \<open>advance\<close> asks the plausibility callbacks of the embedding program; \<open>hw\<close> and \<open>rcp\<close> are
  their answers at this call, \<open>None\<close> when none is set.
\<close>

definition advance ::
  "bool option \<Rightarrow> bool option \<Rightarrow> server_state \<Rightarrow> server_lifecycle \<Rightarrow> error option \<times> server_lifecycle" where
  "advance hw rcp target lc =
     (if lc_state lc = Hw_unconfigured \<and> target = Hw_configured then
        if hw = Some False then (Some (Lifecycle_err Hw_cfg_inconsistent), lc)
        else (None, notify_state_changed (lc_state lc) Hw_configured (lc\<lparr>lc_state := Hw_configured\<rparr>))
      else if lc_state lc = Hw_configured \<and> target = Rcp_configured then
        if rcp = Some False then (Some (Lifecycle_err Rcp_cfg_inconsistent), lc)
        else (None, notify_state_changed (lc_state lc) Rcp_configured (lc\<lparr>lc_state := Rcp_configured\<rparr>))
      else (Some (Lifecycle_err Invalid_transition), lc))"

definition deconfigure :: "server_lifecycle \<Rightarrow> server_lifecycle" where
  "deconfigure lc =
     notify_state_changed (lc_state lc) Hw_unconfigured (lc\<lparr>lc_state := Hw_unconfigured\<rparr>)"

definition generic_config_locked :: "server_lifecycle \<Rightarrow> bool" where
  "generic_config_locked lc \<longleftrightarrow> lc_state lc = Hw_configured \<or> lc_state lc = Rcp_configured"

definition functional_config_locked :: "server_lifecycle \<Rightarrow> bool" where
  "functional_config_locked lc \<longleftrightarrow> lc_state lc = Rcp_configured"

definition subscribe_state_changed :: "server_lifecycle \<Rightarrow> server_lifecycle" where
  "subscribe_state_changed lc = lc\<lparr>lc_callbacks := lc_callbacks lc + 1\<rparr>"

definition transition ::
  "server_state \<Rightarrow> plausibility_snapshot \<Rightarrow> writer_ctx \<Rightarrow> bool \<Rightarrow> server_lifecycle \<Rightarrow>
     error option \<times> server_lifecycle" where
  "transition target snap writer all_other_eps_idle lc =
     (let prev = lc_state lc;
          authorized = via_discovery_stream writer \<or> via_root_client_ep0 writer \<or>
            via_valid_stream_association writer
      in
      if target = prev then (None, lc)
      else if prev = Hw_unconfigured \<and> target = Hw_configured then
        (case check_hw_cfg snap of Some ec \<Rightarrow> (Some ec, lc) | None \<Rightarrow> (None, lc_commit target lc))
      else if prev = Hw_configured \<and> target = Rcp_configured then
        if \<not> authorized then (Some (Lifecycle_err Unauthorized), lc)
        else (case check_rcp_cfg snap of Some ec \<Rightarrow> (Some ec, lc) | None \<Rightarrow> (None, lc_commit target lc))
      else if prev = Rcp_configured \<and> target = Hw_configured then
        if \<not> via_root_client_ep0 writer \<and> \<not> via_valid_stream_association writer
        then (Some (Lifecycle_err Unauthorized), lc)
        else if \<not> all_other_eps_idle then (Some (Lifecycle_err Eps_not_idle), lc)
        else (None, lc_commit target lc)
      else if target = Hw_unconfigured \<and> prev = Hw_configured then
        if \<not> authorized then (Some (Lifecycle_err Unauthorized), lc)
        else if \<not> all_other_eps_idle then (Some (Lifecycle_err Eps_not_idle), lc)
        else (None, lc_commit target lc)
      else if target = Hw_unconfigured \<and> prev = Rcp_configured then
        if \<not> via_root_client_ep0 writer then (Some (Lifecycle_err Unauthorized), lc)
        else if \<not> all_other_eps_idle then (Some (Lifecycle_err Eps_not_idle), lc)
        else (None, lc_commit target lc)
      else (Some (Lifecycle_err Invalid_transition), lc))"

section \<open>Request filtering\<close>

definition kDiscoveryByteBusId :: u16 where "kDiscoveryByteBusId = 0"

datatype disposition = Disp_accept | Disp_drop | Disp_reject

definition should_accept ::
  "server_state \<Rightarrow> bool \<Rightarrow> u8 \<Rightarrow> u8 \<Rightarrow> u16 \<Rightarrow> tscf_fallback \<Rightarrow> disposition" where
  "should_accept state time_sync_supported avtp_subtype acf_msg_type byte_bus_id policy =
     (if should_drop_tscf time_sync_supported avtp_subtype policy then Disp_drop
      else if state = Hw_unconfigured then
        if avtp_subtype = kSubtypeTscf then Disp_drop
        else if avtp_subtype \<noteq> kSubtypeNtscf \<or> byte_bus_id \<noteq> kDiscoveryByteBusId then Disp_drop
        else if acf_msg_type = kAcfMsgTypeAbb then Disp_accept else Disp_reject
      else if state = Hw_configured then
        if avtp_subtype = kSubtypeTscf then Disp_drop
        else if byte_bus_id \<noteq> kDiscoveryByteBusId then Disp_drop
        else if acf_msg_type = kAcfMsgTypeAbb then Disp_accept else Disp_reject
      else Disp_accept)"

section \<open>Field access\<close>

datatype field_kind = Hw_generic | Functional_w | Functional_w_star | Read_only

definition field_writable :: "server_state \<Rightarrow> field_kind \<Rightarrow> writer_ctx \<Rightarrow> bool" where
  "field_writable state kind writer =
     (let authorized = via_root_client_ep0 writer \<or> via_owning_stream writer;
          hw_configured_authorized = authorized \<or> via_discovery_stream writer;
          writable =
            (case kind of
               Hw_generic \<Rightarrow> state = Hw_unconfigured \<and> via_discovery_stream writer
             | Functional_w \<Rightarrow>
                 if state = Hw_unconfigured then False
                 else if state = Rcp_configured then authorized
                 else hw_configured_authorized
             | Functional_w_star \<Rightarrow>
                 if state = Rcp_configured then False
                 else if state = Hw_configured then hw_configured_authorized
                 else True
             | Read_only \<Rightarrow> False)
      in writable \<and> \<not> via_non_unicast_frame writer)"

definition best_writer :: writer_ctx where
  "best_writer =
     \<lparr>via_root_client_ep0 = True, via_owning_stream = True, via_non_unicast_frame = False,
      via_discovery_stream = True, via_valid_stream_association = False\<rparr>"

definition field_write_error ::
  "server_state \<Rightarrow> field_kind \<Rightarrow> writer_ctx \<Rightarrow> wire_error_code option" where
  "field_write_error state kind writer =
     (if field_writable state kind writer then None
      else if \<not> field_writable state kind best_writer then Some LockedMemAccess
      else Some UnauthorizedAccess)"

definition field_writable_w_plus :: "server_state \<Rightarrow> writer_ctx \<Rightarrow> bool \<Rightarrow> bool" where
  "field_writable_w_plus state writer is_locked =
     (if is_locked then False else field_writable state Functional_w_star writer)"

definition field_write_error_w_plus ::
  "server_state \<Rightarrow> writer_ctx \<Rightarrow> bool \<Rightarrow> wire_error_code option" where
  "field_write_error_w_plus state writer is_locked =
     (if field_writable_w_plus state writer is_locked then None
      else if is_locked then Some LockedMemAccess
      else if \<not> field_writable_w_plus state best_writer False then Some LockedMemAccess
      else Some UnauthorizedAccess)"

section \<open>The state diagram\<close>

definition hw_plausible :: "plausibility_snapshot \<Rightarrow> bool" where
  "hw_plausible snap \<longleftrightarrow>
     (\<forall>ep \<in> set (snap_endpoints snap). ep_used ep \<longrightarrow> hw_pin_mapped ep \<and> has_request_stream ep)"

definition rcp_plausible :: "plausibility_snapshot \<Rightarrow> bool" where
  "rcp_plausible snap \<longleftrightarrow>
     (\<forall>ep \<in> set (snap_endpoints snap). ep_used ep \<longrightarrow> has_stream_assoc ep) \<and>
     (\<forall>i < length (snap_request_streams snap). rs_configured (snap_request_streams snap ! i) \<longrightarrow>
        has_response_stream (snap_request_streams snap ! i) \<and>
        response_stream_index (snap_request_streams snap ! i) < snap_response_stream_count snap \<and>
        (\<exists>ep \<in> set (snap_endpoints snap).
           ep_used ep \<and> has_stream_assoc ep \<and> request_stream_index ep = i))"

lemma check_hw_cfg_iff:
  "check_hw_cfg snap = (if hw_plausible snap then None else Some (Lifecycle_err Hw_cfg_inconsistent))"
  by (auto simp: check_hw_cfg_def hw_plausible_def list_all_iff)

lemma request_streams_consistent_iff:
  "request_streams_consistent snap \<longleftrightarrow>
     (\<forall>i < length (snap_request_streams snap). rs_configured (snap_request_streams snap ! i) \<longrightarrow>
        has_response_stream (snap_request_streams snap ! i) \<and>
        response_stream_index (snap_request_streams snap ! i) < snap_response_stream_count snap \<and>
        (\<exists>ep \<in> set (snap_endpoints snap).
           ep_used ep \<and> has_stream_assoc ep \<and> request_stream_index ep = i))"
  by (auto simp: request_streams_consistent_def list_all_iff list_ex_iff in_set_enumerate_eq not_le)

lemma check_rcp_cfg_iff:
  "check_rcp_cfg snap = (if rcp_plausible snap then None else Some (Lifecycle_err Rcp_cfg_inconsistent))"
  by (auto simp: check_rcp_cfg_def rcp_plausible_def request_streams_consistent_iff list_all_iff)

text \<open>The arrows of the diagram with their guards.\<close>

inductive arrow :: "plausibility_snapshot \<Rightarrow> writer_ctx \<Rightarrow> bool \<Rightarrow> server_state \<Rightarrow> server_state \<Rightarrow> bool"
  for snap writer idle where
  accept_hw: "hw_plausible snap \<Longrightarrow> arrow snap writer idle Hw_unconfigured Hw_configured"
| accept_rcp: "via_discovery_stream writer \<or> via_root_client_ep0 writer \<or> via_valid_stream_association writer \<Longrightarrow>
    rcp_plausible snap \<Longrightarrow> arrow snap writer idle Hw_configured Rcp_configured"
| demote: "via_root_client_ep0 writer \<or> via_valid_stream_association writer \<Longrightarrow> idle \<Longrightarrow>
    arrow snap writer idle Rcp_configured Hw_configured"
| reset_hw: "via_discovery_stream writer \<or> via_root_client_ep0 writer \<or> via_valid_stream_association writer \<Longrightarrow>
    idle \<Longrightarrow> arrow snap writer idle Hw_configured Hw_unconfigured"
| reset_rcp: "via_root_client_ep0 writer \<Longrightarrow> idle \<Longrightarrow> arrow snap writer idle Rcp_configured Hw_unconfigured"

inductive_simps arrow_from_unconfigured: "arrow snap writer idle Hw_unconfigured target"
inductive_simps arrow_from_hw: "arrow snap writer idle Hw_configured target"
inductive_simps arrow_from_rcp: "arrow snap writer idle Rcp_configured target"

lemmas arrow_simps = arrow_from_unconfigured arrow_from_hw arrow_from_rcp

lemmas lifecycle_errors = check_hw_cfg_iff check_rcp_cfg_iff

text \<open>Some circumstances let this writer go from the one state to the other.\<close>

definition may_ask :: "writer_ctx \<Rightarrow> server_state \<Rightarrow> server_state \<Rightarrow> bool" where
  "may_ask writer state target \<longleftrightarrow> (\<exists>snap idle. arrow snap writer idle state target)"

lemma may_ask_iff:
  "may_ask writer state target \<longleftrightarrow>
     (case (state, target) of
        (Hw_unconfigured, Hw_configured) \<Rightarrow> True
      | (Hw_configured, Rcp_configured) \<Rightarrow>
          via_discovery_stream writer \<or> via_root_client_ep0 writer \<or> via_valid_stream_association writer
      | (Hw_configured, Hw_unconfigured) \<Rightarrow>
          via_discovery_stream writer \<or> via_root_client_ep0 writer \<or> via_valid_stream_association writer
      | (Rcp_configured, Hw_configured) \<Rightarrow> via_root_client_ep0 writer \<or> via_valid_stream_association writer
      | (Rcp_configured, Hw_unconfigured) \<Rightarrow> via_root_client_ep0 writer
      | _ \<Rightarrow> False)"
proof -
  let ?s = "\<lparr>snap_endpoints = [], snap_request_streams = [], snap_response_stream_count = 0\<rparr>"
  have "hw_plausible ?s" "rcp_plausible ?s" by (simp_all add: hw_plausible_def rcp_plausible_def)
  then show ?thesis
    unfolding may_ask_def by (cases state; cases target) (auto simp: arrow_simps)
qed

text \<open>
  C17. \<open>transition\<close> implements the diagram: to the current state it succeeds and changes nothing; along an
  arrow with satisfied guards the state becomes the target and every subscriber is told once, with the
  old and the new state; everything else is refused with the server as it was, and with the reason: no
  such arrow whoever asks; or a writer who may not ask for it; or else, for an acceptance, the failed check
  of the hardware or the protocol configuration, and for a step back endpoints that are not idle.
\<close>

theorem transition_follows_diagram:
  "transition target snap writer idle lc =
     (let state = lc_state lc in
      if target = state then (None, lc)
      else if arrow snap writer idle state target
      then (None, lc\<lparr>lc_state := target,
              lc_calls := lc_calls lc @ map (\<lambda>i. (i, state, target)) [0..<lc_callbacks lc]\<rparr>)
      else
        (Some (Lifecycle_err
           (if \<nexists>w. may_ask w state target then Invalid_transition
            else if \<not> may_ask writer state target then Unauthorized
            else if state = Hw_unconfigured then Hw_cfg_inconsistent
            else if target = Rcp_configured then Rcp_cfg_inconsistent
            else Eps_not_idle)), lc))"
proof -
  have "\<exists>w :: writer_ctx. via_root_client_ep0 w" by (rule exI [of _ best_writer]) (simp add: best_writer_def)
  then show ?thesis
    by (cases "lc_state lc"; cases target)
       (auto simp: transition_def arrow_simps may_ask_iff lifecycle_errors lc_commit_def notify_state_changed_def Let_def)
qed

section \<open>Runs\<close>

datatype lifecycle_call =
    Advance "bool option" "bool option" server_state
  | Deconfigure
  | Transition server_state plausibility_snapshot writer_ctx bool
  | Subscribe

fun lifecycle_do :: "lifecycle_call \<Rightarrow> server_lifecycle \<Rightarrow> server_lifecycle" where
  "lifecycle_do (Advance hw rcp target) lc = snd (advance hw rcp target lc)"
| "lifecycle_do Deconfigure lc = deconfigure lc"
| "lifecycle_do (Transition target snap writer idle) lc = snd (transition target snap writer idle lc)"
| "lifecycle_do Subscribe lc = subscribe_state_changed lc"

definition lifecycle_run :: "lifecycle_call list \<Rightarrow> server_lifecycle" where
  "lifecycle_run calls = fold lifecycle_do calls new_lifecycle"

fun passes_hw :: "lifecycle_call \<Rightarrow> bool" where
  "passes_hw (Advance hw rcp target) = (target = Hw_configured \<and> hw = Some True)"
| "passes_hw (Transition target snap writer idle) = (target = Hw_configured \<and> hw_plausible snap)"
| "passes_hw c = False"

fun passes_rcp :: "lifecycle_call \<Rightarrow> bool" where
  "passes_rcp (Advance hw rcp target) = (target = Rcp_configured \<and> rcp = Some True)"
| "passes_rcp (Transition target snap writer idle) = (target = Rcp_configured \<and> rcp_plausible snap \<and>
     (via_discovery_stream writer \<or> via_root_client_ep0 writer \<or> via_valid_stream_association writer))"
| "passes_rcp c = False"

text \<open>Both callbacks are set when the call is made; without one, \<open>advance\<close> checks nothing.\<close>

fun callbacks_set :: "lifecycle_call \<Rightarrow> bool" where
  "callbacks_set (Advance hw rcp target) \<longleftrightarrow> hw \<noteq> None \<and> rcp \<noteq> None"
| "callbacks_set c \<longleftrightarrow> True"

lemma no_callback_no_check:
  "lc_state (lifecycle_run [Advance None None Hw_configured, Advance None None Rcp_configured]) = Rcp_configured"
  by code_simp

lemma lifecycle_do_state:
  assumes "callbacks_set c"
  shows "lc_state (lifecycle_do c lc) = Hw_configured \<Longrightarrow> lc_state lc = Hw_unconfigured \<Longrightarrow> passes_hw c"
    and "lc_state (lifecycle_do c lc) = Rcp_configured \<Longrightarrow> lc_state lc \<noteq> Rcp_configured \<Longrightarrow>
      lc_state lc = Hw_configured \<and> passes_rcp c"
  using assms
  by (cases c; cases "lc_state lc"; force simp: advance_def deconfigure_def transition_def
      subscribe_state_changed_def notify_state_changed_def lc_commit_def lifecycle_errors Let_def
      split: if_splits)+

lemma lifecycle_run_snoc: "lifecycle_run (calls @ [c]) = lifecycle_do c (lifecycle_run calls)"
  by (simp add: lifecycle_run_def)

definition hw_accepted_in :: "lifecycle_call list \<Rightarrow> bool" where
  "hw_accepted_in calls \<longleftrightarrow> (\<exists>pre c post. calls = pre @ c # post \<and> passes_hw c \<and>
     lc_state (lifecycle_run pre) = Hw_unconfigured)"

lemma hw_accepted_extend: "hw_accepted_in calls \<Longrightarrow> hw_accepted_in (calls @ later)"
  by (fastforce simp: hw_accepted_in_def)

lemma configured_run:
  "\<forall>c \<in> set calls. callbacks_set c \<Longrightarrow> lc_state (lifecycle_run calls) \<noteq> Hw_unconfigured \<Longrightarrow> hw_accepted_in calls"
proof (induction calls rule: rev_induct)
  case (snoc c calls)
  have c: "callbacks_set c" "\<forall>c \<in> set calls. callbacks_set c" using snoc.prems(1) by simp_all
  show ?case
  proof (cases "lc_state (lifecycle_run calls) = Hw_unconfigured")
    case True
    then have "lc_state (lifecycle_run (calls @ [c])) = Hw_configured"
      using snoc.prems(2) lifecycle_do_state(2) [OF c(1), of "lifecycle_run calls"]
      by (cases "lc_state (lifecycle_run (calls @ [c]))") (auto simp: lifecycle_run_snoc)
    then have "passes_hw c" using True lifecycle_do_state(1) [OF c(1)] by (simp add: lifecycle_run_snoc)
    with True show ?thesis unfolding hw_accepted_in_def by blast
  next
    case False
    then show ?thesis using snoc.IH c(2) hw_accepted_extend by blast
  qed
qed (simp add: lifecycle_run_def new_lifecycle_def)

text \<open>
  C18. A server whose two plausibility callbacks are set became live in order: in every sequence of calls that
  ends in \<open>RCP_CONFIGURED\<close> some call accepted the hardware configuration from \<open>HW_UNCONFIGURED\<close>, with the
  callback's consent or the check of the snapshot passed, and a later one accepted the protocol configuration
  from \<open>HW_CONFIGURED\<close>, with its callback's consent or its check passed, and no call after that one has left
  the state.
\<close>

theorem live_server_was_checked:
  assumes "lc_state (lifecycle_run calls) = Rcp_configured" "\<forall>c \<in> set calls. callbacks_set c"
  shows "\<exists>pre c post. calls = pre @ c # post \<and> hw_accepted_in pre \<and>
    lc_state (lifecycle_run pre) = Hw_configured \<and> passes_rcp c \<and>
    (\<forall>n \<le> length post. lc_state (lifecycle_run (pre @ c # take n post)) = Rcp_configured)"
  using assms
proof (induction calls rule: rev_induct)
  case (snoc d calls)
  have d: "callbacks_set d" "\<forall>c \<in> set calls. callbacks_set c" using snoc.prems(2) by simp_all
  show ?case
  proof (cases "lc_state (lifecycle_run calls) = Rcp_configured")
    case True
    obtain pre c post where s: "calls = pre @ c # post" "hw_accepted_in pre"
      "lc_state (lifecycle_run pre) = Hw_configured" "passes_rcp c"
      "\<forall>n \<le> length post. lc_state (lifecycle_run (pre @ c # take n post)) = Rcp_configured"
      using snoc.IH [OF True d(2)] by blast
    have "\<forall>n \<le> length (post @ [d]).
        lc_state (lifecycle_run (pre @ c # take n (post @ [d]))) = Rcp_configured"
      using s(1,5) snoc.prems(1) by (auto simp: le_Suc_eq)
    then show ?thesis
      using s(2,3,4) by (intro exI [of _ pre] exI [of _ c] exI [of _ "post @ [d]"]) (simp add: s(1))
  next
    case False
    then have "lc_state (lifecycle_run calls) = Hw_configured" "passes_rcp d"
      using lifecycle_do_state(2) [OF d(1), of "lifecycle_run calls"] snoc.prems(1) by (simp_all add: lifecycle_run_snoc)
    then show ?thesis
      using configured_run [OF d(2)] snoc.prems(1)
      by (intro exI [of _ calls] exI [of _ d] exI [of _ "[]"]) simp
  qed
qed (simp add: lifecycle_run_def new_lifecycle_def)

section \<open>Filtering and field access\<close>

text \<open>
  Before the server is live only a standard message to the discovery endpoint can be
  accepted, without a presentation time; a conditional message there is answered with a
  rejection and everything else is dropped. Once live, only a time-stamped frame that the
  server cannot honour is dropped.
\<close>

theorem should_accept_exact:
  "(should_accept state sync subtype msg_type bus policy = Disp_accept \<longleftrightarrow>
      (if state = Rcp_configured then \<not> (subtype = kSubtypeTscf \<and> \<not> sync \<and> policy = Fallback_drop)
       else (if state = Hw_unconfigured then subtype = kSubtypeNtscf else subtype \<noteq> kSubtypeTscf) \<and>
         bus = 0 \<and> msg_type = kAcfMsgTypeAbb)) \<and>
   (should_accept state sync subtype msg_type bus policy = Disp_reject \<longleftrightarrow>
      state \<noteq> Rcp_configured \<and>
      (if state = Hw_unconfigured then subtype = kSubtypeNtscf else subtype \<noteq> kSubtypeTscf) \<and> bus = 0 \<and> msg_type \<noteq> kAcfMsgTypeAbb)"
  by (cases state)
     (auto simp: should_accept_def should_drop_tscf_def kDiscoveryByteBusId_def kSubtypeNtscf_def kSubtypeTscf_def)

text \<open>
  The error for a refused write names the reason: \<open>LOCKED_MEM_ACCESS\<close> exactly when no
  writer whatever could write such a field in this state, \<open>UNAUTHORIZED_ACCESS\<close> exactly when
  another writer could. A field under its explicit lock is refused to everyone. A write in a
  multicast frame is never accepted, and for a live server no discovery stream alone gives
  access to anything.
\<close>

theorem field_write_errors_name_reason:
  "(field_write_error state kind writer = None \<longleftrightarrow> field_writable state kind writer) \<and>
   (field_write_error state kind writer = Some LockedMemAccess \<longleftrightarrow> (\<forall>w. \<not> field_writable state kind w)) \<and>
   (field_write_error state kind writer = Some UnauthorizedAccess \<longleftrightarrow>
      \<not> field_writable state kind writer \<and> (\<exists>w. field_writable state kind w)) \<and>
   (field_write_error_w_plus state writer is_locked = Some LockedMemAccess \<longleftrightarrow>
      is_locked \<or> (\<forall>w. \<not> field_writable state Functional_w_star w)) \<and>
   (if via_non_unicast_frame writer then \<not> field_writable state kind writer
    else field_writable Rcp_configured kind writer =
      (kind = Functional_w \<and> (via_root_client_ep0 writer \<or> via_owning_stream writer)))"
proof -
  have best: "field_writable state kind w \<Longrightarrow> field_writable state kind best_writer" for w kind
    by (cases kind; cases state) (auto simp: field_writable_def best_writer_def)
  have any: "(\<exists>w. field_writable state kind w) = field_writable state kind best_writer" for kind
    using best by blast
  have live: "if via_non_unicast_frame writer then \<not> field_writable state kind writer
    else field_writable Rcp_configured kind writer =
      (kind = Functional_w \<and> (via_root_client_ep0 writer \<or> via_owning_stream writer))"
    by (cases kind) (simp_all add: field_writable_def)
  show ?thesis
    using live any [of kind] any [of Functional_w_star] best [of Functional_w_star writer]
    unfolding not_ex [symmetric]
    by (simp add: field_write_error_def field_write_error_w_plus_def field_writable_w_plus_def) blast
qed

section \<open>Inputs\<close>

definition bring_up :: "lifecycle_call list" where
  "bring_up =
     [Subscribe,
      Transition Hw_configured \<lparr>snap_endpoints = [], snap_request_streams = [], snap_response_stream_count = 0\<rparr>
        best_writer False,
      Advance (Some True) (Some True) Rcp_configured]"

lemma live_server_was_checked_witness:
  "lc_state (lifecycle_run bring_up) = Rcp_configured \<and>
   (\<exists>pre c post. bring_up = pre @ c # post \<and> hw_accepted_in pre \<and> passes_rcp c)"
proof -
  have "lc_state (lifecycle_run bring_up) = Rcp_configured" by code_simp
  moreover have "\<forall>c \<in> set bring_up. callbacks_set c" by (simp add: bring_up_def)
  ultimately show ?thesis using live_server_was_checked by blast
qed

end
