(* ===== verification/Watchdog.thy ===== *)
theory Watchdog
  imports E2e "HOL-Library.Multiset"
begin

text \<open>
  The watchdog manager of \<open>include/rcp/watchdog.hpp\<close>: one watchdog per registered request
  stream, kicked by accepted requests and polled against the stream's configuration and its
  ledger, with health events for the subscribers.
\<close>

section \<open>One stream\<close>

record health_event =
  he_stream_key :: u64
  he_overflowed :: bool
  he_entered_safe_state :: bool
  he_info_notification_due :: bool
  he_canceled_request_count :: nat

text \<open>\<open>StreamWatchdog\<close> wraps one \<open>RxWatchdog\<close> and nothing else.\<close>

definition new_watchdog :: rx_watchdog where
  "new_watchdog = \<lparr>rw_kicked = False, rw_last_kick_ms = 0, rw_in_safe_state = False\<rparr>"

definition kick_from_request :: "rx_watchdog \<Rightarrow> u64 \<Rightarrow> rx_watchdog" where
  "kick_from_request wd now_ms = kick_wd wd now_ms"

definition check_watchdog ::
    "rx_watchdog \<Rightarrow> u64 \<Rightarrow> request_stream_config \<Rightarrow> ledger \<Rightarrow> u64 \<Rightarrow>
       health_event option \<times> rx_watchdog \<times> ledger" where
  "check_watchdog wd stream_key cfg lg now_ms =
     (if \<not> rw_in_safe_state wd \<and> overflowed wd cfg now_ms then
        (case apply_watchdog_overflow cfg wd lg of
           (canceled, wd', lg') \<Rightarrow>
             (Some \<lparr>he_stream_key = stream_key, he_overflowed = True,
                    he_entered_safe_state = rw_in_safe_state wd',
                    he_info_notification_due = should_emit_info_notification wd' cfg,
                    he_canceled_request_count = canceled\<rparr>, wd', lg'))
      else if should_emit_info_notification wd cfg then
        (Some \<lparr>he_stream_key = stream_key, he_overflowed = False, he_entered_safe_state = False,
               he_info_notification_due = True, he_canceled_request_count = 0\<rparr>, wd, lg)
      else (None, wd, lg))"

section \<open>The manager\<close>

definition kMaxWatchdogStreams :: nat where "kMaxWatchdogStreams = 16"
definition kMaxCallbacks :: nat where "kMaxCallbacks = 16"

text \<open>
  The two arrays of keys and watchdogs are one list of the slots in use. The callbacks are the
  client's code: \<open>wm_callbacks\<close> is their number and \<open>wm_calls\<close> the calls made, with the
  index of the subscriber.
\<close>

record watchdog_manager =
  wm_streams :: "(u64 \<times> rx_watchdog) list"
  wm_callbacks :: nat
  wm_calls :: "(nat \<times> health_event) list"

definition new_manager :: watchdog_manager where
  "new_manager = \<lparr>wm_streams = [], wm_callbacks = 0, wm_calls = []\<rparr>"

definition find_index :: "watchdog_manager \<Rightarrow> u64 \<Rightarrow> nat option" where
  "find_index m stream_key =
     find (\<lambda>i. fst (wm_streams m ! i) = stream_key) [0..<length (wm_streams m)]"

definition register_stream :: "watchdog_manager \<Rightarrow> u64 \<Rightarrow> error option \<times> watchdog_manager" where
  "register_stream m stream_key =
     (if find_index m stream_key \<noteq> None then (None, m)
      else if kMaxWatchdogStreams \<le> length (wm_streams m)
      then (Some (Watchdog_err Stream_capacity_exceeded), m)
      else (None, m\<lparr>wm_streams := wm_streams m @ [(stream_key, new_watchdog)]\<rparr>))"

definition unregister_stream :: "watchdog_manager \<Rightarrow> u64 \<Rightarrow> watchdog_manager" where
  "unregister_stream m stream_key =
     (case find_index m stream_key of
        None \<Rightarrow> m
      | Some idx \<Rightarrow>
          let last = length (wm_streams m) - 1 in
          m\<lparr>wm_streams := butlast ((wm_streams m)[idx := wm_streams m ! last])\<rparr>)"

definition is_registered :: "watchdog_manager \<Rightarrow> u64 \<Rightarrow> bool" where
  "is_registered m stream_key \<longleftrightarrow> find_index m stream_key \<noteq> None"

definition on_request_received ::
    "watchdog_manager \<Rightarrow> u64 \<Rightarrow> u64 \<Rightarrow> error option \<times> watchdog_manager" where
  "on_request_received m stream_key now_ms =
     (case find_index m stream_key of
        None \<Rightarrow> (Some (Watchdog_err Stream_not_registered), m)
      | Some idx \<Rightarrow>
          (None, m\<lparr>wm_streams := (wm_streams m)
             [idx := (fst (wm_streams m ! idx), kick_from_request (snd (wm_streams m ! idx)) now_ms)]\<rparr>))"

definition poll ::
    "watchdog_manager \<Rightarrow> u64 \<Rightarrow> request_stream_config \<Rightarrow> ledger \<Rightarrow> u64 \<Rightarrow>
       error option \<times> watchdog_manager \<times> ledger" where
  "poll m stream_key cfg lg now_ms =
     (case find_index m stream_key of
        None \<Rightarrow> (Some (Watchdog_err Stream_not_registered), m, lg)
      | Some idx \<Rightarrow>
          (case check_watchdog (snd (wm_streams m ! idx)) stream_key cfg lg now_ms of
             (ev, wd', lg') \<Rightarrow>
               (None,
                m\<lparr>wm_streams := (wm_streams m)[idx := (fst (wm_streams m ! idx), wd')],
                  wm_calls := wm_calls m @
                    (case ev of None \<Rightarrow> [] | Some e \<Rightarrow> map (\<lambda>i. (i, e)) [0..<wm_callbacks m])\<rparr>,
                lg')))"

definition manager_in_safe_state :: "watchdog_manager \<Rightarrow> u64 \<Rightarrow> bool" where
  "manager_in_safe_state m stream_key =
     (case find_index m stream_key of
        None \<Rightarrow> False | Some idx \<Rightarrow> rw_in_safe_state (snd (wm_streams m ! idx)))"

definition manager_clear_safe_state :: "watchdog_manager \<Rightarrow> u64 \<Rightarrow> error option \<times> watchdog_manager" where
  "manager_clear_safe_state m stream_key =
     (case find_index m stream_key of
        None \<Rightarrow> (Some (Watchdog_err Stream_not_registered), m)
      | Some idx \<Rightarrow>
          (None, m\<lparr>wm_streams := (wm_streams m)
             [idx := (fst (wm_streams m ! idx), clear_safe_state (snd (wm_streams m ! idx)))]\<rparr>))"

definition subscribe :: "watchdog_manager \<Rightarrow> error option \<times> watchdog_manager" where
  "subscribe m =
     (if kMaxCallbacks \<le> wm_callbacks m then (Some (Watchdog_err Callback_capacity_exceeded), m)
      else (None, m\<lparr>wm_callbacks := wm_callbacks m + 1\<rparr>))"

section \<open>The manager as a map\<close>

definition wf_manager :: "watchdog_manager \<Rightarrow> bool" where
  "wf_manager m \<longleftrightarrow>
     distinct (map fst (wm_streams m)) \<and> length (wm_streams m) \<le> kMaxWatchdogStreams \<and>
     wm_callbacks m \<le> kMaxCallbacks"

definition dogs :: "watchdog_manager \<Rightarrow> u64 \<Rightarrow> rx_watchdog option" where
  "dogs m = map_of (wm_streams m)"

lemma find_index_None: "find_index m k = None \<longleftrightarrow> dogs m k = None"
proof -
  have "k \<in> fst ` set (wm_streams m) \<longleftrightarrow> (\<exists>i < length (wm_streams m). fst (wm_streams m ! i) = k)"
    using in_set_conv_nth [of k "map fst (wm_streams m)"] by auto
  then show ?thesis
    by (auto simp: find_index_def find_upt_None dogs_def map_of_eq_None_iff)
qed

lemma find_index_Some:
  assumes "find_index m k = Some i"
  shows "i < length (wm_streams m)" "fst (wm_streams m ! i) = k"
  using assms by (simp_all add: find_index_def find_upt_Some)

lemma dogs_at:
  assumes "wf_manager m" "find_index m k = Some i"
  shows "dogs m k = Some (snd (wm_streams m ! i))"
  using assms find_index_Some [OF assms(2)]
  by (simp add: wf_manager_def dogs_def map_of_eq_Some_iff) (metis nth_mem prod.collapse)

text \<open>
  A list of slots with different keys stands for a map whatever the order of its slots, so
  filling a slot again and moving the last slot into a freed one are updates of the map.
\<close>

lemma map_of_mset:
  assumes "distinct (map fst xs)" "mset xs = mset ys"
  shows "map_of xs = map_of ys" "distinct (map fst ys)"
proof -
  have "mset (map fst xs) = mset (map fst ys)" using assms(2) by simp
  then show d: "distinct (map fst ys)" using assms(1) mset_eq_imp_distinct_iff by blast
  show "map_of xs = map_of ys"
    using map_of_inject_set [OF assms(1) d] mset_eq_setD [OF assms(2)] by simp
qed

lemma mset_slots:
  assumes "i < length xs"
  shows "mset xs = mset (xs ! i # butlast (xs[i := last xs]))"
    and "mset (xs[i := z]) = mset (z # butlast (xs[i := last xs]))"
proof -
  obtain ys l where xs: "xs = ys @ [l]" using assms by (cases xs rule: rev_cases) auto
  show a: "mset xs = mset (xs ! i # butlast (xs[i := last xs]))"
    using assms nth_mem_mset [of i ys]
    by (auto simp: xs nth_append list_update_append mset_update less_Suc_eq)
  show "mset (xs[i := z]) = mset (z # butlast (xs[i := last xs]))"
    using assms a by (simp add: mset_update)
qed

lemma map_of_slot:
  assumes "distinct (map fst xs)" "i < length xs" "fst (xs ! i) = k"
  shows "map_of (xs[i := (k, v)]) = (map_of xs)(k \<mapsto> v)" "distinct (map fst (xs[i := (k, v)]))"
proof -
  let ?r = "butlast (xs[i := last xs])"
  note a = map_of_mset [OF assms(1) mset_slots(1) [OF assms(2)]]
  then have d: "distinct (map fst ((k, v) # ?r))" using assms(3) by simp
  note b = map_of_mset [OF d mset_slots(2) [OF assms(2), of "(k, v)", symmetric]]
  show "map_of (xs[i := (k, v)]) = (map_of xs)(k \<mapsto> v)"
    using a(1) b(1) assms(3) by (cases "xs ! i") (simp flip: b(1))
  show "distinct (map fst (xs[i := (k, v)]))" by (rule b(2))
qed

lemma map_of_swap_remove:
  assumes "distinct (map fst xs)" "i < length xs"
  shows "map_of (butlast (xs[i := last xs])) = (map_of xs)(fst (xs ! i) := None)"
    "distinct (map fst (butlast (xs[i := last xs])))"
proof -
  note a = map_of_mset [OF assms(1) mset_slots(1) [OF assms(2)]]
  then have n: "map_of (butlast (xs[i := last xs])) (fst (xs ! i)) = None"
    by (simp add: map_of_eq_None_iff)
  show "map_of (butlast (xs[i := last xs])) = (map_of xs)(fst (xs ! i) := None)"
    using a(1) n by (cases "xs ! i") (auto simp: fun_eq_iff)
  show "distinct (map fst (butlast (xs[i := last xs])))" using a(2) by simp
qed

lemma slot_update:
  assumes "wf_manager m" "find_index m k = Some i"
  shows "dogs (m\<lparr>wm_streams := (wm_streams m)[i := (k, v)]\<rparr>) = (dogs m)(k \<mapsto> v)"
    "distinct (map fst ((wm_streams m)[i := (k, v)]))"
  using map_of_slot [OF _ find_index_Some [OF assms(2)], of v] assms(1)
  by (simp_all add: wf_manager_def dogs_def)

lemma dogs_calls [simp]: "dogs (m\<lparr>wm_streams := xs, wm_calls := c\<rparr>) = dogs (m\<lparr>wm_streams := xs\<rparr>)"
  by (simp add: dogs_def)

lemma dom_dogs: "wf_manager m \<Longrightarrow> card (dom (dogs m)) = length (wm_streams m)"
  by (simp add: wf_manager_def dogs_def dom_map_of_conv_image_fst)
     (metis card_image distinct_card distinct_map set_map length_map)

text \<open>
  C35. The manager's fixed arrays implement a map from stream keys to watchdogs with at most 16
  keys: registering a new stream adds a fresh watchdog unless the table is full, registering it
  again changes nothing, unregistering removes exactly its key although the last slot is moved
  into its place, and an accepted request, a cleared safe state and a poll change the watchdog
  of their own stream only. The invariant of the arrays is kept by each.
\<close>

theorem manager_implements_map:
  assumes "wf_manager m"
  shows "wf_manager (snd (register_stream m k)) \<and>
      dogs (snd (register_stream m k)) =
        (if dogs m k = None \<and> card (dom (dogs m)) < 16 then (dogs m)(k \<mapsto> new_watchdog) else dogs m) \<and>
      wf_manager (unregister_stream m k) \<and> dogs (unregister_stream m k) = (dogs m)(k := None) \<and>
      wf_manager (snd (on_request_received m k now)) \<and>
      dogs (snd (on_request_received m k now)) =
        (dogs m)(k := map_option (\<lambda>wd. kick_wd wd now) (dogs m k)) \<and>
      wf_manager (snd (manager_clear_safe_state m k)) \<and>
      dogs (snd (manager_clear_safe_state m k)) = (dogs m)(k := map_option clear_safe_state (dogs m k)) \<and>
      wf_manager (fst (snd (poll m k cfg lg now))) \<and>
      dogs (fst (snd (poll m k cfg lg now))) =
        (dogs m)(k := map_option (\<lambda>wd. fst (snd (check_watchdog wd k cfg lg now))) (dogs m k))"
proof (cases "find_index m k")
  case None
  then have n: "dogs m k = None" by (simp add: find_index_None)
  then have "k \<notin> fst ` set (wm_streams m)" by (simp add: dogs_def map_of_eq_None_iff)
  moreover have "dogs (m\<lparr>wm_streams := wm_streams m @ [(k, new_watchdog)]\<rparr>) = (dogs m)(k \<mapsto> new_watchdog)"
    using n by (auto simp: dogs_def map_add_def fun_eq_iff split: option.splits)
  moreover have "(dogs m)(k := None) = dogs m" using n by (simp add: fun_upd_idem)
  ultimately show ?thesis
    using None n assms dom_dogs [OF assms]
    by (simp add: register_stream_def unregister_stream_def on_request_received_def
        manager_clear_safe_state_def poll_def wf_manager_def kMaxWatchdogStreams_def)
next
  case (Some i)
  note i = find_index_Some [OF Some] and up = slot_update [OF assms Some]
  have s: "dogs m k = Some (snd (wm_streams m ! i))" by (rule dogs_at [OF assms Some])
  have ne: "wm_streams m \<noteq> []" using i(1) by auto
  have rm: "dogs (unregister_stream m k) = (dogs m)(k := None)" "wf_manager (unregister_stream m k)"
    using map_of_swap_remove [OF _ i(1)] assms i Some ne
    by (auto simp: unregister_stream_def wf_manager_def dogs_def last_conv_nth)
  obtain ev wd' lg' where c: "check_watchdog (snd (wm_streams m ! i)) k cfg lg now = (ev, wd', lg')"
    by (cases "check_watchdog (snd (wm_streams m ! i)) k cfg lg now") auto
  have slot: "wf_manager (m\<lparr>wm_streams := (wm_streams m)[i := (k, v)]\<rparr>)"
      "wf_manager (m\<lparr>wm_streams := (wm_streams m)[i := (k, v)], wm_calls := calls\<rparr>)" for v calls
    using up(2) assms by (simp_all add: wf_manager_def)
  have reg: "snd (register_stream m k) = m" using Some by (simp add: register_stream_def)
  have req: "snd (on_request_received m k now) =
      m\<lparr>wm_streams := (wm_streams m)[i := (k, kick_wd (snd (wm_streams m ! i)) now)]\<rparr>"
    using Some i by (simp add: on_request_received_def kick_from_request_def)
  have clear: "snd (manager_clear_safe_state m k) =
      m\<lparr>wm_streams := (wm_streams m)[i := (k, clear_safe_state (snd (wm_streams m ! i)))]\<rparr>"
    using Some i by (simp add: manager_clear_safe_state_def)
  have poll: "fst (snd (poll m k cfg lg now)) = m\<lparr>wm_streams := (wm_streams m)[i := (k, wd')],
      wm_calls := wm_calls m @ (case ev of None \<Rightarrow> [] | Some e \<Rightarrow> map (\<lambda>i. (i, e)) [0..<wm_callbacks m])\<rparr>"
    using Some i c by (simp add: poll_def)
  show ?thesis
    unfolding reg req clear poll dogs_calls
    apply (intro conjI)
    subgoal by (rule assms)
    subgoal using s by simp
    subgoal by (rule rm)
    subgoal by (rule rm)
    subgoal by (rule slot)
    subgoal unfolding up(1) s by simp
    subgoal by (rule slot)
    subgoal unfolding up(1) s by simp
    subgoal by (rule slot)
    subgoal unfolding up(1) s option.map c fst_conv snd_conv by (rule refl)
    done
qed

lemma check_watchdog_quiet:
  assumes "\<not> (\<not> rw_in_safe_state wd \<and> overflowed wd cfg now)" "check_watchdog wd k cfg lg now = (ev, wd', lg')"
  shows "lg' = lg" "wd' = wd" "ev = None \<or> \<not> he_overflowed (the ev)"
proof -
  have r: "check_watchdog wd k cfg lg now =
      (if should_emit_info_notification wd cfg then
        (Some \<lparr>he_stream_key = k, he_overflowed = False, he_entered_safe_state = False,
               he_info_notification_due = True, he_canceled_request_count = 0\<rparr>, wd, lg)
      else (None, wd, lg))"
    unfolding check_watchdog_def by (rule if_not_P [OF assms(1)])
  show "lg' = lg" "wd' = wd" "ev = None \<or> \<not> he_overflowed (the ev)"
    using assms(2) unfolding r
    by (cases "should_emit_info_notification wd cfg"; force)+
qed

text \<open>
  A poll reports an expiry exactly when the watchdog is enabled, was kicked, has not been
  kicked for longer than the timeout, and is not already latched; with the safe state enabled
  the poll latches it and leaves no normal request that could still start. Every subscriber
  gets the event once, and a poll of an unknown stream reports so and changes nothing.
\<close>

theorem poll_reports_expiry:
  assumes "wf_manager m" "wf_ledger lg" "poll m k cfg lg now = (r, m', lg')"
  shows "(case dogs m k of
      None \<Rightarrow> r = Some (Watchdog_err Stream_not_registered) \<and> m' = m \<and> lg' = lg
    | Some wd \<Rightarrow> r = None \<and>
       (if \<not> rw_in_safe_state wd \<and> rs_rx_wd_enable cfg \<and> rw_kicked wd \<and>
           ucast (rs_rx_wd_timeout_interval cfg) < now - rw_last_kick_ms wd
        then (\<exists>e. wm_calls m' = wm_calls m @ map (\<lambda>i. (i, e)) [0..<wm_callbacks m] \<and>
            he_overflowed e \<and> he_stream_key e = k \<and>
            he_entered_safe_state e = rs_rx_wd_safestate_enable cfg \<and>
            manager_in_safe_state m' k = rs_rx_wd_safestate_enable cfg \<and>
            (if rs_rx_wd_safestate_enable cfg
             then (\<forall>rec \<in> set (lg_records lg'). past_cancellation (rr_state rec) \<or> rr_is_safety rec)
             else lg' = lg))
        else lg' = lg \<and> dogs m' k = Some wd \<and>
          (\<forall>c \<in> set (drop (length (wm_calls m)) (wm_calls m')). \<not> he_overflowed (snd c))))"
proof (cases "find_index m k")
  case None
  then have "dogs m k = None" by (simp add: find_index_None)
  with None show ?thesis using assms(3) by (simp add: poll_def)
next
  case (Some i)
  note i = find_index_Some [OF Some]
  let ?wd = "snd (wm_streams m ! i)"
  have s: "dogs m k = Some ?wd" by (rule dogs_at [OF assms(1) Some])
  obtain ev wd' where c: "check_watchdog ?wd k cfg lg now = (ev, wd', lg')"
    and m': "m' = m\<lparr>wm_streams := (wm_streams m)[i := (k, wd')],
        wm_calls := wm_calls m @ (case ev of None \<Rightarrow> [] | Some e \<Rightarrow> map (\<lambda>i. (i, e)) [0..<wm_callbacks m])\<rparr>"
    and r: "r = None"
    using assms(3) Some i by (auto simp: poll_def split: prod.splits)
  have d: "dogs m' k = Some wd'"
    unfolding m' by (simp add: slot_update [OF assms(1) Some])
  have f: "find_index m' k = Some i"
    using Some unfolding m' find_index_def
    by (auto simp: find_upt_Some nth_list_update)
  then have safe: "manager_in_safe_state m' k = rw_in_safe_state wd'"
    using i by (simp add: manager_in_safe_state_def m')
  show ?thesis
  proof (cases "\<not> rw_in_safe_state ?wd \<and> overflowed ?wd cfg now")
    case True
    then have e: "ev = Some \<lparr>he_stream_key = k, he_overflowed = True, he_entered_safe_state = rw_in_safe_state wd',
        he_info_notification_due = should_emit_info_notification wd' cfg,
        he_canceled_request_count = fst (apply_watchdog_overflow cfg ?wd lg)\<rparr>"
      "wd' = fst (snd (apply_watchdog_overflow cfg ?wd lg))" "lg' = snd (snd (apply_watchdog_overflow cfg ?wd lg))"
      using c by (auto simp: check_watchdog_def split: prod.splits)
    have w: "rw_in_safe_state wd' = rs_rx_wd_safestate_enable cfg"
      using True by (simp add: e(2) apply_watchdog_overflow_def enter_safe_state_def split: prod.splits)
    have l: "if rs_rx_wd_safestate_enable cfg then lg' = snd (cancel_all lg True) else lg' = lg"
      by (simp add: e(3) apply_watchdog_overflow_def split: prod.splits)
    have p: "rs_rx_wd_safestate_enable cfg \<Longrightarrow>
        \<forall>rec \<in> set (lg_records lg'). past_cancellation (rr_state rec) \<or> rr_is_safety rec"
      using l cancel_all_normal [OF assms(2)] by auto
    have o: "\<not> rw_in_safe_state ?wd \<and> rs_rx_wd_enable cfg \<and> rw_kicked ?wd \<and>
        ucast (rs_rx_wd_timeout_interval cfg) < now - rw_last_kick_ms ?wd"
      using True by (auto simp: overflowed_def split: if_splits)
    have lg: "if rs_rx_wd_safestate_enable cfg
        then (\<forall>rec \<in> set (lg_records lg'). past_cancellation (rr_state rec) \<or> rr_is_safety rec) else lg' = lg"
      using l p by (simp split: if_splits)
    have "\<exists>e. wm_calls m' = wm_calls m @ map (\<lambda>i. (i, e)) [0..<wm_callbacks m] \<and>
        he_overflowed e \<and> he_stream_key e = k \<and> he_entered_safe_state e = rs_rx_wd_safestate_enable cfg"
      by (intro exI [of _ "the ev"]) (simp add: m' e(1) w)
    then show ?thesis
      using s r o lg w safe by (cases "rs_rx_wd_safestate_enable cfg") auto
  next
    case False
    note quiet = check_watchdog_quiet [OF False c]
    then have "\<forall>c \<in> set (drop (length (wm_calls m)) (wm_calls m')). \<not> he_overflowed (snd c)"
      by (auto simp: m' split: option.splits)
    moreover have "\<not> (\<not> rw_in_safe_state ?wd \<and> rs_rx_wd_enable cfg \<and> rw_kicked ?wd \<and>
        ucast (rs_rx_wd_timeout_interval cfg) < now - rw_last_kick_ms ?wd)"
      using False by (auto simp: overflowed_def)
    ultimately show ?thesis
      using s r d quiet by (simp only: option.case if_False)
  qed
qed

section \<open>Inputs\<close>

definition sample_manager :: watchdog_manager where
  "sample_manager =
     \<lparr>wm_streams = [(7, new_watchdog), (9, \<lparr>rw_kicked = True, rw_last_kick_ms = 5, rw_in_safe_state = False\<rparr>)],
      wm_callbacks = 2, wm_calls = []\<rparr>"

lemma sample_manager_wf: "wf_manager sample_manager"
  by (simp add: wf_manager_def sample_manager_def kMaxWatchdogStreams_def kMaxCallbacks_def)

lemma manager_implements_map_witness:
  "wf_manager (unregister_stream sample_manager 7) \<and>
   dogs (unregister_stream sample_manager 7) = (dogs sample_manager)(7 := None) \<and>
   dogs (snd (register_stream sample_manager 3)) = (dogs sample_manager)(3 \<mapsto> new_watchdog)"
proof -
  have "dogs sample_manager 3 = None" by (simp add: dogs_def sample_manager_def)
  moreover have "card (dom (dogs sample_manager)) < 16"
    using dom_dogs [OF sample_manager_wf] by (simp add: sample_manager_def)
  ultimately show ?thesis
    using manager_implements_map [OF sample_manager_wf, of 7]
      manager_implements_map [OF sample_manager_wf, of 3] by simp
qed

definition sample_wd_config :: request_stream_config where
  "sample_wd_config = request_stream_default\<lparr>rs_rx_wd_enable := True,
     rs_rx_wd_safestate_enable := True, rs_rx_wd_timeout_interval := 10\<rparr>"

lemma poll_reports_expiry_witness:
  "manager_in_safe_state (fst (snd (poll sample_manager 9 sample_wd_config sample_ledger 100))) 9"
proof -
  have "dogs sample_manager 9 = Some \<lparr>rw_kicked = True, rw_last_kick_ms = 5, rw_in_safe_state = False\<rparr>"
    by (simp add: dogs_def sample_manager_def)
  then show ?thesis
    using poll_reports_expiry [OF sample_manager_wf wf_sample_ledger,
        of 9 sample_wd_config 100 "fst (poll sample_manager 9 sample_wd_config sample_ledger 100)"
        "fst (snd (poll sample_manager 9 sample_wd_config sample_ledger 100))"
        "snd (snd (poll sample_manager 9 sample_wd_config sample_ledger 100))"]
    by (auto simp: sample_wd_config_def)
qed

end
