(* ===== verification/General_Map.thy ===== *)
theory General_Map
  imports Acf_Response
begin

text \<open>
  The general register map of \<open>include/rcp/regmap.hpp\<close>: the block every RC server exposes at
  its pseudo-endpoint EP0, its img on the wire, and the read and write messages for it.
\<close>

section \<open>The map\<close>

definition kRegisterMapMagic :: u32 where "kRegisterMapMagic = 0x52435030"

definition kNoRootClient :: u16 where "kNoRootClient = 0xFFFF"

record general_map =
  gm_magic :: u32
  gm_svr_version :: u32
  gm_vendor_id :: u16
  gm_device_id :: u16
  gm_svr_ep_count :: u16
  gm_svr_lifecycle_state :: u8
  gm_svr_req_stream_max :: u8
  gm_svr_responder_streams_max :: u8
  gm_svr_responder_mem_size :: u16
  gm_svr_req_mem_size :: u16
  gm_svr_sequencers_max :: u8
  gm_svr_configuration_lock :: u8
  gm_svr_implemented_options :: u8
  gm_reserved_0x17 :: u8
  gm_svr_io_pin_count :: u16
  gm_svr_root_client_index :: u16
  gm_svr_hw_cfg_ptr :: u16
  gm_svr_request_stream_cfg_capacity :: u8
  gm_svr_response_stream_cfg_capacity :: u8
  gm_svr_request_stream_cfg_ptr :: u16
  gm_svr_response_stream_cfg_ptr :: u16
  gm_reserved_0x22 :: u16
  gm_svr_ep_generic_cfg_ptr :: u16
  gm_svr_ep_generic_cfg_capacity :: u16
  gm_svr_ep_bytebus_id_map_ptr :: u16
  gm_svr_ep_bytebus_id_map_capacity :: u8
  gm_svr_ep_functional_cfg_ptr :: u16
  gm_svr_sequencer_state_ptr :: u16
  gm_svr_network_interface_cfg_ptr :: u16
  gm_svr_network_interface_cfg_capacity :: u16
  gm_svr_physical_layer_cfg_ptr :: u16
  gm_svr_physical_layer_cfg_capacity :: u16
  gm_svr_time_synch_cfg_ptr :: u16
  gm_svr_time_synch_cfg_capacity :: u16
  gm_svr_security_cfg_ptr :: u16
  gm_svr_security_cfg_capacity :: u16
  gm_svr_device_specific_cfg_ptr :: u16
  gm_svr_device_specific_cfg_capacity :: u16

definition general_map_default :: general_map where
  "general_map_default =
     \<lparr>gm_magic = kRegisterMapMagic,
      gm_svr_version = 0,
      gm_vendor_id = 0,
      gm_device_id = 0,
      gm_svr_ep_count = 0,
      gm_svr_lifecycle_state = 0,
      gm_svr_req_stream_max = 0,
      gm_svr_responder_streams_max = 0,
      gm_svr_responder_mem_size = 0,
      gm_svr_req_mem_size = 0,
      gm_svr_sequencers_max = 0,
      gm_svr_configuration_lock = 0,
      gm_svr_implemented_options = 0,
      gm_reserved_0x17 = 0,
      gm_svr_io_pin_count = 0,
      gm_svr_root_client_index = kNoRootClient,
      gm_svr_hw_cfg_ptr = 0,
      gm_svr_request_stream_cfg_capacity = 0,
      gm_svr_response_stream_cfg_capacity = 0,
      gm_svr_request_stream_cfg_ptr = 0,
      gm_svr_response_stream_cfg_ptr = 0,
      gm_reserved_0x22 = 0,
      gm_svr_ep_generic_cfg_ptr = 0,
      gm_svr_ep_generic_cfg_capacity = 0,
      gm_svr_ep_bytebus_id_map_ptr = 0,
      gm_svr_ep_bytebus_id_map_capacity = 0,
      gm_svr_ep_functional_cfg_ptr = 0,
      gm_svr_sequencer_state_ptr = 0,
      gm_svr_network_interface_cfg_ptr = 0,
      gm_svr_network_interface_cfg_capacity = 0,
      gm_svr_physical_layer_cfg_ptr = 0,
      gm_svr_physical_layer_cfg_capacity = 0,
      gm_svr_time_synch_cfg_ptr = 0,
      gm_svr_time_synch_cfg_capacity = 0,
      gm_svr_security_cfg_ptr = 0,
      gm_svr_security_cfg_capacity = 0,
      gm_svr_device_specific_cfg_ptr = 0,
      gm_svr_device_specific_cfg_capacity = 0\<rparr>"

definition kGeneralMapLen :: nat where "kGeneralMapLen = 0x44"

text \<open>
  \<open>render\<close> writes each field at its address; the addresses are consecutive, with one octet of
  padding at \<open>0x2B\<close>, so the img is the fields one after the other.
\<close>

definition render :: "general_map \<Rightarrow> octets" where
  "render gm =
     put_u32 (gm_magic gm) @
     put_u32 (gm_svr_version gm) @
     put_u16 (gm_vendor_id gm) @
     put_u16 (gm_device_id gm) @
     put_u16 (gm_svr_ep_count gm) @
     [gm_svr_req_stream_max gm] @
     [gm_svr_responder_streams_max gm] @
     put_u16 (gm_svr_responder_mem_size gm) @
     put_u16 (gm_svr_req_mem_size gm) @
     [gm_svr_sequencers_max gm] @
     [gm_svr_configuration_lock gm] @
     [gm_svr_implemented_options gm] @
     [gm_reserved_0x17 gm] @
     put_u16 (gm_svr_io_pin_count gm) @
     put_u16 (gm_svr_hw_cfg_ptr gm) @
     [gm_svr_request_stream_cfg_capacity gm] @
     [gm_svr_response_stream_cfg_capacity gm] @
     put_u16 (gm_svr_request_stream_cfg_ptr gm) @
     put_u16 (gm_svr_response_stream_cfg_ptr gm) @
     put_u16 (gm_reserved_0x22 gm) @
     put_u16 (gm_svr_ep_generic_cfg_ptr gm) @
     put_u16 (gm_svr_ep_generic_cfg_capacity gm) @
     put_u16 (gm_svr_ep_bytebus_id_map_ptr gm) @
     [gm_svr_ep_bytebus_id_map_capacity gm] @
     [0] @
     put_u16 (gm_svr_ep_functional_cfg_ptr gm) @
     put_u16 (gm_svr_sequencer_state_ptr gm) @
     put_u16 (gm_svr_network_interface_cfg_ptr gm) @
     put_u16 (gm_svr_network_interface_cfg_capacity gm) @
     put_u16 (gm_svr_physical_layer_cfg_ptr gm) @
     put_u16 (gm_svr_physical_layer_cfg_capacity gm) @
     put_u16 (gm_svr_time_synch_cfg_ptr gm) @
     put_u16 (gm_svr_time_synch_cfg_capacity gm) @
     put_u16 (gm_svr_security_cfg_ptr gm) @
     put_u16 (gm_svr_security_cfg_capacity gm) @
     put_u16 (gm_svr_device_specific_cfg_ptr gm) @
     put_u16 (gm_svr_device_specific_cfg_capacity gm)"

section \<open>Messages\<close>

definition kEp0Bus :: u16 where "kEp0Bus = 0"

definition encode_read_response :: "general_map \<Rightarrow> u8 \<Rightarrow> u8 \<Rightarrow> octets" where
  "encode_read_response gm read_size transaction_num =
     (let img = render gm;
          copy_len = min (unat read_size) (length img);
          payload = take copy_len img @ replicate (unat read_size - copy_len) 0;
          hdr = acf_default\<lparr>a_byte_bus_id := kEp0Bus, a_op := False, a_rsp := True,
            a_read_size := ucast read_size, a_transaction_num := transaction_num\<rparr>
      in encode_acf_abb hdr payload)"

text \<open>The two assignments of \<open>decode_read_response\<close> to its output, before and after its early return.\<close>

definition read_identity :: "octets \<Rightarrow> general_map \<Rightarrow> general_map" where
  "read_identity img out_map =
     out_map\<lparr>gm_magic := get_u32 (drop 0x0 img),
             gm_svr_version := get_u32 (drop 0x4 img),
             gm_vendor_id := get_u16 (drop 0x8 img),
             gm_device_id := get_u16 (drop 0xa img),
             gm_svr_ep_count := get_u16 (drop 0xc img)\<rparr>"

definition read_rest :: "octets \<Rightarrow> general_map \<Rightarrow> general_map" where
  "read_rest img out_map =
     out_map\<lparr>gm_svr_req_stream_max := img ! 0xe,
             gm_svr_responder_streams_max := img ! 0xf,
             gm_svr_responder_mem_size := get_u16 (drop 0x10 img),
             gm_svr_req_mem_size := get_u16 (drop 0x12 img),
             gm_svr_sequencers_max := img ! 0x14,
             gm_svr_configuration_lock := img ! 0x15,
             gm_svr_implemented_options := img ! 0x16,
             gm_reserved_0x17 := img ! 0x17,
             gm_svr_io_pin_count := get_u16 (drop 0x18 img),
             gm_svr_hw_cfg_ptr := get_u16 (drop 0x1a img),
             gm_svr_request_stream_cfg_capacity := img ! 0x1c,
             gm_svr_response_stream_cfg_capacity := img ! 0x1d,
             gm_svr_request_stream_cfg_ptr := get_u16 (drop 0x1e img),
             gm_svr_response_stream_cfg_ptr := get_u16 (drop 0x20 img),
             gm_reserved_0x22 := get_u16 (drop 0x22 img),
             gm_svr_ep_generic_cfg_ptr := get_u16 (drop 0x24 img),
             gm_svr_ep_generic_cfg_capacity := get_u16 (drop 0x26 img),
             gm_svr_ep_bytebus_id_map_ptr := get_u16 (drop 0x28 img),
             gm_svr_ep_bytebus_id_map_capacity := img ! 0x2a,
             gm_svr_ep_functional_cfg_ptr := get_u16 (drop 0x2c img),
             gm_svr_sequencer_state_ptr := get_u16 (drop 0x2e img),
             gm_svr_network_interface_cfg_ptr := get_u16 (drop 0x30 img),
             gm_svr_network_interface_cfg_capacity := get_u16 (drop 0x32 img),
             gm_svr_physical_layer_cfg_ptr := get_u16 (drop 0x34 img),
             gm_svr_physical_layer_cfg_capacity := get_u16 (drop 0x36 img),
             gm_svr_time_synch_cfg_ptr := get_u16 (drop 0x38 img),
             gm_svr_time_synch_cfg_capacity := get_u16 (drop 0x3a img),
             gm_svr_security_cfg_ptr := get_u16 (drop 0x3c img),
             gm_svr_security_cfg_capacity := get_u16 (drop 0x3e img),
             gm_svr_device_specific_cfg_ptr := get_u16 (drop 0x40 img),
             gm_svr_device_specific_cfg_capacity := get_u16 (drop 0x42 img)\<rparr>"

definition general_map_error :: "error \<Rightarrow> error" where
  "general_map_error acf_ec =
     General_map_err (if acf_ec = Avtp_err Short_buffer then Gm_short_frame else Gm_bad_msg_type)"

definition decode_read_response :: "octets \<Rightarrow> general_map \<Rightarrow> general_map result" where
  "decode_read_response b out_map =
     (case decode_acf_abb b of
        Inl acf_ec \<Rightarrow> Inl (general_map_error acf_ec)
      | Inr (hdr, payload) \<Rightarrow>
          if a_byte_bus_id hdr \<noteq> kEp0Bus then Inl (General_map_err Gm_wrong_bus)
          else if a_op hdr then Inl (General_map_err Gm_wrong_op)
          else
            (let have_len = min (length payload) kGeneralMapLen;
                 img = take have_len payload @ replicate (kGeneralMapLen - have_len) 0;
                 out_map = read_identity img out_map
             in if have_len \<le> 0x0E then Inr out_map else Inr (read_rest img out_map)))"

definition decode_write_request :: "octets \<Rightarrow> (wire_error_code \<times> u8) result" where
  "decode_write_request b =
     (case decode_acf_abb b of
        Inl acf_ec \<Rightarrow> Inl (general_map_error acf_ec)
      | Inr (hdr, payload) \<Rightarrow>
          if a_byte_bus_id hdr \<noteq> kEp0Bus then Inl (General_map_err Gm_wrong_bus)
          else if \<not> a_op hdr then Inl (General_map_err Gm_wrong_op)
          else Inr (LockedMemAccess, a_transaction_num hdr))"

section \<open>Reading the map\<close>

lemma length_render: "length (render gm) = kGeneralMapLen"
  by (simp add: render_def kGeneralMapLen_def)

lemma put_append_nth:
  "n < 2 \<Longrightarrow> (put_u16 a @ r) ! n = put_u16 a ! n"
  by (simp add: nth_append)

lemma drop_puts [simp]:
  "2 \<le> n \<Longrightarrow> drop n (put_u16 a @ r) = drop (n - 2) r"
  "4 \<le> n \<Longrightarrow> drop n (put_u32 b @ r) = drop (n - 4) r"
  by (simp_all add: drop_append)

lemma nth_puts [simp]:
  "2 \<le> n \<Longrightarrow> (put_u16 a @ r) ! n = r ! (n - 2)"
  "4 \<le> n \<Longrightarrow> (put_u32 b @ r) ! n = r ! (n - 4)"
  by (simp_all add: nth_append)

lemma get_put_u16_end [simp]: "get_u16 (put_u16 v) = v"
  using get_put_u16 [of v "[]"] by simp

lemma read_identity_render:
  "read_identity (render gm) old = old\<lparr>gm_magic := gm_magic gm,
      gm_svr_version := gm_svr_version gm,
      gm_vendor_id := gm_vendor_id gm,
      gm_device_id := gm_device_id gm,
      gm_svr_ep_count := gm_svr_ep_count gm\<rparr>"
  by (simp add: read_identity_def render_def)

lemma read_rest_render:
  "read_rest (render gm) old = old\<lparr>gm_svr_req_stream_max := gm_svr_req_stream_max gm,
      gm_svr_responder_streams_max := gm_svr_responder_streams_max gm,
      gm_svr_responder_mem_size := gm_svr_responder_mem_size gm,
      gm_svr_req_mem_size := gm_svr_req_mem_size gm,
      gm_svr_sequencers_max := gm_svr_sequencers_max gm,
      gm_svr_configuration_lock := gm_svr_configuration_lock gm,
      gm_svr_implemented_options := gm_svr_implemented_options gm,
      gm_reserved_0x17 := gm_reserved_0x17 gm,
      gm_svr_io_pin_count := gm_svr_io_pin_count gm,
      gm_svr_hw_cfg_ptr := gm_svr_hw_cfg_ptr gm,
      gm_svr_request_stream_cfg_capacity := gm_svr_request_stream_cfg_capacity gm,
      gm_svr_response_stream_cfg_capacity := gm_svr_response_stream_cfg_capacity gm,
      gm_svr_request_stream_cfg_ptr := gm_svr_request_stream_cfg_ptr gm,
      gm_svr_response_stream_cfg_ptr := gm_svr_response_stream_cfg_ptr gm,
      gm_reserved_0x22 := gm_reserved_0x22 gm,
      gm_svr_ep_generic_cfg_ptr := gm_svr_ep_generic_cfg_ptr gm,
      gm_svr_ep_generic_cfg_capacity := gm_svr_ep_generic_cfg_capacity gm,
      gm_svr_ep_bytebus_id_map_ptr := gm_svr_ep_bytebus_id_map_ptr gm,
      gm_svr_ep_bytebus_id_map_capacity := gm_svr_ep_bytebus_id_map_capacity gm,
      gm_svr_ep_functional_cfg_ptr := gm_svr_ep_functional_cfg_ptr gm,
      gm_svr_sequencer_state_ptr := gm_svr_sequencer_state_ptr gm,
      gm_svr_network_interface_cfg_ptr := gm_svr_network_interface_cfg_ptr gm,
      gm_svr_network_interface_cfg_capacity := gm_svr_network_interface_cfg_capacity gm,
      gm_svr_physical_layer_cfg_ptr := gm_svr_physical_layer_cfg_ptr gm,
      gm_svr_physical_layer_cfg_capacity := gm_svr_physical_layer_cfg_capacity gm,
      gm_svr_time_synch_cfg_ptr := gm_svr_time_synch_cfg_ptr gm,
      gm_svr_time_synch_cfg_capacity := gm_svr_time_synch_cfg_capacity gm,
      gm_svr_security_cfg_ptr := gm_svr_security_cfg_ptr gm,
      gm_svr_security_cfg_capacity := gm_svr_security_cfg_capacity gm,
      gm_svr_device_specific_cfg_ptr := gm_svr_device_specific_cfg_ptr gm,
      gm_svr_device_specific_cfg_capacity := gm_svr_device_specific_cfg_capacity gm\<rparr>"
  by (simp add: read_rest_def render_def)

text \<open>The two registers that are not part of the image stay as they were.\<close>

definition with_unrendered :: "general_map \<Rightarrow> general_map \<Rightarrow> general_map" where
  "with_unrendered old gm =
     gm\<lparr>gm_svr_lifecycle_state := gm_svr_lifecycle_state old,
        gm_svr_root_client_index := gm_svr_root_client_index old\<rparr>"

lemma read_all_render: "read_rest (render gm) (read_identity (render gm) old) = with_unrendered old gm"
  by (cases gm; cases old) (simp add: read_identity_render read_rest_render with_unrendered_def)

definition identity_only :: "general_map \<Rightarrow> general_map \<Rightarrow> general_map" where
  "identity_only old gm =
     old\<lparr>gm_magic := gm_magic gm, gm_svr_version := gm_svr_version gm, gm_vendor_id := gm_vendor_id gm,
         gm_device_id := gm_device_id gm, gm_svr_ep_count := gm_svr_ep_count gm\<rparr>"

lemma identity_prefix:
  "read_identity (take 0xE (render gm) @ r) old = identity_only old gm"
proof -
  have "take 0xE (render gm) =
      put_u32 (gm_magic gm) @ put_u32 (gm_svr_version gm) @ put_u16 (gm_vendor_id gm) @
      put_u16 (gm_device_id gm) @ put_u16 (gm_svr_ep_count gm)"
    by (simp add: render_def take_append)
  then show ?thesis by (simp add: read_identity_def identity_only_def)
qed

definition response_payload :: "general_map \<Rightarrow> nat \<Rightarrow> octets" where
  "response_payload gm n =
     take (min n kGeneralMapLen) (render gm) @ replicate (n - min n kGeneralMapLen) 0"

lemma length_response_payload: "length (response_payload gm n) = n"
  by (simp add: response_payload_def length_render)

lemma decode_encoded_response:
  "decode_read_response (encode_read_response gm read_size txn) old =
     (let payload = response_payload gm (unat read_size);
          have_len = min (unat read_size) kGeneralMapLen;
          img = take have_len payload @ replicate (kGeneralMapLen - have_len) 0
      in if have_len \<le> 0x0E then Inr (read_identity img old)
         else Inr (read_rest img (read_identity img old)))"
proof -
  let ?hdr = "acf_default\<lparr>a_byte_bus_id := kEp0Bus, a_op := False, a_rsp := True,
      a_read_size := ucast read_size, a_transaction_num := txn\<rparr>"
  have e: "encode_read_response gm read_size txn =
      encode_acf_abb ?hdr (response_payload gm (unat read_size))"
    by (simp add: encode_read_response_def response_payload_def length_render Let_def)
  have h: "a_byte_bus_id (mask_info (abb_header ?hdr p)) = kEp0Bus" "\<not> a_op (mask_info (abb_header ?hdr p))" for p
    by (simp_all add: mask_info_def abb_header_def fill_length_def acf_default_def kEp0Bus_def)
  show ?thesis
    unfolding e decode_read_response_def decode_encode_abb
    by (simp add: h length_response_payload Let_def)
qed

text \<open>
  C39. A client that reads the whole general map gets every register of the server's map as it
  is, whatever it held before, except the lifecycle state and the root client, which are not on
  the wire and stay the client's own. Reading just the first fourteen octets gives the identity
  registers and leaves the rest.
\<close>

theorem general_map_read_exact:
  "(68 \<le> unat read_size \<longrightarrow>
     decode_read_response (encode_read_response gm read_size txn) old = Inr (with_unrendered old gm)) \<and>
   (read_size = 14 \<longrightarrow>
     decode_read_response (encode_read_response gm read_size txn) old = Inr (identity_only old gm)) \<and>
   (case decode_read_response (encode_read_response gm read_size txn) old of
      Inl e \<Rightarrow> False
    | Inr m \<Rightarrow> gm_svr_lifecycle_state m = gm_svr_lifecycle_state old \<and>
        gm_svr_root_client_index m = gm_svr_root_client_index old)"
proof (intro conjI impI)
  assume "68 \<le> unat read_size"
  then show "decode_read_response (encode_read_response gm read_size txn) old = Inr (with_unrendered old gm)"
    using length_render [of gm]
    by (simp add: decode_encoded_response response_payload_def kGeneralMapLen_def read_all_render)
next
  assume "read_size = 14"
  then show "decode_read_response (encode_read_response gm read_size txn) old = Inr (identity_only old gm)"
    by (simp add: decode_encoded_response response_payload_def kGeneralMapLen_def identity_prefix)
next
  show "case decode_read_response (encode_read_response gm read_size txn) old of
      Inl e \<Rightarrow> False
    | Inr m \<Rightarrow> gm_svr_lifecycle_state m = gm_svr_lifecycle_state old \<and>
        gm_svr_root_client_index m = gm_svr_root_client_index old"
    by (simp add: decode_encoded_response Let_def read_identity_def read_rest_def)
qed

lemma general_map_read_exact_witness:
  "decode_read_response (encode_read_response general_map_default 200 1)
     (general_map_default\<lparr>gm_magic := 0\<rparr>) = Inr general_map_default"
  using general_map_read_exact [of 200 general_map_default 1 "general_map_default\<lparr>gm_magic := 0\<rparr>"]
  by (simp add: with_unrendered_def general_map_default_def)

text \<open>
  A message is an accepted write request to EP0 exactly when it decodes as an ACF_ABB message to
  bus 0 with the write bit; the general map itself has no writable register, so the verdict is
  always \<open>LOCKED_MEM_ACCESS\<close>, for the request's own transaction.
\<close>

lemma decode_write_request_iff:
  "decode_write_request b = Inr (code, txn) \<longleftrightarrow>
     (\<exists>hdr payload. decode_acf_abb b = Inr (hdr, payload) \<and> a_byte_bus_id hdr = 0 \<and> a_op hdr \<and>
        code = LockedMemAccess \<and> txn = a_transaction_num hdr)"
  by (auto simp: decode_write_request_def kEp0Bus_def split: sum.splits if_splits)

end
