(* ===== verification/Ep0.thy ===== *)
theory Ep0
  imports General_Map Regmap Lifecycle
begin

text \<open>
  The register map as a whole and the access rules of its pseudo-endpoint EP0,
  \<open>include/rcp/regmap.hpp\<close>: who is a writer in the sense of the lifecycle, the root client and
  the endpoint owners, and the guarded writes of the map and of the configuration blocks.
\<close>

section \<open>Writers\<close>

record ep_client =
  ec_has_owning_stream :: bool
  ec_owning_stream_index :: u16

text \<open>\<open>None\<close> for a null \<open>ep_client\<close>; the stream index is narrowed to 8 bits for the table.\<close>

definition writer_ctx ::
    "general_map \<Rightarrow> ep_client option \<Rightarrow> u16 \<Rightarrow> bool \<Rightarrow> bool \<Rightarrow> bool \<Rightarrow> u16 \<Rightarrow>
       ep_id_mapping_entry list \<Rightarrow> writer_ctx" where
  "writer_ctx gm ep_client requesting_stream_index via_ep0 via_unicast via_discovery
      requesting_byte_bus_id ep_id_map =
     \<lparr>via_root_client_ep0 = via_ep0 \<and> gm_svr_root_client_index gm \<noteq> kNoRootClient \<and>
        requesting_stream_index = gm_svr_root_client_index gm,
      via_owning_stream =
        (case ep_client of
           None \<Rightarrow> False
         | Some c \<Rightarrow> ec_has_owning_stream c \<and> requesting_stream_index = ec_owning_stream_index c),
      via_non_unicast_frame = \<not> via_unicast,
      via_discovery_stream = via_discovery,
      via_valid_stream_association = gm_svr_root_client_index gm = kNoRootClient \<and>
        is_valid_association ep_id_map (ucast requesting_stream_index) requesting_byte_bus_id\<rparr>"

section \<open>The register map\<close>

record svr_ep_cfg =
  sc_discovery_timeout :: u16
  sc_ep_status :: u16

record table_pointer =
  tp_offset :: u32
  tp_capacity :: u16

text \<open>An endpoint's functional configuration is a block of octets.\<close>

record register_map =
  rm_general :: general_map
  rm_svr_ep_cfg :: svr_ep_cfg
  rm_hw_pin_map_table :: table_pointer
  rm_request_stream_table :: table_pointer
  rm_response_stream_table :: table_pointer
  rm_ep_id_mapping_table :: table_pointer
  rm_functional_config_table :: table_pointer
  rm_hw_pin_map :: "hw_pin_map_entry list"
  rm_request_streams :: "request_stream_config list"
  rm_response_streams :: "response_queue_config list"
  rm_ep_id_mapping :: "ep_id_mapping_entry list"
  rm_functional_configs :: "octets list"
  rm_generic_configs :: "endpoint_generic_config list"
  rm_sequencer_states :: "u8 list"
  rm_network_interface_cfg :: optional_subsystem_cfg
  rm_physical_layer_cfg :: optional_subsystem_cfg
  rm_time_synch_cfg :: optional_subsystem_cfg
  rm_security_cfg :: optional_subsystem_cfg

section \<open>EP0\<close>

datatype config_block = Generic_block | Functional_block

text \<open>
  The object refers to a register map and a lifecycle that belong to the embedding program;
  they are part of the state here. A client is an index chosen by the transport.
\<close>

record ep0 =
  e0_regs :: register_map
  e0_lifecycle :: server_lifecycle
  e0_root_client :: "nat option"
  e0_endpoint_owner :: "nat option list"

definition size_invariant_holds :: "register_map \<Rightarrow> bool" where
  "size_invariant_holds regs \<longleftrightarrow>
     length (rm_generic_configs regs) = unat (gm_svr_ep_count (rm_general regs)) \<and>
     length (rm_functional_configs regs) = unat (gm_svr_ep_count (rm_general regs))"

definition new_ep0 :: "register_map \<Rightarrow> server_lifecycle \<Rightarrow> ep0" where
  "new_ep0 regs lc =
     \<lparr>e0_regs = regs, e0_lifecycle = lc, e0_root_client = None,
      e0_endpoint_owner = replicate
        (if size_invariant_holds regs then unat (gm_svr_ep_count (rm_general regs)) else 0) None\<rparr>"

definition is_endpoint_table_consistent :: "ep0 \<Rightarrow> bool" where
  "is_endpoint_table_consistent e \<longleftrightarrow>
     size_invariant_holds (e0_regs e) \<and>
     length (e0_endpoint_owner e) = unat (gm_svr_ep_count (rm_general (e0_regs e)))"

definition claim_root_client :: "ep0 \<Rightarrow> nat \<Rightarrow> error option \<times> ep0" where
  "claim_root_client e client =
     (if e0_root_client e \<noteq> None \<and> the (e0_root_client e) \<noteq> client
      then (Some (Regmap_err Request_rejected), e)
      else (None, e\<lparr>e0_root_client := Some client\<rparr>))"

definition release_root_client :: "ep0 \<Rightarrow> ep0" where
  "release_root_client e = e\<lparr>e0_root_client := None\<rparr>"

definition is_root_client :: "ep0 \<Rightarrow> nat \<Rightarrow> bool" where
  "is_root_client e client \<longleftrightarrow> e0_root_client e = Some client"

definition set_endpoint_owner :: "ep0 \<Rightarrow> u16 \<Rightarrow> nat \<Rightarrow> error option \<times> ep0" where
  "set_endpoint_owner e ep client =
     (if ep = kEp0 \<or> length (e0_endpoint_owner e) < unat ep
      then (Some (Regmap_err Invalid_parameter), e)
      else (None, e\<lparr>e0_endpoint_owner := (e0_endpoint_owner e)[unat ep - 1 := Some client]\<rparr>))"

definition check_read_access :: "ep0 \<Rightarrow> u16 \<Rightarrow> error option" where
  "check_read_access e target =
     (if target \<noteq> kEp0 \<and> length (e0_endpoint_owner e) < unat target
      then Some (Regmap_err Invalid_parameter) else None)"

definition check_write_access :: "ep0 \<Rightarrow> nat \<Rightarrow> u16 \<Rightarrow> config_block \<Rightarrow> error option" where
  "check_write_access e client target block =
     (if target = kEp0
      then (if is_root_client e client then None else Some (Regmap_err Unauthorized_access))
      else if length (e0_endpoint_owner e) < unat target then Some (Regmap_err Invalid_parameter)
      else
        (let owner = e0_endpoint_owner e ! (unat target - 1);
             owns = (owner = Some client);
             authorized = is_root_client e client \<or> block = Functional_block \<and> owns
         in if \<not> authorized then Some (Regmap_err Unauthorized_access)
            else
              (let is_locked = (if block = Generic_block then generic_config_locked (e0_lifecycle e)
                                else functional_config_locked (e0_lifecycle e))
               in if is_locked then Some (Regmap_err Locked_mem_access) else None)))"

definition write_whole_map :: "ep0 \<Rightarrow> nat \<Rightarrow> register_map \<Rightarrow> error option \<times> ep0" where
  "write_whole_map e client new_map =
     (if \<not> is_root_client e client then (Some (Regmap_err Unauthorized_access), e)
      else if \<not> size_invariant_holds new_map then (Some (Regmap_err Invalid_parameter), e)
      else (None, e\<lparr>e0_regs := new_map,
        e0_endpoint_owner := replicate (unat (gm_svr_ep_count (rm_general new_map))) None\<rparr>))"

definition write_generic_config ::
    "ep0 \<Rightarrow> nat \<Rightarrow> u16 \<Rightarrow> endpoint_generic_config \<Rightarrow> error option \<times> ep0" where
  "write_generic_config e client target cfg =
     (if target = kEp0 then (Some (Regmap_err Invalid_parameter), e)
      else
        (case check_write_access e client target Generic_block of
           Some ec \<Rightarrow> (Some ec, e)
         | None \<Rightarrow>
             let idx = unat target - 1 in
             if length (rm_generic_configs (e0_regs e)) \<le> idx
             then (Some (Regmap_err Invalid_parameter), e)
             else (None, e\<lparr>e0_regs := (e0_regs e)
               \<lparr>rm_generic_configs := (rm_generic_configs (e0_regs e))[idx := cfg]\<rparr>\<rparr>)))"

definition write_functional_config ::
    "ep0 \<Rightarrow> nat \<Rightarrow> u16 \<Rightarrow> octets \<Rightarrow> error option \<times> ep0" where
  "write_functional_config e client target cfg =
     (if target = kEp0 then (Some (Regmap_err Invalid_parameter), e)
      else
        (case check_write_access e client target Functional_block of
           Some ec \<Rightarrow> (Some ec, e)
         | None \<Rightarrow>
             let idx = unat target - 1 in
             if length (rm_functional_configs (e0_regs e)) \<le> idx
             then (Some (Regmap_err Invalid_parameter), e)
             else (None, e\<lparr>e0_regs := (e0_regs e)
               \<lparr>rm_functional_configs := (rm_functional_configs (e0_regs e))[idx := cfg]\<rparr>\<rparr>)))"

section \<open>Runs of calls\<close>

datatype ep0_call =
    Claim nat
  | Release
  | Set_owner u16 nat
  | Write_map nat register_map
  | Write_generic nat u16 endpoint_generic_config
  | Write_functional nat u16 octets

fun ep0_do :: "ep0_call \<Rightarrow> ep0 \<Rightarrow> ep0" where
  "ep0_do (Claim c) e = snd (claim_root_client e c)"
| "ep0_do Release e = release_root_client e"
| "ep0_do (Set_owner ep c) e = snd (set_endpoint_owner e ep c)"
| "ep0_do (Write_map c m) e = snd (write_whole_map e c m)"
| "ep0_do (Write_generic c ep cfg) e = snd (write_generic_config e c ep cfg)"
| "ep0_do (Write_functional c ep cfg) e = snd (write_functional_config e c ep cfg)"

lemma check_write_access_None:
  assumes "target \<noteq> kEp0"
  shows "check_write_access e client target block = None \<longleftrightarrow>
    unat target \<le> length (e0_endpoint_owner e) \<and>
    (case block of
       Generic_block \<Rightarrow> is_root_client e client \<and> \<not> generic_config_locked (e0_lifecycle e)
     | Functional_block \<Rightarrow>
         (is_root_client e client \<or> e0_endpoint_owner e ! (unat target - 1) = Some client) \<and>
         \<not> functional_config_locked (e0_lifecycle e))"
  using assms by (cases block) (auto simp: check_write_access_def Let_def)

lemma target_index: "target \<noteq> kEp0 \<Longrightarrow> unat target \<le> n \<Longrightarrow> unat target - 1 < n"
  using unat_gt_0 [of target] by (simp add: kEp0_def)

lemma consistent_do:
  "is_endpoint_table_consistent e \<Longrightarrow> is_endpoint_table_consistent (ep0_do call e)"
  by (cases call)
     (auto simp: is_endpoint_table_consistent_def size_invariant_holds_def claim_root_client_def
       release_root_client_def set_endpoint_owner_def write_whole_map_def write_generic_config_def
       write_functional_config_def Let_def split: option.splits)

lemma consistent_new: "size_invariant_holds regs \<Longrightarrow> is_endpoint_table_consistent (new_ep0 regs lc)"
  by (simp add: is_endpoint_table_consistent_def new_ep0_def)

lemma consistent_run:
  "is_endpoint_table_consistent e \<Longrightarrow> is_endpoint_table_consistent (fold ep0_do calls e)"
  by (induction calls arbitrary: e) (simp_all add: consistent_do)

lemma write_generic_exact:
  assumes "is_endpoint_table_consistent e"
  shows "write_generic_config e c ep cfg =
    (if ep = kEp0 then (Some (Regmap_err Invalid_parameter), e)
     else (case check_write_access e c ep Generic_block of
         Some ec \<Rightarrow> (Some ec, e)
       | None \<Rightarrow> (None, e\<lparr>e0_regs := (e0_regs e)
           \<lparr>rm_generic_configs := (rm_generic_configs (e0_regs e))[unat ep - 1 := cfg]\<rparr>\<rparr>)))"
proof (cases "ep = kEp0 \<or> check_write_access e c ep Generic_block \<noteq> None")
  case False
  then have "unat ep - 1 < length (rm_generic_configs (e0_regs e))"
    using target_index [of ep "length (e0_endpoint_owner e)"] assms check_write_access_None [of ep e c Generic_block]
    by (simp add: is_endpoint_table_consistent_def size_invariant_holds_def)
  then show ?thesis using False by (simp add: write_generic_config_def Let_def)
qed (auto simp: write_generic_config_def)

lemma write_functional_exact:
  assumes "is_endpoint_table_consistent e"
  shows "write_functional_config e c ep cfg =
    (if ep = kEp0 then (Some (Regmap_err Invalid_parameter), e)
     else (case check_write_access e c ep Functional_block of
         Some ec \<Rightarrow> (Some ec, e)
       | None \<Rightarrow> (None, e\<lparr>e0_regs := (e0_regs e)
           \<lparr>rm_functional_configs := (rm_functional_configs (e0_regs e))[unat ep - 1 := cfg]\<rparr>\<rparr>)))"
proof (cases "ep = kEp0 \<or> check_write_access e c ep Functional_block \<noteq> None")
  case False
  then have "unat ep - 1 < length (rm_functional_configs (e0_regs e))"
    using target_index [of ep "length (e0_endpoint_owner e)"] assms check_write_access_None [of ep e c Functional_block]
    by (simp add: is_endpoint_table_consistent_def size_invariant_holds_def)
  then show ?thesis using False by (simp add: write_functional_config_def Let_def)
qed (auto simp: write_functional_config_def)

lemma access_results:
  "fst (if p then (Some x, e) else (case r of Some ec \<Rightarrow> (Some ec, e) | None \<Rightarrow> (None, e'))) = None \<longleftrightarrow>
     \<not> p \<and> r = None"
  "snd (if p then (Some x, e) else (case r of Some ec \<Rightarrow> (Some ec, e) | None \<Rightarrow> (None, e'))) =
     (if \<not> p \<and> r = None then e' else e)"
  by (auto split: option.splits)

text \<open>
  C15. The table of endpoint owners and the two configuration tables stay of the size the general
  map declares through every sequence of claims, assignments and writes, so a write whose access
  check passes always lands inside its table: it succeeds exactly when the client may write,
  the root client alone for the generic block, the root client or the owner for the functional
  one, each while its block is not locked, and then changes exactly the addressed row.
\<close>

theorem permitted_writes_land:
  assumes "size_invariant_holds regs" "e = fold ep0_do calls (new_ep0 regs lc)"
  shows "is_endpoint_table_consistent e \<and>
    (fst (write_generic_config e c ep cfg) = None \<longleftrightarrow>
       ep \<noteq> 0 \<and> ep \<le> gm_svr_ep_count (rm_general (e0_regs e)) \<and> is_root_client e c \<and>
       \<not> generic_config_locked (e0_lifecycle e)) \<and>
    (fst (write_functional_config e c ep fcfg) = None \<longleftrightarrow>
       ep \<noteq> 0 \<and> ep \<le> gm_svr_ep_count (rm_general (e0_regs e)) \<and>
       (is_root_client e c \<or> e0_endpoint_owner e ! (unat ep - 1) = Some c) \<and>
       \<not> functional_config_locked (e0_lifecycle e)) \<and>
    rm_generic_configs (e0_regs (snd (write_generic_config e c ep cfg))) =
      (if fst (write_generic_config e c ep cfg) = None
       then (rm_generic_configs (e0_regs e))[unat ep - 1 := cfg] else rm_generic_configs (e0_regs e)) \<and>
    rm_functional_configs (e0_regs (snd (write_functional_config e c ep fcfg))) =
      (if fst (write_functional_config e c ep fcfg) = None
       then (rm_functional_configs (e0_regs e))[unat ep - 1 := fcfg] else rm_functional_configs (e0_regs e))"
proof -
  have con: "is_endpoint_table_consistent e"
    unfolding assms(2) by (rule consistent_run [OF consistent_new [OF assms(1)]])
  let ?n = "unat (gm_svr_ep_count (rm_general (e0_regs e)))"
  have len: "length (e0_endpoint_owner e) = ?n" "length (rm_generic_configs (e0_regs e)) = ?n"
    "length (rm_functional_configs (e0_regs e)) = ?n"
    using con by (simp_all add: is_endpoint_table_consistent_def size_invariant_holds_def)
  show ?thesis
    unfolding write_generic_exact [OF con] write_functional_exact [OF con] access_results
    using con len by (cases "ep = kEp0") (simp_all add: check_write_access_None word_le_nat_alt kEp0_def)
qed

section \<open>Isolation\<close>

text \<open>The writes a client can issue, and what is the client's to change.\<close>

fun write_by :: "nat \<Rightarrow> ep0_call \<Rightarrow> bool" where
  "write_by c (Write_map c' m) = (c' = c)"
| "write_by c (Write_generic c' ep cfg) = (c' = c)"
| "write_by c (Write_functional c' ep cfg) = (c' = c)"
| "write_by c call = False"

definition same_but_owned :: "nat \<Rightarrow> ep0 \<Rightarrow> ep0 \<Rightarrow> bool" where
  "same_but_owned c e e' \<longleftrightarrow>
     (e0_regs e')\<lparr>rm_functional_configs := []\<rparr> = (e0_regs e)\<lparr>rm_functional_configs := []\<rparr> \<and>
     e0_lifecycle e' = e0_lifecycle e \<and> e0_root_client e' = e0_root_client e \<and>
     e0_endpoint_owner e' = e0_endpoint_owner e \<and>
     length (rm_functional_configs (e0_regs e')) = length (rm_functional_configs (e0_regs e)) \<and>
     (\<forall>i. (functional_config_locked (e0_lifecycle e) \<or> length (e0_endpoint_owner e) \<le> i \<or>
           e0_endpoint_owner e ! i \<noteq> Some c) \<longrightarrow>
        rm_functional_configs (e0_regs e') ! i = rm_functional_configs (e0_regs e) ! i)"

lemma same_but_owned_refl: "same_but_owned c e e"
  by (simp add: same_but_owned_def)

lemma same_but_owned_trans:
  "same_but_owned c e e1 \<Longrightarrow> same_but_owned c e1 e2 \<Longrightarrow> same_but_owned c e e2"
  by (simp add: same_but_owned_def)

lemma same_but_owned_do:
  assumes "is_endpoint_table_consistent e" "\<not> is_root_client e c" "write_by c call"
  shows "same_but_owned c e (ep0_do call e)"
proof (cases call)
  case (Write_functional c' ep cfg)
  show ?thesis
  proof (cases "ep \<noteq> kEp0 \<and> check_write_access e c ep Functional_block = None")
    case True
    then have a: "unat ep - 1 < length (e0_endpoint_owner e)" "e0_endpoint_owner e ! (unat ep - 1) = Some c"
      "\<not> functional_config_locked (e0_lifecycle e)"
      using target_index [of ep "length (e0_endpoint_owner e)"] assms(2) True
        check_write_access_None [of ep e c Functional_block] by simp_all
    have "ep0_do call e = e\<lparr>e0_regs := (e0_regs e)
        \<lparr>rm_functional_configs := (rm_functional_configs (e0_regs e))[unat ep - 1 := cfg]\<rparr>\<rparr>"
      using Write_functional assms True by (simp add: write_functional_exact)
    then show ?thesis
      using a by (auto simp: same_but_owned_def) (metis nth_list_update_neq)+
  next
    case False
    then have "snd (write_functional_config e c ep cfg) = e"
      by (auto simp: write_functional_exact [OF assms(1)])
    then show ?thesis using Write_functional assms(3) by (simp add: same_but_owned_refl)
  qed
next
  case (Write_generic c' ep cfg)
  then have "ep0_do call e = e"
    using assms
    by (auto simp: write_generic_exact access_results check_write_access_None)
  then show ?thesis by (simp add: same_but_owned_refl)
qed (use assms in \<open>auto simp: write_whole_map_def same_but_owned_refl\<close>)

text \<open>
  C16. A client that is not the root client cannot change anything but the functional
  configuration of the endpoints assigned to it, and that only while the server is not live:
  whatever sequence of writes it issues, the general map, the generic configuration, every
  table, the owners, the root client and the functional configuration of every other endpoint
  stay as they are.
\<close>

theorem non_root_isolated:
  assumes "is_endpoint_table_consistent e" "\<not> is_root_client e c" "\<forall>call \<in> set calls. write_by c call"
  shows "same_but_owned c e (fold ep0_do calls e)"
  using assms
proof (induction calls arbitrary: e)
  case (Cons call calls)
  have s: "same_but_owned c e (ep0_do call e)"
    using Cons.prems by (intro same_but_owned_do) simp_all
  then have "\<not> is_root_client (ep0_do call e) c"
    using Cons.prems(2) by (simp add: same_but_owned_def is_root_client_def)
  then have "same_but_owned c (ep0_do call e) (fold ep0_do calls (ep0_do call e))"
    using Cons.prems consistent_do by (intro Cons.IH) simp_all
  then show ?case using same_but_owned_trans [OF s] by simp
qed (simp add: same_but_owned_refl)

text \<open>
  The lock of the lifecycle binds the two per-endpoint writes but not the write of the whole map:
  the root client can replace the generic and the functional configuration of a live server.
\<close>

lemma whole_map_write_ignores_lock:
  assumes "is_root_client e c" "size_invariant_holds m" "lc_state (e0_lifecycle e) = Rcp_configured"
  shows "fst (write_generic_config e c ep cfg) \<noteq> None" "fst (write_functional_config e c ep fcfg) \<noteq> None"
    and "fst (write_whole_map e c m) = None" "e0_regs (snd (write_whole_map e c m)) = m"
  using assms
  by (auto simp: write_generic_config_def write_functional_config_def check_write_access_def
      write_whole_map_def generic_config_locked_def functional_config_locked_def Let_def)

section \<open>Inputs\<close>

definition sample_regs :: register_map where
  "sample_regs =
     \<lparr>rm_general = general_map_default\<lparr>gm_svr_ep_count := 2\<rparr>,
      rm_svr_ep_cfg = \<lparr>sc_discovery_timeout = 20000, sc_ep_status = 0\<rparr>,
      rm_hw_pin_map_table = \<lparr>tp_offset = 0, tp_capacity = 0\<rparr>,
      rm_request_stream_table = \<lparr>tp_offset = 0, tp_capacity = 0\<rparr>,
      rm_response_stream_table = \<lparr>tp_offset = 0, tp_capacity = 0\<rparr>,
      rm_ep_id_mapping_table = \<lparr>tp_offset = 0, tp_capacity = 0\<rparr>,
      rm_functional_config_table = \<lparr>tp_offset = 0, tp_capacity = 0\<rparr>,
      rm_hw_pin_map = [], rm_request_streams = [], rm_response_streams = [], rm_ep_id_mapping = [],
      rm_functional_configs = [[1], [2]], rm_generic_configs = [sample_generic, sample_generic],
      rm_sequencer_states = [], rm_network_interface_cfg = \<lparr>os_data = [], os_len = 0\<rparr>,
      rm_physical_layer_cfg = \<lparr>os_data = [], os_len = 0\<rparr>,
      rm_time_synch_cfg = \<lparr>os_data = [], os_len = 0\<rparr>, rm_security_cfg = \<lparr>os_data = [], os_len = 0\<rparr>\<rparr>"

definition sample_calls :: "ep0_call list" where
  "sample_calls = [Claim 7, Set_owner 1 4, Set_owner 2 5]"

lemma sample_regs_ok: "size_invariant_holds sample_regs"
  by (simp add: size_invariant_holds_def sample_regs_def general_map_default_def)

lemma sample_run:
  "fold ep0_do sample_calls (new_ep0 sample_regs new_lifecycle) =
     \<lparr>e0_regs = sample_regs, e0_lifecycle = new_lifecycle, e0_root_client = Some 7,
      e0_endpoint_owner = [Some 4, Some 5]\<rparr>"
proof -
  have "gm_svr_ep_count (rm_general sample_regs) = 2"
    by (simp add: sample_regs_def general_map_default_def)
  moreover have "replicate 2 None = [None, None :: nat option]" by (simp add: numeral_2_eq_2)
  ultimately show ?thesis
    by (simp add: sample_calls_def new_ep0_def sample_regs_ok claim_root_client_def set_endpoint_owner_def
        kEp0_def)
qed

lemma permitted_writes_land_witness:
  "fst (write_functional_config (fold ep0_do sample_calls (new_ep0 sample_regs new_lifecycle)) 5 2 [9]) = None \<and>
   fst (write_generic_config (fold ep0_do sample_calls (new_ep0 sample_regs new_lifecycle)) 5 2 sample_generic) \<noteq> None"
  using permitted_writes_land [OF sample_regs_ok refl, where lc = new_lifecycle and calls = sample_calls
      and c = 5 and ep = 2 and fcfg = "[9]" and cfg = sample_generic, unfolded sample_run]
  unfolding sample_run
  by (simp add: is_root_client_def functional_config_locked_def)
     (simp add: sample_regs_def general_map_default_def new_lifecycle_def)

lemma non_root_isolated_witness:
  "same_but_owned 5 (fold ep0_do sample_calls (new_ep0 sample_regs new_lifecycle))
     (fold ep0_do [Write_functional 5 1 [8], Write_functional 5 2 [9], Write_map 5 sample_regs]
       (fold ep0_do sample_calls (new_ep0 sample_regs new_lifecycle)))"
  by (rule non_root_isolated [OF consistent_run [OF consistent_new [OF sample_regs_ok]]])
     (simp_all add: sample_run is_root_client_def)

end
