(* ===== verification/Server.thy ===== *)
theory Server
  imports Schedule
begin

text \<open>
  The endpoint of the server, \<open>include/rcp/server.hpp\<close>: the queue that holds requests while the
  endpoint is disabled, the admission of a received message, and the store of conditional
  requests with its scheduler, repetitions and cancellations.
\<close>

section \<open>State\<close>

definition kMaxPending :: nat where "kMaxPending = 32"

definition kMaxQueuedFrames :: nat where "kMaxQueuedFrames = 32"

datatype admit_outcome = ExecuteNow | Queued | Pending | Apply_cancellation | Rejected | Suspended

text \<open>
  A stored request. A slot of the store is \<open>None\<close> while it is not in use: releasing a slot puts
  the default object back, so an unused slot carries nothing else.
\<close>

record pending_request =
  pr_category :: request_category
  pr_request_type :: "opcode option"
  pr_transaction_num :: u8
  pr_sequence :: u64
  pr_frame :: octets
  pr_compound :: compound_step
  pr_compound_wait_evt :: u8
  pr_compound_wait_target :: octets
  pr_triggered :: triggered_step
  pr_triggered_runtime :: triggered_runtime
  pr_presentation_time :: u64
  pr_chain_exec_delay :: u16
  pr_chain_cs :: bool
  pr_chain_group :: u32
  pr_chain_position :: u8
  pr_armed :: bool
  pr_armed_at :: u32
  pr_predecessor_done :: bool
  pr_has_presentation_gate :: bool
  pr_presentation_gate_ns :: u64

definition pending_default :: pending_request where
  "pending_default =
     \<lparr>pr_category = Standard, pr_request_type = None, pr_transaction_num = 0, pr_sequence = 0,
      pr_frame = [],
      pr_compound = \<lparr>cs_start_state = 0, cs_next_state = 0, cs_sequencer_index = 0,
        cs_exec_delay = 0, cs_repeat_count = 0\<rparr>,
      pr_compound_wait_evt = 0, pr_compound_wait_target = [],
      pr_triggered = \<lparr>ts_source_ep = 0, ts_signal_nr = 0, ts_threshold = 0, ts_exec_delay = 0,
        ts_repeat_count = 0\<rparr>,
      pr_triggered_runtime = \<lparr>rt_occurrence_count = 0, rt_started = False\<rparr>,
      pr_presentation_time = 0, pr_chain_exec_delay = 0, pr_chain_cs = False, pr_chain_group = 0,
      pr_chain_position = 0, pr_armed = False, pr_armed_at = 0, pr_predecessor_done = False,
      pr_has_presentation_gate = False, pr_presentation_gate_ns = 0\<rparr>"

record tick_context =
  tc_now :: u32
  tc_gptp_now :: u64
  tc_gptp_locked :: bool
  tc_sequencers :: "sequencers option"
  tc_endpoint_idle :: bool
  tc_in_safe_state :: bool
  tc_current_status :: octets

record server_endpoint =
  se_enable :: bool
  se_admission_suspended :: bool
  se_queue :: "octets list"
  se_pending :: "pending_request option list"
  se_pending_count :: nat
  se_next_sequence :: u64

definition new_endpoint :: "bool \<Rightarrow> server_endpoint" where
  "new_endpoint enable =
     \<lparr>se_enable = enable, se_admission_suspended = False, se_queue = [],
      se_pending = replicate kMaxPending None, se_pending_count = 0, se_next_sequence = 0\<rparr>"

definition set_enable :: "bool \<Rightarrow> server_endpoint \<Rightarrow> server_endpoint" where
  "set_enable enable ep = ep\<lparr>se_enable := enable\<rparr>"

definition set_admission_suspended :: "bool \<Rightarrow> server_endpoint \<Rightarrow> server_endpoint" where
  "set_admission_suspended suspended ep = ep\<lparr>se_admission_suspended := suspended\<rparr>"

section \<open>Time synchronisation signals\<close>

definition kGptpTriggerEstablished :: u8 where "kGptpTriggerEstablished = 0"

definition kGptpTriggerLost :: u8 where "kGptpTriggerLost = 1"

record gptp_trigger_state =
  gt_has_previous :: bool
  gt_previous_locked :: bool

definition gptp_trigger_evaluate :: "gptp_trigger_state \<Rightarrow> bool \<Rightarrow> u8 option \<times> gptp_trigger_state" where
  "gptp_trigger_evaluate state locked =
     (if gt_has_previous state \<and> locked \<noteq> gt_previous_locked state
      then Some (if locked then kGptpTriggerEstablished else kGptpTriggerLost) else None,
      state\<lparr>gt_has_previous := True, gt_previous_locked := locked\<rparr>)"

section \<open>The queue of a disabled endpoint\<close>

definition is_compound_wait_byte :: "u8 \<Rightarrow> bool" where
  "is_compound_wait_byte byte \<longleftrightarrow>
     byte = opcode_byte CompoundWait \<or> byte = opcode_byte CompoundWaitSafety"

definition is_config_request :: "octets \<Rightarrow> bool" where
  "is_config_request frame \<longleftrightarrow>
     kAcfCommonHeaderLen \<le> length frame \<and>
     (let hdr = decode_acf_message_info frame in
      a_evt_op hdr = 0x07 \<and>
      (a_msg_type hdr = kAcfMsgTypeAbb \<or>
       a_msg_type hdr = kAcfMsgTypeGbb \<and>
       (case peek_gbb_request_type frame of
          None \<Rightarrow> False
        | Some request_type \<Rightarrow> \<not> is_compound_wait_byte request_type)))"

definition store_ack :: "octets \<Rightarrow> octets" where
  "store_ack frame =
     (if length frame < kAcfCommonHeaderLen then []
      else
        (let hdr = decode_acf_message_info frame in
         if a_evt_ack hdr then build_acknowledge_response (a_byte_bus_id hdr) (a_transaction_num hdr)
         else []))"

text \<open>The result, the acknowledge written through \<open>out_ack\<close> and the endpoint.\<close>

definition submit :: "octets \<Rightarrow> server_endpoint \<Rightarrow> bool \<times> octets \<times> server_endpoint" where
  "submit frame ep =
     (if se_enable ep then (True, [], ep)
      else if is_config_request frame then (True, [], ep)
      else if kMaxQueuedFrames \<le> length (se_queue ep) then (False, [], ep)
      else (False, store_ack frame, ep\<lparr>se_queue := se_queue ep @ [frame]\<rparr>))"

definition drain_one :: "server_endpoint \<Rightarrow> octets option \<times> server_endpoint" where
  "drain_one ep =
     (if \<not> se_enable ep \<or> se_queue ep = [] then (None, ep)
      else (Some (hd (se_queue ep)), ep\<lparr>se_queue := tl (se_queue ep)\<rparr>))"

section \<open>Slots\<close>

definition claim_slot :: "server_endpoint \<Rightarrow> (nat \<times> server_endpoint) option" where
  "claim_slot ep =
     (case find (\<lambda>i. se_pending ep ! i = None) [0..<kMaxPending] of
        None \<Rightarrow> None
      | Some i \<Rightarrow> Some (i,
          ep\<lparr>se_pending := (se_pending ep)[i := Some (pending_default\<lparr>pr_sequence := se_next_sequence ep\<rparr>)],
             se_next_sequence := se_next_sequence ep + 1,
             se_pending_count := se_pending_count ep + 1\<rparr>))"

definition release_slot :: "nat \<Rightarrow> server_endpoint \<Rightarrow> server_endpoint" where
  "release_slot i ep =
     ep\<lparr>se_pending := (se_pending ep)[i := None], se_pending_count := se_pending_count ep - 1\<rparr>"

definition update_slot ::
    "nat \<Rightarrow> (pending_request \<Rightarrow> pending_request) \<Rightarrow> server_endpoint \<Rightarrow> server_endpoint" where
  "update_slot i f ep = ep\<lparr>se_pending := (se_pending ep)[i := map_option f (se_pending ep ! i)]\<rparr>"

section \<open>Admission\<close>

definition peek_request_type :: "octets \<Rightarrow> opcode option" where
  "peek_request_type frame =
     (if length frame < kAcfGbbMessageInfoLen then None
      else
        (let hdr = decode_acf_message_info frame in
         if a_msg_type hdr \<noteq> kAcfMsgTypeGbb \<or> a_mtv hdr then None
         else
           (let byte0 = frame ! kAcfCommonHeaderLen in
            if \<not> is_valid_request_type byte0 then None else opcode_of_byte byte0)))"

text \<open>
  What a call reports: the outcome, and what it writes through its pointers. The index is
  \<open>None\<close> where \<open>out_index\<close> is left as it was.
\<close>

record admission =
  ad_outcome :: admit_outcome
  ad_request_type :: "opcode option"
  ad_index :: "nat option"
  ad_error :: "wire_error_code option"
  ad_ack :: octets

definition outcome :: "admit_outcome \<Rightarrow> opcode option \<Rightarrow> admission" where
  "outcome out request_type =
     \<lparr>ad_outcome = out, ad_request_type = request_type, ad_index = None, ad_error = None, ad_ack = []\<rparr>"

definition admit_under_tscf_gate ::
    "octets \<Rightarrow> u32 \<Rightarrow> u64 \<Rightarrow> request_category \<Rightarrow> opcode option \<Rightarrow> server_endpoint \<Rightarrow>
       admission \<times> server_endpoint" where
  "admit_under_tscf_gate frame now presentation_gate_ns category request_type ep =
     (case claim_slot ep of
        None \<Rightarrow> (outcome Rejected request_type, ep)
      | Some (i, ep) \<Rightarrow>
          ((outcome Pending request_type)\<lparr>ad_index := Some i, ad_ack := store_ack frame\<rparr>,
           update_slot i (\<lambda>slot. slot\<lparr>pr_category := category, pr_request_type := request_type,
               pr_has_presentation_gate := True, pr_presentation_gate_ns := presentation_gate_ns,
               pr_armed_at := now, pr_frame := frame\<rparr>) ep))"

text \<open>
  The \<open>switch\<close> over the category: the fields that the kind's own decoder gives, or the reason
  (where one is reported) for which the claimed slot is released again.
\<close>

definition decode_kind ::
    "request_category \<Rightarrow> octets \<Rightarrow> pending_request \<Rightarrow> wire_error_code option + pending_request" where
  "decode_kind category frame slot =
     (if category = CompoundCat \<or> category = CompoundWaitCat then
        (case decode_compound_request frame of
           Inl ec \<Rightarrow> Inl None
         | Inr cr \<Rightarrow>
             if category = CompoundWaitCat \<and> \<not> compound_wait_evt_valid (cr_evt_op cr)
             then Inl (Some UnsupportedCmd)
             else Inr ((if category = CompoundWaitCat
                        then slot\<lparr>pr_compound_wait_evt := cr_evt_op cr,
                               pr_compound_wait_target := cr_payload cr\<rparr>
                        else slot)
                   \<lparr>pr_compound := cr_step cr, pr_transaction_num := cr_transaction_num cr\<rparr>))
      else if category = TriggeredCat then
        (case decode_triggered_request frame of
           Inl ec \<Rightarrow> Inl None
         | Inr tr \<Rightarrow> Inr (slot\<lparr>pr_triggered := tr_step tr, pr_transaction_num := tr_transaction_num tr,
               pr_triggered_runtime := triggered_enter_started (pr_triggered_runtime slot)\<rparr>))
      else if category = TimedCat then
        (case decode_timed_request frame of
           Inl ec \<Rightarrow> Inl None
         | Inr tmr \<Rightarrow> Inr (slot\<lparr>pr_presentation_time := td_presentation_time tmr,
               pr_transaction_num := td_transaction_num tmr\<rparr>))
      else if category = ChainedCat then
        (case decode_chained_member frame of
           Inl ec \<Rightarrow> Inl None
         | Inr cm \<Rightarrow> Inr (slot\<lparr>pr_chain_exec_delay := ch_exec_delay cm, pr_chain_cs := ch_cs cm,
               pr_transaction_num := ch_transaction_num cm\<rparr>))
      else Inl None)"

definition admit_with_ack ::
    "octets \<Rightarrow> u32 \<Rightarrow> bool \<Rightarrow> u32 \<Rightarrow> u64 \<Rightarrow> server_endpoint \<Rightarrow> admission \<times> server_endpoint" where
  "admit_with_ack frame now tv avtp_timestamp gptp_reference_now ep =
     (if se_admission_suspended ep then (outcome Suspended None, ep)
      else
        (let presentation_gate_ns =
               (if tv then extend_timestamp avtp_timestamp gptp_reference_now else 0);
             peeked = peek_request_type frame;
             category = category_of peeked
         in
          if kAcfCommonHeaderLen \<le> length frame \<and> \<not> header_is_request (decode_acf_message_info frame)
          then ((outcome Rejected None)\<lparr>ad_error := Some InvalidParameter\<rparr>, ep)
          else if peeked = None then
            if tv then admit_under_tscf_gate frame now presentation_gate_ns Standard None ep
            else
              (case submit frame ep of
                 (execute, ack, ep) \<Rightarrow>
                   ((outcome (if execute then ExecuteNow else Queued) None)\<lparr>ad_ack := ack\<rparr>, ep))
          else if category = Cancellation then
            if tv then admit_under_tscf_gate frame now presentation_gate_ns category peeked ep
            else (outcome Apply_cancellation peeked, ep)
          else
            (case claim_slot ep of
               None \<Rightarrow> ((outcome Rejected peeked)\<lparr>ad_error := Some ReqStorageOverflow\<rparr>, ep)
             | Some (i, ep) \<Rightarrow>
                 (case decode_kind category frame
                         ((the (se_pending ep ! i))\<lparr>pr_category := category, pr_request_type := peeked\<rparr>) of
                    Inl err \<Rightarrow> ((outcome Rejected peeked)\<lparr>ad_error := err\<rparr>, release_slot i ep)
                  | Inr slot \<Rightarrow>
                      ((outcome Pending peeked)\<lparr>ad_index := Some i, ad_ack := store_ack frame\<rparr>,
                       update_slot i (\<lambda>_. slot\<lparr>pr_has_presentation_gate := tv,
                           pr_presentation_gate_ns := presentation_gate_ns, pr_armed_at := now,
                           pr_frame := frame\<rparr>) ep)))))"

section \<open>The execution condition\<close>

definition kind_is_gated_by_ep_enable :: "request_category \<Rightarrow> bool" where
  "kind_is_gated_by_ep_enable category \<longleftrightarrow>
     category \<in> {CompoundCat, CompoundWaitCat, TriggeredCat, TimedCat, ChainedCat}"

fun start_condition_of :: "request_category \<Rightarrow> pending_request \<Rightarrow> tick_context \<Rightarrow> bool" where
  "start_condition_of CompoundCat slot ctx =
     (case tc_sequencers ctx of None \<Rightarrow> False
      | Some states \<Rightarrow> start_condition_met states (pr_compound slot))"
| "start_condition_of CompoundWaitCat slot ctx =
     (case tc_sequencers ctx of None \<Rightarrow> False
      | Some states \<Rightarrow> start_condition_met states (pr_compound slot))"
| "start_condition_of TriggeredCat slot ctx =
     triggered_threshold_reached (pr_triggered slot) (pr_triggered_runtime slot)"
| "start_condition_of ChainedCat slot ctx = pr_predecessor_done slot"
| "start_condition_of TimedCat slot ctx = True"
| "start_condition_of Standard slot ctx = True"
| "start_condition_of Cancellation slot ctx = True"

definition start_condition_holds :: "pending_request \<Rightarrow> tick_context \<Rightarrow> bool" where
  "start_condition_holds slot ctx = start_condition_of (pr_category slot) slot ctx"

definition arm_if_startable :: "pending_request \<Rightarrow> tick_context \<Rightarrow> bool \<times> pending_request" where
  "arm_if_startable slot ctx =
     (if pr_armed slot then (True, slot)
      else if \<not> start_condition_holds slot ctx then (False, slot)
      else
        (let slot = slot\<lparr>pr_armed := True\<rparr> in
         (True, if pr_category slot \<noteq> ChainedCat then slot\<lparr>pr_armed_at := tc_now ctx\<rparr> else slot)))"

definition status_matches :: "pending_request \<Rightarrow> tick_context \<Rightarrow> bool" where
  "status_matches slot ctx =
     compound_wait_match (pr_compound_wait_evt slot) (pr_compound_wait_target slot) (tc_current_status ctx)"

fun auxiliary_condition_of :: "request_category \<Rightarrow> pending_request \<Rightarrow> tick_context \<Rightarrow> bool" where
  "auxiliary_condition_of CompoundWaitCat slot ctx = status_matches slot ctx"
| "auxiliary_condition_of CompoundCat slot ctx = tc_endpoint_idle ctx"
| "auxiliary_condition_of TriggeredCat slot ctx = tc_endpoint_idle ctx"
| "auxiliary_condition_of ChainedCat slot ctx = tc_endpoint_idle ctx"
| "auxiliary_condition_of TimedCat slot ctx = tc_gptp_locked ctx"
| "auxiliary_condition_of Standard slot ctx = True"
| "auxiliary_condition_of Cancellation slot ctx = True"

definition auxiliary_condition_met :: "pending_request \<Rightarrow> tick_context \<Rightarrow> bool" where
  "auxiliary_condition_met slot ctx = auxiliary_condition_of (pr_category slot) slot ctx"

fun delay_expired_of :: "request_category \<Rightarrow> pending_request \<Rightarrow> tick_context \<Rightarrow> u32 \<Rightarrow> bool" where
  "delay_expired_of CompoundCat slot ctx elapsed = exec_delay_elapsed (pr_compound slot) elapsed"
| "delay_expired_of CompoundWaitCat slot ctx elapsed = exec_delay_elapsed (pr_compound slot) elapsed"
| "delay_expired_of TriggeredCat slot ctx elapsed = triggered_exec_delay_elapsed (pr_triggered slot) elapsed"
| "delay_expired_of TimedCat slot ctx elapsed = timed_due (pr_presentation_time slot) (tc_gptp_now ctx)"
| "delay_expired_of ChainedCat slot ctx elapsed =
     chained_exec_delay_elapsed (pr_chain_exec_delay slot) elapsed"
| "delay_expired_of Standard slot ctx elapsed = True"
| "delay_expired_of Cancellation slot ctx elapsed = True"

definition delay_expired :: "pending_request \<Rightarrow> tick_context \<Rightarrow> u32 \<Rightarrow> bool" where
  "delay_expired slot ctx elapsed = delay_expired_of (pr_category slot) slot ctx elapsed"

definition is_safety_tagged :: "pending_request \<Rightarrow> bool" where
  "is_safety_tagged slot \<longleftrightarrow>
     (case pr_request_type slot of None \<Rightarrow> False | Some type \<Rightarrow> is_safety_variant type)"

definition is_due :: "bool \<Rightarrow> pending_request \<Rightarrow> tick_context \<Rightarrow> bool \<times> pending_request" where
  "is_due enable slot ctx =
     (if \<not> enable \<and> kind_is_gated_by_ep_enable (pr_category slot) then (False, slot)
      else if is_safety_tagged slot \<and> \<not> tc_in_safe_state ctx then (False, slot)
      else if pr_has_presentation_gate slot \<and>
          \<not> (tc_gptp_locked ctx \<and> timed_due (pr_presentation_gate_ns slot) (tc_gptp_now ctx))
      then (False, slot)
      else
        (case arm_if_startable slot ctx of
           (armed, slot) \<Rightarrow>
             (armed \<and> auxiliary_condition_met slot ctx \<and>
              delay_expired slot ctx (tc_now ctx - pr_armed_at slot), slot)))"

section \<open>Selection and completion\<close>

definition candidate_of :: "pending_request \<Rightarrow> due_candidate" where
  "candidate_of slot = \<lparr>dc_category = pr_category slot, dc_arrival_seq = unat (pr_sequence slot)\<rparr>"

definition select_step ::
    "bool \<Rightarrow> tick_context \<Rightarrow> nat \<Rightarrow> pending_request option list \<times> (nat \<times> due_candidate) option \<Rightarrow>
       pending_request option list \<times> (nat \<times> due_candidate) option" where
  "select_step enable ctx i = (\<lambda>(pending, best).
     (case pending ! i of
        None \<Rightarrow> (pending, best)
      | Some slot \<Rightarrow>
          (case is_due enable slot ctx of
             (due, slot) \<Rightarrow>
               (pending[i := Some slot],
                if \<not> due then best
                else
                  (let candidate = candidate_of slot in
                   case best of
                     None \<Rightarrow> Some (i, candidate)
                   | Some (j, best_candidate) \<Rightarrow>
                       if priority_rank (dc_category candidate) < priority_rank (dc_category best_candidate) \<or>
                          priority_rank (dc_category candidate) = priority_rank (dc_category best_candidate) \<and>
                          dc_arrival_seq candidate < dc_arrival_seq best_candidate
                       then Some (i, candidate) else best)))))"

definition select_due :: "tick_context \<Rightarrow> server_endpoint \<Rightarrow> nat option \<times> server_endpoint" where
  "select_due ctx ep =
     (case fold (select_step (se_enable ep) ctx) [0..<kMaxPending] (se_pending ep, None) of
        (pending, best) \<Rightarrow> (map_option fst best, ep\<lparr>se_pending := pending\<rparr>))"

text \<open>The part of \<open>complete\<close> that follows the \<open>switch\<close>: repetition and re-arming.\<close>

definition repeat_count_of :: "pending_request \<Rightarrow> u16" where
  "repeat_count_of slot =
     (if pr_category slot = TriggeredCat then ts_repeat_count (pr_triggered slot)
      else cs_repeat_count (pr_compound slot))"

definition with_repeat_count :: "u16 \<Rightarrow> pending_request \<Rightarrow> pending_request" where
  "with_repeat_count n slot =
     (if pr_category slot = TriggeredCat
      then slot\<lparr>pr_triggered := (pr_triggered slot)\<lparr>ts_repeat_count := n\<rparr>\<rparr>
      else slot\<lparr>pr_compound := (pr_compound slot)\<lparr>cs_repeat_count := n\<rparr>\<rparr>)"

definition repeat_or_release ::
    "nat \<Rightarrow> pending_request \<Rightarrow> u32 \<Rightarrow> server_endpoint \<Rightarrow> bool \<times> server_endpoint" where
  "repeat_or_release index slot now ep =
     (let n = repeat_count_of slot in
      if n \<noteq> kCompoundRepeatInfinite \<and> n = 0 then (False, release_slot index ep)
      else
        (let slot = (if n = kCompoundRepeatInfinite then slot else with_repeat_count (n - 1) slot);
             slot = slot\<lparr>pr_armed := False, pr_armed_at := now\<rparr>;
             slot = (if pr_category slot = TriggeredCat
               then slot\<lparr>pr_triggered_runtime := triggered_enter_started (pr_triggered_runtime slot)\<rparr>
               else slot)
         in (True, update_slot index (\<lambda>_. slot) ep)))"

text \<open>The sequencer table is the caller's object; the result holds it as it is afterwards.\<close>

definition complete ::
    "nat \<Rightarrow> tick_context \<Rightarrow> server_endpoint \<Rightarrow> bool \<times> sequencers option \<times> server_endpoint" where
  "complete index ctx ep =
     (if kMaxPending \<le> index then (False, tc_sequencers ctx, ep)
      else
        (case se_pending ep ! index of
           None \<Rightarrow> (False, tc_sequencers ctx, ep)
         | Some slot \<Rightarrow>
             (let elapsed = tc_now ctx - pr_armed_at slot;
                  category = pr_category slot
              in
               if category = CompoundCat then
                 (case repeat_or_release index slot (tc_now ctx) ep of
                    (stays, ep) \<Rightarrow>
                      (stays, map_option (\<lambda>states. snd (tick states (pr_compound slot) elapsed))
                        (tc_sequencers ctx), ep))
               else if category = CompoundWaitCat then
                 (case repeat_or_release index slot (tc_now ctx) ep of
                    (stays, ep) \<Rightarrow>
                      (stays, map_option (\<lambda>states. snd (wait_tick states (pr_compound slot)
                          (status_matches slot ctx))) (tc_sequencers ctx), ep))
               else if category = TriggeredCat then
                 (case repeat_or_release index
                     (slot\<lparr>pr_triggered_runtime := snd (triggered_tick (pr_triggered slot)
                         (pr_triggered_runtime slot) elapsed True)\<rparr>) (tc_now ctx) ep of
                    (stays, ep) \<Rightarrow> (stays, tc_sequencers ctx, ep))
               else (False, tc_sequencers ctx, release_slot index ep))))"

section \<open>Triggers and chains\<close>

definition notify_step ::
    "u8 \<Rightarrow> u8 \<Rightarrow> nat \<Rightarrow> nat \<times> server_endpoint \<Rightarrow> nat \<times> server_endpoint" where
  "notify_step source_ep signal_nr i = (\<lambda>(matched, ep).
     (case se_pending ep ! i of
        None \<Rightarrow> (matched, ep)
      | Some slot \<Rightarrow>
          if pr_category slot \<noteq> TriggeredCat then (matched, ep)
          else
            (case triggered_record_occurrence (pr_triggered_runtime slot) (pr_triggered slot)
                source_ep signal_nr of
               (counted, rt) \<Rightarrow>
                 (if counted then matched + 1 else matched,
                  update_slot i (\<lambda>slot. slot\<lparr>pr_triggered_runtime := rt\<rparr>) ep))))"

definition notify_trigger :: "u8 \<Rightarrow> u8 \<Rightarrow> server_endpoint \<Rightarrow> nat \<times> server_endpoint" where
  "notify_trigger source_ep signal_nr ep =
     fold (notify_step source_ep signal_nr) [0..<kMaxPending] (0, ep)"

definition pending :: "nat \<Rightarrow> server_endpoint \<Rightarrow> pending_request option" where
  "pending index ep = (if kMaxPending \<le> index then None else se_pending ep ! index)"

definition chain_predecessor_done :: "nat \<Rightarrow> u32 \<Rightarrow> server_endpoint \<Rightarrow> bool \<times> server_endpoint" where
  "chain_predecessor_done index now ep =
     (case pending index ep of
        None \<Rightarrow> (False, ep)
      | Some slot \<Rightarrow>
          if pr_category slot \<noteq> ChainedCat then (False, ep)
          else (True, update_slot index
            (\<lambda>slot. slot\<lparr>pr_predecessor_done := True, pr_armed_at := now\<rparr>) ep))"

section \<open>Cancellation\<close>

datatype cancel_lifecycle = Cl_queued | Cl_executing | Cl_done

datatype cancel_result = Cr_canceled | Cr_not_found | Cr_not_cancellable

definition cancel_is_cancellable :: "cancel_lifecycle \<Rightarrow> bool" where
  "cancel_is_cancellable state \<longleftrightarrow> state = Cl_queued"

definition cancel_attempt :: "bool \<Rightarrow> cancel_lifecycle \<Rightarrow> cancel_result" where
  "cancel_attempt found state =
     (if \<not> found then Cr_not_found
      else if \<not> cancel_is_cancellable state then Cr_not_cancellable
      else Cr_canceled)"

definition cancel_chain_should_cascade :: "u8 \<Rightarrow> u8 \<Rightarrow> bool" where
  "cancel_chain_should_cascade member_position canceled_position \<longleftrightarrow> canceled_position \<le> member_position"

text \<open>The loop of the three bulk cancellations, over the slots that satisfy \<open>P\<close>.\<close>

definition release_step ::
    "(pending_request \<Rightarrow> bool) \<Rightarrow> nat \<Rightarrow> nat \<times> server_endpoint \<Rightarrow> nat \<times> server_endpoint" where
  "release_step P i = (\<lambda>(removed, ep).
     (case se_pending ep ! i of
        None \<Rightarrow> (removed, ep)
      | Some slot \<Rightarrow> if P slot then (removed + 1, release_slot i ep) else (removed, ep)))"

definition release_where :: "(pending_request \<Rightarrow> bool) \<Rightarrow> server_endpoint \<Rightarrow> nat \<times> server_endpoint" where
  "release_where P ep = fold (release_step P) [0..<kMaxPending] (0, ep)"

definition cancel_all_pending :: "server_endpoint \<Rightarrow> nat \<times> server_endpoint" where
  "cancel_all_pending = release_where (\<lambda>_. True)"

definition purge_non_safety :: "server_endpoint \<Rightarrow> nat \<times> server_endpoint" where
  "purge_non_safety = release_where (\<lambda>slot. \<not> is_safety_tagged slot)"

definition cancel_non_safestate :: "server_endpoint \<Rightarrow> nat \<times> server_endpoint" where
  "cancel_non_safestate = purge_non_safety"

definition watchdog_purge :: "server_endpoint \<Rightarrow> nat \<times> server_endpoint" where
  "watchdog_purge = purge_non_safety"

definition cancel_chain_from :: "u32 \<Rightarrow> u8 \<Rightarrow> server_endpoint \<Rightarrow> nat \<times> server_endpoint" where
  "cancel_chain_from chain_group min_position ep =
     (if chain_group = 0 then (0, ep)
      else release_where (\<lambda>slot. pr_chain_group slot = chain_group \<and>
        cancel_chain_should_cascade (pr_chain_position slot) min_position) ep)"

definition cancel_single_pending ::
    "u8 \<Rightarrow> cancel_lifecycle \<Rightarrow> server_endpoint \<Rightarrow> cancel_result \<times> server_endpoint" where
  "cancel_single_pending clear_transaction_num state ep =
     (let idx = find (\<lambda>i. case se_pending ep ! i of None \<Rightarrow> False
              | Some slot \<Rightarrow> pr_transaction_num slot = clear_transaction_num) [0..<kMaxPending];
          result = cancel_attempt (idx \<noteq> None) state
      in (result, if result = Cr_canceled then release_slot (the idx) ep else ep))"

end
