(* ===== verification/Server_Store.thy ===== *)
theory Server_Store
  imports Server
begin

text \<open>
  The store of requests of a server endpoint as an invariant: the loops over its slots in closed
  form, what a consistent store is, that every call keeps it consistent, and where the arrival
  numbers of the stored requests come from.
\<close>

section \<open>Walks over the slots\<close>

text \<open>
  Every loop over the slots changes slot \<open>i\<close> in round \<open>i\<close> alone, with an accumulator \<open>a\<close>
  beside the slots; \<open>emb\<close> says how the two sit in the loop's state.
\<close>

lemma fold_slots:
  assumes "\<And>i a xs. i < length xs \<Longrightarrow> step i (emb a xs) = emb (g i (xs ! i) a) (xs[i := f (xs ! i)])"
  shows "n \<le> length xs \<Longrightarrow>
    fold step [0..<n] (emb a xs) = emb (fold (\<lambda>i. g i (xs ! i)) [0..<n] a) (map f (take n xs) @ drop n xs)"
proof (induction n)
  case (Suc n)
  have "(map f (take n xs) @ drop n xs)[n := f (xs ! n)] = map f (take (Suc n) xs) @ drop (Suc n) xs"
    using Suc.prems by (simp add: take_Suc_conv_app_nth list_update_append Cons_nth_drop_Suc [symmetric])
  moreover have "(map f (take n xs) @ drop n xs) ! n = xs ! n"
    using Suc.prems by (simp add: nth_append)
  ultimately show ?case using Suc assms [of n "map f (take n xs) @ drop n xs"] by simp
qed simp

lemma slot_same: "xs ! i = x \<Longrightarrow> xs[i := x] = xs"
  by auto

lemma fold_indices: "fold (\<lambda>i. g (xs ! i)) [0..<length xs] a = fold g xs a"
  by (metis fold_map map_nth comp_def fold_cong)

definition used :: "pending_request option list \<Rightarrow> pending_request list" where
  "used xs = List.map_filter (\<lambda>x. x) xs"

lemma used_simps [simp]:
  "used [] = []" "used (None # xs) = used xs" "used (Some s # xs) = s # used xs"
  "used (xs @ ys) = used xs @ used ys"
  by (simp_all add: used_def map_filter_def)

lemma set_used [simp]: "s \<in> set (used xs) \<longleftrightarrow> Some s \<in> set xs"
  by (induction xs rule: rev_induct) (auto simp: used_def map_filter_def)

lemma used_update:
  "i < length xs \<Longrightarrow> used (xs[i := x]) = used (take i xs) @ used [x] @ used (drop (Suc i) xs)"
  by (simp add: upd_conv_take_nth_drop flip: used_simps(4))

lemma used_split:
  "i < length xs \<Longrightarrow> used xs = used (take i xs) @ used [xs ! i] @ used (drop (Suc i) xs)"
  using used_update [of i xs "xs ! i"] by simp

lemma used_replicate [simp]: "used (replicate n None) = []"
  by (induction n) simp_all

section \<open>The loops in closed form\<close>

definition drop_slot :: "(pending_request \<Rightarrow> bool) \<Rightarrow> pending_request option \<Rightarrow> pending_request option" where
  "drop_slot P x = (case x of None \<Rightarrow> None | Some s \<Rightarrow> if P s then None else Some s)"

lemma drop_slot_simps [simp]: "drop_slot P None = None" "drop_slot P (Some s) = (if P s then None else Some s)"
  by (simp_all add: drop_slot_def)

lemma used_drop_slot: "used (map (drop_slot P) xs) = filter (\<lambda>s. \<not> P s) (used xs)"
  by (induction xs rule: rev_induct) (auto simp: drop_slot_def split: option.splits)

lemma release_where_eq:
  assumes "length (se_pending ep) = kMaxPending"
  shows "release_where P ep =
    (let k = length (filter P (used (se_pending ep))) in
     (k, ep\<lparr>se_pending := map (drop_slot P) (se_pending ep), se_pending_count := se_pending_count ep - k\<rparr>))"
proof -
  define emb where "emb a xs = (a, ep\<lparr>se_pending := xs, se_pending_count := se_pending_count ep - a\<rparr>)"
    for a :: nat and xs
  define g where "g x a = (case x of None \<Rightarrow> a | Some s \<Rightarrow> if P s then Suc a else a)" for x :: "pending_request option" and a
  have "fold (release_step P) [0..<kMaxPending] (emb 0 (se_pending ep)) =
      emb (fold (\<lambda>i. g (se_pending ep ! i)) [0..<kMaxPending] 0)
        (map (drop_slot P) (take kMaxPending (se_pending ep)) @ drop kMaxPending (se_pending ep))"
    by (rule fold_slots)
      (use assms in \<open>auto simp: release_step_def emb_def g_def release_slot_def drop_slot_def slot_same
        split: option.splits\<close>)
  moreover have "fold g xs a = a + length (filter P (used xs))" for xs a
    by (induction xs arbitrary: a) (auto simp: g_def split: option.splits)
  ultimately show ?thesis
    using assms fold_indices [of g "se_pending ep" 0] by (simp add: release_where_def emb_def Let_def)
qed

definition due_now :: "server_endpoint \<Rightarrow> tick_context \<Rightarrow> pending_request option \<Rightarrow> bool" where
  "due_now ep ctx x = (case x of None \<Rightarrow> False | Some s \<Rightarrow> fst (is_due (se_enable ep) s ctx))"

definition armed_slot :: "server_endpoint \<Rightarrow> tick_context \<Rightarrow> pending_request option \<Rightarrow> pending_request option" where
  "armed_slot ep ctx = map_option (\<lambda>s. snd (is_due (se_enable ep) s ctx))"

definition due_indices :: "server_endpoint \<Rightarrow> tick_context \<Rightarrow> nat list" where
  "due_indices ep ctx = filter (\<lambda>i. due_now ep ctx (se_pending ep ! i)) [0..<kMaxPending]"

definition due_candidates :: "server_endpoint \<Rightarrow> tick_context \<Rightarrow> due_candidate list" where
  "due_candidates ep ctx = map (\<lambda>i. candidate_of (the (se_pending ep ! i))) (due_indices ep ctx)"

lemma arm_keeps [simp]:
  "candidate_of (snd (is_due enable s ctx)) = candidate_of s"
  "pr_category (snd (is_due enable s ctx)) = pr_category s"
  "pr_request_type (snd (is_due enable s ctx)) = pr_request_type s"
  "pr_sequence (snd (is_due enable s ctx)) = pr_sequence s"
  "pr_transaction_num (snd (is_due enable s ctx)) = pr_transaction_num s"
  "pr_frame (snd (is_due enable s ctx)) = pr_frame s"
  "pr_triggered_runtime (snd (is_due enable s ctx)) = pr_triggered_runtime s"
  "pr_has_presentation_gate (snd (is_due enable s ctx)) = pr_has_presentation_gate s"
  by (simp_all add: is_due_def arm_if_startable_def candidate_of_def Let_def)

definition keep_best ::
    "due_candidate \<Rightarrow> nat \<Rightarrow> (nat \<times> due_candidate) option \<Rightarrow> (nat \<times> due_candidate) option" where
  "keep_best c i best =
     (case best of None \<Rightarrow> Some (i, c) | Some (j, d) \<Rightarrow> if key_less c d then Some (i, c) else Some (j, d))"

lemma fold_filter: "fold (\<lambda>i b. if D i then h i b else b) is b = fold h (filter D is) b"
  by (induction "is" arbitrary: b) auto

lemma keep_best_fold:
  "n < length is \<Longrightarrow>
     fold (\<lambda>i. keep_best (c i) i) (take (Suc n) is) None =
       Some (is ! best_upto (map c is) n, map c is ! best_upto (map c is) n)"
proof (induction n)
  case 0
  then show ?case by (cases "is") (simp_all add: keep_best_def best_upto_simps)
next
  case (Suc n)
  then show ?case
    using best_upto_spec [of "map c is" n]
    by (simp add: take_Suc_conv_app_nth [of "Suc n"] keep_best_def best_upto_simps)
qed

lemma select_step_eq:
  "select_step enable ctx i (xs, b) =
     (case xs ! i of
        None \<Rightarrow> (xs, b)
      | Some s \<Rightarrow> (xs[i := Some (snd (is_due enable s ctx))],
          if fst (is_due enable s ctx) then keep_best (candidate_of s) i b else b))"
  using arm_keeps(1) [of enable "the (xs ! i)" ctx]
  by (auto simp: select_step_def keep_best_def key_less_def less_request_category_def Let_def
      case_prod_unfold split: option.splits)

lemma select_due_eq:
  assumes "length (se_pending ep) = kMaxPending"
  shows "select_due ctx ep =
    (map_option (\<lambda>k. due_indices ep ctx ! k) (select_next_due (due_candidates ep ctx)),
     ep\<lparr>se_pending := map (armed_slot ep ctx) (se_pending ep)\<rparr>)"
proof -
  define c where "c i = candidate_of (the (se_pending ep ! i))" for i
  define D where "D i = due_now ep ctx (se_pending ep ! i)" for i
  define g where "g i x b = (if due_now ep ctx x then keep_best (candidate_of (the x)) i b else b)" for i x b
  have "fold (select_step (se_enable ep) ctx) [0..<kMaxPending] ((\<lambda>b xs. (xs, b)) None (se_pending ep)) =
      (\<lambda>b xs. (xs, b)) (fold (\<lambda>i. g i (se_pending ep ! i)) [0..<kMaxPending] None)
        (map (armed_slot ep ctx) (take kMaxPending (se_pending ep)) @ drop kMaxPending (se_pending ep))"
    by (rule fold_slots)
      (use assms in \<open>auto simp: select_step_eq g_def due_now_def armed_slot_def slot_same split: option.splits\<close>)
  moreover have "fold (\<lambda>i. g i (se_pending ep ! i)) [0..<kMaxPending] None =
      fold (\<lambda>i. keep_best (c i) i) (due_indices ep ctx) None"
    unfolding g_def c_def due_indices_def by (rule fold_filter)
  moreover have "map_option fst (fold (\<lambda>i. keep_best (c i) i) (due_indices ep ctx) None) =
      map_option (\<lambda>k. due_indices ep ctx ! k) (select_next_due (due_candidates ep ctx))"
  proof (cases "due_indices ep ctx")
    case (Cons i js)
    have "due_candidates ep ctx = map c (due_indices ep ctx)"
      unfolding due_candidates_def c_def by simp
    moreover have "select_next_due (map c (i # js)) = Some (best_upto (map c (i # js)) (length js))"
      by (simp add: select_next_due_def best_upto_def)
    ultimately show ?thesis
      using keep_best_fold [of "length js" "i # js" c] Cons by simp
  qed (simp add: select_next_due_def due_candidates_def)
  ultimately show ?thesis using assms by (simp add: select_due_def)
qed

section \<open>The store's invariant\<close>

text \<open>
  A stored request is what its category says: the category is that of its opcode, the two kinds
  without a condition of their own are there because of a presentation gate, and a triggered
  request is counting. A store is consistent when its size and counters are right.
\<close>

definition wf_slot :: "pending_request \<Rightarrow> bool" where
  "wf_slot s \<longleftrightarrow>
     pr_category s = category_of (pr_request_type s) \<and>
     (pr_category s \<in> {Standard, Cancellation} \<longrightarrow> pr_has_presentation_gate s) \<and>
     (pr_category s = TriggeredCat \<longrightarrow> rt_started (pr_triggered_runtime s))"

definition wf_endpoint :: "server_endpoint \<Rightarrow> bool" where
  "wf_endpoint ep \<longleftrightarrow>
     length (se_pending ep) = kMaxPending \<and>
     se_pending_count ep = length (used (se_pending ep)) \<and>
     length (se_queue ep) \<le> kMaxQueuedFrames \<and>
     (\<forall>s. Some s \<in> set (se_pending ep) \<longrightarrow> wf_slot s)"

lemma wf_new [simp]: "wf_endpoint (new_endpoint enable)"
  by (simp add: wf_endpoint_def new_endpoint_def)

lemma set_update_slot: "x \<in> set (xs[i := y]) \<Longrightarrow> x = y \<or> x \<in> set xs"
  using set_update_subset_insert [of xs i y] by auto

text \<open>Filling a free slot, changing or emptying a used one.\<close>

lemma wf_fill:
  assumes "wf_endpoint ep" "i < kMaxPending" "se_pending ep ! i = None" "wf_slot s"
  shows "wf_endpoint (ep\<lparr>se_pending := (se_pending ep)[i := Some s], se_next_sequence := n,
      se_pending_count := se_pending_count ep + 1\<rparr>)"
  using assms used_split [of i "se_pending ep"]
  by (auto simp: wf_endpoint_def used_update dest!: set_update_slot)

lemma wf_change:
  assumes "wf_endpoint ep" "i < kMaxPending" "se_pending ep ! i = Some s" "wf_slot s'"
  shows "wf_endpoint (ep\<lparr>se_pending := (se_pending ep)[i := Some s']\<rparr>)"
  using assms used_split [of i "se_pending ep"]
  by (auto simp: wf_endpoint_def used_update dest!: set_update_slot)

lemma wf_release:
  assumes "wf_endpoint ep" "i < kMaxPending" "se_pending ep ! i = Some s"
  shows "wf_endpoint (release_slot i ep)"
  using assms used_split [of i "se_pending ep"]
  by (auto simp: wf_endpoint_def used_update release_slot_def dest!: set_update_slot)

lemma used_drop_slot_set: "Some s \<in> set (map (drop_slot P) xs) \<longleftrightarrow> Some s \<in> set xs \<and> \<not> P s"
  by (force simp: drop_slot_def split: option.splits if_splits)

lemma wf_release_where:
  assumes "wf_endpoint ep"
  shows "wf_endpoint (snd (release_where P ep))"
proof -
  have "length (used (se_pending ep)) - length (filter P (used (se_pending ep))) =
      length (filter (\<lambda>s. \<not> P s) (used (se_pending ep)))"
    using sum_length_filter_compl [of P "used (se_pending ep)"] by linarith
  then show ?thesis
    using assms
    by (simp add: wf_endpoint_def release_where_eq Let_def used_drop_slot used_drop_slot_set del: set_map)
qed

lemma wf_map_slots:
  assumes "wf_endpoint ep" "\<And>s. wf_slot s \<Longrightarrow> wf_slot (f s)"
  shows "wf_endpoint (ep\<lparr>se_pending := map (map_option f) (se_pending ep)\<rparr>)"
proof -
  have "length (used (map (map_option f) xs)) = length (used xs)" for xs
    by (induction xs rule: rev_induct) (auto simp: option.map_sel split: option.splits; case_tac x; simp)+
  moreover have "Some s \<in> set (map (map_option f) xs) \<Longrightarrow> \<exists>s0. Some s0 \<in> set xs \<and> s = f s0" for s xs
    by (auto simp: image_iff) (metis map_option_eq_Some)
  ultimately show ?thesis using assms unfolding wf_endpoint_def by (fastforce simp del: set_map)
qed

lemma claim_slot_Some:
  assumes "claim_slot ep = Some (i, ep')"
  shows "i < kMaxPending \<and> se_pending ep ! i = None \<and> (\<forall>j < i. se_pending ep ! j \<noteq> None) \<and>
    ep' = ep\<lparr>se_pending := (se_pending ep)[i := Some (pending_default\<lparr>pr_sequence := se_next_sequence ep\<rparr>)],
             se_next_sequence := se_next_sequence ep + 1, se_pending_count := se_pending_count ep + 1\<rparr>"
  using assms by (fastforce simp: claim_slot_def find_Some_iff split: option.splits)

lemma claim_slot_None:
  "claim_slot ep = None \<longleftrightarrow> (\<forall>i < kMaxPending. se_pending ep ! i \<noteq> None)"
proof -
  have "claim_slot ep = None \<longleftrightarrow> find (\<lambda>i. se_pending ep ! i = None) [0..<kMaxPending] = None"
    unfolding claim_slot_def by (cases "find (\<lambda>i. se_pending ep ! i = None) [0..<kMaxPending]") simp_all
  then show ?thesis by (simp add: find_None_iff)
qed

lemma decode_kind_wf:
  assumes "decode_kind (pr_category s) frame s = Inr s'" "pr_category s = category_of (pr_request_type s)"
  shows "wf_slot (s'\<lparr>pr_has_presentation_gate := g, pr_presentation_gate_ns := ns, pr_armed_at := at,
      pr_frame := frame\<rparr>)"
  using assms
  by (auto simp: decode_kind_def wf_slot_def triggered_enter_started_def split: if_splits sum.splits)

lemma wf_stored:
  assumes "wf_endpoint ep" "claim_slot ep = Some (i, ep')" "wf_slot s"
  shows "wf_endpoint (update_slot i (\<lambda>_. s) ep')"
proof -
  note c = claim_slot_Some [OF assms(2)]
  have "update_slot i (\<lambda>_. s) ep' = ep\<lparr>se_pending := (se_pending ep)[i := Some s],
      se_next_sequence := se_next_sequence ep + 1, se_pending_count := se_pending_count ep + 1\<rparr>"
    using c assms(1) by (simp add: update_slot_def wf_endpoint_def)
  then show ?thesis using wf_fill [OF assms(1) _ _ assms(3)] c by simp
qed

section \<open>Calls\<close>

text \<open>
  The calls of an endpoint's owner. \<open>Set_chain\<close> is the owner's assignment of a member's place in
  its chain through \<open>pending()\<close>.
\<close>

datatype endpoint_call =
    Set_enable bool
  | Set_suspended bool
  | Submit octets
  | Admit octets u32 bool u32 u64
  | Drain
  | Select tick_context
  | Complete nat tick_context
  | Notify u8 u8
  | Predecessor_done nat u32
  | Set_chain nat u32 u8
  | Cancel_all_pending
  | Cancel_unsafe
  | Purge
  | Cancel_chain u32 u8
  | Cancel_one u8 cancel_lifecycle

definition set_chain :: "nat \<Rightarrow> u32 \<Rightarrow> u8 \<Rightarrow> server_endpoint \<Rightarrow> server_endpoint" where
  "set_chain index grp position ep =
     (case pending index ep of
        None \<Rightarrow> ep
      | Some _ \<Rightarrow> update_slot index
          (\<lambda>s. s\<lparr>pr_chain_group := grp, pr_chain_position := position\<rparr>) ep)"

fun endpoint_do :: "endpoint_call \<Rightarrow> server_endpoint \<Rightarrow> server_endpoint" where
  "endpoint_do (Set_enable e) ep = set_enable e ep"
| "endpoint_do (Set_suspended s) ep = set_admission_suspended s ep"
| "endpoint_do (Submit frame) ep = snd (snd (submit frame ep))"
| "endpoint_do (Admit frame now tv ts ref) ep = snd (admit_with_ack frame now tv ts ref ep)"
| "endpoint_do Drain ep = snd (drain_one ep)"
| "endpoint_do (Select ctx) ep = snd (select_due ctx ep)"
| "endpoint_do (Complete i ctx) ep = snd (snd (complete i ctx ep))"
| "endpoint_do (Notify source_ep nr) ep = snd (notify_trigger source_ep nr ep)"
| "endpoint_do (Predecessor_done i now) ep = snd (chain_predecessor_done i now ep)"
| "endpoint_do (Set_chain i grp position) ep = set_chain i grp position ep"
| "endpoint_do Cancel_all_pending ep = snd (cancel_all_pending ep)"
| "endpoint_do Cancel_unsafe ep = snd (cancel_non_safestate ep)"
| "endpoint_do Purge ep = snd (watchdog_purge ep)"
| "endpoint_do (Cancel_chain grp position) ep = snd (cancel_chain_from grp position ep)"
| "endpoint_do (Cancel_one txn state) ep = snd (cancel_single_pending txn state ep)"

lemma wf_submit: "wf_endpoint ep \<Longrightarrow> wf_endpoint (snd (snd (submit frame ep)))"
  by (simp add: submit_def wf_endpoint_def)

lemma wf_gate: "wf_endpoint ep \<Longrightarrow> category = category_of type \<Longrightarrow> category \<in> {Standard, Cancellation} \<Longrightarrow>
   wf_endpoint (snd (admit_under_tscf_gate frame now ns category type ep))"
proof -
  assume a: "wf_endpoint ep" "category = category_of type" "category \<in> {Standard, Cancellation}"
  show ?thesis
  proof (cases "claim_slot ep")
    case (Some r)
    obtain i ep' where r: "r = (i, ep')" by force
    let ?f = "\<lambda>slot. slot\<lparr>pr_category := category, pr_request_type := type,
               pr_has_presentation_gate := True, pr_presentation_gate_ns := ns,
               pr_armed_at := now, pr_frame := frame\<rparr>"
    have "update_slot i ?f ep' = update_slot i (\<lambda>_. ?f (the (se_pending ep' ! i))) ep'"
      using claim_slot_Some [OF Some [unfolded r]] a(1) by (simp add: update_slot_def wf_endpoint_def)
    moreover have "wf_slot (?f s)" for s using a(2,3) by (auto simp: wf_slot_def)
    ultimately show ?thesis
      using Some r wf_stored [OF a(1) Some [unfolded r]] by (simp add: admit_under_tscf_gate_def)
  qed (simp add: admit_under_tscf_gate_def a)
qed

lemma wf_admit: "wf_endpoint ep \<Longrightarrow> wf_endpoint (snd (admit_with_ack frame now tv ts ref ep))"
proof -
  assume a: "wf_endpoint ep"
  let ?cat = "category_of (peek_request_type frame)"
  have gate: "wf_endpoint (snd (admit_under_tscf_gate frame now ns Standard None ep))"
    "?cat = Cancellation \<Longrightarrow>
       wf_endpoint (snd (admit_under_tscf_gate frame now ns Cancellation (peek_request_type frame) ep))" for ns
    using wf_gate [OF a, of Standard None] wf_gate [OF a, of Cancellation "peek_request_type frame"] by simp_all
  show ?thesis
  proof (cases "claim_slot ep")
    case None
    then show ?thesis
      using a gate wf_submit [OF a, of frame]
      by (auto simp: admit_with_ack_def Let_def split: prod.splits)
  next
    case (Some r)
    obtain i ep' where r: "r = (i, ep')" by force
    note c = claim_slot_Some [OF Some [unfolded r]]
    let ?s = "(the (se_pending ep' ! i))\<lparr>pr_category := ?cat, pr_request_type := peek_request_type frame\<rparr>"
    have rel: "wf_endpoint (release_slot i ep')"
    proof -
      have "release_slot i ep' = ep\<lparr>se_next_sequence := se_next_sequence ep + 1\<rparr>"
        using c a by (simp add: release_slot_def wf_endpoint_def slot_same)
      then show ?thesis using a by (simp add: wf_endpoint_def)
    qed
    have fill: "wf_endpoint (update_slot i (\<lambda>_. s\<lparr>pr_has_presentation_gate := g, pr_presentation_gate_ns := ns,
          pr_armed_at := now, pr_frame := frame\<rparr>) ep')"
      if "decode_kind ?cat frame ?s = Inr s" for s g ns
      using wf_stored [OF a Some [unfolded r]] decode_kind_wf [of ?s] that by simp
    show ?thesis
      using a r Some gate wf_submit [OF a, of frame] rel fill
      by (auto simp: admit_with_ack_def Let_def split: prod.splits sum.splits)
  qed
qed

lemma notify_trigger_eq:
  assumes "length (se_pending ep) = kMaxPending"
  shows "notify_trigger source_ep nr ep =
    (length (filter (\<lambda>s. pr_category s = TriggeredCat \<and>
         fst (triggered_record_occurrence (pr_triggered_runtime s) (pr_triggered s) source_ep nr))
       (used (se_pending ep))),
     ep\<lparr>se_pending := map (map_option (\<lambda>s. if pr_category s = TriggeredCat
         then s\<lparr>pr_triggered_runtime :=
           snd (triggered_record_occurrence (pr_triggered_runtime s) (pr_triggered s) source_ep nr)\<rparr>
         else s)) (se_pending ep)\<rparr>)"
    (is "_ = (length (filter ?P _), ep\<lparr>se_pending := map (map_option ?f) _\<rparr>)")
proof -
  define emb where "emb a xs = (a, ep\<lparr>se_pending := xs\<rparr>)" for a :: nat and xs
  define g where "g x a = (case x of None \<Rightarrow> a | Some s \<Rightarrow> if ?P s then Suc a else a)" for x :: "pending_request option" and a
  have "fold (notify_step source_ep nr) [0..<kMaxPending] (emb 0 (se_pending ep)) =
      emb (fold (\<lambda>i. g (se_pending ep ! i)) [0..<kMaxPending] 0)
        (map (map_option ?f) (take kMaxPending (se_pending ep)) @ drop kMaxPending (se_pending ep))"
    by (rule fold_slots)
      (use assms in \<open>auto simp: notify_step_def emb_def g_def update_slot_def slot_same split: option.splits prod.splits\<close>)
  moreover have "fold g xs a = a + length (filter ?P (used xs))" for xs a
    by (induction xs arbitrary: a) (auto simp: g_def split: option.splits)
  ultimately show ?thesis
    using assms fold_indices [of g "se_pending ep" 0] by (simp add: notify_trigger_def emb_def)
qed

lemma wf_repeat:
  assumes "wf_endpoint ep" "i < kMaxPending" "se_pending ep ! i = Some s0"
    "pr_category s = category_of (pr_request_type s)"
    "pr_category s \<in> {Standard, Cancellation} \<longrightarrow> pr_has_presentation_gate s"
  shows "wf_endpoint (snd (repeat_or_release i s now ep))"
  using wf_release [OF assms(1,2,3)] wf_change [OF assms(1,2,3)] assms(2-5)
  by (auto simp: repeat_or_release_def Let_def update_slot_def with_repeat_count_def wf_slot_def
      triggered_enter_started_def)

text \<open>\<open>complete\<close> on a slot in use, by category.\<close>

lemma complete_used:
  assumes "i < kMaxPending" "se_pending ep ! i = Some s"
  shows "complete i ctx ep =
    (if pr_category s = CompoundCat then
       (fst (repeat_or_release i s (tc_now ctx) ep),
        map_option (\<lambda>states. snd (tick states (pr_compound s) (tc_now ctx - pr_armed_at s))) (tc_sequencers ctx),
        snd (repeat_or_release i s (tc_now ctx) ep))
     else if pr_category s = CompoundWaitCat then
       (fst (repeat_or_release i s (tc_now ctx) ep),
        map_option (\<lambda>states. snd (wait_tick states (pr_compound s) (status_matches s ctx))) (tc_sequencers ctx),
        snd (repeat_or_release i s (tc_now ctx) ep))
     else if pr_category s = TriggeredCat then
       (let s = s\<lparr>pr_triggered_runtime := snd (triggered_tick (pr_triggered s) (pr_triggered_runtime s)
              (tc_now ctx - pr_armed_at s) True)\<rparr> in
        (fst (repeat_or_release i s (tc_now ctx) ep), tc_sequencers ctx,
         snd (repeat_or_release i s (tc_now ctx) ep)))
     else (False, tc_sequencers ctx, release_slot i ep))"
  using assms by (simp add: complete_def Let_def case_prod_unfold not_le)

lemma complete_unused:
  "kMaxPending \<le> i \<or> se_pending ep ! i = None \<Longrightarrow> complete i ctx ep = (False, tc_sequencers ctx, ep)"
  by (auto simp: complete_def)

lemma used_slot_wf: "wf_endpoint ep \<Longrightarrow> i < kMaxPending \<Longrightarrow> se_pending ep ! i = Some s \<Longrightarrow> wf_slot s"
  by (metis nth_mem wf_endpoint_def)

lemma wf_complete: "wf_endpoint ep \<Longrightarrow> wf_endpoint (snd (snd (complete i ctx ep)))"
proof -
  assume a: "wf_endpoint ep"
  show ?thesis
  proof (cases "i < kMaxPending \<and> se_pending ep ! i \<noteq> None")
    case True
    then obtain s where s: "i < kMaxPending" "se_pending ep ! i = Some s" by auto
    then show ?thesis
      using used_slot_wf [OF a s] wf_repeat [OF a s] wf_release [OF a s]
      by (simp add: complete_used [OF s] Let_def wf_slot_def)
  qed (use a complete_unused [of i ep ctx] in \<open>auto simp: not_less\<close>)
qed

lemma first_match:
  assumes "find (\<lambda>i. case xs ! i of None \<Rightarrow> False | Some s \<Rightarrow> Q s) [0..<n] = Some i"
  shows "i < n \<and> (\<exists>s. xs ! i = Some s \<and> Q s) \<and> (\<forall>j < i. \<forall>s. xs ! j = Some s \<longrightarrow> \<not> Q s)"
  using assms by (auto simp: find_Some_iff split: option.splits)

lemma wf_do: "wf_endpoint ep \<Longrightarrow> wf_endpoint (endpoint_do call ep)"
proof (cases call)
  case (Select ctx)
  assume a: "wf_endpoint ep"
  have "wf_slot s \<Longrightarrow> wf_slot (snd (is_due (se_enable ep) s ctx))" for s by (simp add: wf_slot_def)
  then show ?thesis
    using wf_map_slots [OF a] a Select by (simp add: select_due_eq wf_endpoint_def [of ep] armed_slot_def)
next
  case (Notify source_ep nr)
  assume a: "wf_endpoint ep"
  have "wf_slot s \<Longrightarrow> wf_slot (if pr_category s = TriggeredCat
         then s\<lparr>pr_triggered_runtime :=
           snd (triggered_record_occurrence (pr_triggered_runtime s) (pr_triggered s) source_ep nr)\<rparr>
         else s)" for s
    by (auto simp: wf_slot_def triggered_record_occurrence_def)
  then show ?thesis
    using wf_map_slots [OF a] a Notify by (simp add: notify_trigger_eq wf_endpoint_def [of ep])
next
  case (Predecessor_done i now)
  assume a: "wf_endpoint ep"
  have "wf_slot s \<Longrightarrow> wf_slot (s\<lparr>pr_predecessor_done := True, pr_armed_at := now\<rparr>)" for s
    by (simp add: wf_slot_def)
  then show ?thesis
    using wf_change [OF a] used_slot_wf [OF a] a Predecessor_done
    by (auto simp: chain_predecessor_done_def pending_def update_slot_def not_le split: option.splits if_splits)
next
  case (Set_chain i grp position)
  assume a: "wf_endpoint ep"
  have "wf_slot s \<Longrightarrow> wf_slot (s\<lparr>pr_chain_group := grp, pr_chain_position := position\<rparr>)" for s
    by (simp add: wf_slot_def)
  then show ?thesis
    using wf_change [OF a] used_slot_wf [OF a] a Set_chain
    by (auto simp: set_chain_def pending_def update_slot_def not_le split: option.splits if_splits)
next
  case (Cancel_one txn state)
  assume a: "wf_endpoint ep"
  let ?idx = "find (\<lambda>i. case se_pending ep ! i of None \<Rightarrow> False | Some s \<Rightarrow> pr_transaction_num s = txn) [0..<kMaxPending]"
  from a show ?thesis
  proof (cases ?idx)
    case (Some i)
    then show ?thesis
      using first_match [OF Some] wf_release [OF a, of i] a Cancel_one
      by (auto simp: cancel_single_pending_def Let_def)
  qed (simp add: Cancel_one cancel_single_pending_def Let_def cancel_attempt_def)
next
  case (Drain)
  assume "wf_endpoint ep"
  then show ?thesis using Drain by (auto simp: drain_one_def wf_endpoint_def)
qed (simp_all add: wf_submit wf_admit wf_complete wf_release_where cancel_all_pending_def
    cancel_non_safestate_def watchdog_purge_def purge_non_safety_def cancel_chain_from_def,
  simp_all add: wf_endpoint_def set_enable_def set_admission_suspended_def)

text \<open>
  Where the requests in the store come from: a call keeps requests or admits one, which gets
  the next sequence number.
\<close>

definition seq_at :: "server_endpoint \<Rightarrow> nat \<Rightarrow> u64 option" where
  "seq_at ep i = map_option pr_sequence (se_pending ep ! i)"

definition keeps :: "server_endpoint \<Rightarrow> server_endpoint \<Rightarrow> bool" where
  "keeps ep ep' \<longleftrightarrow> se_next_sequence ep' = se_next_sequence ep \<and>
     (\<forall>i < kMaxPending. seq_at ep' i = None \<or> seq_at ep' i = seq_at ep i)"

definition adds :: "server_endpoint \<Rightarrow> server_endpoint \<Rightarrow> bool" where
  "adds ep ep' \<longleftrightarrow> se_next_sequence ep' = se_next_sequence ep + 1 \<and>
     (\<exists>k. \<forall>i < kMaxPending. seq_at ep' i = None \<or> seq_at ep' i = seq_at ep i \<or>
        i = k \<and> seq_at ep' i = Some (se_next_sequence ep))"

lemma keepsI:
  assumes "se_next_sequence ep' = se_next_sequence ep"
    "\<And>i. i < kMaxPending \<Longrightarrow> seq_at ep' i = None \<or> seq_at ep' i = seq_at ep i"
  shows "keeps ep ep'"
  using assms by (simp add: keeps_def)

lemma keeps_refl [simp]: "keeps ep ep"
  by (simp add: keeps_def)

lemma keeps_change:
  assumes "i < kMaxPending" "length (se_pending ep) = kMaxPending"
    "x = None \<or> map_option pr_sequence x = seq_at ep i" "n = se_next_sequence ep"
  shows "keeps ep (ep\<lparr>se_pending := (se_pending ep)[i := x], se_pending_count := c\<rparr>)"
    "keeps ep (ep\<lparr>se_pending := (se_pending ep)[i := x]\<rparr>)"
  using assms by (auto simp: keeps_def seq_at_def nth_list_update)

lemma keeps_map:
  assumes "length (se_pending ep) = kMaxPending" "\<And>s. pr_sequence (f s) = pr_sequence s"
  shows "keeps ep (ep\<lparr>se_pending := map (map_option f) (se_pending ep)\<rparr>)"
  using assms by (auto simp: keeps_def seq_at_def option.map_comp comp_def)

lemma keeps_release_where:
  "length (se_pending ep) = kMaxPending \<Longrightarrow> keeps ep (snd (release_where P ep))"
  by (auto simp: keeps_def seq_at_def release_where_eq Let_def drop_slot_def split: option.splits)

lemma adds_admit:
  assumes a: "wf_endpoint ep"
  shows "keeps ep (snd (admit_with_ack frame now tv ts ref ep)) \<or> adds ep (snd (admit_with_ack frame now tv ts ref ep))"
proof (cases "claim_slot ep")
  case None
  then show ?thesis
    by (auto simp: admit_with_ack_def admit_under_tscf_gate_def submit_def keeps_def seq_at_def Let_def split: prod.splits)
next
  case (Some r)
  obtain i ep' where r: "r = (i, ep')" by force
  note c = claim_slot_Some [OF Some [unfolded r]]
  have l: "i < length (se_pending ep)" using a c by (simp add: wf_endpoint_def)
  have up: "adds ep (update_slot i f ep')" if "\<And>s. pr_sequence (f s) = pr_sequence s" for f
    using c l that by (auto simp: adds_def seq_at_def update_slot_def nth_list_update)
  have up2: "adds ep (update_slot i (\<lambda>_. s) ep')" if "pr_sequence s = se_next_sequence ep" for s
    using c l that by (auto simp: adds_def seq_at_def update_slot_def nth_list_update)
  have rel: "adds ep (release_slot i ep')"
    using c l by (auto simp: adds_def seq_at_def release_slot_def nth_list_update)
  have seq: "pr_sequence s' = pr_sequence s" if "decode_kind cat frame s = Inr s'" for cat s s'
    using that by (auto simp: decode_kind_def split: if_splits sum.splits)
  have "se_pending ep' ! i = Some (pending_default\<lparr>pr_sequence := se_next_sequence ep\<rparr>)"
    using c l by simp
  then show ?thesis
    using r Some up up2 rel seq
    by (auto simp: admit_with_ack_def admit_under_tscf_gate_def submit_def Let_def split: prod.splits sum.splits)
      (auto simp: keeps_def seq_at_def)
qed

lemma keeps_repeat:
  assumes "i < kMaxPending" "length (se_pending ep) = kMaxPending" "se_pending ep ! i = Some s0"
    "pr_sequence s = pr_sequence s0"
  shows "keeps ep (snd (repeat_or_release i s now ep))"
  using keeps_change [OF assms(1,2)] assms(3,4)
  by (auto simp: repeat_or_release_def release_slot_def update_slot_def with_repeat_count_def seq_at_def Let_def)

lemma keeps_do:
  assumes "wf_endpoint ep" "\<And>frame now tv ts ref. call \<noteq> Admit frame now tv ts ref"
  shows "keeps ep (endpoint_do call ep)"
proof -
  have l: "length (se_pending ep) = kMaxPending" using assms(1) by (simp add: wf_endpoint_def)
  show ?thesis
  proof (cases call)
    case (Select ctx)
    then show ?thesis using keeps_map [OF l] by (simp add: select_due_eq [OF l] armed_slot_def)
  next
    case (Notify source_ep nr)
    then show ?thesis
      using keeps_map [OF l, of "\<lambda>s. if pr_category s = TriggeredCat then s\<lparr>pr_triggered_runtime :=
        snd (triggered_record_occurrence (pr_triggered_runtime s) (pr_triggered s) source_ep nr)\<rparr> else s"]
      by (simp add: notify_trigger_eq [OF l])
  next
    case (Complete i ctx)
    show ?thesis
    proof (cases "i < kMaxPending \<and> se_pending ep ! i \<noteq> None")
      case True
      then obtain s where s: "i < kMaxPending" "se_pending ep ! i = Some s" by auto
      then show ?thesis
        using keeps_repeat [OF s(1) l s(2)] keeps_change [OF s(1) l, of None] Complete
        by (simp add: complete_used [OF s] Let_def release_slot_def)
    qed (use Complete complete_unused [of i ep ctx] in \<open>auto simp: not_less\<close>)
  next
    case (Predecessor_done i now)
    then show ?thesis
      using keeps_change(2) [OF _ l, of i]
      by (auto simp: chain_predecessor_done_def pending_def update_slot_def seq_at_def not_le split: option.splits)
  next
    case (Set_chain i grp position)
    then show ?thesis
      using keeps_change(2) [OF _ l, of i]
      by (auto simp: set_chain_def pending_def update_slot_def seq_at_def not_le split: option.splits)
  next
    case (Cancel_one txn state)
    let ?idx = "find (\<lambda>i. case se_pending ep ! i of None \<Rightarrow> False | Some s \<Rightarrow> pr_transaction_num s = txn) [0..<kMaxPending]"
    show ?thesis
    proof (cases ?idx)
      case (Some i)
      then show ?thesis
        using first_match [OF Some] keeps_change(1) [OF _ l, of i None] Cancel_one
        by (auto simp: cancel_single_pending_def Let_def release_slot_def)
    qed (simp add: Cancel_one cancel_single_pending_def Let_def cancel_attempt_def)
  qed (use assms(2) in \<open>simp_all add: keeps_release_where [OF l] cancel_all_pending_def
      cancel_non_safestate_def watchdog_purge_def purge_non_safety_def cancel_chain_from_def\<close>,
    simp_all add: keeps_def seq_at_def set_enable_def set_admission_suspended_def submit_def drain_one_def)
qed

text \<open>Numbers are below the next one, and no two slots have the same.\<close>

definition numbered :: "nat \<Rightarrow> server_endpoint \<Rightarrow> bool" where
  "numbered n ep \<longleftrightarrow>
     unat (se_next_sequence ep) \<le> n \<and>
     (\<forall>i < kMaxPending. \<forall>q. seq_at ep i = Some q \<longrightarrow> q < se_next_sequence ep) \<and>
     (\<forall>i < kMaxPending. \<forall>j < kMaxPending. \<forall>q. seq_at ep i = Some q \<and> seq_at ep j = Some q \<longrightarrow> i = j)"

lemma numbered_keeps: "numbered n ep \<Longrightarrow> keeps ep ep' \<Longrightarrow> numbered (Suc n) ep'"
proof -
  assume a: "numbered n ep" "keeps ep ep'"
  have k: "seq_at ep i = Some x" if "i < kMaxPending" "seq_at ep' i = Some x" for i x
    using a(2) that by (force simp: keeps_def)
  show ?thesis
    unfolding numbered_def
  proof (intro conjI allI impI)
    fix i j x assume i: "i < kMaxPending" "j < kMaxPending" "seq_at ep' i = Some x \<and> seq_at ep' j = Some x"
    then have "seq_at ep i = Some x" "seq_at ep j = Some x" using k by blast+
    then show "i = j" using a(1) i(1,2) unfolding numbered_def by blast
  qed (use a k in \<open>auto simp: numbered_def keeps_def\<close>)
qed

lemma numbered_adds:
  assumes "numbered n ep" "adds ep ep'" "Suc n < 2 ^ 64"
  shows "numbered (Suc n) ep'"
proof -
  let ?q = "se_next_sequence ep"
  obtain k where k: "se_next_sequence ep' = ?q + 1"
      "\<And>i. i < kMaxPending \<Longrightarrow> seq_at ep' i = None \<or> seq_at ep' i = seq_at ep i \<or> i = k \<and> seq_at ep' i = Some ?q"
    using assms(2) unfolding adds_def by blast
  have "unat (?q + 1) = Suc (unat ?q)"
    using assms(1,3) by (simp add: numbered_def unat_word_ariths)
  then have q: "unat (?q + 1) = Suc (unat ?q)" "\<And>x. x < ?q \<Longrightarrow> x < ?q + 1" "?q < ?q + 1"
    by (simp_all add: word_less_nat_alt)
  have low: "x < ?q" if "i < kMaxPending" "seq_at ep i = Some x" for i x
    using assms(1) that unfolding numbered_def by blast
  then have fresh: "seq_at ep i \<noteq> Some ?q" if "i < kMaxPending" for i
    using that by blast
  show ?thesis
    unfolding numbered_def k(1)
  proof (intro conjI allI impI)
    show "unat (?q + 1) \<le> Suc n" using q(1) assms(1) by (simp add: numbered_def)
    fix i x assume "i < kMaxPending" "seq_at ep' i = Some x"
    then show "x < ?q + 1" using k(2) [of i] low [of i x] q(2,3) by auto
  next
    fix i j x assume i: "i < kMaxPending" "j < kMaxPending" "seq_at ep' i = Some x \<and> seq_at ep' j = Some x"
    show "i = j"
    proof (cases "x = ?q")
      case True
      then show ?thesis using i k(2) fresh by (metis option.distinct(1))
    next
      case False
      then have "seq_at ep i = Some x" "seq_at ep j = Some x" using i k(2) by (metis option.distinct(1) option.inject)+
      then show ?thesis using assms(1) i(1,2) unfolding numbered_def by blast
    qed
  qed
qed

definition endpoint_run :: "bool \<Rightarrow> endpoint_call list \<Rightarrow> server_endpoint" where
  "endpoint_run enable calls = fold endpoint_do calls (new_endpoint enable)"

lemma endpoint_run_snoc: "endpoint_run enable (calls @ [c]) = endpoint_do c (endpoint_run enable calls)"
  by (simp add: endpoint_run_def)

lemma wf_run: "wf_endpoint (endpoint_run enable calls)"
  by (induction calls rule: rev_induct) (simp_all add: endpoint_run_snoc wf_do, simp add: endpoint_run_def)

lemma numbered_run: "length calls < 2 ^ 64 \<Longrightarrow> numbered (length calls) (endpoint_run enable calls)"
proof (induction calls rule: rev_induct)
  case Nil
  then show ?case by (simp add: endpoint_run_def new_endpoint_def numbered_def seq_at_def)
next
  case (snoc c calls)
  let ?ep = "endpoint_run enable calls"
  have "keeps ?ep (endpoint_do c ?ep) \<or> adds ?ep (endpoint_do c ?ep)"
    using keeps_do [OF wf_run, of c] adds_admit [OF wf_run] by (cases c) auto
  then show ?case
    using snoc numbered_keeps [of "length calls" ?ep] numbered_adds [of "length calls" ?ep]
    by (auto simp: endpoint_run_snoc)
qed

end
