(* ===== verification/Server_Behaviour.thy ===== *)
theory Server_Behaviour
  imports Server_Store
begin

text \<open>
  What a server endpoint does: which request it serves next and under which conditions, how often
  a request repeats, the order of the queue of a disabled endpoint, what a cancellation removes
  and how a received message is admitted.
\<close>

section \<open>The invariant\<close>

text \<open>
  C4. Through every sequence of calls an endpoint's store stays consistent: it has 32 slots, the
  count of pending requests is the number of slots in use, the queue of a disabled endpoint holds
  at most 32 messages, every stored request is of the category of its opcode, one without a
  condition of its own waits for a presentation time, a triggered one counts occurrences, and
  (for fewer than \<open>2 ^ 64\<close> calls) no two stored requests share an arrival number, so that the
  order of service among equals is never a tie.
\<close>

theorem reachable_endpoint_wf:
  assumes "ep = endpoint_run enable calls"
  shows "length (se_pending ep) = 32 \<and> se_pending_count ep = length (used (se_pending ep)) \<and>
    se_pending_count ep \<le> 32 \<and> length (se_queue ep) \<le> 32 \<and>
    (\<forall>i s. pending i ep = Some s \<longrightarrow>
       pr_category s = category_of (pr_request_type s) \<and>
       (pr_category s \<in> {Standard, Cancellation} \<longrightarrow> pr_has_presentation_gate s) \<and>
       (pr_category s = TriggeredCat \<longrightarrow> rt_started (pr_triggered_runtime s))) \<and>
    (length calls < 2 ^ 64 \<longrightarrow>
       (\<forall>i j s t. pending i ep = Some s \<and> pending j ep = Some t \<and> pr_sequence s = pr_sequence t \<longrightarrow> i = j))"
proof -
  have w: "wf_endpoint ep" using wf_run assms by simp
  have "length (used xs) \<le> length xs" for xs
    by (simp add: used_def map_filter_def)
  then have "length (used (se_pending ep)) \<le> kMaxPending" using w by (metis wf_endpoint_def)
  moreover have "wf_slot s" if "pending i ep = Some s" for i s
    using used_slot_wf [OF w] that by (auto simp: pending_def not_le split: if_splits)
  moreover have "i = j" if "length calls < 2 ^ 64" "pending i ep = Some s" "pending j ep = Some t"
      "pr_sequence s = pr_sequence t" for i j s t
    using numbered_run [OF that(1), of enable] that(2-) assms
    by (fastforce simp: numbered_def seq_at_def pending_def not_le split: if_splits)
  ultimately show ?thesis
    using w by (auto simp: wf_endpoint_def wf_slot_def kMaxPending_def kMaxQueuedFrames_def)
qed

section \<open>The scheduler\<close>

text \<open>
  C2. The scan of the slots serves what \<open>select_next_due\<close> would pick from the list of the due
  requests: nothing when none is due, and otherwise a due request such that no due one has a
  higher priority, or the same and an earlier arrival. The scan changes nothing but the timers
  of requests whose start condition has begun to hold.
\<close>

theorem select_due_serves_best:
  assumes "wf_endpoint ep"
  shows "fst (select_due ctx ep) =
      map_option (\<lambda>k. due_indices ep ctx ! k) (select_next_due (due_candidates ep ctx)) \<and>
    (case fst (select_due ctx ep) of
       None \<Rightarrow> \<forall>i < kMaxPending. \<not> due_now ep ctx (se_pending ep ! i)
     | Some i \<Rightarrow> i < kMaxPending \<and> due_now ep ctx (se_pending ep ! i) \<and>
         (\<forall>j < kMaxPending. due_now ep ctx (se_pending ep ! j) \<longrightarrow>
            \<not> key_less (candidate_of (the (se_pending ep ! j))) (candidate_of (the (se_pending ep ! i))))) \<and>
    snd (select_due ctx ep) = ep\<lparr>se_pending := map (armed_slot ep ctx) (se_pending ep)\<rparr>"
proof -
  have l: "length (se_pending ep) = kMaxPending" using assms by (simp add: wf_endpoint_def)
  let ?is = "due_indices ep ctx" and ?cs = "due_candidates ep ctx"
  have mem: "j \<in> set ?is \<longleftrightarrow> j < kMaxPending \<and> due_now ep ctx (se_pending ep ! j)" for j
    by (auto simp: due_indices_def)
  have "(case fst (select_due ctx ep) of
       None \<Rightarrow> \<forall>i < kMaxPending. \<not> due_now ep ctx (se_pending ep ! i)
     | Some i \<Rightarrow> i < kMaxPending \<and> due_now ep ctx (se_pending ep ! i) \<and>
         (\<forall>j < kMaxPending. due_now ep ctx (se_pending ep ! j) \<longrightarrow>
            \<not> key_less (candidate_of (the (se_pending ep ! j))) (candidate_of (the (se_pending ep ! i)))))"
  proof (cases "?is = []")
    case True
    then show ?thesis
      using mem by (auto simp: select_due_eq [OF l] select_next_due_def due_candidates_def)
  next
    case False
    let ?k = "best_upto ?cs (length ?is - 1)"
    have k: "select_next_due ?cs = Some ?k" "?k < length ?is"
      "\<forall>j < length ?is. \<not> key_less (?cs ! j) (?cs ! ?k)"
      using False best_upto_spec [of ?cs "length ?is - 1"]
      by (auto simp: select_next_due_Some due_candidates_def) (metis Suc_pred less_Suc_eq_le length_greater_0_conv)+
    have "\<not> key_less (candidate_of (the (se_pending ep ! j))) (candidate_of (the (se_pending ep ! (?is ! ?k))))"
      if "j \<in> set ?is" for j
      using that k(2,3) by (auto simp: in_set_conv_nth due_candidates_def)
    then show ?thesis
      using k mem nth_mem [OF k(2)] by (auto simp: select_due_eq [OF l])
  qed
  then show ?thesis by (simp add: select_due_eq [OF l])
qed

lemma unat_ucast_16: "unat (ucast (x :: u16) :: u32) = unat x"
  using unsigned_less [of x, where ?'a = nat] by (simp add: unsigned_ucast_eq take_bit_nat_eq_self_iff)

text \<open>
  C3. What is selected may run: the endpoint is enabled unless the request waits for a
  presentation time alone, a safety-tagged request runs in the safe state only, a presentation
  gate is open on a locked clock, the request's timer was started by its start condition, and
  the conditions of its kind hold: an idle endpoint, a matching status or a locked clock, and
  the delay or deadline is over.
\<close>

theorem selected_request_may_run:
  assumes "wf_endpoint ep" "select_due ctx ep = (Some i, ep')"
  shows "\<exists>s. pending i ep' = Some s \<and> pr_armed s \<and>
    (se_enable ep \<or> pr_category s \<in> {Standard, Cancellation}) \<and>
    (is_safety_tagged s \<longrightarrow> tc_in_safe_state ctx) \<and>
    (pr_has_presentation_gate s \<longrightarrow> tc_gptp_locked ctx \<and> timed_due (pr_presentation_gate_ns s) (tc_gptp_now ctx)) \<and>
    (pr_category s \<in> {CompoundCat, TriggeredCat, ChainedCat} \<longrightarrow> tc_endpoint_idle ctx) \<and>
    (pr_category s \<in> {CompoundCat, CompoundWaitCat} \<longrightarrow>
       unat (cs_exec_delay (pr_compound s)) \<le> unat (tc_now ctx - pr_armed_at s)) \<and>
    (pr_category s = CompoundWaitCat \<longrightarrow> status_matches s ctx) \<and>
    (pr_category s = TriggeredCat \<longrightarrow>
       unat (ts_exec_delay (pr_triggered s)) \<le> unat (tc_now ctx - pr_armed_at s)) \<and>
    (pr_category s = ChainedCat \<longrightarrow> unat (pr_chain_exec_delay s) \<le> unat (tc_now ctx - pr_armed_at s)) \<and>
    (pr_category s = TimedCat \<longrightarrow> tc_gptp_locked ctx \<and> timed_due (pr_presentation_time s) (tc_gptp_now ctx))"
proof -
  have l: "length (se_pending ep) = kMaxPending" using assms(1) by (simp add: wf_endpoint_def)
  obtain k where k: "select_next_due (due_candidates ep ctx) = Some k" "due_indices ep ctx ! k = i"
      "ep' = ep\<lparr>se_pending := map (armed_slot ep ctx) (se_pending ep)\<rparr>"
    using assms(2) by (auto simp: select_due_eq [OF l])
  have "k < length (due_indices ep ctx)"
    using k(1) best_upto_spec [of "due_candidates ep ctx" "length (due_candidates ep ctx) - 1"]
    by (auto simp: select_next_due_Some due_candidates_def) (metis Suc_pred le_imp_less_Suc length_greater_0_conv)
  then have "i \<in> set (due_indices ep ctx)" using k(2) by auto
  then obtain s0 where s0: "i < kMaxPending" "se_pending ep ! i = Some s0" "fst (is_due (se_enable ep) s0 ctx)"
    by (auto simp: due_indices_def due_now_def split: option.splits)
  define s where "s = snd (is_due (se_enable ep) s0 ctx)"
  have s: "pending i ep' = Some s"
    using s0(1,2) l by (simp add: k(3) pending_def armed_slot_def s_def)
  have due: "pr_armed s" "auxiliary_condition_met s ctx" "delay_expired s ctx (tc_now ctx - pr_armed_at s)"
    "se_enable ep \<or> \<not> kind_is_gated_by_ep_enable (pr_category s)"
    "is_safety_tagged s \<longrightarrow> tc_in_safe_state ctx"
    "pr_has_presentation_gate s \<longrightarrow> tc_gptp_locked ctx \<and> timed_due (pr_presentation_gate_ns s) (tc_gptp_now ctx)"
    using s0(3) unfolding s_def
    by (auto simp: is_due_def arm_if_startable_def is_safety_tagged_def Let_def split: if_splits)
  show ?thesis
    using s due
    by (cases "pr_category s")
       (auto simp: auxiliary_condition_met_def delay_expired_def kind_is_gated_by_ep_enable_def
         exec_delay_elapsed_def triggered_exec_delay_elapsed_def chained_exec_delay_elapsed_def
         word_le_nat_alt unat_ucast_16)
qed

section \<open>Repetition\<close>

definition repeats :: "pending_request \<Rightarrow> bool" where
  "repeats s \<longleftrightarrow> pr_category s \<in> {CompoundCat, CompoundWaitCat, TriggeredCat}"

lemma repeat_or_release_effect:
  assumes "i < kMaxPending" "length (se_pending ep) = kMaxPending" "se_pending ep ! i = Some s0"
  shows "\<exists>s'. fst (repeat_or_release i s now ep) = (repeat_count_of s \<noteq> 0) \<and>
    se_pending (snd (repeat_or_release i s now ep)) =
      (se_pending ep)[i := if repeat_count_of s = 0 then None else Some s'] \<and>
    pr_category s' = pr_category s \<and> pr_frame s' = pr_frame s \<and> \<not> pr_armed s' \<and>
    repeat_count_of s' = (if repeat_count_of s = 0xFFFF then 0xFFFF else repeat_count_of s - 1)"
proof -
  define s' where "s' = (let s = (if repeat_count_of s = kCompoundRepeatInfinite then s
        else with_repeat_count (repeat_count_of s - 1) s);
      s = s\<lparr>pr_armed := False, pr_armed_at := now\<rparr>
    in if pr_category s = TriggeredCat
       then s\<lparr>pr_triggered_runtime := triggered_enter_started (pr_triggered_runtime s)\<rparr> else s)"
  have "repeat_or_release i s now ep =
    (if repeat_count_of s = 0 then (False, release_slot i ep) else (True, update_slot i (\<lambda>_. s') ep))"
    by (simp add: repeat_or_release_def s'_def Let_def kCompoundRepeatInfinite_def)
  moreover have "pr_category s' = pr_category s" "pr_frame s' = pr_frame s" "\<not> pr_armed s'"
    "repeat_count_of s' = (if repeat_count_of s = 0xFFFF then 0xFFFF else repeat_count_of s - 1)"
    by (simp_all add: s'_def Let_def with_repeat_count_def repeat_count_of_def kCompoundRepeatInfinite_def)
  ultimately show ?thesis
    using assms by (intro exI [of _ s']) (simp add: release_slot_def update_slot_def)
qed

lemma complete_repeats:
  assumes "i < kMaxPending" "length (se_pending ep) = kMaxPending" "se_pending ep ! i = Some s" "repeats s"
  shows "\<exists>s'. fst (complete i ctx ep) = (repeat_count_of s \<noteq> 0) \<and>
    se_pending (snd (snd (complete i ctx ep))) =
      (se_pending ep)[i := if repeat_count_of s = 0 then None else Some s'] \<and>
    pr_category s' = pr_category s \<and> pr_frame s' = pr_frame s \<and> \<not> pr_armed s' \<and>
    repeat_count_of s' = (if repeat_count_of s = 0xFFFF then 0xFFFF else repeat_count_of s - 1)"
proof -
  let ?t = "s\<lparr>pr_triggered_runtime := snd (triggered_tick (pr_triggered s) (pr_triggered_runtime s)
              (tc_now ctx - pr_armed_at s) True)\<rparr>"
  have "repeat_count_of ?t = repeat_count_of s" "pr_category ?t = pr_category s" "pr_frame ?t = pr_frame s"
    by (simp_all add: repeat_count_of_def)
  then show ?thesis
    using repeat_or_release_effect [OF assms(1-3), of s "tc_now ctx"]
      repeat_or_release_effect [OF assms(1-3), of ?t "tc_now ctx"] assms(4)
    by (auto simp: complete_used [OF assms(1,3)] Let_def repeats_def)
qed

definition completions :: "nat \<Rightarrow> tick_context list \<Rightarrow> server_endpoint \<Rightarrow> server_endpoint" where
  "completions i ctxs ep = fold (\<lambda>ctx ep. snd (snd (complete i ctx ep))) ctxs ep"

lemma completions_gone: "se_pending ep ! i = None \<Longrightarrow> completions i ctxs ep = ep"
  by (induction ctxs) (simp_all add: completions_def complete_unused)

text \<open>
  C28. A repeating request with repeat count \<open>r\<close> runs \<open>r + 1\<close> times: it is still stored after
  every one of the first \<open>r\<close> completions, with the repetitions that are left, the same message
  and a timer that has to be started again, and the next completion removes it. With the
  infinite count no completion removes it or changes the count.
\<close>

theorem repetitions_exact:
  assumes "wf_endpoint ep" "pending i ep = Some s" "repeats s"
  shows "case pending i (completions i ctxs ep) of
      None \<Rightarrow> repeat_count_of s \<noteq> 0xFFFF \<and> unat (repeat_count_of s) < length ctxs
    | Some s' \<Rightarrow> pr_frame s' = pr_frame s \<and> (ctxs \<noteq> [] \<longrightarrow> \<not> pr_armed s') \<and>
        (if repeat_count_of s = 0xFFFF then repeat_count_of s' = 0xFFFF
         else unat (repeat_count_of s') + length ctxs = unat (repeat_count_of s))"
proof -
  have "i < kMaxPending" "length (se_pending ep) = kMaxPending" "se_pending ep ! i = Some s"
    using assms(1,2) by (auto simp: pending_def wf_endpoint_def split: if_splits)
  then show ?thesis
    using assms(3)
  proof (induction ctxs arbitrary: ep s)
    case Nil
    then show ?case by (simp add: completions_def pending_def)
  next
    case (Cons ctx ctxs)
    let ?r = "repeat_count_of s" and ?ep = "snd (snd (complete i ctx ep))"
    obtain s' where s': "se_pending ?ep = (se_pending ep)[i := if ?r = 0 then None else Some s']"
      "pr_category s' = pr_category s" "pr_frame s' = pr_frame s" "\<not> pr_armed s'"
      "repeat_count_of s' = (if ?r = 0xFFFF then 0xFFFF else ?r - 1)"
      using complete_repeats [OF Cons.prems] by blast
    have step: "completions i (ctx # ctxs) ep = completions i ctxs ?ep" by (simp add: completions_def)
    show ?case
    proof (cases "?r = 0")
      case True
      then have "se_pending ?ep ! i = None" using s'(1) Cons.prems by simp
      then show ?thesis
        using True Cons.prems(1) by (simp add: step completions_gone pending_def)
    next
      case False
      then have "se_pending ?ep ! i = Some s'" "length (se_pending ?ep) = kMaxPending" "repeats s'"
        using s' Cons.prems by (simp_all add: repeats_def)
      moreover have "pending i ?ep = Some s'"
        using calculation(1) Cons.prems(1) by (simp add: pending_def)
      moreover have "unat (?r - 1) = unat ?r - 1" "0 < unat ?r"
        using False by (simp_all add: unat_minus_one unat_gt_0)
      ultimately show ?thesis
        using Cons.IH [of ?ep s'] Cons.prems(1) s'(3,4,5)
        by (cases "ctxs = []") (auto simp: step completions_def split: option.splits if_splits)
    qed
  qed
qed

section \<open>The queue of a disabled endpoint\<close>

fun drained :: "nat \<Rightarrow> server_endpoint \<Rightarrow> octets list" where
  "drained 0 ep = []"
| "drained (Suc n) ep =
     (case drain_one ep of (None, ep) \<Rightarrow> [] | (Some frame, ep) \<Rightarrow> frame # drained n ep)"

lemma drained_eq: "drained n ep = (if se_enable ep then take n (se_queue ep) else [])"
  by (induction n arbitrary: ep) (auto simp: drain_one_def take_Suc)

lemma submitted_queue:
  "\<not> se_enable ep \<Longrightarrow> length (se_queue ep) \<le> kMaxQueuedFrames \<Longrightarrow>
     fold (\<lambda>f ep. snd (snd (submit f ep))) frames ep =
       ep\<lparr>se_queue := take kMaxQueuedFrames (se_queue ep @ filter (\<lambda>f. \<not> is_config_request f) frames)\<rparr>"
proof (induction frames arbitrary: ep)
  case (Cons f frames)
  show ?case
    using Cons.prems Cons.IH [of "snd (snd (submit f ep))"]
    by (auto simp: submit_def not_le take_Cons')
qed simp

text \<open>
  The queue of a disabled endpoint is first in, first out, and loses nothing that fits:
  configuration requests run at once, the first 32 others are queued, nothing can be drained
  while the endpoint is disabled, and once it is enabled the queued messages come out in the
  order of their arrival.
\<close>

theorem disabled_queue_is_fifo:
  "(let ep = fold (\<lambda>f ep. snd (snd (submit f ep))) frames (new_endpoint False) in
     drained n ep = [] \<and>
     drained n (set_enable True ep) = take (min n 32) (filter (\<lambda>f. \<not> is_config_request f) frames) \<and>
     fst (submit frame ep) = is_config_request frame)"
  using submitted_queue [of "new_endpoint False" frames]
  by (simp add: Let_def drained_eq set_enable_def new_endpoint_def submit_def kMaxQueuedFrames_def)

section \<open>Cancellation\<close>

lemma release_where_pending:
  assumes "wf_endpoint ep"
  shows "pending i (snd (release_where P ep)) =
      (case pending i ep of None \<Rightarrow> None | Some s \<Rightarrow> if P s then None else Some s)"
    "fst (release_where P ep) = length (filter P (used (se_pending ep)))"
  using assms by (auto simp: release_where_eq wf_endpoint_def Let_def pending_def drop_slot_def)

text \<open>
  C29. A cancellation removes exactly the requests it names and reports their number: clear-all
  every stored request, clear-non-safestate and the watchdog's purge every one without a safety
  tag, the cancellation of a chain the members of that chain from the given position on (and
  none for the group number 0), and clear-single the first stored request with the transaction
  number, provided it is not being executed; otherwise it removes nothing and says why.
\<close>

theorem cancellations_exact:
  assumes "wf_endpoint ep"
  shows "(\<forall>i. pending i (snd (cancel_all_pending ep)) = None) \<and>
    fst (cancel_all_pending ep) = se_pending_count ep \<and>
    (\<forall>i. pending i (snd (purge_non_safety ep)) =
       (case pending i ep of None \<Rightarrow> None | Some s \<Rightarrow> if is_safety_tagged s then Some s else None)) \<and>
    fst (purge_non_safety ep) = length (filter (\<lambda>s. \<not> is_safety_tagged s) (used (se_pending ep))) \<and>
    (\<forall>i. pending i (snd (cancel_chain_from grp position ep)) =
       (case pending i ep of None \<Rightarrow> None
        | Some s \<Rightarrow> if grp \<noteq> 0 \<and> pr_chain_group s = grp \<and> position \<le> pr_chain_position s then None else Some s)) \<and>
    (case cancel_single_pending txn state ep of (result, ep') \<Rightarrow>
       (result = Cr_not_found \<longleftrightarrow> (\<forall>i s. pending i ep = Some s \<longrightarrow> pr_transaction_num s \<noteq> txn)) \<and>
       (result = Cr_not_cancellable \<longrightarrow> state \<noteq> Cl_queued) \<and>
       (if result = Cr_canceled
        then \<exists>i s. pending i ep = Some s \<and> pr_transaction_num s = txn \<and>
          (\<forall>j < i. \<forall>t. pending j ep = Some t \<longrightarrow> pr_transaction_num t \<noteq> txn) \<and>
          (\<forall>j. pending j ep' = (if j = i then None else pending j ep))
        else ep' = ep))"
proof -
  have single: "case cancel_single_pending txn state ep of (result, ep') \<Rightarrow>
       (result = Cr_not_found \<longleftrightarrow> (\<forall>i s. pending i ep = Some s \<longrightarrow> pr_transaction_num s \<noteq> txn)) \<and>
       (result = Cr_not_cancellable \<longrightarrow> state \<noteq> Cl_queued) \<and>
       (if result = Cr_canceled
        then \<exists>i s. pending i ep = Some s \<and> pr_transaction_num s = txn \<and>
          (\<forall>j < i. \<forall>t. pending j ep = Some t \<longrightarrow> pr_transaction_num t \<noteq> txn) \<and>
          (\<forall>j. pending j ep' = (if j = i then None else pending j ep))
        else ep' = ep)"
  proof (cases "find (\<lambda>i. case se_pending ep ! i of None \<Rightarrow> False | Some s \<Rightarrow> pr_transaction_num s = txn) [0..<kMaxPending]")
    case None
    then show ?thesis
      by (auto simp: cancel_single_pending_def Let_def cancel_attempt_def find_None_iff pending_def not_le
          split: option.splits if_splits)
  next
    case (Some i)
    note m = first_match [OF Some]
    obtain s where s: "se_pending ep ! i = Some s" "pr_transaction_num s = txn" using m by blast
    have "pending i ep = Some s" "pr_transaction_num s = txn"
      "\<forall>j < i. \<forall>t. pending j ep = Some t \<longrightarrow> pr_transaction_num t \<noteq> txn"
      "\<forall>j. pending j (release_slot i ep) = (if j = i then None else pending j ep)"
      using m s assms by (auto simp: pending_def release_slot_def wf_endpoint_def)
    moreover have "cancel_single_pending txn state ep = (if cancel_is_cancellable state
        then (Cr_canceled, release_slot i ep) else (Cr_not_cancellable, ep))"
      by (simp add: cancel_single_pending_def Some cancel_attempt_def Let_def)
    ultimately show ?thesis by (auto simp: cancel_is_cancellable_def)
  qed
  show ?thesis
    using single assms
    by (auto simp: cancel_all_pending_def purge_non_safety_def cancel_chain_from_def release_where_pending
        cancel_chain_should_cascade_def wf_endpoint_def [of ep] split: option.splits)
qed

section \<open>Admission\<close>

lemma admit_gate_eq:
  assumes "wf_endpoint ep"
  shows "admit_under_tscf_gate frame now ns cat type ep =
    (case claim_slot ep of
       None \<Rightarrow> (outcome Rejected type, ep)
     | Some (i, _) \<Rightarrow> ((outcome Pending type)\<lparr>ad_index := Some i, ad_ack := store_ack frame\<rparr>,
         ep\<lparr>se_pending := (se_pending ep)[i := Some (pending_default\<lparr>pr_sequence := se_next_sequence ep,
               pr_category := cat, pr_request_type := type, pr_has_presentation_gate := True,
               pr_presentation_gate_ns := ns, pr_armed_at := now, pr_frame := frame\<rparr>)],
            se_next_sequence := se_next_sequence ep + 1, se_pending_count := se_pending_count ep + 1\<rparr>))"
proof (cases "claim_slot ep")
  case (Some r)
  obtain i ep' where r: "r = (i, ep')" by force
  then show ?thesis
    using claim_slot_Some [OF Some [unfolded r]] assms Some
    by (simp add: admit_under_tscf_gate_def update_slot_def wf_endpoint_def)
qed (simp add: admit_under_tscf_gate_def)

definition is_response :: "octets \<Rightarrow> bool" where
  "is_response frame \<longleftrightarrow> kAcfCommonHeaderLen \<le> length frame \<and> a_rsp (decode_acf_message_info frame)"

text \<open>What a request has to be stored for: a presentation gate, or a condition of its own.\<close>

definition needs_store :: "octets \<Rightarrow> bool \<Rightarrow> bool" where
  "needs_store frame tv \<longleftrightarrow> tv \<or> category_of (peek_request_type frame) \<notin> {Standard, Cancellation}"

definition store_full :: "server_endpoint \<Rightarrow> bool" where
  "store_full ep \<longleftrightarrow> (\<forall>i < kMaxPending. pending i ep \<noteq> None)"

lemma store_full_iff: "store_full ep \<longleftrightarrow> claim_slot ep = None"
  by (simp add: store_full_def claim_slot_None pending_def)

lemma decode_kind_keeps:
  assumes "decode_kind cat frame s = Inr s'"
  shows "pr_request_type s' = pr_request_type s \<and> pr_category s' = pr_category s \<and>
    pr_sequence s' = pr_sequence s \<and> pr_armed s' = pr_armed s"
  using assms by (auto simp: decode_kind_def split: if_splits sum.splits)

lemma decode_kind_error:
  "decode_kind cat frame s = Inl err \<Longrightarrow> err = None \<or> err = Some UnsupportedCmd \<and> cat = CompoundWaitCat"
  by (auto simp: decode_kind_def split: if_splits sum.splits)

lemma admit_conditional_eq:
  assumes "wf_endpoint ep" "\<not> se_admission_suspended ep" "\<not> is_response frame"
    "category_of (peek_request_type frame) \<notin> {Standard, Cancellation}"
    "claim_slot ep = Some (i, ep1)"
    "s = pending_default\<lparr>pr_sequence := se_next_sequence ep,
       pr_category := category_of (peek_request_type frame), pr_request_type := peek_request_type frame\<rparr>"
  shows "admit_with_ack frame now tv ts ref ep =
    (case decode_kind (category_of (peek_request_type frame)) frame s of
       Inl err \<Rightarrow> ((outcome Rejected (peek_request_type frame))\<lparr>ad_error := err\<rparr>,
           ep\<lparr>se_next_sequence := se_next_sequence ep + 1\<rparr>)
     | Inr s' \<Rightarrow> ((outcome Pending (peek_request_type frame))\<lparr>ad_index := Some i, ad_ack := store_ack frame\<rparr>,
         ep\<lparr>se_pending := (se_pending ep)[i := Some (s'\<lparr>pr_has_presentation_gate := tv,
             pr_presentation_gate_ns := if tv then extend_timestamp ts ref else 0, pr_armed_at := now,
             pr_frame := frame\<rparr>)],
            se_next_sequence := se_next_sequence ep + 1, se_pending_count := se_pending_count ep + 1\<rparr>))"
proof -
  note c = claim_slot_Some [OF assms(5)]
  have l: "i < length (se_pending ep)" using c assms(1) by (simp add: wf_endpoint_def)
  obtain t where pk: "peek_request_type frame = Some t" using assms(4) by (cases "peek_request_type frame") auto
  have slot: "(the (se_pending ep1 ! i))\<lparr>pr_category := category_of (peek_request_type frame),
      pr_request_type := peek_request_type frame\<rparr> = s"
    using c l assms(6) by simp
  have rel: "release_slot i ep1 = ep\<lparr>se_next_sequence := se_next_sequence ep + 1\<rparr>"
    using c l by (simp add: release_slot_def slot_same)
  have upd: "update_slot i (\<lambda>_. x) ep1 = ep\<lparr>se_pending := (se_pending ep)[i := Some x],
      se_next_sequence := se_next_sequence ep + 1, se_pending_count := se_pending_count ep + 1\<rparr>" for x
    using c l by (simp add: update_slot_def)
  show ?thesis
    using assms(2,3,4,5) pk
    by (cases "decode_kind (category_of (peek_request_type frame)) frame s";
        cases "kAcfCommonHeaderLen \<le> length frame")
       (simp_all add: admit_with_ack_def Let_def slot [unfolded pk] rel upd is_response_def header_is_request_def)
qed

text \<open>A request that needs the store only because of its presentation time is refused by a full one without a code.\<close>

lemma gated_overflow_without_code:
  assumes "\<not> se_admission_suspended ep" "\<not> is_response frame" "category_of (peek_request_type frame) \<in> {Standard, Cancellation}"
    "store_full ep"
  shows "case admit_with_ack frame now True ts ref ep of (r, ep') \<Rightarrow> ad_outcome r = Rejected \<and> ad_error r = None \<and> ep' = ep"
proof -
  have "category_of (peek_request_type frame) = Standard \<longleftrightarrow> peek_request_type frame = None"
    by (cases "peek_request_type frame") (simp, rename_tac t, case_tac t, simp_all)
  then show ?thesis
    using assms
    by (auto simp: admit_with_ack_def is_response_def header_is_request_def outcome_def store_full_iff
        admit_under_tscf_gate_def Let_def)
qed

text \<open>
  C1. The outcome of an admission is determined by the state of the endpoint, the message and
  whether it came with a presentation time. A suspended endpoint looks at nothing; a response
  is refused with \<open>InvalidParameter\<close> (which the comment does not count among the refusals with a code, but
  \<open>REQ-ACF-021\<close> in the code does); without a presentation time a standard request runs at once or is queued, and a
  cancellation is the caller's to apply, with the store untouched. Everything else needs the
  store: if it is full the request is refused as a storage overflow; otherwise the request is put,
  unarmed and with the next arrival number, into the first free slot, or is refused with the store as it
  was, naming a wire error only for a compound-wait request. Not included is a standard request or
  cancellation that a full store refuses because of its presentation time: it gets no error code,
  against the comment (\<open>gated_overflow_without_code\<close>).
\<close>

theorem admission_exact:
  assumes "wf_endpoint ep"
    and "tv \<and> store_full ep \<longrightarrow> category_of (peek_request_type frame) \<notin> {Standard, Cancellation}"
  shows "case admit_with_ack frame now tv ts ref ep of (r, ep') \<Rightarrow>
    (if se_admission_suspended ep then ad_outcome r = Suspended \<and> ep' = ep
     else if is_response frame
     then ad_outcome r = Rejected \<and> ad_error r = Some InvalidParameter \<and> ep' = ep
     else if \<not> needs_store frame tv then
       ad_request_type r = peek_request_type frame \<and> se_pending ep' = se_pending ep \<and>
       (if peek_request_type frame \<noteq> None then ad_outcome r = Apply_cancellation \<and> ep' = ep
        else if se_enable ep \<or> is_config_request frame then ad_outcome r = ExecuteNow \<and> ep' = ep
        else ad_outcome r = Queued \<and> se_queue ep' = take 32 (se_queue ep @ [frame]))
     else if store_full ep then
       ad_outcome r = Rejected \<and> ep' = ep \<and> ad_error r = Some ReqStorageOverflow
     else if ad_outcome r = Pending then
       (\<exists>i s. ad_index r = Some i \<and> pending i ep = None \<and> (\<forall>j < i. pending j ep \<noteq> None) \<and>
          se_pending ep' = (se_pending ep)[i := Some s] \<and> pr_frame s = frame \<and>
          pr_request_type s = peek_request_type frame \<and> pr_sequence s = se_next_sequence ep \<and>
          \<not> pr_armed s \<and> pr_armed_at s = now \<and> pr_has_presentation_gate s = tv \<and>
          (tv \<longrightarrow> pr_presentation_gate_ns s = extend_timestamp ts ref))
     else ad_outcome r = Rejected \<and> se_pending ep' = se_pending ep \<and>
       category_of (peek_request_type frame) \<notin> {Standard, Cancellation} \<and>
       (ad_error r = None \<or> ad_error r = Some UnsupportedCmd \<and>
          category_of (peek_request_type frame) = CompoundWaitCat))"
proof -
  let ?pk = "peek_request_type frame" and ?cat = "category_of (peek_request_type frame)"
  have cat: "?cat = Standard \<longleftrightarrow> ?pk = None"
    by (cases ?pk) (simp, rename_tac t, case_tac t, simp_all)
  have q: "length (se_queue ep) \<le> kMaxQueuedFrames" using assms(1) by (simp add: wf_endpoint_def)
  consider (early) "se_admission_suspended ep \<or> is_response frame \<or> \<not> needs_store frame tv \<or> store_full ep"
    | (gate) i ep1 where "\<not> se_admission_suspended ep" "\<not> is_response frame" "tv" "?cat \<in> {Standard, Cancellation}"
        "claim_slot ep = Some (i, ep1)"
    | (kind) i ep1 where "\<not> se_admission_suspended ep" "\<not> is_response frame" "?cat \<notin> {Standard, Cancellation}"
        "claim_slot ep = Some (i, ep1)"
    unfolding store_full_iff needs_store_def by fastforce
  then show ?thesis
  proof cases
    case early
    then show ?thesis
      using cat q assms(2)
      by (auto simp: admit_with_ack_def is_response_def header_is_request_def outcome_def needs_store_def
          store_full_iff admit_under_tscf_gate_def submit_def kMaxQueuedFrames_def Let_def)
  next
    case gate
    then show ?thesis
      using cat claim_slot_Some [OF gate(5)] store_full_iff [of ep]
      by (auto simp: admit_with_ack_def is_response_def header_is_request_def outcome_def needs_store_def
          admit_gate_eq [OF assms(1)] pending_def pending_default_def Let_def)
  next
    case kind
    let ?s = "pending_default\<lparr>pr_sequence := se_next_sequence ep, pr_category := ?cat, pr_request_type := ?pk\<rparr>"
    have ns: "needs_store frame tv" "\<not> store_full ep" using kind by (simp_all add: needs_store_def store_full_iff)
    have free: "pending i ep = None" "\<forall>j < i. pending j ep \<noteq> None"
      using claim_slot_Some [OF kind(4)] by (auto simp: pending_def)
    note eq = admit_conditional_eq [OF assms(1) kind(1,2,3,4) refl, of now tv ts ref]
    show ?thesis
    proof (cases "decode_kind ?cat frame ?s")
      case (Inl err)
      then show ?thesis
        using decode_kind_error [OF Inl] kind(1-3) ns by (simp add: eq outcome_def)
    next
      case (Inr s')
      let ?slot = "s'\<lparr>pr_has_presentation_gate := tv,
        pr_presentation_gate_ns := if tv then extend_timestamp ts ref else 0, pr_armed_at := now, pr_frame := frame\<rparr>"
      have "\<exists>j s. Some i = Some j \<and> pending j ep = None \<and> (\<forall>k < j. pending k ep \<noteq> None) \<and>
          (se_pending ep)[i := Some ?slot] = (se_pending ep)[j := Some s] \<and> pr_frame s = frame \<and>
          pr_request_type s = ?pk \<and> pr_sequence s = se_next_sequence ep \<and>
          \<not> pr_armed s \<and> pr_armed_at s = now \<and> pr_has_presentation_gate s = tv \<and>
          (tv \<longrightarrow> pr_presentation_gate_ns s = extend_timestamp ts ref)"
        by (rule exI [of _ i], rule exI [of _ ?slot])
          (use free decode_kind_keeps [OF Inr] in \<open>simp add: pending_default_def\<close>)
      then show ?thesis
        using kind(1,2) ns by (simp add: eq Inr outcome_def)
    qed
  qed
qed

section \<open>Encoded requests in the store\<close>

lemma gbb_first_header: "decode_acf_message_info (encode_acf_gbb info ts pl) = mask_info (gbb_header info pl)"
  by (simp add: encode_gbb_eq encode_acf_gbb_message_info_def)

lemma opcode_octet:
  assumes "length params = 7"
  shows "encode_acf_gbb info (encode_request_type type params) pl ! 8 = opcode_byte type"
proof -
  obtain a b c d e f g where p: "params = [a, b, c, d, e, f, g]" using list7 [OF assms] by blast
  have "ucast (drop_bit 56 (encode_request_type type params)) = opcode_byte type"
    by (simp add: encode_request_type_def upt_7 p bits)
  then show ?thesis
    by (simp add: encode_gbb_eq encode_acf_gbb_message_info_def nth_append put_u64_def upt_8)
qed

lemma peek_encoded:
  assumes "\<not> a_mtv info" "length params = 7"
  shows "peek_request_type (encode_acf_gbb info (encode_request_type type params) pl) = Some type"
  using assms opcode_octet [OF assms(2), of info type pl]
  by (simp add: peek_request_type_def gbb_first_header is_valid_request_type_def Let_def wire_defs
      gbb_header_def mask_info_def) (simp add: encode_gbb_eq)

lemma not_response_encoded: "\<not> a_rsp info \<Longrightarrow> \<not> is_response (encode_acf_gbb info ts pl)"
  by (simp add: is_response_def gbb_first_header gbb_header_def mask_info_def fill_length_def)

lemma peek_encoders:
  "peek_request_type (encode_compound_request type bus cstep evt txn pl) = Some type"
  "peek_request_type (encode_triggered_request type bus tstep txn pl) = Some type"
  "peek_request_type (encode_chained_member bus delay cs txn pl) = Some Chained"
  "encode_timed_request bus pt txn pl = Some frame \<Longrightarrow> peek_request_type frame = Some Timed"
  "\<not> is_response (encode_compound_request type bus cstep evt txn pl)"
  "\<not> is_response (encode_triggered_request type bus tstep txn pl)"
  "\<not> is_response (encode_chained_member bus delay cs txn pl)"
  "encode_timed_request bus pt txn pl = Some frame \<Longrightarrow> \<not> is_response frame"
  by (auto simp: request_encoders Let_def acf_default_def intro!: peek_encoded not_response_encoded split: if_splits)

definition stored_as ::
    "octets \<Rightarrow> u32 \<Rightarrow> bool \<Rightarrow> u32 \<Rightarrow> u64 \<Rightarrow> server_endpoint \<Rightarrow> (pending_request \<Rightarrow> bool) \<Rightarrow> bool" where
  "stored_as frame now tv ts ref ep P \<longleftrightarrow>
     (case admit_with_ack frame now tv ts ref ep of (r, ep') \<Rightarrow>
        ad_outcome r = Pending \<and>
        (case ad_index r of None \<Rightarrow> False
         | Some i \<Rightarrow> (case pending i ep' of None \<Rightarrow> False | Some s \<Rightarrow> P s)))"

lemma stored_by:
  assumes "wf_endpoint ep" "\<not> se_admission_suspended ep" "\<not> store_full ep" "\<not> is_response frame"
    "category_of (peek_request_type frame) \<notin> {Standard, Cancellation}"
    "decode_kind (category_of (peek_request_type frame)) frame
       (pending_default\<lparr>pr_sequence := se_next_sequence ep,
          pr_category := category_of (peek_request_type frame), pr_request_type := peek_request_type frame\<rparr>) = Inr s"
    "P (s\<lparr>pr_has_presentation_gate := tv,
          pr_presentation_gate_ns := if tv then extend_timestamp ts ref else 0, pr_armed_at := now,
          pr_frame := frame\<rparr>)"
  shows "stored_as frame now tv ts ref ep P"
proof -
  obtain i ep1 where c: "claim_slot ep = Some (i, ep1)" using assms(3) by (auto simp: store_full_iff)
  show ?thesis
    using assms(1,6,7) claim_slot_Some [OF c]
    by (simp add: stored_as_def admit_conditional_eq [OF assms(1,2,4,5) c refl] outcome_def pending_def
        wf_endpoint_def)
qed

text \<open>
  C27. A request that a client encodes is stored with the meaning it was given: the step of a
  compound request, the comparison of a compound-wait request (whose reserved mode is refused
  with the wire error for it), the trigger of a triggered one, counting from zero, the time of a
  timed one and the delay and abort flag of a chained one, each under its transaction number.
\<close>

theorem encoded_requests_stored:
  assumes "wf_endpoint ep" "\<not> se_admission_suspended ep" "\<not> store_full ep" "bus < 0x800"
  shows "(is_compound t \<and> evt < 8 \<longrightarrow>
      stored_as (encode_compound_request t bus cstep evt txn pl) now tv ts ref ep
        (\<lambda>s. pr_category s = CompoundCat \<and> pr_compound s = cstep \<and> pr_transaction_num s = txn)) \<and>
    (is_compound_wait t \<and> evt < 8 \<longrightarrow>
      (if compound_wait_evt_valid evt
       then stored_as (encode_compound_request t bus cstep evt txn pl) now tv ts ref ep
         (\<lambda>s. pr_category s = CompoundWaitCat \<and> pr_compound s = cstep \<and> pr_compound_wait_evt s = evt \<and>
            pr_compound_wait_target s = pl \<and> pr_transaction_num s = txn)
       else ad_error (fst (admit_with_ack (encode_compound_request t bus cstep evt txn pl) now tv ts ref ep)) =
         Some UnsupportedCmd)) \<and>
    (is_triggered t \<longrightarrow>
      stored_as (encode_triggered_request t bus tstep txn pl) now tv ts ref ep
        (\<lambda>s. pr_category s = TriggeredCat \<and> pr_triggered s = tstep \<and> pr_transaction_num s = txn \<and>
           rt_occurrence_count (pr_triggered_runtime s) = 0)) \<and>
    stored_as (encode_chained_member bus delay cs txn pl) now tv ts ref ep
      (\<lambda>s. pr_category s = ChainedCat \<and> pr_chain_exec_delay s = delay \<and> pr_chain_cs s = cs \<and>
         pr_transaction_num s = txn) \<and>
    (case encode_timed_request bus pt txn pl of
       None \<Rightarrow> kTimedPresentationTimeMax < pt
     | Some frame \<Rightarrow> stored_as frame now tv ts ref ep
         (\<lambda>s. pr_category s = TimedCat \<and> pr_presentation_time s = pt \<and> pr_transaction_num s = txn))"
proof (intro conjI impI)
  assume t: "is_compound t \<and> evt < 8"
  then have "category_of (Some t) = CompoundCat" by (auto simp: is_compound_def)
  then show "stored_as (encode_compound_request t bus cstep evt txn pl) now tv ts ref ep
        (\<lambda>s. pr_category s = CompoundCat \<and> pr_compound s = cstep \<and> pr_transaction_num s = txn)"
    using t assms(4) compound.dec_enc [of "\<lparr>cr_type = t, cr_byte_bus_id = bus, cr_step = cstep, cr_evt_op = evt,
        cr_transaction_num = txn, cr_payload = pl\<rparr>"]
    by (intro stored_by [OF assms(1-3)]) (simp_all add: peek_encoders decode_kind_def)+
next
  assume t: "is_compound_wait t \<and> evt < 8"
  let ?f = "encode_compound_request t bus cstep evt txn pl"
  have cat: "category_of (Some t) = CompoundWaitCat" using t by (auto simp: is_compound_wait_def)
  have dec: "decode_compound_request ?f = Inr \<lparr>cr_type = t, cr_byte_bus_id = bus, cr_step = cstep, cr_evt_op = evt,
        cr_transaction_num = txn, cr_payload = pl\<rparr>"
    using t assms(4) compound.dec_enc [of "\<lparr>cr_type = t, cr_byte_bus_id = bus, cr_step = cstep, cr_evt_op = evt,
        cr_transaction_num = txn, cr_payload = pl\<rparr>"] by simp
  show "if compound_wait_evt_valid evt then stored_as ?f now tv ts ref ep
         (\<lambda>s. pr_category s = CompoundWaitCat \<and> pr_compound s = cstep \<and> pr_compound_wait_evt s = evt \<and>
            pr_compound_wait_target s = pl \<and> pr_transaction_num s = txn)
       else ad_error (fst (admit_with_ack ?f now tv ts ref ep)) = Some UnsupportedCmd"
  proof (cases "compound_wait_evt_valid evt")
    case True
    then show ?thesis
      using cat dec by (simp, intro stored_by [OF assms(1-3)]) (simp_all add: peek_encoders decode_kind_def)+
  next
    case False
    obtain i ep1 where c: "claim_slot ep = Some (i, ep1)" using assms(3) by (auto simp: store_full_iff)
    show ?thesis
      using False cat dec admit_conditional_eq [OF assms(1,2) _ _ c refl, of ?f now tv ts ref]
      by (simp add: peek_encoders decode_kind_def outcome_def)
  qed
next
  assume t: "is_triggered t"
  then have "category_of (Some t) = TriggeredCat" by (auto simp: is_triggered_def)
  then show "stored_as (encode_triggered_request t bus tstep txn pl) now tv ts ref ep
        (\<lambda>s. pr_category s = TriggeredCat \<and> pr_triggered s = tstep \<and> pr_transaction_num s = txn \<and>
           rt_occurrence_count (pr_triggered_runtime s) = 0)"
    using t assms(4) triggered.dec_enc [of "\<lparr>tr_type = t, tr_byte_bus_id = bus, tr_step = tstep,
        tr_transaction_num = txn, tr_payload = pl\<rparr>"]
    by (intro stored_by [OF assms(1-3)]) (simp_all add: peek_encoders decode_kind_def triggered_enter_started_def)+
next
  show "stored_as (encode_chained_member bus delay cs txn pl) now tv ts ref ep
      (\<lambda>s. pr_category s = ChainedCat \<and> pr_chain_exec_delay s = delay \<and> pr_chain_cs s = cs \<and>
         pr_transaction_num s = txn)"
    using assms(4) chained.dec_enc [of "\<lparr>ch_byte_bus_id = bus, ch_exec_delay = delay, ch_cs = cs,
        ch_transaction_num = txn, ch_payload = pl\<rparr>"]
    by (intro stored_by [OF assms(1-3)]) (simp_all add: peek_encoders decode_kind_def)+
next
  show "case encode_timed_request bus pt txn pl of
       None \<Rightarrow> kTimedPresentationTimeMax < pt
     | Some frame \<Rightarrow> stored_as frame now tv ts ref ep
         (\<lambda>s. pr_category s = TimedCat \<and> pr_presentation_time s = pt \<and> pr_transaction_num s = txn)"
  proof (cases "encode_timed_request bus pt txn pl")
    case None
    then show ?thesis by (simp add: encode_timed_request_def Let_def split: if_splits)
  next
    case (Some frame)
    then have "\<not> kTimedPresentationTimeMax < pt" by (auto simp: encode_timed_request_def)
    then have "stored_as frame now tv ts ref ep
         (\<lambda>s. pr_category s = TimedCat \<and> pr_presentation_time s = pt \<and> pr_transaction_num s = txn)"
      using Some assms(4) timed.dec_enc [of "\<lparr>td_byte_bus_id = bus, td_presentation_time = pt,
        td_transaction_num = txn, td_payload = pl\<rparr>"]
      by (intro stored_by [OF assms(1-3)]) (simp_all add: decode_kind_def peek_encoders(4,8) [OF Some] not_less)+
    then show ?thesis using Some by simp
  qed
qed

section \<open>Requests under a presentation gate\<close>

text \<open>
  A standard request that is stored only because of its presentation time is stored without its
  transaction number: clear-single does not find it under its own number and finds it under
  number 0.
\<close>

definition gated_sample :: server_endpoint where
  "gated_sample = snd (admit_with_ack (encode_acf_abb (acf_default\<lparr>a_transaction_num := 9\<rparr>) [1, 2, 3, 4])
     0 True 5 0 (new_endpoint True))"

lemma gated_request_loses_number:
  assumes "wf_endpoint ep" "\<not> store_full ep"
  shows "\<exists>i s. pending i (snd (admit_under_tscf_gate frame now ns cat type ep)) = Some s \<and>
    pr_frame s = frame \<and> pr_transaction_num s = 0"
proof -
  obtain i ep1 where c: "claim_slot ep = Some (i, ep1)" using assms(2) by (auto simp: store_full_iff)
  then show ?thesis
    using claim_slot_Some [OF c] assms(1)
    by (intro exI [of _ i]) (simp add: admit_gate_eq pending_def wf_endpoint_def [of ep] pending_default_def)
qed

lemma gated_request_not_cancelled_by_number:
  "fst (cancel_single_pending 9 Cl_queued gated_sample) = Cr_not_found \<and>
   fst (cancel_single_pending 0 Cl_queued gated_sample) = Cr_canceled"
  by code_simp

section \<open>Witnesses\<close>

definition repeating_step :: compound_step where
  "repeating_step = \<lparr>cs_start_state = 1, cs_next_state = 2, cs_sequencer_index = 0, cs_exec_delay = 3,
     cs_repeat_count = 2\<rparr>"

definition sample_request :: octets where
  "sample_request = encode_compound_request Compound 0x123 repeating_step 0 7 [1, 2]"

definition sample_context :: tick_context where
  "sample_context = \<lparr>tc_now = 10, tc_gptp_now = 0, tc_gptp_locked = False, tc_sequencers = Some [1, 1],
     tc_endpoint_idle = True, tc_in_safe_state = False, tc_current_status = []\<rparr>"

definition sample_endpoint :: server_endpoint where
  "sample_endpoint = endpoint_run True
     [Admit sample_request 5 False 0 0, Select (sample_context\<lparr>tc_now := 6\<rparr>)]"

lemma sample_endpoint_wf: "wf_endpoint sample_endpoint"
  unfolding sample_endpoint_def by (rule wf_run)

lemma sample_selected: "fst (select_due sample_context sample_endpoint) = Some 0"
  by code_simp

lemma sample_stored:
  "map_option (\<lambda>s. (pr_category s, repeat_count_of s, pr_transaction_num s)) (pending 0 sample_endpoint) =
     Some (CompoundCat, 2, 7)"
  by code_simp

lemma reachable_endpoint_wf_witness:
  "length (se_pending sample_endpoint) = 32 \<and> se_pending_count sample_endpoint \<le> 32"
  using reachable_endpoint_wf [OF sample_endpoint_def] by simp

lemma select_due_serves_best_witness: "due_now sample_endpoint sample_context (se_pending sample_endpoint ! 0)"
  using select_due_serves_best [OF sample_endpoint_wf, of sample_context] by (simp add: sample_selected)

lemma selected_request_may_run_witness:
  "\<exists>s. pending 0 (snd (select_due sample_context sample_endpoint)) = Some s \<and> pr_armed s"
  using selected_request_may_run [OF sample_endpoint_wf, of sample_context 0 "snd (select_due sample_context sample_endpoint)"]
    sample_selected by (metis prod.collapse)

lemma repetitions_exact_witness:
  "\<exists>s. pending 0 (completions 0 [sample_context] sample_endpoint) = Some s \<and> unat (repeat_count_of s) = 1"
proof -
  obtain s where s: "pending 0 sample_endpoint = Some s" "pr_category s = CompoundCat" "repeat_count_of s = 2"
    using sample_stored by auto
  then show ?thesis
    using repetitions_exact [OF sample_endpoint_wf s(1), of "[sample_context]"]
    by (auto simp: repeats_def split: option.splits)
qed

lemma cancellations_exact_witness:
  "fst (cancel_all_pending sample_endpoint) = se_pending_count sample_endpoint \<and>
   pending 0 (snd (cancel_all_pending sample_endpoint)) = None"
  using cancellations_exact [OF sample_endpoint_wf] by blast

lemma admission_exact_witness:
  "ad_outcome (fst (admit_with_ack [] 0 False 0 0 (new_endpoint False))) = Queued"
  using admission_exact [OF wf_new [of False], where frame = "[]" and tv = False and now = 0 and ts = 0 and ref = 0]
  by (simp add: case_prod_unfold new_endpoint_def is_response_def needs_store_def peek_request_type_def
      is_config_request_def wire_defs)

lemma encoded_requests_stored_witness:
  "stored_as sample_request 5 False 0 0 (new_endpoint True) (\<lambda>s. pr_compound s = repeating_step)"
proof -
  have "\<not> store_full (new_endpoint True)"
    by (auto simp: store_full_def new_endpoint_def pending_def kMaxPending_def intro: exI [of _ 0])
  then have "stored_as sample_request 5 False 0 0 (new_endpoint True)
      (\<lambda>s. pr_category s = CompoundCat \<and> pr_compound s = repeating_step \<and> pr_transaction_num s = 7)"
    using encoded_requests_stored [OF wf_new [of True], where bus = "0x123" and t = Compound and evt = 0 and
      cstep = repeating_step and txn = 7 and pl = "[1, 2]" and now = 5 and tv = False and ts = 0 and ref = 0]
    by (simp add: new_endpoint_def is_compound_def sample_request_def)
  then show ?thesis by (auto simp: stored_as_def split: prod.splits option.splits)
qed

end
