(* ===== verification/Discovery.thy ===== *)
theory Discovery
  imports Avtp Acf_Response Fragment Lifecycle General_Map
begin

text \<open>
  Discovery, \<open>include/rcp/discovery.hpp\<close>: the read of bus 0 that every server answers, the
  response with the server's identity in one message or in fragments, the exclusive claim of the
  discovery stream for configuration, and the client's cache of results.
\<close>

section \<open>Frames\<close>

definition kDiscoveryByteBusId :: u16 where "kDiscoveryByteBusId = kEp0Bus"

definition kDiscoveryDefaultReadSize :: u16 where "kDiscoveryDefaultReadSize = 4"

definition kDiscoveryGeneralSliceLen :: nat where "kDiscoveryGeneralSliceLen = 14"

datatype discovery_errc =
    Short_frame | Tscf_headed_request_dropped | Bad_msg_type | Wrong_bus | Wrong_op

definition should_drop_discovery :: "u8 \<Rightarrow> bool" where
  "should_drop_discovery avtp_subtype \<longleftrightarrow> avtp_subtype \<noteq> kSubtypeNtscf"

definition decode_common_frame ::
    "octets \<Rightarrow> discovery_errc + (ntscf_header \<times> acf_info \<times> octets)" where
  "decode_common_frame buf =
     (if length buf < 1 then Inl Short_frame
      else if should_drop_discovery (buf ! 0) then Inl Tscf_headed_request_dropped
      else
        (case decode_ntscf_header buf of
           Inl ec \<Rightarrow> if ec = Avtp_err Short_buffer then Inl Short_frame else Inl Tscf_headed_request_dropped
         | Inr hdr \<Rightarrow>
             if length buf < kNtscfHeaderLen then Inl Short_frame
             else
               (case decode_acf_abb (drop kNtscfHeaderLen buf) of
                  Inl ec \<Rightarrow> if ec = Avtp_err Short_buffer then Inl Short_frame else Inl Bad_msg_type
                | Inr (info, payload) \<Rightarrow>
                    if a_byte_bus_id info \<noteq> kDiscoveryByteBusId then Inl Wrong_bus
                    else if a_op info then Inl Wrong_op
                    else Inr (hdr, info, payload))))"

text \<open>An NTSCF frame around one message, as all three encoders build it.\<close>

definition frame_of :: "stream_id \<Rightarrow> u8 \<Rightarrow> octets \<Rightarrow> octets" where
  "frame_of stream_id sequence_num acf_msg =
     encode_ntscf_header
       \<lparr>n_sv = True, n_version = 0, n_stream_id = stream_id, n_sequence_num = sequence_num,
        n_control_data_length = of_nat (length acf_msg)\<rparr> @ acf_msg"

definition make_discovery_request :: "u8 \<Rightarrow> u16 \<Rightarrow> acf_info" where
  "make_discovery_request transaction_num read_size =
     make_standard_request kDiscoveryByteBusId transaction_num False read_size"

definition encode_discovery_request :: "stream_id \<Rightarrow> u8 \<Rightarrow> u8 \<Rightarrow> u16 \<Rightarrow> octets" where
  "encode_discovery_request stream_id sequence_num transaction_num read_size =
     frame_of stream_id sequence_num
       (encode_acf_abb (make_discovery_request transaction_num read_size) [])"

definition decode_discovery_request ::
    "octets \<Rightarrow> discovery_errc + (ntscf_header \<times> acf_info \<times> octets)" where
  "decode_discovery_request buf = decode_common_frame buf"

definition should_answer_discovery :: "server_state \<Rightarrow> bool" where
  "should_answer_discovery state = True"

section \<open>Responses\<close>

definition build_general_slice_payload :: "general_map \<Rightarrow> u8 \<Rightarrow> octets" where
  "build_general_slice_payload gm read_size =
     (let slice = put_u32 (gm_magic gm) @ put_u32 (gm_svr_version gm) @ put_u16 (gm_vendor_id gm) @
            put_u16 (gm_device_id gm) @ put_u16 (gm_svr_ep_count gm);
          copy_len = min (unat read_size) kDiscoveryGeneralSliceLen
      in take copy_len slice @ replicate (unat read_size - copy_len) 0)"

definition make_discovery_response :: "u8 \<Rightarrow> u8 \<Rightarrow> acf_info" where
  "make_discovery_response read_size transaction_num =
     acf_default\<lparr>a_byte_bus_id := kDiscoveryByteBusId, a_op := False, a_rsp := True,
       a_read_size := ucast read_size, a_transaction_num := transaction_num\<rparr>"

definition encode_discovery_response :: "general_map \<Rightarrow> stream_id \<Rightarrow> u8 \<Rightarrow> u8 \<Rightarrow> u8 \<Rightarrow> octets" where
  "encode_discovery_response gm server_stream_id sequence_num transaction_num read_size =
     frame_of server_stream_id sequence_num
       (encode_acf_abb (make_discovery_response read_size transaction_num)
         (build_general_slice_payload gm read_size))"

record discovery_result =
  dr_valid :: bool
  dr_server_stream_id :: stream_id
  dr_magic :: u32
  dr_svr_version :: u32
  dr_vendor_id :: u16
  dr_device_id :: u16
  dr_svr_ep_count :: u16

definition result_of :: "stream_id \<Rightarrow> octets \<Rightarrow> discovery_result" where
  "result_of stream_id payload =
     \<lparr>dr_valid = True, dr_server_stream_id = stream_id, dr_magic = get_u32 payload,
      dr_svr_version = get_u32 (drop 4 payload), dr_vendor_id = get_u16 (drop 8 payload),
      dr_device_id = get_u16 (drop 10 payload), dr_svr_ep_count = get_u16 (drop 12 payload)\<rparr>"

definition decode_discovery_response :: "octets \<Rightarrow> discovery_errc + discovery_result" where
  "decode_discovery_response buf =
     (case decode_common_frame buf of
        Inl ec \<Rightarrow> Inl ec
      | Inr (hdr, info, payload) \<Rightarrow>
          if length payload < kDiscoveryGeneralSliceLen then Inl Short_frame
          else Inr (result_of (n_stream_id hdr) payload))"

definition discovery_response_fragment_count :: "u8 \<Rightarrow> nat \<Rightarrow> nat" where
  "discovery_response_fragment_count read_size max_fragment_payload =
     plan_count (unat read_size) max_fragment_payload"

definition fragment_header :: "u8 \<Rightarrow> u8 \<Rightarrow> segment \<Rightarrow> acf_info" where
  "fragment_header transaction_num read_size seg =
     acf_default\<lparr>a_byte_bus_id := kDiscoveryByteBusId, a_op := False, a_rsp := True,
       a_transaction_num := transaction_num, a_ms := sg_ms seg,
       a_read_size := (if sg_ms seg then sg_segment_num seg else ucast read_size)\<rparr>"

definition encode_discovery_response_fragmented ::
    "general_map \<Rightarrow> stream_id \<Rightarrow> u8 \<Rightarrow> u8 \<Rightarrow> u8 \<Rightarrow> nat \<Rightarrow> octets list" where
  "encode_discovery_response_fragmented gm server_stream_id sequence_num transaction_num read_size
      max_fragment_payload =
     (let count = discovery_response_fragment_count read_size max_fragment_payload in
      if count = 0 then []
      else
        (case plan (unat read_size) max_fragment_payload count of
           Inl ec \<Rightarrow> []
         | Inr segs \<Rightarrow>
             (let payload = build_general_slice_payload gm read_size in
              map (\<lambda>seg. frame_of server_stream_id sequence_num
                (encode_acf_abb (fragment_header transaction_num read_size seg)
                  (take (sg_len seg) (drop (sg_offset seg) payload)))) segs)))"

text \<open>The stream, the fragment flag, the segment number as an octet, and the slice.\<close>

definition decode_discovery_response_fragment ::
    "octets \<Rightarrow> discovery_errc + (stream_id \<times> bool \<times> u8 \<times> octets)" where
  "decode_discovery_response_fragment buf =
     (case decode_common_frame buf of
        Inl ec \<Rightarrow> Inl ec
      | Inr (hdr, info, payload) \<Rightarrow> Inr (n_stream_id hdr, a_ms info, ucast (a_read_size info), payload))"

definition decode_discovery_reassembled_response ::
    "octets \<Rightarrow> stream_id \<Rightarrow> discovery_errc + discovery_result" where
  "decode_discovery_reassembled_response reassembled server_stream_id =
     (if length reassembled < kDiscoveryGeneralSliceLen then Inl Short_frame
      else Inr (result_of server_stream_id reassembled))"

section \<open>The claim\<close>

text \<open>Time points and the timeout are counts of the steady clock.\<close>

datatype claim_outcome = NotEligible | Claimed | AlreadyHeld | HeldByOther

record discovery_claim =
  cl_timeout :: int
  cl_holder :: "nat option"
  cl_claimed_at :: int

definition new_claim :: "int \<Rightarrow> discovery_claim" where
  "new_claim timeout = \<lparr>cl_timeout = timeout, cl_holder = None, cl_claimed_at = 0\<rparr>"

definition lapsed :: "discovery_claim \<Rightarrow> int \<Rightarrow> bool" where
  "lapsed c now \<longleftrightarrow> cl_holder c = None \<or> cl_timeout c \<le> now - cl_claimed_at c"

definition on_discovery_request ::
    "nat \<Rightarrow> server_state \<Rightarrow> int \<Rightarrow> discovery_claim \<Rightarrow> claim_outcome \<times> discovery_claim" where
  "on_discovery_request client server_state now c =
     (if server_state \<noteq> Hw_unconfigured \<and> server_state \<noteq> Hw_configured then (NotEligible, c)
      else if cl_holder c \<noteq> None \<and> \<not> lapsed c now
      then (if cl_holder c = Some client then AlreadyHeld else HeldByOther, c)
      else (Claimed, c\<lparr>cl_holder := Some client, cl_claimed_at := now\<rparr>))"

definition may_configure :: "nat \<Rightarrow> int \<Rightarrow> discovery_claim \<Rightarrow> bool" where
  "may_configure client now c \<longleftrightarrow> cl_holder c = Some client \<and> \<not> lapsed c now"

definition on_configuration_request :: "nat \<Rightarrow> int \<Rightarrow> discovery_claim \<Rightarrow> bool \<times> discovery_claim" where
  "on_configuration_request client now c =
     (if \<not> may_configure client now c then (False, c) else (True, c\<lparr>cl_claimed_at := now\<rparr>))"

definition has_active_claim :: "int \<Rightarrow> discovery_claim \<Rightarrow> bool" where
  "has_active_claim now c \<longleftrightarrow> cl_holder c \<noteq> None \<and> \<not> lapsed c now"

definition current_holder :: "int \<Rightarrow> discovery_claim \<Rightarrow> nat option" where
  "current_holder now c = (if has_active_claim now c then cl_holder c else None)"

definition release_claim :: "discovery_claim \<Rightarrow> discovery_claim" where
  "release_claim c = c\<lparr>cl_holder := None\<rparr>"

definition set_timeout :: "int \<Rightarrow> discovery_claim \<Rightarrow> discovery_claim" where
  "set_timeout timeout c = c\<lparr>cl_timeout := timeout\<rparr>"

section \<open>The client's cache\<close>

fun cache_put :: "discovery_result \<Rightarrow> discovery_result list \<Rightarrow> discovery_result list" where
  "cache_put result [] = [result]"
| "cache_put result (entry # entries) =
     (if dr_server_stream_id entry = dr_server_stream_id result then result # entries
      else entry # cache_put result entries)"

definition cache_find :: "stream_id \<Rightarrow> discovery_result list \<Rightarrow> discovery_result option" where
  "cache_find stream_id entries = find (\<lambda>entry. dr_server_stream_id entry = stream_id) entries"

section \<open>Frames survive\<close>

lemma decode_frame:
  assumes "wf_stream_id sid"
  shows "decode_common_frame (frame_of sid seq (encode_acf_abb info payload)) =
    (if a_byte_bus_id info AND 0x7FF \<noteq> kDiscoveryByteBusId then Inl Wrong_bus
     else if a_op info then Inl Wrong_op
     else Inr (\<lparr>n_sv = True, n_version = 0, n_stream_id = sid, n_sequence_num = seq,
        n_control_data_length = of_nat (length (encode_acf_abb info payload)) AND kNtscfDataLengthMask\<rparr>,
        mask_info (abb_header info payload), payload))"
proof -
  let ?h = "\<lparr>n_sv = True, n_version = 0, n_stream_id = sid, n_sequence_num = seq,
        n_control_data_length = of_nat (length (encode_acf_abb info payload))\<rparr>"
  have sub: "(encode_ntscf_header h @ r) ! 0 = kSubtypeNtscf" for h r
    by (simp add: encode_ntscf_header_def Let_def)
  have ne: "encode_ntscf_header ?h \<noteq> []"
    using ntscf_len [of ?h] by (metis kNtscfHeaderLen_def list.size(3) zero_neq_numeral)
  have "a_byte_bus_id (mask_info (abb_header info payload)) = a_byte_bus_id info AND 0x7FF"
    "a_op (mask_info (abb_header info payload)) = a_op info"
    by (simp_all add: mask_info_def abb_header_def fill_length_def)
  then show ?thesis
    using decode_encode_ntscf [of ?h] assms sub ne kNtscfHeaderLen_def
    by (simp add: decode_common_frame_def frame_of_def should_drop_discovery_def decode_encode_abb Let_def)
qed

lemma kDiscoveryByteBusId_zero [simp]: "kDiscoveryByteBusId AND 0x7FF = kDiscoveryByteBusId"
  by (simp add: kDiscoveryByteBusId_def kEp0Bus_def)

definition identity_of :: "stream_id \<Rightarrow> general_map \<Rightarrow> discovery_result" where
  "identity_of stream_id gm =
     \<lparr>dr_valid = True, dr_server_stream_id = stream_id, dr_magic = gm_magic gm,
      dr_svr_version = gm_svr_version gm, dr_vendor_id = gm_vendor_id gm,
      dr_device_id = gm_device_id gm, dr_svr_ep_count = gm_svr_ep_count gm\<rparr>"

lemma slice_length_eq [simp]: "length (build_general_slice_payload gm read_size) = unat read_size"
proof -
  let ?slice = "put_u32 (gm_magic gm) @ put_u32 (gm_svr_version gm) @ put_u16 (gm_vendor_id gm) @
            put_u16 (gm_device_id gm) @ put_u16 (gm_svr_ep_count gm)"
  have "length ?slice = 14" by simp
  then have "length (take k ?slice @ replicate (n - k) (0 :: u8)) = n" if "k \<le> 14" "k \<le> n" for k n
    using that by (metis add_diff_inverse_nat length_append length_replicate length_take min.absorb2 not_le)
  then show ?thesis
    by (simp add: build_general_slice_payload_def kDiscoveryGeneralSliceLen_def Let_def del: length_append)
qed

lemma result_of_slice:
  "14 \<le> unat read_size \<Longrightarrow> result_of sid (build_general_slice_payload gm read_size) = identity_of sid gm"
  by (simp add: build_general_slice_payload_def kDiscoveryGeneralSliceLen_def Let_def result_of_def
      identity_of_def drop_puts)

text \<open>
  A discovery response tells its reader the server's identity: decoding what the server
  encodes from its general map gives the stream, the magic number, the version, the vendor, the
  device and the number of endpoints, whenever at least the 14 octets of these fields were
  asked for; a shorter read is reported as a short frame.
\<close>

theorem discovery_response_roundtrip:
  assumes "wf_stream_id sid"
  shows "decode_discovery_response (encode_discovery_response gm sid seq txn read_size) =
    (if unat read_size < 14 then Inl Short_frame else Inr (identity_of sid gm))"
  using assms result_of_slice [of read_size sid gm]
  by (simp add: decode_discovery_response_def encode_discovery_response_def decode_frame
      make_discovery_response_def acf_default_def kDiscoveryGeneralSliceLen_def not_less)

section \<open>Fragments\<close>

definition decoded_fragment :: "octets \<Rightarrow> fragment option" where
  "decoded_fragment buf =
     (case decode_discovery_response_fragment buf of
        Inl ec \<Rightarrow> None | Inr (sid, ms, num, payload) \<Rightarrow> Some (ms, ucast num, payload))"

lemma feed_last_num: "feed r False n payload = feed r False n' payload"
  by (simp add: feed_def)

text \<open>Fragments that the accumulator cannot tell apart.\<close>

definition same_fragment :: "fragment \<Rightarrow> fragment \<Rightarrow> bool" where
  "same_fragment f g \<longleftrightarrow> fst f = fst g \<and> snd (snd f) = snd (snd g) \<and> (fst f \<longrightarrow> fst (snd f) = fst (snd g))"

lemma feed_all_same: "list_all2 same_fragment fs gs \<Longrightarrow> feed_all r fs = feed_all r gs"
proof (induction arbitrary: r rule: list_all2_induct)
  case (Cons f fs g gs)
  obtain ms n p ms' n' p' where fg: "f = (ms, n, p)" "g = (ms', n', p')" by (metis prod.exhaust)
  have "feed r ms n p = feed r ms' n' p'"
    using Cons.hyps(1) feed_last_num by (cases ms) (auto simp: same_fragment_def fg)
  then show ?case using Cons.IH by (simp add: fg)
qed simp

lemma decoded_segment:
  assumes "wf_stream_id sid" "sg_ms seg \<longrightarrow> sg_segment_num seg < 256"
  shows "\<exists>f. decoded_fragment (frame_of sid seq (encode_acf_abb (fragment_header txn read_size seg) payload)) = Some f \<and>
    fst f = sg_ms seg \<and> snd (snd f) = payload \<and> (sg_ms seg \<longrightarrow> fst (snd f) = sg_segment_num seg)"
proof -
  have narrow: "ucast (ucast (n AND 0xFFF) :: u8) = n" if "n < 256" for n :: u16
  proof -
    have "ucast (ucast (n AND 0xFFF) :: u8) = n AND 0xFF" by (simp add: bits)
    then show ?thesis using that less_mask_eq [of n 8] by (simp add: mask_numeral)
  qed
  let ?h = "mask_info (abb_header (fragment_header txn read_size seg) payload)"
  have "a_byte_bus_id (fragment_header txn read_size seg) AND 0x7FF = kDiscoveryByteBusId"
    "\<not> a_op (fragment_header txn read_size seg)"
    by (simp_all add: fragment_header_def)
  then have d: "decode_discovery_response_fragment (frame_of sid seq (encode_acf_abb (fragment_header txn read_size seg) payload)) =
      Inr (sid, a_ms ?h, ucast (a_read_size ?h), payload)"
    by (simp add: decode_discovery_response_fragment_def decode_frame [OF assms(1)])
  have h: "a_ms ?h = sg_ms seg" "sg_ms seg \<Longrightarrow> a_read_size ?h = sg_segment_num seg AND 0xFFF"
    by (simp_all add: fragment_header_def mask_info_def abb_header_def fill_length_def)
  show ?thesis
    using assms(2) narrow by (simp add: decoded_fragment_def d h)
qed

text \<open>
  A response that is too long for one message arrives. For every fragment size for which the
  server produces fragments, decoding each frame and feeding the fragments in order to an
  accumulator that has room for the response completes with the last one, and the reassembled
  octets give the server's identity.
\<close>

theorem fragmented_discovery_arrives:
  assumes "wf_stream_id sid" "14 \<le> unat read_size" "m < 2 ^ 63" "unat read_size \<le> limit"
    "frames = encode_discovery_response_fragmented gm sid seq txn read_size m" "frames \<noteq> []"
  shows "list_all (\<lambda>f. decoded_fragment f \<noteq> None) frames \<and>
    (case feed_all (new_reassembler limit) (map (the \<circ> decoded_fragment) frames) of (results, r) \<Rightarrow>
       results = replicate (length frames - 1) KContinue @ [KComplete] \<and>
       decode_discovery_reassembled_response (ra_data r) sid = Inr (identity_of sid gm))"
proof -
  let ?n = "unat read_size" and ?xs = "build_general_slice_payload gm read_size"
  let ?c = "discovery_response_fragment_count read_size m"
  let ?frame = "\<lambda>seg. frame_of sid seq (encode_acf_abb (fragment_header txn read_size seg) (slice ?xs seg))"
  have n: "?n < 256" using unsigned_less [of read_size, where ?'a = nat] by simp
  obtain segs where segs: "plan ?n m ?c = Inr segs" "frames = map ?frame segs"
    using assms(5,6) unfolding encode_discovery_response_fragmented_def Let_def slice_def [symmetric]
    by (auto split: sum.splits if_splits)
  have b: "?n + m < 2 ^ 64" using n assms(3) by simp
  obtain k off where k: "segs = map (intermediate_segment m) [0..<k] @
      [\<lparr>sg_offset = off, sg_len = ?n - off, sg_ms = False, sg_segment_num = 0\<rparr>]"
    "off = k * m" "off \<le> ?n" "m = 0 \<longrightarrow> ?n = 0"
    using plan_eq [OF b segs(1)] by blast
  have "0 < m" using k(4) assms(2) by (cases m) auto
  then have "k \<le> k * m" by simp
  then have "k \<le> ?n" using k(2,3) by linarith
  then have small: "sg_ms seg \<longrightarrow> sg_segment_num seg < 256" if "seg \<in> set segs" for seg
    using that k(1) n by (auto simp: intermediate_segment_def word_less_nat_alt unat_of_nat)
  have dec: "decoded_fragment (?frame seg) \<noteq> None \<and>
      same_fragment (the (decoded_fragment (?frame seg))) (fragment_of ?xs seg)" if "seg \<in> set segs" for seg
    using decoded_segment [OF assms(1) small [OF that], of seq txn read_size "slice ?xs seg"]
    by (auto simp: same_fragment_def fragment_of_def)
  have "list_all2 same_fragment (map (the \<circ> decoded_fragment) frames) (map (fragment_of ?xs) segs)"
    using dec by (auto simp: segs(2) list_all2_map1 list_all2_map2 list_all2_same)
  then have "feed_all (new_reassembler limit) (map (the \<circ> decoded_fragment) frames) =
      feed_all (new_reassembler limit) (map (fragment_of ?xs) segs)"
    by (rule feed_all_same)
  moreover obtain r where "feed_all (new_reassembler limit) (map (fragment_of ?xs) segs) =
      (replicate (length segs - 1) KContinue @ [KComplete], r)" "ra_data r = ?xs"
    using plan_feeds_in_order [of ?xs m ?c segs limit] segs(1) b assms(4) n
    by (auto simp: kDefaultReassemblyCapacity_def)
  ultimately show ?thesis
    using dec assms(2) result_of_slice [OF assms(2), of sid gm]
    by (simp add: segs(2) list_all_iff decode_discovery_reassembled_response_def kDiscoveryGeneralSliceLen_def)
qed
section \<open>Exclusive configuration\<close>

datatype claim_call =
    Discover nat server_state int
  | Configure nat int

fun claim_do :: "claim_call \<Rightarrow> discovery_claim \<Rightarrow> discovery_claim" where
  "claim_do (Discover client state now) c = snd (on_discovery_request client state now c)"
| "claim_do (Configure client now) c = snd (on_configuration_request client now c)"

fun call_client :: "claim_call \<Rightarrow> nat" where
  "call_client (Discover client state now) = client"
| "call_client (Configure client now) = client"

fun call_time :: "claim_call \<Rightarrow> int" where
  "call_time (Discover client state now) = now"
| "call_time (Configure client now) = now"

text \<open>The call a client makes is answered with the permission it asked for.\<close>

fun granted :: "claim_call \<Rightarrow> discovery_claim \<Rightarrow> bool" where
  "granted (Discover client state now) c = (fst (on_discovery_request client state now c) \<in> {Claimed, AlreadyHeld})"
| "granted (Configure client now) c = fst (on_configuration_request client now c)"

lemma others_refused:
  assumes "cl_holder c = Some a" "call_client call \<noteq> a" "call_time call < cl_claimed_at c + cl_timeout c"
  shows "claim_do call c = c \<and> \<not> granted call c"
  using assms
  by (cases call)
     (auto simp: on_discovery_request_def on_configuration_request_def may_configure_def lapsed_def)

text \<open>
  The discovery stream is configured by one client at a time. While a claim runs, every call
  of another client is refused and changes nothing, whatever number of them is made, so the
  holder keeps it to the end of its timeout; each configuration request of the holder starts the
  timeout again; and when it has run out, or the claim is released, the next client that asks a
  server that is not live gets it. A live server grants no claim.
\<close>

theorem claim_is_exclusive:
  assumes "cl_holder c = Some a"
    "\<forall>call \<in> set calls. call_client call \<noteq> a \<and> call_time call < cl_claimed_at c + cl_timeout c"
  shows "fold claim_do calls c = c \<and> list_all (\<lambda>call. \<not> granted call c) calls \<and>
    (\<forall>t < cl_claimed_at c + cl_timeout c. may_configure a t c \<and>
       (case on_configuration_request a t c of (ok, c') \<Rightarrow>
          ok \<and> (\<forall>t' < t + cl_timeout c. may_configure a t' c'))) \<and>
    (\<forall>t \<ge> cl_claimed_at c + cl_timeout c. \<forall>b state.
       \<not> may_configure a t c \<and>
       on_discovery_request b state t c =
         (if state = Rcp_configured then (NotEligible, c)
          else (Claimed, c\<lparr>cl_holder := Some b, cl_claimed_at := t\<rparr>))) \<and>
    (\<forall>b t. fst (on_discovery_request b Rcp_configured t c) = NotEligible)"
proof -
  have "fold claim_do calls c = c \<and> list_all (\<lambda>call. \<not> granted call c) calls"
    using assms(2)
    by (induction calls) (simp_all add: others_refused [OF assms(1)])
  moreover have "state \<noteq> Hw_unconfigured \<Longrightarrow> state \<noteq> Hw_configured \<Longrightarrow> state = Rcp_configured" for state
    by (cases state) simp_all
  ultimately show ?thesis
    using assms(1)
    by (auto simp: may_configure_def lapsed_def on_configuration_request_def on_discovery_request_def)
qed

section \<open>The cache as a map\<close>

definition distinct_servers :: "discovery_result list \<Rightarrow> bool" where
  "distinct_servers entries \<longleftrightarrow> distinct (map dr_server_stream_id entries)"

lemma cache_find_simps [simp]:
  "cache_find sid [] = None"
  "cache_find sid (e # es) = (if dr_server_stream_id e = sid then Some e else cache_find sid es)"
  by (simp_all add: cache_find_def)

lemma cache_find_put:
  "cache_find sid (cache_put r es) = (if sid = dr_server_stream_id r then Some r else cache_find sid es)"
  by (induction es) auto

lemma streams_put: "set (map dr_server_stream_id (cache_put r es)) = insert (dr_server_stream_id r) (set (map dr_server_stream_id es))"
  by (induction es) auto

lemma distinct_put: "distinct_servers es \<Longrightarrow> distinct_servers (cache_put r es)"
proof (induction es)
  case (Cons e es)
  then show ?case using streams_put [of r es] by (auto simp: distinct_servers_def)
qed (simp add: distinct_servers_def)

text \<open>
  The cache is the map from servers to their latest result: after any sequence of results it
  has one entry for each server that answered, and finds for each server the last result put in.
\<close>

theorem cache_implements_map:
  "distinct_servers (fold cache_put results []) \<and>
   (\<lambda>sid. cache_find sid (fold cache_put results [])) =
     map_of (rev (map (\<lambda>r. (dr_server_stream_id r, r)) results)) \<and>
   length (fold cache_put results []) = card (dr_server_stream_id ` set results)"
proof (induction results rule: rev_induct)
  case Nil
  then show ?case by (simp add: distinct_servers_def fun_eq_iff)
next
  case (snoc r results)
  let ?es = "fold cache_put results []"
  have d: "distinct_servers (cache_put r ?es)" using snoc distinct_put by simp
  have "set (map dr_server_stream_id (fold cache_put rs [])) = dr_server_stream_id ` set rs" for rs
    by (induction rs rule: rev_induct) (simp_all add: streams_put del: set_map)
  then have "dr_server_stream_id ` set (cache_put r ?es) = dr_server_stream_id ` set (results @ [r])"
    by (metis fold_append fold_simps comp_apply set_map)
  moreover have "length (cache_put r ?es) = card (dr_server_stream_id ` set (cache_put r ?es))"
    using d by (metis distinct_card distinct_servers_def length_map set_map)
  ultimately show ?case
    using snoc d by (auto simp: fun_eq_iff cache_find_put)
qed

section \<open>Inputs\<close>

definition sample_server :: stream_id where
  "sample_server = \<lparr>mac = [0x02, 0, 0, 0, 0, 1], suffix = 7\<rparr>"

lemma discovery_response_roundtrip_witness:
  "decode_discovery_response (encode_discovery_response general_map_default sample_server 1 2 14) =
     Inr (identity_of sample_server general_map_default)"
  using discovery_response_roundtrip [of sample_server general_map_default 1 2 14]
  by (simp add: wf_stream_id_def sample_server_def)

lemma fragmented_discovery_arrives_witness:
  "length (encode_discovery_response_fragmented general_map_default sample_server 1 2 14 5) = 3 \<and>
   (\<exists>r. decode_discovery_reassembled_response r sample_server = Inr (identity_of sample_server general_map_default))"
proof -
  let ?frames = "encode_discovery_response_fragmented general_map_default sample_server 1 2 14 5"
  have "plan_count 14 5 = 3"
    by (simp add: plan_count_def Let_def size_add_def size_sub_def kMaxIntermediateSegments_def)
  moreover have "\<exists>segs. plan 14 5 3 = Inr segs \<and> length segs = 3"
    using calculation plan_loop_eq [of 2 5 0] by (simp add: plan_def numeral_2_eq_2)
  ultimately have l: "length ?frames = 3"
    by (auto simp: encode_discovery_response_fragmented_def discovery_response_fragment_count_def Let_def)
  then have "?frames \<noteq> []" by auto
  then show ?thesis
    using fragmented_discovery_arrives [of sample_server 14 5 100 ?frames general_map_default 1 2] l
    by (auto simp: wf_stream_id_def sample_server_def split: prod.splits)
qed

lemma claim_is_exclusive_witness:
  "fold claim_do [Discover 2 Hw_configured 15, Configure 3 19] \<lparr>cl_timeout = 20, cl_holder = Some 1, cl_claimed_at = 0\<rparr> =
     \<lparr>cl_timeout = 20, cl_holder = Some 1, cl_claimed_at = 0\<rparr>"
  using claim_is_exclusive [of "\<lparr>cl_timeout = 20, cl_holder = Some 1, cl_claimed_at = 0\<rparr>" 1
      "[Discover 2 Hw_configured 15, Configure 3 19]"] by simp

end
