(* ===== verification/Ep_Block.thy ===== *)
theory Ep_Block
  imports Acf_Response Endpoint Lifecycle Fragment Codec
begin

text \<open>
  What the endpoint types of \<open>include/rcp/\<close> have in common. Each keeps a copy of the same code:
  the five leading flags of its functional configuration and their two octets, the rule by which
  a configuration write is laid over the rendered registers, the checks with which a request or
  response is opened, and the construction of a configuration write and of a response with or
  without timestamp. It is modelled here once; the theories of the endpoint types apply it to
  their registers and messages. The locale \<open>register_block\<close> is the contract of a register block.
\<close>

section \<open>The common flags\<close>

text \<open>The first five fields of every \<open>...FunctionalCfg\<close>.\<close>

record ep_flags =
  ep_enable :: bool
  ep_clear_req_storage :: bool
  ep_req_crc_enable :: bool
  ep_response_ts_enable :: bool
  ep_suppress_response :: bool

definition kEnableClrBitEnable :: u8 where [wire_defs]: "kEnableClrBitEnable = 0x01"
definition kEnableClrBitClear :: u8 where [wire_defs]: "kEnableClrBitClear = 0x10"
definition kOptionsBitReqCrc :: u8 where [wire_defs]: "kOptionsBitReqCrc = 0x01"
definition kOptionsBitRespTs :: u8 where [wire_defs]: "kOptionsBitRespTs = 0x08"
definition kOptionsBitSuppress :: u8 where [wire_defs]: "kOptionsBitSuppress = 0x80"

text \<open>The octets at offsets 2 and 3 of a block, from the flags they hold.\<close>

definition enable_clr_octet :: "bool \<Rightarrow> bool \<Rightarrow> u8" where
  "enable_clr_octet enable clear =
     (if enable then kEnableClrBitEnable else 0) OR (if clear then kEnableClrBitClear else 0)"

definition options_octet :: "bool \<Rightarrow> bool \<Rightarrow> bool \<Rightarrow> u8" where
  "options_octet req_crc resp_ts suppress =
     (if req_crc then kOptionsBitReqCrc else 0) OR (if resp_ts then kOptionsBitRespTs else 0) OR
     (if suppress then kOptionsBitSuppress else 0)"

definition render_flags :: "'a ep_flags_scheme \<Rightarrow> octets" where
  "render_flags cfg =
     [enable_clr_octet (ep_enable cfg) (ep_clear_req_storage cfg),
      options_octet (ep_req_crc_enable cfg) (ep_response_ts_enable cfg) (ep_suppress_response cfg)]"

definition parse_flags :: "u8 \<Rightarrow> u8 \<Rightarrow> 'a ep_flags_scheme \<Rightarrow> 'a ep_flags_scheme" where
  "parse_flags enable_clr options cfg = cfg
     \<lparr>ep_enable := (enable_clr AND kEnableClrBitEnable \<noteq> 0),
      ep_clear_req_storage := (enable_clr AND kEnableClrBitClear \<noteq> 0),
      ep_req_crc_enable := (options AND kOptionsBitReqCrc \<noteq> 0),
      ep_response_ts_enable := (options AND kOptionsBitRespTs \<noteq> 0),
      ep_suppress_response := (options AND kOptionsBitSuppress \<noteq> 0)\<rparr>"

text \<open>What the flags keep of the two octets.\<close>

definition kept_flags :: "nat \<Rightarrow> u8 \<Rightarrow> u8" where
  "kept_flags a x = (if a = 2 then x AND 0x11 else if a = 3 then x AND 0x89 else x)"

lemma flag_octets [simp]:
  "enable_clr_octet (x AND kEnableClrBitEnable \<noteq> 0) (x AND kEnableClrBitClear \<noteq> 0) = x AND 0x11"
  "options_octet (x AND kOptionsBitReqCrc \<noteq> 0) (x AND kOptionsBitRespTs \<noteq> 0) (x AND kOptionsBitSuppress \<noteq> 0) =
     x AND 0x89"
  "enable_clr_octet e c AND 0x11 = enable_clr_octet e c"
  "options_octet r t s AND 0x89 = options_octet r t s"
  "enable_clr_octet e c AND kEnableClrBitEnable \<noteq> 0 \<longleftrightarrow> e"
  "enable_clr_octet e c AND kEnableClrBitClear \<noteq> 0 \<longleftrightarrow> c"
  "options_octet r t s AND kOptionsBitReqCrc \<noteq> 0 \<longleftrightarrow> r"
  "options_octet r t s AND kOptionsBitRespTs \<noteq> 0 \<longleftrightarrow> t"
  "options_octet r t s AND kOptionsBitSuppress \<noteq> 0 \<longleftrightarrow> s"
  by (auto simp: enable_clr_octet_def options_octet_def wire_defs bits)

lemmas flag_defs = render_flags_def parse_flags_def

text \<open>The two octets of a 16-bit register are its big-endian value.\<close>

lemma u16_octets [simp]:
  "ucast (drop_bit 8 (get_u16 p)) = p ! 0" "ucast (get_u16 p) = p ! Suc 0"
  "get_u16 (ucast (drop_bit 8 v) # ucast v # r) = v"
  by (simp_all add: get_u16_def bits)

text \<open>\<open>simp add: register_addresses\<close> writes out the addresses of a block.\<close>

lemma register_addresses: "2 < (numeral n :: nat) \<Longrightarrow> [0..<numeral n] = 0 # Suc 0 # [2..<numeral n]"
  by (simp add: upt_conv_Cons numeral_2_eq_2)

section \<open>Configuration writes\<close>

definition kReconfigAddrLen :: nat where "kReconfigAddrLen = 2"

text \<open>The loop over the data octets, which skips read-only registers.\<close>

primrec overlay :: "(nat \<Rightarrow> bool) \<Rightarrow> nat \<Rightarrow> octets \<Rightarrow> octets \<Rightarrow> octets" where
  "overlay read_only addr [] block = block"
| "overlay read_only addr (d # data) block =
     overlay read_only (addr + 1) data (if read_only addr then block else block[addr := d])"

text \<open>
  \<open>apply_reconfig\<close> with what differs between the endpoint types as arguments: the two error
  codes, the length of the block, the read-only registers, and how registers are rendered from a
  configuration and parsed into it.
\<close>

definition block_reconfig ::
    "'e \<Rightarrow> 'e \<Rightarrow> nat \<Rightarrow> (nat \<Rightarrow> bool) \<Rightarrow> ('c \<Rightarrow> octets) \<Rightarrow> (octets \<Rightarrow> 'c \<Rightarrow> 'c) \<Rightarrow>
      octets \<Rightarrow> 'c \<Rightarrow> 'e option \<times> 'c" where
  "block_reconfig short_payload out_of_range block_len read_only render parse payload cfg =
     (if length payload \<le> kReconfigAddrLen then (Some short_payload, cfg)
      else
        (let start_address = unat (get_u16 payload);
             data_len = length payload - kReconfigAddrLen
         in
          if block_len < start_address + data_len then (Some out_of_range, cfg)
          else
            (let block = overlay read_only start_address (drop kReconfigAddrLen payload) (render cfg)
             in (None, parse block cfg))))"

lemma length_overlay [simp]: "length (overlay read_only addr data block) = length block"
  by (induction data arbitrary: addr block) auto

lemma nth_overlay:
  "addr + length data \<le> length block \<Longrightarrow>
   overlay read_only addr data block ! a =
     (if addr \<le> a \<and> a < addr + length data \<and> \<not> read_only a then data ! (a - addr) else block ! a)"
proof (induction data arbitrary: addr block)
  case (Cons d data)
  have "(d # data) ! (a - addr) = data ! (a - Suc addr)" if "Suc addr \<le> a"
    using that by (simp add: nth_Cons Suc_diff_Suc split: nat.split) (metis Suc_diff_le diff_Suc_Suc old.nat.inject)
  then show ?case
    using Cons.prems by (auto simp: Cons.IH nth_list_update not_le le_Suc_eq less_Suc_eq)
qed auto

text \<open>
  What a configuration write does, stated for the \<open>apply_reconfig\<close> of an endpoint type: a payload
  without a data octet and one that leaves the block are refused with nothing changed; any other
  is accepted, each addressed register that is not read-only then reads as the data octet,
  reduced to the bits it has, every other register as before, and well-formedness is kept.
\<close>

definition config_write_exact ::
    "(octets \<Rightarrow> 'c \<Rightarrow> 'e option \<times> 'c) \<Rightarrow> ('c \<Rightarrow> octets) \<Rightarrow> nat \<Rightarrow> (nat \<Rightarrow> bool) \<Rightarrow> (nat \<Rightarrow> u8 \<Rightarrow> u8) \<Rightarrow>
      ('c \<Rightarrow> bool) \<Rightarrow> 'e \<Rightarrow> 'e \<Rightarrow> bool" where
  "config_write_exact apply_reconfig render block_len read_only normal valid short_payload out_of_range \<longleftrightarrow>
     (\<forall>payload cfg. valid cfg \<longrightarrow>
       (let start = unat (get_u16 payload); n = length payload - 2; (ec, cfg') = apply_reconfig payload cfg in
        if length payload \<le> 2 then ec = Some short_payload \<and> cfg' = cfg
        else if block_len < start + n then ec = Some out_of_range \<and> cfg' = cfg
        else ec = None \<and> valid cfg' \<and> length (render cfg') = block_len \<and>
          (\<forall>a < block_len. render cfg' ! a =
             (if start \<le> a \<and> a < start + n \<and> \<not> read_only a then normal a (payload ! (a - start + 2))
              else render cfg ! a))))"

text \<open>
  The contract: rendering gives \<open>block_len\<close> octets; after parsing, a read-only register reads as
  before and a writable one as what was stored, normalised to the bits it has; and a configuration
  whose fields fit their registers (as they do after every parse) is not changed by parsing its
  own registers.
\<close>

locale register_block =
  fixes block_len :: nat
    and read_only :: "nat \<Rightarrow> bool"
    and normal :: "nat \<Rightarrow> u8 \<Rightarrow> u8"
    and render :: "'c \<Rightarrow> octets"
    and parse :: "octets \<Rightarrow> 'c \<Rightarrow> 'c"
    and wf :: "'c \<Rightarrow> bool"
    and fits :: "'c \<Rightarrow> bool"
  assumes length_render: "wf cfg \<Longrightarrow> length (render cfg) = block_len"
    and render_parse: "wf cfg \<Longrightarrow> length block = block_len \<Longrightarrow> render (parse block cfg) =
      map (\<lambda>a. if read_only a then render cfg ! a else normal a (block ! a)) [0..<block_len]"
    and render_normal: "wf cfg \<Longrightarrow> map (\<lambda>a. normal a (render cfg ! a)) [0..<block_len] = render cfg"
    and parse_wf: "wf cfg \<Longrightarrow> length block = block_len \<Longrightarrow> wf (parse block cfg)"
    and parse_fits: "wf cfg \<Longrightarrow> length block = block_len \<Longrightarrow> fits (parse block cfg)"
    and parse_render: "wf cfg \<Longrightarrow> fits cfg \<Longrightarrow> parse (render cfg) cfg = cfg"
begin

lemma normal_rendered: "wf cfg \<Longrightarrow> a < block_len \<Longrightarrow> normal a (render cfg ! a) = render cfg ! a"
  using arg_cong [OF render_normal, where f = "\<lambda>xs. xs ! a"] by simp

abbreviation "reconfig \<equiv> \<lambda>short range. block_reconfig short range block_len read_only render parse"

lemma reconfig_short: "length payload \<le> 2 \<Longrightarrow> reconfig s r payload cfg = (Some s, cfg)"
  by (simp add: block_reconfig_def kReconfigAddrLen_def)

lemma reconfig_range:
  "2 < length payload \<Longrightarrow> block_len < unat (get_u16 payload) + (length payload - 2) \<Longrightarrow>
   reconfig s r payload cfg = (Some r, cfg)"
  by (simp add: block_reconfig_def kReconfigAddrLen_def)

lemma reconfig_accepts:
  "2 < length payload \<Longrightarrow> unat (get_u16 payload) + (length payload - 2) \<le> block_len \<Longrightarrow>
   reconfig s r payload cfg =
     (None, parse (overlay read_only (unat (get_u16 payload)) (drop 2 payload) (render cfg)) cfg)"
  by (simp add: block_reconfig_def kReconfigAddrLen_def Let_def)

lemma reconfig_registers:
  assumes "wf cfg" "2 < length payload" "unat (get_u16 payload) + (length payload - 2) \<le> block_len"
    "a < block_len"
  shows "render (snd (reconfig s r payload cfg)) ! a =
    (if unat (get_u16 payload) \<le> a \<and> a < unat (get_u16 payload) + (length payload - 2) \<and> \<not> read_only a
     then normal a (payload ! (a - unat (get_u16 payload) + 2)) else render cfg ! a)"
  using assms nth_overlay [of "unat (get_u16 payload)" "drop 2 payload" "render cfg" read_only a]
  by (simp add: reconfig_accepts render_parse length_render normal_rendered add.commute [of 2])

lemma reconfig_wf: "wf cfg \<Longrightarrow> wf (snd (reconfig s r payload cfg))"
  by (simp add: block_reconfig_def Let_def parse_wf length_render)

lemma reconfig_exact: "config_write_exact (reconfig s r) render block_len read_only normal wf s r"
  unfolding config_write_exact_def
proof (intro allI impI)
  fix payload cfg
  assume wf: "wf cfg"
  let ?start = "unat (get_u16 payload)"
  consider "length payload \<le> 2" | "2 < length payload" "block_len < ?start + (length payload - 2)"
    | "2 < length payload" "?start + (length payload - 2) \<le> block_len" by linarith
  then show "let start = ?start; n = length payload - 2; (ec, cfg') = reconfig s r payload cfg in
        if length payload \<le> 2 then ec = Some s \<and> cfg' = cfg
        else if block_len < start + n then ec = Some r \<and> cfg' = cfg
        else ec = None \<and> wf cfg' \<and> length (render cfg') = block_len \<and>
          (\<forall>a < block_len. render cfg' ! a =
             (if start \<le> a \<and> a < start + n \<and> \<not> read_only a then normal a (payload ! (a - start + 2))
              else render cfg ! a))"
  proof cases
    case 1
    then show ?thesis unfolding reconfig_short [OF 1] Let_def by simp
  next
    case 2
    then show ?thesis unfolding reconfig_range [OF 2] Let_def by simp
  next
    case 3
    obtain cfg' where c: "reconfig s r payload cfg = (None, cfg')"
      by (rule that) (rule reconfig_accepts [OF 3])
    have regs: "render cfg' ! a = (if ?start \<le> a \<and> a < ?start + (length payload - 2) \<and> \<not> read_only a
        then normal a (payload ! (a - ?start + 2)) else render cfg ! a)" if "a < block_len" for a
      using reconfig_registers [OF wf 3 that, where s = s and r = r] by (simp only: c snd_conv)
    have wf': "wf cfg'"
      using reconfig_wf [OF wf, of s r payload] unfolding c snd_conv .
    moreover have "\<not> length payload \<le> 2" "\<not> block_len < ?start + (length payload - 2)" using 3 by simp_all
    ultimately show ?thesis
      unfolding c Let_def prod.case using length_render [OF wf'] regs by (simp only: simp_thms if_False) blast
  qed
qed

text \<open>Writing the registers' own content changes nothing.\<close>

lemma overlay_own:
  "addr + n \<le> length block \<Longrightarrow> overlay ro addr (take n (drop addr block)) block = block"
  by (rule nth_equalityI) (auto simp: nth_overlay)

lemma reconfig_own:
  assumes "wf cfg" "fits cfg" "unat start + n \<le> block_len" "0 < n"
  shows "reconfig s r (put_u16 start @ take n (drop (unat start) (render cfg))) cfg = (None, cfg)"
proof -
  let ?p = "put_u16 start @ take n (drop (unat start) (render cfg))"
  have p: "2 < length ?p" "unat (get_u16 ?p) = unat start" "drop 2 ?p = take n (drop (unat start) (render cfg))"
    "length ?p - 2 = n"
    using assms get_put_u16 [of start "take n (drop (unat start) (render cfg))"]
    by (simp_all only: length_append length_put drop_append) (simp_all add: length_render)
  then show ?thesis
    using assms overlay_own [of "unat start" n "render cfg" read_only] reconfig_accepts [of ?p s r cfg]
    by (simp add: length_render parse_render)
qed

end

section \<open>Requests and responses\<close>

text \<open>
  How a decoder opens an ACF_ABB message: a buffer that is too short and one of another message
  type are told apart, then the bus is compared.
\<close>

definition open_abb :: "'e \<Rightarrow> 'e \<Rightarrow> 'e \<Rightarrow> u16 \<Rightarrow> octets \<Rightarrow> 'e + (acf_info \<times> octets)" where
  "open_abb short_frame bad_msg_type wrong_bus expected_bus_id b =
     (case decode_acf_abb b of
        Inl ec \<Rightarrow> Inl (if ec = Avtp_err Short_buffer then short_frame else bad_msg_type)
      | Inr (info, payload) \<Rightarrow>
          if a_byte_bus_id info \<noteq> expected_bus_id then Inl wrong_bus else Inr (info, payload))"

text \<open>
  How a client opens a response, which comes as ACF_GBB when it has a timestamp: the header, the
  payload, whether the response is timed, and its timestamp.
\<close>

definition open_response :: "'e \<Rightarrow> 'e \<Rightarrow> 'e \<Rightarrow> u16 \<Rightarrow> octets \<Rightarrow> 'e + (acf_info \<times> octets \<times> bool \<times> u64)" where
  "open_response short_frame bad_msg_type wrong_bus expected_bus_id b =
     (case peek_msg_type b of
        Inl ec \<Rightarrow> Inl short_frame
      | Inr msg_type \<Rightarrow>
          if msg_type = kAcfMsgTypeGbb
          then
            (case decode_acf_gbb b of
               Inl ec \<Rightarrow> Inl (if ec = Avtp_err Short_buffer then short_frame else bad_msg_type)
             | Inr (info, ts, payload) \<Rightarrow>
                 if a_byte_bus_id info \<noteq> expected_bus_id then Inl wrong_bus
                 else Inr (info, payload, a_mtv info, if a_mtv info then ts else 0))
          else
            (case open_abb short_frame bad_msg_type wrong_bus expected_bus_id b of
               Inl e \<Rightarrow> Inl e
             | Inr (info, payload) \<Rightarrow> Inr (info, payload, False, 0)))"

text \<open>How a server sends a response: with a timestamp as ACF_GBB, without as ACF_ABB.\<close>

definition encode_timed :: "acf_info \<Rightarrow> octets \<Rightarrow> bool \<Rightarrow> u64 \<Rightarrow> octets" where
  "encode_timed info payload timed timestamp =
     (if timed then encode_acf_gbb (info\<lparr>a_mtv := True\<rparr>) timestamp payload
      else encode_acf_abb info payload)"

text \<open>
  \<open>encode_reconfig_request\<close>: the start address and the data in a write with all three low bits
  of \<open>evt\<close> set. Nothing is encoded when there is no data or the message would be too long.
\<close>

definition config_write_message :: "u16 \<Rightarrow> u16 \<Rightarrow> octets \<Rightarrow> u8 \<Rightarrow> octets" where
  "config_write_message byte_bus_id start_address data transaction_num =
     encode_acf_abb (acf_default\<lparr>a_byte_bus_id := byte_bus_id, a_op := True, a_evt_op := 0x7,
       a_transaction_num := transaction_num\<rparr>) (put_u16 start_address @ data)"

definition encode_config_write :: "u16 \<Rightarrow> u16 \<Rightarrow> octets \<Rightarrow> u8 \<Rightarrow> octets" where
  "encode_config_write byte_bus_id start_address data transaction_num =
     (if data = [] \<or> kAcfAbbMaxPayload < kReconfigAddrLen + length data then []
      else config_write_message byte_bus_id start_address data transaction_num)"

lemma masked_header [simp]:
  "a_byte_bus_id (mask_info i) = a_byte_bus_id i AND 0x7FF"
  "a_evt_op (mask_info i) = a_evt_op i AND 0x07"
  "a_read_size (mask_info i) = a_read_size i AND 0xFFF"
  "a_mtv (mask_info i) = a_mtv i" "a_op (mask_info i) = a_op i" "a_rsp (mask_info i) = a_rsp i"
  "a_err (mask_info i) = a_err i" "a_ms (mask_info i) = a_ms i"
  "a_transaction_num (mask_info i) = a_transaction_num i" "a_evt_ack (mask_info i) = a_evt_ack i"
  by (simp_all add: mask_info_def)

lemma sent_header [simp]:
  "a_byte_bus_id (abb_header i p) = a_byte_bus_id i" "a_byte_bus_id (gbb_header i p) = a_byte_bus_id i"
  "a_evt_op (abb_header i p) = a_evt_op i" "a_evt_op (gbb_header i p) = a_evt_op i"
  "a_read_size (abb_header i p) = a_read_size i" "a_read_size (gbb_header i p) = a_read_size i"
  "a_op (abb_header i p) = a_op i" "a_op (gbb_header i p) = a_op i"
  "a_rsp (abb_header i p) = a_rsp i" "a_rsp (gbb_header i p) = a_rsp i"
  "a_err (abb_header i p) = a_err i" "a_err (gbb_header i p) = a_err i"
  "a_ms (abb_header i p) = a_ms i" "a_ms (gbb_header i p) = a_ms i"
  "a_transaction_num (abb_header i p) = a_transaction_num i"
  "a_transaction_num (gbb_header i p) = a_transaction_num i"
  "a_mtv (gbb_header i p) = a_mtv i"
  by (simp_all add: abb_header_def gbb_header_def fill_length_def)

text \<open>The header that arrives when \<open>info\<close> is sent in front of the payload.\<close>

definition arriving :: "acf_info \<Rightarrow> octets \<Rightarrow> bool \<Rightarrow> acf_info" where
  "arriving info payload timed =
     mask_info (if timed then gbb_header (info\<lparr>a_mtv := True\<rparr>) payload else abb_header info payload)"

lemma arriving_fields [simp]:
  "a_byte_bus_id (arriving i p t) = a_byte_bus_id i AND 0x7FF"
  "a_evt_op (arriving i p t) = a_evt_op i AND 0x07"
  "a_read_size (arriving i p t) = a_read_size i AND 0xFFF"
  "a_op (arriving i p t) = a_op i" "a_rsp (arriving i p t) = a_rsp i" "a_err (arriving i p t) = a_err i"
  "a_ms (arriving i p t) = a_ms i" "a_transaction_num (arriving i p t) = a_transaction_num i"
  by (simp_all add: arriving_def)

lemma open_abb_encode [simp]:
  "open_abb s t w bus (encode_acf_abb info payload) =
     (if a_byte_bus_id info AND 0x7FF \<noteq> bus then Inl w else Inr (arriving info payload False, payload))"
  by (simp add: open_abb_def decode_encode_abb arriving_def)

lemma peek_of_encoded:
  "peek_msg_type (encode_acf_abb info payload) = Inr kAcfMsgTypeAbb"
  "peek_msg_type (encode_acf_gbb info ts payload) = Inr kAcfMsgTypeGbb"
  by (simp_all add: peek_msg_type_def encode_abb_eq encode_gbb_eq abb_header_def gbb_header_def
      kAcfMsgTypeAbb_def kAcfMsgTypeGbb_def)

lemma open_response_encode [simp]:
  "open_response s t w bus (encode_timed info payload timed ts) =
     (if a_byte_bus_id info AND 0x7FF \<noteq> bus then Inl w
      else Inr (arriving info payload timed, payload, timed, if timed then ts else 0))"
  by (simp add: open_response_def encode_timed_def peek_of_encoded decode_encode_gbb arriving_def
      kAcfMsgTypeAbb_def kAcfMsgTypeGbb_def)

lemma config_write_opens:
  assumes "data \<noteq> []" "length data \<le> 2034" "bus < 0x800"
  shows "\<exists>info. open_abb s t w bus (encode_config_write bus start data txn) = Inr (info, put_u16 start @ data) \<and>
    a_op info \<and> a_evt_op info = 0x7 \<and> a_transaction_num info = txn"
  using assms by (simp add: encode_config_write_def config_write_message_def kReconfigAddrLen_def
      kAcfAbbMaxPayload_def kAcfMaxQuadlets_def kAcfCommonHeaderLen_def masked_field)

text \<open>The values of \<open>WriteSemantics\<close>.\<close>

fun write_semantics_value :: "write_semantics \<Rightarrow> u8" where
  "write_semantics_value WReplace = 0"
| "write_semantics_value WOr = 1"
| "write_semantics_value WAnd = 2"
| "write_semantics_value WXor = 3"
| "write_semantics_value WReserved = 4"
| "write_semantics_value WAdd = 5"
| "write_semantics_value WSubtract = 6"
| "write_semantics_value WReconfigure = 7"

lemma write_semantics_value_inverse [simp]: "write_semantics_of (write_semantics_value op AND 0x7) = op"
  by (cases op) (simp_all add: write_semantics_of_def write_semantics_values_def)

section \<open>Guarded setters and the dispatch of a request\<close>

text \<open>A setter of a functional field: it changes the field when the guard holds.\<close>

definition guarded_write :: "bool \<Rightarrow> ('c \<Rightarrow> 'c) \<Rightarrow> 'c \<Rightarrow> bool \<times> 'c" where
  "guarded_write allowed update cfg = (if allowed then (True, update cfg) else (False, cfg))"

definition functional_cfg_writable :: "server_state \<Rightarrow> writer_ctx \<Rightarrow> bool" where
  "functional_cfg_writable state writer \<longleftrightarrow> field_writable state Functional_w writer"

text \<open>
  \<open>handle_request\<close> reports a code of the shared endpoint category or one of the endpoint type.
  Only a plain request reaches the operation.
\<close>

datatype 'e request_error = Shared endpoint_errc | Own 'e

definition handle_row2 ::
    "u8 \<Rightarrow> 'e \<Rightarrow> ('s \<Rightarrow> 'e option \<times> 's) \<Rightarrow> 's \<Rightarrow> 'e request_error option \<times> 's" where
  "handle_row2 evt_op config_write_not_supported operation ep =
     (case evt_row2_kind_of evt_op of
        Plain \<Rightarrow> apfst (map_option Own) (operation ep)
      | Reserved_row2 \<Rightarrow> (Some (Shared Reserved_evt_row2), ep)
      | Config_write \<Rightarrow> (Some (Own config_write_not_supported), ep))"

lemma handle_row2_cases:
  "handle_row2 evt not_supported operation ep =
     (if evt AND 7 = 0 then apfst (map_option Own) (operation ep)
      else (Some (if evt AND 7 = 7 then Own not_supported else Shared Reserved_evt_row2), ep))"
  by (simp add: handle_row2_def evt_row2_kind_of_def Let_def)

text \<open>\<open>notify\<close> without its result.\<close>

definition notify :: "u16 \<Rightarrow> trigger_registry \<Rightarrow> trigger_registry" where
  "notify sig t = snd (tr_notify t sig)"

lemma notify_simps [simp]:
  "tr_enabled (notify sig t) = tr_enabled t"
  "tr_pending (notify sig t) = tr_pending t @ (if sig \<in> tr_enabled t then [sig] else [])"
  by (simp_all add: notify_def tr_notify_def tr_is_enabled_def)

lemma plain_evt [simp]: "evt_row2_is_plain 0" "evt_row2_kind_of 0 = Plain"
  by (simp_all add: evt_row2_is_plain_def evt_row2_kind_of_def)

lemma read_size_kept [simp]: "w \<le> 0xFFF \<Longrightarrow> w AND 0xFFF = (w :: u16)"
  using less_mask_eq [of w 12] by (simp add: mask_numeral word_le_nat_alt word_less_nat_alt)

lemma bus_kept [simp]: "w < 0x800 \<Longrightarrow> w AND 0x7FF = (w :: u16)"
  by (simp add: masked_field)

end
