(* ===== verification/Ep_Fragments.thy ===== *)
theory Ep_Fragments
  imports Ep_Block
begin

text \<open>
  Long responses of the endpoint types. UART, ISELED and CAN split a response that does not fit
  one message with the plan of \<open>fragment.hpp\<close>, each in its own copy of the same loop; the loop
  and the decoding of a fragment are modelled here once, with what their composition delivers.
\<close>

text \<open>The header of one fragment: \<open>ms\<close> marks all but the last, which carry the segment number.\<close>

definition segment_header :: "acf_info \<Rightarrow> segment \<Rightarrow> acf_info" where
  "segment_header hdr seg =
     hdr\<lparr>a_ms := sg_ms seg, a_read_size := (if sg_ms seg then sg_segment_num seg else 0)\<rparr>"

definition fragment_frames :: "acf_info \<Rightarrow> octets \<Rightarrow> bool \<Rightarrow> u64 \<Rightarrow> nat \<Rightarrow> octets list" where
  "fragment_frames hdr payload timed timestamp max_fragment_payload =
     (let count = plan_count (length payload) max_fragment_payload in
      if count = 0 then []
      else
        (case plan (length payload) max_fragment_payload count of
           Inl ec \<Rightarrow> []
         | Inr segs \<Rightarrow>
             map (\<lambda>seg. encode_timed (segment_header hdr seg) (slice payload seg) timed timestamp) segs))"

text \<open>One decoded fragment: \<open>ms\<close>, segment number, payload, timed, timestamp, transaction number.\<close>

type_synonym response_fragment = "bool \<times> u16 \<times> octets \<times> bool \<times> u64 \<times> u8"

definition open_fragment :: "'e \<Rightarrow> 'e \<Rightarrow> 'e \<Rightarrow> u16 \<Rightarrow> octets \<Rightarrow> 'e + response_fragment" where
  "open_fragment short_frame bad_msg_type wrong_bus expected_bus_id b =
     (case open_response short_frame bad_msg_type wrong_bus expected_bus_id b of
        Inl ec \<Rightarrow> Inl ec
      | Inr (info, payload, timed, timestamp) \<Rightarrow>
          Inr (a_ms info, a_read_size info, payload, timed, timestamp, a_transaction_num info))"

section \<open>A response sent in fragments arrives\<close>

text \<open>
  The client's side: it decodes every frame and feeds the fragments to its reassembler. All
  decode, each with the response's timestamp and transaction number; the reassembler asks for the
  next one until the last, and then holds the payload.
\<close>

definition arrives_as ::
    "(octets \<Rightarrow> 'e + response_fragment) \<Rightarrow> octets list \<Rightarrow> nat \<Rightarrow> octets \<Rightarrow> bool \<Rightarrow> u64 \<Rightarrow> u8 \<Rightarrow> bool" where
  "arrives_as decode frames limit payload timed timestamp transaction_num \<longleftrightarrow>
     (\<exists>fragments r.
        map decode frames =
          map (\<lambda>(ms, num, slice). Inr (ms, num, slice, timed, timestamp, transaction_num)) fragments \<and>
        feed_all (new_reassembler limit) fragments =
          (replicate (length frames - 1) KContinue @ [KComplete], r) \<and>
        ra_data r = payload \<and> \<not> ra_collecting r)"

lemma segment_number_kept:
  assumes "plan n m c = Inr segs" "n + m < 2 ^ 64" "seg \<in> set segs"
  shows "(if sg_ms seg then sg_segment_num seg else 0) AND 0xFFF = sg_segment_num seg"
proof -
  obtain k off where k: "k \<le> kMaxIntermediateSegments"
    "segs = map (intermediate_segment m) [0..<k] @
      [\<lparr>sg_offset = off, sg_len = n - off, sg_ms = False, sg_segment_num = 0\<rparr>]"
    using plan_eq [OF assms(2,1)] by blast
  have "seg \<in> intermediate_segment m ` {..<k} \<or> \<not> sg_ms seg \<and> sg_segment_num seg = 0"
    using assms(3) unfolding k(2) by auto
  then consider i where "i < k" "seg = intermediate_segment m i" | "\<not> sg_ms seg" "sg_segment_num seg = 0"
    by blast
  then show ?thesis
  proof cases
    case 1
    then have "(word_of_nat i :: u16) \<le> 0xFFF" using k(1) by (simp add: word_le_nat_alt unat_of_nat kMaxIntermediateSegments_def)
    then show ?thesis using 1 by (simp add: intermediate_segment_def)
  qed simp
qed

lemma fragments_arrive:
  assumes "plan_count (length payload) m \<noteq> 0" "length payload + m < 2 ^ 64"
    and "length payload \<le> limit" "length payload \<le> kDefaultReassemblyCapacity"
    and "a_byte_bus_id hdr = bus" "bus < 0x800" "timed \<or> ts = 0" "a_transaction_num hdr = txn"
    and decode: "\<And>seg. decode (encode_timed (segment_header hdr seg) (slice payload seg) timed ts) =
      open_fragment s t w bus (encode_timed (segment_header hdr seg) (slice payload seg) timed ts)"
  shows "fragment_frames hdr payload timed ts m \<noteq> [] \<and>
    arrives_as decode (fragment_frames hdr payload timed ts m) limit payload timed ts txn"
proof -
  let ?c = "plan_count (length payload) m"
  have "\<exists>segs. plan (length payload) m ?c = Inr segs \<and> segs \<noteq> []"
    using assms(1) by (simp add: plan_def Let_def split: prod.split)
  then obtain segs where segs: "plan (length payload) m ?c = Inr segs" "segs \<noteq> []" by blast
  have frames: "fragment_frames hdr payload timed ts m =
      map (\<lambda>seg. encode_timed (segment_header hdr seg) (slice payload seg) timed ts) segs"
    using segs assms(1) by (simp add: fragment_frames_def)
  have "decode (encode_timed (segment_header hdr seg) (slice payload seg) timed ts) =
      Inr (sg_ms seg, sg_segment_num seg, slice payload seg, timed, ts, txn)" if "seg \<in> set segs" for seg
    unfolding decode open_fragment_def
    using segment_number_kept [OF segs(1) assms(2) that] assms(5-8) by (auto simp: segment_header_def)
  then have "map decode (fragment_frames hdr payload timed ts m) =
      map (\<lambda>(ms, num, slice). Inr (ms, num, slice, timed, ts, txn)) (map (fragment_of payload) segs)"
    by (simp add: frames fragment_of_def)
  moreover have "\<exists>r. feed_all (new_reassembler limit) (map (fragment_of payload) segs) =
      (replicate (length (fragment_frames hdr payload timed ts m) - 1) KContinue @ [KComplete], r) \<and>
      ra_data r = payload \<and> \<not> ra_collecting r"
    using plan_feeds_in_order [OF segs(1) assms(2-4)] by (simp add: frames)
  ultimately show ?thesis
    unfolding arrives_as_def using segs(2) by (intro conjI exI [of _ "map (fragment_of payload) segs"])
      (simp_all add: frames)
qed

end
