(* ===== verification/I2c.thy ===== *)
theory I2c
  imports Ep_Block
begin

text \<open>
  The I2C endpoint type, \<open>include/rcp/i2c.hpp\<close>: its functional configuration and register block,
  the transfer request and response, and the endpoint that performs a transfer.
\<close>

datatype i2c_mode = Standard | Fast | FastPlus | HighSpeed | UltraFast

fun i2c_mode_value :: "i2c_mode \<Rightarrow> u8" where
  "i2c_mode_value Standard = 0"
| "i2c_mode_value Fast = 1"
| "i2c_mode_value FastPlus = 2"
| "i2c_mode_value HighSpeed = 3"
| "i2c_mode_value UltraFast = 4"

definition i2c_mode_valid :: "u8 \<Rightarrow> bool" where
  "i2c_mode_valid v \<longleftrightarrow> v \<le> i2c_mode_value UltraFast"

datatype i2c_errc =
    Short_frame | Bad_msg_type | Wrong_bus | Wrong_op | Bad_evt | Nack | Config_write_not_supported

section \<open>Functional configuration\<close>

record i2c_functional_cfg = ep_flags +
  i2c_i2c_mode :: u8
  i2c_ep_status :: u16
  i2c_clock_divider :: u8
  i2c_trail :: u8

definition i2c_functional_cfg_init :: i2c_functional_cfg where
  "i2c_functional_cfg_init =
     \<lparr>ep_enable = False, ep_clear_req_storage = False, ep_req_crc_enable = False,
      ep_response_ts_enable = False, ep_suppress_response = False,
      i2c_i2c_mode = i2c_mode_value Standard, i2c_ep_status = 0, i2c_clock_divider = 0, i2c_trail = 0\<rparr>"

definition i2c_functional_cfg_writable :: "server_state \<Rightarrow> writer_ctx \<Rightarrow> bool" where
  "i2c_functional_cfg_writable state writer \<longleftrightarrow> field_writable state Functional_w writer"

definition set_mode ::
    "i2c_mode \<Rightarrow> server_state \<Rightarrow> writer_ctx \<Rightarrow> i2c_functional_cfg \<Rightarrow> bool \<times> i2c_functional_cfg" where
  "set_mode mode state writer cfg =
     guarded_write (i2c_mode_valid (i2c_mode_value mode) \<and> i2c_functional_cfg_writable state writer)
       (\<lambda>c. c\<lparr>i2c_i2c_mode := i2c_mode_value mode\<rparr>) cfg"

definition kEpFuncLen :: nat where "kEpFuncLen = 0x000B"

definition render_registers :: "i2c_functional_cfg \<Rightarrow> octets" where
  "render_registers cfg =
     [of_nat kEpFuncLen, 0] @ render_flags cfg @ [0, 0] @
     put_u16 (i2c_ep_status cfg) @
     [i2c_clock_divider cfg, i2c_i2c_mode cfg, i2c_trail cfg]"

definition parse_registers :: "octets \<Rightarrow> i2c_functional_cfg \<Rightarrow> i2c_functional_cfg" where
  "parse_registers b cfg = parse_flags (b ! 2) (b ! 3)
     (cfg\<lparr>i2c_ep_status := get_u16 (drop 6 b), i2c_clock_divider := b ! 8, i2c_i2c_mode := b ! 9,
      i2c_trail := b ! 10\<rparr>)"

definition reg_offset_read_only :: "nat \<Rightarrow> bool" where
  "reg_offset_read_only addr \<longleftrightarrow> addr = 0 \<or> addr = 1 \<or> addr = 4 \<or> addr = 5"

datatype i2c_reconfig_errc = Short_payload | Out_of_range

definition apply_reconfig ::
    "octets \<Rightarrow> i2c_functional_cfg \<Rightarrow> i2c_reconfig_errc option \<times> i2c_functional_cfg" where
  "apply_reconfig payload cfg =
     block_reconfig Short_payload Out_of_range kEpFuncLen reg_offset_read_only render_registers
       parse_registers payload cfg"

definition encode_reconfig_request :: "u16 \<Rightarrow> u16 \<Rightarrow> octets \<Rightarrow> u8 \<Rightarrow> octets" where
  "encode_reconfig_request byte_bus_id start_address data transaction_num =
     encode_config_write byte_bus_id start_address data transaction_num"

interpretation i2c_block: register_block kEpFuncLen reg_offset_read_only kept_flags render_registers
    parse_registers "\<lambda>_. True" "\<lambda>_. True"
  by unfold_locales
    (simp_all add: kEpFuncLen_def render_registers_def parse_registers_def reg_offset_read_only_def
      kept_flags_def flag_defs register_addresses put_u16_def)

section \<open>Transfers\<close>

datatype i2c_dir = Write | Read

definition i2c_dir_valid :: "i2c_dir \<Rightarrow> bool" where
  "i2c_dir_valid d \<longleftrightarrow> d = Write \<or> d = Read"

definition dir_to_write_op :: "i2c_dir \<Rightarrow> bool" where
  "dir_to_write_op d \<longleftrightarrow> d = Write"

definition op_to_dir :: "bool \<Rightarrow> i2c_dir" where
  "op_to_dir op = (if op then Write else Read)"

definition kMaxReadSize :: u16 where "kMaxReadSize = 0x0FFF"

definition encode_transfer_request :: "u16 \<Rightarrow> i2c_dir \<Rightarrow> octets \<Rightarrow> u16 \<Rightarrow> u8 \<Rightarrow> octets" where
  "encode_transfer_request byte_bus_id direction tx_data read_size transaction_num =
     (if \<not> i2c_dir_valid direction then []
      else if kMaxReadSize < read_size then []
      else if direction = Write \<and> read_size \<noteq> 0 then []
      else if kAcfAbbMaxPayload < length tx_data then []
      else encode_acf_abb (acf_default\<lparr>a_byte_bus_id := byte_bus_id, a_op := dir_to_write_op direction,
             a_evt_op := 0, a_transaction_num := transaction_num,
             a_read_size := (if direction = Read then read_size else 0)\<rparr>) tx_data)"

definition decode_transfer_request :: "u16 \<Rightarrow> octets \<Rightarrow> i2c_errc + (i2c_dir \<times> octets \<times> u16 \<times> u8)" where
  "decode_transfer_request expected_bus_id b =
     (case open_abb Short_frame Bad_msg_type Wrong_bus expected_bus_id b of
        Inl ec \<Rightarrow> Inl ec
      | Inr (hdr, payload) \<Rightarrow>
          if \<not> evt_row2_is_plain (a_evt_op hdr) then Inl Bad_evt
          else
            (let direction = op_to_dir (a_op hdr)
             in Inr (direction, payload, if direction = Read then a_read_size hdr else 0,
                  a_transaction_num hdr)))"

definition encode_response :: "u16 \<Rightarrow> i2c_dir \<Rightarrow> octets \<Rightarrow> u8 \<Rightarrow> bool \<Rightarrow> u64 \<Rightarrow> octets" where
  "encode_response byte_bus_id direction rx_data transaction_num timed timestamp =
     (if \<not> i2c_dir_valid direction then []
      else if direction = Write \<and> rx_data \<noteq> [] then []
      else encode_timed (acf_default\<lparr>a_byte_bus_id := byte_bus_id, a_op := dir_to_write_op direction,
             a_rsp := True, a_evt_op := 0, a_transaction_num := transaction_num\<rparr>) rx_data timed timestamp)"

definition decode_response :: "u16 \<Rightarrow> octets \<Rightarrow> i2c_errc + (i2c_dir \<times> octets \<times> bool \<times> u64 \<times> u8)" where
  "decode_response expected_bus_id b =
     (case open_response Short_frame Bad_msg_type Wrong_bus expected_bus_id b of
        Inl ec \<Rightarrow> Inl ec
      | Inr (hdr, payload, timed, timestamp) \<Rightarrow>
          Inr (op_to_dir (a_op hdr), payload, timed, timestamp, a_transaction_num hdr))"

section \<open>The endpoint\<close>

datatype i2c_signal = TransferComplete | NackSignal

fun i2c_signal_id :: "i2c_signal \<Rightarrow> u16" where
  "i2c_signal_id TransferComplete = 0"
| "i2c_signal_id NackSignal = 1"

record i2c_endpoint =
  i2c_triggers :: trigger_registry
  i2c_last_out :: octets
  i2c_last_in :: octets

definition transfer :: "octets \<Rightarrow> octets \<Rightarrow> bool \<Rightarrow> i2c_endpoint \<Rightarrow> i2c_errc option \<times> i2c_endpoint" where
  "transfer out_bytes in_bytes acked ep =
     (let ep = ep\<lparr>i2c_last_out := out_bytes, i2c_last_in := in_bytes,
            i2c_triggers := notify (i2c_signal_id TransferComplete) (i2c_triggers ep)\<rparr>
      in if \<not> acked then (Some Nack, ep\<lparr>i2c_triggers := notify (i2c_signal_id NackSignal) (i2c_triggers ep)\<rparr>)
         else (None, ep))"

definition handle_request ::
    "u8 \<Rightarrow> octets \<Rightarrow> octets \<Rightarrow> bool \<Rightarrow> i2c_endpoint \<Rightarrow> i2c_errc request_error option \<times> i2c_endpoint" where
  "handle_request evt_op out_bytes in_bytes acked ep =
     handle_row2 evt_op Config_write_not_supported (transfer out_bytes in_bytes acked) ep"

section \<open>Messages survive\<close>

lemma all_dirs_valid [simp]: "i2c_dir_valid d"
  by (cases d) (simp_all add: i2c_dir_valid_def)

lemma op_to_dir_inverse [simp]: "op_to_dir (dir_to_write_op d) = d"
  by (cases d) (simp_all add: op_to_dir_def dir_to_write_op_def)

lemma not_write [simp]: "d \<noteq> Write \<longleftrightarrow> d = Read"
  by (cases d) simp_all

text \<open>The requests a client may send: a write asks for no data, a read for at most 4095 octets.\<close>

definition transfer_ok :: "i2c_dir \<Rightarrow> octets \<Rightarrow> u16 \<Rightarrow> bool" where
  "transfer_ok direction tx_data read_size \<longleftrightarrow>
     read_size \<le> kMaxReadSize \<and> (direction = Write \<longrightarrow> read_size = 0) \<and> length tx_data \<le> kAcfAbbMaxPayload"

lemma encode_transfer_request_Nil:
  "encode_transfer_request bus direction tx_data read_size txn = [] \<longleftrightarrow> \<not> transfer_ok direction tx_data read_size"
  by (cases direction)
    (auto simp: encode_transfer_request_def transfer_ok_def encode_abb_eq not_le not_less)

interpretation i2c_request: message_codec
    "\<lambda>(direction, tx_data, read_size, txn). encode_transfer_request bus direction tx_data read_size txn"
    "decode_transfer_request bus"
    "\<lambda>(direction, tx_data, read_size, txn). bus < 0x800 \<and> transfer_ok direction tx_data read_size" for bus
  by unfold_locales
    (auto simp: encode_transfer_request_def decode_transfer_request_def transfer_ok_def not_le
      kMaxReadSize_def Let_def split: if_splits dest: leD)

interpretation i2c_response: message_codec
    "\<lambda>(direction, rx_data, timed, ts, txn). encode_response bus direction rx_data txn timed ts"
    "decode_response bus"
    "\<lambda>(direction, rx_data, timed, ts, txn). bus < 0x800 \<and> (direction = Read \<or> rx_data = []) \<and>
       (timed \<or> ts = 0)" for bus
  by unfold_locales
    (auto simp: encode_response_def decode_response_def split: i2c_dir.splits)

end
