(* ===== verification/Gpio.thy ===== *)
theory Gpio
  imports Ep_Block
begin

text \<open>
  The GPIO endpoint type, \<open>include/rcp/gpio.hpp\<close>: up to 32 pins with a direction each, masked
  writes, edge triggers, debouncing, the register block, and the request and response messages.
\<close>

section \<open>Pins and writes\<close>

definition kMaxPins :: nat where "kMaxPins = 32"

definition kGpioPayloadLen :: nat where "kGpioPayloadLen = 4"

text \<open>A set direction bit is an output.\<close>

record gpio_state =
  pin_values :: u32
  pin_directions :: u32

datatype gpio_errc =
    Pin_index_out_of_range | Short_frame | Bad_msg_type | Wrong_bus | Wrong_op | Bad_payload_len
  | Reserved_evt | Reconfig_short | Reconfig_out_of_range

fun wire_error :: "gpio_errc \<Rightarrow> wire_error_code option" where
  "wire_error Bad_payload_len = Some InvalidParameter"
| "wire_error Reserved_evt = Some UnsupportedCmd"
| "wire_error _ = None"

definition apply_gpio_write :: "write_semantics \<Rightarrow> u32 \<Rightarrow> gpio_state \<Rightarrow> error option \<times> gpio_state" where
  "apply_gpio_write op operand state =
     (if op = WReconfigure then (None, state\<lparr>pin_directions := operand\<rparr>)
      else
        (case (if op = WSubtract then Inr (saturating_subtract operand (pin_values state))
               else apply_bitmask_write op (pin_values state) operand) of
           Inl ec \<Rightarrow> (Some ec, state)
         | Inr out \<Rightarrow>
             (None, state\<lparr>pin_values :=
               (out AND pin_directions state) OR (pin_values state AND NOT (pin_directions state))\<rparr>)))"

definition encode_gpio_payload :: "u32 \<Rightarrow> octets" where
  "encode_gpio_payload bitmask = put_u32 bitmask"

definition decode_gpio_payload :: "octets \<Rightarrow> u32 result" where
  "decode_gpio_payload buf =
     (if length buf \<noteq> kGpioPayloadLen then Inl (Avtp_err Short_buffer) else Inr (get_u32 buf))"

section \<open>Triggers\<close>

datatype gpio_edge = Change | Rising | Falling

fun gpio_edge_value :: "gpio_edge \<Rightarrow> u16" where
  "gpio_edge_value Change = 0"
| "gpio_edge_value Rising = 1"
| "gpio_edge_value Falling = 2"

definition gpio_signal_id :: "nat \<Rightarrow> gpio_edge \<Rightarrow> u16" where
  "gpio_signal_id pin edge = push_bit 2 (of_nat pin) OR gpio_edge_value edge"

text \<open>The body of the loop for one pin: the signals that fire are appended.\<close>

definition notify_fired :: "u16 \<Rightarrow> trigger_registry \<times> u16 list \<Rightarrow> trigger_registry \<times> u16 list" where
  "notify_fired sig acc =
     (case tr_notify (fst acc) sig of (fires, t) \<Rightarrow> (t, snd acc @ (if fires then [sig] else [])))"

definition evaluate_pin ::
    "u32 \<Rightarrow> u32 \<Rightarrow> nat \<Rightarrow> trigger_registry \<times> u16 list \<Rightarrow> trigger_registry \<times> u16 list" where
  "evaluate_pin old_values new_values pin acc =
     (let was_set = (drop_bit pin old_values AND 1 \<noteq> 0); is_set = (drop_bit pin new_values AND 1 \<noteq> 0) in
      if was_set = is_set then acc
      else notify_fired (gpio_signal_id pin (if is_set then Rising else Falling))
             (notify_fired (gpio_signal_id pin Change) acc))"

definition evaluate_gpio_triggers ::
    "u32 \<Rightarrow> u32 \<Rightarrow> trigger_registry \<Rightarrow> trigger_registry \<times> u16 list" where
  "evaluate_gpio_triggers old_values new_values triggers =
     fold (evaluate_pin old_values new_values) [0..<kMaxPins] (triggers, [])"

datatype gpio_trigger = None_trigger | AnyChange | RisingEdge | FallingEdge

fun gpio_trigger_value :: "gpio_trigger \<Rightarrow> u8" where
  "gpio_trigger_value None_trigger = 0"
| "gpio_trigger_value AnyChange = 1"
| "gpio_trigger_value RisingEdge = 2"
| "gpio_trigger_value FallingEdge = 3"

fun trigger_fires :: "gpio_trigger \<Rightarrow> bool \<Rightarrow> bool \<Rightarrow> bool" where
  "trigger_fires AnyChange prev_level new_level = (prev_level \<noteq> new_level)"
| "trigger_fires RisingEdge prev_level new_level = (\<not> prev_level \<and> new_level)"
| "trigger_fires FallingEdge prev_level new_level = (prev_level \<and> \<not> new_level)"
| "trigger_fires None_trigger prev_level new_level = False"

definition trigger_signal_number :: "nat \<Rightarrow> gpio_trigger \<Rightarrow> u8 option" where
  "trigger_signal_number pin_index trigger =
     (if kMaxPins \<le> pin_index then None
      else if trigger = None_trigger then None
      else Some (3 * of_nat pin_index + gpio_trigger_value trigger))"

section \<open>Debouncing\<close>

record gpio_debounce_state =
  db_has_settled :: bool
  db_settled_value :: bool
  db_has_candidate :: bool
  db_candidate_value :: bool
  db_consecutive_count :: u8

definition debounce_state_init :: gpio_debounce_state where
  "debounce_state_init =
     \<lparr>db_has_settled = False, db_settled_value = False, db_has_candidate = False,
      db_candidate_value = False, db_consecutive_count = 0\<rparr>"

text \<open>The settled value, whether it changed, and the new state.\<close>

definition debounce_sample ::
    "bool \<Rightarrow> u8 \<Rightarrow> gpio_debounce_state \<Rightarrow> bool \<times> bool \<times> gpio_debounce_state" where
  "debounce_sample raw_value n s =
     (let prev_settled = (db_has_settled s \<and> db_settled_value s) in
      if n = 0
      then
        (let changed = (db_has_settled s \<and> prev_settled \<noteq> raw_value);
             s = s\<lparr>db_has_candidate := False, db_has_settled := True, db_settled_value := raw_value\<rparr>
         in (db_settled_value s, changed, s))
      else
        (let s = (if \<not> db_has_candidate s \<or> db_candidate_value s \<noteq> raw_value
                  then s\<lparr>db_has_candidate := True, db_candidate_value := raw_value,
                         db_consecutive_count := 1\<rparr>
                  else if db_consecutive_count s < 0xFF
                  then s\<lparr>db_consecutive_count := db_consecutive_count s + 1\<rparr>
                  else s);
             settles = (n \<le> db_consecutive_count s \<and>
               (\<not> db_has_settled s \<or> db_settled_value s \<noteq> db_candidate_value s));
             changed = (settles \<and> db_has_settled s);
             s = (if settles then s\<lparr>db_has_settled := True, db_settled_value := db_candidate_value s\<rparr> else s)
         in (if db_has_settled s then db_settled_value s else False, changed, s)))"

datatype gpio_response_timing = Immediate | AfterDebounce

definition response_timing :: "bool \<Rightarrow> nat \<Rightarrow> gpio_response_timing" where
  "response_timing is_write payload_len =
     (if is_write then AfterDebounce else if payload_len = 0 then Immediate else AfterDebounce)"

section \<open>Functional configuration\<close>

record gpio_pin_cfg =
  pin_property :: u8
  pin_trigger :: gpio_trigger

text \<open>The arrays of 32 entries are lists of that length.\<close>

record gpio_functional_config = ep_flags +
  gpio_pins :: "gpio_pin_cfg list"
  gpio_ep_status :: u16
  gpio_clk_divider :: u8
  gpio_debounce :: octets

definition set_pin_property ::
    "nat \<Rightarrow> u8 \<Rightarrow> server_state \<Rightarrow> writer_ctx \<Rightarrow> gpio_functional_config \<Rightarrow> bool \<times> gpio_functional_config" where
  "set_pin_property pin_index property state writer cfg =
     guarded_write (pin_index < kMaxPins \<and> functional_cfg_writable state writer)
       (\<lambda>c. c\<lparr>gpio_pins := (gpio_pins c)[pin_index := (gpio_pins c ! pin_index)\<lparr>pin_property := property\<rparr>]\<rparr>) cfg"

definition set_pin_trigger ::
    "nat \<Rightarrow> gpio_trigger \<Rightarrow> server_state \<Rightarrow> writer_ctx \<Rightarrow> gpio_functional_config \<Rightarrow> bool \<times> gpio_functional_config" where
  "set_pin_trigger pin_index trigger state writer cfg =
     guarded_write (pin_index < kMaxPins \<and> functional_cfg_writable state writer)
       (\<lambda>c. c\<lparr>gpio_pins := (gpio_pins c)[pin_index := (gpio_pins c ! pin_index)\<lparr>pin_trigger := trigger\<rparr>]\<rparr>) cfg"

definition kGpioEpFuncLen :: nat where "kGpioEpFuncLen = 0x0029"

definition gpio_reg_offset_read_only :: "nat \<Rightarrow> bool" where
  "gpio_reg_offset_read_only addr \<longleftrightarrow> addr = 0 \<or> addr = 1 \<or> addr = 4 \<or> addr = 5"

definition render_registers :: "gpio_functional_config \<Rightarrow> octets" where
  "render_registers cfg =
     [of_nat kGpioEpFuncLen, of_nat kMaxPins] @ render_flags cfg @ put_u16 0 @ put_u16 (gpio_ep_status cfg) @
     [gpio_clk_divider cfg] @ gpio_debounce cfg"

definition gpio_parse_registers :: "octets \<Rightarrow> gpio_functional_config \<Rightarrow> gpio_functional_config" where
  "gpio_parse_registers b cfg = parse_flags (b ! 2) (b ! 3)
     (cfg\<lparr>gpio_ep_status := get_u16 (drop 6 b), gpio_clk_divider := b ! 8,
      gpio_debounce := map (\<lambda>i. b ! (9 + i)) [0..<kMaxPins]\<rparr>)"

definition apply_reconfig ::
    "octets \<Rightarrow> gpio_functional_config \<Rightarrow> gpio_errc option \<times> gpio_functional_config" where
  "apply_reconfig payload cfg =
     block_reconfig Reconfig_short Reconfig_out_of_range kGpioEpFuncLen gpio_reg_offset_read_only
       render_registers gpio_parse_registers payload cfg"

definition wf_gpio_cfg :: "gpio_functional_config \<Rightarrow> bool" where
  "wf_gpio_cfg cfg \<longleftrightarrow> length (gpio_pins cfg) = kMaxPins \<and> length (gpio_debounce cfg) = kMaxPins"

text \<open>The first nine octets, and the block as these followed by the debounce registers.\<close>

definition head_registers :: "gpio_functional_config \<Rightarrow> octets" where
  "head_registers cfg =
     [of_nat kGpioEpFuncLen, of_nat kMaxPins] @ render_flags cfg @ put_u16 0 @ put_u16 (gpio_ep_status cfg) @
     [gpio_clk_divider cfg]"

lemma render_split: "render_registers cfg = head_registers cfg @ gpio_debounce cfg"
  by (simp add: render_registers_def head_registers_def)

lemma length_head [simp]: "length (head_registers cfg) = 9"
  by (simp add: head_registers_def render_flags_def)

lemma map_registers:
  assumes "length d = kMaxPins"
  shows "map (\<lambda>a. f a ((head_registers cfg @ d) ! a)) [0..<kGpioEpFuncLen] =
    map (\<lambda>a. f a (head_registers cfg ! a)) [0..<9] @ map (\<lambda>i. f (9 + i) (d ! i)) [0..<kMaxPins]"
proof -
  have "[0..<kGpioEpFuncLen] = [0..<9] @ map (\<lambda>i. 9 + i) [0..<kMaxPins]"
    using map_add_upt [of 9 32] upt_add_eq_append [of 0 9 32]
    by (simp add: kGpioEpFuncLen_def kMaxPins_def add.commute)
  then show ?thesis by (simp add: nth_append)
qed

lemma map_nth_pins: "length d = kMaxPins \<Longrightarrow> map ((!) d) [0..<kMaxPins] = d"
  using map_nth [of d] by simp

lemma high_register [simp]: "kept_flags (9 + i) x = x" "\<not> gpio_reg_offset_read_only (9 + i)"
  by (simp_all add: kept_flags_def gpio_reg_offset_read_only_def)

lemmas gpio_registers = head_registers_def gpio_parse_registers_def flag_defs register_addresses
  put_u16_def kept_flags_def gpio_reg_offset_read_only_def

interpretation gpio_block: register_block kGpioEpFuncLen gpio_reg_offset_read_only kept_flags
    render_registers gpio_parse_registers wf_gpio_cfg "\<lambda>_. True"
proof
  fix cfg :: gpio_functional_config and block
  assume wf: "wf_gpio_cfg cfg"
  then have len: "length (gpio_debounce cfg) = kMaxPins" by (simp add: wf_gpio_cfg_def)
  show "length (render_registers cfg) = kGpioEpFuncLen"
    using len by (simp add: render_split kGpioEpFuncLen_def kMaxPins_def)
  show "render_registers (gpio_parse_registers block cfg) =
      map (\<lambda>a. if gpio_reg_offset_read_only a then render_registers cfg ! a else kept_flags a (block ! a))
        [0..<kGpioEpFuncLen]" if "length block = kGpioEpFuncLen"
  proof -
    have "head_registers (gpio_parse_registers block cfg) =
        map (\<lambda>a. if gpio_reg_offset_read_only a then head_registers cfg ! a else kept_flags a (block ! a)) [0..<9]"
      using that by (simp add: gpio_registers kGpioEpFuncLen_def)
    then show ?thesis
      unfolding render_split map_registers [OF len, where f = "\<lambda>a x. if gpio_reg_offset_read_only a then x else kept_flags a (block ! a)"]
      by (simp add: gpio_parse_registers_def parse_flags_def)
  qed
  show "map (\<lambda>a. kept_flags a (render_registers cfg ! a)) [0..<kGpioEpFuncLen] = render_registers cfg"
    unfolding render_split map_registers [OF len] using len
    by (simp add: map_nth_pins) (simp add: gpio_registers)
  show "wf_gpio_cfg (gpio_parse_registers block cfg)" if "length block = kGpioEpFuncLen"
    using wf by (simp add: wf_gpio_cfg_def gpio_parse_registers_def parse_flags_def)
  have "map (\<lambda>i. render_registers cfg ! (9 + i)) [0..<kMaxPins] = gpio_debounce cfg"
    using len by (simp add: render_split nth_append map_nth_pins)
  then show "gpio_parse_registers (render_registers cfg) cfg = cfg"
    by (simp add: gpio_parse_registers_def) (simp add: render_registers_def flag_defs put_u16_def)
qed simp

section \<open>Messages\<close>

definition encode_read_request :: "u16 \<Rightarrow> u8 \<Rightarrow> octets" where
  "encode_read_request byte_bus_id transaction_num =
     encode_acf_abb (acf_default\<lparr>a_byte_bus_id := byte_bus_id, a_op := False,
       a_transaction_num := transaction_num\<rparr>) []"

definition decode_read_request :: "u16 \<Rightarrow> octets \<Rightarrow> gpio_errc + u8" where
  "decode_read_request expected_bus_id b =
     (case open_abb Short_frame Bad_msg_type Wrong_bus expected_bus_id b of
        Inl ec \<Rightarrow> Inl ec
      | Inr (info, payload) \<Rightarrow> if a_op info then Inl Wrong_op else Inr (a_transaction_num info))"

definition encode_write_request :: "u16 \<Rightarrow> u32 \<Rightarrow> write_semantics \<Rightarrow> u8 \<Rightarrow> octets" where
  "encode_write_request byte_bus_id bitmask evt transaction_num =
     encode_acf_abb (acf_default\<lparr>a_byte_bus_id := byte_bus_id, a_op := True,
       a_evt_op := write_semantics_value evt AND 0x7, a_transaction_num := transaction_num\<rparr>)
       (encode_gpio_payload bitmask)"

definition decode_write_request :: "u16 \<Rightarrow> octets \<Rightarrow> gpio_errc + (u32 \<times> write_semantics \<times> u8)" where
  "decode_write_request expected_bus_id b =
     (case open_abb Short_frame Bad_msg_type Wrong_bus expected_bus_id b of
        Inl ec \<Rightarrow> Inl ec
      | Inr (info, payload) \<Rightarrow>
          if \<not> a_op info then Inl Wrong_op
          else if length payload \<noteq> kGpioPayloadLen then Inl Bad_payload_len
          else
            (let evt = write_semantics_of (a_evt_op info) in
             if evt = WReserved then Inl Reserved_evt
             else Inr (get_u32 payload, evt, a_transaction_num info)))"

definition encode_reconfig_request :: "u16 \<Rightarrow> u16 \<Rightarrow> octets \<Rightarrow> u8 \<Rightarrow> octets" where
  "encode_reconfig_request byte_bus_id start_address data transaction_num =
     encode_config_write byte_bus_id start_address data transaction_num"

definition encode_response :: "u16 \<Rightarrow> u32 \<Rightarrow> u8 \<Rightarrow> bool \<Rightarrow> u64 \<Rightarrow> octets" where
  "encode_response byte_bus_id bitmask transaction_num timed timestamp =
     encode_timed (acf_default\<lparr>a_byte_bus_id := byte_bus_id, a_op := False, a_rsp := True,
       a_transaction_num := transaction_num\<rparr>) (encode_gpio_payload bitmask) timed timestamp"

definition decode_response :: "u16 \<Rightarrow> octets \<Rightarrow> gpio_errc + (u32 \<times> bool \<times> u64 \<times> u8)" where
  "decode_response expected_bus_id b =
     (case open_response Short_frame Bad_msg_type Wrong_bus expected_bus_id b of
        Inl ec \<Rightarrow> Inl ec
      | Inr (info, payload, timed, timestamp) \<Rightarrow>
          if length payload \<noteq> kGpioPayloadLen then Inl Bad_payload_len
          else Inr (get_u32 payload, timed, timestamp, a_transaction_num info))"

text \<open>The opaque functional configuration: the directions and one edge mask per pin.\<close>

definition kGpioFunctionalConfigLen :: nat where
  "kGpioFunctionalConfigLen = kGpioPayloadLen + kMaxPins"

definition encode_gpio_functional_config :: "u32 \<Rightarrow> octets \<Rightarrow> octets" where
  "encode_gpio_functional_config directions enabled_edge_masks = put_u32 directions @ enabled_edge_masks"

definition decode_gpio_functional_config :: "octets \<Rightarrow> (u32 \<times> octets) result" where
  "decode_gpio_functional_config data =
     (if length data < kGpioFunctionalConfigLen then Inl (Avtp_err Short_buffer)
      else Inr (get_u32 data, take kMaxPins (drop kGpioPayloadLen data)))"

section \<open>The endpoint\<close>

record gpio_endpoint =
  gpio_state :: gpio_state
  gpio_triggers :: trigger_registry

definition handle_write ::
    "write_semantics \<Rightarrow> u32 \<Rightarrow> gpio_endpoint \<Rightarrow> (error + u32) \<times> gpio_endpoint" where
  "handle_write op operand ep =
     (let before = pin_values (gpio_state ep) in
      case apply_gpio_write op operand (gpio_state ep) of
        (Some ec, _) \<Rightarrow> (Inl ec, ep)
      | (None, state) \<Rightarrow>
          (Inr (pin_values state),
           ep\<lparr>gpio_state := state,
              gpio_triggers := fst (evaluate_gpio_triggers before (pin_values state) (gpio_triggers ep))\<rparr>))"

definition read_pins :: "gpio_endpoint \<Rightarrow> u32" where
  "read_pins ep = pin_values (gpio_state ep)"

section \<open>Messages survive\<close>

lemma get_put_u32_only [simp]: "get_u32 (put_u32 v) = v"
  using get_put_u32 [of v "[]"] by simp

interpretation gpio_payload: header_codec encode_gpio_payload "\<lambda>b. decode_gpio_payload (take 4 b)" "\<lambda>_. True"
  by unfold_locales (simp add: encode_gpio_payload_def decode_gpio_payload_def kGpioPayloadLen_def)

interpretation gpio_read_request: message_codec "encode_read_request bus" "decode_read_request bus"
    "\<lambda>txn. bus < 0x800" for bus
  by unfold_locales (simp add: encode_read_request_def decode_read_request_def)

interpretation gpio_write_request: message_codec
    "\<lambda>(bitmask, evt, txn). encode_write_request bus bitmask evt txn" "decode_write_request bus"
    "\<lambda>(bitmask, evt, txn). bus < 0x800 \<and> evt \<noteq> WReserved" for bus
  by unfold_locales
    (auto simp: encode_write_request_def decode_write_request_def encode_gpio_payload_def
      kGpioPayloadLen_def Let_def and.assoc)

interpretation gpio_response: message_codec
    "\<lambda>(bitmask, timed, ts, txn). encode_response bus bitmask txn timed ts" "decode_response bus"
    "\<lambda>(bitmask, timed, ts, txn). bus < 0x800 \<and> (timed \<or> ts = 0)" for bus
  by unfold_locales
    (auto simp: encode_response_def decode_response_def encode_gpio_payload_def kGpioPayloadLen_def)

section \<open>What a write does\<close>

text \<open>What a pin's change fires, if armed.\<close>

definition pin_signals :: "u32 \<Rightarrow> u32 \<Rightarrow> nat \<Rightarrow> u16 list" where
  "pin_signals old_values new_values pin =
     (if bit old_values pin = bit new_values pin then []
      else [gpio_signal_id pin Change, gpio_signal_id pin (if bit new_values pin then Rising else Falling)])"

lemma drop_bit_and_1: "drop_bit k w AND 1 \<noteq> 0 \<longleftrightarrow> bit w k" for w :: "'a :: len word"
  by (simp add: and_one_eq bit_iff_odd_drop_bit odd_iff_mod_2_eq_one)

lemma is_enabled_pending [simp]: "tr_is_enabled (t\<lparr>tr_pending := p\<rparr>) = tr_is_enabled t"
  by (rule ext) (simp add: tr_is_enabled_def)

definition armed_of :: "trigger_registry \<Rightarrow> u16 list \<Rightarrow> u16 list" where
  "armed_of t sigs = filter (tr_is_enabled t) sigs"

lemma evaluate_pin_eq:
  "evaluate_pin old_values new_values pin (t, fired) =
     (t\<lparr>tr_pending := tr_pending t @ armed_of t (pin_signals old_values new_values pin)\<rparr>,
      fired @ armed_of t (pin_signals old_values new_values pin))"
  by (simp add: evaluate_pin_def drop_bit_and_1 pin_signals_def notify_fired_def tr_notify_def armed_of_def
      Let_def)

lemma evaluate_gpio_triggers_eq:
  "evaluate_gpio_triggers old_values new_values t =
     (let sigs = armed_of t (concat (map (pin_signals old_values new_values) [0..<kMaxPins]))
      in (t\<lparr>tr_pending := tr_pending t @ sigs\<rparr>, sigs))"
proof -
  have "fold (evaluate_pin old_values new_values) pins (t, fired) =
      (t\<lparr>tr_pending := tr_pending t @ armed_of t (concat (map (pin_signals old_values new_values) pins))\<rparr>,
       fired @ armed_of t (concat (map (pin_signals old_values new_values) pins)))" for pins t fired
    by (induction pins arbitrary: t fired) (simp_all add: evaluate_pin_eq armed_of_def)
  then show ?thesis
    by (simp add: evaluate_gpio_triggers_def Let_def)
qed

text \<open>The value a write computes before the directions decide which pins take it.\<close>

definition combined :: "write_semantics \<Rightarrow> u32 \<Rightarrow> u32 \<Rightarrow> u32" where
  "combined op current operand =
     (case op of
        WReplace \<Rightarrow> operand | WOr \<Rightarrow> current OR operand | WAnd \<Rightarrow> current AND operand
      | WXor \<Rightarrow> current XOR operand
      | WAdd \<Rightarrow> of_nat (min (unat current + unat operand) (2 ^ 32 - 1))
      | WSubtract \<Rightarrow> of_nat (unat operand - unat current)
      | _ \<Rightarrow> current)"

lemma saturating_results:
  "saturating_add a b = (of_nat (min (unat a + unat b) (2 ^ 32 - 1)) :: u32)"
  "saturating_subtract a b = (of_nat (unat a - unat b) :: u32)"
  using arg_cong [OF saturating_add_eq [of a b], where f = "of_nat :: nat \<Rightarrow> u32"]
    arg_cong [OF saturating_subtract_eq [of a b], where f = "of_nat :: nat \<Rightarrow> u32"] by simp_all

lemma apply_gpio_write_eq:
  "apply_gpio_write op operand state =
     (if op = WReconfigure then (None, state\<lparr>pin_directions := operand\<rparr>)
      else if op = WReserved then (Some (Endpoint_err Reserved_write_semantics), state)
      else (None, state\<lparr>pin_values := (combined op (pin_values state) operand AND pin_directions state) OR
                       (pin_values state AND NOT (pin_directions state))\<rparr>))"
  by (cases op) (simp_all add: apply_gpio_write_def combined_def saturating_results)

text \<open>
  C26. A write request changes output pins only. With the reserved meaning it is refused and nothing
  changes; a reconfiguration replaces the directions and no pin; any other write gives each output
  pin its bit of the combined value (addition clamped at the top, and the operand minus the
  current value clamped at zero) and leaves the inputs. For each pin that changed, in ascending
  order, its change signal and then that of its edge become pending if they are armed.
\<close>

theorem gpio_write_exact:
  "(case handle_write op operand ep of (result, ep') \<Rightarrow>
     let s = gpio_state ep; s' = gpio_state ep' in
     tr_enabled (gpio_triggers ep') = tr_enabled (gpio_triggers ep) \<and>
     tr_pending (gpio_triggers ep') = tr_pending (gpio_triggers ep) @
       filter (tr_is_enabled (gpio_triggers ep))
         (concat (map (pin_signals (pin_values s) (pin_values s')) [0..<kMaxPins])) \<and>
     (if op = WReserved
      then result = Inl (Endpoint_err Reserved_write_semantics) \<and> ep' = ep
      else result = Inr (pin_values s') \<and>
        pin_directions s' = (if op = WReconfigure then operand else pin_directions s) \<and>
        (\<forall>pin. bit (pin_values s') pin =
           (if op \<noteq> WReconfigure \<and> bit (pin_directions s) pin
            then bit (combined op (pin_values s) operand) pin else bit (pin_values s) pin))))"
proof -
  have same: "pin_signals v v = (\<lambda>_. [])" for v by (rule ext) (simp add: pin_signals_def)
  have none: "concat (map (\<lambda>_. []) ps) = []" for ps :: "nat list" by (induction ps) auto
  show ?thesis
    by (cases "op = WReconfigure"; cases "op = WReserved")
      (auto simp: handle_write_def apply_gpio_write_eq evaluate_gpio_triggers_eq armed_of_def Let_def same none
        bit_simps split: prod.splits dest: bit_imp_le_length)
qed

section \<open>What debouncing does\<close>

text \<open>
  The reference: over the samples of a pin, latest first, the settled value is that of the latest
  sample which ends a run of at least \<open>n\<close> equal ones.
\<close>

fun settled_of :: "nat \<Rightarrow> bool list \<Rightarrow> bool option" where
  "settled_of n [] = None"
| "settled_of n (x # xs) =
     (if n \<le> length (takeWhile ((=) x) (x # xs)) then Some x else settled_of n xs)"

definition debounced :: "u8 \<Rightarrow> bool list \<Rightarrow> gpio_debounce_state" where
  "debounced n samples =
     fold (\<lambda>x s. snd (snd (debounce_sample x n s))) samples debounce_state_init"

definition follows :: "u8 \<Rightarrow> bool list \<Rightarrow> gpio_debounce_state \<Rightarrow> bool" where
  "follows n xs s \<longleftrightarrow>
     db_has_settled s = (settled_of (unat n) xs \<noteq> None) \<and>
     (db_has_settled s \<longrightarrow> settled_of (unat n) xs = Some (db_settled_value s)) \<and>
     (n \<noteq> 0 \<longrightarrow> (case xs of [] \<Rightarrow> \<not> db_has_candidate s
        | x # _ \<Rightarrow> db_has_candidate s \<and> db_candidate_value s = x \<and>
            unat (db_consecutive_count s) = min 255 (length (takeWhile ((=) x) xs))))"

lemma run_length_le: "n \<le> c \<longleftrightarrow> unat n \<le> k" if "unat c = min 255 k" for n c :: u8
  using that unat_bound [of n] by (auto simp: word_le_nat_alt)

lemma count_up:
  fixes c :: u8
  assumes "unat c = min 255 k" "c < 0xFF"
  shows "unat (c + 1) = min 255 (Suc k)"
  using assms by (simp add: word_less_nat_alt unat_word_ariths)

lemma debounce_sample_follows:
  assumes "follows n xs s"
  shows "(case debounce_sample x n s of (out, changed, s') \<Rightarrow>
    follows n (x # xs) s' \<and> out = (settled_of (unat n) (x # xs) = Some True) \<and>
    changed = (settled_of (unat n) xs \<noteq> None \<and> settled_of (unat n) (x # xs) \<noteq> settled_of (unat n) xs))"
proof (cases "n = 0")
  case True
  then show ?thesis
    using assms by (auto simp: follows_def debounce_sample_def Let_def)
next
  case n: False
  let ?run = "length (takeWhile ((=) x) (x # xs))"
  obtain s1 where s1: "s1 = (if \<not> db_has_candidate s \<or> db_candidate_value s \<noteq> x
      then s\<lparr>db_has_candidate := True, db_candidate_value := x, db_consecutive_count := 1\<rparr>
      else if db_consecutive_count s < 0xFF then s\<lparr>db_consecutive_count := db_consecutive_count s + 1\<rparr>
      else s)" by blast
  have cand: "db_has_candidate s1" "db_candidate_value s1 = x"
    and same: "db_has_settled s1 = db_has_settled s" "db_settled_value s1 = db_settled_value s"
    by (auto simp: s1)
  have count: "unat (db_consecutive_count s1) = min 255 ?run"
  proof (cases xs)
    case Nil
    then show ?thesis using assms n by (simp add: s1 follows_def)
  next
    case (Cons y ys)
    have c: "unat (db_consecutive_count s) = min 255 (length (takeWhile ((=) y) xs))"
      and y: "db_has_candidate s" "db_candidate_value s = y"
      using assms n Cons by (simp_all add: follows_def)
    show ?thesis
    proof (cases "x = y")
      case True
      show ?thesis
      proof (cases "db_consecutive_count s < 0xFF")
        case less: True
        show ?thesis using count_up [OF c less] y True less by (simp add: s1)
      next
        case full: False
        then have "255 \<le> unat (db_consecutive_count s)" by (simp add: word_less_nat_alt)
        then show ?thesis using c y True full by (simp add: s1)
      qed
    next
      case False
      then show ?thesis using Cons y by (simp add: s1)
    qed
  qed
  have le: "n \<le> db_consecutive_count s1 \<longleftrightarrow> unat n \<le> ?run"
    by (rule run_length_le [OF count])
  have st: "settled_of (unat n) (x # xs) = (if unat n \<le> ?run then Some x else settled_of (unat n) xs)"
    by (simp only: settled_of.simps)
  have old: "db_has_settled s = (settled_of (unat n) xs \<noteq> None)"
    "db_has_settled s \<Longrightarrow> settled_of (unat n) xs = Some (db_settled_value s)"
    using assms by (simp_all add: follows_def)
  have d: "debounce_sample x n s =
      (let settles = (n \<le> db_consecutive_count s1 \<and> (\<not> db_has_settled s1 \<or> db_settled_value s1 \<noteq> db_candidate_value s1));
           s2 = (if settles then s1\<lparr>db_has_settled := True, db_settled_value := db_candidate_value s1\<rparr> else s1)
       in (if db_has_settled s2 then db_settled_value s2 else False, settles \<and> db_has_settled s1, s2))"
    unfolding debounce_sample_def Let_def s1 [symmetric] if_not_P [OF n] by (rule refl)
  obtain k where k: "?run = k" by blast
  show ?thesis
    unfolding d Let_def follows_def st list.case same cand k le [unfolded k]
    using old count [unfolded k] cand same n by (cases "unat n \<le> k"; cases "db_has_settled s") auto
qed

lemma debounced_follows: "follows n (rev samples) (debounced n samples)"
proof (induction samples rule: rev_induct)
  case Nil
  show ?case by (simp add: follows_def debounced_def debounce_state_init_def)
next
  case (snoc x samples)
  then show ?case
    using debounce_sample_follows [OF snoc.IH, of x] by (simp add: debounced_def split_def)
qed

text \<open>
  Debouncing lets a level through once it was sampled \<open>n\<close> times in a row. After any samples, a
  further sample returns the level that ended the latest run of \<open>n\<close> equal samples, low before
  there was any, and reports a change exactly when there was a settled level and it is now
  another. Counting stops at 255 without harm, and with \<open>n = 0\<close> each sample passes at once.
\<close>

theorem debounce_exact:
  "(case debounce_sample x n (debounced n samples) of (out, changed, _) \<Rightarrow>
     out = (settled_of (unat n) (x # rev samples) = Some True) \<and>
     changed = (settled_of (unat n) (rev samples) \<noteq> None \<and>
       settled_of (unat n) (x # rev samples) \<noteq> settled_of (unat n) (rev samples)))"
  using debounce_sample_follows [OF debounced_follows [of n samples], of x] by (simp add: split_def)

end
