(* ===== verification/Spi.thy ===== *)
theory Spi
  imports Ep_Block
begin

text \<open>
  The SPI endpoint type, \<open>include/rcp/spi.hpp\<close>: six channels with their clock mode, chip select and
  timing, the register block with one group of registers per channel, the transfer messages with
  the channel in \<open>evt\<close>, and the endpoint that keeps the last transfer of each channel.
\<close>

section \<open>Modes, events and signals\<close>

definition kMaxChannels :: nat where "kMaxChannels = 6"

definition channel_valid :: "u8 \<Rightarrow> bool" where
  "channel_valid channel \<longleftrightarrow> unat channel < kMaxChannels"

datatype spi_mode = Mode0 | Mode1 | Mode2 | Mode3

definition mode_valid :: "u8 \<Rightarrow> bool" where
  "mode_valid v \<longleftrightarrow> v \<le> 3"

fun mode_cpol :: "spi_mode \<Rightarrow> bool" where
  "mode_cpol Mode2 = True"
| "mode_cpol Mode3 = True"
| "mode_cpol _ = False"

fun mode_cpha :: "spi_mode \<Rightarrow> bool" where
  "mode_cpha Mode1 = True"
| "mode_cpha Mode3 = True"
| "mode_cpha _ = False"

datatype spi_bit_order = MsbFirst | LsbFirst

datatype spi_cs_polarity = ActiveLow | ActiveHigh

datatype spi_trigger = None_trigger | TransferDone_trigger | CsAssert_trigger | CsDeassert_trigger

datatype spi_event = TransferDone_event | CsAssert_event | CsDeassert_event

fun trigger_fires :: "spi_trigger \<Rightarrow> spi_event \<Rightarrow> bool" where
  "trigger_fires TransferDone_trigger event = (event = TransferDone_event)"
| "trigger_fires CsAssert_trigger event = (event = CsAssert_event)"
| "trigger_fires CsDeassert_trigger event = (event = CsDeassert_event)"
| "trigger_fires None_trigger event = False"

definition trigger_signal_number :: "u8 \<Rightarrow> spi_trigger \<Rightarrow> u8 option" where
  "trigger_signal_number channel trigger =
     (if kMaxChannels \<le> unat channel then None
      else (case trigger of
              CsAssert_trigger \<Rightarrow> Some (2 + 2 * channel)
            | CsDeassert_trigger \<Rightarrow> Some (3 + 2 * channel)
            | _ \<Rightarrow> None))"

section \<open>Functional configuration\<close>

record spi_channel_cfg =
  ch_mode :: spi_mode
  ch_bit_order :: spi_bit_order
  ch_cs_polarity :: spi_cs_polarity
  ch_trigger :: spi_trigger
  ch_clock_divider :: u32
  ch_inter_byte_delay_ns :: u32
  ch_inter_transfer_delay_ns :: u32
  ch_baud_rate_kbps :: u16
  ch_use_common_cs :: bool
  ch_cs_clk_leadtime :: u8
  ch_clk_cs_trailtime :: u8
  ch_bits_max :: u8
  ch_pause_min :: u8
  ch_deassert_cs_pause :: bool

text \<open>The array of channels is a list of length \<open>kMaxChannels\<close>.\<close>

record spi_functional_cfg = ep_flags +
  spi_channels :: "spi_channel_cfg list"
  spi_ep_status :: u16

definition channel_cfg_default :: spi_channel_cfg where
  "channel_cfg_default =
     \<lparr>ch_mode = Mode0, ch_bit_order = MsbFirst, ch_cs_polarity = ActiveLow, ch_trigger = None_trigger,
      ch_clock_divider = 0, ch_inter_byte_delay_ns = 0, ch_inter_transfer_delay_ns = 0,
      ch_baud_rate_kbps = 0, ch_use_common_cs = False, ch_cs_clk_leadtime = 0,
      ch_clk_cs_trailtime = 0, ch_bits_max = 0, ch_pause_min = 0, ch_deassert_cs_pause = False\<rparr>"

definition functional_cfg_init :: spi_functional_cfg where
  "functional_cfg_init =
     \<lparr>ep_enable = False, ep_clear_req_storage = False, ep_req_crc_enable = False,
      ep_response_ts_enable = False, ep_suppress_response = False,
      spi_channels = replicate kMaxChannels channel_cfg_default, spi_ep_status = 0\<rparr>"

text \<open>The setters of a channel's fields.\<close>

definition set_channel ::
    "u8 \<Rightarrow> server_state \<Rightarrow> writer_ctx \<Rightarrow> (spi_channel_cfg \<Rightarrow> spi_channel_cfg) \<Rightarrow>
      spi_functional_cfg \<Rightarrow> bool \<times> spi_functional_cfg" where
  "set_channel channel state writer update cfg =
     guarded_write (channel_valid channel \<and> functional_cfg_writable state writer)
       (\<lambda>c. c\<lparr>spi_channels := (spi_channels c)[unat channel := update (spi_channels c ! unat channel)]\<rparr>) cfg"

definition set_channel_mode ::
    "u8 \<Rightarrow> spi_mode \<Rightarrow> server_state \<Rightarrow> writer_ctx \<Rightarrow> spi_functional_cfg \<Rightarrow> bool \<times> spi_functional_cfg" where
  "set_channel_mode channel mode state writer cfg =
     set_channel channel state writer (\<lambda>ch. ch\<lparr>ch_mode := mode\<rparr>) cfg"

definition set_channel_bit_order ::
    "u8 \<Rightarrow> spi_bit_order \<Rightarrow> server_state \<Rightarrow> writer_ctx \<Rightarrow> spi_functional_cfg \<Rightarrow> bool \<times> spi_functional_cfg" where
  "set_channel_bit_order channel bit_order state writer cfg =
     set_channel channel state writer (\<lambda>ch. ch\<lparr>ch_bit_order := bit_order\<rparr>) cfg"

definition set_channel_cs_polarity ::
    "u8 \<Rightarrow> spi_cs_polarity \<Rightarrow> server_state \<Rightarrow> writer_ctx \<Rightarrow> spi_functional_cfg \<Rightarrow> bool \<times> spi_functional_cfg" where
  "set_channel_cs_polarity channel cs_polarity state writer cfg =
     set_channel channel state writer (\<lambda>ch. ch\<lparr>ch_cs_polarity := cs_polarity\<rparr>) cfg"

definition set_channel_clock_divider ::
    "u8 \<Rightarrow> u32 \<Rightarrow> server_state \<Rightarrow> writer_ctx \<Rightarrow> spi_functional_cfg \<Rightarrow> bool \<times> spi_functional_cfg" where
  "set_channel_clock_divider channel clock_divider state writer cfg =
     set_channel channel state writer (\<lambda>ch. ch\<lparr>ch_clock_divider := clock_divider\<rparr>) cfg"

definition set_channel_timing ::
    "u8 \<Rightarrow> u32 \<Rightarrow> u32 \<Rightarrow> server_state \<Rightarrow> writer_ctx \<Rightarrow> spi_functional_cfg \<Rightarrow> bool \<times> spi_functional_cfg" where
  "set_channel_timing channel inter_byte_delay_ns inter_transfer_delay_ns state writer cfg =
     set_channel channel state writer
       (\<lambda>ch. ch\<lparr>ch_inter_byte_delay_ns := inter_byte_delay_ns,
          ch_inter_transfer_delay_ns := inter_transfer_delay_ns\<rparr>) cfg"

definition set_channel_trigger ::
    "u8 \<Rightarrow> spi_trigger \<Rightarrow> server_state \<Rightarrow> writer_ctx \<Rightarrow> spi_functional_cfg \<Rightarrow> bool \<times> spi_functional_cfg" where
  "set_channel_trigger channel trigger state writer cfg =
     set_channel channel state writer (\<lambda>ch. ch\<lparr>ch_trigger := trigger\<rparr>) cfg"

section \<open>Registers\<close>

definition kRegChannelBase :: nat where "kRegChannelBase = 0x0006"
definition kRegChannelSpan :: nat where "kRegChannelSpan = 0x0008"
definition kCfgBitClkPolarity :: u8 where [wire_defs]: "kCfgBitClkPolarity = 0x01"
definition kCfgBitClkPhase :: u8 where [wire_defs]: "kCfgBitClkPhase = 0x02"
definition kCfgBitCsPolarity :: u8 where [wire_defs]: "kCfgBitCsPolarity = 0x04"
definition kCfgBitUseCs :: u8 where [wire_defs]: "kCfgBitUseCs = 0x08"
definition kCfgBitDeassertCsPause :: u8 where [wire_defs]: "kCfgBitDeassertCsPause = 0x10"

definition kEpFuncLen :: nat where "kEpFuncLen = kRegChannelBase + kMaxChannels * kRegChannelSpan"

definition mode_from_bits :: "bool \<Rightarrow> bool \<Rightarrow> spi_mode" where
  "mode_from_bits cpol cpha =
     (if \<not> cpol \<and> \<not> cpha then Mode0 else if \<not> cpol \<and> cpha then Mode1
      else if cpol \<and> \<not> cpha then Mode2 else Mode3)"

definition reg_offset_read_only :: "nat \<Rightarrow> bool" where
  "reg_offset_read_only addr =
     (if addr = 0 \<or> addr = 1 then True
      else if kRegChannelBase \<le> addr then (addr - kRegChannelBase) mod kRegChannelSpan = 7
      else False)"

definition cfg_octet :: "spi_channel_cfg \<Rightarrow> u8" where
  "cfg_octet ch =
     (if mode_cpol (ch_mode ch) then kCfgBitClkPolarity else 0) OR
     (if mode_cpha (ch_mode ch) then kCfgBitClkPhase else 0) OR
     (if ch_cs_polarity ch = ActiveHigh then kCfgBitCsPolarity else 0) OR
     (if ch_use_common_cs ch then kCfgBitUseCs else 0) OR
     (if ch_deassert_cs_pause ch then kCfgBitDeassertCsPause else 0)"

definition render_channel :: "spi_channel_cfg \<Rightarrow> octets" where
  "render_channel ch =
     put_u16 (ch_baud_rate_kbps ch) @
     [cfg_octet ch, ch_cs_clk_leadtime ch, ch_clk_cs_trailtime ch, ch_bits_max ch, ch_pause_min ch, 0]"

definition render_registers :: "spi_functional_cfg \<Rightarrow> octets" where
  "render_registers cfg =
     [of_nat kEpFuncLen, of_nat ((kMaxChannels - 1) mod 16)] @ render_flags cfg @ put_u16 (spi_ep_status cfg) @
     concat (map render_channel (spi_channels cfg))"

definition parse_channel :: "octets \<Rightarrow> spi_channel_cfg \<Rightarrow> spi_channel_cfg" where
  "parse_channel b ch =
     (let cfg_byte = b ! 2;
          cpol = (cfg_byte AND kCfgBitClkPolarity \<noteq> 0); cpha = (cfg_byte AND kCfgBitClkPhase \<noteq> 0)
      in ch\<lparr>ch_mode := mode_from_bits cpol cpha,
         ch_cs_polarity := (if cfg_byte AND kCfgBitCsPolarity \<noteq> 0 then ActiveHigh else ActiveLow),
         ch_use_common_cs := (cfg_byte AND kCfgBitUseCs \<noteq> 0),
         ch_deassert_cs_pause := (cfg_byte AND kCfgBitDeassertCsPause \<noteq> 0),
         ch_baud_rate_kbps := get_u16 b, ch_cs_clk_leadtime := b ! 3, ch_clk_cs_trailtime := b ! 4,
         ch_bits_max := b ! 5, ch_pause_min := b ! 6\<rparr>)"

definition parse_registers :: "octets \<Rightarrow> spi_functional_cfg \<Rightarrow> spi_functional_cfg" where
  "parse_registers b cfg = parse_flags (b ! 2) (b ! 3)
     (cfg\<lparr>spi_ep_status := get_u16 (drop 4 b),
      spi_channels := map (\<lambda>c. parse_channel (drop (kRegChannelBase + c * kRegChannelSpan) b) (spi_channels cfg ! c))
        [0..<kMaxChannels]\<rparr>)"

datatype spi_reconfig_errc = Short_payload | Out_of_range

definition apply_reconfig ::
    "octets \<Rightarrow> spi_functional_cfg \<Rightarrow> spi_reconfig_errc option \<times> spi_functional_cfg" where
  "apply_reconfig payload cfg =
     block_reconfig Short_payload Out_of_range kEpFuncLen reg_offset_read_only render_registers
       parse_registers payload cfg"

definition encode_reconfig_request :: "u16 \<Rightarrow> u16 \<Rightarrow> octets \<Rightarrow> u8 \<Rightarrow> octets" where
  "encode_reconfig_request byte_bus_id start_address data transaction_num =
     encode_config_write byte_bus_id start_address data transaction_num"

text \<open>The bits kept in the octet with a channel's flags are the low five.\<close>

definition kept_bits :: "nat \<Rightarrow> u8 \<Rightarrow> u8" where
  "kept_bits a x =
     (if kRegChannelBase \<le> a \<and> (a - kRegChannelBase) mod kRegChannelSpan = 2 then x AND 0x1F
      else kept_flags a x)"

definition wf_spi_cfg :: "spi_functional_cfg \<Rightarrow> bool" where
  "wf_spi_cfg cfg \<longleftrightarrow> length (spi_channels cfg) = kMaxChannels"

lemma render_parse_channel:
  assumes "8 \<le> length b"
  shows "render_channel (parse_channel b ch) = [b ! 0, b ! 1, b ! 2 AND 0x1F, b ! 3, b ! 4, b ! 5, b ! 6, 0]"
proof -
  have "cfg_octet (parse_channel b ch) = b ! 2 AND 0x1F"
    by (auto simp: cfg_octet_def parse_channel_def mode_from_bits_def Let_def wire_defs bits)
  then show ?thesis
    by (simp add: render_channel_def put_u16_def) (simp add: parse_channel_def Let_def)
qed

lemma parse_render_channel [simp]: "parse_channel (render_channel ch @ r) ch = ch"
proof -
  have "mode_from_bits (mode_cpol m) (mode_cpha m) = m" for m
    by (cases m) (simp_all add: mode_from_bits_def)
  moreover have "cfg_octet ch AND kCfgBitClkPolarity \<noteq> 0 \<longleftrightarrow> mode_cpol (ch_mode ch)"
    "cfg_octet ch AND kCfgBitClkPhase \<noteq> 0 \<longleftrightarrow> mode_cpha (ch_mode ch)"
    "cfg_octet ch AND kCfgBitCsPolarity \<noteq> 0 \<longleftrightarrow> ch_cs_polarity ch = ActiveHigh"
    "cfg_octet ch AND kCfgBitUseCs \<noteq> 0 \<longleftrightarrow> ch_use_common_cs ch"
    "cfg_octet ch AND kCfgBitDeassertCsPause \<noteq> 0 \<longleftrightarrow> ch_deassert_cs_pause ch"
    by (auto simp: cfg_octet_def wire_defs bits)
  moreover have "(if ch_cs_polarity ch = ActiveHigh then ActiveHigh else ActiveLow) = ch_cs_polarity ch"
    by (cases "ch_cs_polarity ch") simp_all
  ultimately show ?thesis
    by (simp add: parse_channel_def render_channel_def put_u16_def Let_def)
qed

lemma length_channel [simp]: "length (render_channel ch) = 8"
  by (simp add: render_channel_def)

lemma cfg_octet_kept [simp]: "cfg_octet ch AND 0x1F = cfg_octet ch"
  by (simp add: cfg_octet_def wire_defs bits)

lemma six_channels: "length xs = kMaxChannels \<Longrightarrow> \<exists>a b c d e f. xs = [a, b, c, d, e, f]"
  by (auto simp: kMaxChannels_def length_Suc_conv eval_nat_numeral)

lemmas spi_registers = render_registers_def parse_registers_def reg_offset_read_only_def kept_bits_def
  kept_flags_def flag_defs register_addresses kEpFuncLen_def kRegChannelBase_def kRegChannelSpan_def
  kMaxChannels_def

interpretation spi_block: register_block kEpFuncLen reg_offset_read_only kept_bits render_registers
    parse_registers wf_spi_cfg "\<lambda>_. True"
proof
  fix cfg :: spi_functional_cfg and block
  assume wf: "wf_spi_cfg cfg"
  then obtain c0 c1 c2 c3 c4 c5 where ch: "spi_channels cfg = [c0, c1, c2, c3, c4, c5]"
    by (metis six_channels wf_spi_cfg_def)
  show "length (render_registers cfg) = kEpFuncLen"
    by (simp add: spi_registers ch render_channel_def)
  show "render_registers (parse_registers block cfg) =
      map (\<lambda>a. if reg_offset_read_only a then render_registers cfg ! a else kept_bits a (block ! a)) [0..<kEpFuncLen]"
    if "length block = kEpFuncLen"
    using that by (simp add: spi_registers ch render_parse_channel) (simp add: render_channel_def put_u16_def)
  show "map (\<lambda>a. kept_bits a (render_registers cfg ! a)) [0..<kEpFuncLen] = render_registers cfg"
    by (simp add: spi_registers ch render_channel_def put_u16_def)
  show "wf_spi_cfg (parse_registers block cfg)" if "length block = kEpFuncLen"
    by (simp add: wf_spi_cfg_def parse_registers_def parse_flags_def)
  show "parse_registers (render_registers cfg) cfg = cfg"
    using ch parse_render_channel [where r = "[]"]
    by (simp add: spi_registers put_u16_def [of "spi_ep_status cfg"])
qed simp

section \<open>Messages\<close>

datatype spi_errc = Short_frame | Bad_msg_type | Wrong_bus | Wrong_op | Bad_channel

definition channel_of :: "u8 \<Rightarrow> spi_errc + u8" where
  "channel_of evt_op =
     (let channel = evt_op AND 0x07 in if \<not> channel_valid channel then Inl Bad_channel else Inr channel)"

definition encode_transfer_request :: "u16 \<Rightarrow> u8 \<Rightarrow> octets \<Rightarrow> u16 \<Rightarrow> u8 \<Rightarrow> octets" where
  "encode_transfer_request byte_bus_id channel tx_data read_size transaction_num =
     (if kAcfAbbMaxPayload < length tx_data then []
      else encode_acf_abb (acf_default\<lparr>a_byte_bus_id := byte_bus_id, a_op := False,
             a_evt_op := channel AND 0x7, a_read_size := read_size,
             a_transaction_num := transaction_num\<rparr>) tx_data)"

definition decode_transfer_request :: "u16 \<Rightarrow> octets \<Rightarrow> spi_errc + (u8 \<times> octets \<times> u16 \<times> u8)" where
  "decode_transfer_request expected_bus_id b =
     (case open_abb Short_frame Bad_msg_type Wrong_bus expected_bus_id b of
        Inl ec \<Rightarrow> Inl ec
      | Inr (hdr, payload) \<Rightarrow>
          if a_op hdr then Inl Wrong_op
          else
            (let channel = a_evt_op hdr AND 0x7 in
             if \<not> channel_valid channel then Inl Bad_channel
             else Inr (channel, payload, a_read_size hdr, a_transaction_num hdr)))"

definition transfer_length :: "nat \<Rightarrow> u16 \<Rightarrow> nat" where
  "transfer_length tx_len read_size = (if tx_len < unat read_size then unat read_size else tx_len)"

definition encode_response :: "u16 \<Rightarrow> u8 \<Rightarrow> octets \<Rightarrow> u8 \<Rightarrow> bool \<Rightarrow> u64 \<Rightarrow> octets" where
  "encode_response byte_bus_id channel rx_data transaction_num timed timestamp =
     encode_timed (acf_default\<lparr>a_byte_bus_id := byte_bus_id, a_op := False, a_rsp := True,
       a_evt_op := channel AND 0x7, a_transaction_num := transaction_num\<rparr>) rx_data timed timestamp"

definition decode_response :: "u16 \<Rightarrow> octets \<Rightarrow> spi_errc + (u8 \<times> octets \<times> bool \<times> u64 \<times> u8)" where
  "decode_response expected_bus_id b =
     (case open_response Short_frame Bad_msg_type Wrong_bus expected_bus_id b of
        Inl ec \<Rightarrow> Inl ec
      | Inr (hdr, payload, timed, timestamp) \<Rightarrow>
          (let channel = a_evt_op hdr AND 0x7 in
           if \<not> channel_valid channel then Inl Bad_channel
           else Inr (channel, payload, timed, timestamp, a_transaction_num hdr)))"

lemma valid_channel_kept [simp]: "channel_valid ch \<Longrightarrow> ch AND 7 = ch"
  using less_mask_eq [of ch 3]
  by (simp add: channel_valid_def kMaxChannels_def mask_numeral word_less_nat_alt)

interpretation spi_request: message_codec
    "\<lambda>(channel, tx_data, read_size, txn). encode_transfer_request bus channel tx_data read_size txn"
    "decode_transfer_request bus"
    "\<lambda>(channel, tx_data, read_size, txn). bus < 0x800 \<and> channel_valid channel \<and> read_size \<le> 0xFFF \<and>
       length tx_data \<le> kAcfAbbMaxPayload" for bus
  by unfold_locales (auto simp: encode_transfer_request_def decode_transfer_request_def Let_def)

interpretation spi_response: message_codec
    "\<lambda>(channel, rx_data, timed, ts, txn). encode_response bus channel rx_data txn timed ts" "decode_response bus"
    "\<lambda>(channel, rx_data, timed, ts, txn). bus < 0x800 \<and> channel_valid channel \<and> (timed \<or> ts = 0)" for bus
  by unfold_locales (auto simp: encode_response_def decode_response_def Let_def)

section \<open>The endpoint\<close>

datatype spi_signal = TransferComplete | CsAssert | CsDeassert

fun spi_signal_value :: "spi_signal \<Rightarrow> u16" where
  "spi_signal_value TransferComplete = 0"
| "spi_signal_value CsAssert = 1"
| "spi_signal_value CsDeassert = 2"

definition spi_signal_id :: "u8 \<Rightarrow> spi_signal \<Rightarrow> u16" where
  "spi_signal_id channel sig = push_bit 2 (ucast channel) OR spi_signal_value sig"

record spi_endpoint =
  spi_triggers :: trigger_registry
  spi_last_pico_out :: "octets list"
  spi_last_poci_in :: "octets list"

definition transfer :: "u8 \<Rightarrow> octets \<Rightarrow> octets \<Rightarrow> spi_endpoint \<Rightarrow> spi_errc option \<times> spi_endpoint" where
  "transfer channel pico_out poci_in ep =
     (if \<not> channel_valid channel then (Some Bad_channel, ep)
      else
        (None, ep\<lparr>
           spi_last_pico_out := (spi_last_pico_out ep)[unat channel := pico_out],
           spi_last_poci_in := (spi_last_poci_in ep)[unat channel := poci_in],
           spi_triggers :=
             notify (spi_signal_id channel CsDeassert)
               (notify (spi_signal_id channel TransferComplete)
                 (notify (spi_signal_id channel CsAssert) (spi_triggers ep)))\<rparr>))"

end
