(* ===== verification/Adc.thy ===== *)
theory Adc
  imports Ep_Block
begin

text \<open>
  The ADC endpoint type, \<open>include/rcp/adc.hpp\<close>: averaging of the samples of an interval, the check
  of their spacing, threshold triggers, the register block, the messages, and the endpoint that
  collects averaged values until a response is due.
\<close>

section \<open>Samples and averages\<close>

definition kAdcNoSignal :: u16 where "kAdcNoSignal = 0xFFFF"

definition kAdcValueLen :: nat where "kAdcValueLen = 2"

definition kAdcMaxResponseValues :: nat where
  "kAdcMaxResponseValues = kAcfAbbMaxPayload div kAdcValueLen"

definition kAdcMaxCombineValues :: nat where "kAdcMaxCombineValues = 255"

definition response_value_count :: "u16 \<Rightarrow> nat" where
  "response_value_count read_size =
     (if unat read_size mod kAdcValueLen \<noteq> 0 then 0 else unat read_size div kAdcValueLen)"

text \<open>\<open>AdcSample\<close> and \<open>AdcAvgValue\<close> have the same two fields.\<close>

record adc_sample =
  ad_value :: u16
  ad_timestamp :: u64

type_synonym adc_avg_value = adc_sample

text \<open>The first loop: the 64-bit sum of the samples with a signal, and their number.\<close>

definition add_sample :: "adc_sample \<Rightarrow> u64 \<times> nat \<Rightarrow> u64 \<times> nat" where
  "add_sample s acc =
     (if ad_value s = kAdcNoSignal then acc else (fst acc + ucast (ad_value s), snd acc + 1))"

text \<open>The second loop runs from the back to the last sample with a signal.\<close>

definition interval_timestamp :: "adc_sample list \<Rightarrow> u64" where
  "interval_timestamp samples =
     (case find (\<lambda>s. ad_value s \<noteq> kAdcNoSignal) (rev samples) of
        Some s \<Rightarrow> ad_timestamp s | None \<Rightarrow> ad_timestamp (last samples))"

definition average_interval :: "adc_sample list \<Rightarrow> adc_avg_value" where
  "average_interval samples =
     (if samples = [] then \<lparr>ad_value = kAdcNoSignal, ad_timestamp = 0\<rparr>
      else
        (case fold add_sample samples (0, 0) of (acc, counted) \<Rightarrow>
           \<lparr>ad_value = (if counted = 0 then kAdcNoSignal else ucast (acc div of_nat counted)),
            ad_timestamp = interval_timestamp samples\<rparr>))"

datatype adc_spacing_result = Ok | Violation

fun spaced_within :: "u64 \<Rightarrow> u64 \<Rightarrow> adc_sample list \<Rightarrow> adc_spacing_result" where
  "spaced_within lo hi (s # s' # rest) =
     (if ad_timestamp s' < ad_timestamp s then Violation
      else
        (let actual_ns = ad_timestamp s' - ad_timestamp s in
         if actual_ns < lo \<or> hi < actual_ns then Violation else spaced_within lo hi (s' # rest)))"
| "spaced_within lo hi _ = Ok"

definition validate_sample_spacing ::
    "adc_sample list \<Rightarrow> u8 \<Rightarrow> u8 \<Rightarrow> u32 \<Rightarrow> u64 \<Rightarrow> adc_spacing_result" where
  "validate_sample_spacing samples base_clk_divider sample_interval base_clk_hz tolerance_ns =
     (if length samples < 2 \<or> base_clk_hz = 0 \<or> base_clk_divider = 0 then Ok
      else
        (let expected_ns = ucast sample_interval * ucast base_clk_divider * 1000000000 div ucast base_clk_hz;
             lo = (if tolerance_ns < expected_ns then expected_ns - tolerance_ns else 0);
             hi = (if expected_ns \<le> - 1 - tolerance_ns then expected_ns + tolerance_ns else - 1)
         in spaced_within lo hi samples))"

definition collect_response_values :: "adc_avg_value list \<Rightarrow> nat \<Rightarrow> u16 list" where
  "collect_response_values avg_values value_count =
     map ad_value (take (min (length avg_values) value_count) avg_values)"

datatype adc_cadence_case = Accumulate | OneToOne | FanOut

definition cadence_case :: "u16 \<Rightarrow> u8 \<Rightarrow> adc_cadence_case" where
  "cadence_case avg_intervals_per_request combine_avg_values =
     (if unat avg_intervals_per_request < unat combine_avg_values then Accumulate
      else if unat combine_avg_values < unat avg_intervals_per_request then FanOut
      else OneToOne)"

definition cadence_response_ready :: "nat \<Rightarrow> u8 \<Rightarrow> bool" where
  "cadence_response_ready pending_value_count combine_avg_values \<longleftrightarrow>
     unat combine_avg_values \<le> pending_value_count"

definition capture_moment_timestamp :: "adc_avg_value list \<Rightarrow> u64" where
  "capture_moment_timestamp avg_values = (if avg_values = [] then 0 else ad_timestamp (hd avg_values))"

section \<open>Functional configuration\<close>

record adc_functional_config = ep_flags +
  adc_samples_per_avg_interval :: u16
  adc_avg_intervals_per_request :: u16
  adc_combine_avg_values :: u8
  adc_ep_status :: u16
  adc_base_clk_divider :: u8
  adc_sample_interval :: u8
  adc_resolution :: u8
  adc_trigger_min :: u16
  adc_trigger_max :: u16

definition set_samples_per_avg_interval ::
    "u16 \<Rightarrow> server_state \<Rightarrow> writer_ctx \<Rightarrow> adc_functional_config \<Rightarrow> bool \<times> adc_functional_config" where
  "set_samples_per_avg_interval samples_per_interval state writer cfg =
     guarded_write (functional_cfg_writable state writer)
       (\<lambda>c. c\<lparr>adc_samples_per_avg_interval := samples_per_interval\<rparr>) cfg"

definition set_avg_intervals_per_request ::
    "u16 \<Rightarrow> server_state \<Rightarrow> writer_ctx \<Rightarrow> adc_functional_config \<Rightarrow> bool \<times> adc_functional_config" where
  "set_avg_intervals_per_request intervals_per_request state writer cfg =
     guarded_write (functional_cfg_writable state writer)
       (\<lambda>c. c\<lparr>adc_avg_intervals_per_request := intervals_per_request\<rparr>) cfg"

definition set_combine_avg_values ::
    "u8 \<Rightarrow> server_state \<Rightarrow> writer_ctx \<Rightarrow> adc_functional_config \<Rightarrow> bool \<times> adc_functional_config" where
  "set_combine_avg_values combine_avg_values state writer cfg =
     guarded_write (functional_cfg_writable state writer)
       (\<lambda>c. c\<lparr>adc_combine_avg_values := combine_avg_values\<rparr>) cfg"

section \<open>Threshold triggers\<close>

definition kAdcTriggerBelowMin :: u8 where [wire_defs]: "kAdcTriggerBelowMin = 0x01"
definition kAdcTriggerAboveMin :: u8 where [wire_defs]: "kAdcTriggerAboveMin = 0x02"
definition kAdcTriggerBelowMax :: u8 where [wire_defs]: "kAdcTriggerBelowMax = 0x04"
definition kAdcTriggerAboveMax :: u8 where [wire_defs]: "kAdcTriggerAboveMax = 0x08"
definition kAdcTriggerMeasurementFinished :: u8 where [wire_defs]:
  "kAdcTriggerMeasurementFinished = 0x10"

record adc_trigger_state =
  ts_has_previous :: bool
  ts_previous_value :: u16

definition trigger_evaluate ::
    "u16 \<Rightarrow> u16 \<Rightarrow> u16 \<Rightarrow> bool \<Rightarrow> adc_trigger_state \<Rightarrow> u8 \<times> adc_trigger_state" where
  "trigger_evaluate value trigger_min trigger_max measurement_finished s =
     (let prev = ts_previous_value s;
          crossed = (if ts_has_previous s
            then (if trigger_min \<le> prev \<and> value < trigger_min then kAdcTriggerBelowMin else 0) OR
                 (if prev \<le> trigger_min \<and> trigger_min < value then kAdcTriggerAboveMin else 0) OR
                 (if trigger_max \<le> prev \<and> value < trigger_max then kAdcTriggerBelowMax else 0) OR
                 (if prev \<le> trigger_max \<and> trigger_max < value then kAdcTriggerAboveMax else 0)
            else 0);
          fired = crossed OR (if measurement_finished then kAdcTriggerMeasurementFinished else 0)
      in (fired, \<lparr>ts_has_previous = True, ts_previous_value = value\<rparr>))"

section \<open>Registers\<close>

datatype adc_errc =
    No_signal | Short_frame | Bad_msg_type | Wrong_bus | Wrong_op | Bad_payload_len | Too_many_values
  | Bad_evt | Reconfig_short | Reconfig_out_of_range | Pending_values_full | Response_not_ready

fun wire_error :: "adc_errc \<Rightarrow> wire_error_code option" where
  "wire_error Bad_payload_len = Some InvalidParameter"
| "wire_error Bad_evt = Some UnsupportedCmd"
| "wire_error _ = None"

definition kAdcEpFuncLen :: nat where "kAdcEpFuncLen = 0x0012"

definition adc_reg_offset_read_only :: "nat \<Rightarrow> bool" where
  "adc_reg_offset_read_only addr \<longleftrightarrow> addr = 0 \<or> addr = 1 \<or> addr = 4 \<or> addr = 5"

text \<open>The two 16-bit counts have 8-bit registers: only their low octets are rendered.\<close>

definition render_registers :: "adc_functional_config \<Rightarrow> octets" where
  "render_registers cfg =
     [of_nat kAdcEpFuncLen, 0] @ render_flags cfg @ put_u16 0 @ put_u16 (adc_ep_status cfg) @
     [adc_base_clk_divider cfg, adc_sample_interval cfg,
      ucast (adc_avg_intervals_per_request cfg AND 0xFF),
      ucast (adc_samples_per_avg_interval cfg AND 0xFF),
      adc_combine_avg_values cfg, adc_resolution cfg] @
     put_u16 (adc_trigger_min cfg) @ put_u16 (adc_trigger_max cfg)"

definition adc_parse_registers :: "octets \<Rightarrow> adc_functional_config \<Rightarrow> adc_functional_config" where
  "adc_parse_registers b cfg = parse_flags (b ! 2) (b ! 3)
     (cfg\<lparr>adc_ep_status := get_u16 (drop 6 b), adc_base_clk_divider := b ! 8,
      adc_sample_interval := b ! 9, adc_avg_intervals_per_request := ucast (b ! 10),
      adc_samples_per_avg_interval := ucast (b ! 11), adc_combine_avg_values := b ! 12,
      adc_resolution := b ! 13, adc_trigger_min := get_u16 (drop 14 b),
      adc_trigger_max := get_u16 (drop 16 b)\<rparr>)"

definition apply_reconfig ::
    "octets \<Rightarrow> adc_functional_config \<Rightarrow> adc_errc option \<times> adc_functional_config" where
  "apply_reconfig payload cfg =
     block_reconfig Reconfig_short Reconfig_out_of_range kAdcEpFuncLen adc_reg_offset_read_only
       render_registers adc_parse_registers payload cfg"

text \<open>The configurations whose counts fit their registers.\<close>

definition adc_cfg_fits :: "adc_functional_config \<Rightarrow> bool" where
  "adc_cfg_fits cfg \<longleftrightarrow> adc_avg_intervals_per_request cfg < 0x100 \<and> adc_samples_per_avg_interval cfg < 0x100"

lemma octet_of_count: "c < 0x100 \<Longrightarrow> ucast (ucast c :: u8) = (c :: u16)"
  using less_mask_eq [of c 8] by (simp add: mask_numeral bits)

lemma unat_widen [simp]: "unat (ucast (x :: u8) :: u16) = unat x"
  using unat_bound [of x] by (simp add: unsigned_ucast_eq take_bit_nat_eq_self)

lemma count_of_octet [simp]: "ucast (ucast x :: u16) = (x :: u8)" "(ucast (x :: u8) :: u16) < 0x100"
  using unat_bound [of x] by (simp_all add: bits word_less_nat_alt del: unsigned_ucast_eq)

interpretation adc_block: register_block kAdcEpFuncLen adc_reg_offset_read_only kept_flags
    render_registers adc_parse_registers "\<lambda>_. True" adc_cfg_fits
  by unfold_locales
    (simp_all add: kAdcEpFuncLen_def render_registers_def adc_parse_registers_def adc_cfg_fits_def
      adc_reg_offset_read_only_def kept_flags_def flag_defs register_addresses put_u16_def octet_of_count)

text \<open>
  A count of 256 samples per interval, which the setter accepts, does not survive a configuration
  write to another register: parsing the whole block back leaves zero.
\<close>

lemma unrelated_write_truncates_count:
  "adc_samples_per_avg_interval (snd (apply_reconfig [0, 8, d] (cfg\<lparr>adc_samples_per_avg_interval := 0x100\<rparr>))) = 0"
  by (simp add: apply_reconfig_def block_reconfig_def kReconfigAddrLen_def kAdcEpFuncLen_def get_u16_def
      adc_reg_offset_read_only_def adc_parse_registers_def parse_flags_def render_registers_def
      render_flags_def put_u16_def)

section \<open>Messages\<close>

definition encode_read_request :: "u16 \<Rightarrow> u16 \<Rightarrow> u8 \<Rightarrow> octets" where
  "encode_read_request byte_bus_id read_size transaction_num =
     encode_acf_abb (acf_default\<lparr>a_byte_bus_id := byte_bus_id, a_op := False, a_read_size := read_size,
       a_transaction_num := transaction_num\<rparr>) []"

definition decode_read_request :: "u16 \<Rightarrow> octets \<Rightarrow> adc_errc + (u16 \<times> u8)" where
  "decode_read_request expected_bus_id b =
     (case open_abb Short_frame Bad_msg_type Wrong_bus expected_bus_id b of
        Inl ec \<Rightarrow> Inl ec
      | Inr (info, payload) \<Rightarrow>
          if a_op info then Inl Wrong_op
          else if evt_row2_kind_of (a_evt_op info) \<noteq> Plain then Inl Bad_evt
          else Inr (a_read_size info, a_transaction_num info))"

definition encode_response :: "u16 \<Rightarrow> u16 list \<Rightarrow> u8 \<Rightarrow> bool \<Rightarrow> u64 \<Rightarrow> octets" where
  "encode_response byte_bus_id vals transaction_num timed timestamp =
     (if vals = [] \<or> kAdcMaxResponseValues < length vals then []
      else
        (let payload = concat (map put_u16 vals)
         in encode_timed (acf_default\<lparr>a_byte_bus_id := byte_bus_id, a_op := False, a_rsp := True,
              a_read_size := of_nat (length payload), a_transaction_num := transaction_num\<rparr>)
              payload timed timestamp))"

definition decode_response :: "u16 \<Rightarrow> nat \<Rightarrow> octets \<Rightarrow> adc_errc + (u16 list \<times> bool \<times> u64 \<times> u8)" where
  "decode_response expected_bus_id max_values b =
     (case open_response Short_frame Bad_msg_type Wrong_bus expected_bus_id b of
        Inl ec \<Rightarrow> Inl ec
      | Inr (info, payload, timed, timestamp) \<Rightarrow>
          if payload = [] \<or> length payload mod kAdcValueLen \<noteq> 0 then Inl Bad_payload_len
          else
            (let value_count = length payload div kAdcValueLen in
             if max_values < value_count then Inl Too_many_values
             else Inr (map (\<lambda>i. get_u16 (drop (i * kAdcValueLen) payload)) [0..<value_count], timed,
                    timestamp, a_transaction_num info)))"

definition encode_reconfig_request :: "u16 \<Rightarrow> u16 \<Rightarrow> octets \<Rightarrow> u8 \<Rightarrow> octets" where
  "encode_reconfig_request byte_bus_id start_address data transaction_num =
     encode_config_write byte_bus_id start_address data transaction_num"

lemma length_values [simp]: "length (concat (map put_u16 vals)) = 2 * length vals"
  by (induction vals) simp_all

lemma get_values [simp]:
  "map (\<lambda>i. get_u16 (drop (i * 2) (concat (map put_u16 vals)))) [0..<length vals] = vals"
proof (induction vals)
  case (Cons v vals)
  have "drop (Suc i * 2) (put_u16 v @ r) = drop (i * 2) r" for i r
    by (simp add: put_u16_def)
  then show ?case
    using Cons.IH by (simp add: map_upt_Suc del: upt_Suc mult_Suc)
qed simp

interpretation adc_request: message_codec "\<lambda>(read_size, txn). encode_read_request bus read_size txn"
    "decode_read_request bus" "\<lambda>(read_size, txn). bus < 0x800 \<and> read_size \<le> 0xFFF" for bus
  by unfold_locales (auto simp: encode_read_request_def decode_read_request_def acf_default_def)

interpretation adc_response: message_codec
    "\<lambda>(vals, timed, ts, txn). encode_response bus vals txn timed ts" "decode_response bus limit"
    "\<lambda>(vals, timed, ts, txn). bus < 0x800 \<and> vals \<noteq> [] \<and> length vals \<le> kAdcMaxResponseValues \<and>
       length vals \<le> limit \<and> (timed \<or> ts = 0)" for bus limit
proof
  fix x :: "u16 list \<times> bool \<times> u64 \<times> u8"
  obtain vals timed ts txn where x: "x = (vals, timed, ts, txn)" by (cases x)
  assume "case x of (vals, timed, ts, txn) \<Rightarrow> bus < 0x800 \<and> vals \<noteq> [] \<and> length vals \<le> kAdcMaxResponseValues \<and>
       length vals \<le> limit \<and> (timed \<or> ts = 0)"
  then have h: "bus < 0x800" "vals \<noteq> []" "length vals \<le> kAdcMaxResponseValues" "length vals \<le> limit" "timed \<or> ts = 0"
    by (simp_all add: x)
  have "concat (map put_u16 vals) \<noteq> []"
    using h(2) length_values [of vals] by (metis length_greater_0_conv mult_is_0 neq0_conv zero_neq_numeral)
  with h show "decode_response bus limit (case x of (vals, timed, ts, txn) \<Rightarrow> encode_response bus vals txn timed ts) = Inr x"
    by (auto simp: x encode_response_def decode_response_def kAdcValueLen_def Let_def)
qed

section \<open>The endpoint\<close>

text \<open>\<open>AdcPendingBuffer\<close>: the values up to its size, at most 255.\<close>

definition pending_push_back :: "adc_avg_value \<Rightarrow> adc_avg_value list \<Rightarrow> bool \<times> adc_avg_value list" where
  "pending_push_back v pending =
     (if kAdcMaxCombineValues \<le> length pending then (False, pending) else (True, pending @ [v]))"

definition pop_front_n :: "nat \<Rightarrow> adc_avg_value list \<Rightarrow> adc_avg_value list" where
  "pop_front_n n pending = drop (min n (length pending)) pending"

text \<open>The callback's results are numbered in the order of its calls.\<close>

definition execute_measurement_cycle ::
    "adc_functional_config \<Rightarrow> (nat \<Rightarrow> adc_sample) \<Rightarrow> adc_avg_value list \<Rightarrow> adc_errc option \<times> adc_avg_value list" where
  "execute_measurement_cycle cfg take_sample pending =
     (let samples = map take_sample [0..<unat (adc_samples_per_avg_interval cfg)];
          avg = average_interval samples
      in case pending_push_back avg pending of
           (False, pending) \<Rightarrow> (Some Pending_values_full, pending)
         | (True, pending) \<Rightarrow> (None, pending))"

definition response_ready :: "adc_functional_config \<Rightarrow> adc_avg_value list \<Rightarrow> bool" where
  "response_ready cfg pending \<longleftrightarrow> cadence_response_ready (length pending) (adc_combine_avg_values cfg)"

definition collect_response ::
    "adc_functional_config \<Rightarrow> adc_avg_value list \<Rightarrow> (adc_errc + (u16 list \<times> u64)) \<times> adc_avg_value list" where
  "collect_response cfg pending =
     (if \<not> response_ready cfg pending then (Inl Response_not_ready, pending)
      else
        (let n = unat (adc_combine_avg_values cfg);
             front = take n pending
         in (Inr (collect_response_values front n, capture_moment_timestamp front), pop_front_n n pending)))"

section \<open>What an average is\<close>

definition signals :: "adc_sample list \<Rightarrow> nat list" where
  "signals samples = map (unat \<circ> ad_value) (filter (\<lambda>s. ad_value s \<noteq> kAdcNoSignal) samples)"

lemma signals_bound: "v \<in> set (signals samples) \<Longrightarrow> v < 0xFFFF"
proof -
  have "unat w < 0xFFFF" if "w \<noteq> 0xFFFF" for w :: u16
  proof -
    have "unat w \<noteq> unat (0xFFFF :: u16)" using that by (simp only: word_unat_eq_iff not_False_eq_True)
    then show ?thesis using unat_bound [of w] by simp
  qed
  then show "v \<in> set (signals samples) \<Longrightarrow> v < 0xFFFF" by (auto simp: signals_def kAdcNoSignal_def)
qed

lemma sum_list_bound: "(\<And>v. v \<in> set vs \<Longrightarrow> v \<le> (m :: nat)) \<Longrightarrow> sum_list vs \<le> length vs * m"
  by (induction vs) (auto simp: add_mono)

lemma sum_list_lower: "(\<And>v. v \<in> set vs \<Longrightarrow> (m :: nat) \<le> v) \<Longrightarrow> length vs * m \<le> sum_list vs"
  by (induction vs) (auto simp: add_mono)

lemma fold_add_sample:
  "fold add_sample samples acc =
     (fst acc + of_nat (sum_list (signals samples)), snd acc + length (signals samples))"
proof (induction samples arbitrary: acc)
  case (Cons s samples)
  have "signals (s # samples) =
      (if ad_value s = kAdcNoSignal then signals samples else unat (ad_value s) # signals samples)"
    by (simp add: signals_def)
  then show ?case unfolding fold.simps comp_apply Cons.IH by (simp add: add_sample_def add.assoc)
qed (simp add: signals_def)

lemma average_bounds:
  assumes "vs \<noteq> []"
  shows "Min (set vs) \<le> sum_list vs div length vs" "sum_list vs div length vs \<le> Max (set vs)"
proof -
  have "length vs * Min (set vs) \<le> sum_list vs" "sum_list vs \<le> length vs * Max (set vs)"
    by (rule sum_list_lower sum_list_bound, simp)+
  then show "Min (set vs) \<le> sum_list vs div length vs" "sum_list vs div length vs \<le> Max (set vs)"
    using assms div_le_mono [of "length vs * Min (set vs)" "sum_list vs" "length vs"]
      div_le_mono [of "sum_list vs" "length vs * Max (set vs)" "length vs"] by simp_all
qed

text \<open>
  An interval's value is the mean of its samples that carry a signal, rounded down, so it lies
  between the least and the greatest of them; it is the no-signal value exactly when no sample
  carries a signal. The 64-bit sum does not wrap and the quotient fits its 16 bits.
\<close>

theorem average_interval_exact:
  assumes "length samples < 2 ^ 48"
  shows "let vs = signals samples; v = ad_value (average_interval samples) in
    (v = kAdcNoSignal \<longleftrightarrow> vs = []) \<and>
    (if vs = [] then True
     else unat v = sum_list vs div length vs \<and> Min (set vs) \<le> unat v \<and> unat v \<le> Max (set vs))"
proof (cases "signals samples = []")
  case True
  then show ?thesis
    by (simp add: average_interval_def fold_add_sample)
next
  case False
  let ?vs = "signals samples"
  let ?q = "sum_list ?vs div length ?vs"
  have len: "length ?vs < 2 ^ 48"
    using le_less_trans [OF length_filter_le assms] by (simp add: signals_def)
  have "sum_list ?vs \<le> length ?vs * 0xFFFE"
    by (rule sum_list_bound) (use signals_bound in fastforce)
  also have "\<dots> < 2 ^ 64" using len by simp
  finally have no_wrap: "sum_list ?vs < 2 ^ 64" .
  have "Max (set ?vs) < 0xFFFF"
    using False signals_bound Max_in [of "set ?vs"] by simp
  then have q: "?q < 0xFFFF" using average_bounds(2) [OF False] by linarith
  have "unat ((of_nat (sum_list ?vs) :: u64) div of_nat (length ?vs)) = ?q"
    using no_wrap len by (simp add: unat_div unat_of_nat take_bit_nat_eq_self)
  moreover have "samples \<noteq> []" using False by (auto simp: signals_def)
  ultimately have v: "unat (ad_value (average_interval samples)) = ?q"
    using q False by (simp add: average_interval_def fold_add_sample unsigned_ucast_eq take_bit_nat_eq_self)
  then have "ad_value (average_interval samples) \<noteq> kAdcNoSignal"
    using q by (auto simp: kAdcNoSignal_def)
  then show ?thesis
    using v average_bounds [OF False] False by simp
qed

lemma average_interval_exact_witness:
  "let vs = signals [\<lparr>ad_value = 10, ad_timestamp = 1\<rparr>, \<lparr>ad_value = 0xFFFF, ad_timestamp = 2\<rparr>,
        \<lparr>ad_value = 15, ad_timestamp = 3\<rparr>];
      v = ad_value (average_interval [\<lparr>ad_value = 10, ad_timestamp = 1\<rparr>,
        \<lparr>ad_value = 0xFFFF, ad_timestamp = 2\<rparr>, \<lparr>ad_value = 15, ad_timestamp = 3\<rparr>])
   in vs = [10, 15] \<and> unat v = 12"
  using average_interval_exact [of "[\<lparr>ad_value = 10, ad_timestamp = 1\<rparr>,
        \<lparr>ad_value = 0xFFFF, ad_timestamp = 2\<rparr>, \<lparr>ad_value = 15, ad_timestamp = 3\<rparr>]"]
  by (simp add: signals_def kAdcNoSignal_def Let_def flip: numeral_2_eq_2)

section \<open>Every average is delivered once\<close>

text \<open>
  Cycles and responses over the life of an endpoint. The trace keeps the averages that were
  taken and the responses that were collected.
\<close>

datatype adc_call = Execute adc_functional_config "nat \<Rightarrow> adc_sample" | Collect adc_functional_config

fun average_of :: "adc_functional_config \<Rightarrow> (nat \<Rightarrow> adc_sample) \<Rightarrow> adc_avg_value" where
  "average_of cfg take_sample =
     average_interval (map take_sample [0..<unat (adc_samples_per_avg_interval cfg)])"

type_synonym adc_trace = "adc_avg_value list \<times> adc_avg_value list \<times> (u8 \<times> u16 list \<times> u64) list"

fun adc_step :: "adc_call \<Rightarrow> adc_trace \<Rightarrow> adc_trace" where
  "adc_step (Execute cfg take_sample) (pending, taken, responses) =
     (case execute_measurement_cycle cfg take_sample pending of
        (None, pending') \<Rightarrow> (pending', taken @ [average_of cfg take_sample], responses)
      | (Some ec, pending') \<Rightarrow> (pending', taken, responses))"
| "adc_step (Collect cfg) (pending, taken, responses) =
     (case collect_response cfg pending of
        (Inr response, pending') \<Rightarrow>
          (pending', taken, responses @ [(adc_combine_avg_values cfg, response)])
      | (Inl ec, pending') \<Rightarrow> (pending', taken, responses))"

lemma execute_cases:
  "execute_measurement_cycle cfg f pending =
     (if length pending < 255 then (None, pending @ [average_of cfg f])
      else (Some Pending_values_full, pending))"
  by (simp add: execute_measurement_cycle_def pending_push_back_def kAdcMaxCombineValues_def Let_def not_less)

lemma collect_cases:
  "collect_response cfg pending =
     (let n = unat (adc_combine_avg_values cfg) in
      if length pending < n then (Inl Response_not_ready, pending)
      else (Inr (map ad_value (take n pending), if n = 0 then 0 else ad_timestamp (hd pending)), drop n pending))"
  by (auto simp: collect_response_def response_ready_def cadence_response_ready_def collect_response_values_def
      capture_moment_timestamp_def pop_front_n_def Let_def not_less hd_take min_absorb2)

text \<open>Each response has its configured number of values; they are the taken ones in order.\<close>

fun response_matches :: "u8 \<times> u16 list \<times> u64 \<Rightarrow> bool" where
  "response_matches (n, vals, ts) = (length vals = unat n)"

lemma adc_step_fifo:
  assumes "concat (map (fst \<circ> snd) responses) @ map ad_value pending = map ad_value taken"
    "length pending \<le> 255" "list_all response_matches responses"
    "adc_step call (pending, taken, responses) = (pending', taken', responses')"
  shows "concat (map (fst \<circ> snd) responses') @ map ad_value pending' = map ad_value taken' \<and>
    length pending' \<le> 255 \<and> list_all response_matches responses'"
proof (cases call)
  case (Execute cfg f)
  then show ?thesis
    using assms by (auto simp: execute_cases split: if_splits simp flip: append_assoc)
next
  case (Collect cfg)
  let ?n = "unat (adc_combine_avg_values cfg)"
  show ?thesis
  proof (cases "length pending < ?n")
    case True
    then show ?thesis using assms Collect by (simp add: collect_cases)
  next
    case False
    have "map ad_value (take ?n pending) @ map ad_value (drop ?n pending) = map ad_value pending"
      by (simp flip: map_append)
    then show ?thesis using assms Collect False by (auto simp: collect_cases Let_def)
  qed
qed

text \<open>
  Over every sequence of measurement cycles and collections, under configurations that may change
  in between: the values of the collected responses, followed by those pending, are the taken
  averages in their order, so none is lost, repeated or reordered; each response has exactly the
  configured number of values; and at most 255 averages are pending, since a further one is
  refused with nothing changed.
\<close>

theorem adc_values_delivered_once:
  "(case fold adc_step calls ([], [], []) of (pending, taken, responses) \<Rightarrow>
     concat (map (fst \<circ> snd) responses) @ map ad_value pending = map ad_value taken \<and>
     length pending \<le> 255 \<and> list_all response_matches responses)"
proof (induction calls rule: rev_induct)
  case (snoc call calls)
  obtain p a r where t: "fold adc_step calls ([], [], []) = (p, a, r)" by (cases "fold adc_step calls ([], [], [])")
  obtain p' a' r' where t': "adc_step call (p, a, r) = (p', a', r')" by (cases "adc_step call (p, a, r)")
  have ih: "concat (map (fst \<circ> snd) r) @ map ad_value p = map ad_value a" "length p \<le> 255"
    "list_all response_matches r"
    using snoc.IH by (simp_all only: t prod.case)
  show ?case
    using adc_step_fifo [OF ih t'] by (simp add: t t' comp_def)
qed simp

section \<open>The spacing check\<close>

text \<open>Each sample comes no earlier than the one before, by a time between the two bounds.\<close>

fun well_spaced :: "nat \<Rightarrow> nat \<Rightarrow> nat list \<Rightarrow> bool" where
  "well_spaced lo hi (t # t' # rest) = (t \<le> t' \<and> lo \<le> t' - t \<and> t' - t \<le> hi \<and> well_spaced lo hi (t' # rest))"
| "well_spaced lo hi _ = True"

lemma spaced_within_iff:
  "spaced_within lo hi samples = Ok \<longleftrightarrow>
     well_spaced (unat lo) (unat hi) (map (unat \<circ> ad_timestamp) samples)"
  by (induction lo hi samples rule: spaced_within.induct)
    (auto simp: Let_def word_less_nat_alt unat_sub_if' not_less)

lemma well_spaced_cap:
  "(\<And>t. t \<in> set ts \<Longrightarrow> t \<le> m) \<Longrightarrow> well_spaced lo (min hi m) ts = well_spaced lo hi ts"
  by (induction lo hi ts rule: well_spaced.induct) fastforce+

text \<open>
  The spacing of samples is accepted exactly when there is nothing to check or each sample
  follows the one before within the tolerance of the configured interval. Neither the interval
  nor its bounds are falsified by the width of the arithmetic.
\<close>

theorem sample_spacing_exact:
  "validate_sample_spacing samples divider interval hz tolerance = Ok \<longleftrightarrow>
     (length samples < 2 \<or> hz = 0 \<or> divider = 0 \<or>
      (let expected = unat interval * unat divider * 1000000000 div unat hz in
       well_spaced (expected - unat tolerance) (expected + unat tolerance)
         (map (unat \<circ> ad_timestamp) samples)))"
proof -
  let ?e = "ucast interval * ucast divider * 1000000000 div (ucast hz :: u64)"
  let ?E = "unat interval * unat divider * 1000000000 div unat hz"
  have iv: "unat interval \<le> 255" "unat divider \<le> 255"
    using unat_bound [of interval] unat_bound [of divider] by simp_all
  then have p: "unat interval * unat divider \<le> 255 * 255" by (rule mult_le_mono)
  have "unat (ucast interval * ucast divider :: u64) = unat interval * unat divider"
    using p iv by (simp add: unat_word_ariths unsigned_ucast_eq take_bit_nat_eq_self)
  then have "unat (ucast interval * ucast divider * 1000000000 :: u64) = unat interval * unat divider * 1000000000"
    using mult_le_mono1 [OF p, of 1000000000] unat_word_ariths(2) [of "ucast interval * ucast divider :: u64" 1000000000]
    by (simp add: mod_less)
  then have e: "unat ?e = ?E"
    using unat_bound [of hz] by (simp add: unat_div unsigned_ucast_eq take_bit_nat_eq_self)
  have lo: "unat (if tolerance < ?e then ?e - tolerance else 0) = ?E - unat tolerance"
    using e by (auto simp: word_less_nat_alt unat_sub_if' not_less)
  have hi: "unat (if ?e \<le> - 1 - tolerance then ?e + tolerance else - 1) = min (?E + unat tolerance) (2 ^ 64 - 1)"
  proof -
    have m: "unat (- 1 :: u64) = 2 ^ 64 - 1" by (simp add: unsigned_minus_1_eq_mask mask_eq_exp_minus_1)
    have "unat (- 1 - tolerance) = 2 ^ 64 - 1 - unat tolerance"
      using unat_bound [of tolerance] by (simp add: unat_sub_if' m)
    then have le: "?e \<le> - 1 - tolerance \<longleftrightarrow> ?E + unat tolerance \<le> 2 ^ 64 - 1"
      using e unat_bound [of tolerance] by (simp add: word_le_nat_alt le_diff_conv2)
    show ?thesis
    proof (cases "?e \<le> - 1 - tolerance")
      case True
      then have "unat (?e + tolerance) = ?E + unat tolerance"
        using le e by (simp add: unat_word_ariths)
      then show ?thesis using True le by simp
    next
      case False
      then show ?thesis using le m by simp
    qed
  qed
  have "t \<le> 2 ^ 64 - 1" if t: "t \<in> set (map (unat \<circ> ad_timestamp) samples)" for t
  proof -
    obtain s :: adc_sample where "t = unat (ad_timestamp s)" using t by auto
    then show ?thesis using unat_bound [of "ad_timestamp s"] by simp
  qed
  then have cap: "well_spaced lo (min h (2 ^ 64 - 1)) (map (unat \<circ> ad_timestamp) samples) =
      well_spaced lo h (map (unat \<circ> ad_timestamp) samples)" for lo h
    by (rule well_spaced_cap)
  show ?thesis
    unfolding validate_sample_spacing_def Let_def
    by (simp only: if_distrib [where f = "\<lambda>x. x = Ok"] spaced_within_iff lo hi cap) simp
qed

end
