(* ===== verification/Pwm.thy ===== *)
theory Pwm
  imports Ep_Block
begin

text \<open>
  The PWM endpoint types, \<open>include/rcp/pwm.hpp\<close>: PWM_OUT with its combined writes, limits, trigger
  positions, registers, messages and endpoint, and PWM_IN with its registers, messages, measurement
  limits, comparison modes and endpoint.
\<close>

section \<open>Values\<close>

record pwm_value =
  pw_period :: u16
  pw_active_duration :: u16

definition kPwmPayloadLen :: nat where "kPwmPayloadLen = 4"

definition encode_pwm_payload :: "pwm_value \<Rightarrow> octets" where
  "encode_pwm_payload v = put_u16 (pw_period v) @ put_u16 (pw_active_duration v)"

definition decode_pwm_payload :: "octets \<Rightarrow> pwm_value result" where
  "decode_pwm_payload buf =
     (if length buf \<noteq> kPwmPayloadLen then Inl (Avtp_err Short_buffer)
      else Inr \<lparr>pw_period = get_u16 buf, pw_active_duration = get_u16 (drop 2 buf)\<rparr>)"

definition kPwmInNoSignal :: u16 where "kPwmInNoSignal = 0xFFFF"

datatype pwm_errc =
    No_signal | Config_write_not_supported | Short_frame | Bad_msg_type | Wrong_bus | Wrong_op
  | Bad_payload_len | Reserved_evt | Bad_evt | Reconfig_short | Reconfig_out_of_range

fun wire_error :: "pwm_errc \<Rightarrow> wire_error_code option" where
  "wire_error Bad_payload_len = Some InvalidParameter"
| "wire_error Reserved_evt = Some UnsupportedCmd"
| "wire_error Bad_evt = Some UnsupportedCmd"
| "wire_error Config_write_not_supported = Some UnsupportedCmd"
| "wire_error No_signal = Some PwmInNoSignal"
| "wire_error _ = None"

section \<open>PWM_OUT: writes\<close>

fun apply_write_field :: "write_semantics \<Rightarrow> u16 \<Rightarrow> u16 \<Rightarrow> u16 result" where
  "apply_write_field WReplace current operand = Inr operand"
| "apply_write_field WOr current operand = Inr (current OR operand)"
| "apply_write_field WAnd current operand = Inr (current AND operand)"
| "apply_write_field WXor current operand = Inr (current XOR operand)"
| "apply_write_field WAdd current operand = Inr (saturating_add current operand)"
| "apply_write_field WSubtract current operand = Inr (saturating_subtract operand current)"
| "apply_write_field WReserved current operand = Inl (Endpoint_err Reserved_write_semantics)"
| "apply_write_field WReconfigure current operand = Inl (Endpoint_err Non_combinable_write_semantics)"

text \<open>The two caps at the end of a write, in their order.\<close>

definition cap_active :: "u16 \<Rightarrow> u16 \<Rightarrow> pwm_value \<Rightarrow> pwm_value" where
  "cap_active duty_cycle_min duty_cycle_max v =
     (let v = (if pw_active_duration v < duty_cycle_min then v\<lparr>pw_active_duration := duty_cycle_min\<rparr> else v)
      in if duty_cycle_max < pw_active_duration v then v\<lparr>pw_active_duration := duty_cycle_max\<rparr> else v)"

text \<open>The result of a field that is not written stays the current one.\<close>

definition field_or :: "u16 \<Rightarrow> u16 result \<Rightarrow> u16" where
  "field_or current r = (case r of Inl _ \<Rightarrow> current | Inr v \<Rightarrow> v)"

definition apply_write :: "pwm_value \<Rightarrow> pwm_value \<Rightarrow> write_semantics \<Rightarrow> u16 \<Rightarrow> u16 \<Rightarrow> pwm_value" where
  "apply_write current request evt duty_cycle_min duty_cycle_max =
     (let writes = (evt \<noteq> WReserved \<and> evt \<noteq> WReconfigure);
          period_out = (if writes
            then field_or (pw_period current) (apply_write_field evt (pw_period current) (pw_period request))
            else pw_period current);
          active_out = (if writes
            then field_or (pw_active_duration current)
                   (apply_write_field evt (pw_active_duration current) (pw_active_duration request))
            else pw_active_duration current)
      in cap_active duty_cycle_min duty_cycle_max \<lparr>pw_period = period_out, pw_active_duration = active_out\<rparr>)"

datatype pwm_out_generation_state = Stopped | OutputDisabled | Running

definition generation_state :: "pwm_value \<Rightarrow> pwm_out_generation_state" where
  "generation_state v =
     (if pw_period v = 0 then Stopped else if pw_active_duration v = 0 then OutputDisabled else Running)"

section \<open>PWM_OUT: triggers\<close>

datatype pwm_out_trigger = None_out | CycleStart_out | MidPulse_out | Done_out

datatype pwm_out_event = CycleStart_event | MidPulse_event | Done_event

fun trigger_fires :: "pwm_out_trigger \<Rightarrow> pwm_out_event \<Rightarrow> bool" where
  "trigger_fires CycleStart_out event = (event = CycleStart_event)"
| "trigger_fires MidPulse_out event = (event = MidPulse_event)"
| "trigger_fires Done_out event = (event = Done_event)"
| "trigger_fires None_out event = False"

definition kPwmOutTriggerEventCycleStart :: u8 where [wire_defs]: "kPwmOutTriggerEventCycleStart = 0x01"
definition kPwmOutTriggerEventMidPulse :: u8 where [wire_defs]: "kPwmOutTriggerEventMidPulse = 0x02"

definition trigger_events_at_tick :: "u16 \<Rightarrow> u16 \<Rightarrow> u8 \<Rightarrow> u32 \<Rightarrow> u8" where
  "trigger_events_at_tick period active_duration skew raw_tick =
     (if period = 0 then 0
      else
        (let p = (ucast period :: u32);
             skew_mod = ucast skew mod p;
             delayed_tick = (raw_tick mod p + p - skew_mod) mod p
         in (if delayed_tick = 0 then kPwmOutTriggerEventCycleStart else 0) OR
            (if delayed_tick = ucast (active_duration div 2) then kPwmOutTriggerEventMidPulse else 0)))"

section \<open>PWM_OUT: configuration and registers\<close>

record pwm_out_functional_config = ep_flags +
  po_trigger :: pwm_out_trigger
  po_base_clk :: u16
  po_ep_status :: u16
  po_clk_divider :: u8
  po_signal_flags :: u8
  po_duty_cycle_min :: u16
  po_duty_cycle_max :: u16
  po_skew :: u8

definition set_trigger_out ::
    "pwm_out_trigger \<Rightarrow> server_state \<Rightarrow> writer_ctx \<Rightarrow> pwm_out_functional_config \<Rightarrow> bool \<times> pwm_out_functional_config" where
  "set_trigger_out trigger state writer cfg =
     guarded_write (functional_cfg_writable state writer) (\<lambda>c. c\<lparr>po_trigger := trigger\<rparr>) cfg"

definition set_enabled ::
    "bool \<Rightarrow> server_state \<Rightarrow> writer_ctx \<Rightarrow> pwm_out_functional_config \<Rightarrow> bool \<times> pwm_out_functional_config" where
  "set_enabled enabled state writer cfg =
     guarded_write (functional_cfg_writable state writer) (\<lambda>c. c\<lparr>ep_enable := enabled\<rparr>) cfg"

definition kPwmOutEpFuncLen :: nat where "kPwmOutEpFuncLen = 0x000F"

definition pwm_out_reg_offset_read_only :: "nat \<Rightarrow> bool" where
  "pwm_out_reg_offset_read_only addr \<longleftrightarrow> addr = 0 \<or> addr = 1 \<or> addr = 4 \<or> addr = 5"

definition render_out :: "pwm_out_functional_config \<Rightarrow> octets" where
  "render_out cfg =
     [of_nat kPwmOutEpFuncLen, 0] @ render_flags cfg @ put_u16 (po_base_clk cfg) @ put_u16 (po_ep_status cfg) @
     [po_clk_divider cfg, po_signal_flags cfg] @ put_u16 (po_duty_cycle_min cfg) @
     put_u16 (po_duty_cycle_max cfg) @ [po_skew cfg]"

definition pwm_out_parse_registers ::
    "octets \<Rightarrow> pwm_out_functional_config \<Rightarrow> pwm_out_functional_config" where
  "pwm_out_parse_registers b cfg = parse_flags (b ! 2) (b ! 3)
     (cfg\<lparr>po_ep_status := get_u16 (drop 6 b), po_clk_divider := b ! 8, po_signal_flags := b ! 9,
      po_duty_cycle_min := get_u16 (drop 10 b), po_duty_cycle_max := get_u16 (drop 12 b), po_skew := b ! 14\<rparr>)"

definition apply_reconfig_out ::
    "octets \<Rightarrow> pwm_out_functional_config \<Rightarrow> pwm_errc option \<times> pwm_out_functional_config" where
  "apply_reconfig_out payload cfg =
     block_reconfig Reconfig_short Reconfig_out_of_range kPwmOutEpFuncLen pwm_out_reg_offset_read_only
       render_out pwm_out_parse_registers payload cfg"

definition encode_reconfig_request :: "u16 \<Rightarrow> u16 \<Rightarrow> octets \<Rightarrow> u8 \<Rightarrow> octets" where
  "encode_reconfig_request byte_bus_id start_address data transaction_num =
     encode_config_write byte_bus_id start_address data transaction_num"

interpretation pwm_out_block: register_block kPwmOutEpFuncLen pwm_out_reg_offset_read_only kept_flags
    render_out pwm_out_parse_registers "\<lambda>_. True" "\<lambda>_. True"
  by unfold_locales
    (simp_all add: kPwmOutEpFuncLen_def render_out_def pwm_out_parse_registers_def
      pwm_out_reg_offset_read_only_def kept_flags_def flag_defs register_addresses put_u16_def)

section \<open>PWM_OUT: messages\<close>

definition encode_read_request :: "u16 \<Rightarrow> u8 \<Rightarrow> octets" where
  "encode_read_request byte_bus_id transaction_num =
     encode_acf_abb (acf_default\<lparr>a_byte_bus_id := byte_bus_id, a_op := False,
       a_transaction_num := transaction_num\<rparr>) []"

definition decode_read_request :: "u16 \<Rightarrow> octets \<Rightarrow> pwm_errc + u8" where
  "decode_read_request expected_bus_id b =
     (case open_abb Short_frame Bad_msg_type Wrong_bus expected_bus_id b of
        Inl ec \<Rightarrow> Inl ec
      | Inr (info, payload) \<Rightarrow> if a_op info then Inl Wrong_op else Inr (a_transaction_num info))"

definition encode_write_request :: "u16 \<Rightarrow> pwm_value \<Rightarrow> write_semantics \<Rightarrow> u8 \<Rightarrow> octets" where
  "encode_write_request byte_bus_id v evt transaction_num =
     encode_acf_abb (acf_default\<lparr>a_byte_bus_id := byte_bus_id, a_op := True,
       a_evt_op := write_semantics_value evt AND 0x7, a_transaction_num := transaction_num\<rparr>)
       (encode_pwm_payload v)"

definition payload_value :: "octets \<Rightarrow> pwm_value" where
  "payload_value payload =
     (case decode_pwm_payload payload of Inr v \<Rightarrow> v | Inl _ \<Rightarrow> \<lparr>pw_period = 0, pw_active_duration = 0\<rparr>)"

definition decode_write_request :: "u16 \<Rightarrow> octets \<Rightarrow> pwm_errc + (pwm_value \<times> write_semantics \<times> u8)" where
  "decode_write_request expected_bus_id b =
     (case open_abb Short_frame Bad_msg_type Wrong_bus expected_bus_id b of
        Inl ec \<Rightarrow> Inl ec
      | Inr (info, payload) \<Rightarrow>
          if \<not> a_op info then Inl Wrong_op
          else if length payload \<noteq> kPwmPayloadLen then Inl Bad_payload_len
          else
            (let evt = write_semantics_of (a_evt_op info) in
             if evt = WReserved then Inl Reserved_evt
             else Inr (payload_value payload, evt, a_transaction_num info)))"

definition encode_response :: "u16 \<Rightarrow> pwm_value \<Rightarrow> u8 \<Rightarrow> bool \<Rightarrow> u64 \<Rightarrow> octets" where
  "encode_response byte_bus_id v transaction_num timed timestamp =
     encode_timed (acf_default\<lparr>a_byte_bus_id := byte_bus_id, a_op := False, a_rsp := True,
       a_transaction_num := transaction_num\<rparr>) (encode_pwm_payload v) timed timestamp"

definition decode_response :: "u16 \<Rightarrow> octets \<Rightarrow> pwm_errc + (pwm_value \<times> bool \<times> u64 \<times> u8)" where
  "decode_response expected_bus_id b =
     (case open_response Short_frame Bad_msg_type Wrong_bus expected_bus_id b of
        Inl ec \<Rightarrow> Inl ec
      | Inr (info, payload, timed, timestamp) \<Rightarrow>
          if length payload \<noteq> kPwmPayloadLen then Inl Bad_payload_len
          else Inr (payload_value payload, timed, timestamp, a_transaction_num info))"

lemma payload_length [simp]: "length (encode_pwm_payload v) = kPwmPayloadLen"
  by (simp add: encode_pwm_payload_def kPwmPayloadLen_def)

lemma payload_value_encode [simp]: "payload_value (encode_pwm_payload v) = v"
  by (cases v) (simp add: payload_value_def decode_pwm_payload_def encode_pwm_payload_def kPwmPayloadLen_def put_u16_def)

interpretation pwm_read_request: message_codec "encode_read_request bus" "decode_read_request bus"
    "\<lambda>txn. bus < 0x800" for bus
  by unfold_locales (simp add: encode_read_request_def decode_read_request_def)

interpretation pwm_write_request: message_codec
    "\<lambda>(v, evt, txn). encode_write_request bus v evt txn" "decode_write_request bus"
    "\<lambda>(v, evt, txn). bus < 0x800 \<and> evt \<noteq> WReserved" for bus
  by unfold_locales (auto simp: encode_write_request_def decode_write_request_def Let_def and.assoc)

interpretation pwm_response: message_codec
    "\<lambda>(v, timed, ts, txn). encode_response bus v txn timed ts" "decode_response bus"
    "\<lambda>(v, timed, ts, txn). bus < 0x800 \<and> (timed \<or> ts = 0)" for bus
  by unfold_locales (auto simp: encode_response_def decode_response_def)

section \<open>PWM_OUT: the endpoint\<close>

record pwm_out_endpoint =
  pe_state :: pwm_value
  pe_cfg :: pwm_out_functional_config

definition handle_write ::
    "write_semantics \<Rightarrow> pwm_value \<Rightarrow> pwm_out_endpoint \<Rightarrow> (error + pwm_value) \<times> pwm_out_endpoint" where
  "handle_write op operand ep =
     (case apply_write_field op (pw_period (pe_state ep)) (pw_period operand) of
        Inl ec \<Rightarrow> (Inl ec, ep)
      | Inr new_period \<Rightarrow>
          (case apply_write_field op (pw_active_duration (pe_state ep)) (pw_active_duration operand) of
             Inl ec \<Rightarrow> (Inl ec, ep)
           | Inr new_active \<Rightarrow>
               (let v = cap_active (po_duty_cycle_min (pe_cfg ep)) (po_duty_cycle_max (pe_cfg ep))
                      \<lparr>pw_period = new_period, pw_active_duration = new_active\<rparr>
                in (Inr v, ep\<lparr>pe_state := v\<rparr>))))"

section \<open>PWM_IN: configuration and registers\<close>

datatype pwm_in_signal = RisingEdge | FallingEdge

fun pwm_in_signal_id :: "pwm_in_signal \<Rightarrow> u16" where
  "pwm_in_signal_id RisingEdge = 0"
| "pwm_in_signal_id FallingEdge = 1"

datatype pwm_in_trigger = None_in | Rising_in | Falling_in

fun trigger_fires_in :: "pwm_in_trigger \<Rightarrow> bool \<Rightarrow> bool \<Rightarrow> bool" where
  "trigger_fires_in Rising_in prev_level new_level = (\<not> prev_level \<and> new_level)"
| "trigger_fires_in Falling_in prev_level new_level = (prev_level \<and> \<not> new_level)"
| "trigger_fires_in None_in prev_level new_level = False"

record pwm_in_functional_config = ep_flags +
  pi_trigger :: pwm_in_trigger
  pi_base_clk :: u16
  pi_ep_status :: u16
  pi_clk_divider :: u8
  pi_flags :: u8
  pi_max_period :: u16

definition set_trigger_in ::
    "pwm_in_trigger \<Rightarrow> server_state \<Rightarrow> writer_ctx \<Rightarrow> pwm_in_functional_config \<Rightarrow> bool \<times> pwm_in_functional_config" where
  "set_trigger_in trigger state writer cfg =
     guarded_write (functional_cfg_writable state writer) (\<lambda>c. c\<lparr>pi_trigger := trigger\<rparr>) cfg"

definition kPwmInEpFuncLen :: nat where "kPwmInEpFuncLen = 0x000C"

definition pwm_in_reg_offset_read_only :: "nat \<Rightarrow> bool" where
  "pwm_in_reg_offset_read_only addr \<longleftrightarrow> addr = 0 \<or> addr = 1 \<or> addr = 4 \<or> addr = 5"

definition render_in :: "pwm_in_functional_config \<Rightarrow> octets" where
  "render_in cfg =
     [of_nat kPwmInEpFuncLen, 0] @ render_flags cfg @ put_u16 (pi_base_clk cfg) @ put_u16 (pi_ep_status cfg) @
     [pi_clk_divider cfg, pi_flags cfg] @ put_u16 (pi_max_period cfg)"

definition pwm_in_parse_registers ::
    "octets \<Rightarrow> pwm_in_functional_config \<Rightarrow> pwm_in_functional_config" where
  "pwm_in_parse_registers b cfg = parse_flags (b ! 2) (b ! 3)
     (cfg\<lparr>pi_ep_status := get_u16 (drop 6 b), pi_clk_divider := b ! 8, pi_flags := b ! 9,
      pi_max_period := get_u16 (drop 10 b)\<rparr>)"

definition apply_reconfig_in ::
    "octets \<Rightarrow> pwm_in_functional_config \<Rightarrow> pwm_errc option \<times> pwm_in_functional_config" where
  "apply_reconfig_in payload cfg =
     block_reconfig Reconfig_short Reconfig_out_of_range kPwmInEpFuncLen pwm_in_reg_offset_read_only
       render_in pwm_in_parse_registers payload cfg"

definition encode_pwm_in_reconfig_request :: "u16 \<Rightarrow> u16 \<Rightarrow> octets \<Rightarrow> u8 \<Rightarrow> octets" where
  "encode_pwm_in_reconfig_request byte_bus_id start_address data transaction_num =
     encode_config_write byte_bus_id start_address data transaction_num"

interpretation pwm_in_block: register_block kPwmInEpFuncLen pwm_in_reg_offset_read_only kept_flags
    render_in pwm_in_parse_registers "\<lambda>_. True" "\<lambda>_. True"
  by unfold_locales
    (simp_all add: kPwmInEpFuncLen_def render_in_def pwm_in_parse_registers_def
      pwm_in_reg_offset_read_only_def kept_flags_def flag_defs register_addresses put_u16_def)

section \<open>PWM_IN: messages\<close>

definition encode_pwm_in_read_request :: "u16 \<Rightarrow> u8 \<Rightarrow> octets" where
  "encode_pwm_in_read_request byte_bus_id transaction_num =
     encode_acf_abb (acf_default\<lparr>a_byte_bus_id := byte_bus_id, a_op := False,
       a_transaction_num := transaction_num\<rparr>) []"

definition decode_pwm_in_read_request :: "u16 \<Rightarrow> octets \<Rightarrow> pwm_errc + u8" where
  "decode_pwm_in_read_request expected_bus_id b =
     (case open_abb Short_frame Bad_msg_type Wrong_bus expected_bus_id b of
        Inl ec \<Rightarrow> Inl ec
      | Inr (info, payload) \<Rightarrow>
          if a_op info then Inl Wrong_op
          else if evt_row2_kind_of (a_evt_op info) \<noteq> Plain then Inl Bad_evt
          else Inr (a_transaction_num info))"

definition encode_pwm_in_response :: "u16 \<Rightarrow> pwm_value \<Rightarrow> u8 \<Rightarrow> bool \<Rightarrow> u64 \<Rightarrow> octets" where
  "encode_pwm_in_response byte_bus_id v transaction_num timed timestamp =
     encode_response byte_bus_id v transaction_num timed timestamp"

definition decode_pwm_in_response :: "u16 \<Rightarrow> octets \<Rightarrow> pwm_errc + (pwm_value \<times> bool \<times> u64 \<times> u8)" where
  "decode_pwm_in_response expected_bus_id b = decode_response expected_bus_id b"

interpretation pwm_in_read_request: message_codec "encode_pwm_in_read_request bus"
    "decode_pwm_in_read_request bus" "\<lambda>txn. bus < 0x800" for bus
  by unfold_locales (simp add: encode_pwm_in_read_request_def decode_pwm_in_read_request_def acf_default_def)

section \<open>PWM_IN: measurements\<close>

datatype pwm_in_max_period_outcome = Ok | Invalidate | Stop | StopAndError

definition max_period_outcome :: "u16 \<Rightarrow> u16 \<Rightarrow> bool \<Rightarrow> bool \<Rightarrow> pwm_in_max_period_outcome" where
  "max_period_outcome measured_period max_period err_on_max_period resp_on_err_enabled =
     (if measured_period \<le> max_period then Ok
      else if \<not> err_on_max_period then Invalidate
      else if resp_on_err_enabled then StopAndError else Stop)"

definition pwm_in_wire_error :: "pwm_in_max_period_outcome \<Rightarrow> wire_error_code option" where
  "pwm_in_wire_error outcome = (if outcome = StopAndError then Some PwmInNoSignal else None)"

datatype pwm_in_compound_wait_mode = PeriodGe | PeriodLe | DutyGe | DutyLe

fun compound_wait_mode_value :: "pwm_in_compound_wait_mode \<Rightarrow> u8" where
  "compound_wait_mode_value PeriodGe = 4"
| "compound_wait_mode_value PeriodLe = 5"
| "compound_wait_mode_value DutyGe = 6"
| "compound_wait_mode_value DutyLe = 7"

definition compound_wait_mode_valid :: "u8 \<Rightarrow> bool" where
  "compound_wait_mode_valid v \<longleftrightarrow> compound_wait_mode_value PeriodGe \<le> v \<and> v \<le> compound_wait_mode_value DutyLe"

fun compound_wait_compare :: "pwm_value \<Rightarrow> pwm_in_compound_wait_mode \<Rightarrow> u16 \<Rightarrow> bool" where
  "compound_wait_compare captured PeriodGe threshold =
     (if pw_period captured = kPwmInNoSignal then False else pw_period captured \<le> threshold)"
| "compound_wait_compare captured PeriodLe threshold =
     (if pw_period captured = kPwmInNoSignal then False else threshold \<le> pw_period captured)"
| "compound_wait_compare captured DutyGe threshold =
     (if pw_active_duration captured = kPwmInNoSignal then False else pw_active_duration captured \<le> threshold)"
| "compound_wait_compare captured DutyLe threshold =
     (if pw_active_duration captured = kPwmInNoSignal then False else threshold \<le> pw_active_duration captured)"

record pwm_in_endpoint =
  pn_last_value :: pwm_value
  pn_has_signal :: bool
  pn_triggers :: trigger_registry
  pn_cfg :: pwm_in_functional_config

definition record_edge :: "pwm_in_signal \<Rightarrow> pwm_in_endpoint \<Rightarrow> pwm_in_endpoint" where
  "record_edge edge ep = ep\<lparr>pn_triggers := notify (pwm_in_signal_id edge) (pn_triggers ep)\<rparr>"

definition record_measurement :: "pwm_value \<Rightarrow> pwm_in_endpoint \<Rightarrow> pwm_in_endpoint" where
  "record_measurement v ep = ep\<lparr>pn_last_value := v, pn_has_signal := True,
     pn_triggers := notify (pwm_in_signal_id FallingEdge) (notify (pwm_in_signal_id RisingEdge) (pn_triggers ep))\<rparr>"

definition clear_signal :: "pwm_in_endpoint \<Rightarrow> pwm_in_endpoint" where
  "clear_signal ep = ep\<lparr>pn_has_signal := False\<rparr>"

definition handle_read :: "pwm_in_endpoint \<Rightarrow> pwm_errc + pwm_value" where
  "handle_read ep = (if \<not> pn_has_signal ep then Inl No_signal else Inr (pn_last_value ep))"

text \<open>The value is an out-parameter, so the state is the value read.\<close>

definition handle_request_in ::
    "u8 \<Rightarrow> pwm_in_endpoint \<Rightarrow> pwm_value option \<Rightarrow> pwm_errc request_error option \<times> pwm_value option" where
  "handle_request_in evt_op ep out_value =
     handle_row2 evt_op Config_write_not_supported
       (\<lambda>out. case handle_read ep of Inl ec \<Rightarrow> (Some ec, out) | Inr v \<Rightarrow> (None, Some v)) out_value"

section \<open>What a write does\<close>

definition combined_field :: "write_semantics \<Rightarrow> u16 \<Rightarrow> u16 \<Rightarrow> nat" where
  "combined_field op current operand =
     (case op of
        WReplace \<Rightarrow> unat operand | WOr \<Rightarrow> unat (current OR operand) | WAnd \<Rightarrow> unat (current AND operand)
      | WXor \<Rightarrow> unat (current XOR operand) | WAdd \<Rightarrow> min (unat current + unat operand) 0xFFFF
      | WSubtract \<Rightarrow> unat operand - unat current | _ \<Rightarrow> unat current)"

lemma apply_write_field_eq:
  "op \<noteq> WReserved \<Longrightarrow> op \<noteq> WReconfigure \<Longrightarrow>
   \<exists>v. apply_write_field op current operand = Inr v \<and> unat v = combined_field op current operand"
  by (cases op) (simp_all add: combined_field_def saturating_add_eq saturating_subtract_eq)

lemma cap_active_eq:
  "pw_period (cap_active lo hi v) = pw_period v"
  "unat (pw_active_duration (cap_active lo hi v)) = min (max (unat (pw_active_duration v)) (unat lo)) (unat hi)"
  by (auto simp: cap_active_def Let_def word_less_nat_alt)

text \<open>
  A write to PWM_OUT combines the period and the active duration with the operand by the same
  rule, saturating at 16 bits, and then brings the active duration, and only it, into the
  configured limits; the reserved meaning and a reconfiguration are refused and leave the output
  as it was. When the lower limit is above the upper one, the upper one decides.
\<close>

theorem pwm_write_exact:
  "(case handle_write op operand ep of (result, ep') \<Rightarrow>
     pe_cfg ep' = pe_cfg ep \<and>
     (if op = WReserved \<or> op = WReconfigure
      then ep' = ep \<and> result = Inl (Endpoint_err (if op = WReserved then Reserved_write_semantics
             else Non_combinable_write_semantics))
      else result = Inr (pe_state ep') \<and>
        unat (pw_period (pe_state ep')) = combined_field op (pw_period (pe_state ep)) (pw_period operand) \<and>
        unat (pw_active_duration (pe_state ep')) =
          min (max (combined_field op (pw_active_duration (pe_state ep)) (pw_active_duration operand))
                   (unat (po_duty_cycle_min (pe_cfg ep))))
              (unat (po_duty_cycle_max (pe_cfg ep)))))"
proof (cases "op = WReserved \<or> op = WReconfigure")
  case True
  then show ?thesis by (auto simp: handle_write_def)
next
  case False
  then obtain p a where
    p: "apply_write_field op (pw_period (pe_state ep)) (pw_period operand) = Inr p"
       "unat p = combined_field op (pw_period (pe_state ep)) (pw_period operand)" and
    a: "apply_write_field op (pw_active_duration (pe_state ep)) (pw_active_duration operand) = Inr a"
       "unat a = combined_field op (pw_active_duration (pe_state ep)) (pw_active_duration operand)"
    using apply_write_field_eq [of op] by metis
  then show ?thesis
    using False by (simp add: handle_write_def Let_def cap_active_eq)
qed

text \<open>The limits in the wrong order: the comment of \<open>apply_write\<close> promises the lower one.\<close>

lemma upper_limit_wins:
  "hi < lo \<Longrightarrow> pw_active_duration (apply_write current request evt lo hi) = hi"
  by (auto simp: apply_write_def cap_active_def Let_def)

section \<open>Where the trigger events are\<close>

lemma tick_arithmetic:
  assumes "0 < (p :: nat)"
  shows "(r mod p + p - s mod p) mod p = k \<longleftrightarrow> k < p \<and> r mod p = (s + k) mod p"
proof -
  obtain a b where a: "r mod p = a" "a < p" and b: "s mod p = b" "b < p" using assms by simp
  have l: "(a + p - b) mod p = (if b \<le> a then a - b else a + p - b)"
    using a(2) b(2) by (auto simp: mod_if)
  have r: "(s + k) mod p = (if b + k < p then b + k else b + k - p)" if "k < p"
  proof -
    have "(s + k) mod p = (b + k) mod p" using b(1) by (metis mod_add_left_eq)
    then show ?thesis using that b(2) by (auto simp: mod_if)
  qed
  show ?thesis
    unfolding a(1) b(1) l using a(2) b(2) r by (cases "k < p") (auto split: if_splits)
qed

text \<open>
  A running output starts its cycle exactly at the ticks that are congruent to the skew modulo
  the period, and reaches the middle of the pulse half an active duration later, once per period,
  or never when that is not inside the period. A stopped output has no events.
\<close>

theorem trigger_positions_exact:
  "trigger_events_at_tick period active skew raw_tick =
     (let p = unat period; r = unat raw_tick; s = unat skew; half = unat active div 2 in
      if p = 0 then 0
      else (if r mod p = s mod p then kPwmOutTriggerEventCycleStart else 0) OR
           (if half < p \<and> r mod p = (s + half) mod p then kPwmOutTriggerEventMidPulse else 0))"
proof (cases "period = 0")
  case True
  then show ?thesis by (simp add: trigger_events_at_tick_def)
next
  case False
  let ?p = "unat period" and ?r = "unat raw_tick" and ?s = "unat skew"
  have p0: "0 < ?p" using False by (simp add: unat_gt_0)
  have p: "?p < 65536" using unat_bound [of period] by simp
  have up: "unat (ucast period :: u32) = ?p" "unat (ucast skew :: u32) = ?s"
    "unat (ucast (active div 2) :: u32) = unat active div 2"
    using p unat_bound [of skew] unat_bound [of active]
    by (simp_all add: unsigned_ucast_eq take_bit_nat_eq_self unat_div)
  have lt: "?r mod ?p < ?p" "?s mod ?p < ?p" using p0 by simp_all
  have sum: "unat (raw_tick mod ucast period + ucast period) = ?r mod ?p + ?p"
  proof -
    have "?r mod ?p + ?p < 4294967296" using lt(1) p by linarith
    then show ?thesis by (simp add: unat_word_ariths unat_mod up)
  qed
  have "unat ((raw_tick mod ucast period + ucast period) - ucast skew mod ucast period) = ?r mod ?p + ?p - ?s mod ?p"
    using sum lt by (simp add: unat_sub word_le_nat_alt unat_mod up)
  then have d: "unat ((raw_tick mod ucast period + ucast period - ucast skew mod ucast period) mod ucast period) =
      (?r mod ?p + ?p - ?s mod ?p) mod ?p"
    by (simp add: unat_mod up)
  have iff: "(raw_tick mod ucast period + ucast period - ucast skew mod ucast period) mod ucast period = w \<longleftrightarrow>
      unat w < ?p \<and> ?r mod ?p = (?s + unat w) mod ?p" for w
    unfolding word_unat_eq_iff d by (rule tick_arithmetic [OF p0])
  show ?thesis
    using False p0 up(3) iff [of 0] iff [of "ucast (active div 2)"]
    by (simp add: trigger_events_at_tick_def Let_def)
qed

end
