(* ===== verification/Uart.thy ===== *)
theory Uart
  imports Ep_Fragments
begin

text \<open>
  The UART endpoint type, \<open>include/rcp/uart.hpp\<close>: frame bits, functional configuration and register
  block, the messages with their fragmented read response, the decision when a read completes,
  and the endpoint with its two bounded queues.
\<close>

definition kMaxReadSize :: u16 where "kMaxReadSize = 0x0FFF"
definition kRxFifoCapacity :: nat where "kRxFifoCapacity = 512"
definition kTxQueueCapacity :: nat where "kTxQueueCapacity = 512"

datatype uart_errc =
    Read_size_exceeds_bound | Rx_fifo_overflow | Tx_queue_overflow | Bits_per_frame_out_of_range
  | Config_write_not_supported | Short_frame | Bad_msg_type | Wrong_bus | Wrong_op | Unknown_cmd | Bad_evt

fun wire_error :: "uart_errc \<Rightarrow> wire_error_code option" where
  "wire_error Bad_evt = Some UnsupportedCmd"
| "wire_error Unknown_cmd = Some UnsupportedCmd"
| "wire_error _ = None"

section \<open>Frame bits\<close>

definition kNrBitsMin :: u8 where "kNrBitsMin = 1"
definition kNrBitsMax :: u8 where "kNrBitsMax = 8"

definition nr_bits_valid :: "u8 \<Rightarrow> bool" where
  "nr_bits_valid nr_bits \<longleftrightarrow> kNrBitsMin \<le> nr_bits \<and> nr_bits \<le> kNrBitsMax"

definition bit_pad_mask :: "u8 \<Rightarrow> u8" where
  "bit_pad_mask nr_bits =
     (if \<not> nr_bits_valid nr_bits then 0
      else if nr_bits = kNrBitsMax then 0xFF
      else push_bit (unat nr_bits) 1 - 1)"

definition apply_bit_padding :: "octets \<Rightarrow> u8 \<Rightarrow> octets" where
  "apply_bit_padding buf nr_bits = List.map (\<lambda>x. x AND bit_pad_mask nr_bits) buf"

definition pack_frame_to_octet :: "u8 \<Rightarrow> u8 \<Rightarrow> uart_errc + u8" where
  "pack_frame_to_octet v bits_per_frame =
     (if \<not> nr_bits_valid bits_per_frame then Inl Bits_per_frame_out_of_range
      else Inr (v AND bit_pad_mask bits_per_frame))"

definition unpack_frame_bits :: "u8 \<Rightarrow> u8 \<Rightarrow> uart_errc + u8" where
  "unpack_frame_bits octet bits_per_frame =
     (if \<not> nr_bits_valid bits_per_frame then Inl Bits_per_frame_out_of_range
      else Inr (octet AND bit_pad_mask bits_per_frame))"

text \<open>The mask keeps exactly the bits of a frame, so a frame survives its octet.\<close>

lemma bit_pad_mask_eq: "nr_bits_valid n \<Longrightarrow> bit_pad_mask n = mask (unat n)"
proof -
  assume v: "nr_bits_valid n"
  have "mask (unat (8 :: u8)) = (0xFF :: u8)" by (simp add: mask_numeral)
  then show ?thesis using v by (auto simp: bit_pad_mask_def kNrBitsMax_def mask_eq_exp_minus_1 push_bit_eq_mult)
qed

lemma frame_bits_roundtrip:
  assumes "nr_bits_valid n" "unat v < 2 ^ unat n"
  shows "pack_frame_to_octet v n = Inr v \<and> unpack_frame_bits v n = Inr v"
proof -
  have "8 \<le> unat n \<or> v < 2 ^ unat n"
  proof (cases "8 \<le> unat n")
    case False
    then have "(2 :: nat) ^ unat n < 2 ^ 8" by (intro power_strict_increasing) simp_all
    then have "unat (word_of_nat (2 ^ unat n) :: u8) = 2 ^ unat n" by (simp only: unat_of_nat) simp
    then show ?thesis using assms(2) by (simp add: word_less_nat_alt)
  qed simp
  moreover have "v AND mask (unat n) = v" if "8 \<le> unat n"
    using take_bit_word_eq_self [of "unat n" v] that by (simp add: take_bit_eq_mask)
  ultimately have "v AND mask (unat n) = v" using less_mask_eq by blast
  then show ?thesis
    using assms(1) by (simp add: pack_frame_to_octet_def unpack_frame_bits_def bit_pad_mask_eq)
qed

section \<open>Parity, stop bits and triggers\<close>

datatype parity = ParityNone | Odd | Even

fun parity_value :: "parity \<Rightarrow> u8" where
  "parity_value ParityNone = 0"
| "parity_value Odd = 1"
| "parity_value Even = 2"

datatype stop_bits = One | Two | OneHalf

fun stop_bits_value :: "stop_bits \<Rightarrow> u8" where
  "stop_bits_value One = 0"
| "stop_bits_value Two = 1"
| "stop_bits_value OneHalf = 2"

datatype uart_trigger = TriggerNone | TxFinalized | RxFinalized

datatype uart_event = TxRequestFinalized | ReadRequestFinalized

fun trigger_fires :: "uart_trigger \<Rightarrow> uart_event \<Rightarrow> bool" where
  "trigger_fires TxFinalized event = (event = TxRequestFinalized)"
| "trigger_fires RxFinalized event = (event = ReadRequestFinalized)"
| "trigger_fires TriggerNone event = False"

section \<open>Functional configuration\<close>

record uart_functional_cfg = ep_flags +
  ua_baud_rate :: u32
  ua_nr_bits :: u8
  ua_parity :: u8
  ua_stop_bits :: u8
  ua_rx_buffer_size :: u16
  ua_timeout_ms :: u32
  ua_ep_status :: u16
  ua_baud_rate_kbps :: u16
  ua_rts_enable :: bool
  ua_cts_enable :: bool
  ua_half_duplex :: bool
  ua_wire_timeout_bit_times :: u8
  ua_trail :: u8
  ua_trigger :: uart_trigger

definition functional_cfg_init :: uart_functional_cfg where
  "functional_cfg_init =
     \<lparr>ep_enable = False, ep_clear_req_storage = False, ep_req_crc_enable = False,
      ep_response_ts_enable = False, ep_suppress_response = False,
      ua_baud_rate = 0, ua_nr_bits = kNrBitsMax, ua_parity = parity_value ParityNone,
      ua_stop_bits = stop_bits_value One, ua_rx_buffer_size = 0, ua_timeout_ms = 0, ua_ep_status = 0,
      ua_baud_rate_kbps = 0, ua_rts_enable = False, ua_cts_enable = False, ua_half_duplex = False,
      ua_wire_timeout_bit_times = 0, ua_trail = 0, ua_trigger = TriggerNone\<rparr>"

definition set_baud_rate ::
    "u32 \<Rightarrow> server_state \<Rightarrow> writer_ctx \<Rightarrow> uart_functional_cfg \<Rightarrow> bool \<times> uart_functional_cfg" where
  "set_baud_rate baud_rate state writer cfg =
     guarded_write (functional_cfg_writable state writer) (\<lambda>c. c\<lparr>ua_baud_rate := baud_rate\<rparr>) cfg"

definition set_frame_format ::
    "u8 \<Rightarrow> parity \<Rightarrow> stop_bits \<Rightarrow> server_state \<Rightarrow> writer_ctx \<Rightarrow> uart_functional_cfg \<Rightarrow>
      bool \<times> uart_functional_cfg" where
  "set_frame_format nr_bits parity stop_bits state writer cfg =
     guarded_write (nr_bits_valid nr_bits \<and> functional_cfg_writable state writer)
       (\<lambda>c. c\<lparr>ua_nr_bits := nr_bits, ua_parity := parity_value parity,
          ua_stop_bits := stop_bits_value stop_bits\<rparr>) cfg"

definition set_rx_buffer_size ::
    "u16 \<Rightarrow> server_state \<Rightarrow> writer_ctx \<Rightarrow> uart_functional_cfg \<Rightarrow> bool \<times> uart_functional_cfg" where
  "set_rx_buffer_size rx_buffer_size state writer cfg =
     guarded_write (functional_cfg_writable state writer) (\<lambda>c. c\<lparr>ua_rx_buffer_size := rx_buffer_size\<rparr>) cfg"

definition set_timeout ::
    "u32 \<Rightarrow> server_state \<Rightarrow> writer_ctx \<Rightarrow> uart_functional_cfg \<Rightarrow> bool \<times> uart_functional_cfg" where
  "set_timeout timeout_ms state writer cfg =
     guarded_write (functional_cfg_writable state writer) (\<lambda>c. c\<lparr>ua_timeout_ms := timeout_ms\<rparr>) cfg"

definition set_trigger ::
    "uart_trigger \<Rightarrow> server_state \<Rightarrow> writer_ctx \<Rightarrow> uart_functional_cfg \<Rightarrow> bool \<times> uart_functional_cfg" where
  "set_trigger trigger state writer cfg =
     guarded_write (functional_cfg_writable state writer) (\<lambda>c. c\<lparr>ua_trigger := trigger\<rparr>) cfg"

definition kFlagParityEnable :: u8 where [wire_defs]: "kFlagParityEnable = 0x01"
definition kFlagParityPol :: u8 where [wire_defs]: "kFlagParityPol = 0x02"
definition kFlagRtsEnable :: u8 where [wire_defs]: "kFlagRtsEnable = 0x04"
definition kFlagCtsEnable :: u8 where [wire_defs]: "kFlagCtsEnable = 0x08"
definition kFlagHalfDuplex :: u8 where [wire_defs]: "kFlagHalfDuplex = 0x10"

definition kUartEpFuncLen :: nat where "kUartEpFuncLen = 0x000D"

definition stop_bits_to_half_units :: "u8 \<Rightarrow> u8" where
  "stop_bits_to_half_units stop_bits =
     (if stop_bits = stop_bits_value Two then 4
      else if stop_bits = stop_bits_value OneHalf then 3 else 2)"

definition half_units_to_stop_bits :: "u8 \<Rightarrow> u8" where
  "half_units_to_stop_bits half_units =
     (if half_units = 3 then stop_bits_value OneHalf
      else if 4 \<le> half_units then stop_bits_value Two else stop_bits_value One)"

definition reg_offset_read_only :: "nat \<Rightarrow> bool" where
  "reg_offset_read_only addr \<longleftrightarrow> addr = 0 \<or> addr = 1"

text \<open>The octet of the five line flags.\<close>

definition line_flags :: "u8 \<Rightarrow> bool \<Rightarrow> bool \<Rightarrow> bool \<Rightarrow> u8" where
  "line_flags parity rts cts half_duplex =
     (if parity \<noteq> parity_value ParityNone then kFlagParityEnable else 0) OR
     (if parity = parity_value Even then kFlagParityPol else 0) OR
     (if rts then kFlagRtsEnable else 0) OR (if cts then kFlagCtsEnable else 0) OR
     (if half_duplex then kFlagHalfDuplex else 0)"

definition render_registers :: "uart_functional_cfg \<Rightarrow> octets" where
  "render_registers cfg =
     [of_nat kUartEpFuncLen, 0] @ render_flags cfg @ put_u16 (ua_ep_status cfg) @
     put_u16 (ua_baud_rate_kbps cfg) @
     [ua_nr_bits cfg,
      line_flags (ua_parity cfg) (ua_rts_enable cfg) (ua_cts_enable cfg) (ua_half_duplex cfg),
      stop_bits_to_half_units (ua_stop_bits cfg), ua_wire_timeout_bit_times cfg, ua_trail cfg]"

definition parsed_parity :: "u8 \<Rightarrow> u8" where
  "parsed_parity flags =
     (if flags AND kFlagParityEnable = 0 then parity_value ParityNone
      else if flags AND kFlagParityPol \<noteq> 0 then parity_value Even else parity_value Odd)"

definition parse_registers :: "octets \<Rightarrow> uart_functional_cfg \<Rightarrow> uart_functional_cfg" where
  "parse_registers b cfg = parse_flags (b ! 2) (b ! 3)
     (cfg\<lparr>ua_ep_status := get_u16 (drop 4 b), ua_baud_rate_kbps := get_u16 (drop 6 b), ua_nr_bits := b ! 8,
      ua_parity := parsed_parity (b ! 9),
      ua_rts_enable := (b ! 9 AND kFlagRtsEnable \<noteq> 0), ua_cts_enable := (b ! 9 AND kFlagCtsEnable \<noteq> 0),
      ua_half_duplex := (b ! 9 AND kFlagHalfDuplex \<noteq> 0),
      ua_stop_bits := half_units_to_stop_bits (b ! 10), ua_wire_timeout_bit_times := b ! 11,
      ua_trail := b ! 12\<rparr>)"

datatype uart_reconfig_errc = Short_payload | Out_of_range

definition apply_reconfig ::
    "octets \<Rightarrow> uart_functional_cfg \<Rightarrow> uart_reconfig_errc option \<times> uart_functional_cfg" where
  "apply_reconfig payload cfg =
     block_reconfig Short_payload Out_of_range kUartEpFuncLen reg_offset_read_only render_registers
       parse_registers payload cfg"

definition encode_reconfig_request :: "u16 \<Rightarrow> u16 \<Rightarrow> octets \<Rightarrow> u8 \<Rightarrow> octets" where
  "encode_reconfig_request byte_bus_id start_address data transaction_num =
     encode_config_write byte_bus_id start_address data transaction_num"

text \<open>
  What the registers keep: the polarity bit only with parity, and of the stop bits the three
  lengths that exist.
\<close>

definition kept_line :: "nat \<Rightarrow> u8 \<Rightarrow> u8" where
  "kept_line a x =
     (if a = 9 then (if x AND 1 = 0 then x AND 0x1C else x AND 0x1F)
      else if a = 10 then (if x = 3 then 3 else if 4 \<le> x then 4 else 2)
      else kept_flags a x)"

definition uart_cfg_fits :: "uart_functional_cfg \<Rightarrow> bool" where
  "uart_cfg_fits cfg \<longleftrightarrow> ua_parity cfg \<in> {0, 1, 2} \<and> ua_stop_bits cfg \<in> {0, 1, 2}"

lemma line_octets [simp]:
  "line_flags (parsed_parity x) (x AND kFlagRtsEnable \<noteq> 0) (x AND kFlagCtsEnable \<noteq> 0) (x AND kFlagHalfDuplex \<noteq> 0) =
     (if x AND 1 = 0 then x AND 0x1C else x AND 0x1F)"
  "line_flags p r c h AND 1 = 0 \<Longrightarrow> line_flags p r c h AND 0x1C = line_flags p r c h"
  "line_flags p r c h AND 0x1F = line_flags p r c h"
  "line_flags p r c h AND kFlagRtsEnable \<noteq> 0 \<longleftrightarrow> r"
  "line_flags p r c h AND kFlagCtsEnable \<noteq> 0 \<longleftrightarrow> c"
  "line_flags p r c h AND kFlagHalfDuplex \<noteq> 0 \<longleftrightarrow> h"
  "p \<in> {0, 1, 2} \<Longrightarrow> parsed_parity (line_flags p r c h) = p"
  by (auto simp: line_flags_def parsed_parity_def wire_defs bits split: if_splits)

lemma half_units [simp]:
  "stop_bits_to_half_units (half_units_to_stop_bits x) = (if x = 3 then 3 else if 4 \<le> x then 4 else 2)"
  "b \<in> {0, 1, 2} \<Longrightarrow> half_units_to_stop_bits (stop_bits_to_half_units b) = b"
  "stop_bits_to_half_units b \<in> {2, 3, 4}"
  by (auto simp: stop_bits_to_half_units_def half_units_to_stop_bits_def)

lemma parsed_in_range [simp]: "uart_cfg_fits (parse_registers b cfg)"
  by (simp add: uart_cfg_fits_def parse_registers_def parse_flags_def parsed_parity_def half_units_to_stop_bits_def)

interpretation uart_block: register_block kUartEpFuncLen reg_offset_read_only kept_line render_registers
    parse_registers "\<lambda>_. True" uart_cfg_fits
proof (unfold_locales, goal_cases)
  case (3 cfg)
  have "kept_line 9 (line_flags p r c h) = line_flags p r c h" for p r c h
    by (simp add: kept_line_def)
  moreover have "kept_line 10 (stop_bits_to_half_units b) = stop_bits_to_half_units b" for b
    using half_units(3) [of b] by (auto simp: kept_line_def)
  ultimately show ?case
    by (simp add: kUartEpFuncLen_def render_registers_def flag_defs register_addresses put_u16_def)
      (simp add: kept_line_def kept_flags_def)
next
  case (5 cfg block)
  show ?case by (rule parsed_in_range)
qed (simp_all add: kUartEpFuncLen_def render_registers_def parse_registers_def reg_offset_read_only_def
      kept_line_def kept_flags_def flag_defs register_addresses put_u16_def uart_cfg_fits_def)

section \<open>Messages\<close>

definition encode_write_request :: "u16 \<Rightarrow> octets \<Rightarrow> u8 \<Rightarrow> octets" where
  "encode_write_request byte_bus_id tx_data transaction_num =
     encode_acf_abb (acf_default\<lparr>a_byte_bus_id := byte_bus_id, a_op := True, a_evt_op := 0,
       a_transaction_num := transaction_num\<rparr>) tx_data"

definition decode_write_request :: "u16 \<Rightarrow> octets \<Rightarrow> uart_errc + (octets \<times> u8)" where
  "decode_write_request expected_bus_id b =
     (case open_abb Short_frame Bad_msg_type Wrong_bus expected_bus_id b of
        Inl ec \<Rightarrow> Inl ec
      | Inr (hdr, payload) \<Rightarrow>
          if \<not> a_op hdr then Inl Wrong_op
          else if \<not> evt_row2_is_plain (a_evt_op hdr) then Inl Bad_evt
          else Inr (payload, a_transaction_num hdr))"

definition encode_write_response :: "u16 \<Rightarrow> octets \<Rightarrow> u8 \<Rightarrow> bool \<Rightarrow> u64 \<Rightarrow> octets" where
  "encode_write_response byte_bus_id accepted_data transaction_num timed timestamp =
     encode_timed (acf_default\<lparr>a_byte_bus_id := byte_bus_id, a_op := True, a_rsp := True, a_evt_op := 0,
       a_transaction_num := transaction_num\<rparr>) accepted_data timed timestamp"

definition decode_write_response :: "u16 \<Rightarrow> octets \<Rightarrow> uart_errc + (octets \<times> bool \<times> u64 \<times> u8)" where
  "decode_write_response expected_bus_id b =
     (case open_response Short_frame Bad_msg_type Wrong_bus expected_bus_id b of
        Inl ec \<Rightarrow> Inl ec
      | Inr (hdr, payload, timed, timestamp) \<Rightarrow> Inr (payload, timed, timestamp, a_transaction_num hdr))"

definition encode_read_request :: "u16 \<Rightarrow> u16 \<Rightarrow> u8 \<Rightarrow> octets" where
  "encode_read_request byte_bus_id read_size transaction_num =
     encode_acf_abb (acf_default\<lparr>a_byte_bus_id := byte_bus_id, a_op := False, a_evt_op := 0,
       a_transaction_num := transaction_num, a_read_size := read_size\<rparr>) []"

definition decode_read_request :: "u16 \<Rightarrow> octets \<Rightarrow> uart_errc + (u16 \<times> u8)" where
  "decode_read_request expected_bus_id b =
     (case open_abb Short_frame Bad_msg_type Wrong_bus expected_bus_id b of
        Inl ec \<Rightarrow> Inl ec
      | Inr (hdr, payload) \<Rightarrow>
          if a_op hdr then Inl Wrong_op
          else if \<not> evt_row2_is_plain (a_evt_op hdr) then Inl Bad_evt
          else if payload \<noteq> [] then Inl Unknown_cmd
          else Inr (a_read_size hdr, a_transaction_num hdr))"

definition encode_read_response :: "u16 \<Rightarrow> octets \<Rightarrow> u8 \<Rightarrow> bool \<Rightarrow> u64 \<Rightarrow> octets" where
  "encode_read_response byte_bus_id rx_data transaction_num timed timestamp =
     encode_timed (acf_default\<lparr>a_byte_bus_id := byte_bus_id, a_op := False, a_rsp := True, a_evt_op := 0,
       a_transaction_num := transaction_num\<rparr>) rx_data timed timestamp"

definition decode_read_response :: "u16 \<Rightarrow> octets \<Rightarrow> uart_errc + (octets \<times> bool \<times> u64 \<times> u8)" where
  "decode_read_response expected_bus_id b =
     (case open_response Short_frame Bad_msg_type Wrong_bus expected_bus_id b of
        Inl ec \<Rightarrow> Inl ec
      | Inr (hdr, payload, timed, timestamp) \<Rightarrow> Inr (payload, timed, timestamp, a_transaction_num hdr))"

interpretation uart_write_request: message_codec "\<lambda>(tx, txn). encode_write_request bus tx txn"
    "decode_write_request bus" "\<lambda>(tx, txn). bus < 0x800" for bus
  by unfold_locales (auto simp: encode_write_request_def decode_write_request_def)

interpretation uart_write_response: message_codec
    "\<lambda>(data, timed, ts, txn). encode_write_response bus data txn timed ts" "decode_write_response bus"
    "\<lambda>(data, timed, ts, txn). bus < 0x800 \<and> (timed \<or> ts = 0)" for bus
  by unfold_locales (auto simp: encode_write_response_def decode_write_response_def)

interpretation uart_read_request: message_codec "\<lambda>(read_size, txn). encode_read_request bus read_size txn"
    "decode_read_request bus" "\<lambda>(read_size, txn). bus < 0x800 \<and> read_size \<le> kMaxReadSize" for bus
  by unfold_locales (auto simp: encode_read_request_def decode_read_request_def kMaxReadSize_def)

interpretation uart_read_response: message_codec
    "\<lambda>(data, timed, ts, txn). encode_read_response bus data txn timed ts" "decode_read_response bus"
    "\<lambda>(data, timed, ts, txn). bus < 0x800 \<and> (timed \<or> ts = 0)" for bus
  by unfold_locales (auto simp: encode_read_response_def decode_read_response_def)

section \<open>Fragmented read responses\<close>

definition read_response_fragment_count :: "nat \<Rightarrow> nat \<Rightarrow> nat" where
  "read_response_fragment_count rx_len max_fragment_payload = plan_count rx_len max_fragment_payload"

definition encode_read_response_fragmented ::
    "u16 \<Rightarrow> octets \<Rightarrow> u8 \<Rightarrow> bool \<Rightarrow> u64 \<Rightarrow> nat \<Rightarrow> octets list" where
  "encode_read_response_fragmented byte_bus_id rx_data transaction_num timed timestamp max_fragment_payload =
     fragment_frames (acf_default\<lparr>a_byte_bus_id := byte_bus_id, a_op := False, a_rsp := True, a_evt_op := 0,
       a_transaction_num := transaction_num\<rparr>) rx_data timed timestamp max_fragment_payload"

definition decode_read_response_fragment :: "u16 \<Rightarrow> octets \<Rightarrow> uart_errc + response_fragment" where
  "decode_read_response_fragment expected_bus_id b =
     open_fragment Short_frame Bad_msg_type Wrong_bus expected_bus_id b"

lemma read_response_arrives:
  assumes "read_response_fragment_count (length rx) m \<noteq> 0" "length rx + m < 2 ^ 64"
    and "length rx \<le> limit" "length rx \<le> kDefaultReassemblyCapacity" "bus < 0x800" "timed \<or> ts = 0"
  shows "arrives_as (decode_read_response_fragment bus) (encode_read_response_fragmented bus rx txn timed ts m)
    limit rx timed ts txn"
  unfolding encode_read_response_fragmented_def decode_read_response_fragment_def
  using assms by (intro fragments_arrive [THEN conjunct2]) (simp_all add: read_response_fragment_count_def)

section \<open>When a read completes\<close>

datatype uart_read_completion = NotYetComplete | RespondNormal | RespondFragmented

definition wire_timeout_us :: "u16 \<Rightarrow> u8 \<Rightarrow> u32" where
  "wire_timeout_us baud_rate_kbps wire_timeout_bit_times =
     (if baud_rate_kbps = 0 then 0
      else (ucast wire_timeout_bit_times * 1000 + ucast baud_rate_kbps - 1) div ucast baud_rate_kbps)"

definition read_completion_decision :: "u16 \<Rightarrow> u16 \<Rightarrow> u32 \<Rightarrow> u32 \<Rightarrow> u16 \<Rightarrow> uart_read_completion" where
  "read_completion_decision bytes_available read_size elapsed_ms uart_timeout_ms rx_fifo_size =
     (if rx_fifo_size < read_size \<and> rx_fifo_size \<le> bytes_available then RespondFragmented
      else if read_size \<le> bytes_available then RespondNormal
      else if uart_timeout_ms \<le> elapsed_ms then RespondNormal
      else NotYetComplete)"

section \<open>The endpoint\<close>

record uart_endpoint =
  ue_tx_queue :: octets
  ue_rx_fifo :: octets

definition new_uart_endpoint :: uart_endpoint where
  "new_uart_endpoint = \<lparr>ue_tx_queue = [], ue_rx_fifo = []\<rparr>"

definition enqueue_tx :: "octets \<Rightarrow> uart_endpoint \<Rightarrow> uart_errc option \<times> uart_endpoint" where
  "enqueue_tx bytes ep =
     (if kTxQueueCapacity < length (ue_tx_queue ep) + length bytes then (Some Tx_queue_overflow, ep)
      else (None, ep\<lparr>ue_tx_queue := ue_tx_queue ep @ bytes\<rparr>))"

definition drain_tx :: "uart_endpoint \<Rightarrow> octets \<times> uart_endpoint" where
  "drain_tx ep = (ue_tx_queue ep, ep\<lparr>ue_tx_queue := []\<rparr>)"

definition rx_fill :: "octets \<Rightarrow> uart_endpoint \<Rightarrow> uart_errc option \<times> uart_endpoint" where
  "rx_fill bytes ep =
     (if kRxFifoCapacity < length (ue_rx_fifo ep) + length bytes then (Some Rx_fifo_overflow, ep)
      else (None, ep\<lparr>ue_rx_fifo := ue_rx_fifo ep @ bytes\<rparr>))"

definition rx_available :: "uart_endpoint \<Rightarrow> nat" where
  "rx_available ep = length (ue_rx_fifo ep)"

text \<open>The loop of \<open>handle_read\<close>: the octets read and the rest of the queue.\<close>

fun pop_octets :: "nat \<Rightarrow> octets \<Rightarrow> octets \<times> octets" where
  "pop_octets 0 fifo = ([], fifo)"
| "pop_octets (Suc n) [] = ([], [])"
| "pop_octets (Suc n) (x # fifo) = apfst ((#) x) (pop_octets n fifo)"

text \<open>The out-parameters of a read: the data, and whether the read timed out.\<close>

type_synonym uart_read_result = "octets \<times> bool"

definition handle_read ::
    "u16 \<Rightarrow> u32 \<Rightarrow> u32 \<Rightarrow> uart_endpoint \<times> uart_read_result \<Rightarrow>
      uart_errc option \<times> uart_endpoint \<times> uart_read_result" where
  "handle_read read_size elapsed_ms uart_timeout_ms s =
     (if kMaxReadSize < read_size then (Some Read_size_exceeds_bound, s)
      else
        (let (out_data, fifo) = pop_octets (unat read_size) (ue_rx_fifo (fst s));
             reached = (unat read_size \<le> length out_data \<and> 0 < read_size)
         in (None, (fst s)\<lparr>ue_rx_fifo := fifo\<rparr>, out_data, \<not> reached \<and> uart_timeout_ms \<le> elapsed_ms)))"

definition handle_pure_read :: "uart_endpoint \<Rightarrow> octets \<times> uart_endpoint" where
  "handle_pure_read ep = (ue_rx_fifo ep, ep\<lparr>ue_rx_fifo := []\<rparr>)"

definition handle_request ::
    "u8 \<Rightarrow> bool \<Rightarrow> octets \<Rightarrow> u16 \<Rightarrow> u32 \<Rightarrow> u32 \<Rightarrow> uart_endpoint \<times> uart_read_result \<Rightarrow>
      uart_errc request_error option \<times> uart_endpoint \<times> uart_read_result" where
  "handle_request evt_op is_write tx_bytes read_size elapsed_ms uart_timeout_ms s =
     handle_row2 evt_op Config_write_not_supported
       (\<lambda>s. if is_write then apsnd (\<lambda>ep. (ep, snd s)) (enqueue_tx tx_bytes (fst s))
            else handle_read read_size elapsed_ms uart_timeout_ms s) s"

lemma pop_octets_eq: "pop_octets n fifo = (take n fifo, drop n fifo)"
  by (induction n fifo rule: pop_octets.induct) simp_all

section \<open>Nothing is lost or reordered\<close>

text \<open>The calls a server makes, and what a run of them takes in and gives out in each direction.\<close>

datatype uart_call =
    Enqueue octets | Drain | Fill octets | ReadCall u16 u32 u32 | PureRead

record uart_trace =
  ut_ep :: uart_endpoint
  ut_tx_in :: octets
  ut_tx_out :: octets
  ut_rx_in :: octets
  ut_rx_out :: octets

fun uart_step :: "uart_call \<Rightarrow> uart_trace \<Rightarrow> uart_trace" where
  "uart_step (Enqueue bytes) t =
     (case enqueue_tx bytes (ut_ep t) of
        (ec, ep) \<Rightarrow> t\<lparr>ut_ep := ep, ut_tx_in := ut_tx_in t @ (if ec = None then bytes else [])\<rparr>)"
| "uart_step Drain t =
     (case drain_tx (ut_ep t) of (out, ep) \<Rightarrow> t\<lparr>ut_ep := ep, ut_tx_out := ut_tx_out t @ out\<rparr>)"
| "uart_step (Fill bytes) t =
     (case rx_fill bytes (ut_ep t) of
        (ec, ep) \<Rightarrow> t\<lparr>ut_ep := ep, ut_rx_in := ut_rx_in t @ (if ec = None then bytes else [])\<rparr>)"
| "uart_step (ReadCall n elapsed timeout) t =
     (case handle_read n elapsed timeout (ut_ep t, [], False) of
        (ec, ep, out, _) \<Rightarrow> t\<lparr>ut_ep := ep, ut_rx_out := ut_rx_out t @ out\<rparr>)"
| "uart_step PureRead t =
     (case handle_pure_read (ut_ep t) of (out, ep) \<Rightarrow> t\<lparr>ut_ep := ep, ut_rx_out := ut_rx_out t @ out\<rparr>)"

definition uart_run :: "uart_call list \<Rightarrow> uart_trace" where
  "uart_run calls = fold uart_step calls
     \<lparr>ut_ep = new_uart_endpoint, ut_tx_in = [], ut_tx_out = [], ut_rx_in = [], ut_rx_out = []\<rparr>"

definition uart_balanced :: "uart_trace \<Rightarrow> bool" where
  "uart_balanced t \<longleftrightarrow>
     ut_tx_out t @ ue_tx_queue (ut_ep t) = ut_tx_in t \<and> length (ue_tx_queue (ut_ep t)) \<le> kTxQueueCapacity \<and>
     ut_rx_out t @ ue_rx_fifo (ut_ep t) = ut_rx_in t \<and> length (ue_rx_fifo (ut_ep t)) \<le> kRxFifoCapacity"

lemma uart_step_balanced: "uart_balanced t \<Longrightarrow> uart_balanced (uart_step call t)"
  by (cases call)
    (auto simp: uart_balanced_def enqueue_tx_def drain_tx_def rx_fill_def handle_read_def handle_pure_read_def
      pop_octets_eq Let_def)

lemma uart_run_balanced: "uart_balanced (uart_run calls)"
proof -
  have "uart_balanced t \<Longrightarrow> uart_balanced (fold uart_step calls t)" for t
    by (induction calls arbitrary: t) (simp_all add: uart_step_balanced)
  then show ?thesis by (simp add: uart_run_def uart_balanced_def new_uart_endpoint_def)
qed

text \<open>
  C36. In every run of the UART endpoint, both queues hold at most 512 octets and are first in first
  out without loss: what was drained or read so far, followed by what is queued, is what was
  accepted. A message is accepted whole, exactly when it fits; a read gives the octets that are
  there, at most as many as asked for, and is reported as timed out only when it comes up short
  (or asks for nothing) and the time has passed.
\<close>

theorem uart_fifo_exact:
  "(let t = uart_run calls; ep = ut_ep t in
     ut_tx_out t @ ue_tx_queue ep = ut_tx_in t \<and> length (ue_tx_queue ep) \<le> kTxQueueCapacity \<and>
     ut_rx_out t @ ue_rx_fifo ep = ut_rx_in t \<and> length (ue_rx_fifo ep) \<le> kRxFifoCapacity \<and>
     (fst (enqueue_tx bytes ep) = None \<longleftrightarrow> length (ue_tx_queue ep) + length bytes \<le> kTxQueueCapacity) \<and>
     (fst (rx_fill bytes ep) = None \<longleftrightarrow> length (ue_rx_fifo ep) + length bytes \<le> kRxFifoCapacity) \<and>
     handle_read n elapsed timeout (ep, out) =
       (if kMaxReadSize < n then (Some Read_size_exceeds_bound, ep, out)
        else (None, ep\<lparr>ue_rx_fifo := drop (unat n) (ue_rx_fifo ep)\<rparr>, take (unat n) (ue_rx_fifo ep),
               (n = 0 \<or> rx_available ep < unat n) \<and> timeout \<le> elapsed)))"
  using uart_run_balanced [of calls]
  by (auto simp: uart_balanced_def enqueue_tx_def rx_fill_def handle_read_def pop_octets_eq rx_available_def
      Let_def not_less word_less_nat_alt unsigned_eq_0_iff)

text \<open>The receiver timeout in microseconds: the bit times at this rate, rounded up; no overflow.\<close>

lemma wire_timeout_exact:
  "unat (wire_timeout_us rate bits) =
     (if rate = 0 then 0 else (unat bits * 1000 + unat rate - 1) div unat rate)"
proof -
  have b: "unat bits * 1000 + unat rate < 2 ^ 32" using unsigned_less [where 'a = nat, of bits] unsigned_less [where 'a = nat, of rate] by simp
  have r: "unat (ucast rate :: u32) = unat rate"
    using b by (simp add: unsigned_ucast_eq take_bit_nat_eq_self)
  have u: "unat (ucast bits * 1000 + ucast rate :: u32) = unat bits * 1000 + unat rate"
    using b by (simp add: unat_word_ariths unsigned_ucast_eq take_bit_nat_eq_self)
  show ?thesis
  proof (cases "rate = 0")
    case False
    then have "1 \<le> unat rate" by (simp add: Suc_le_eq unat_gt_0)
    then have "unat (ucast bits * 1000 + ucast rate - 1 :: u32) = unat bits * 1000 + unat rate - 1"
      using u by (subst unat_sub) (simp_all add: word_le_nat_alt)
    then show ?thesis using False
      by (simp add: wire_timeout_us_def unat_div r)
  qed (simp add: wire_timeout_us_def)
qed

text \<open>
  A read that does not wait answers for one of three reasons, in this order: the FIFO can never
  hold what was asked for and is full, all octets are there, or the time has passed.
\<close>

lemma read_completion_exact:
  "read_completion_decision available read_size elapsed timeout fifo_size = NotYetComplete \<longleftrightarrow>
     available < read_size \<and> elapsed < timeout \<and> (read_size \<le> fifo_size \<or> available < fifo_size)"
  by (auto simp: read_completion_decision_def not_le not_less)

end
