(* ===== verification/Lin.thy ===== *)
theory Lin
  imports Ep_Block
begin

text \<open>
  The LIN endpoint type, \<open>include/rcp/lin.hpp\<close>: its functional configuration and register block,
  the command request and its response, and the endpoint that performs a transfer.
\<close>

datatype lin_errc =
    No_response | Config_write_not_supported | Short_frame | Bad_msg_type | Wrong_bus | Wrong_op | Bad_evt

datatype lin_signal = TransferComplete | NoResponse

fun lin_signal_id :: "lin_signal \<Rightarrow> u16" where
  "lin_signal_id TransferComplete = 0"
| "lin_signal_id NoResponse = 1"

definition response_matches :: "octets \<Rightarrow> octets \<Rightarrow> bool" where
  "response_matches tx rx = compound_wait_match 0x0 tx rx"

datatype lin_trigger = TriggerNone | TxDone

fun trigger_fires :: "lin_trigger \<Rightarrow> bool \<Rightarrow> bool \<Rightarrow> bool" where
  "trigger_fires TxDone tx_done_event trailing_time_expired = (tx_done_event \<and> trailing_time_expired)"
| "trigger_fires TriggerNone tx_done_event trailing_time_expired = False"

section \<open>Functional configuration\<close>

record lin_functional_config = ep_flags +
  ln_clk_divider :: u32
  ln_trigger :: lin_trigger
  ln_ep_status :: u16
  ln_wire_clk_divider :: u8

definition set_clk_divider ::
    "u32 \<Rightarrow> server_state \<Rightarrow> writer_ctx \<Rightarrow> lin_functional_config \<Rightarrow> bool \<times> lin_functional_config" where
  "set_clk_divider lin_clk_divider state writer cfg =
     guarded_write (functional_cfg_writable state writer) (\<lambda>c. c\<lparr>ln_clk_divider := lin_clk_divider\<rparr>) cfg"

definition set_trigger ::
    "lin_trigger \<Rightarrow> server_state \<Rightarrow> writer_ctx \<Rightarrow> lin_functional_config \<Rightarrow> bool \<times> lin_functional_config" where
  "set_trigger trigger state writer cfg =
     guarded_write (functional_cfg_writable state writer) (\<lambda>c. c\<lparr>ln_trigger := trigger\<rparr>) cfg"

definition kLinEpFuncLen :: nat where "kLinEpFuncLen = 0x0009"

definition render_registers :: "lin_functional_config \<Rightarrow> octets" where
  "render_registers cfg =
     [of_nat kLinEpFuncLen, 0] @ render_flags cfg @ [0, 0] @ put_u16 (ln_ep_status cfg) @
     [ln_wire_clk_divider cfg]"

definition reg_offset_read_only :: "nat \<Rightarrow> bool" where
  "reg_offset_read_only addr \<longleftrightarrow> addr = 0 \<or> addr = 1 \<or> addr = 4 \<or> addr = 5"

definition parse_registers :: "octets \<Rightarrow> lin_functional_config \<Rightarrow> lin_functional_config" where
  "parse_registers b cfg = parse_flags (b ! 2) (b ! 3)
     (cfg\<lparr>ln_ep_status := get_u16 (drop 6 b), ln_wire_clk_divider := b ! 8\<rparr>)"

datatype lin_reconfig_errc = Short_payload | Out_of_range

definition apply_reconfig ::
    "octets \<Rightarrow> lin_functional_config \<Rightarrow> lin_reconfig_errc option \<times> lin_functional_config" where
  "apply_reconfig payload cfg =
     block_reconfig Short_payload Out_of_range kLinEpFuncLen reg_offset_read_only render_registers
       parse_registers payload cfg"

text \<open>Unlike the other endpoint types, this one does not limit the length of the data.\<close>

definition encode_reconfig_request :: "u16 \<Rightarrow> u16 \<Rightarrow> octets \<Rightarrow> u8 \<Rightarrow> octets" where
  "encode_reconfig_request byte_bus_id start_address data transaction_num =
     (if data = [] then [] else config_write_message byte_bus_id start_address data transaction_num)"

interpretation lin_block: register_block kLinEpFuncLen reg_offset_read_only kept_flags render_registers
    parse_registers "\<lambda>_. True" "\<lambda>_. True"
  by unfold_locales
    (simp_all add: kLinEpFuncLen_def render_registers_def parse_registers_def reg_offset_read_only_def
      kept_flags_def flag_defs register_addresses put_u16_def)

text \<open>
  The length field of the header counts quadlets in 9 bits. A write of 2040 octets, which the
  guard of the other types refuses, is sent with a length field that has wrapped to zero.
\<close>

lemma long_write_wraps_length:
  "length data = 2038 \<Longrightarrow> bus < 0x800 \<Longrightarrow>
     \<exists>info. open_abb Short_frame Bad_msg_type Wrong_bus bus (encode_reconfig_request bus start data txn) =
       Inr (info, put_u16 start @ data) \<and> a_msg_length info = 0"
  by (auto simp: encode_reconfig_request_def config_write_message_def arriving_def mask_info_def
      abb_header_def fill_length_def acf_default_def compute_acf_msg_length_def kAcfMsgTypeAbb_def
      kAcfMsgTypeGbb_def kAcfCommonHeaderLen_def Let_def)

section \<open>Messages\<close>

definition encode_command_request :: "u16 \<Rightarrow> octets \<Rightarrow> u8 \<Rightarrow> octets" where
  "encode_command_request byte_bus_id tx_data transaction_num =
     encode_acf_abb (acf_default\<lparr>a_byte_bus_id := byte_bus_id, a_op := False,
       a_transaction_num := transaction_num\<rparr>) tx_data"

definition decode_command_request :: "u16 \<Rightarrow> octets \<Rightarrow> lin_errc + (octets \<times> u8)" where
  "decode_command_request expected_bus_id b =
     (case open_abb Short_frame Bad_msg_type Wrong_bus expected_bus_id b of
        Inl ec \<Rightarrow> Inl ec
      | Inr (hdr, payload) \<Rightarrow>
          if a_op hdr then Inl Wrong_op
          else if \<not> evt_row2_is_plain (a_evt_op hdr) then Inl Bad_evt
          else Inr (payload, a_transaction_num hdr))"

definition encode_response :: "u16 \<Rightarrow> octets \<Rightarrow> u8 \<Rightarrow> bool \<Rightarrow> u64 \<Rightarrow> octets" where
  "encode_response byte_bus_id rx_data transaction_num timed timestamp =
     encode_timed (acf_default\<lparr>a_byte_bus_id := byte_bus_id, a_op := False, a_rsp := True,
       a_transaction_num := transaction_num\<rparr>) rx_data timed timestamp"

definition decode_response :: "u16 \<Rightarrow> octets \<Rightarrow> lin_errc + (octets \<times> bool \<times> u64 \<times> u8)" where
  "decode_response expected_bus_id b =
     (case open_response Short_frame Bad_msg_type Wrong_bus expected_bus_id b of
        Inl ec \<Rightarrow> Inl ec
      | Inr (hdr, payload, timed, timestamp) \<Rightarrow> Inr (payload, timed, timestamp, a_transaction_num hdr))"

interpretation lin_command: message_codec "\<lambda>(tx, txn). encode_command_request bus tx txn"
    "decode_command_request bus" "\<lambda>(tx, txn). bus < 0x800" for bus
  by unfold_locales (auto simp: encode_command_request_def decode_command_request_def acf_default_def)

interpretation lin_response: message_codec
    "\<lambda>(rx, timed, ts, txn). encode_response bus rx txn timed ts" "decode_response bus"
    "\<lambda>(rx, timed, ts, txn). bus < 0x800 \<and> (timed \<or> ts = 0)" for bus
  by unfold_locales (auto simp: encode_response_def decode_response_def)

section \<open>The endpoint\<close>

record lin_endpoint =
  le_triggers :: trigger_registry
  le_last_out :: octets
  le_last_in :: octets
  le_cfg :: lin_functional_config

definition transfer :: "octets \<Rightarrow> octets \<Rightarrow> bool \<Rightarrow> lin_endpoint \<Rightarrow> lin_errc option \<times> lin_endpoint" where
  "transfer out_bytes in_bytes responded ep =
     (let ep = ep\<lparr>le_last_out := out_bytes, le_last_in := in_bytes\<rparr>
      in if \<not> responded
         then (Some No_response, ep\<lparr>le_triggers := notify (lin_signal_id NoResponse) (le_triggers ep)\<rparr>)
         else (None, ep\<lparr>le_triggers := notify (lin_signal_id TransferComplete) (le_triggers ep)\<rparr>))"

definition handle_request ::
    "u8 \<Rightarrow> octets \<Rightarrow> octets \<Rightarrow> bool \<Rightarrow> lin_endpoint \<Rightarrow> lin_errc request_error option \<times> lin_endpoint" where
  "handle_request evt_op out_bytes in_bytes responded ep =
     handle_row2 evt_op Config_write_not_supported (transfer out_bytes in_bytes responded) ep"

end
