(* ===== verification/Iseled.thy ===== *)
theory Iseled
  imports Ep_Fragments
begin

text \<open>
  The ISELED endpoint type, \<open>include/rcp/iseled.hpp\<close>: the bit framing with parity symbols and its
  CRC-8, the functional configuration and register block, the messages with the fragmented
  response, and the endpoint.
\<close>

datatype iseled_errc =
    Short_frame | Bad_msg_type | Wrong_bus | Wrong_op | Bad_symbol | Crc_mismatch | Odd_symbol_count
  | Bad_evt | Config_write_not_supported

section \<open>Symbols\<close>

function popcount_loop :: "u8 \<Rightarrow> u8 \<Rightarrow> u8" where
  "popcount_loop c v = (if v = 0 then c else popcount_loop (c + (v AND 0x01)) (drop_bit 1 v))"
  by pat_completeness auto
termination
proof (relation "measure (\<lambda>(c, v). unat v)")
  fix c v :: u8
  assume "v \<noteq> 0"
  then have "0 < unat v" by (simp add: unat_gt_0)
  then show "((c + (v AND 0x01), drop_bit 1 v), c, v) \<in> measure (\<lambda>(c, v). unat v)"
    by (simp add: drop_bit_eq_div unat_div)
qed simp

declare popcount_loop.simps [simp del]

definition popcount4 :: "u8 \<Rightarrow> u8" where
  "popcount4 n = popcount_loop 0 (n AND 0x0F)"

definition symbol_encode :: "u8 \<Rightarrow> u8" where
  "symbol_encode nibble =
     (let n = nibble AND 0x0F; parity = popcount4 n AND 0x01 in push_bit 4 parity OR n)"

text \<open>\<open>None\<close> is the return value \<open>false\<close>.\<close>

definition symbol_decode :: "u8 \<Rightarrow> u8 option" where
  "symbol_decode symbol =
     (let s = symbol AND 0x1F; n = s AND 0x0F; parity_bit = drop_bit 4 s AND 0x01;
          want_parity = popcount4 n AND 0x01
      in if parity_bit \<noteq> want_parity then None else Some n)"

lemma nibble_parity: "popcount4 n AND 0x01 = (n XOR drop_bit 1 n XOR drop_bit 2 n XOR drop_bit 3 n) AND 0x01"
proof -
  have cases: "\<exists>k < 16. n AND 0x0F = word_of_nat k"
  proof -
    have "n AND mask 4 < 2 ^ 4" by (rule and_mask_less_size) (simp add: word_size)
    then have "unat (n AND 0x0F) < 16" by (simp add: mask_numeral word_less_nat_alt)
    then show ?thesis by (intro exI [of _ "unat (n AND 0x0F)"]) simp
  qed
  have rest: "(n XOR drop_bit 1 n XOR drop_bit 2 n XOR drop_bit 3 n) AND 0x01 =
      ((n AND 0x0F) XOR drop_bit 1 (n AND 0x0F) XOR drop_bit 2 (n AND 0x0F) XOR drop_bit 3 (n AND 0x0F)) AND 0x01"
    by (simp add: bits)
  obtain k where k: "k < 16" "n AND 0x0F = word_of_nat k" using cases by blast
  have "k \<in> {0, 1, 2, 3, 4, 5, 6, 7, 8, 9, 10, 11, 12, 13, 14, 15}"
    using k(1) unfolding insert_iff empty_iff by presburger
  then show ?thesis
    unfolding rest popcount4_def k(2) by (elim insertE) (simp_all add: popcount_loop.simps)
qed

text \<open>
  A symbol decodes exactly when it is, up to its three unused bits, the encoding of a nibble; two
  nibbles have different symbols.
\<close>

lemma symbol_encode_bits:
  "symbol_encode n = push_bit 4 ((n XOR drop_bit 1 n XOR drop_bit 2 n XOR drop_bit 3 n) AND 0x01) OR (n AND 0x0F)"
  using nibble_parity [of "n AND 0x0F"]
  by (simp add: symbol_encode_def Let_def) (simp add: bits)

lemma symbol_decode_iff:
  "symbol_decode s = Some n \<longleftrightarrow> s AND 0x1F = symbol_encode n \<and> n AND 0x0F = n"
  unfolding symbol_decode_def symbol_encode_bits Let_def nibble_parity
  by (auto simp: bits)

lemma symbol_encode_inject:
  "symbol_encode m = symbol_encode n \<Longrightarrow> m AND 0x0F = n AND 0x0F"
  unfolding symbol_encode_bits by (simp add: bits)

section \<open>The CRC\<close>

text \<open>One round of the inner loop, for one bit.\<close>

definition crc8_bit :: "u8 \<Rightarrow> u8" where
  "crc8_bit crc = (if crc AND 0x80 \<noteq> 0 then push_bit 1 crc XOR 0x07 else push_bit 1 crc)"

definition crc8_step :: "u8 \<Rightarrow> u8 \<Rightarrow> u8" where
  "crc8_step crc octet = (crc8_bit ^^ 8) (crc XOR octet)"

definition crc8 :: "octets \<Rightarrow> u8" where
  "crc8 data = foldl crc8_step 0 data"

text \<open>The low bit of the polynomial is set, so no two states have the same successor.\<close>

lemma inj_crc8_bit: "inj crc8_bit"
proof (rule injI)
  fix x y
  assume "crc8_bit x = crc8_bit y"
  then show "x = y" by (auto simp: crc8_bit_def bits split: if_splits)
qed

lemma crc8_step_inject:
  "crc8_step c x = crc8_step d x \<longleftrightarrow> c = d" "crc8_step c x = crc8_step c y \<longleftrightarrow> x = y"
proof -
  have i: "inj (crc8_bit ^^ 8)" by (rule inj_fn [OF inj_crc8_bit])
  have x: "c XOR x = d XOR x \<longleftrightarrow> c = d" "c XOR x = c XOR y \<longleftrightarrow> x = y"
    by (auto simp: bit_eq_iff bit_xor_iff)
  show "crc8_step c x = crc8_step d x \<longleftrightarrow> c = d" "crc8_step c x = crc8_step c y \<longleftrightarrow> x = y"
    unfolding crc8_step_def using inj_eq [OF i] x by simp_all
qed

lemma crc8_fold_inject: "foldl crc8_step c xs = foldl crc8_step d xs \<longleftrightarrow> c = d"
  by (induction xs arbitrary: c d) (simp_all add: crc8_step_inject)

text \<open>Changing one octet, however it is changed, changes the CRC.\<close>

lemma crc8_octet_changed: "i < length data \<Longrightarrow> crc8 (data[i := x]) = crc8 data \<longleftrightarrow> x = data ! i"
proof -
  assume i: "i < length data"
  have "crc8 (data[i := x]) = foldl crc8_step (crc8_step (crc8 (take i data)) x) (drop (Suc i) data)"
    using i by (simp add: crc8_def upd_conv_take_nth_drop)
  moreover have "crc8 data = foldl crc8_step (crc8_step (crc8 (take i data)) (data ! i)) (drop (Suc i) data)"
    using id_take_nth_drop [OF i] by (metis crc8_def foldl_Cons foldl_append)
  ultimately show ?thesis by (simp add: crc8_fold_inject crc8_step_inject)
qed

section \<open>Bit frames\<close>

definition bitframe_encoded_len :: "nat \<Rightarrow> bool \<Rightarrow> nat" where
  "bitframe_encoded_len data_len append_crc = (data_len + (if append_crc then 1 else 0)) * 2"

definition symbols_of :: "u8 \<Rightarrow> octets" where
  "symbols_of octet = [symbol_encode (drop_bit 4 octet), symbol_encode (octet AND 0x0F)]"

definition encode_bitframe :: "octets \<Rightarrow> bool \<Rightarrow> octets" where
  "encode_bitframe data append_crc =
     (let content = data @ (if append_crc then [crc8 data] else [])
      in concat (List.map symbols_of content))"

text \<open>The loop over the pairs of symbols; \<open>None\<close> when one does not decode.\<close>

fun decode_symbols :: "octets \<Rightarrow> octets option" where
  "decode_symbols (a # b # symbols) =
     (case symbol_decode a of
        None \<Rightarrow> None
      | Some hi \<Rightarrow>
          (case symbol_decode b of
             None \<Rightarrow> None
           | Some lo \<Rightarrow> map_option ((#) (push_bit 4 hi OR lo)) (decode_symbols symbols)))"
| "decode_symbols symbols = Some []"

definition decode_bitframe :: "octets \<Rightarrow> bool \<Rightarrow> iseled_errc + octets" where
  "decode_bitframe symbols expect_crc =
     (if odd (length symbols) then Inl Odd_symbol_count
      else if expect_crc \<and> length symbols div 2 = 0 then Inl Short_frame
      else
        (case decode_symbols symbols of
           None \<Rightarrow> Inl Bad_symbol
         | Some bytes \<Rightarrow>
             if expect_crc
             then
               (let data_len = length symbols div 2 - 1 in
                if bytes ! data_len \<noteq> crc8 (take data_len bytes) then Inl Crc_mismatch
                else Inr (take data_len bytes))
             else Inr bytes))"

lemma length_frame [simp]: "length (concat (List.map symbols_of xs)) = 2 * length xs"
  by (induction xs) (simp_all add: symbols_of_def)

lemma octet_symbols:
  "(\<exists>hi lo. symbol_decode a = Some hi \<and> symbol_decode b = Some lo \<and> x = push_bit 4 hi OR lo) \<longleftrightarrow>
     [a AND 0x1F, b AND 0x1F] = symbols_of x"
proof
  assume "[a AND 0x1F, b AND 0x1F] = symbols_of x"
  then show "\<exists>hi lo. symbol_decode a = Some hi \<and> symbol_decode b = Some lo \<and> x = push_bit 4 hi OR lo"
    by (intro exI [of _ "drop_bit 4 x"] exI [of _ "x AND 0x0F"])
      (simp add: symbols_of_def symbol_decode_iff, simp add: bits)
next
  assume "\<exists>hi lo. symbol_decode a = Some hi \<and> symbol_decode b = Some lo \<and> x = push_bit 4 hi OR lo"
  then obtain hi lo where h: "a AND 0x1F = symbol_encode hi" "hi AND 0x0F = hi"
    "b AND 0x1F = symbol_encode lo" "lo AND 0x0F = lo" "x = push_bit 4 hi OR lo"
    by (auto simp: symbol_decode_iff)
  have "drop_bit 4 x = hi" "x AND 0x0F = lo"
    using h(2,4) unfolding h(5) by (simp_all add: bits)
  then show "[a AND 0x1F, b AND 0x1F] = symbols_of x" using h by (simp add: symbols_of_def)
qed

lemma decode_symbols_iff:
  "even (length symbols) \<Longrightarrow>
     decode_symbols symbols = Some bytes \<longleftrightarrow> List.map (\<lambda>s. s AND 0x1F) symbols = concat (List.map symbols_of bytes)"
proof (induction symbols arbitrary: bytes rule: induct_list012)
  case (3 a b symbols)
  have "decode_symbols (a # b # symbols) = Some bytes \<longleftrightarrow>
      (\<exists>x xs. bytes = x # xs \<and> decode_symbols symbols = Some xs \<and>
        (\<exists>hi lo. symbol_decode a = Some hi \<and> symbol_decode b = Some lo \<and> x = push_bit 4 hi OR lo))"
    by (auto split: option.splits)
  also have "\<dots> \<longleftrightarrow> (\<exists>x xs. bytes = x # xs \<and>
      List.map (\<lambda>s. s AND 0x1F) symbols = concat (List.map symbols_of xs) \<and> [a AND 0x1F, b AND 0x1F] = symbols_of x)"
    using "3.prems" by (simp only: octet_symbols "3.IH"(1) length_Cons even_Suc not_not)
  also have "\<dots> \<longleftrightarrow> List.map (\<lambda>s. s AND 0x1F) (a # b # symbols) = concat (List.map symbols_of bytes)"
    by (cases bytes) (auto simp: symbols_of_def)
  finally show ?case .
qed (auto simp: symbols_of_def)

lemma frame_length: "List.map f symbols = concat (List.map symbols_of xs) \<Longrightarrow> length symbols = 2 * length xs"
  by (drule arg_cong [where f = length]) simp

text \<open>
  Exactly the encodings are accepted, whatever the three unused bits of each symbol are.
\<close>

lemma decode_bitframe_iff:
  "decode_bitframe symbols crc = Inr data \<longleftrightarrow> List.map (\<lambda>s. s AND 0x1F) symbols = encode_bitframe data crc"
proof (cases "odd (length symbols)")
  case True
  have "List.map (\<lambda>s. s AND 0x1F) symbols \<noteq> encode_bitframe data crc"
    using True unfolding encode_bitframe_def Let_def by (metis dvd_triv_left frame_length)
  then show ?thesis using True by (simp add: decode_bitframe_def)
next
  case False
  then have iff: "decode_symbols symbols = Some bytes \<longleftrightarrow>
      List.map (\<lambda>s. s AND 0x1F) symbols = concat (List.map symbols_of bytes)" for bytes
    by (simp add: decode_symbols_iff)
  have len: "length bytes = length symbols div 2" if "decode_symbols symbols = Some bytes" for bytes
    using that unfolding iff by (auto dest: frame_length)
  have "decode_bitframe symbols crc = Inr data \<longleftrightarrow>
      decode_symbols symbols = Some (data @ (if crc then [crc8 data] else []))"
  proof (cases crc)
    case True
    have "decode_bitframe symbols crc = Inr data \<longleftrightarrow> length symbols div 2 \<noteq> 0 \<and>
        (\<exists>bytes. decode_symbols symbols = Some bytes \<and> bytes ! (length bytes - 1) = crc8 (take (length bytes - 1) bytes) \<and>
          data = take (length bytes - 1) bytes)"
      using False True len by (auto simp: decode_bitframe_def Let_def split: option.splits)
    also have "\<dots> \<longleftrightarrow> decode_symbols symbols = Some (data @ [crc8 data])"
    proof
      assume "length symbols div 2 \<noteq> 0 \<and>
        (\<exists>bytes. decode_symbols symbols = Some bytes \<and> bytes ! (length bytes - 1) = crc8 (take (length bytes - 1) bytes) \<and>
          data = take (length bytes - 1) bytes)"
      then obtain bytes where b: "decode_symbols symbols = Some bytes" "bytes \<noteq> []"
        "bytes ! (length bytes - 1) = crc8 data" "data = take (length bytes - 1) bytes"
        using len by fastforce
      then have "bytes = data @ [crc8 data]"
        by (metis append_butlast_last_id butlast_conv_take last_conv_nth)
      then show "decode_symbols symbols = Some (data @ [crc8 data])" using b(1) by simp
    qed (use len in fastforce)
    finally show ?thesis using True by simp
  qed (use False in \<open>simp add: decode_bitframe_def split: option.splits\<close>)
  then show ?thesis unfolding iff by (simp add: encode_bitframe_def Let_def)
qed

lemma length_symbols [simp]: "length (symbols_of x) = 2"
  by (simp add: symbols_of_def)

lemma frame_nth:
  "j < length xs \<Longrightarrow> concat (List.map symbols_of xs) ! (2 * j) = symbol_encode (drop_bit 4 (xs ! j))"
  "j < length xs \<Longrightarrow> concat (List.map symbols_of xs) ! Suc (2 * j) = symbol_encode (xs ! j AND 0x0F)"
  by (induction xs arbitrary: j) (auto simp: symbols_of_def less_Suc_eq_0_disj)

lemma symbols_masked [simp]: "symbol_encode n AND 0x1F = symbol_encode n"
  unfolding symbol_encode_bits by (simp add: bits)

lemma frame_masked [simp]:
  "List.map (\<lambda>s. s AND 0x1F) (concat (List.map symbols_of xs)) = concat (List.map symbols_of xs)"
  by (induction xs) (simp_all add: symbols_of_def)

lemma symbols_of_inject:
  "symbol_encode (drop_bit 4 x) = symbol_encode (drop_bit 4 y) \<Longrightarrow>
   symbol_encode (x AND 0x0F) = symbol_encode (y AND 0x0F) \<Longrightarrow> x = y"
  by (drule symbol_encode_inject, drule symbol_encode_inject) (simp add: bits)

text \<open>Two frames that differ at most in the symbols of octet \<open>i\<close> have the same octets but that one.\<close>

lemma frame_differs_once:
  assumes "concat (List.map symbols_of ys) = (concat (List.map symbols_of xs))[2 * i := a, Suc (2 * i) := b]"
    and "i < length xs"
  shows "ys = xs[i := ys ! i]" "[a, b] = symbols_of (ys ! i)"
proof -
  have len: "length ys = length xs" using arg_cong [OF assms(1), of length] by simp
  have "ys ! j = xs ! j" if "j < length xs" "j \<noteq> i" for j
  proof -
    have other: "2 * j \<noteq> 2 * i" "2 * j \<noteq> Suc (2 * i)" "Suc (2 * j) \<noteq> 2 * i" "Suc (2 * j) \<noteq> Suc (2 * i)"
      using that(2) by presburger+
    have "concat (List.map symbols_of ys) ! n = concat (List.map symbols_of xs) ! n"
      if "n \<noteq> 2 * i" "n \<noteq> Suc (2 * i)" for n
      using that unfolding assms(1) by simp
    from this [OF other(1,2)] this [OF other(3,4)] show ?thesis
      using that(1) len by - (rule symbols_of_inject, simp_all add: frame_nth)
  qed
  then have "ys ! j = xs[i := ys ! i] ! j" if "j < length xs" for j
    using that by (cases "j = i") (simp_all add: nth_list_update)
  then show "ys = xs[i := ys ! i]" using len by (intro nth_equalityI) simp_all
  show "[a, b] = symbols_of (ys ! i)"
    using arg_cong [OF assms(1), of "\<lambda>l. l ! (2 * i)"] arg_cong [OF assms(1), of "\<lambda>l. l ! Suc (2 * i)"] assms(2) len
    by (simp add: frame_nth symbols_of_def)
qed

lemma octet_error_detected:
  assumes "i \<le> length data" "frame = encode_bitframe data True"
    and "decode_bitframe (frame[2 * i := a, Suc (2 * i) := b]) True = Inr d"
  shows "[a AND 0x1F, b AND 0x1F] = [frame ! (2 * i), frame ! Suc (2 * i)]"
proof -
  let ?xs = "data @ [crc8 data]" and ?ys = "d @ [crc8 d]"
  have f: "frame = concat (List.map symbols_of ?xs)" "i < length ?xs"
    using assms by (simp_all add: encode_bitframe_def)
  have "concat (List.map symbols_of ?ys) =
      (concat (List.map symbols_of ?xs))[2 * i := a AND 0x1F, Suc (2 * i) := b AND 0x1F]"
    using assms(3) unfolding decode_bitframe_iff f(1)
    by (simp only: map_update frame_masked encode_bitframe_def Let_def if_True)
  note d = frame_differs_once [OF this f(2)]
  have len: "length d = length data" using arg_cong [OF d(1), of length] by simp
  have "?ys = ?xs"
  proof (cases "i = length data")
    case True
    then show ?thesis using d(1) len by (simp add: list_update_append)
  next
    case False
    then have i: "i < length data" using assms(1) by simp
    then have "d = data[i := d ! i]" "crc8 d = crc8 data"
      using d(1) len by (auto simp: list_update_append nth_append)
    then have "d ! i = data ! i" using crc8_octet_changed [OF i, of "d ! i"] by metis
    then show ?thesis using \<open>d = data[i := d ! i]\<close> by simp
  qed
  then show ?thesis using d(2) f by (simp add: frame_nth symbols_of_def del: map_append concat_append)
qed

text \<open>
  C33. Bit frames are decoded exactly: the decoder accepts the encodings and nothing else, up to the
  three unused bits of each symbol, and gives back the data. With the CRC, a frame in which the
  symbols of one octet were replaced by any others is rejected.
\<close>

theorem bitframe_exact:
  "decode_bitframe (encode_bitframe data crc) crc = Inr data \<and>
   length (encode_bitframe data crc) = bitframe_encoded_len (length data) crc \<and>
   (decode_bitframe symbols crc = Inr data \<longleftrightarrow> List.map (\<lambda>s. s AND 0x1F) symbols = encode_bitframe data crc) \<and>
   (let frame = encode_bitframe data True in
     isl (decode_bitframe (frame[2 * i := a, 2 * i + 1 := b]) True) \<longleftrightarrow>
       i \<le> length data \<and> [a AND 0x1F, b AND 0x1F] \<noteq> [frame ! (2 * i), frame ! (2 * i + 1)])"
proof -
  let ?frame = "encode_bitframe data True" and ?xs = "data @ [crc8 data]"
  let ?f = "?frame[2 * i := a, Suc (2 * i) := b]"
  have f: "?frame = concat (List.map symbols_of ?xs)" by (simp add: encode_bitframe_def)
  have masked: "List.map (\<lambda>s. s AND 0x1F) ?frame = ?frame" unfolding f by (rule frame_masked)
  have "\<not> isl (decode_bitframe ?f True)"
    if "\<not> (i \<le> length data \<and> [a AND 0x1F, b AND 0x1F] \<noteq> [?frame ! (2 * i), ?frame ! Suc (2 * i)])"
  proof -
    have "length ?frame = 2 * length data + 2" unfolding f by simp
    then have "List.map (\<lambda>s. s AND 0x1F) ?f = ?frame"
      using that masked by (cases "i \<le> length data") (simp_all add: map_update list_update_beyond)
    then show ?thesis by (simp flip: decode_bitframe_iff)
  qed
  moreover have "isl (decode_bitframe ?f True)"
    if "i \<le> length data" "[a AND 0x1F, b AND 0x1F] \<noteq> [?frame ! (2 * i), ?frame ! Suc (2 * i)]"
    using octet_error_detected [OF that(1) refl, of a b] that(2)
    by (cases "decode_bitframe ?f True") auto
  moreover have "length (encode_bitframe data crc) = bitframe_encoded_len (length data) crc"
    unfolding encode_bitframe_def Let_def by (simp only: length_frame) (simp add: bitframe_encoded_len_def)
  moreover have "List.map (\<lambda>s. s AND 0x1F) (encode_bitframe data crc) = encode_bitframe data crc"
    unfolding encode_bitframe_def Let_def by (rule frame_masked)
  ultimately show ?thesis by (simp add: decode_bitframe_iff Let_def) blast
qed

section \<open>Functional configuration\<close>

definition requires_isp_n :: "bool \<Rightarrow> bool" where
  "requires_isp_n use_rcv_clk = use_rcv_clk"

datatype iseled_trigger = TriggerNone | TxComplete

fun iseled_trigger_value :: "iseled_trigger \<Rightarrow> u8" where
  "iseled_trigger_value TriggerNone = 0"
| "iseled_trigger_value TxComplete = 1"

definition trigger_fires :: "iseled_trigger \<Rightarrow> bool \<Rightarrow> bool" where
  "trigger_fires trigger tx_complete_event \<longleftrightarrow> trigger = TxComplete \<and> tx_complete_event"

record iseled_functional_cfg = ep_flags +
  is_bit_clk_divider :: u32
  is_use_rcv_clk :: bool
  is_crc_enable :: bool
  is_trigger :: u8
  is_base_clk :: u16
  is_ep_status :: u16
  is_wire_clk_divider :: u8
  is_collect_resp :: bool
  is_nr_leds :: u16
  is_rcv_timeout :: u16

definition iseled_functional_cfg_init :: iseled_functional_cfg where
  "iseled_functional_cfg_init =
     \<lparr>ep_enable = False, ep_clear_req_storage = False, ep_req_crc_enable = False,
      ep_response_ts_enable = False, ep_suppress_response = False,
      is_bit_clk_divider = 0, is_use_rcv_clk = False, is_crc_enable = False,
      is_trigger = iseled_trigger_value TriggerNone, is_base_clk = 0, is_ep_status = 0,
      is_wire_clk_divider = 0, is_collect_resp = False, is_nr_leds = 0, is_rcv_timeout = 0\<rparr>"

definition iseled_functional_cfg_writable :: "server_state \<Rightarrow> writer_ctx \<Rightarrow> bool" where
  "iseled_functional_cfg_writable state writer \<longleftrightarrow> field_writable state Functional_w writer"

definition set_bit_clk_divider ::
    "u32 \<Rightarrow> server_state \<Rightarrow> writer_ctx \<Rightarrow> iseled_functional_cfg \<Rightarrow> bool \<times> iseled_functional_cfg" where
  "set_bit_clk_divider divider state writer cfg =
     guarded_write (iseled_functional_cfg_writable state writer) (\<lambda>c. c\<lparr>is_bit_clk_divider := divider\<rparr>) cfg"

definition set_use_rcv_clk ::
    "bool \<Rightarrow> server_state \<Rightarrow> writer_ctx \<Rightarrow> iseled_functional_cfg \<Rightarrow> bool \<times> iseled_functional_cfg" where
  "set_use_rcv_clk use_rcv_clk state writer cfg =
     guarded_write (iseled_functional_cfg_writable state writer) (\<lambda>c. c\<lparr>is_use_rcv_clk := use_rcv_clk\<rparr>) cfg"

definition set_crc_enable ::
    "bool \<Rightarrow> server_state \<Rightarrow> writer_ctx \<Rightarrow> iseled_functional_cfg \<Rightarrow> bool \<times> iseled_functional_cfg" where
  "set_crc_enable enable state writer cfg =
     guarded_write (iseled_functional_cfg_writable state writer) (\<lambda>c. c\<lparr>is_crc_enable := enable\<rparr>) cfg"

definition set_trigger ::
    "iseled_trigger \<Rightarrow> server_state \<Rightarrow> writer_ctx \<Rightarrow> iseled_functional_cfg \<Rightarrow> bool \<times> iseled_functional_cfg" where
  "set_trigger trigger state writer cfg =
     guarded_write (iseled_functional_cfg_writable state writer)
       (\<lambda>c. c\<lparr>is_trigger := iseled_trigger_value trigger\<rparr>) cfg"

definition kFlagCollectResp :: u8 where [wire_defs]: "kFlagCollectResp = 0x08"
definition kFlagUseRcvClk :: u8 where [wire_defs]: "kFlagUseRcvClk = 0x10"

definition kIseledEpFuncLen :: nat where "kIseledEpFuncLen = 0x000E"

definition clock_flags :: "bool \<Rightarrow> bool \<Rightarrow> u8" where
  "clock_flags collect_resp use_rcv_clk =
     (if collect_resp then kFlagCollectResp else 0) OR (if use_rcv_clk then kFlagUseRcvClk else 0)"

definition render_registers :: "iseled_functional_cfg \<Rightarrow> octets" where
  "render_registers cfg =
     [of_nat kIseledEpFuncLen, 0] @ render_flags cfg @ put_u16 (is_base_clk cfg) @ put_u16 (is_ep_status cfg) @
     [is_wire_clk_divider cfg, clock_flags (is_collect_resp cfg) (is_use_rcv_clk cfg)] @
     put_u16 (is_nr_leds cfg) @ put_u16 (is_rcv_timeout cfg)"

definition parse_registers :: "octets \<Rightarrow> iseled_functional_cfg \<Rightarrow> iseled_functional_cfg" where
  "parse_registers b cfg = parse_flags (b ! 2) (b ! 3)
     (cfg\<lparr>is_collect_resp := (b ! 9 AND kFlagCollectResp \<noteq> 0), is_use_rcv_clk := (b ! 9 AND kFlagUseRcvClk \<noteq> 0),
      is_ep_status := get_u16 (drop 6 b), is_wire_clk_divider := b ! 8,
      is_nr_leds := get_u16 (drop 10 b), is_rcv_timeout := get_u16 (drop 12 b)\<rparr>)"

definition reg_offset_read_only :: "nat \<Rightarrow> bool" where
  "reg_offset_read_only addr \<longleftrightarrow> addr = 0 \<or> addr = 1 \<or> addr = 4 \<or> addr = 5"

datatype iseled_reconfig_errc = Short_payload | Out_of_range

definition apply_reconfig ::
    "octets \<Rightarrow> iseled_functional_cfg \<Rightarrow> iseled_reconfig_errc option \<times> iseled_functional_cfg" where
  "apply_reconfig payload cfg =
     block_reconfig Short_payload Out_of_range kIseledEpFuncLen reg_offset_read_only render_registers
       parse_registers payload cfg"

definition encode_reconfig_request :: "u16 \<Rightarrow> u16 \<Rightarrow> octets \<Rightarrow> u8 \<Rightarrow> octets" where
  "encode_reconfig_request byte_bus_id start_address data transaction_num =
     encode_config_write byte_bus_id start_address data transaction_num"

definition kept_clock :: "nat \<Rightarrow> u8 \<Rightarrow> u8" where
  "kept_clock a x = (if a = 9 then x AND 0x18 else kept_flags a x)"

lemma clock_octet [simp]:
  "clock_flags (x AND kFlagCollectResp \<noteq> 0) (x AND kFlagUseRcvClk \<noteq> 0) = x AND 0x18"
  "clock_flags c r AND 0x18 = clock_flags c r"
  "clock_flags c r AND kFlagCollectResp \<noteq> 0 \<longleftrightarrow> c" "clock_flags c r AND kFlagUseRcvClk \<noteq> 0 \<longleftrightarrow> r"
  by (auto simp: clock_flags_def wire_defs bits)

interpretation iseled_block: register_block kIseledEpFuncLen reg_offset_read_only kept_clock render_registers
    parse_registers "\<lambda>_. True" "\<lambda>_. True"
  by unfold_locales
    (simp_all add: kIseledEpFuncLen_def render_registers_def parse_registers_def reg_offset_read_only_def
      kept_clock_def kept_flags_def flag_defs register_addresses put_u16_def)

section \<open>Messages\<close>

definition encode_command_request :: "u16 \<Rightarrow> octets \<Rightarrow> u8 \<Rightarrow> octets" where
  "encode_command_request byte_bus_id tx_data transaction_num =
     encode_acf_abb (acf_default\<lparr>a_byte_bus_id := byte_bus_id, a_op := True, a_evt_op := 0,
       a_transaction_num := transaction_num\<rparr>) tx_data"

definition decode_command_request :: "u16 \<Rightarrow> octets \<Rightarrow> iseled_errc + (octets \<times> u8)" where
  "decode_command_request expected_bus_id b =
     (case open_abb Short_frame Bad_msg_type Wrong_bus expected_bus_id b of
        Inl ec \<Rightarrow> Inl ec
      | Inr (hdr, payload) \<Rightarrow>
          if \<not> a_op hdr then Inl Wrong_op
          else if \<not> evt_row2_is_plain (a_evt_op hdr) then Inl Bad_evt
          else Inr (payload, a_transaction_num hdr))"

definition kMaxReadSize :: u16 where "kMaxReadSize = 0x0FFF"

definition encode_read_request :: "u16 \<Rightarrow> octets \<Rightarrow> u16 \<Rightarrow> u8 \<Rightarrow> octets" where
  "encode_read_request byte_bus_id tx_data read_size transaction_num =
     (if kMaxReadSize < read_size then []
      else if kAcfAbbMaxPayload < length tx_data then []
      else encode_acf_abb (acf_default\<lparr>a_byte_bus_id := byte_bus_id, a_op := False, a_evt_op := 0,
             a_transaction_num := transaction_num, a_read_size := read_size\<rparr>) tx_data)"

definition decode_read_request :: "u16 \<Rightarrow> octets \<Rightarrow> iseled_errc + (octets \<times> u16 \<times> u8)" where
  "decode_read_request expected_bus_id b =
     (case open_abb Short_frame Bad_msg_type Wrong_bus expected_bus_id b of
        Inl ec \<Rightarrow> Inl ec
      | Inr (hdr, payload) \<Rightarrow>
          if a_op hdr then Inl Wrong_op
          else if \<not> evt_row2_is_plain (a_evt_op hdr) then Inl Bad_evt
          else Inr (payload, a_read_size hdr, a_transaction_num hdr))"

definition encode_response :: "u16 \<Rightarrow> octets \<Rightarrow> u8 \<Rightarrow> bool \<Rightarrow> u64 \<Rightarrow> octets" where
  "encode_response byte_bus_id rx_data transaction_num timed timestamp =
     encode_timed (acf_default\<lparr>a_byte_bus_id := byte_bus_id, a_op := False, a_rsp := True, a_evt_op := 0,
       a_transaction_num := transaction_num\<rparr>) rx_data timed timestamp"

definition decode_response :: "u16 \<Rightarrow> octets \<Rightarrow> iseled_errc + (octets \<times> bool \<times> u64 \<times> u8)" where
  "decode_response expected_bus_id b =
     (case open_response Short_frame Bad_msg_type Wrong_bus expected_bus_id b of
        Inl ec \<Rightarrow> Inl ec
      | Inr (hdr, payload, timed, timestamp) \<Rightarrow> Inr (payload, timed, timestamp, a_transaction_num hdr))"

definition response_fragment_count :: "nat \<Rightarrow> u16 \<Rightarrow> nat \<Rightarrow> nat" where
  "response_fragment_count available_len read_size max_fragment_payload =
     plan_count (min available_len (unat read_size)) max_fragment_payload"

definition encode_response_fragmented ::
    "u16 \<Rightarrow> octets \<Rightarrow> u16 \<Rightarrow> u8 \<Rightarrow> bool \<Rightarrow> u64 \<Rightarrow> nat \<Rightarrow> octets list" where
  "encode_response_fragmented byte_bus_id rx_data read_size transaction_num timed timestamp max_fragment_payload =
     fragment_frames (acf_default\<lparr>a_byte_bus_id := byte_bus_id, a_op := False, a_rsp := True, a_evt_op := 0,
       a_transaction_num := transaction_num\<rparr>) (take (min (length rx_data) (unat read_size)) rx_data)
       timed timestamp max_fragment_payload"

interpretation iseled_command: message_codec "\<lambda>(tx, txn). encode_command_request bus tx txn"
    "decode_command_request bus" "\<lambda>(tx, txn). bus < 0x800" for bus
  by unfold_locales (auto simp: encode_command_request_def decode_command_request_def)

interpretation iseled_read_request: message_codec
    "\<lambda>(tx, read_size, txn). encode_read_request bus tx read_size txn" "decode_read_request bus"
    "\<lambda>(tx, read_size, txn). bus < 0x800 \<and> read_size \<le> 0xFFF \<and> length tx \<le> kAcfAbbMaxPayload" for bus
  by unfold_locales
    (auto simp: encode_read_request_def decode_read_request_def kMaxReadSize_def split: if_splits dest: leD)

interpretation iseled_response: message_codec
    "\<lambda>(rx, timed, ts, txn). encode_response bus rx txn timed ts" "decode_response bus"
    "\<lambda>(rx, timed, ts, txn). bus < 0x800 \<and> (timed \<or> ts = 0)" for bus
  by unfold_locales (auto simp: encode_response_def decode_response_def)

section \<open>The endpoint\<close>

datatype iseled_signal = TransferComplete

fun iseled_signal_id :: "iseled_signal \<Rightarrow> u16" where
  "iseled_signal_id TransferComplete = 0"

record iseled_endpoint =
  ie_triggers :: trigger_registry
  ie_last_sent :: octets
  ie_last_received :: octets

definition send :: "octets \<Rightarrow> iseled_endpoint \<Rightarrow> iseled_endpoint" where
  "send tx_data ep = ep\<lparr>ie_last_sent := tx_data,
     ie_triggers := notify (iseled_signal_id TransferComplete) (ie_triggers ep)\<rparr>"

definition receive :: "octets \<Rightarrow> iseled_endpoint \<Rightarrow> iseled_endpoint" where
  "receive rx_data ep = ep\<lparr>ie_last_received := rx_data\<rparr>"

definition handle_request ::
    "u8 \<Rightarrow> octets \<Rightarrow> iseled_endpoint \<Rightarrow> iseled_errc request_error option \<times> iseled_endpoint" where
  "handle_request evt_op tx_data ep =
     handle_row2 evt_op Config_write_not_supported (\<lambda>ep. (None, send tx_data ep)) ep"

end
