(* ===== verification/Can.thy ===== *)
theory Can
  imports Ep_Fragments
begin

text \<open>
  The CAN endpoint type, \<open>include/rcp/can.hpp\<close>: frame formats with their identifiers and lengths,
  functional configuration and register block, frame requests and responses, whole and fragmented,
  and the endpoint with its acceptance filters.
\<close>

section \<open>Frame formats\<close>

datatype frame_format = Cbff | Ceff | Fbff | Feff | XlClassicalPl | XlNewPl

fun frame_format_value :: "frame_format \<Rightarrow> u8" where
  "frame_format_value Cbff = 0"
| "frame_format_value Ceff = 1"
| "frame_format_value Fbff = 2"
| "frame_format_value Feff = 3"
| "frame_format_value XlClassicalPl = 4"
| "frame_format_value XlNewPl = 5"

datatype id_width = Base11 | Extended29

definition kClassicalMaxDataLen :: nat where "kClassicalMaxDataLen = 8"
definition kFdMaxDataLen :: nat where "kFdMaxDataLen = 64"
definition kXlMaxDataLen :: nat where "kXlMaxDataLen = 2048"

definition frame_format_valid :: "u8 \<Rightarrow> bool" where
  "frame_format_valid v \<longleftrightarrow> v \<le> frame_format_value XlNewPl"

text \<open>The cast of a valid value to the enumeration.\<close>

definition frame_format_of :: "u8 \<Rightarrow> frame_format" where
  "frame_format_of v = [Cbff, Ceff, Fbff, Feff, XlClassicalPl, XlNewPl] ! unat v"

definition frame_format_is_xl :: "frame_format \<Rightarrow> bool" where
  "frame_format_is_xl format \<longleftrightarrow> format = XlClassicalPl \<or> format = XlNewPl"

fun frame_format_id_width :: "frame_format \<Rightarrow> id_width" where
  "frame_format_id_width Ceff = Extended29"
| "frame_format_id_width Feff = Extended29"
| "frame_format_id_width _ = Base11"

definition arbitration_id_valid :: "frame_format \<Rightarrow> u32 \<Rightarrow> bool" where
  "arbitration_id_valid format ident =
     (if \<not> frame_format_valid (frame_format_value format) then False
      else if frame_format_id_width format = Extended29 then ident \<le> 0x1FFFFFFF else ident \<le> 0x7FF)"

fun frame_format_max_data_len :: "frame_format \<Rightarrow> nat" where
  "frame_format_max_data_len Cbff = kClassicalMaxDataLen"
| "frame_format_max_data_len Ceff = kClassicalMaxDataLen"
| "frame_format_max_data_len Fbff = kFdMaxDataLen"
| "frame_format_max_data_len Feff = kFdMaxDataLen"
| "frame_format_max_data_len XlClassicalPl = kXlMaxDataLen"
| "frame_format_max_data_len XlNewPl = kXlMaxDataLen"

definition xl_frame_matches_provisioned_pl :: "bool \<Rightarrow> frame_format \<Rightarrow> bool" where
  "xl_frame_matches_provisioned_pl xl_new_pl_provisioned format =
     (if \<not> frame_format_is_xl format then True
      else if xl_new_pl_provisioned then format = XlNewPl else format = XlClassicalPl)"

record xl_header =
  xl_sdt :: u8
  xl_vcid :: u8
  xl_af :: u32

definition kArbitrationPrefixLen :: nat where "kArbitrationPrefixLen = 4"
definition kXlHeaderLen :: nat where "kXlHeaderLen = 6"
definition kMaxXlPayloadSingleFrame :: nat where
  "kMaxXlPayloadSingleFrame = kAcfAbbMaxPayload - kArbitrationPrefixLen - kXlHeaderLen"
definition kMaxFragmentSegments :: nat where "kMaxFragmentSegments = 256"
definition kMaxXlFilters :: nat where "kMaxXlFilters = 4"

datatype can_errc =
    Identifier_out_of_range | Payload_exceeds_format_limit | Xl_payload_exceeds_single_avtpdu_bound
  | Config_write_not_supported | Bad_frame_format | Short_frame | Bad_msg_type | Wrong_bus | Wrong_op
  | Bad_evt | Bad_arbitration_id

definition validate_identifier :: "frame_format \<Rightarrow> u32 \<Rightarrow> can_errc option" where
  "validate_identifier format arbitration_id =
     (if \<not> arbitration_id_valid format arbitration_id then Some Identifier_out_of_range else None)"

record can_data_frame =
  cf_format :: frame_format
  cf_arbitration_id :: u32
  cf_xl_header :: xl_header
  cf_data :: octets

definition validate_frame :: "can_data_frame \<Rightarrow> can_errc option" where
  "validate_frame f =
     (case validate_identifier (cf_format f) (cf_arbitration_id f) of
        Some ec \<Rightarrow> Some ec
      | None \<Rightarrow>
          if frame_format_max_data_len (cf_format f) < length (cf_data f) then Some Payload_exceeds_format_limit
          else if frame_format_is_xl (cf_format f) \<and> kMaxXlPayloadSingleFrame < length (cf_data f)
          then Some Xl_payload_exceeds_single_avtpdu_bound
          else None)"

section \<open>Functional configuration\<close>

record can_bit_timing_phase =
  bt_prescaler :: u32
  bt_prop_seg :: u16
  bt_phase_seg1 :: u16
  bt_phase_seg2 :: u16
  bt_sync_jump_width :: u8

record can_bit_timing_config =
  tc_arbitration :: can_bit_timing_phase
  tc_fd_data :: can_bit_timing_phase
  tc_xl_data :: can_bit_timing_phase

record can_xl_filter =
  xf_id :: u32
  xf_mask :: u32
  xf_enable :: bool

record can_functional_config = ep_flags +
  ca_timing :: can_bit_timing_config
  ca_delay_comp_enable :: bool
  ca_delay_comp_offset :: u8
  ca_exec_delay_clk_divider :: u32
  ca_xl_filters :: "can_xl_filter list"
  ca_ep_status :: u16
  ca_status :: u32
  ca_fifo_status :: u32
  ca_xl_new_pl_provisioned :: bool

definition xl_filter_index_valid :: "u8 \<Rightarrow> bool" where
  "xl_filter_index_valid index \<longleftrightarrow> unat index < kMaxXlFilters"

definition set_arbitration_timing ::
    "can_bit_timing_phase \<Rightarrow> server_state \<Rightarrow> writer_ctx \<Rightarrow> can_functional_config \<Rightarrow> bool \<times> can_functional_config" where
  "set_arbitration_timing timing state writer cfg =
     guarded_write (functional_cfg_writable state writer)
       (\<lambda>c. c\<lparr>ca_timing := (ca_timing c)\<lparr>tc_arbitration := timing\<rparr>\<rparr>) cfg"

definition set_fd_data_timing ::
    "can_bit_timing_phase \<Rightarrow> server_state \<Rightarrow> writer_ctx \<Rightarrow> can_functional_config \<Rightarrow> bool \<times> can_functional_config" where
  "set_fd_data_timing timing state writer cfg =
     guarded_write (functional_cfg_writable state writer)
       (\<lambda>c. c\<lparr>ca_timing := (ca_timing c)\<lparr>tc_fd_data := timing\<rparr>\<rparr>) cfg"

definition set_xl_data_timing ::
    "can_bit_timing_phase \<Rightarrow> server_state \<Rightarrow> writer_ctx \<Rightarrow> can_functional_config \<Rightarrow> bool \<times> can_functional_config" where
  "set_xl_data_timing timing state writer cfg =
     guarded_write (functional_cfg_writable state writer)
       (\<lambda>c. c\<lparr>ca_timing := (ca_timing c)\<lparr>tc_xl_data := timing\<rparr>\<rparr>) cfg"

definition set_delay_compensation ::
    "bool \<Rightarrow> u8 \<Rightarrow> server_state \<Rightarrow> writer_ctx \<Rightarrow> can_functional_config \<Rightarrow> bool \<times> can_functional_config" where
  "set_delay_compensation enable offset state writer cfg =
     guarded_write (functional_cfg_writable state writer)
       (\<lambda>c. c\<lparr>ca_delay_comp_enable := enable, ca_delay_comp_offset := offset\<rparr>) cfg"

definition set_xl_new_pl_provisioned ::
    "bool \<Rightarrow> server_state \<Rightarrow> writer_ctx \<Rightarrow> can_functional_config \<Rightarrow> bool \<times> can_functional_config" where
  "set_xl_new_pl_provisioned new_pl_provisioned state writer cfg =
     guarded_write (functional_cfg_writable state writer)
       (\<lambda>c. c\<lparr>ca_xl_new_pl_provisioned := new_pl_provisioned\<rparr>) cfg"

definition set_exec_delay_clk_divider ::
    "u32 \<Rightarrow> server_state \<Rightarrow> writer_ctx \<Rightarrow> can_functional_config \<Rightarrow> bool \<times> can_functional_config" where
  "set_exec_delay_clk_divider divider state writer cfg =
     guarded_write (functional_cfg_writable state writer) (\<lambda>c. c\<lparr>ca_exec_delay_clk_divider := divider\<rparr>) cfg"

definition set_xl_filter ::
    "u8 \<Rightarrow> can_xl_filter \<Rightarrow> server_state \<Rightarrow> writer_ctx \<Rightarrow> can_functional_config \<Rightarrow> bool \<times> can_functional_config" where
  "set_xl_filter index filt state writer cfg =
     guarded_write (xl_filter_index_valid index \<and> functional_cfg_writable state writer)
       (\<lambda>c. c\<lparr>ca_xl_filters := (ca_xl_filters c)[unat index := filt]\<rparr>) cfg"

record can_acceptance_filter =
  af_id :: u32
  af_mask :: u32
  af_extended :: bool

definition acceptance_filter_matches :: "can_acceptance_filter \<Rightarrow> frame_format \<Rightarrow> u32 \<Rightarrow> bool" where
  "acceptance_filter_matches filt format arbitration_id =
     (if af_extended filt \<noteq> (frame_format_id_width format = Extended29) then False
      else arbitration_id AND af_mask filt = af_id filt AND af_mask filt)"

section \<open>The register block\<close>

definition kRegUndecomposedStart :: nat where "kRegUndecomposedStart = 0x0008"
definition kRegUndecomposedLen :: nat where "kRegUndecomposedLen = 0x0014"
definition kCanEpFuncLen :: nat where "kCanEpFuncLen = 0x0024"

definition reg_offset_read_only :: "nat \<Rightarrow> bool" where
  "reg_offset_read_only addr \<longleftrightarrow> addr = 0 \<or> addr = 1 \<or> (4 \<le> addr \<and> addr < 6) \<or>
     (kRegUndecomposedStart \<le> addr \<and> addr < kRegUndecomposedStart + kRegUndecomposedLen)"

definition render_registers :: "can_functional_config \<Rightarrow> octets" where
  "render_registers cfg =
     [of_nat kCanEpFuncLen, 0] @ render_flags cfg @ put_u16 0 @ put_u16 (ca_ep_status cfg) @
     replicate kRegUndecomposedLen 0 @ put_u32 (ca_status cfg) @ put_u32 (ca_fifo_status cfg)"

definition parse_registers :: "octets \<Rightarrow> can_functional_config \<Rightarrow> can_functional_config" where
  "parse_registers b cfg = parse_flags (b ! 2) (b ! 3)
     (cfg\<lparr>ca_ep_status := get_u16 (drop 6 b), ca_status := get_u32 (drop 28 b),
      ca_fifo_status := get_u32 (drop 32 b)\<rparr>)"

datatype can_reconfig_errc = Short_payload | Out_of_range

definition apply_reconfig ::
    "octets \<Rightarrow> can_functional_config \<Rightarrow> can_reconfig_errc option \<times> can_functional_config" where
  "apply_reconfig payload cfg =
     block_reconfig Short_payload Out_of_range kCanEpFuncLen reg_offset_read_only render_registers
       parse_registers payload cfg"

lemma u32_octets [simp]:
  "ucast (drop_bit 24 (get_u32 p)) = p ! 0" "ucast (drop_bit 16 (get_u32 p)) = p ! Suc 0"
  "ucast (drop_bit 8 (get_u32 p)) = p ! 2" "ucast (get_u32 p) = p ! 3"
  by (simp_all add: get_u32_def bits)

lemma get_u32_octets [simp]:
  "get_u32 (ucast (drop_bit 24 v) # ucast (drop_bit 16 v) # ucast (drop_bit 8 v) # ucast v # r) = v"
  using get_put_u32 [of v r] by (simp add: put_u32_def del: get_put_u32)

lemma undecomposed_octets:
  "replicate 20 (0 :: u8) = [0, 0, 0, 0, 0, 0, 0, 0, 0, 0, 0, 0, 0, 0, 0, 0, 0, 0, 0, 0]"
  by (simp add: numeral_eq_Suc)

interpretation can_block: register_block kCanEpFuncLen reg_offset_read_only kept_flags render_registers
    parse_registers "\<lambda>_. True" "\<lambda>_. True"
  by unfold_locales
    (simp_all add: kCanEpFuncLen_def render_registers_def parse_registers_def reg_offset_read_only_def
      undecomposed_octets kRegUndecomposedStart_def kept_flags_def flag_defs register_addresses
      put_u16_def put_u32_def kRegUndecomposedLen_def)

section \<open>The payload of a frame\<close>

definition prefix_len_for :: "frame_format \<Rightarrow> nat" where
  "prefix_len_for format =
     (if frame_format_is_xl format then kArbitrationPrefixLen + kXlHeaderLen else kArbitrationPrefixLen)"

text \<open>
  What is written in front of the data: the format in three bits over the identifier, and for CAN
  XL the header. The buffer is zero where nothing is written.
\<close>

definition write_prefix :: "frame_format \<Rightarrow> u32 \<Rightarrow> xl_header option \<Rightarrow> octets" where
  "write_prefix format arbitration_id xl_header =
     put_u32 (push_bit 29 (ucast (frame_format_value format)) OR (arbitration_id AND 0x1FFFFFFF)) @
     (if frame_format_is_xl format
      then (case xl_header of
              Some h \<Rightarrow> [xl_sdt h, xl_vcid h] @ put_u32 (xl_af h)
            | None \<Rightarrow> replicate kXlHeaderLen 0)
      else [])"

definition read_frame_format :: "octets \<Rightarrow> u8" where
  "read_frame_format p = ucast (drop_bit 29 (get_u32 p) AND 0x7)"

text \<open>The header is an out-parameter that is left alone when the frame is not CAN XL.\<close>

definition read_prefix :: "octets \<Rightarrow> frame_format \<Rightarrow> u32 \<times> xl_header option" where
  "read_prefix p format =
     (get_u32 p AND 0x1FFFFFFF,
      if frame_format_is_xl format
      then Some \<lparr>xl_sdt = p ! 4, xl_vcid = p ! 5, xl_af = get_u32 (drop 6 p)\<rparr> else None)"

definition encode_preconditions_ok :: "frame_format \<Rightarrow> u32 \<Rightarrow> xl_header option \<Rightarrow> nat \<Rightarrow> bool" where
  "encode_preconditions_ok format arbitration_id xl_header data_len =
     (if \<not> frame_format_valid (frame_format_value format) then False
      else if \<not> arbitration_id_valid format arbitration_id then False
      else if frame_format_max_data_len format < data_len then False
      else frame_format_is_xl format = (xl_header \<noteq> None))"

definition build_payload :: "frame_format \<Rightarrow> u32 \<Rightarrow> xl_header option \<Rightarrow> octets \<Rightarrow> octets" where
  "build_payload format arbitration_id xl_header data = write_prefix format arbitration_id xl_header @ data"

text \<open>What every decoder does with the payload it has.\<close>

type_synonym can_content = "frame_format \<times> u32 \<times> xl_header option \<times> octets"

definition parse_payload :: "octets \<Rightarrow> can_errc + can_content" where
  "parse_payload payload =
     (if length payload < kArbitrationPrefixLen then Inl Short_frame
      else if \<not> frame_format_valid (read_frame_format payload) then Inl Bad_frame_format
      else
        (let format = frame_format_of (read_frame_format payload) in
         if length payload < prefix_len_for format then Inl Short_frame
         else
           (case read_prefix payload format of
              (arbitration_id, xl_header) \<Rightarrow>
                if \<not> arbitration_id_valid format arbitration_id then Inl Bad_arbitration_id
                else Inr (format, arbitration_id, xl_header, drop (prefix_len_for format) payload))))"

lemma format_value_bits: "frame_format_value f AND 0x7 = frame_format_value f" "unat (frame_format_value f) < 6"
  by (cases f; simp)+

lemma format_of_value [simp]: "frame_format_of (frame_format_value f) = f" "frame_format_valid (frame_format_value f)"
  by (cases f; simp add: frame_format_of_def frame_format_valid_def)+

lemma prefix_word:
  fixes v :: u32
  assumes "v \<le> 0x1FFFFFFF"
  shows "ucast (drop_bit 29 (push_bit 29 (ucast (frame_format_value f)) OR (v AND 0x1FFFFFFF)) AND 0x7) = frame_format_value f"
    and "(push_bit 29 (ucast (frame_format_value f)) OR (v AND 0x1FFFFFFF)) AND 0x1FFFFFFF = v"
proof -
  have m: "(0x1FFFFFFF :: u32) = mask 29" "(0x7 :: u32) = mask 3" by (simp_all add: mask_numeral)
  have "v < 2 ^ 29" by (rule order.strict_trans1 [OF assms]) simp
  then have v: "take_bit 29 v = v" unfolding take_bit_eq_mask by (rule less_mask_eq)
  have v': "bit v n \<Longrightarrow> n < 29" for n using v by (metis bit_take_bit_iff)
  show "(push_bit 29 (ucast (frame_format_value f)) OR (v AND 0x1FFFFFFF)) AND 0x1FFFFFFF = v"
    unfolding m by (rule bit_eqI) (use v' in \<open>auto simp: bit_simps\<close>)
  have f: "bit (frame_format_value f) n \<Longrightarrow> n < 3" for n
    by (cases f; cases n; cases "n - 1"; simp add: bit_simps)
  show "ucast (drop_bit 29 (push_bit 29 (ucast (frame_format_value f)) OR (v AND 0x1FFFFFFF)) AND 0x7) = frame_format_value f"
    unfolding m by (rule bit_eqI) (use v' f in \<open>auto simp: bit_simps dest: bit_imp_le_length\<close>)
qed

lemma length_prefix [simp]: "length (write_prefix format arbitration_id xl_header) = prefix_len_for format"
  by (simp add: write_prefix_def prefix_len_for_def kArbitrationPrefixLen_def kXlHeaderLen_def split: option.split)

lemma length_build_payload [simp]:
  "length (build_payload format arbitration_id xl_header data) = prefix_len_for format + length data"
  by (simp add: build_payload_def)

lemma valid_identifier: "arbitration_id_valid f v \<Longrightarrow> v \<le> 0x1FFFFFFF"
  by (auto simp: arbitration_id_valid_def elim: order_trans split: if_splits)

lemma parse_build_payload [simp]:
  assumes "encode_preconditions_ok format v xl_header n"
  shows "parse_payload (build_payload format v xl_header data) = Inr (format, v, xl_header, data)"
proof -
  have v: "arbitration_id_valid format v" "frame_format_is_xl format = (xl_header \<noteq> None)"
    using assms by (auto simp: encode_preconditions_ok_def split: if_splits)
  let ?p = "build_payload format v xl_header data"
  have p: "?p = put_u32 (push_bit 29 (ucast (frame_format_value format)) OR (v AND 0x1FFFFFFF)) @
      (case xl_header of Some h \<Rightarrow> [xl_sdt h, xl_vcid h] @ put_u32 (xl_af h) | None \<Rightarrow> []) @ data"
    using v(2) by (simp add: build_payload_def write_prefix_def split: option.split)
  have "read_frame_format ?p = frame_format_value format"
    unfolding p read_frame_format_def get_put_u32 by (rule prefix_word(1) [OF valid_identifier [OF v(1)]])
  moreover have "read_prefix ?p format = (v, xl_header)"
    unfolding p read_prefix_def get_put_u32 prefix_word(2) [OF valid_identifier [OF v(1)]]
    using v(2) by (auto simp: nth_append drop_append split: option.split)
  moreover have "drop (prefix_len_for format) ?p = data" by (simp add: build_payload_def)
  moreover have "kArbitrationPrefixLen \<le> prefix_len_for format" by (simp add: prefix_len_for_def)
  ultimately show ?thesis using v(1) by (simp add: parse_payload_def not_less)
qed

section \<open>Requests and responses\<close>

definition encode_frame_request ::
    "u16 \<Rightarrow> frame_format \<Rightarrow> u32 \<Rightarrow> xl_header option \<Rightarrow> octets \<Rightarrow> u8 \<Rightarrow> octets" where
  "encode_frame_request byte_bus_id format arbitration_id xl_header tx_data transaction_num =
     (if \<not> encode_preconditions_ok format arbitration_id xl_header (length tx_data) then []
      else encode_acf_abb (acf_default\<lparr>a_byte_bus_id := byte_bus_id, a_op := True,
             a_transaction_num := transaction_num\<rparr>)
             (build_payload format arbitration_id xl_header tx_data))"

definition decode_frame_request :: "u16 \<Rightarrow> octets \<Rightarrow> can_errc + (can_content \<times> u8)" where
  "decode_frame_request expected_bus_id b =
     (case open_abb Short_frame Bad_msg_type Wrong_bus expected_bus_id b of
        Inl ec \<Rightarrow> Inl ec
      | Inr (hdr, payload) \<Rightarrow>
          if \<not> a_op hdr then Inl Wrong_op
          else if \<not> evt_row2_is_plain (a_evt_op hdr) then Inl Bad_evt
          else
            (case parse_payload payload of
               Inl ec \<Rightarrow> Inl ec
             | Inr content \<Rightarrow> Inr (content, a_transaction_num hdr)))"

definition encode_frame_response ::
    "u16 \<Rightarrow> frame_format \<Rightarrow> u32 \<Rightarrow> xl_header option \<Rightarrow> octets \<Rightarrow> u8 \<Rightarrow> bool \<Rightarrow> u64 \<Rightarrow> octets" where
  "encode_frame_response byte_bus_id format arbitration_id xl_header rx_data transaction_num timed timestamp =
     (if \<not> encode_preconditions_ok format arbitration_id xl_header (length rx_data) then []
      else encode_timed (acf_default\<lparr>a_byte_bus_id := byte_bus_id, a_op := False, a_rsp := True,
             a_transaction_num := transaction_num\<rparr>)
             (build_payload format arbitration_id xl_header rx_data) timed timestamp)"

definition decode_frame_response :: "u16 \<Rightarrow> octets \<Rightarrow> can_errc + (can_content \<times> bool \<times> u64 \<times> u8)" where
  "decode_frame_response expected_bus_id b =
     (case open_response Short_frame Bad_msg_type Wrong_bus expected_bus_id b of
        Inl ec \<Rightarrow> Inl ec
      | Inr (hdr, payload, timed, timestamp) \<Rightarrow>
          if \<not> evt_row2_is_plain (a_evt_op hdr) then Inl Bad_evt
          else
            (case parse_payload payload of
               Inl ec \<Rightarrow> Inl ec
             | Inr content \<Rightarrow> Inr (content, timed, timestamp, a_transaction_num hdr)))"

lemma default_header [simp]:
  "a_evt_op acf_default = 0" "a_op acf_default = False" "a_mtv acf_default = False" "a_ms acf_default = False"
  by (simp_all add: acf_default_def)

interpretation can_request: message_codec
    "\<lambda>((format, v, xl, tx), txn). encode_frame_request bus format v xl tx txn" "decode_frame_request bus"
    "\<lambda>((format, v, xl, tx), txn). bus < 0x800 \<and> encode_preconditions_ok format v xl (length tx)" for bus
  by unfold_locales (auto simp: encode_frame_request_def decode_frame_request_def)

interpretation can_response: message_codec
    "\<lambda>((format, v, xl, rx), timed, ts, txn). encode_frame_response bus format v xl rx txn timed ts"
    "decode_frame_response bus"
    "\<lambda>((format, v, xl, rx), timed, ts, txn). bus < 0x800 \<and> encode_preconditions_ok format v xl (length rx) \<and>
       (timed \<or> ts = 0)" for bus
  by unfold_locales (auto simp: encode_frame_response_def decode_frame_response_def)

text \<open>
  A CAN XL frame of 2038 octets, which needs fragments, is also encoded whole; the header's length
  field, nine bits of quadlets, then says 2.
\<close>

lemma long_frame_wraps_length:
  "length data = 2038 \<Longrightarrow> v \<le> 0x7FF \<Longrightarrow> bus < 0x800 \<Longrightarrow>
     \<exists>info payload. open_abb Short_frame Bad_msg_type Wrong_bus bus
         (encode_frame_request bus XlNewPl v (Some h) data txn) = Inr (info, payload) \<and>
       length payload = 2048 \<and> a_msg_length info = 2"
  by (simp add: encode_frame_request_def encode_preconditions_ok_def arbitration_id_valid_def
      frame_format_is_xl_def frame_format_valid_def kXlMaxDataLen_def prefix_len_for_def
      kArbitrationPrefixLen_def kXlHeaderLen_def)
    (simp add: arriving_def mask_info_def abb_header_def fill_length_def acf_default_def
      compute_acf_msg_length_def kAcfMsgTypeAbb_def kAcfMsgTypeGbb_def kAcfCommonHeaderLen_def Let_def
      prefix_len_for_def kArbitrationPrefixLen_def kXlHeaderLen_def frame_format_is_xl_def)

section \<open>Fragmented requests and responses\<close>

definition frame_request_fragment_count :: "frame_format \<Rightarrow> u32 \<Rightarrow> xl_header option \<Rightarrow> nat \<Rightarrow> nat \<Rightarrow> nat" where
  "frame_request_fragment_count format arbitration_id xl_header tx_len max_fragment_payload =
     (if \<not> encode_preconditions_ok format arbitration_id xl_header tx_len then 0
      else
        (let count = plan_count (prefix_len_for format + tx_len) max_fragment_payload
         in if kMaxFragmentSegments < count then 0 else count))"

definition encode_frame_request_fragmented ::
    "u16 \<Rightarrow> frame_format \<Rightarrow> u32 \<Rightarrow> xl_header option \<Rightarrow> octets \<Rightarrow> u8 \<Rightarrow> nat \<Rightarrow> octets list" where
  "encode_frame_request_fragmented byte_bus_id format arbitration_id xl_header tx_data transaction_num
       max_fragment_payload =
     (if frame_request_fragment_count format arbitration_id xl_header (length tx_data) max_fragment_payload = 0
      then []
      else fragment_frames (acf_default\<lparr>a_byte_bus_id := byte_bus_id, a_op := True,
             a_transaction_num := transaction_num\<rparr>)
             (build_payload format arbitration_id xl_header tx_data) False 0 max_fragment_payload)"

definition frame_response_fragment_count :: "frame_format \<Rightarrow> u32 \<Rightarrow> xl_header option \<Rightarrow> nat \<Rightarrow> nat \<Rightarrow> nat" where
  "frame_response_fragment_count format arbitration_id xl_header rx_len max_fragment_payload =
     (if \<not> encode_preconditions_ok format arbitration_id xl_header rx_len then 0
      else
        (let count = plan_count (prefix_len_for format + rx_len) max_fragment_payload
         in if kMaxFragmentSegments < count then 0 else count))"

definition encode_frame_response_fragmented ::
    "u16 \<Rightarrow> frame_format \<Rightarrow> u32 \<Rightarrow> xl_header option \<Rightarrow> octets \<Rightarrow> u8 \<Rightarrow> bool \<Rightarrow> u64 \<Rightarrow> nat \<Rightarrow> octets list" where
  "encode_frame_response_fragmented byte_bus_id format arbitration_id xl_header rx_data transaction_num timed
       timestamp max_fragment_payload =
     (if frame_response_fragment_count format arbitration_id xl_header (length rx_data) max_fragment_payload = 0
      then []
      else fragment_frames (acf_default\<lparr>a_byte_bus_id := byte_bus_id, a_op := False, a_rsp := True,
             a_transaction_num := transaction_num\<rparr>)
             (build_payload format arbitration_id xl_header rx_data) timed timestamp max_fragment_payload)"

definition decode_frame_response_fragment :: "u16 \<Rightarrow> octets \<Rightarrow> can_errc + response_fragment" where
  "decode_frame_response_fragment expected_bus_id b =
     (case open_response Short_frame Bad_msg_type Wrong_bus expected_bus_id b of
        Inl ec \<Rightarrow> Inl ec
      | Inr (hdr, payload, timed, timestamp) \<Rightarrow>
          if \<not> evt_row2_is_plain (a_evt_op hdr) then Inl Bad_evt
          else Inr (a_ms hdr, a_read_size hdr, payload, timed, timestamp, a_transaction_num hdr))"

definition decode_reassembled_frame_response :: "octets \<Rightarrow> can_errc + can_content" where
  "decode_reassembled_frame_response reassembled = parse_payload reassembled"

lemma encoded_frame_small:
  "encode_preconditions_ok format v xl n \<Longrightarrow> prefix_len_for format + n \<le> 2058"
  by (cases format) (auto simp: encode_preconditions_ok_def prefix_len_for_def frame_format_is_xl_def
      kClassicalMaxDataLen_def kFdMaxDataLen_def kXlMaxDataLen_def kArbitrationPrefixLen_def kXlHeaderLen_def
      split: if_splits)

text \<open>
  A CAN frame of any format that is sent in fragments reaches the client whole: every fragment
  decodes, the reassembler takes them all, and what it holds at the end is the frame, with its
  format, identifier, CAN XL header and data.
\<close>

lemma fragmented_frame_arrives:
  assumes "frame_response_fragment_count format v xl (length rx) m \<noteq> 0" "m < 2 ^ 63"
    and "2058 \<le> limit" "bus < 0x800" "timed \<or> ts = 0"
  shows "(\<exists>payload. arrives_as (decode_frame_response_fragment bus)
      (encode_frame_response_fragmented bus format v xl rx txn timed ts m) limit payload timed ts txn \<and>
      decode_reassembled_frame_response payload = Inr (format, v, xl, rx))"
proof -
  let ?payload = "build_payload format v xl rx"
  have ok: "encode_preconditions_ok format v xl (length rx)" "plan_count (length ?payload) m \<noteq> 0"
    using assms(1) by (auto simp: frame_response_fragment_count_def Let_def split: if_splits)
  have n: "length ?payload \<le> 2058" using encoded_frame_small [OF ok(1)] by simp
  have "arrives_as (decode_frame_response_fragment bus)
      (encode_frame_response_fragmented bus format v xl rx txn timed ts m) limit ?payload timed ts txn"
    using assms(1) unfolding encode_frame_response_fragmented_def
    by (simp, intro fragments_arrive [where s = Short_frame and t = Bad_msg_type and w = Wrong_bus, THEN conjunct2])
      (use ok(2) n assms(2-) in \<open>auto simp: decode_frame_response_fragment_def open_fragment_def segment_header_def
        kDefaultReassemblyCapacity_def\<close>)
  then show ?thesis using ok(1) by (auto simp: decode_reassembled_frame_response_def)
qed

section \<open>The endpoint\<close>

record can_endpoint =
  ce_cfg :: can_functional_config
  ce_filters :: "can_acceptance_filter list"
  ce_last_tx :: can_data_frame
  ce_last_rx :: can_data_frame

definition set_acceptance_filters :: "can_acceptance_filter list \<Rightarrow> can_endpoint \<Rightarrow> can_endpoint" where
  "set_acceptance_filters filters ep = ep\<lparr>ce_filters := filters\<rparr>"

definition transmit :: "can_data_frame \<Rightarrow> can_endpoint \<Rightarrow> can_errc option \<times> can_endpoint" where
  "transmit frame ep =
     (case validate_frame frame of
        Some ec \<Rightarrow> (Some ec, ep)
      | None \<Rightarrow> (None, ep\<lparr>ce_last_tx := frame\<rparr>))"

definition handle_request ::
    "u8 \<Rightarrow> can_data_frame \<Rightarrow> can_endpoint \<Rightarrow> can_errc request_error option \<times> can_endpoint" where
  "handle_request evt_op frame ep = handle_row2 evt_op Config_write_not_supported (transmit frame) ep"

definition receive :: "can_data_frame \<Rightarrow> can_endpoint \<Rightarrow> bool \<times> can_endpoint" where
  "receive frame ep =
     (let matched =
        (if frame_format_is_xl (cf_format frame)
         then
           \<not> list_ex xf_enable (ca_xl_filters (ce_cfg ep)) \<or>
           list_ex (\<lambda>f. xf_enable f \<and> cf_arbitration_id frame AND xf_mask f = xf_id f AND xf_mask f)
             (ca_xl_filters (ce_cfg ep))
         else
           ce_filters ep = [] \<or>
           list_ex (\<lambda>f. acceptance_filter_matches f (cf_format frame) (cf_arbitration_id frame)) (ce_filters ep))
      in if \<not> matched then (False, ep) else (True, ep\<lparr>ce_last_rx := frame\<rparr>))"

text \<open>Only frames that one message can carry are transmitted, so none has a wrapped length field.\<close>

lemma transmitted_frame_fits:
  "fst (transmit frame ep) = None \<Longrightarrow>
     prefix_len_for (cf_format frame) + length (cf_data frame) \<le> kAcfAbbMaxPayload \<and>
     arbitration_id_valid (cf_format frame) (cf_arbitration_id frame)"
  by (cases "cf_format frame")
    (auto simp: transmit_def validate_frame_def validate_identifier_def prefix_len_for_def frame_format_is_xl_def
      kMaxXlPayloadSingleFrame_def kClassicalMaxDataLen_def kFdMaxDataLen_def kArbitrationPrefixLen_def kXlHeaderLen_def
      kAcfAbbMaxPayload_def kAcfMaxQuadlets_def kAcfCommonHeaderLen_def split: if_splits)

end
