(* ===== verification/Mdio.thy ===== *)
theory Mdio
  imports Ep_Block
begin

text \<open>
  The MDIO endpoint type, \<open>include/rcp/mdio.hpp\<close>: access modes and addresses of Clause 22, Clause 45
  and memory-mapped (MMS) registers, the packing of 16-bit and 32-bit register words, the
  configuration block, the burst requests and responses, and the endpoint with its registers.
\<close>

section \<open>Modes and addresses\<close>

datatype mdio_mode = MmdSingleWord | MmdMultiWord | MmsSingleWord | MmsMultiWord

fun mdio_mode_value :: "mdio_mode \<Rightarrow> u8" where
  "mdio_mode_value MmdSingleWord = 0"
| "mdio_mode_value MmdMultiWord = 1"
| "mdio_mode_value MmsSingleWord = 2"
| "mdio_mode_value MmsMultiWord = 3"

definition kModeOctetMask :: u8 where "kModeOctetMask = 0x03"

text \<open>The cast of the masked mode octet.\<close>

definition mdio_mode_of :: "u8 \<Rightarrow> mdio_mode" where
  "mdio_mode_of v = [MmdSingleWord, MmdMultiWord, MmsSingleWord, MmsMultiWord] ! unat (v AND kModeOctetMask)"

definition mode_for_word_count :: "nat \<Rightarrow> mdio_mode" where
  "mode_for_word_count word_count = (if 1 < word_count then MmdMultiWord else MmdSingleWord)"

definition mms_mode_for_word_count :: "nat \<Rightarrow> mdio_mode" where
  "mms_mode_for_word_count word_count = (if 1 < word_count then MmsMultiWord else MmsSingleWord)"

definition mode_is_unsupported_mms :: "mdio_mode \<Rightarrow> bool" where
  "mode_is_unsupported_mms mode \<longleftrightarrow> mode = MmsSingleWord \<or> mode = MmsMultiWord"

definition payload_width_bits :: "mdio_mode \<Rightarrow> bool \<Rightarrow> u8" where
  "payload_width_bits mode mms_is_0_or_1 = (if mode = MmsMultiWord \<and> mms_is_0_or_1 then 32 else 16)"

datatype mdio_clause = Clause22 | Clause45

fun mdio_clause_value :: "mdio_clause \<Rightarrow> u8" where
  "mdio_clause_value Clause22 = 0"
| "mdio_clause_value Clause45 = 1"

definition kPrtadMax :: u8 where "kPrtadMax = 0x1F"
definition kDevadMax :: u8 where "kDevadMax = 0x1F"
definition kClause22RegadMax :: u16 where "kClause22RegadMax = 0x1F"

text \<open>The clause is a raw octet: a received one may be none of the enumeration.\<close>

record mdio_addr =
  ma_clause :: u8
  ma_prtad :: u8
  ma_devad :: u8
  ma_regad :: u16

definition addr_valid :: "mdio_addr \<Rightarrow> bool" where
  "addr_valid addr =
     (if kPrtadMax < ma_prtad addr then False
      else if ma_clause addr = mdio_clause_value Clause22
      then ma_devad addr = 0 \<and> ma_regad addr \<le> kClause22RegadMax
      else if ma_clause addr = mdio_clause_value Clause45 then ma_devad addr \<le> kDevadMax
      else False)"

definition burst_next_regad :: "u8 \<Rightarrow> u16 \<Rightarrow> u16" where
  "burst_next_regad clause regad =
     (if clause = mdio_clause_value Clause22 then (regad + 1) AND kClause22RegadMax
      else if clause = mdio_clause_value Clause45 then regad + 1
      else regad)"

definition kMmsMax :: u8 where "kMmsMax = 0x0F"

record mdio_mms_addr =
  mm_mms :: u8
  mm_addr :: u16

definition mms_addr_valid :: "mdio_mms_addr \<Rightarrow> bool" where
  "mms_addr_valid addr \<longleftrightarrow> mm_mms addr \<le> kMmsMax"

definition mms_uses_32bit_words :: "u8 \<Rightarrow> bool" where
  "mms_uses_32bit_words mms \<longleftrightarrow> mms = 0 \<or> mms = 1"

definition mms_burst_next_addr :: "u16 \<Rightarrow> u16" where
  "mms_burst_next_addr addr = addr + 1"

text \<open>A burst keeps its address valid and, in Clause 22, returns after 32 registers.\<close>

lemma burst_keeps_valid:
  "addr_valid addr \<Longrightarrow> addr_valid (addr\<lparr>ma_regad := burst_next_regad (ma_clause addr) (ma_regad addr)\<rparr>)"
proof -
  have "(r + 1) AND kClause22RegadMax \<le> kClause22RegadMax" for r :: u16
    by (rule word_and_le1)
  then show "addr_valid addr \<Longrightarrow> ?thesis"
    by (auto simp: addr_valid_def burst_next_regad_def split: if_splits)
qed

section \<open>Words\<close>

definition word_encode :: "u16 \<Rightarrow> octets" where
  "word_encode w = [ucast (drop_bit 8 w AND 0xFF), ucast (w AND 0xFF)]"

definition word_decode :: "octets \<Rightarrow> u16" where
  "word_decode p = push_bit 8 (ucast (p ! 0)) OR ucast (p ! 1)"

definition pack_len :: "nat \<Rightarrow> nat" where
  "pack_len word_count = word_count * 2"

definition pack_words :: "u16 list \<Rightarrow> octets" where
  "pack_words words = concat (List.map word_encode words)"

text \<open>\<open>None\<close> is the return value \<open>false\<close>.\<close>

definition word_count_of :: "nat \<Rightarrow> nat option" where
  "word_count_of byte_len = (if odd byte_len then None else Some (byte_len div 2))"

definition unpack_word_at :: "octets \<Rightarrow> nat \<Rightarrow> u16" where
  "unpack_word_at data word_index = word_decode (drop (2 * word_index) data)"

definition word32_encode :: "u32 \<Rightarrow> octets" where
  "word32_encode w =
     [ucast (drop_bit 24 w AND 0xFF), ucast (drop_bit 16 w AND 0xFF), ucast (drop_bit 8 w AND 0xFF),
      ucast (w AND 0xFF)]"

definition word32_decode :: "octets \<Rightarrow> u32" where
  "word32_decode p =
     push_bit 24 (ucast (p ! 0)) OR push_bit 16 (ucast (p ! 1)) OR push_bit 8 (ucast (p ! 2)) OR ucast (p ! 3)"

definition mms_word_width :: "u8 \<Rightarrow> nat" where
  "mms_word_width mms = (if mms_uses_32bit_words mms then 4 else 2)"

definition mms_pack_len :: "u8 \<Rightarrow> nat \<Rightarrow> nat" where
  "mms_pack_len mms word_count = word_count * mms_word_width mms"

definition mms_pack_words :: "u8 \<Rightarrow> u32 list \<Rightarrow> octets" where
  "mms_pack_words mms words =
     concat (List.map (\<lambda>w. if mms_word_width mms = 4 then word32_encode w
                           else word_encode (ucast (w AND 0xFFFF))) words)"

definition mms_word_count_of :: "u8 \<Rightarrow> nat \<Rightarrow> nat option" where
  "mms_word_count_of mms byte_len =
     (let width = mms_word_width mms in if byte_len mod width \<noteq> 0 then None else Some (byte_len div width))"

definition mms_unpack_word_at :: "u8 \<Rightarrow> octets \<Rightarrow> nat \<Rightarrow> u32" where
  "mms_unpack_word_at mms data word_index =
     (let width = mms_word_width mms in
      if width = 4 then word32_decode (drop (width * word_index) data)
      else ucast (word_decode (drop (width * word_index) data)))"

text \<open>Words of a fixed width are found again at their index.\<close>

lemma drop_concat:
  assumes "\<And>x. length (f x) = n" "i < length xs"
  shows "drop (n * i) (concat (List.map f xs)) = f (xs ! i) @ concat (List.map f (drop (Suc i) xs))"
  using assms(2)
proof (induction xs arbitrary: i)
  case (Cons x xs)
  then show ?case by (cases i) (simp_all add: assms(1))
qed simp

lemma length_concat_fixed: "(\<And>x. length (f x) = n) \<Longrightarrow> length (concat (List.map f xs)) = length xs * n"
  by (induction xs) simp_all

lemma word_codes [simp]:
  "length (word_encode w) = 2" "word_decode (word_encode w @ r) = w"
  "length (word32_encode v) = 4" "word32_decode (word32_encode v @ r) = v"
proof -
  show "word_decode (word_encode w @ r) = w"
    using get_put_u16 [of w r] by (simp add: word_decode_def word_encode_def get_u16_def put_u16_def)
  show "word32_decode (word32_encode v @ r) = v"
    using get_put_u32 [of v r] by (simp add: word32_decode_def word32_encode_def get_u32_def put_u32_def)
qed (simp_all add: word_encode_def word32_encode_def)

lemma length_pack_words [simp]: "length (pack_words ws) = 2 * length ws"
  unfolding pack_words_def by (subst length_concat_fixed [of _ 2]) simp_all

lemma unpack_pack [simp]: "i < length ws \<Longrightarrow> unpack_word_at (pack_words ws) i = ws ! i"
  by (simp add: unpack_word_at_def pack_words_def drop_concat [of word_encode 2])

lemma mms_pack_fixed:
  "length (if mms_word_width mms = 4 then word32_encode w else word_encode (ucast (w AND 0xFFFF))) = mms_word_width mms"
  by (simp add: mms_word_width_def)

lemma length_mms_pack_words [simp]: "length (mms_pack_words mms ws) = mms_word_width mms * length ws"
  unfolding mms_pack_words_def by (subst length_concat_fixed [OF mms_pack_fixed]) simp

text \<open>The words that fit the memory map: 32 bits in the first two, 16 in the others.\<close>

definition words_fit :: "u8 \<Rightarrow> u32 list \<Rightarrow> bool" where
  "words_fit mms words \<longleftrightarrow> mms_uses_32bit_words mms \<or> list_all (\<lambda>w. w < 0x10000) words"

lemma mms_unpack_pack [simp]:
  assumes "i < length ws" "words_fit mms ws"
  shows "mms_unpack_word_at mms (mms_pack_words mms ws) i = ws ! i"
proof -
  have narrow: "ucast (ucast (w AND 0xFFFF) :: u16) = w" if "w < 0x10000" for w :: u32
  proof -
    have "ucast (ucast (w AND 0xFFFF) :: u16) = w AND mask 16"
      by (rule bit_eqI) (auto simp: bit_simps dest: bit_imp_le_length)
    also have "\<dots> = w" using that by (intro less_mask_eq) simp
    finally show ?thesis .
  qed
  show ?thesis
    using assms narrow [of "ws ! i"]
    unfolding mms_unpack_word_at_def mms_pack_words_def Let_def drop_concat [OF mms_pack_fixed assms(1)]
    by (auto simp: mms_word_width_def words_fit_def list_all_length split: if_splits)
qed

datatype mdio_errc =
    Payload_exceeds_mode_width | Config_write_not_supported | Short_frame | Bad_msg_type | Wrong_bus | Wrong_op
  | Bad_addr | Bad_word_count | Bad_evt | Unsupported_mms | Bad_mms_addr | Wrong_mdio_mode

section \<open>Functional configuration\<close>

record mdio_functional_cfg = ep_flags +
  md_ep_status :: u16

definition functional_cfg_init :: mdio_functional_cfg where
  "functional_cfg_init =
     \<lparr>ep_enable = False, ep_clear_req_storage = False, ep_req_crc_enable = False,
      ep_response_ts_enable = False, ep_suppress_response = False, md_ep_status = 0\<rparr>"

definition kMdioEpFuncLen :: nat where "kMdioEpFuncLen = 0x0006"

definition render_registers :: "mdio_functional_cfg \<Rightarrow> octets" where
  "render_registers cfg = [of_nat kMdioEpFuncLen, 0] @ render_flags cfg @ put_u16 (md_ep_status cfg)"

definition parse_registers :: "octets \<Rightarrow> mdio_functional_cfg \<Rightarrow> mdio_functional_cfg" where
  "parse_registers b cfg = parse_flags (b ! 2) (b ! 3) (cfg\<lparr>md_ep_status := get_u16 (drop 4 b)\<rparr>)"

definition reg_offset_read_only :: "nat \<Rightarrow> bool" where
  "reg_offset_read_only addr \<longleftrightarrow> addr = 0 \<or> addr = 1"

datatype mdio_reconfig_errc = Short_payload | Out_of_range

definition apply_reconfig ::
    "octets \<Rightarrow> mdio_functional_cfg \<Rightarrow> mdio_reconfig_errc option \<times> mdio_functional_cfg" where
  "apply_reconfig payload cfg =
     block_reconfig Short_payload Out_of_range kMdioEpFuncLen reg_offset_read_only render_registers
       parse_registers payload cfg"

definition encode_reconfig_request :: "u16 \<Rightarrow> u16 \<Rightarrow> octets \<Rightarrow> u8 \<Rightarrow> octets" where
  "encode_reconfig_request byte_bus_id start_address data transaction_num =
     encode_config_write byte_bus_id start_address data transaction_num"

interpretation mdio_block: register_block kMdioEpFuncLen reg_offset_read_only kept_flags render_registers
    parse_registers "\<lambda>_. True" "\<lambda>_. True"
  by unfold_locales
    (simp_all add: kMdioEpFuncLen_def render_registers_def parse_registers_def reg_offset_read_only_def
      kept_flags_def flag_defs register_addresses put_u16_def)

section \<open>Address prefixes\<close>

definition kMaxBurstWords :: nat where "kMaxBurstWords = 512"

definition put_addr_prefix :: "mdio_addr \<Rightarrow> octets" where
  "put_addr_prefix addr = [ma_clause addr, ma_prtad addr, ma_devad addr] @ put_u16 (ma_regad addr)"

definition get_addr_prefix :: "octets \<Rightarrow> mdio_addr" where
  "get_addr_prefix p = \<lparr>ma_clause = p ! 0, ma_prtad = p ! 1, ma_devad = p ! 2, ma_regad = get_u16 (drop 3 p)\<rparr>"

definition put_mms_addr_prefix :: "mdio_mms_addr \<Rightarrow> octets" where
  "put_mms_addr_prefix addr = [mm_mms addr] @ put_u16 (mm_addr addr)"

definition get_mms_addr_prefix :: "octets \<Rightarrow> mdio_mms_addr" where
  "get_mms_addr_prefix p = \<lparr>mm_mms = p ! 0, mm_addr = get_u16 (drop 1 p)\<rparr>"

definition kReadRequestPayloadLen :: nat where "kReadRequestPayloadLen = 8"
definition kWriteRequestMinPayloadLen :: nat where "kWriteRequestMinPayloadLen = 6"
definition kMmsReadRequestPayloadLen :: nat where "kMmsReadRequestPayloadLen = 6"
definition kMmsWriteRequestMinPayloadLen :: nat where "kMmsWriteRequestMinPayloadLen = 4"

lemmas mdio_lengths = kReadRequestPayloadLen_def kWriteRequestMinPayloadLen_def kMmsReadRequestPayloadLen_def
  kMmsWriteRequestMinPayloadLen_def kMaxBurstWords_def

lemma prefixes [simp]:
  "length (put_addr_prefix a) = 5" "get_addr_prefix (put_addr_prefix a @ r) = a"
  "length (put_mms_addr_prefix m) = 3" "get_mms_addr_prefix (put_mms_addr_prefix m @ r) = m"
  by (simp_all add: put_addr_prefix_def get_addr_prefix_def put_mms_addr_prefix_def get_mms_addr_prefix_def)

lemma mode_octets [simp]:
  "mdio_mode_of (mdio_mode_value m) = m"
  "\<not> mode_is_unsupported_mms (mode_for_word_count n)" "mode_is_unsupported_mms (mms_mode_for_word_count n)"
  by (cases m; simp add: mdio_mode_of_def kModeOctetMask_def)
    (simp_all add: mode_is_unsupported_mms_def mode_for_word_count_def mms_mode_for_word_count_def)

section \<open>Requests\<close>

text \<open>The header of a request and of a response: the direction and the transaction.\<close>

definition mdio_request_header :: "u16 \<Rightarrow> bool \<Rightarrow> u8 \<Rightarrow> acf_info" where
  "mdio_request_header byte_bus_id op transaction_num = acf_default\<lparr>a_byte_bus_id := byte_bus_id, a_op := op,
     a_evt_op := 0, a_transaction_num := transaction_num\<rparr>"

definition mdio_response_header :: "u16 \<Rightarrow> bool \<Rightarrow> u8 \<Rightarrow> acf_info" where
  "mdio_response_header byte_bus_id op transaction_num =
     (mdio_request_header byte_bus_id op transaction_num)\<lparr>a_rsp := True\<rparr>"

text \<open>The checks before the payload of a request is looked at.\<close>

definition open_request :: "bool \<Rightarrow> nat \<Rightarrow> u16 \<Rightarrow> octets \<Rightarrow> mdio_errc + (acf_info \<times> octets)" where
  "open_request op min_len expected_bus_id b =
     (case open_abb Short_frame Bad_msg_type Wrong_bus expected_bus_id b of
        Inl ec \<Rightarrow> Inl ec
      | Inr (hdr, payload) \<Rightarrow>
          if a_op hdr \<noteq> op then Inl Wrong_op
          else if \<not> evt_row2_is_plain (a_evt_op hdr) then Inl Bad_evt
          else if length payload < min_len then Inl Short_frame
          else Inr (hdr, payload))"

definition encode_read_request :: "u16 \<Rightarrow> mdio_addr \<Rightarrow> nat \<Rightarrow> u8 \<Rightarrow> octets" where
  "encode_read_request byte_bus_id addr word_count transaction_num =
     (if \<not> addr_valid addr then []
      else if word_count = 0 \<or> kMaxBurstWords < word_count then []
      else encode_acf_abb (mdio_request_header byte_bus_id False transaction_num)
             ([mdio_mode_value (mode_for_word_count word_count)] @ put_addr_prefix addr @ put_u16 (of_nat word_count)))"

definition decode_read_request :: "u16 \<Rightarrow> octets \<Rightarrow> mdio_errc + (mdio_addr \<times> nat \<times> u8)" where
  "decode_read_request expected_bus_id b =
     (case open_request False kReadRequestPayloadLen expected_bus_id b of
        Inl ec \<Rightarrow> Inl ec
      | Inr (hdr, payload) \<Rightarrow>
          if mode_is_unsupported_mms (mdio_mode_of (payload ! 0)) then Inl Unsupported_mms
          else
            (let addr = get_addr_prefix (drop 1 payload); word_count = unat (get_u16 (drop 6 payload)) in
             if \<not> addr_valid addr then Inl Bad_addr
             else if word_count = 0 \<or> kMaxBurstWords < word_count then Inl Bad_word_count
             else Inr (addr, word_count, a_transaction_num hdr)))"

definition encode_write_request :: "u16 \<Rightarrow> mdio_addr \<Rightarrow> u16 list \<Rightarrow> u8 \<Rightarrow> octets" where
  "encode_write_request byte_bus_id addr words transaction_num =
     (if \<not> addr_valid addr then []
      else if length words = 0 \<or> kMaxBurstWords < length words then []
      else encode_acf_abb (mdio_request_header byte_bus_id True transaction_num)
             ([mdio_mode_value (mode_for_word_count (length words))] @ put_addr_prefix addr @ pack_words words))"

definition decode_write_request :: "u16 \<Rightarrow> octets \<Rightarrow> mdio_errc + (mdio_addr \<times> octets \<times> nat \<times> u8)" where
  "decode_write_request expected_bus_id b =
     (case open_request True kWriteRequestMinPayloadLen expected_bus_id b of
        Inl ec \<Rightarrow> Inl ec
      | Inr (hdr, payload) \<Rightarrow>
          if mode_is_unsupported_mms (mdio_mode_of (payload ! 0)) then Inl Unsupported_mms
          else
            (let addr = get_addr_prefix (drop 1 payload) in
             if \<not> addr_valid addr then Inl Bad_addr
             else
               (case word_count_of (length payload - kWriteRequestMinPayloadLen) of
                  None \<Rightarrow> Inl Bad_word_count
                | Some word_count \<Rightarrow>
                    if word_count = 0 \<or> kMaxBurstWords < word_count then Inl Bad_word_count
                    else Inr (addr, drop kWriteRequestMinPayloadLen payload, word_count, a_transaction_num hdr))))"

definition encode_mms_read_request :: "u16 \<Rightarrow> mdio_mms_addr \<Rightarrow> nat \<Rightarrow> u8 \<Rightarrow> octets" where
  "encode_mms_read_request byte_bus_id addr word_count transaction_num =
     (if \<not> mms_addr_valid addr then []
      else if word_count = 0 \<or> kMaxBurstWords < word_count then []
      else encode_acf_abb (mdio_request_header byte_bus_id False transaction_num)
             ([mdio_mode_value (mms_mode_for_word_count word_count)] @ put_mms_addr_prefix addr @
              put_u16 (of_nat word_count)))"

definition decode_mms_read_request :: "u16 \<Rightarrow> octets \<Rightarrow> mdio_errc + (mdio_mms_addr \<times> nat \<times> u8)" where
  "decode_mms_read_request expected_bus_id b =
     (case open_request False kMmsReadRequestPayloadLen expected_bus_id b of
        Inl ec \<Rightarrow> Inl ec
      | Inr (hdr, payload) \<Rightarrow>
          if \<not> mode_is_unsupported_mms (mdio_mode_of (payload ! 0)) then Inl Wrong_mdio_mode
          else
            (let addr = get_mms_addr_prefix (drop 1 payload); word_count = unat (get_u16 (drop 4 payload)) in
             if \<not> mms_addr_valid addr then Inl Bad_mms_addr
             else if word_count = 0 \<or> kMaxBurstWords < word_count then Inl Bad_word_count
             else Inr (addr, word_count, a_transaction_num hdr)))"

definition encode_mms_write_request :: "u16 \<Rightarrow> mdio_mms_addr \<Rightarrow> u32 list \<Rightarrow> u8 \<Rightarrow> octets" where
  "encode_mms_write_request byte_bus_id addr words transaction_num =
     (if \<not> mms_addr_valid addr then []
      else if length words = 0 \<or> kMaxBurstWords < length words then []
      else encode_acf_abb (mdio_request_header byte_bus_id True transaction_num)
             ([mdio_mode_value (mms_mode_for_word_count (length words))] @ put_mms_addr_prefix addr @
              mms_pack_words (mm_mms addr) words))"

definition decode_mms_write_request :: "u16 \<Rightarrow> octets \<Rightarrow> mdio_errc + (mdio_mms_addr \<times> octets \<times> nat \<times> u8)" where
  "decode_mms_write_request expected_bus_id b =
     (case open_request True kMmsWriteRequestMinPayloadLen expected_bus_id b of
        Inl ec \<Rightarrow> Inl ec
      | Inr (hdr, payload) \<Rightarrow>
          if \<not> mode_is_unsupported_mms (mdio_mode_of (payload ! 0)) then Inl Wrong_mdio_mode
          else
            (let addr = get_mms_addr_prefix (drop 1 payload) in
             if \<not> mms_addr_valid addr then Inl Bad_mms_addr
             else
               (case mms_word_count_of (mm_mms addr) (length payload - kMmsWriteRequestMinPayloadLen) of
                  None \<Rightarrow> Inl Bad_word_count
                | Some word_count \<Rightarrow>
                    if word_count = 0 \<or> kMaxBurstWords < word_count then Inl Bad_word_count
                    else Inr (addr, drop kMmsWriteRequestMinPayloadLen payload, word_count, a_transaction_num hdr))))"

lemma request_header [simp]:
  "a_byte_bus_id (mdio_request_header bus op txn) = bus" "a_op (mdio_request_header bus op txn) = op"
  "a_evt_op (mdio_request_header bus op txn) = 0" "a_transaction_num (mdio_request_header bus op txn) = txn"
  by (simp_all add: mdio_request_header_def)

lemma open_encoded_request [simp]:
  "bus < 0x800 \<Longrightarrow> min_len \<le> length payload \<Longrightarrow>
     open_request op min_len bus (encode_acf_abb (mdio_request_header bus op txn) payload) =
       Inr (arriving (mdio_request_header bus op txn) payload False, payload)"
  by (simp add: open_request_def)

text \<open>What a receiver makes of the data of a write or a response: the words at their indices.\<close>

definition words_at :: "(octets \<Rightarrow> nat \<Rightarrow> 'w) \<Rightarrow> octets \<Rightarrow> nat \<Rightarrow> 'w list" where
  "words_at unpack data word_count = List.map (unpack data) [0..<word_count]"

lemma words_at_packed [simp]:
  "words_at unpack_word_at (pack_words ws) (length ws) = ws"
  "words_fit mms vs \<Longrightarrow> words_at (mms_unpack_word_at mms) (mms_pack_words mms vs) (length vs) = vs"
  by (rule nth_equalityI; simp add: words_at_def)+

lemma word_counts [simp]:
  "word_count_of (2 * n) = Some n" "mms_word_count_of mms (mms_word_width mms * n) = Some n"
  by (simp_all add: word_count_of_def mms_word_count_of_def Let_def mms_word_width_def)

lemma last_u16 [simp]: "get_u16 (put_u16 v) = v"
  using get_put_u16 [of v "[]"] by simp

lemma burst_count [simp]: "n \<le> 512 \<Longrightarrow> unat (word_of_nat n :: u16) = n"
  by (simp add: unat_of_nat)

interpretation mdio_read_request: message_codec "\<lambda>(addr, n, txn). encode_read_request bus addr n txn"
    "decode_read_request bus" "\<lambda>(addr, n, txn). bus < 0x800 \<and> addr_valid addr \<and> 0 < n \<and> n \<le> kMaxBurstWords" for bus
  by unfold_locales
    (auto simp: encode_read_request_def decode_read_request_def mdio_lengths Let_def drop_append)

interpretation mdio_write_request: message_codec "\<lambda>(addr, words, txn). encode_write_request bus addr words txn"
    "\<lambda>b. map_sum id (\<lambda>(addr, data, n, txn). (addr, words_at unpack_word_at data n, txn)) (decode_write_request bus b)"
    "\<lambda>(addr, words, txn). bus < 0x800 \<and> addr_valid addr \<and> words \<noteq> [] \<and> length words \<le> kMaxBurstWords" for bus
  by unfold_locales
    (auto simp: encode_write_request_def decode_write_request_def mdio_lengths Let_def drop_append)

interpretation mdio_mms_read_request: message_codec "\<lambda>(addr, n, txn). encode_mms_read_request bus addr n txn"
    "decode_mms_read_request bus"
    "\<lambda>(addr, n, txn). bus < 0x800 \<and> mms_addr_valid addr \<and> 0 < n \<and> n \<le> kMaxBurstWords" for bus
  by unfold_locales
    (auto simp: encode_mms_read_request_def decode_mms_read_request_def mdio_lengths Let_def drop_append)

interpretation mdio_mms_write_request: message_codec
    "\<lambda>(addr, words, txn). encode_mms_write_request bus addr words txn"
    "\<lambda>b. map_sum id (\<lambda>(addr, data, n, txn). (addr, words_at (mms_unpack_word_at (mm_mms addr)) data n, txn))
       (decode_mms_write_request bus b)"
    "\<lambda>(addr, words, txn). bus < 0x800 \<and> mms_addr_valid addr \<and> words \<noteq> [] \<and> length words \<le> kMaxBurstWords \<and>
       words_fit (mm_mms addr) words" for bus
  by unfold_locales
    (auto simp: encode_mms_write_request_def decode_mms_write_request_def mdio_lengths Let_def drop_append)

text \<open>
  A burst of 512 words of 32 bits is accepted although it does not fit one message: the length
  field of its header, nine bits of quadlets, says 3.
\<close>

lemma long_burst_wraps_length:
  "length words = 512 \<Longrightarrow> bus < 0x800 \<Longrightarrow>
     \<exists>info payload. open_abb Short_frame Bad_msg_type Wrong_bus bus
         (encode_mms_write_request bus \<lparr>mm_mms = 0, mm_addr = a\<rparr> words txn) = Inr (info, payload) \<and>
       length payload = 2052 \<and> a_msg_length info = 3"
  by (auto simp: encode_mms_write_request_def mms_addr_valid_def kMmsMax_def kMaxBurstWords_def
      mms_word_width_def mms_uses_32bit_words_def mdio_request_header_def arriving_def mask_info_def abb_header_def
      fill_length_def acf_default_def compute_acf_msg_length_def kAcfMsgTypeAbb_def kAcfMsgTypeGbb_def
      kAcfCommonHeaderLen_def Let_def)

section \<open>Responses\<close>

text \<open>The words of a response: its data, their count, timed, timestamp, transaction number.\<close>

type_synonym words_response = "octets \<times> nat \<times> bool \<times> u64 \<times> u8"

definition decode_words :: "(nat \<Rightarrow> nat option) \<Rightarrow> u16 \<Rightarrow> octets \<Rightarrow> mdio_errc + words_response" where
  "decode_words count_of expected_bus_id b =
     (case open_response Short_frame Bad_msg_type Wrong_bus expected_bus_id b of
        Inl ec \<Rightarrow> Inl ec
      | Inr (hdr, payload, timed, timestamp) \<Rightarrow>
          (case count_of (length payload) of
             None \<Rightarrow> Inl Bad_word_count
           | Some word_count \<Rightarrow>
               if kMaxBurstWords < word_count then Inl Bad_word_count
               else Inr (payload, word_count, timed, timestamp, a_transaction_num hdr)))"

definition encode_read_response :: "u16 \<Rightarrow> u16 list \<Rightarrow> u8 \<Rightarrow> bool \<Rightarrow> u64 \<Rightarrow> octets" where
  "encode_read_response byte_bus_id words transaction_num timed timestamp =
     (if kMaxBurstWords < length words then []
      else encode_timed (mdio_response_header byte_bus_id False transaction_num) (pack_words words) timed timestamp)"

definition decode_read_response :: "u16 \<Rightarrow> octets \<Rightarrow> mdio_errc + words_response" where
  "decode_read_response = decode_words word_count_of"

definition encode_write_response :: "u16 \<Rightarrow> u16 list \<Rightarrow> u8 \<Rightarrow> bool \<Rightarrow> u64 \<Rightarrow> octets" where
  "encode_write_response byte_bus_id accepted_words transaction_num timed timestamp =
     (if kMaxBurstWords < length accepted_words then []
      else encode_timed (mdio_response_header byte_bus_id True transaction_num) (pack_words accepted_words)
             timed timestamp)"

definition decode_write_response :: "u16 \<Rightarrow> octets \<Rightarrow> mdio_errc + words_response" where
  "decode_write_response = decode_words word_count_of"

definition encode_mms_read_response :: "u16 \<Rightarrow> u8 \<Rightarrow> u32 list \<Rightarrow> u8 \<Rightarrow> bool \<Rightarrow> u64 \<Rightarrow> octets" where
  "encode_mms_read_response byte_bus_id mms words transaction_num timed timestamp =
     (if kMaxBurstWords < length words then []
      else encode_timed (mdio_response_header byte_bus_id False transaction_num) (mms_pack_words mms words)
             timed timestamp)"

definition decode_mms_read_response :: "u16 \<Rightarrow> u8 \<Rightarrow> octets \<Rightarrow> mdio_errc + words_response" where
  "decode_mms_read_response expected_bus_id mms = decode_words (mms_word_count_of mms) expected_bus_id"

definition encode_mms_write_response :: "u16 \<Rightarrow> u8 \<Rightarrow> u32 list \<Rightarrow> u8 \<Rightarrow> bool \<Rightarrow> u64 \<Rightarrow> octets" where
  "encode_mms_write_response byte_bus_id mms accepted_words transaction_num timed timestamp =
     (if kMaxBurstWords < length accepted_words then []
      else encode_timed (mdio_response_header byte_bus_id True transaction_num) (mms_pack_words mms accepted_words)
             timed timestamp)"

definition decode_mms_write_response :: "u16 \<Rightarrow> u8 \<Rightarrow> octets \<Rightarrow> mdio_errc + words_response" where
  "decode_mms_write_response expected_bus_id mms = decode_words (mms_word_count_of mms) expected_bus_id"

lemma response_header [simp]:
  "a_byte_bus_id (mdio_response_header bus op txn) = bus"
  "a_transaction_num (mdio_response_header bus op txn) = txn"
  by (simp_all add: mdio_response_header_def)

lemma decode_encoded_words:
  "bus < 0x800 \<Longrightarrow> count_of (length payload) = Some n \<Longrightarrow> n \<le> kMaxBurstWords \<Longrightarrow> timed \<or> ts = 0 \<Longrightarrow>
     decode_words count_of bus (encode_timed (mdio_response_header bus op txn) payload timed ts) =
       Inr (payload, n, timed, ts, txn)"
  by (auto simp: decode_words_def)

definition received_words ::
    "(octets \<Rightarrow> nat \<Rightarrow> 'w) \<Rightarrow> mdio_errc + words_response \<Rightarrow> mdio_errc + ('w list \<times> bool \<times> u64 \<times> u8)" where
  "received_words unpack = map_sum id (\<lambda>(data, n, timed, ts, txn). (words_at unpack data n, timed, ts, txn))"

interpretation mdio_read_response: message_codec
    "\<lambda>(words, timed, ts, txn). encode_read_response bus words txn timed ts"
    "\<lambda>b. received_words unpack_word_at (decode_read_response bus b)"
    "\<lambda>(words, timed, ts, txn). bus < 0x800 \<and> length words \<le> kMaxBurstWords \<and> (timed \<or> ts = 0)" for bus
  by unfold_locales
    (auto simp: encode_read_response_def decode_read_response_def received_words_def not_less decode_encoded_words
      dest: leD)

interpretation mdio_write_response: message_codec
    "\<lambda>(words, timed, ts, txn). encode_write_response bus words txn timed ts"
    "\<lambda>b. received_words unpack_word_at (decode_write_response bus b)"
    "\<lambda>(words, timed, ts, txn). bus < 0x800 \<and> length words \<le> kMaxBurstWords \<and> (timed \<or> ts = 0)" for bus
  by unfold_locales
    (auto simp: encode_write_response_def decode_write_response_def received_words_def not_less decode_encoded_words
      dest: leD)

interpretation mdio_mms_read_response: message_codec
    "\<lambda>(words, timed, ts, txn). encode_mms_read_response bus mms words txn timed ts"
    "\<lambda>b. received_words (mms_unpack_word_at mms) (decode_mms_read_response bus mms b)"
    "\<lambda>(words, timed, ts, txn). bus < 0x800 \<and> length words \<le> kMaxBurstWords \<and> words_fit mms words \<and>
       (timed \<or> ts = 0)" for bus mms
  by unfold_locales
    (auto simp: encode_mms_read_response_def decode_mms_read_response_def received_words_def not_less
      decode_encoded_words dest: leD)

interpretation mdio_mms_write_response: message_codec
    "\<lambda>(words, timed, ts, txn). encode_mms_write_response bus mms words txn timed ts"
    "\<lambda>b. received_words (mms_unpack_word_at mms) (decode_mms_write_response bus mms b)"
    "\<lambda>(words, timed, ts, txn). bus < 0x800 \<and> length words \<le> kMaxBurstWords \<and> words_fit mms words \<and>
       (timed \<or> ts = 0)" for bus mms
  by unfold_locales
    (auto simp: encode_mms_write_response_def decode_mms_write_response_def received_words_def not_less
      decode_encoded_words dest: leD)

section \<open>The endpoint\<close>

record mdio_request =
  mr_mode :: mdio_mode
  mr_mdio_address :: u16
  mr_mms_is_0_or_1 :: bool
  mr_is_write :: bool
  mr_mdio_payload :: u32

definition validate_request :: "mdio_request \<Rightarrow> mdio_errc option" where
  "validate_request req =
     (let width = payload_width_bits (mr_mode req) (mr_mms_is_0_or_1 req);
          max_value = (if width = 32 then 0xFFFFFFFF else 0xFFFF)
      in if max_value < mr_mdio_payload req then Some Payload_exceeds_mode_width else None)"

record mdio_endpoint =
  me_last_request :: mdio_request
  me_registers :: "u64 \<Rightarrow> u32 option"

definition register_key :: "mdio_request \<Rightarrow> u64" where
  "register_key req = push_bit 16 (ucast (mdio_mode_value (mr_mode req))) OR ucast (mr_mdio_address req)"

definition transact :: "mdio_request \<Rightarrow> mdio_endpoint \<times> u32 \<Rightarrow> mdio_errc option \<times> mdio_endpoint \<times> u32" where
  "transact req s =
     (case s of (ep, out) \<Rightarrow>
       (case validate_request req of
          Some ec \<Rightarrow> (Some ec, s)
        | None \<Rightarrow>
            (let ep = ep\<lparr>me_last_request := req\<rparr>; key = register_key req in
             if mr_is_write req
             then (None, ep\<lparr>me_registers := (me_registers ep)(key \<mapsto> mr_mdio_payload req)\<rparr>, mr_mdio_payload req)
             else (None, ep, case me_registers ep key of Some v \<Rightarrow> v | None \<Rightarrow> 0))))"

definition handle_request ::
    "u8 \<Rightarrow> mdio_request \<Rightarrow> mdio_endpoint \<times> u32 \<Rightarrow> mdio_errc request_error option \<times> mdio_endpoint \<times> u32" where
  "handle_request evt_op req s = handle_row2 evt_op Config_write_not_supported (transact req) s"

text \<open>Different modes and addresses are different registers, so a read gives the last value written.\<close>

lemma register_key_inject:
  "register_key r = register_key q \<longleftrightarrow> mr_mode r = mr_mode q \<and> mr_mdio_address r = mr_mdio_address q"
proof
  assume k: "register_key r = register_key q"
  have low: "ucast (register_key x) = mr_mdio_address x" for x
    by (rule bit_eqI) (auto simp: register_key_def bit_simps)
  have high: "ucast (drop_bit 16 (register_key x)) = mdio_mode_value (mr_mode x)" for x
    by (rule bit_eqI) (auto simp: register_key_def bit_simps dest: bit_imp_le_length)
  have "mdio_mode_of (mdio_mode_value (mr_mode r)) = mdio_mode_of (mdio_mode_value (mr_mode q))"
    unfolding high [symmetric] k ..
  then show "mr_mode r = mr_mode q \<and> mr_mdio_address r = mr_mdio_address q"
    using low [of r] low [of q] k by simp
qed (simp add: register_key_def)

end
