(* ===== verification/Wakeup.thy ===== *)
theory Wakeup
  imports Ep_Block
begin

text \<open>
  The wake-up endpoint, \<open>include/rcp/wakeup.hpp\<close>: wake sources watched by level or by edge, the
  status mask that latches which source fired, the sleep and wake-up messages, the register block
  with its write-one-to-clear status, and the endpoint's two flags.
\<close>

definition kSleepCmdOpcode :: u8 where "kSleepCmdOpcode = 0xA5"
definition kWakeupOpcode :: u8 where "kWakeupOpcode = 0x5A"

datatype wakeup_errc = Short_frame | Bad_msg_type | Wrong_bus | Bad_opcode | Reconfig_short | Reconfig_out_of_range

definition kMaxWakeSources :: nat where "kMaxWakeSources = 8"

section \<open>Wake sources\<close>

record wake_source_cfg =
  ws_enabled :: bool
  ws_active_high :: bool
  ws_pin_number :: u16
  ws_trigger_on_rising_edge :: bool
  ws_trigger_on_falling_edge :: bool

definition source_asserted :: "wake_source_cfg \<Rightarrow> bool \<Rightarrow> bool" where
  "source_asserted cfg pin_level \<longleftrightarrow> ws_enabled cfg \<and> pin_level = ws_active_high cfg"

definition any_source_asserted :: "wake_source_cfg list \<Rightarrow> bool list \<Rightarrow> bool" where
  "any_source_asserted sources pin_levels =
     list_ex (\<lambda>i. source_asserted (sources ! i) (pin_levels ! i)) [0..<min (length pin_levels) kMaxWakeSources]"

record source_edge_state =
  se_has_previous :: bool
  se_previous_level :: bool

definition source_edge_asserted ::
    "wake_source_cfg \<Rightarrow> bool \<Rightarrow> source_edge_state \<Rightarrow> bool \<times> source_edge_state" where
  "source_edge_asserted cfg pin_level state =
     (if \<not> ws_trigger_on_rising_edge cfg \<and> \<not> ws_trigger_on_falling_edge cfg
      then (source_asserted cfg pin_level, state)
      else if \<not> se_has_previous state
      then (False, state\<lparr>se_has_previous := True, se_previous_level := pin_level\<rparr>)
      else
        (let rose = (\<not> se_previous_level state \<and> pin_level);
             fell = (se_previous_level state \<and> \<not> pin_level);
             fired = (ws_enabled cfg \<and>
               (ws_trigger_on_rising_edge cfg \<and> rose \<or> ws_trigger_on_falling_edge cfg \<and> fell))
         in (fired, state\<lparr>se_previous_level := pin_level\<rparr>)))"

text \<open>The loop over sources, states and levels; every state is updated, also after one fired.\<close>

fun any_source_edge_asserted ::
    "wake_source_cfg list \<Rightarrow> bool list \<Rightarrow> source_edge_state list \<Rightarrow> bool \<times> source_edge_state list" where
  "any_source_edge_asserted (src # sources) (level # pin_levels) (state # states) =
     (case source_edge_asserted src level state of
        (fired, state') \<Rightarrow>
          (case any_source_edge_asserted sources pin_levels states of
             (any, states') \<Rightarrow> (fired \<or> any, state' # states')))"
| "any_source_edge_asserted sources pin_levels states = (False, states)"

text \<open>
  What one source reports for a sequence of levels of its pin. In edge mode the first level is the
  baseline; afterwards each selected edge is reported at the sample at which it appears, and only
  then.
\<close>

fun edge_run :: "wake_source_cfg \<Rightarrow> source_edge_state \<Rightarrow> bool list \<Rightarrow> bool list" where
  "edge_run cfg state [] = []"
| "edge_run cfg state (level # levels) =
     (case source_edge_asserted cfg level state of (fired, state') \<Rightarrow> fired # edge_run cfg state' levels)"

definition edge_expected :: "wake_source_cfg \<Rightarrow> bool \<Rightarrow> bool \<Rightarrow> bool" where
  "edge_expected cfg before now \<longleftrightarrow> ws_enabled cfg \<and> before \<noteq> now \<and>
     (if now then ws_trigger_on_rising_edge cfg else ws_trigger_on_falling_edge cfg)"

lemma edge_run_from:
  assumes "ws_trigger_on_rising_edge cfg \<or> ws_trigger_on_falling_edge cfg"
  shows "edge_run cfg \<lparr>se_has_previous = True, se_previous_level = before\<rparr> levels =
    List.map2 (edge_expected cfg) (before # levels) levels"
  using assms
  by (induction levels arbitrary: before)
    (auto simp: source_edge_asserted_def edge_expected_def Let_def)

lemma edge_run_exact:
  "edge_run cfg \<lparr>se_has_previous = False, se_previous_level = False\<rparr> levels =
     (if ws_trigger_on_rising_edge cfg \<or> ws_trigger_on_falling_edge cfg
      then (case levels of [] \<Rightarrow> [] | first # rest \<Rightarrow> False # List.map2 (edge_expected cfg) levels rest)
      else List.map (source_asserted cfg) levels)"
proof (cases "ws_trigger_on_rising_edge cfg \<or> ws_trigger_on_falling_edge cfg")
  case True
  then show ?thesis
    using edge_run_from [OF True]
    by (cases levels) (auto simp: source_edge_asserted_def)
next
  case False
  have "edge_run cfg state levels = List.map (source_asserted cfg) levels" for state
    using False by (induction levels) (simp_all add: source_edge_asserted_def)
  then show ?thesis using False by simp
qed

section \<open>The status mask\<close>

definition latch_source :: "nat \<Rightarrow> u16 \<Rightarrow> u16" where
  "latch_source source_index m = (if kMaxWakeSources \<le> source_index then m else m OR push_bit source_index 1)"

definition clear :: "u16 \<Rightarrow> u16" where
  "clear m = 0"

definition clear_source :: "nat \<Rightarrow> u16 \<Rightarrow> u16" where
  "clear_source source_index m =
     (if kMaxWakeSources \<le> source_index then m else m AND NOT (push_bit source_index 1))"

definition is_clear :: "u16 \<Rightarrow> bool" where
  "is_clear m \<longleftrightarrow> m = 0"

definition source_is_latched :: "nat \<Rightarrow> u16 \<Rightarrow> bool" where
  "source_is_latched source_index m =
     (if kMaxWakeSources \<le> source_index then False else m AND push_bit source_index 1 \<noteq> 0)"

lemma and_single_bit: "m AND push_bit i 1 = 0 \<longleftrightarrow> \<not> bit m i" if "i < 16" for m :: u16
proof -
  have "bit (m AND push_bit i 1) n \<longleftrightarrow> n = i \<and> bit m i" for n
    using that by (auto simp: bit_simps)
  then show ?thesis by (metis bit_eq_iff bit_0_eq bot_apply bot_bool_def)
qed

lemma status_bits:
  "source_is_latched i m \<longleftrightarrow> i < 8 \<and> bit m i"
  "bit (latch_source i m) n \<longleftrightarrow> bit m n \<or> (n = i \<and> i < 8)"
  "bit (clear_source i m) n \<longleftrightarrow> bit m n \<and> \<not> (n = i \<and> i < 8)"
  using and_single_bit [of i m] bit_imp_le_length [of m n]
  by (auto simp: source_is_latched_def latch_source_def clear_source_def kMaxWakeSources_def bit_simps)

section \<open>Configuration and registers\<close>

record wakeup_functional_config = ep_flags +
  wk_sources :: "wake_source_cfg list"
  wk_ep_status :: u16
  wk_wup_status :: u16
  wk_repetition_time_us :: u32

definition sleepcmd_writable :: "writer_ctx \<Rightarrow> bool" where
  "sleepcmd_writable writer = via_root_client_ep0 writer"

definition kWakeupRegSourceBase :: nat where "kWakeupRegSourceBase = 0x0006"
definition kWakeupEpFuncLen :: nat where "kWakeupEpFuncLen = kWakeupRegSourceBase + kMaxWakeSources * 2"

definition kWakeupIoSrcInactive :: u8 where [wire_defs]: "kWakeupIoSrcInactive = 0x00"
definition kWakeupIoSrcRisingEdge :: u8 where [wire_defs]: "kWakeupIoSrcRisingEdge = 0x01"
definition kWakeupIoSrcFallingEdge :: u8 where [wire_defs]: "kWakeupIoSrcFallingEdge = 0x02"
definition kWakeupIoSrcBothEdges :: u8 where [wire_defs]: "kWakeupIoSrcBothEdges = 0x03"
definition kWakeupIoSrcHighLevel :: u8 where [wire_defs]: "kWakeupIoSrcHighLevel = 0x04"
definition kWakeupIoSrcLowLevel :: u8 where [wire_defs]: "kWakeupIoSrcLowLevel = 0x05"

definition wakeup_reg_offset_read_only :: "nat \<Rightarrow> bool" where
  "wakeup_reg_offset_read_only addr \<longleftrightarrow> addr = 0 \<or> addr = 1"

definition io_src_of :: "wake_source_cfg \<Rightarrow> u8" where
  "io_src_of src =
     (if ws_trigger_on_rising_edge src \<and> ws_trigger_on_falling_edge src then kWakeupIoSrcBothEdges
      else if ws_trigger_on_rising_edge src then kWakeupIoSrcRisingEdge
      else if ws_trigger_on_falling_edge src then kWakeupIoSrcFallingEdge
      else if \<not> ws_enabled src then kWakeupIoSrcInactive
      else if ws_active_high src then kWakeupIoSrcHighLevel else kWakeupIoSrcLowLevel)"

definition source_register :: "wake_source_cfg \<Rightarrow> u16" where
  "source_register src = push_bit 11 (ucast (io_src_of src AND 0x1F)) OR (ws_pin_number src AND 0x07FF)"

definition render_registers :: "wakeup_functional_config \<Rightarrow> octets" where
  "render_registers cfg =
     [of_nat kWakeupEpFuncLen, of_nat kMaxWakeSources] @ put_u16 (wk_ep_status cfg) @
     put_u16 (wk_wup_status cfg AND (push_bit kMaxWakeSources 1 - 1)) @
     concat (List.map (\<lambda>i. put_u16 (source_register (wk_sources cfg ! i))) [0..<kMaxWakeSources])"

definition parse_source :: "u16 \<Rightarrow> wake_source_cfg \<Rightarrow> wake_source_cfg" where
  "parse_source reg src =
     (let io_src = ucast (drop_bit 11 reg AND 0x1F) :: u8;
          src = src\<lparr>ws_pin_number := reg AND 0x07FF\<rparr> in
      if io_src = kWakeupIoSrcInactive
      then src\<lparr>ws_enabled := False, ws_trigger_on_rising_edge := False, ws_trigger_on_falling_edge := False\<rparr>
      else if io_src = kWakeupIoSrcRisingEdge
      then src\<lparr>ws_enabled := True, ws_trigger_on_rising_edge := True, ws_trigger_on_falling_edge := False\<rparr>
      else if io_src = kWakeupIoSrcFallingEdge
      then src\<lparr>ws_enabled := True, ws_trigger_on_rising_edge := False, ws_trigger_on_falling_edge := True\<rparr>
      else if io_src = kWakeupIoSrcBothEdges
      then src\<lparr>ws_enabled := True, ws_trigger_on_rising_edge := True, ws_trigger_on_falling_edge := True\<rparr>
      else if io_src = kWakeupIoSrcHighLevel
      then src\<lparr>ws_enabled := True, ws_active_high := True,
             ws_trigger_on_rising_edge := False, ws_trigger_on_falling_edge := False\<rparr>
      else if io_src = kWakeupIoSrcLowLevel
      then src\<lparr>ws_enabled := True, ws_active_high := False,
             ws_trigger_on_rising_edge := False, ws_trigger_on_falling_edge := False\<rparr>
      else src)"

definition wakeup_parse_registers :: "octets \<Rightarrow> wakeup_functional_config \<Rightarrow> wakeup_functional_config" where
  "wakeup_parse_registers b cfg =
     (let wup = get_u16 (drop 4 b) in
      cfg\<lparr>wk_ep_status := get_u16 (drop 2 b),
          wk_wup_status := fold (\<lambda>i m. if wup AND push_bit i 1 \<noteq> 0 then clear_source i m else m)
            [0..<kMaxWakeSources] (wk_wup_status cfg),
          wk_sources := List.map (\<lambda>i. parse_source (get_u16 (drop (kWakeupRegSourceBase + i * 2) b)) (wk_sources cfg ! i))
            [0..<kMaxWakeSources]\<rparr>)"

definition apply_reconfig ::
    "octets \<Rightarrow> wakeup_functional_config \<Rightarrow> wakeup_errc option \<times> wakeup_functional_config" where
  "apply_reconfig payload cfg =
     block_reconfig Reconfig_short Reconfig_out_of_range kWakeupEpFuncLen wakeup_reg_offset_read_only
       render_registers wakeup_parse_registers payload cfg"

definition encode_reconfig_request :: "u16 \<Rightarrow> u16 \<Rightarrow> octets \<Rightarrow> u8 \<Rightarrow> octets" where
  "encode_reconfig_request byte_bus_id start_address data transaction_num =
     encode_config_write byte_bus_id start_address data transaction_num"

text \<open>A source that a configuration can express is not changed by parsing its own register.\<close>

definition source_fits :: "wake_source_cfg \<Rightarrow> bool" where
  "source_fits src \<longleftrightarrow> ws_pin_number src < 0x800 \<and>
     (ws_enabled src \<or> \<not> ws_trigger_on_rising_edge src \<and> \<not> ws_trigger_on_falling_edge src)"

lemma source_register_parts:
  "ucast (drop_bit 11 (source_register src) AND 0x1F) = io_src_of src"
  "ws_pin_number src < 0x800 \<Longrightarrow> source_register src AND 0x07FF = ws_pin_number src"
proof -
  have "ucast (drop_bit 11 (source_register src) AND 0x1F) = io_src_of src AND 0x1F"
    unfolding source_register_def by (simp add: bits)
  also have "\<dots> = io_src_of src" by (auto simp: io_src_of_def wire_defs)
  finally show "ucast (drop_bit 11 (source_register src) AND 0x1F) = io_src_of src" .
  have "source_register src AND 0x07FF = ws_pin_number src AND 0x07FF"
    unfolding source_register_def by (simp add: bits)
  also assume "ws_pin_number src < 0x800"
  then have "ws_pin_number src AND 0x07FF = ws_pin_number src" by simp
  finally show "source_register src AND 0x07FF = ws_pin_number src" .
qed

lemma parse_source_register [simp]: "source_fits src \<Longrightarrow> parse_source (source_register src) src = src"
  unfolding parse_source_def source_register_parts(1) Let_def
  by (cases src) (auto simp: source_register_parts(2) source_fits_def io_src_of_def wire_defs)

text \<open>A parsed register always gives a source that fits, unless its mode is reserved.\<close>

lemma parse_source_fits: "source_fits src \<Longrightarrow> source_fits (parse_source reg src)"
proof -
  have "reg AND 0x07FF < 0x800"
    using and_mask_less_size [of 11 reg] by (simp add: mask_numeral word_size)
  then show "source_fits src \<Longrightarrow> source_fits (parse_source reg src)"
    by (auto simp: parse_source_def source_fits_def Let_def)
qed

definition wf_wakeup_cfg :: "wakeup_functional_config \<Rightarrow> bool" where
  "wf_wakeup_cfg cfg \<longleftrightarrow>
     length (wk_sources cfg) = kMaxWakeSources \<and> list_all source_fits (wk_sources cfg) \<and> wk_wup_status cfg < 0x100"

lemma render_parts:
  assumes "wf_wakeup_cfg cfg"
  shows "length (render_registers cfg) = kWakeupEpFuncLen"
    and "get_u16 (drop 2 (render_registers cfg)) = wk_ep_status cfg"
    and "get_u16 (drop 4 (render_registers cfg)) = wk_wup_status cfg"
    and "i < kMaxWakeSources \<Longrightarrow>
      get_u16 (drop (kWakeupRegSourceBase + i * 2) (render_registers cfg)) = source_register (wk_sources cfg ! i)"
proof -
  let ?reg = "\<lambda>i. put_u16 (source_register (wk_sources cfg ! i))"
  have "concat (List.map ?reg [0..<8]) = ?reg 0 @ ?reg 1 @ ?reg 2 @ ?reg 3 @ ?reg 4 @ ?reg 5 @ ?reg 6 @ ?reg 7"
    by (simp add: upt_8)
  then have r: "render_registers cfg = [of_nat kWakeupEpFuncLen, of_nat kMaxWakeSources] @ put_u16 (wk_ep_status cfg) @
      put_u16 (wk_wup_status cfg AND 0xFF) @ ?reg 0 @ ?reg 1 @ ?reg 2 @ ?reg 3 @ ?reg 4 @ ?reg 5 @ ?reg 6 @ ?reg 7"
    by (simp add: render_registers_def kMaxWakeSources_def)
  have m: "wk_wup_status cfg AND 0xFF = wk_wup_status cfg"
    using assms less_mask_eq [of "wk_wup_status cfg" 8] by (simp add: wf_wakeup_cfg_def mask_numeral)
  show "length (render_registers cfg) = kWakeupEpFuncLen"
    unfolding r by (simp add: kWakeupEpFuncLen_def kWakeupRegSourceBase_def kMaxWakeSources_def)
  show "get_u16 (drop 2 (render_registers cfg)) = wk_ep_status cfg" unfolding r by simp
  show "get_u16 (drop 4 (render_registers cfg)) = wk_wup_status cfg"
    unfolding r m by (simp add: put_u16_def)
  assume "i < kMaxWakeSources"
  then have "i \<in> {0, 1, 2, 3, 4, 5, 6, 7}" by (auto simp: kMaxWakeSources_def)
  then show "get_u16 (drop (kWakeupRegSourceBase + i * 2) (render_registers cfg)) = source_register (wk_sources cfg ! i)"
    unfolding r kWakeupRegSourceBase_def by (elim insertE) (simp_all add: put_u16_def)
qed

text \<open>The write-one-to-clear loop: every status bit that is written as one is cleared.\<close>

lemma clear_loop:
  fixes m w :: u16
  shows "bit (fold (\<lambda>i m. if w AND push_bit i 1 \<noteq> 0 then clear_source i m else m) [0..<n] m) k \<longleftrightarrow>
    bit m k \<and> \<not> (k < n \<and> k < 8 \<and> bit w k)"
proof (induction n)
  case (Suc n)
  then show ?case
    using and_single_bit [of n w] by (cases "n < 8") (auto simp: status_bits less_Suc_eq)
qed simp

definition touched :: "octets \<Rightarrow> nat \<Rightarrow> bool" where
  "touched payload a \<longleftrightarrow> unat (get_u16 payload) \<le> a \<and> a < unat (get_u16 payload) + (length payload - 2)"

lemma get_u16_drop:
  "a + 1 < length b \<Longrightarrow> get_u16 (drop a b) = push_bit 8 (ucast (b ! a)) OR ucast (b ! Suc a)"
  by (simp add: get_u16_def)

lemma overlaid_register:
  assumes "unat (get_u16 payload) + (length payload - 2) \<le> length block" "2 < length payload" "a + 1 < length block"
    and "\<not> touched payload a" "\<not> touched payload (Suc a)"
  shows "get_u16 (drop a (overlay ro (unat (get_u16 payload)) (drop 2 payload) block)) = get_u16 (drop a block)"
  using assms by (auto simp: get_u16_drop nth_overlay touched_def)

text \<open>
  What an accepted configuration write does to the wake-up endpoint: a source whose register it
  does not address stays as it is. The status is written with ones that clear; since a register
  that is not addressed is written back with the ones it reads, every write that leaves the status
  register alone clears it completely.
\<close>

lemma wakeup_write_exact:
  assumes "wf_wakeup_cfg cfg" "apply_reconfig payload cfg = (None, cfg')"
  shows "wf_wakeup_cfg cfg'"
    and "i < kMaxWakeSources \<Longrightarrow> \<not> touched payload (kWakeupRegSourceBase + i * 2) \<Longrightarrow>
      \<not> touched payload (Suc (kWakeupRegSourceBase + i * 2)) \<Longrightarrow> wk_sources cfg' ! i = wk_sources cfg ! i"
    and "\<not> touched payload 4 \<Longrightarrow> \<not> touched payload 5 \<Longrightarrow> wk_wup_status cfg' = 0"
proof -
  let ?b = "overlay wakeup_reg_offset_read_only (unat (get_u16 payload)) (drop 2 payload) (render_registers cfg)"
  have p: "2 < length payload" "unat (get_u16 payload) + (length payload - 2) \<le> kWakeupEpFuncLen"
      "cfg' = wakeup_parse_registers ?b cfg"
    using assms(2) by (auto simp: apply_reconfig_def block_reconfig_def kReconfigAddrLen_def Let_def split: if_splits)
  note r = render_parts [OF assms(1)]
  have reg: "get_u16 (drop a ?b) = get_u16 (drop a (render_registers cfg))"
    if "a + 1 < kWakeupEpFuncLen" "\<not> touched payload a" "\<not> touched payload (Suc a)" for a
    using that p(1,2) by (intro overlaid_register) (simp_all add: r(1))
  have fits: "source_fits (wk_sources cfg ! i)" if "i < kMaxWakeSources" for i
    using assms(1) that by (simp add: wf_wakeup_cfg_def list_all_length)
  have status: "bit (wk_wup_status cfg') k \<longleftrightarrow> bit (wk_wup_status cfg) k \<and> \<not> (k < 8 \<and> bit (get_u16 (drop 4 ?b)) k)" for k
    using clear_loop [of "get_u16 (drop 4 ?b)" 8 "wk_wup_status cfg" k]
    by (simp add: p(3) wakeup_parse_registers_def kMaxWakeSources_def Let_def)
  have low: "k < 8" if "bit (wk_wup_status cfg) k" for k
  proof -
    have "take_bit 8 (wk_wup_status cfg) = wk_wup_status cfg"
      using assms(1) less_mask_eq [of "wk_wup_status cfg" 8] by (simp add: wf_wakeup_cfg_def take_bit_eq_mask)
    then show ?thesis using that by (metis bit_take_bit_iff)
  qed
  have "take_bit 8 (wk_wup_status cfg') = wk_wup_status cfg'"
    by (rule bit_eqI) (use low in \<open>auto simp: bit_simps status\<close>)
  then have "wk_wup_status cfg' < 0x100"
    using and_mask_less_size [of 8 "wk_wup_status cfg'"] by (simp add: take_bit_eq_mask word_size)
  then show "wf_wakeup_cfg cfg'"
    using fits by (auto simp: wf_wakeup_cfg_def p(3) wakeup_parse_registers_def Let_def list_all_length
        intro: parse_source_fits)
  show "wk_sources cfg' ! i = wk_sources cfg ! i"
    if "i < kMaxWakeSources" "\<not> touched payload (kWakeupRegSourceBase + i * 2)"
      "\<not> touched payload (Suc (kWakeupRegSourceBase + i * 2))"
    using that fits [OF that(1)] reg [of "kWakeupRegSourceBase + i * 2"] r(4) [OF that(1)]
    by (simp add: p(3) wakeup_parse_registers_def Let_def kWakeupEpFuncLen_def)
  show "wk_wup_status cfg' = 0" if "\<not> touched payload 4" "\<not> touched payload 5"
    using reg [of 4] that status low
    by (auto intro!: bit_eqI simp: r(3) kWakeupEpFuncLen_def kWakeupRegSourceBase_def kMaxWakeSources_def)
qed

section \<open>Messages\<close>

definition encode_sleepcmd_request :: "u16 \<Rightarrow> u8 \<Rightarrow> octets" where
  "encode_sleepcmd_request byte_bus_id transaction_num =
     encode_acf_abb (acf_default\<lparr>a_byte_bus_id := byte_bus_id, a_transaction_num := transaction_num\<rparr>)
       [kSleepCmdOpcode]"

text \<open>The one-octet messages differ in their opcode only.\<close>

definition decode_opcode :: "u8 \<Rightarrow> u16 \<Rightarrow> octets \<Rightarrow> wakeup_errc + u8" where
  "decode_opcode opcode expected_bus_id b =
     (case open_abb Short_frame Bad_msg_type Wrong_bus expected_bus_id b of
        Inl ec \<Rightarrow> Inl ec
      | Inr (info, payload) \<Rightarrow>
          if payload = [] then Inl Short_frame
          else if payload ! 0 \<noteq> opcode then Inl Bad_opcode
          else Inr (a_transaction_num info))"

definition decode_sleepcmd_request :: "u16 \<Rightarrow> octets \<Rightarrow> wakeup_errc + u8" where
  "decode_sleepcmd_request expected_bus_id b = decode_opcode kSleepCmdOpcode expected_bus_id b"

datatype sleep_cmd_result = Ok | Refused

fun sleep_cmd_result_value :: "sleep_cmd_result \<Rightarrow> u8" where
  "sleep_cmd_result_value Ok = 0"
| "sleep_cmd_result_value Refused = 1"

definition encode_sleepcmd_response :: "u16 \<Rightarrow> sleep_cmd_result \<Rightarrow> u8 \<Rightarrow> octets" where
  "encode_sleepcmd_response byte_bus_id result transaction_num =
     (if result = Refused then build_error_response byte_bus_id transaction_num RequestCanceled
      else encode_acf_abb (acf_default\<lparr>a_byte_bus_id := byte_bus_id, a_rsp := True,
             a_transaction_num := transaction_num\<rparr>)
             [kSleepCmdOpcode, sleep_cmd_result_value result])"

definition decode_sleepcmd_response :: "u16 \<Rightarrow> octets \<Rightarrow> wakeup_errc + (sleep_cmd_result \<times> u8)" where
  "decode_sleepcmd_response expected_bus_id b =
     (case open_abb Short_frame Bad_msg_type Wrong_bus expected_bus_id b of
        Inl ec \<Rightarrow> Inl ec
      | Inr (info, payload) \<Rightarrow>
          if a_err info
          then (if payload = [] \<or> payload ! 0 \<noteq> wire_code RequestCanceled then Inl Bad_opcode
                else Inr (Refused, a_transaction_num info))
          else if length payload < 2 then Inl Short_frame
          else if payload ! 0 \<noteq> kSleepCmdOpcode then Inl Bad_opcode
          else Inr (if payload ! 1 = sleep_cmd_result_value Ok then Ok else Refused, a_transaction_num info))"

definition encode_wakeup_message :: "u16 \<Rightarrow> u8 \<Rightarrow> octets" where
  "encode_wakeup_message byte_bus_id transaction_num =
     encode_acf_abb (acf_default\<lparr>a_byte_bus_id := byte_bus_id, a_transaction_num := transaction_num\<rparr>)
       [kWakeupOpcode]"

definition decode_wakeup_message :: "u16 \<Rightarrow> octets \<Rightarrow> wakeup_errc + u8" where
  "decode_wakeup_message expected_bus_id b = decode_opcode kWakeupOpcode expected_bus_id b"

definition is_wakeup_echo :: "octets \<Rightarrow> u16 \<Rightarrow> u8 \<Rightarrow> bool" where
  "is_wakeup_echo b expected_bus_id sent_transaction_num =
     (case decode_wakeup_message expected_bus_id b of Inl ec \<Rightarrow> False | Inr txn \<Rightarrow> txn = sent_transaction_num)"

datatype wakeup_source = Unknown | Io | Wakepin | Network

fun wakeup_source_value :: "wakeup_source \<Rightarrow> u8" where
  "wakeup_source_value Unknown = 0"
| "wakeup_source_value Io = 1"
| "wakeup_source_value Wakepin = 2"
| "wakeup_source_value Network = 3"

definition kWakeupSourceIndexNa :: u8 where "kWakeupSourceIndexNa = 0xFF"

definition encode_wakeup_message_with_source :: "u16 \<Rightarrow> u8 \<Rightarrow> wakeup_source \<Rightarrow> u8 \<Rightarrow> octets" where
  "encode_wakeup_message_with_source byte_bus_id transaction_num source source_index =
     encode_acf_abb (acf_default\<lparr>a_byte_bus_id := byte_bus_id, a_transaction_num := transaction_num\<rparr>)
       [kWakeupOpcode, wakeup_source_value source, source_index]"

definition wakeup_source_of :: "u8 \<Rightarrow> wakeup_source option" where
  "wakeup_source_of v =
     (if v = wakeup_source_value Unknown then Some Unknown
      else if v = wakeup_source_value Io then Some Io
      else if v = wakeup_source_value Wakepin then Some Wakepin
      else if v = wakeup_source_value Network then Some Network
      else None)"

definition decode_wakeup_message_with_source ::
    "u16 \<Rightarrow> octets \<Rightarrow> wakeup_errc + (u8 \<times> wakeup_source \<times> u8)" where
  "decode_wakeup_message_with_source expected_bus_id b =
     (case open_abb Short_frame Bad_msg_type Wrong_bus expected_bus_id b of
        Inl ec \<Rightarrow> Inl ec
      | Inr (info, payload) \<Rightarrow>
          if length payload < 3 then Inl Short_frame
          else if payload ! 0 \<noteq> kWakeupOpcode then Inl Bad_opcode
          else (case wakeup_source_of (payload ! 1) of
                  None \<Rightarrow> Inl Bad_opcode
                | Some source \<Rightarrow> Inr (a_transaction_num info, source, payload ! 2)))"

interpretation sleepcmd_request: message_codec "encode_sleepcmd_request bus" "decode_sleepcmd_request bus"
    "\<lambda>txn. bus < 0x800" for bus
  by unfold_locales (simp add: encode_sleepcmd_request_def decode_sleepcmd_request_def decode_opcode_def)

interpretation sleepcmd_response: message_codec "\<lambda>(result, txn). encode_sleepcmd_response bus result txn"
    "decode_sleepcmd_response bus" "\<lambda>(result, txn). bus < 0x800" for bus
proof (unfold_locales, goal_cases)
  case (1 x)
  then show ?case
    by (cases x; cases "fst x") (auto simp: encode_sleepcmd_response_def decode_sleepcmd_response_def
        build_error_response_def encode_error_payload_def acf_default_def)
qed

interpretation wakeup_message: message_codec "encode_wakeup_message bus" "decode_wakeup_message bus"
    "\<lambda>txn. bus < 0x800" for bus
  by unfold_locales (simp add: encode_wakeup_message_def decode_wakeup_message_def decode_opcode_def)

interpretation wakeup_message_with_source: message_codec
    "\<lambda>(txn, source, source_index). encode_wakeup_message_with_source bus txn source source_index"
    "decode_wakeup_message_with_source bus" "\<lambda>(txn, source, source_index). bus < 0x800" for bus
proof (unfold_locales, goal_cases)
  case (1 x)
  then show ?case
    by (cases x; cases "fst (snd x)")
      (auto simp: encode_wakeup_message_with_source_def decode_wakeup_message_with_source_def wakeup_source_of_def)
qed

section \<open>The endpoint\<close>

record wakeup_endpoint =
  we_asleep :: bool
  we_wake_handshake_pending :: bool
  we_cfg :: wakeup_functional_config

definition handle_sleep_cmd :: "u8 \<Rightarrow> wakeup_endpoint \<Rightarrow> wakeup_errc option \<times> wakeup_endpoint" where
  "handle_sleep_cmd request_byte ep =
     (if request_byte \<noteq> kSleepCmdOpcode then (Some Bad_opcode, ep)
      else (None, ep\<lparr>we_asleep := True, we_wake_handshake_pending := False\<rparr>))"

definition record_wake_source_event :: "nat \<Rightarrow> wakeup_endpoint \<Rightarrow> wakeup_endpoint" where
  "record_wake_source_event source_index ep =
     ep\<lparr>we_cfg := (we_cfg ep)\<lparr>wk_wup_status := latch_source source_index (wk_wup_status (we_cfg ep))\<rparr>,
        we_asleep := False, we_wake_handshake_pending := True\<rparr>"

definition wakeup_message_pending :: "wakeup_endpoint \<Rightarrow> bool" where
  "wakeup_message_pending ep = we_wake_handshake_pending ep"

definition acknowledge_wakeup :: "wakeup_endpoint \<Rightarrow> wakeup_endpoint" where
  "acknowledge_wakeup ep = ep\<lparr>we_wake_handshake_pending := False\<rparr>"

end
