(* ===== verification/Powerstate.thy ===== *)
theory Powerstate
  imports Wakeup
begin

text \<open>
  The power modes of a device, \<open>include/rcp/powerstate.hpp\<close>: the manager with its four modes, the
  guards on entering a low-power mode, and the handshake by which a sleeping device wakes: it
  repeats its wake-up message until the network echoes it or a limit is reached.
\<close>

datatype power_mode = Normal | StandBy | Sleep | Unpowered

datatype start_kind = Hot | Cold

definition start_kind_on_exit :: "power_mode \<Rightarrow> start_kind" where
  "start_kind_on_exit from = (if from = StandBy then Hot else Cold)"

text \<open>The recovered state is a raw value, which may be none of the enumeration.\<close>

definition cold_start_lifecycle_target :: "u8 \<Rightarrow> server_state" where
  "cold_start_lifecycle_target recovered_state =
     (if recovered_state = server_state_code Hw_unconfigured then Hw_unconfigured
      else if recovered_state = server_state_code Hw_configured then Hw_configured
      else if recovered_state = server_state_code Rcp_configured then Rcp_configured
      else Hw_unconfigured)"

datatype power_errc =
    Invalid_transition | Unacknowledged_wakeup_event | Endpoint_not_idle | Response_ack_queue_not_empty
  | Not_asleep | Handshake_repeat_limit_exceeded | Network_not_available

datatype wake_stage = Idle | HandshakeActive | Complete | Failed

definition default_wakeup_repeat_limit :: u32 where "default_wakeup_repeat_limit = 8"

text \<open>
  The manager. Of the four hooks, the two checks are asked when a low-power mode is entered: their
  answers are arguments, \<open>None\<close> for a hook that is not set. The two actions are recorded in the
  order in which they are called, when they are set.
\<close>

datatype power_hook = Reenable_network_interface | Reenable_response_ack_queues

record power_manager =
  pm_hooks :: "power_hook list"
  pm_called :: "power_hook list"
  pm_wakeup_repeat_limit :: u32
  pm_mode :: power_mode
  pm_wake_stage :: wake_stage
  pm_wake_attempts :: u32

definition new_power_manager :: "power_hook list \<Rightarrow> u32 \<Rightarrow> power_manager" where
  "new_power_manager hooks limit =
     \<lparr>pm_hooks = hooks, pm_called = [], pm_wakeup_repeat_limit = limit, pm_mode = Normal,
      pm_wake_stage = Idle, pm_wake_attempts = 0\<rparr>"

definition call_hook :: "power_hook \<Rightarrow> power_manager \<Rightarrow> power_manager" where
  "call_hook hook pm = (if hook \<in> set (pm_hooks pm) then pm\<lparr>pm_called := pm_called pm @ [hook]\<rparr> else pm)"

text \<open>The manager holds a reference to the wake-up endpoint, so the state is the pair.\<close>

type_synonym power_system = "power_manager \<times> wakeup_endpoint"

definition pending_start_kind :: "power_manager \<Rightarrow> start_kind" where
  "pending_start_kind pm = start_kind_on_exit (pm_mode pm)"

definition enter_low_power ::
    "power_mode \<Rightarrow> bool option \<Rightarrow> bool option \<Rightarrow> power_system \<Rightarrow> power_errc option \<times> power_system" where
  "enter_low_power target endpoints_idle queues_empty s =
     (case s of (pm, ep) \<Rightarrow>
       if pm_mode pm \<noteq> Normal then (Some Invalid_transition, s)
       else if wakeup_message_pending ep then (Some Unacknowledged_wakeup_event, s)
       else if endpoints_idle = Some False then (Some Endpoint_not_idle, s)
       else if queues_empty = Some False then (Some Response_ack_queue_not_empty, s)
       else (None, pm\<lparr>pm_mode := target, pm_wake_stage := Idle\<rparr>, ep))"

definition enter_standby ::
    "bool option \<Rightarrow> bool option \<Rightarrow> power_system \<Rightarrow> power_errc option \<times> power_system" where
  "enter_standby endpoints_idle queues_empty = enter_low_power StandBy endpoints_idle queues_empty"

definition enter_sleep ::
    "bool option \<Rightarrow> bool option \<Rightarrow> power_system \<Rightarrow> power_errc option \<times> power_system" where
  "enter_sleep endpoints_idle queues_empty = enter_low_power Sleep endpoints_idle queues_empty"

definition resume_from_standby :: "power_system \<Rightarrow> power_errc option \<times> power_system" where
  "resume_from_standby s =
     (case s of (pm, ep) \<Rightarrow>
       if pm_mode pm \<noteq> StandBy then (Some Invalid_transition, s)
       else (None, pm\<lparr>pm_mode := Normal, pm_wake_stage := Idle\<rparr>, ep))"

definition begin_wake_from_sleep :: "bool \<Rightarrow> power_system \<Rightarrow> power_errc option \<times> power_system" where
  "begin_wake_from_sleep network_available s =
     (case s of (pm, ep) \<Rightarrow>
       if pm_mode pm \<noteq> Sleep then (Some Not_asleep, s)
       else if \<not> network_available then (Some Network_not_available, s)
       else (None, (call_hook Reenable_network_interface pm)
              \<lparr>pm_wake_attempts := 0, pm_wake_stage := HandshakeActive\<rparr>, ep))"

definition note_wakeup_attempt_sent :: "power_system \<Rightarrow> power_errc option \<times> power_system" where
  "note_wakeup_attempt_sent s =
     (case s of (pm, ep) \<Rightarrow>
       if pm_wake_stage pm \<noteq> HandshakeActive then (Some Not_asleep, s)
       else if \<not> wakeup_message_pending ep then (None, s)
       else
         (let pm = pm\<lparr>pm_wake_attempts := pm_wake_attempts pm + 1\<rparr> in
          if pm_wakeup_repeat_limit pm < pm_wake_attempts pm
          then (Some Handshake_repeat_limit_exceeded, pm\<lparr>pm_wake_stage := Failed\<rparr>, ep)
          else (None, pm, ep)))"

definition manager_acknowledge_wakeup :: "power_system \<Rightarrow> power_errc option \<times> power_system" where
  "manager_acknowledge_wakeup s =
     (case s of (pm, ep) \<Rightarrow>
       if pm_wake_stage pm \<noteq> HandshakeActive then (Some Not_asleep, s)
       else (None, (call_hook Reenable_response_ack_queues pm)
              \<lparr>pm_mode := Normal, pm_wake_stage := Complete\<rparr>, acknowledge_wakeup ep))"

definition notify_power_removed :: "power_system \<Rightarrow> power_system" where
  "notify_power_removed s = (case s of (pm, ep) \<Rightarrow> (pm\<lparr>pm_mode := Unpowered, pm_wake_stage := Idle\<rparr>, ep))"

definition notify_power_restored :: "power_system \<Rightarrow> power_system" where
  "notify_power_restored s = (case s of (pm, ep) \<Rightarrow> (pm\<lparr>pm_mode := Normal, pm_wake_stage := Idle\<rparr>, ep))"

lemma call_hook_keeps [simp]:
  "pm_mode (call_hook h pm) = pm_mode pm" "pm_wake_stage (call_hook h pm) = pm_wake_stage pm"
  "pm_wakeup_repeat_limit (call_hook h pm) = pm_wakeup_repeat_limit pm" "pm_hooks (call_hook h pm) = pm_hooks pm"
  "pm_called (call_hook h pm) = pm_called pm @ (if h \<in> set (pm_hooks pm) then [h] else [])"
  by (simp_all add: call_hook_def)

section \<open>Runs\<close>

text \<open>Every call on the manager, and the calls on the endpoint that other code makes meanwhile.\<close>

datatype power_call =
    EnterStandby "bool option" "bool option" | EnterSleep "bool option" "bool option" | Resume
  | BeginWake bool | AttemptSent | Acknowledge | PowerRemoved | PowerRestored
  | WakeEvent nat | SleepCmd u8 | EndpointAcknowledged

inductive power_step :: "power_system \<Rightarrow> power_call \<Rightarrow> power_errc option \<Rightarrow> power_system \<Rightarrow> bool" where
  standby: "enter_standby idle drained s = (ec, s') \<Longrightarrow> power_step s (EnterStandby idle drained) ec s'"
| sleep: "enter_sleep idle drained s = (ec, s') \<Longrightarrow> power_step s (EnterSleep idle drained) ec s'"
| resume: "resume_from_standby s = (ec, s') \<Longrightarrow> power_step s Resume ec s'"
| begin_wake: "begin_wake_from_sleep network s = (ec, s') \<Longrightarrow> power_step s (BeginWake network) ec s'"
| attempt: "note_wakeup_attempt_sent s = (ec, s') \<Longrightarrow> power_step s AttemptSent ec s'"
| acknowledge: "manager_acknowledge_wakeup s = (ec, s') \<Longrightarrow> power_step s Acknowledge ec s'"
| removed: "power_step s PowerRemoved None (notify_power_removed s)"
| restored: "power_step s PowerRestored None (notify_power_restored s)"
| wake_event: "power_step (pm, ep) (WakeEvent i) None (pm, record_wake_source_event i ep)"
| sleep_cmd: "handle_sleep_cmd b ep = (ec, ep') \<Longrightarrow> power_step (pm, ep) (SleepCmd b) None (pm, ep')"
| endpoint_acknowledged: "power_step (pm, ep) EndpointAcknowledged None (pm, acknowledge_wakeup ep)"

inductive_cases power_stepE: "power_step s call ec s'"

inductive reachable_power :: "power_system \<Rightarrow> bool" where
  start: "reachable_power (new_power_manager hooks limit, ep)"
| step: "reachable_power s \<Longrightarrow> power_step s call ec s' \<Longrightarrow> reachable_power s'"

lemmas power_ops =
  enter_standby_def enter_sleep_def enter_low_power_def resume_from_standby_def begin_wake_from_sleep_def
  note_wakeup_attempt_sent_def manager_acknowledge_wakeup_def notify_power_removed_def notify_power_restored_def

text \<open>The combinations of mode and stage, and the count of attempts while the handshake runs.\<close>

definition power_consistent :: "power_manager \<Rightarrow> bool" where
  "power_consistent pm \<longleftrightarrow>
     (case pm_wake_stage pm of
        Idle \<Rightarrow> True
      | HandshakeActive \<Rightarrow> pm_mode pm = Sleep \<and> pm_wake_attempts pm \<le> pm_wakeup_repeat_limit pm
      | Complete \<Rightarrow> pm_mode pm = Normal
      | Failed \<Rightarrow> pm_mode pm = Sleep)"

lemma power_step_consistent:
  "power_step s call ec s' \<Longrightarrow> power_consistent (fst s) \<Longrightarrow> power_consistent (fst s')"
  by (erule power_stepE)
    (auto simp: power_ops power_consistent_def Let_def split: if_splits wake_stage.splits prod.splits)

lemma reachable_power_consistent: "reachable_power s \<Longrightarrow> power_consistent (fst s)"
proof (induction rule: reachable_power.induct)
  case (start hooks limit ep)
  then show ?case by (simp add: new_power_manager_def power_consistent_def)
next
  case (step s call ec s')
  then show ?case by (meson power_step_consistent)
qed

text \<open>
  C24. The power modes. In every reachable state the handshake runs, or has failed, only in Sleep, with
  at most the configured number of attempts. A step changes the mode only along these arrows: into
  StandBy or Sleep from Normal, on request, with no wake-up event unacknowledged and no check
  refusing; from StandBy back to Normal on request; from Sleep to Normal only by the acknowledgement of a
  running handshake, which settles the wake-up event and then re-enables the response queues; to
  Unpowered and from any mode to Normal by the hardware events.
\<close>

theorem power_mode_changes:
  assumes "reachable_power s" "power_step s call ec s'"
  shows "power_consistent (fst s') \<and>
    (pm_mode (fst s') = pm_mode (fst s) \<or>
     ec = None \<and>
     (case call of
        EnterStandby idle drained \<Rightarrow> pm_mode (fst s) = Normal \<and> pm_mode (fst s') = StandBy \<and>
          \<not> wakeup_message_pending (snd s) \<and> idle \<noteq> Some False \<and> drained \<noteq> Some False
      | EnterSleep idle drained \<Rightarrow> pm_mode (fst s) = Normal \<and> pm_mode (fst s') = Sleep \<and>
          \<not> wakeup_message_pending (snd s) \<and> idle \<noteq> Some False \<and> drained \<noteq> Some False
      | Resume \<Rightarrow> pm_mode (fst s) = StandBy \<and> pm_mode (fst s') = Normal
      | Acknowledge \<Rightarrow> pm_mode (fst s) = Sleep \<and> pm_mode (fst s') = Normal \<and>
          pm_wake_stage (fst s) = HandshakeActive \<and> \<not> wakeup_message_pending (snd s') \<and>
          pm_called (fst s') = pm_called (fst s) @
            (if Reenable_response_ack_queues \<in> set (pm_hooks (fst s)) then [Reenable_response_ack_queues] else [])
      | PowerRemoved \<Rightarrow> pm_mode (fst s') = Unpowered
      | PowerRestored \<Rightarrow> pm_mode (fst s') = Normal
      | _ \<Rightarrow> False))"
proof -
  have "power_consistent (fst s)" using assms(1) by (rule reachable_power_consistent)
  then show ?thesis
    using assms(2) power_step_consistent [OF assms(2)]
    by (cases call) (auto elim!: power_stepE simp: power_ops power_consistent_def wakeup_message_pending_def
      acknowledge_wakeup_def Let_def split: if_splits prod.splits)
qed

section \<open>The handshake ends\<close>

text \<open>\<open>n\<close> attempts in a row: the results and the state after them.\<close>

primrec attempts :: "nat \<Rightarrow> power_system \<Rightarrow> power_errc option list \<times> power_system" where
  "attempts 0 s = ([], s)"
| "attempts (Suc n) s =
     (case note_wakeup_attempt_sent s of (ec, s') \<Rightarrow> apfst ((#) ec) (attempts n s'))"

lemma attempts_inactive:
  "pm_wake_stage pm \<noteq> HandshakeActive \<Longrightarrow> attempts n (pm, ep) = (replicate n (Some Not_asleep), pm, ep)"
  by (induction n) (simp_all add: note_wakeup_attempt_sent_def)

lemma attempts_active:
  assumes "pm_wake_stage pm = HandshakeActive" "wakeup_message_pending ep"
    and "unat (pm_wake_attempts pm) + k = unat (pm_wakeup_repeat_limit pm)"
    and "pm_wakeup_repeat_limit pm \<noteq> 0xFFFFFFFF"
  shows "fst (attempts n (pm, ep)) = replicate (min n k) None @
      (if n \<le> k then [] else Some Handshake_repeat_limit_exceeded # replicate (n - k - 1) (Some Not_asleep)) \<and>
    pm_mode (fst (snd (attempts n (pm, ep)))) = pm_mode pm \<and>
    pm_wake_stage (fst (snd (attempts n (pm, ep)))) = (if n \<le> k then HandshakeActive else Failed)"
  using assms
proof (induction n arbitrary: pm k)
  case (Suc n)
  let ?limit = "pm_wakeup_repeat_limit pm" and ?a = "pm_wake_attempts pm"
  have limit: "unat ?limit < 2 ^ 32 - 1"
  proof -
    have "unat ?limit \<noteq> unat (0xFFFFFFFF :: u32)"
      using Suc.prems(4) by (simp only: word_eq_iff_unsigned [where 'a = nat] not_False_eq_True)
    moreover have "unat ?limit < 2 ^ 32" using unsigned_less [where 'a = nat, of ?limit] by simp
    ultimately show ?thesis by simp
  qed
  have inc: "unat (?a + 1) = unat ?a + 1"
    using Suc.prems(3) limit by (simp add: unat_word_ariths take_bit_nat_eq_self)
  show ?case
  proof (cases k)
    case 0
    then have "?limit < ?a + 1" using Suc.prems(3) inc by (simp add: word_less_nat_alt)
    then show ?thesis
      using Suc.prems(1,2) 0 by (simp add: note_wakeup_attempt_sent_def Let_def attempts_inactive)
  next
    case (Suc j)
    let ?pm = "pm\<lparr>pm_wake_attempts := ?a + 1\<rparr>"
    have "\<not> ?limit < ?a + 1" using Suc.prems(3) inc Suc by (simp add: word_less_nat_alt)
    then have "note_wakeup_attempt_sent (pm, ep) = (None, ?pm, ep)"
      using Suc.prems(1,2) by (simp add: note_wakeup_attempt_sent_def Let_def)
    moreover have "unat (pm_wake_attempts ?pm) + j = unat (pm_wakeup_repeat_limit ?pm)"
      using Suc.prems(3) inc Suc by simp
    ultimately show ?thesis
      using Suc.IH [of ?pm j] Suc.prems Suc by simp
  qed
qed simp

text \<open>
  C34. A sleeping device that never gets its wake-up message echoed gives up: after the handshake has
  begun, exactly \<open>limit\<close> attempts are allowed, the next one is refused with the repeat limit and
  fails the handshake, and any further one is refused because none is running. The device stays in
  Sleep throughout. (A limit of all ones would let the 32-bit counter wrap.)
\<close>

theorem wake_handshake_bounded:
  assumes "pm_mode pm = Sleep" "wakeup_message_pending ep" "pm_wakeup_repeat_limit pm \<noteq> 0xFFFFFFFF"
    and "begin_wake_from_sleep True (pm, ep) = (ec, s)"
  shows "(let limit = unat (pm_wakeup_repeat_limit pm); (results, pm', ep') = attempts n s in
    ec = None \<and>
    results = replicate (min n limit) None @
      (if n \<le> limit then [] else Some Handshake_repeat_limit_exceeded # replicate (n - limit - 1) (Some Not_asleep)) \<and>
    pm_mode pm' = Sleep \<and> pm_wake_stage pm' = (if n \<le> limit then HandshakeActive else Failed))"
proof -
  obtain pm1 :: power_manager where pm1: "s = (pm1, ep)" "pm_wake_stage pm1 = HandshakeActive"
      "pm_wake_attempts pm1 = 0" "pm_mode pm1 = Sleep" "pm_wakeup_repeat_limit pm1 = pm_wakeup_repeat_limit pm"
    using assms(1,4) by (auto simp: begin_wake_from_sleep_def)
  have "ec = None" using assms(1,4) by (auto simp: begin_wake_from_sleep_def)
  then show ?thesis
    using attempts_active [of pm1 ep "unat (pm_wakeup_repeat_limit pm)" n] assms(2,3) pm1
    by (cases "attempts n s") (auto simp: Let_def)
qed

definition asleep_example :: power_system where
  "asleep_example =
     (new_power_manager [] 1\<lparr>pm_mode := Sleep\<rparr>,
      \<lparr>we_asleep = True, we_wake_handshake_pending = True,
       we_cfg = \<lparr>ep_enable = False, ep_clear_req_storage = False, ep_req_crc_enable = False,
         ep_response_ts_enable = False, ep_suppress_response = False, wk_sources = [], wk_ep_status = 0,
         wk_wup_status = 0, wk_repetition_time_us = 0\<rparr>\<rparr>)"

lemma power_mode_changes_witness:
  "\<exists>s'. power_step (new_power_manager [] 1, acknowledge_wakeup (snd asleep_example)) (EnterSleep None (Some True)) None s' \<and>
     pm_mode (fst s') = Sleep \<and> power_consistent (fst s')"
proof -
  let ?pm = "new_power_manager [] 1" and ?ep = "acknowledge_wakeup (snd asleep_example)"
  have "enter_sleep None (Some True) (?pm, ?ep) = (None, ?pm\<lparr>pm_mode := Sleep\<rparr>, ?ep)"
    by (simp add: power_ops new_power_manager_def wakeup_message_pending_def acknowledge_wakeup_def)
  from power_step.sleep [OF this] have "power_step (?pm, ?ep) (EnterSleep None (Some True)) None (?pm\<lparr>pm_mode := Sleep\<rparr>, ?ep)" .
  moreover from power_mode_changes [OF reachable_power.start this]
  have "power_consistent (fst (?pm\<lparr>pm_mode := Sleep\<rparr>, ?ep))" by (rule conjunct1)
  ultimately show ?thesis by (intro exI [of _ "(?pm\<lparr>pm_mode := Sleep\<rparr>, ?ep)"]) simp
qed

lemma wake_handshake_bounded_witness:
  "fst (attempts 3 (snd (begin_wake_from_sleep True asleep_example))) =
     [None, Some Handshake_repeat_limit_exceeded, Some Not_asleep]"
  using wake_handshake_bounded [of "fst asleep_example" "snd asleep_example" _ _ 3, OF _ _ _ surjective_pairing]
  by (simp add: asleep_example_def new_power_manager_def wakeup_message_pending_def Let_def
      split: prod.splits)

end
