(* ===== verification/Endpoint_Types.thy ===== *)
theory Endpoint_Types
  imports I2c Gpio Spi Adc Pwm Uart Lin Iseled Can Mdio Wakeup
begin

text \<open>
  What all endpoint types have in common, stated for the operations of each: what a configuration
  write does to the registers, and that the messages survive the wire.
\<close>

section \<open>Configuration writes\<close>

text \<open>
  C38. A configuration write changes exactly the registers it addresses, for the I2C, GPIO, SPI, ADC, PWM
  output, PWM input, UART, LIN, ISELED, CAN and MDIO endpoint (not for the wake-up endpoint, whose status
  register is cleared by writing ones: there \<open>Wakeup.wakeup_write_exact\<close> says what a write does). A payload without data and one that leaves the block are refused and change nothing; otherwise
  every addressed writable register reads back as the octet written, reduced to the bits it has,
  and every other register, also each read-only one, reads as before.
\<close>

theorem config_writes_exact:
  "config_write_exact I2c.apply_reconfig I2c.render_registers I2c.kEpFuncLen I2c.reg_offset_read_only
     kept_flags (\<lambda>_. True) I2c.Short_payload I2c.Out_of_range \<and>
   config_write_exact Gpio.apply_reconfig Gpio.render_registers kGpioEpFuncLen gpio_reg_offset_read_only
     kept_flags wf_gpio_cfg Gpio.Reconfig_short Gpio.Reconfig_out_of_range \<and>
   config_write_exact Spi.apply_reconfig Spi.render_registers Spi.kEpFuncLen Spi.reg_offset_read_only
     kept_bits wf_spi_cfg Spi.Short_payload Spi.Out_of_range \<and>
   config_write_exact Adc.apply_reconfig Adc.render_registers kAdcEpFuncLen adc_reg_offset_read_only
     kept_flags (\<lambda>_. True) Adc.Reconfig_short Adc.Reconfig_out_of_range \<and>
   config_write_exact Pwm.apply_reconfig_out Pwm.render_out kPwmOutEpFuncLen pwm_out_reg_offset_read_only
     kept_flags (\<lambda>_. True) Pwm.Reconfig_short Pwm.Reconfig_out_of_range \<and>
   config_write_exact Pwm.apply_reconfig_in Pwm.render_in kPwmInEpFuncLen pwm_in_reg_offset_read_only
     kept_flags (\<lambda>_. True) Pwm.Reconfig_short Pwm.Reconfig_out_of_range \<and>
   config_write_exact Uart.apply_reconfig Uart.render_registers kUartEpFuncLen Uart.reg_offset_read_only
     kept_line (\<lambda>_. True) Uart.Short_payload Uart.Out_of_range \<and>
   config_write_exact Lin.apply_reconfig Lin.render_registers kLinEpFuncLen Lin.reg_offset_read_only
     kept_flags (\<lambda>_. True) Lin.Short_payload Lin.Out_of_range \<and>
   config_write_exact Iseled.apply_reconfig Iseled.render_registers kIseledEpFuncLen Iseled.reg_offset_read_only
     kept_clock (\<lambda>_. True) Iseled.Short_payload Iseled.Out_of_range \<and>
   config_write_exact Can.apply_reconfig Can.render_registers kCanEpFuncLen Can.reg_offset_read_only
     kept_flags (\<lambda>_. True) Can.Short_payload Can.Out_of_range \<and>
   config_write_exact Mdio.apply_reconfig Mdio.render_registers kMdioEpFuncLen Mdio.reg_offset_read_only
     kept_flags (\<lambda>_. True) Mdio.Short_payload Mdio.Out_of_range"
  unfolding I2c.apply_reconfig_def [abs_def] Gpio.apply_reconfig_def [abs_def] Spi.apply_reconfig_def [abs_def]
    Adc.apply_reconfig_def [abs_def] Pwm.apply_reconfig_out_def [abs_def] Pwm.apply_reconfig_in_def [abs_def]
    Uart.apply_reconfig_def [abs_def] Lin.apply_reconfig_def [abs_def] Iseled.apply_reconfig_def [abs_def]
    Can.apply_reconfig_def [abs_def] Mdio.apply_reconfig_def [abs_def]
  by (intro conjI i2c_block.reconfig_exact gpio_block.reconfig_exact spi_block.reconfig_exact
      adc_block.reconfig_exact pwm_out_block.reconfig_exact pwm_in_block.reconfig_exact
      uart_block.reconfig_exact lin_block.reconfig_exact iseled_block.reconfig_exact can_block.reconfig_exact
      mdio_block.reconfig_exact)

section \<open>Messages\<close>

text \<open>The messages of a codec that are not longer than one ACF message can be.\<close>

definition delivered :: "('a \<Rightarrow> octets) \<Rightarrow> (octets \<Rightarrow> 'e + 'a) \<Rightarrow> ('a \<Rightarrow> bool) \<Rightarrow> bool" where
  "delivered enc dec valid \<longleftrightarrow>
     (\<forall>x. valid x \<and> length (enc x) \<le> kAcfMaxQuadlets * 4 \<longrightarrow> dec (enc x) = Inr x)"

lemma codec_delivers: "message_codec enc dec valid \<Longrightarrow> delivered enc dec valid"
  by (simp add: delivered_def message_codec_def)

lemma pwm_in_response_delivered:
  "delivered (\<lambda>(v, timed, ts, txn). encode_pwm_in_response bus v txn timed ts) (decode_pwm_in_response bus)
     (\<lambda>(v, timed, ts, txn). bus < 0x800 \<and> (timed \<or> ts = 0))"
  using codec_delivers [OF pwm_response.message_codec_axioms]
  by (simp add: encode_pwm_in_response_def decode_pwm_in_response_def delivered_def)


section \<open>Long responses\<close>



end
