(* ===== verification/Mock.thy ===== *)
theory Mock
  imports I2c Gpio Spi Adc Pwm Uart Lin Iseled Can Mdio Server_Store Ep0 E2e RespQueue Discovery Watchdog
begin

text \<open>
  The RC server that joins the parts, \<open>include/rcp/mock.hpp\<close>: its register map and lifecycle, ten
  endpoints, each behind an admission queue, and the dispatch of a decoded request to the endpoint
  it addresses. The dispatch of protected messages, fragments and whole frames is in the theories
  \<open>Mock_E2e\<close> and \<open>Mock_Frame\<close>.
\<close>

section \<open>Result codes\<close>

datatype dispatch_errc =
    Dispatch_queued | Dispatch_pending | Dispatch_cancelled | Dispatch_suspended | Dispatch_seq_error
  | Dispatch_stream_faulted | Dispatch_fragment_pending | Dispatch_fragment_rejected
  | Dispatch_response_fragmented | Dispatch_unknown_bus | Dispatch_chain_error | Dispatch_chain_aborted

text \<open>A \<open>std::error_code\<close> of any of the categories that a dispatch can return.\<close>

datatype code =
    Core error | Gpio_code gpio_errc | Spi_code spi_errc | I2c_code i2c_errc | Adc_code adc_errc
  | Pwm_code pwm_errc | Lin_code lin_errc | Can_code can_errc | Uart_code uart_errc
  | Iseled_code iseled_errc | Mdio_code mdio_errc | Dispatch_code dispatch_errc

definition wire_error_code_for :: "code \<Rightarrow> wire_error_code" where
  "wire_error_code_for ec =
     (if ec = Core (Regmap_err Unauthorized_access) then UnauthorizedAccess
      else if ec = Core (Regmap_err Locked_mem_access) then LockedMemAccess
      else if ec = Core (Regmap_err Request_rejected) then RequestRejected
      else if ec = Core (Regmap_err Invalid_parameter) then InvalidParameter
      else if ec = Core (Avtp_err Short_buffer) then InvalidParameter
      else if ec = Gpio_code Gpio.Pin_index_out_of_range then InvalidParameter
      else if ec = Spi_code Spi.Bad_channel then UnsupportedCmd
      else if ec = Core (Endpoint_err Reserved_evt_row2) then UnsupportedCmd
      else if ec = I2c_code I2c.Config_write_not_supported then UnsupportedCmd
      else if ec = I2c_code I2c.Nack then EpError
      else if ec = Adc_code Adc.Reconfig_short \<or> ec = Adc_code Adc.Reconfig_out_of_range then InvalidParameter
      else if ec = Adc_code Adc.No_signal then EpError
      else if ec = Pwm_code Pwm.Config_write_not_supported then UnsupportedCmd
      else if ec = Pwm_code Pwm.No_signal then PwmInNoSignal
      else if ec = Lin_code Lin.Config_write_not_supported then UnsupportedCmd
      else if ec = Lin_code Lin.No_response then EpError
      else if ec = Can_code Can.Config_write_not_supported then UnsupportedCmd
      else if ec = Can_code Can.Identifier_out_of_range then InvalidParameter
      else if ec = Can_code Can.Payload_exceeds_format_limit then InvalidParameter
      else if ec = Can_code Can.Xl_payload_exceeds_single_avtpdu_bound then EpError
      else if ec = Uart_code Uart.Config_write_not_supported then UnsupportedCmd
      else if ec = Uart_code Uart.Read_size_exceeds_bound then InvalidParameter
      else if ec = Uart_code Uart.Tx_queue_overflow then InvalidParameter
      else if ec = Iseled_code Iseled.Config_write_not_supported then UnsupportedCmd
      else if ec = Mdio_code Mdio.Config_write_not_supported then UnsupportedCmd
      else if ec = Mdio_code Mdio.Payload_exceeds_mode_width then InvalidParameter
      else UnsupportedCmd)"

text \<open>\<open>AdmitRejectShape::AcknowledgeRejected\<close> and \<open>ErrorResponse\<close>.\<close>

datatype admit_reject_shape = Shape_acknowledge_rejected | Shape_error_response

definition admission_reject_response_shape :: "wire_error_code \<Rightarrow> admit_reject_shape" where
  "admission_reject_response_shape ec =
     (if ec = UnsupportedCmd then Shape_error_response else Shape_acknowledge_rejected)"

definition make_acknowledge_rejected_response :: "acf_info \<Rightarrow> acf_info" where
  "make_acknowledge_rejected_response req = (make_response req Acknowledge)\<lparr>a_err := True\<rparr>"

text \<open>
  The out-parameters of a dispatch, the response's header and payload; the default header, which is
  no response, stands for nothing to send. A dispatch returns its code, \<open>None\<close> for success, with
  the response.
\<close>

type_synonym reply = "acf_info \<times> octets"

type_synonym dispatched = "code option \<times> reply"

definition no_reply :: reply where "no_reply = (acf_default, [])"

definition error_reply :: "acf_info \<Rightarrow> wire_error_code \<Rightarrow> reply" where
  "error_reply req ec = (make_response req ErrorResponse, encode_error_payload ec)"

definition set_error_response :: "acf_info \<Rightarrow> code \<Rightarrow> dispatched" where
  "set_error_response req ec = (Some ec, error_reply req (wire_error_code_for ec))"

section \<open>The endpoints' numbers\<close>

definition kGpioByteBusId :: u16 where "kGpioByteBusId = 1"
definition kSpiByteBusId :: u16 where "kSpiByteBusId = 2"
definition kI2cByteBusId :: u16 where "kI2cByteBusId = 3"
definition kAdcByteBusId :: u16 where "kAdcByteBusId = 4"
definition kPwmInByteBusId :: u16 where "kPwmInByteBusId = 5"
definition kLinByteBusId :: u16 where "kLinByteBusId = 6"
definition kCanByteBusId :: u16 where "kCanByteBusId = 7"
definition kUartByteBusId :: u16 where "kUartByteBusId = 8"
definition kIseledByteBusId :: u16 where "kIseledByteBusId = 9"
definition kMdioByteBusId :: u16 where "kMdioByteBusId = 10"

lemmas bus_ids = kGpioByteBusId_def kSpiByteBusId_def kI2cByteBusId_def kAdcByteBusId_def kPwmInByteBusId_def
  kLinByteBusId_def kCanByteBusId_def kUartByteBusId_def kIseledByteBusId_def kMdioByteBusId_def

definition kEp0PartialReadLen :: nat where "kEp0PartialReadLen = 4"

text \<open>
  The ten admission queues are members named after their endpoints; here they are a list in the
  order of the endpoints' numbers, and \<open>admission\<close> finds the index instead of the pointer.
\<close>

definition admission_index :: "u16 \<Rightarrow> nat option" where
  "admission_index byte_bus_id =
     (if byte_bus_id = kGpioByteBusId then Some 0
      else if byte_bus_id = kSpiByteBusId then Some 1
      else if byte_bus_id = kI2cByteBusId then Some 2
      else if byte_bus_id = kAdcByteBusId then Some 3
      else if byte_bus_id = kPwmInByteBusId then Some 4
      else if byte_bus_id = kLinByteBusId then Some 5
      else if byte_bus_id = kCanByteBusId then Some 6
      else if byte_bus_id = kUartByteBusId then Some 7
      else if byte_bus_id = kIseledByteBusId then Some 8
      else if byte_bus_id = kMdioByteBusId then Some 9
      else None)"

section \<open>The server\<close>

text \<open>
  The register map and the lifecycle are in \<open>mk_ep0\<close>, which refers to both. The arrays that hold
  something for every request stream have an entry for each of the 64 the table may have.
\<close>

record mock_server =
  mk_ep0 :: ep0
  mk_gpio :: gpio_endpoint
  mk_spi :: spi_endpoint
  mk_i2c :: i2c_endpoint
  mk_adc :: "adc_avg_value list"
  mk_adc_cfg :: adc_functional_config
  mk_pwm_in :: pwm_in_endpoint
  mk_lin :: lin_endpoint
  mk_can :: can_endpoint
  mk_uart :: uart_endpoint
  mk_iseled :: iseled_endpoint
  mk_mdio :: mdio_endpoint
  mk_admissions :: "server_endpoint list"
  mk_gptp :: gptp_trigger_state
  mk_claim :: discovery_claim
  mk_faults :: fault_tracker
  mk_seq :: "rx_sequence_guard list"
  mk_watchdogs :: "rx_watchdog list"
  mk_status :: "stream_status list"
  mk_reassemblers :: "reassembler list"
  mk_first_headers :: "octets list"
  mk_resp_queues :: "resp_queue list"
  mk_spi_poci :: "octets list"
  mk_i2c_response :: octets
  mk_i2c_acked :: bool
  mk_adc_samples :: "u16 list"
  mk_lin_response :: octets
  mk_lin_responded :: bool
  mk_iseled_response :: octets

definition mk_regs :: "mock_server \<Rightarrow> register_map" where
  "mk_regs s = e0_regs (mk_ep0 s)"

definition set_regs :: "register_map \<Rightarrow> mock_server \<Rightarrow> mock_server" where
  "set_regs regs s = s\<lparr>mk_ep0 := (mk_ep0 s)\<lparr>e0_regs := regs\<rparr>\<rparr>"

definition mk_lifecycle :: "mock_server \<Rightarrow> server_lifecycle" where
  "mk_lifecycle s = e0_lifecycle (mk_ep0 s)"

definition set_admission :: "nat \<Rightarrow> server_endpoint \<Rightarrow> mock_server \<Rightarrow> mock_server" where
  "set_admission i ep s = s\<lparr>mk_admissions := (mk_admissions s)[i := ep]\<rparr>"

definition admission_of :: "u16 \<Rightarrow> mock_server \<Rightarrow> server_endpoint option" where
  "admission_of byte_bus_id s = map_option ((!) (mk_admissions s)) (admission_index byte_bus_id)"

definition operational_requests_allowed :: "mock_server \<Rightarrow> bool" where
  "operational_requests_allowed s \<longleftrightarrow> lc_state (mk_lifecycle s) = Rcp_configured"

subsection \<open>Its initial state\<close>

definition generic_config_zero :: endpoint_generic_config where
  "generic_config_zero =
     \<lparr>eg_ep_type = 0, eg_ep_used = False, eg_ep_delay_time = 0, eg_ep_req_storage_size = 0,
      eg_ep_description = 0, eg_ep_tx_buffer_size = 0, eg_ep_rx_buffer_size = 0,
      eg_ep_req_crc_enable = False, eg_ep_ack_crc_enable = False, eg_ep_response_crc_enable = False\<rparr>"

definition table_pointer_zero :: table_pointer where
  "table_pointer_zero = \<lparr>tp_offset = 0, tp_capacity = 0\<rparr>"

definition subsystem_zero :: optional_subsystem_cfg where
  "subsystem_zero = \<lparr>os_data = [], os_len = 0\<rparr>"

definition make_initial_register_map :: register_map where
  "make_initial_register_map =
     \<lparr>rm_general = general_map_default\<lparr>gm_svr_ep_count := 10, gm_svr_ep_bytebus_id_map_capacity := 10\<rparr>,
      rm_svr_ep_cfg = \<lparr>sc_discovery_timeout = 20000, sc_ep_status = 0\<rparr>,
      rm_hw_pin_map_table = table_pointer_zero, rm_request_stream_table = table_pointer_zero,
      rm_response_stream_table = table_pointer_zero, rm_ep_id_mapping_table = table_pointer_zero,
      rm_functional_config_table = table_pointer_zero,
      rm_hw_pin_map = [], rm_request_streams = [], rm_response_streams = [],
      rm_ep_id_mapping =
        map (\<lambda>i. \<lparr>em_ep_id = of_nat i, em_byte_bus_id = of_nat i, em_request_stream_index = 1,
                  em_crc_required = False\<rparr>) [1..<11],
      rm_functional_configs = replicate 10 [],
      rm_generic_configs = replicate 10 generic_config_zero,
      rm_sequencer_states = [],
      rm_network_interface_cfg = subsystem_zero, rm_physical_layer_cfg = subsystem_zero,
      rm_time_synch_cfg = subsystem_zero, rm_security_cfg = subsystem_zero\<rparr>"

text \<open>The default-initialised members.\<close>

definition adc_config_zero :: adc_functional_config where
  "adc_config_zero =
     \<lparr>ep_enable = False, ep_clear_req_storage = False, ep_req_crc_enable = False,
      ep_response_ts_enable = False, ep_suppress_response = False,
      adc_samples_per_avg_interval = 0, adc_avg_intervals_per_request = 0, adc_combine_avg_values = 0,
      adc_ep_status = 0, adc_base_clk_divider = 0, adc_sample_interval = 0, adc_resolution = 0,
      adc_trigger_min = 0, adc_trigger_max = 0\<rparr>"

definition new_pwm_in_endpoint :: pwm_in_endpoint where
  "new_pwm_in_endpoint =
     \<lparr>pn_last_value = \<lparr>pw_period = 0, pw_active_duration = 0\<rparr>, pn_has_signal = False,
      pn_triggers = new_registry,
      pn_cfg = \<lparr>ep_enable = False, ep_clear_req_storage = False, ep_req_crc_enable = False,
        ep_response_ts_enable = False, ep_suppress_response = False, pi_trigger = None_in, pi_base_clk = 0,
        pi_ep_status = 0, pi_clk_divider = 0, pi_flags = 0, pi_max_period = 0\<rparr>\<rparr>"

definition new_lin_endpoint :: lin_endpoint where
  "new_lin_endpoint =
     \<lparr>le_triggers = new_registry, le_last_out = [], le_last_in = [],
      le_cfg = \<lparr>ep_enable = False, ep_clear_req_storage = False, ep_req_crc_enable = False,
        ep_response_ts_enable = False, ep_suppress_response = False, ln_clk_divider = 0,
        ln_trigger = Lin.TriggerNone, ln_ep_status = 0, ln_wire_clk_divider = 0\<rparr>\<rparr>"

definition can_frame_default :: can_data_frame where
  "can_frame_default =
     \<lparr>cf_format = Cbff, cf_arbitration_id = 0, cf_xl_header = \<lparr>xl_sdt = 0, xl_vcid = 0, xl_af = 0\<rparr>, cf_data = []\<rparr>"

definition new_can_endpoint :: can_endpoint where
  "new_can_endpoint =
     (let phase = \<lparr>bt_prescaler = 0, bt_prop_seg = 0, bt_phase_seg1 = 0, bt_phase_seg2 = 0, bt_sync_jump_width = 0\<rparr>
      in \<lparr>ce_cfg = \<lparr>ep_enable = False, ep_clear_req_storage = False, ep_req_crc_enable = False,
            ep_response_ts_enable = False, ep_suppress_response = False,
            ca_timing = \<lparr>tc_arbitration = phase, tc_fd_data = phase, tc_xl_data = phase\<rparr>,
            ca_delay_comp_enable = False, ca_delay_comp_offset = 0, ca_exec_delay_clk_divider = 0,
            ca_xl_filters = replicate kMaxXlFilters \<lparr>xf_id = 0, xf_mask = 0, xf_enable = False\<rparr>,
            ca_ep_status = 0, ca_status = 0, ca_fifo_status = 0, ca_xl_new_pl_provisioned = False\<rparr>,
          ce_filters = [], ce_last_tx = can_frame_default, ce_last_rx = can_frame_default\<rparr>)"

definition mdio_request_default :: mdio_request where
  "mdio_request_default =
     \<lparr>mr_mode = MmdSingleWord, mr_mdio_address = 0, mr_mms_is_0_or_1 = False, mr_is_write = False,
      mr_mdio_payload = 0\<rparr>"

text \<open>The claim's timeout counts microseconds of the steady clock: a timeout is set in milliseconds.\<close>

definition set_discovery_timeout_us :: "u16 \<Rightarrow> mock_server \<Rightarrow> mock_server" where
  "set_discovery_timeout_us timeout_us s =
     (set_regs ((mk_regs s)\<lparr>rm_svr_ep_cfg := (rm_svr_ep_cfg (mk_regs s))\<lparr>sc_discovery_timeout := timeout_us\<rparr>\<rparr>) s)
     \<lparr>mk_claim := set_timeout (int (unat timeout_us div 1000) * 1000) (mk_claim s)\<rparr>"

definition new_mock :: mock_server where
  "new_mock = set_discovery_timeout_us 20000
     \<lparr>mk_ep0 = new_ep0 make_initial_register_map new_lifecycle,
      mk_gpio = \<lparr>gpio_state = \<lparr>pin_values = 0, pin_directions = 0\<rparr>, gpio_triggers = new_registry\<rparr>,
      mk_spi = \<lparr>spi_triggers = new_registry, spi_last_pico_out = replicate kMaxChannels [],
        spi_last_poci_in = replicate kMaxChannels []\<rparr>,
      mk_i2c = \<lparr>i2c_triggers = new_registry, i2c_last_out = [], i2c_last_in = []\<rparr>,
      mk_adc = [], mk_adc_cfg = adc_config_zero, mk_pwm_in = new_pwm_in_endpoint, mk_lin = new_lin_endpoint,
      mk_can = new_can_endpoint, mk_uart = new_uart_endpoint,
      mk_iseled = \<lparr>ie_triggers = new_registry, ie_last_sent = [], ie_last_received = []\<rparr>,
      mk_mdio = \<lparr>me_last_request = mdio_request_default, me_registers = (\<lambda>_. None)\<rparr>,
      mk_admissions = replicate 10 (new_endpoint True),
      mk_gptp = \<lparr>gt_has_previous = False, gt_previous_locked = False\<rparr>,
      mk_claim = new_claim 20000, mk_faults = new_tracker,
      mk_seq = replicate kMaxEntries \<lparr>sg_has_last = False, sg_last_seq = 0\<rparr>,
      mk_watchdogs = replicate kMaxEntries new_watchdog,
      mk_status = replicate kMaxEntries \<lparr>st_crc = \<lparr>gd_latched = False\<rparr>, st_seq_blocked = False,
        st_wd_blocked = False, st_overflow_blocked = False\<rparr>,
      mk_reassemblers = replicate kMaxEntries (new_reassembler kDefaultReassemblyCapacity),
      mk_first_headers = replicate kMaxEntries [],
      mk_resp_queues = replicate kMaxEntries (new_queue 0 0),
      mk_spi_poci = replicate kMaxChannels [], mk_i2c_response = [], mk_i2c_acked = True,
      mk_adc_samples = [], mk_lin_response = [], mk_lin_responded = True, mk_iseled_response = []\<rparr>"

section \<open>The owner's calls\<close>

definition set_request_stream_cfg :: "request_stream_config list \<Rightarrow> mock_server \<Rightarrow> bool \<times> mock_server" where
  "set_request_stream_cfg entries s =
     (if kMaxEntries < length entries then (False, s)
      else (True, set_regs ((mk_regs s)
        \<lparr>rm_general := (rm_general (mk_regs s))\<lparr>gm_svr_request_stream_cfg_capacity := of_nat (length entries)\<rparr>,
         rm_request_streams := entries\<rparr>) s))"

definition set_ep_id_map :: "ep_id_mapping_entry list \<Rightarrow> mock_server \<Rightarrow> bool \<times> mock_server" where
  "set_ep_id_map entries s =
     (if kMaxEntries < length entries then (False, s)
      else (True, set_regs ((mk_regs s)
        \<lparr>rm_general := (rm_general (mk_regs s))\<lparr>gm_svr_ep_bytebus_id_map_capacity := of_nat (length entries)\<rparr>,
         rm_ep_id_mapping := entries\<rparr>) s))"

definition pending_count :: "u16 \<Rightarrow> mock_server \<Rightarrow> nat" where
  "pending_count byte_bus_id s =
     (case admission_of byte_bus_id s of None \<Rightarrow> 0 | Some ep \<Rightarrow> se_pending_count ep)"

definition mock_watchdog_purge :: "u16 \<Rightarrow> mock_server \<Rightarrow> nat \<times> mock_server" where
  "mock_watchdog_purge byte_bus_id s =
     (case admission_index byte_bus_id of
        None \<Rightarrow> (0, s)
      | Some i \<Rightarrow>
          (case watchdog_purge (mk_admissions s ! i) of (purged, ep) \<Rightarrow> (purged, set_admission i ep s)))"

definition mock_drain_one :: "u16 \<Rightarrow> mock_server \<Rightarrow> octets option \<times> mock_server" where
  "mock_drain_one byte_bus_id s =
     (case admission_index byte_bus_id of
        None \<Rightarrow> (None, s)
      | Some i \<Rightarrow>
          (case drain_one (mk_admissions s ! i) of (frame, ep) \<Rightarrow> (frame, set_admission i ep s)))"

text \<open>The queues are notified one after the other; the result is the sum of their results.\<close>

definition mock_notify_trigger :: "u8 \<Rightarrow> u8 \<Rightarrow> mock_server \<Rightarrow> nat \<times> mock_server" where
  "mock_notify_trigger source_ep signal_nr s =
     (let results = map (notify_trigger source_ep signal_nr) (mk_admissions s)
      in (sum_list (map fst results), s\<lparr>mk_admissions := map snd results\<rparr>))"

definition notify_gptp_lock_state :: "bool \<Rightarrow> u8 \<Rightarrow> mock_server \<Rightarrow> nat \<times> mock_server" where
  "notify_gptp_lock_state locked source_ep s =
     (case gptp_trigger_evaluate (mk_gptp s) locked of
        (None, state) \<Rightarrow> (0, s\<lparr>mk_gptp := state\<rparr>)
      | (Some fired, state) \<Rightarrow> mock_notify_trigger source_ep fired (s\<lparr>mk_gptp := state\<rparr>))"

text \<open>The frame that became due, the caller's sequencers after it, and the server.\<close>

definition mock_tick :: "u16 \<Rightarrow> tick_context \<Rightarrow> mock_server \<Rightarrow> octets option \<times> sequencers option \<times> mock_server" where
  "mock_tick byte_bus_id ctx s =
     (case admission_index byte_bus_id of
        None \<Rightarrow> (None, tc_sequencers ctx, s)
      | Some i \<Rightarrow>
          (case select_due ctx (mk_admissions s ! i) of
             (None, ep) \<Rightarrow> (None, tc_sequencers ctx, set_admission i ep s)
           | (Some index, ep) \<Rightarrow>
               (case complete index ctx ep of
                  (_, states, ep') \<Rightarrow>
                    (map_option pr_frame (pending index ep), states, set_admission i ep' s))))"

definition set_spi_poci :: "u8 \<Rightarrow> octets \<Rightarrow> mock_server \<Rightarrow> mock_server" where
  "set_spi_poci channel data s =
     (if unat channel < kMaxChannels then s\<lparr>mk_spi_poci := (mk_spi_poci s)[unat channel := data]\<rparr> else s)"

definition set_i2c_response :: "octets \<Rightarrow> bool \<Rightarrow> mock_server \<Rightarrow> mock_server" where
  "set_i2c_response data acked s = s\<lparr>mk_i2c_response := data, mk_i2c_acked := acked\<rparr>"

definition set_adc_response :: "u16 list \<Rightarrow> mock_server \<Rightarrow> mock_server" where
  "set_adc_response samples s = s\<lparr>mk_adc_samples := samples\<rparr>"

definition set_pwm_in_response :: "pwm_value \<Rightarrow> mock_server \<Rightarrow> mock_server" where
  "set_pwm_in_response v s = s\<lparr>mk_pwm_in := record_measurement v (mk_pwm_in s)\<rparr>"

definition set_lin_response :: "octets \<Rightarrow> bool \<Rightarrow> mock_server \<Rightarrow> mock_server" where
  "set_lin_response data responded s = s\<lparr>mk_lin_response := data, mk_lin_responded := responded\<rparr>"

definition set_iseled_response :: "octets \<Rightarrow> mock_server \<Rightarrow> mock_server" where
  "set_iseled_response response s = s\<lparr>mk_iseled_response := response\<rparr>"

text \<open>\<open>hw\<close> and \<open>rcp\<close> are the answers of the lifecycle's plausibility callbacks, if any are set.\<close>

definition mock_advance ::
    "bool option \<Rightarrow> bool option \<Rightarrow> server_state \<Rightarrow> mock_server \<Rightarrow> error option \<times> mock_server" where
  "mock_advance hw rcp target s =
     (case advance hw rcp target (mk_lifecycle s) of
        (ec, lc) \<Rightarrow> (ec, s\<lparr>mk_ep0 := (mk_ep0 s)\<lparr>e0_lifecycle := lc\<rparr>\<rparr>))"

definition advance_to_rcp_configured ::
    "bool option \<Rightarrow> bool option \<Rightarrow> mock_server \<Rightarrow> error option \<times> mock_server" where
  "advance_to_rcp_configured hw rcp s =
     (case mock_advance hw rcp Hw_configured s of
        (Some ec, s) \<Rightarrow> (Some ec, s)
      | (None, s) \<Rightarrow> mock_advance hw rcp Rcp_configured s)"

section \<open>Admission\<close>

text \<open>The first slot with this transaction number: its chain and its place in it.\<close>

definition chain_of_transaction :: "u8 \<Rightarrow> server_endpoint \<Rightarrow> u32 \<times> u8" where
  "chain_of_transaction transaction_num ep =
     (case find (\<lambda>s. pr_transaction_num s = transaction_num) (used (se_pending ep)) of
        None \<Rightarrow> (0, 0)
      | Some slot \<Rightarrow> (pr_chain_group slot, pr_chain_position slot))"

definition apply_cancellation ::
    "opcode \<Rightarrow> octets \<Rightarrow> acf_info \<Rightarrow> server_endpoint \<Rightarrow> reply \<times> server_endpoint" where
  "apply_cancellation request_type frame req ep =
     (if request_type = ClearAll then (no_reply, snd (cancel_all_pending ep))
      else if request_type = ClearNonSafestate then (no_reply, snd (cancel_non_safestate ep))
      else if request_type = ClearSingle then
        (case decode_clear_single frame of
           Inl _ \<Rightarrow> (no_reply, ep)
         | Inr csr \<Rightarrow>
             (let (target_chain_group, target_chain_position) =
                    chain_of_transaction (cl1_clear_transaction_num csr) ep
              in case cancel_single_pending (cl1_clear_transaction_num csr) Cl_queued ep of
                   (Cr_not_found, ep) \<Rightarrow> (error_reply req RequestNotFound, ep)
                 | (Cr_canceled, ep) \<Rightarrow>
                     (no_reply, snd (cancel_chain_from target_chain_group target_chain_position ep))
                 | (Cr_not_cancellable, ep) \<Rightarrow> (no_reply, ep)))
      else (no_reply, ep))"

text \<open>\<open>None\<close> when the request is to be executed now, else what the dispatch returns.\<close>

definition admit_and_classify ::
    "octets \<Rightarrow> acf_info \<Rightarrow> server_endpoint \<Rightarrow> dispatched option \<times> server_endpoint" where
  "admit_and_classify frame req ep =
     (case admit_with_ack frame 0 False 0 0 ep of
        (ad, ep) \<Rightarrow>
          (case ad_outcome ad of
             ExecuteNow \<Rightarrow> (None, ep)
           | Apply_cancellation \<Rightarrow>
               (case apply_cancellation (the (ad_request_type ad)) frame req ep of
                  (rep, ep) \<Rightarrow> (Some (Some (Dispatch_code Dispatch_cancelled), rep), ep))
           | Suspended \<Rightarrow> (Some (Some (Dispatch_code Dispatch_suspended), no_reply), ep)
           | Rejected \<Rightarrow>
               (Some (Some (Core (Regmap_err Request_rejected)),
                  case ad_error ad of
                    None \<Rightarrow> no_reply
                  | Some admit_error \<Rightarrow>
                      if admission_reject_response_shape admit_error = Shape_error_response
                      then error_reply req admit_error
                      else if a_evt_ack req
                      then (make_acknowledge_rejected_response req, encode_error_payload admit_error)
                      else no_reply), ep)
           | out \<Rightarrow>
               (Some (if ad_ack ad \<noteq> [] then (None, make_response req Acknowledge, [])
                  else (Some (Dispatch_code (if out = Queued then Dispatch_queued else Dispatch_pending)),
                        no_reply)), ep)))"

definition suppress_response_per_stream_cfg :: "register_map \<Rightarrow> stream_id \<Rightarrow> reply \<Rightarrow> reply" where
  "suppress_response_per_stream_cfg regs sid rep =
     (if \<not> a_rsp (fst rep) then rep
      else
        (let stream_index = resolve_index (rm_request_streams regs) (to_u64 sid) in
         if stream_index = 0 then rep
         else
           (let cfg = rm_request_streams regs ! (unat stream_index - 1);
                suppress = (if response_kind_of (fst rep) = Acknowledge then rs_rx_ack_stream_index cfg = 0
                            else rs_rx_resp_stream_index cfg = 0)
            in if suppress then no_reply else rep)))"

section \<open>Dispatch to an endpoint\<close>

text \<open>
  What the ten \<open>dispatch_..._inner\<close> begin with: the server must be live, and the request must pass
  the endpoint's admission queue. The rest of the function is the argument.
\<close>

definition admitted ::
    "nat \<Rightarrow> acf_info \<Rightarrow> octets \<Rightarrow> (mock_server \<Rightarrow> dispatched \<times> mock_server) \<Rightarrow> mock_server \<Rightarrow>
       dispatched \<times> mock_server" where
  "admitted i req payload handler s =
     (if \<not> operational_requests_allowed s
      then (set_error_response req (Core (Regmap_err Request_rejected)), s)
      else
        (case admit_and_classify (encode_acf_abb req payload) req (mk_admissions s ! i) of
           (Some result, ep) \<Rightarrow> (result, set_admission i ep s)
         | (None, ep) \<Rightarrow> handler (set_admission i ep s)))"

text \<open>The response of an executed request, which is an acknowledge when one was asked for.\<close>

definition answer :: "acf_info \<Rightarrow> response_kind \<Rightarrow> octets \<Rightarrow> dispatched" where
  "answer req kind payload = (None, make_response req kind, payload)"

definition ack_or :: "acf_info \<Rightarrow> response_kind \<Rightarrow> response_kind" where
  "ack_or req kind = (if a_evt_ack req then Acknowledge else kind)"

text \<open>The codes of \<open>handle_request\<close>: of the shared endpoint category or of the endpoint type.\<close>

fun request_code :: "('e \<Rightarrow> code) \<Rightarrow> 'e request_error \<Rightarrow> code" where
  "request_code own (Shared ec) = Core (Endpoint_err ec)"
| "request_code own (Own ec) = own ec"

definition run_gpio :: "acf_info \<Rightarrow> octets \<Rightarrow> mock_server \<Rightarrow> dispatched \<times> mock_server" where
  "run_gpio req payload s =
     (if \<not> a_op req then (answer req ReadResponse (encode_gpio_payload (read_pins (mk_gpio s))), s)
     else
       (case decode_gpio_payload payload of
          Inl ec \<Rightarrow> (set_error_response req (Core ec), s)
        | Inr operand \<Rightarrow>
            (case Gpio.handle_write (write_semantics_of (a_evt_op req)) operand (mk_gpio s) of
               (Inl ec, gpio) \<Rightarrow> (set_error_response req (Core ec), s\<lparr>mk_gpio := gpio\<rparr>)
             | (Inr new_value, gpio) \<Rightarrow>
                 (answer req (ack_or req WriteResponse) (encode_gpio_payload new_value), s\<lparr>mk_gpio := gpio\<rparr>))))"

definition dispatch_gpio_inner :: "acf_info \<Rightarrow> octets \<Rightarrow> mock_server \<Rightarrow> dispatched \<times> mock_server" where
  "dispatch_gpio_inner req payload = admitted 0 req payload (run_gpio req payload)"

definition run_spi :: "acf_info \<Rightarrow> octets \<Rightarrow> mock_server \<Rightarrow> dispatched \<times> mock_server" where
  "run_spi req payload s =
     (case channel_of (a_evt_op req) of
        Inl ec \<Rightarrow> (set_error_response req (Spi_code ec), s)
      | Inr channel \<Rightarrow>
          (case Spi.transfer channel payload (mk_spi_poci s ! unat channel) (mk_spi s) of
             (Some ec, spi) \<Rightarrow> (set_error_response req (Spi_code ec), s\<lparr>mk_spi := spi\<rparr>)
           | (None, spi) \<Rightarrow>
               (answer req ReadResponse (spi_last_poci_in spi ! unat channel), s\<lparr>mk_spi := spi\<rparr>)))"

definition dispatch_spi_inner :: "acf_info \<Rightarrow> octets \<Rightarrow> mock_server \<Rightarrow> dispatched \<times> mock_server" where
  "dispatch_spi_inner req payload = admitted 1 req payload (run_spi req payload)"

definition run_i2c :: "acf_info \<Rightarrow> octets \<Rightarrow> mock_server \<Rightarrow> dispatched \<times> mock_server" where
  "run_i2c req payload s =
     (case I2c.handle_request (a_evt_op req) payload (mk_i2c_response s) (mk_i2c_acked s) (mk_i2c s) of
        (Some ec, i2c) \<Rightarrow> (set_error_response req (request_code I2c_code ec), s\<lparr>mk_i2c := i2c\<rparr>)
      | (None, i2c) \<Rightarrow> (answer req (ack_or req ReadResponse) (i2c_last_in i2c), s\<lparr>mk_i2c := i2c\<rparr>))"

definition dispatch_i2c_inner :: "acf_info \<Rightarrow> octets \<Rightarrow> mock_server \<Rightarrow> dispatched \<times> mock_server" where
  "dispatch_i2c_inner req payload = admitted 2 req payload (run_i2c req payload)"

text \<open>
  The callback takes the oldest of the samples that are left, or reports no signal; it is called as
  often as the configuration asks for samples.
\<close>

definition taken_sample :: "u16 list \<Rightarrow> nat \<Rightarrow> adc_sample" where
  "taken_sample samples i =
     \<lparr>ad_value = (if i < length samples then samples ! i else kAdcNoSignal), ad_timestamp = 0\<rparr>"

definition measure_and_collect :: "acf_info \<Rightarrow> mock_server \<Rightarrow> dispatched \<times> mock_server" where
  "measure_and_collect req s =
     (let cfg = adc_config_zero\<lparr>adc_samples_per_avg_interval := 1, adc_combine_avg_values := 1\<rparr> in
      case execute_measurement_cycle cfg (taken_sample (mk_adc_samples s)) (mk_adc s) of
        (measured, adc) \<Rightarrow>
          (let s = s\<lparr>mk_adc := adc,
                 mk_adc_samples := drop (unat (adc_samples_per_avg_interval cfg)) (mk_adc_samples s)\<rparr>
           in case measured of
                Some ec \<Rightarrow> (set_error_response req (Adc_code ec), s)
              | None \<Rightarrow>
                  (case collect_response cfg (mk_adc s) of
                     (collected, adc) \<Rightarrow>
                       (let s = s\<lparr>mk_adc := adc\<rparr> in
                        case collected of
                          Inl ec \<Rightarrow> (set_error_response req (Adc_code ec), s)
                        | Inr (vals, timestamp) \<Rightarrow>
                            if hd vals = kAdcNoSignal
                            then (set_error_response req (Adc_code Adc.No_signal), s)
                            else (answer req (ack_or req ReadResponse) (put_u16 (hd vals)), s)))))"

definition run_adc :: "acf_info \<Rightarrow> octets \<Rightarrow> mock_server \<Rightarrow> dispatched \<times> mock_server" where
  "run_adc req payload s =
     (case evt_row2_kind_of (a_evt_op req) of
        Reserved_row2 \<Rightarrow> (set_error_response req (Core (Endpoint_err Reserved_evt_row2)), s)
      | Config_write \<Rightarrow>
          (case Adc.apply_reconfig payload (mk_adc_cfg s) of
             (Some ec, cfg) \<Rightarrow> (set_error_response req (Adc_code ec), s\<lparr>mk_adc_cfg := cfg\<rparr>)
           | (None, cfg) \<Rightarrow> (answer req WriteResponse [], s\<lparr>mk_adc_cfg := cfg\<rparr>))
      | Plain \<Rightarrow> measure_and_collect req s)"

definition dispatch_adc_inner :: "acf_info \<Rightarrow> octets \<Rightarrow> mock_server \<Rightarrow> dispatched \<times> mock_server" where
  "dispatch_adc_inner req payload = admitted 3 req payload (run_adc req payload)"

definition run_pwm_in :: "acf_info \<Rightarrow> octets \<Rightarrow> mock_server \<Rightarrow> dispatched \<times> mock_server" where
  "run_pwm_in req payload s =
     (case handle_request_in (a_evt_op req) (mk_pwm_in s) None of
        (Some ec, _) \<Rightarrow> (set_error_response req (request_code Pwm_code ec), s)
      | (None, captured) \<Rightarrow>
          (answer req (ack_or req ReadResponse) (encode_pwm_payload (the captured)), s))"

definition dispatch_pwm_in_inner :: "acf_info \<Rightarrow> octets \<Rightarrow> mock_server \<Rightarrow> dispatched \<times> mock_server" where
  "dispatch_pwm_in_inner req payload = admitted 4 req payload (run_pwm_in req payload)"

definition run_lin :: "acf_info \<Rightarrow> octets \<Rightarrow> mock_server \<Rightarrow> dispatched \<times> mock_server" where
  "run_lin req payload s =
     (case Lin.handle_request (a_evt_op req) payload (mk_lin_response s) (mk_lin_responded s) (mk_lin s) of
        (Some ec, lin) \<Rightarrow> (set_error_response req (request_code Lin_code ec), s\<lparr>mk_lin := lin\<rparr>)
      | (None, lin) \<Rightarrow> (answer req (ack_or req ReadResponse) (le_last_in lin), s\<lparr>mk_lin := lin\<rparr>))"

definition dispatch_lin_inner :: "acf_info \<Rightarrow> octets \<Rightarrow> mock_server \<Rightarrow> dispatched \<times> mock_server" where
  "dispatch_lin_inner req payload = admitted 5 req payload (run_lin req payload)"

definition run_can :: "acf_info \<Rightarrow> octets \<Rightarrow> mock_server \<Rightarrow> dispatched \<times> mock_server" where
  "run_can req payload s =
     (case Can.handle_request (a_evt_op req) (can_frame_default\<lparr>cf_data := payload\<rparr>) (mk_can s) of
        (Some ec, can) \<Rightarrow> (set_error_response req (request_code Can_code ec), s\<lparr>mk_can := can\<rparr>)
      | (None, can) \<Rightarrow> (answer req (ack_or req WriteResponse) [], s\<lparr>mk_can := can\<rparr>))"

definition dispatch_can_inner :: "acf_info \<Rightarrow> octets \<Rightarrow> mock_server \<Rightarrow> dispatched \<times> mock_server" where
  "dispatch_can_inner req payload = admitted 6 req payload (run_can req payload)"

definition run_uart :: "acf_info \<Rightarrow> octets \<Rightarrow> mock_server \<Rightarrow> dispatched \<times> mock_server" where
  "run_uart req payload s =
     (case Uart.handle_request (a_evt_op req) (a_op req) payload (a_read_size req) 0 0 (mk_uart s, [], False) of
        (Some ec, uart, _) \<Rightarrow> (set_error_response req (request_code Uart_code ec), s\<lparr>mk_uart := uart\<rparr>)
      | (None, uart, data, timed_out) \<Rightarrow>
          (if a_op req then answer req (ack_or req WriteResponse) []
           else answer req (ack_or req ReadResponse) data,
           s\<lparr>mk_uart := uart\<rparr>))"

definition dispatch_uart_inner :: "acf_info \<Rightarrow> octets \<Rightarrow> mock_server \<Rightarrow> dispatched \<times> mock_server" where
  "dispatch_uart_inner req payload = admitted 7 req payload (run_uart req payload)"

definition run_iseled :: "acf_info \<Rightarrow> octets \<Rightarrow> mock_server \<Rightarrow> dispatched \<times> mock_server" where
  "run_iseled req payload s =
     (case Iseled.handle_request (a_evt_op req) payload (mk_iseled s) of
        (Some ec, iseled) \<Rightarrow> (set_error_response req (request_code Iseled_code ec), s\<lparr>mk_iseled := iseled\<rparr>)
      | (None, iseled) \<Rightarrow>
          (let iseled = Iseled.receive (mk_iseled_response s) iseled in
           (answer req (ack_or req ReadResponse) (ie_last_received iseled), s\<lparr>mk_iseled := iseled\<rparr>)))"

definition dispatch_iseled_inner :: "acf_info \<Rightarrow> octets \<Rightarrow> mock_server \<Rightarrow> dispatched \<times> mock_server" where
  "dispatch_iseled_inner req payload = admitted 8 req payload (run_iseled req payload)"

definition run_mdio :: "acf_info \<Rightarrow> octets \<Rightarrow> mock_server \<Rightarrow> dispatched \<times> mock_server" where
  "run_mdio req payload s =
     (let request = \<lparr>mr_mode = MmdSingleWord, mr_mdio_address = 0, mr_mms_is_0_or_1 = False,
            mr_is_write = a_op req,
            mr_mdio_payload = (if a_op req \<and> 2 \<le> length payload then ucast (get_u16 payload) else 0)\<rparr>
      in case Mdio.handle_request (a_evt_op req) request (mk_mdio s, 0) of
           (Some ec, mdio, _) \<Rightarrow> (set_error_response req (request_code Mdio_code ec), s\<lparr>mk_mdio := mdio\<rparr>)
         | (None, mdio, response) \<Rightarrow>
             (if a_op req then answer req (ack_or req WriteResponse) []
              else answer req (ack_or req ReadResponse) (put_u16 (ucast response)),
              s\<lparr>mk_mdio := mdio\<rparr>))"

definition dispatch_mdio_inner :: "acf_info \<Rightarrow> octets \<Rightarrow> mock_server \<Rightarrow> dispatched \<times> mock_server" where
  "dispatch_mdio_inner req payload = admitted 9 req payload (run_mdio req payload)"

definition dispatch_ep0 :: "acf_info \<Rightarrow> mock_server \<Rightarrow> dispatched \<times> mock_server" where
  "dispatch_ep0 req s =
     (if a_op req then set_error_response req (Core (Regmap_err Request_rejected))
      else
        (case check_read_access (mk_ep0 s) kEp0 of
           Some ec \<Rightarrow> set_error_response req (Core ec)
         | None \<Rightarrow> answer req ReadResponse (put_u32 (gm_magic (rm_general (mk_regs s))))), s)"

text \<open>The ten \<open>dispatch_...\<close> with their common last step.\<close>

definition suppressed ::
    "stream_id \<Rightarrow> (mock_server \<Rightarrow> dispatched \<times> mock_server) \<Rightarrow> mock_server \<Rightarrow> dispatched \<times> mock_server" where
  "suppressed sid inner s =
     (case inner s of
        ((ec, rep), s') \<Rightarrow> ((ec, suppress_response_per_stream_cfg (mk_regs s') sid rep), s'))"

definition dispatch :: "acf_info \<Rightarrow> octets \<Rightarrow> stream_id \<Rightarrow> mock_server \<Rightarrow> dispatched \<times> mock_server" where
  "dispatch req payload sid s =
     (let bus = a_byte_bus_id req in
      if bus = kEp0 then dispatch_ep0 req s
      else if bus = kGpioByteBusId then suppressed sid (dispatch_gpio_inner req payload) s
      else if bus = kSpiByteBusId then suppressed sid (dispatch_spi_inner req payload) s
      else if bus = kI2cByteBusId then suppressed sid (dispatch_i2c_inner req payload) s
      else if bus = kAdcByteBusId then suppressed sid (dispatch_adc_inner req payload) s
      else if bus = kPwmInByteBusId then suppressed sid (dispatch_pwm_in_inner req payload) s
      else if bus = kLinByteBusId then suppressed sid (dispatch_lin_inner req payload) s
      else if bus = kCanByteBusId then suppressed sid (dispatch_can_inner req payload) s
      else if bus = kUartByteBusId then suppressed sid (dispatch_uart_inner req payload) s
      else if bus = kIseledByteBusId then suppressed sid (dispatch_iseled_inner req payload) s
      else if bus = kMdioByteBusId then suppressed sid (dispatch_mdio_inner req payload) s
      else (set_error_response req (Core (Regmap_err Invalid_parameter)), s))"

section \<open>What the admission queue does to a request\<close>

lemma abb_message [simp]:
  "decode_acf_message_info (encode_acf_abb req payload) = mask_info (abb_header req payload)"
  "\<not> length (encode_acf_abb req payload) < kAcfCommonHeaderLen"
  "kAcfCommonHeaderLen \<le> length (encode_acf_abb req payload)"
  by (simp_all add: encode_abb_eq kAcfCommonHeaderLen_def)

lemma abb_header_fields [simp]:
  "a_msg_type (mask_info (abb_header req payload)) = kAcfMsgTypeAbb"
  "a_evt_op (mask_info (abb_header req payload)) = a_evt_op req AND 7"
  "a_evt_ack (mask_info (abb_header req payload)) = a_evt_ack req"
  "a_rsp (mask_info (abb_header req payload)) = a_rsp req"
  "a_evt_ack (abb_header req payload) = a_evt_ack req"
  "a_rsp (abb_header req payload) = a_rsp req"
  by (simp_all add: mask_info_def abb_header_def fill_length_def wire_defs)

lemma abb_not_conditional [simp]: "peek_request_type (encode_acf_abb req payload) = None"
  by (simp add: peek_request_type_def Let_def kAcfMsgTypeAbb_def kAcfMsgTypeGbb_def)

lemma abb_is_config [simp]: "is_config_request (encode_acf_abb req payload) \<longleftrightarrow> a_evt_op req AND 7 = 7"
  by (simp add: is_config_request_def Let_def)

lemma abb_store_ack: "store_ack (encode_acf_abb req payload) = [] \<longleftrightarrow> \<not> a_evt_ack req"
proof -
  have "build_acknowledge_response bus txn \<noteq> []" for bus txn
    by (simp add: build_acknowledge_response_def encode_abb_eq)
  then show ?thesis by (simp add: store_ack_def Let_def)
qed

lemma abb_admit:
  "admit_with_ack (encode_acf_abb req payload) now False ts ref ep =
    (if se_admission_suspended ep then (outcome Suspended None, ep)
     else if a_rsp req then ((outcome Rejected None)\<lparr>ad_error := Some InvalidParameter\<rparr>, ep)
     else (case Server.submit (encode_acf_abb req payload) ep of
         (execute, ack, ep) \<Rightarrow> ((outcome (if execute then ExecuteNow else Queued) None)\<lparr>ad_ack := ack\<rparr>, ep)))"
  by (simp add: admit_with_ack_def header_is_request_def Let_def)

text \<open>A standard request runs at once unless the queue is suspended or disabled, or it is no request.\<close>

lemma abb_admission:
  "admit_and_classify (encode_acf_abb req payload) req ep =
    (if se_admission_suspended ep then (Some (Some (Dispatch_code Dispatch_suspended), no_reply), ep)
     else if a_rsp req
     then (Some (Some (Core (Regmap_err Request_rejected)),
        if a_evt_ack req then (make_acknowledge_rejected_response req, encode_error_payload InvalidParameter)
        else no_reply), ep)
     else if se_enable ep \<or> a_evt_op req AND 7 = 7 then (None, ep)
     else if kMaxQueuedFrames \<le> length (se_queue ep) then (Some (Some (Dispatch_code Dispatch_queued), no_reply), ep)
     else (Some (if a_evt_ack req then (None, make_response req Acknowledge, [])
                 else (Some (Dispatch_code Dispatch_queued), no_reply)),
           ep\<lparr>se_queue := se_queue ep @ [encode_acf_abb req payload]\<rparr>))"
  by (simp add: admit_and_classify_def abb_admit Server.submit_def outcome_def abb_store_ack
      admission_reject_response_shape_def)

section \<open>What a dispatch does\<close>

definition run_endpoint :: "nat \<Rightarrow> acf_info \<Rightarrow> octets \<Rightarrow> mock_server \<Rightarrow> dispatched \<times> mock_server" where
  "run_endpoint i =
     [run_gpio, run_spi, run_i2c, run_adc, run_pwm_in, run_lin, run_can, run_uart, run_iseled, run_mdio] ! i"

lemma admission_index_bound: "admission_index bus = Some i \<Longrightarrow> i < 10"
  by (auto simp: admission_index_def split: if_splits)

lemma dispatch_eq:
  "dispatch req payload sid s =
     (if a_byte_bus_id req = kEp0 then dispatch_ep0 req s
      else (case admission_index (a_byte_bus_id req) of
          None \<Rightarrow> (set_error_response req (Core (Regmap_err Invalid_parameter)), s)
        | Some i \<Rightarrow> suppressed sid (admitted i req payload (run_endpoint i req payload)) s))"
  by (simp add: dispatch_def admission_index_def run_endpoint_def Let_def dispatch_gpio_inner_def
      dispatch_spi_inner_def dispatch_i2c_inner_def dispatch_adc_inner_def dispatch_pwm_in_inner_def
      dispatch_lin_inner_def dispatch_can_inner_def dispatch_uart_inner_def dispatch_iseled_inner_def
      dispatch_mdio_inner_def numeral_eq_Suc)

text \<open>
  What must hold of a response: it answers the request, with the error flag and the one octet of an
  error code exactly when the dispatch failed.
\<close>

definition answers :: "acf_info \<Rightarrow> code option \<Rightarrow> reply \<Rightarrow> bool" where
  "answers req ec rep \<longleftrightarrow>
     (case rep of (hdr, payload) \<Rightarrow>
        a_byte_bus_id hdr = a_byte_bus_id req \<and> a_transaction_num hdr = a_transaction_num req \<and>
        a_rsp hdr \<and> (a_err hdr \<longleftrightarrow> ec \<noteq> None) \<and> (a_err hdr \<longrightarrow> length payload = 1))"

lemma answers_simps [simp]:
  "answers req (fst (set_error_response req ec)) (snd (set_error_response req ec))"
  "kind \<noteq> ErrorResponse \<Longrightarrow> answers req (fst (answer req kind payload)) (snd (answer req kind payload))"
  "answers req None (make_response req Acknowledge, payload)"
  "answers req (Some ec) (error_reply req wec)"
  "answers req (Some ec) (make_acknowledge_rejected_response req, encode_error_payload wec)"
  by (auto simp: answers_def set_error_response_def error_reply_def answer_def make_response_def
      make_acknowledge_rejected_response_def encode_error_payload_def acf_default_def Let_def)

lemma ack_or_not_error [simp]: "kind \<noteq> ErrorResponse \<Longrightarrow> ack_or req kind \<noteq> ErrorResponse"
  by (simp add: ack_or_def)

text \<open>The step changes at most the state of the endpoint with this number.\<close>

definition only_endpoint :: "nat \<Rightarrow> mock_server \<Rightarrow> mock_server \<Rightarrow> bool" where
  "only_endpoint i s s' \<longleftrightarrow>
     (i \<noteq> 0 \<longrightarrow> mk_gpio s' = mk_gpio s) \<and> (i \<noteq> 1 \<longrightarrow> mk_spi s' = mk_spi s) \<and>
     (i \<noteq> 2 \<longrightarrow> mk_i2c s' = mk_i2c s) \<and>
     (i \<noteq> 3 \<longrightarrow> mk_adc s' = mk_adc s \<and> mk_adc_cfg s' = mk_adc_cfg s \<and> mk_adc_samples s' = mk_adc_samples s) \<and>
     mk_pwm_in s' = mk_pwm_in s \<and> (i \<noteq> 5 \<longrightarrow> mk_lin s' = mk_lin s) \<and> (i \<noteq> 6 \<longrightarrow> mk_can s' = mk_can s) \<and>
     (i \<noteq> 7 \<longrightarrow> mk_uart s' = mk_uart s) \<and> (i \<noteq> 8 \<longrightarrow> mk_iseled s' = mk_iseled s) \<and>
     (i \<noteq> 9 \<longrightarrow> mk_mdio s' = mk_mdio s)"

text \<open>Everything else but the admission queues.\<close>

definition same_rest :: "mock_server \<Rightarrow> mock_server \<Rightarrow> bool" where
  "same_rest s s' \<longleftrightarrow>
     mk_ep0 s' = mk_ep0 s \<and> mk_gptp s' = mk_gptp s \<and> mk_claim s' = mk_claim s \<and> mk_faults s' = mk_faults s \<and>
     mk_seq s' = mk_seq s \<and> mk_watchdogs s' = mk_watchdogs s \<and> mk_status s' = mk_status s \<and>
     mk_reassemblers s' = mk_reassemblers s \<and> mk_first_headers s' = mk_first_headers s \<and>
     mk_resp_queues s' = mk_resp_queues s \<and> mk_spi_poci s' = mk_spi_poci s \<and>
     mk_i2c_response s' = mk_i2c_response s \<and> mk_i2c_acked s' = mk_i2c_acked s \<and>
     mk_lin_response s' = mk_lin_response s \<and> mk_lin_responded s' = mk_lin_responded s \<and>
     mk_iseled_response s' = mk_iseled_response s"

lemmas run_defs = run_gpio_def run_spi_def run_i2c_def run_adc_def run_pwm_in_def run_lin_def run_can_def
  run_uart_def run_iseled_def run_mdio_def measure_and_collect_def

definition others_kept :: "nat \<Rightarrow> mock_server \<Rightarrow> mock_server \<Rightarrow> bool" where
  "others_kept i s s' \<longleftrightarrow> only_endpoint i s s' \<and> same_rest s s' \<and> mk_admissions s' = mk_admissions s"

lemma others_kept_simps [simp]:
  "others_kept i s s" "others_kept 0 s (s\<lparr>mk_gpio := gpio\<rparr>)" "others_kept (Suc 0) s (s\<lparr>mk_spi := spi\<rparr>)" "others_kept 2 s (s\<lparr>mk_i2c := i2c\<rparr>)"
  "others_kept 3 s (s\<lparr>mk_adc_cfg := cfg\<rparr>)" "others_kept 3 s (s\<lparr>mk_adc := adc, mk_adc_samples := samples\<rparr>)"
  "others_kept 3 s (s\<lparr>mk_adc_samples := samples, mk_adc := adc\<rparr>)"
  "others_kept 5 s (s\<lparr>mk_lin := lin\<rparr>)" "others_kept 6 s (s\<lparr>mk_can := can\<rparr>)" "others_kept 7 s (s\<lparr>mk_uart := uart\<rparr>)"
  "others_kept 8 s (s\<lparr>mk_iseled := iseled\<rparr>)" "others_kept 9 s (s\<lparr>mk_mdio := mdio\<rparr>)"
  by (simp_all add: others_kept_def only_endpoint_def same_rest_def)

definition well_run :: "nat \<Rightarrow> acf_info \<Rightarrow> mock_server \<Rightarrow> dispatched \<times> mock_server \<Rightarrow> bool" where
  "well_run i req s r \<longleftrightarrow> answers req (fst (fst r)) (snd (fst r)) \<and> others_kept i s (snd r)"

lemma well_run_simps [simp]:
  "well_run i req s (set_error_response req ec, s') \<longleftrightarrow> others_kept i s s'"
  "kind \<noteq> ErrorResponse \<Longrightarrow> well_run i req s (answer req kind payload, s') \<longleftrightarrow> others_kept i s s'"
  by (simp_all add: well_run_def)

lemma run_endpoint_well:
  assumes "i < 10"
  shows "well_run i req s (run_endpoint i req payload s)"
proof -
  note splits = sum.split prod.split option.split evt_row2_kind.split
  have "well_run 0 req s (run_gpio req payload s)"
    by (simp add: run_gpio_def split: splits)
  moreover have "well_run 1 req s (run_spi req payload s)"
    by (simp add: run_spi_def split: splits)
  moreover have "well_run 2 req s (run_i2c req payload s)"
    by (simp add: run_i2c_def split: splits)
  moreover have "well_run 3 req s (run_adc req payload s)"
    by (simp add: run_adc_def measure_and_collect_def Let_def split: splits)
  moreover have "well_run 4 req s (run_pwm_in req payload s)"
    by (simp add: run_pwm_in_def split: splits)
  moreover have "well_run 5 req s (run_lin req payload s)"
    by (simp add: run_lin_def split: splits)
  moreover have "well_run 6 req s (run_can req payload s)"
    by (simp add: run_can_def split: splits)
  moreover have "well_run 7 req s (run_uart req payload s)"
    by (simp add: run_uart_def split: splits)
  moreover have "well_run 8 req s (run_iseled req payload s)"
    by (simp add: run_iseled_def Let_def split: splits)
  moreover have "well_run 9 req s (run_mdio req payload s)"
    by (simp add: run_mdio_def Let_def split: splits)
  ultimately show ?thesis
    using assms by (auto simp: run_endpoint_def less_Suc_eq numeral_eq_Suc)
qed

lemma suppress_cases:
  "suppress_response_per_stream_cfg regs sid rep = rep \<or> suppress_response_per_stream_cfg regs sid rep = no_reply"
  by (simp add: suppress_response_per_stream_cfg_def Let_def)

lemma set_same_admission [simp]: "set_admission i (mk_admissions s ! i) s = s"
  by (simp add: set_admission_def)

lemma set_admission_keeps [simp]:
  "same_rest s (set_admission i ep s)" "only_endpoint j s (set_admission i ep s)"
  "same_rest s s" "only_endpoint j s s"
  by (simp_all add: set_admission_def same_rest_def only_endpoint_def)

text \<open>Whether a request to endpoint \<open>i\<close> is executed at once.\<close>

definition executes :: "nat \<Rightarrow> acf_info \<Rightarrow> mock_server \<Rightarrow> bool" where
  "executes i req s \<longleftrightarrow>
     operational_requests_allowed s \<and> \<not> se_admission_suspended (mk_admissions s ! i) \<and> \<not> a_rsp req \<and>
     (se_enable (mk_admissions s ! i) \<or> a_evt_op req AND 7 = 7)"

definition queues :: "nat \<Rightarrow> acf_info \<Rightarrow> mock_server \<Rightarrow> bool" where
  "queues i req s \<longleftrightarrow>
     operational_requests_allowed s \<and> \<not> se_admission_suspended (mk_admissions s ! i) \<and> \<not> a_rsp req \<and>
     \<not> executes i req s \<and> length (se_queue (mk_admissions s ! i)) < kMaxQueuedFrames"

lemma admitted_eq:
  "admitted i req payload run s = ((ec, rep), s') \<Longrightarrow>
     (if executes i req s then run s = ((ec, rep), s')
      else (rep = no_reply \<or> answers req ec rep) \<and>
        s' = (if queues i req s then set_admission i
            ((mk_admissions s ! i)\<lparr>se_queue := se_queue (mk_admissions s ! i) @ [encode_acf_abb req payload]\<rparr>) s
          else s))"
  by (auto simp: admitted_def executes_def queues_def abb_admission set_error_response_def split: if_splits)

text \<open>
  C5. A dispatched request changes nothing but the endpoint it addresses and that endpoint's queue.
  It is executed exactly when the server is live, the endpoint's admission is not suspended, the
  message is a request, and the endpoint is enabled or the request writes its configuration, and then
  leaves every queue as it was; otherwise the request is put into the queue of the disabled endpoint, as long as there is room, or
  has no effect at all. Nothing is sent, or the response answers the request, with its error flag
  and the octet of an error code exactly when the dispatch failed. A request to EP0 or to a bus
  without an endpoint has no effect.
\<close>

theorem dispatch_isolated:
  "case dispatch req payload sid s of ((ec, rep), s') \<Rightarrow>
     (rep = no_reply \<or> answers req ec rep) \<and> same_rest s s' \<and>
     (case admission_index (a_byte_bus_id req) of
        None \<Rightarrow> s' = s
      | Some i \<Rightarrow>
          only_endpoint i s s' \<and>
          (if executes i req s
           then ec = fst (fst (run_endpoint i req payload s)) \<and> s' = snd (run_endpoint i req payload s) \<and>
             mk_admissions s' = mk_admissions s
           else s' = (if queues i req s
             then set_admission i ((mk_admissions s ! i)\<lparr>se_queue :=
                    se_queue (mk_admissions s ! i) @ [encode_acf_abb req payload]\<rparr>) s
             else s)))"
proof (cases "a_byte_bus_id req = kEp0 \<or> admission_index (a_byte_bus_id req) = None")
  case True
  moreover have "admission_index kEp0 = None" by (simp add: admission_index_def bus_ids kEp0_def)
  ultimately show ?thesis
    by (auto simp: dispatch_eq dispatch_ep0_def same_rest_def set_error_response_def error_reply_def answer_def
        answers_def make_response_def encode_error_payload_def acf_default_def Let_def split: option.splits)
next
  case False
  then obtain i where i: "admission_index (a_byte_bus_id req) = Some i" by auto
  then have "i < 10" by (rule admission_index_bound)
  obtain ec rep s' where r: "admitted i req payload (run_endpoint i req payload) s = ((ec, rep), s')"
    by (metis surj_pair)
  have d: "dispatch req payload sid s = ((ec, suppress_response_per_stream_cfg (mk_regs s') sid rep), s')"
    using False i r by (simp add: dispatch_eq suppressed_def)
  note e = admitted_eq [OF r]
  note w = run_endpoint_well [OF \<open>i < 10\<close>, of req s payload]
  have "only_endpoint i s s' \<and> same_rest s s' \<and> (rep = no_reply \<or> answers req ec rep)"
    using e w by (cases "executes i req s") (auto simp: well_run_def others_kept_def)
  then show ?thesis
    using e w suppress_cases [of "mk_regs s'" sid rep] unfolding d
    by (cases "executes i req s") (auto simp: i well_run_def others_kept_def)
qed

end
