(* ===== verification/Mock_E2e.thy ===== *)
theory Mock_E2e
  imports Mock
begin

text \<open>
  The server's entry points for protected messages, \<open>include/rcp/mock.hpp\<close>: the check of the
  stream, the sequence number and the CRC before a message is decoded and dispatched; the
  reassembly of a fragmented request; and the fragmentation of a long response into the stream's
  response queue.
\<close>

section \<open>Decode and dispatch\<close>

definition peek_conditional_request_type :: "octets \<Rightarrow> opcode option" where
  "peek_conditional_request_type frame =
     (if length frame < kAcfGbbMessageInfoLen then None
      else
        (let hdr = decode_acf_message_info frame in
         if a_msg_type hdr \<noteq> kAcfMsgTypeGbb \<or> a_mtv hdr then None
         else
           (let byte0 = frame ! kAcfCommonHeaderLen in
            if \<not> is_valid_request_type byte0 then None else opcode_of_byte byte0)))"

definition decode_acf_frame :: "octets \<Rightarrow> bool \<Rightarrow> (acf_info \<times> u64 \<times> octets) result" where
  "decode_acf_frame frame is_gbb =
     (if is_gbb then decode_acf_gbb frame
      else (case decode_acf_abb frame of
              Inl ec \<Rightarrow> Inl ec
            | Inr (hdr, payload) \<Rightarrow> Inr (hdr, 0, payload)))"

definition decode_and_dispatch :: "octets \<Rightarrow> stream_id \<Rightarrow> mock_server \<Rightarrow> dispatched \<times> mock_server" where
  "decode_and_dispatch frame sid s =
     (if frame = [] then ((Some (Core (Avtp_err Short_buffer)), no_reply), s)
      else if peek_conditional_request_type frame \<noteq> None then
        (let peek = decode_acf_message_info frame in
         case admission_index (a_byte_bus_id peek) of
           None \<Rightarrow> (set_error_response peek (Core (Regmap_err Invalid_parameter)), s)
         | Some i \<Rightarrow>
             if \<not> operational_requests_allowed s
             then suppressed sid (\<lambda>s. (set_error_response peek (Core (Regmap_err Request_rejected)), s)) s
             else
               (case admit_and_classify frame peek (mk_admissions s ! i) of
                  (None, ep) \<Rightarrow> ((None, no_reply), set_admission i ep s)
                | (Some (ec, rep), ep) \<Rightarrow>
                    ((ec, suppress_response_per_stream_cfg (mk_regs s) sid rep), set_admission i ep s)))
      else
        (case decode_acf_frame frame (peek_acf_msg_type frame = kAcfMsgTypeGbb) of
           Inl ec \<Rightarrow> ((Some (Core ec), no_reply), s)
         | Inr (req, _, payload) \<Rightarrow> dispatch req payload sid s))"

section \<open>What the server keeps of each stream\<close>

definition stream_index_of :: "mock_server \<Rightarrow> stream_id \<Rightarrow> nat" where
  "stream_index_of s sid = unat (resolve_index (rm_request_streams (mk_regs s)) (to_u64 sid))"

definition rx_watchdog_kick :: "stream_id \<Rightarrow> u64 \<Rightarrow> mock_server \<Rightarrow> mock_server" where
  "rx_watchdog_kick sid now_ms s =
     (let i = stream_index_of s sid in
      if i = 0 then s
      else s\<lparr>mk_watchdogs := (mk_watchdogs s)[i - 1 := kick_wd (mk_watchdogs s ! (i - 1)) now_ms]\<rparr>)"

definition seq_gate_admits :: "stream_id \<Rightarrow> u8 \<Rightarrow> mock_server \<Rightarrow> bool \<times> mock_server" where
  "seq_gate_admits sid sequence_num s =
     (let i = stream_index_of s sid in
      if i = 0 then (True, s)
      else
        (case evaluate (mk_seq s ! (i - 1)) (rm_request_streams (mk_regs s) ! (i - 1)) sequence_num of
           (result, guard) \<Rightarrow>
             (sq_accept result,
              s\<lparr>mk_seq := (mk_seq s)[i - 1 := guard],
                mk_status := (mk_status s)[i - 1 := note_seq (sq_enter_safe_state result) (mk_status s ! (i - 1))]\<rparr>)))"

definition stream_rx_blocked :: "stream_id \<Rightarrow> mock_server \<Rightarrow> bool" where
  "stream_rx_blocked sid s \<longleftrightarrow>
     stream_index_of s sid \<noteq> 0 \<and> rx_blocked (mk_status s ! (stream_index_of s sid - 1))"

text \<open>The loop that purges the queue of every endpoint mapped to the stream.\<close>

definition purge_mapped :: "u8 \<Rightarrow> mock_server \<Rightarrow> nat \<times> mock_server" where
  "purge_mapped stream_index s =
     fold (\<lambda>e (purged, s).
         if em_request_stream_index e = stream_index
         then (case mock_watchdog_purge (em_byte_bus_id e) s of (n, s) \<Rightarrow> (purged + n, s))
         else (purged, s))
       (rm_ep_id_mapping (mk_regs s)) (0, s)"

text \<open>The result, the number of purged requests and the server.\<close>

definition check_watchdog_overflow :: "stream_id \<Rightarrow> u64 \<Rightarrow> mock_server \<Rightarrow> bool \<times> nat \<times> mock_server" where
  "check_watchdog_overflow sid now_ms s =
     (let i = stream_index_of s sid in
      if i = 0 then (False, 0, s)
      else
        (let cfg = rm_request_streams (mk_regs s) ! (i - 1);
             wd = mk_watchdogs s ! (i - 1);
             overflowed_now = (\<not> rw_in_safe_state wd \<and> overflowed wd cfg now_ms);
             enter = (overflowed_now \<and> rs_rx_wd_safestate_enable cfg);
             s = s\<lparr>mk_status := (mk_status s)[i - 1 := note_wd enter (mk_status s ! (i - 1))]\<rparr>
         in if enter
            then (case purge_mapped (of_nat i)
                         (s\<lparr>mk_watchdogs := (mk_watchdogs s)[i - 1 := enter_safe_state wd]\<rparr>) of
                    (purged, s) \<Rightarrow> (True, purged, s))
            else (True, 0, s)))"

text \<open>A CRC error is noted in the tracker of faulted streams and in the stream's status.\<close>

definition note_stream_crc_error :: "stream_id \<Rightarrow> mock_server \<Rightarrow> mock_server" where
  "note_stream_crc_error sid s =
     (let i = stream_index_of s sid;
          rx_enforce_e2e = (if i \<noteq> 0 then rs_rx_enforce_e2e (rm_request_streams (mk_regs s) ! (i - 1)) else False);
          s = s\<lparr>mk_faults := snd (on_crc_error (mk_faults s) (to_u64 sid) rx_enforce_e2e)\<rparr>
      in if i \<noteq> 0
         then s\<lparr>mk_status := (mk_status s)[i - 1 := note_crc_error rx_enforce_e2e (mk_status s ! (i - 1))]\<rparr>
         else s)"

section \<open>One protected message\<close>

definition kE2eHeaderOctet1Placeholder :: u8 where "kE2eHeaderOctet1Placeholder = 0"

definition error_reply_from_frame :: "octets \<Rightarrow> wire_error_code \<Rightarrow> reply" where
  "error_reply_from_frame frame wec =
     (if length frame < kAcfCommonHeaderLen then no_reply
      else error_reply (decode_acf_message_info frame) wec)"

definition crc_enabled :: "u16 \<Rightarrow> mock_server \<Rightarrow> bool" where
  "crc_enabled byte_bus_id s \<longleftrightarrow>
     1 \<le> byte_bus_id \<and> unat byte_bus_id \<le> length (rm_generic_configs (mk_regs s)) \<and>
     eg_ep_req_crc_enable (rm_generic_configs (mk_regs s) ! (unat byte_bus_id - 1))"

definition unwrap_member :: "stream_id \<Rightarrow> octets \<Rightarrow> error option \<times> octets" where
  "unwrap_member sid frame = unwrap_framed True kE2eHeaderOctet1Placeholder False sid None frame"

definition dispatch_e2e_core ::
    "stream_id \<Rightarrow> u8 \<Rightarrow> octets \<Rightarrow> bool \<Rightarrow> mock_server \<Rightarrow> dispatched \<times> mock_server" where
  "dispatch_e2e_core sid sequence_num frame apply_seq_gate s =
     (let s = rx_watchdog_kick sid 0 s in
      if is_faulted (mk_faults s) (to_u64 sid)
      then ((Some (Dispatch_code Dispatch_stream_faulted), error_reply_from_frame frame PociFailure), s)
      else if length frame < kAcfCommonHeaderLen then ((Some (Core (Regmap_err Invalid_parameter)), no_reply), s)
      else
        (let peek = decode_acf_message_info frame in
         if \<not> crc_enabled (a_byte_bus_id peek) s then decode_and_dispatch frame sid s
         else
           (case (if apply_seq_gate then seq_gate_admits sid sequence_num s else (True, s)) of
              (False, s) \<Rightarrow> ((Some (Dispatch_code Dispatch_seq_error), no_reply), s)
            | (True, s) \<Rightarrow>
                (case unwrap_member sid frame of
                   (Some ec, _) \<Rightarrow>
                     ((Some (Core ec),
                       if ec = E2e_err Crc_error then error_reply peek PociFailure else no_reply),
                      note_stream_crc_error sid s)
                 | (None, acf_frame) \<Rightarrow> decode_and_dispatch acf_frame sid s))))"

definition dispatch_e2e :: "stream_id \<Rightarrow> u8 \<Rightarrow> octets \<Rightarrow> mock_server \<Rightarrow> dispatched \<times> mock_server" where
  "dispatch_e2e sid sequence_num frame s = dispatch_e2e_core sid sequence_num frame True s"

section \<open>Long responses\<close>

definition resp_queue_index :: "mock_server \<Rightarrow> nat \<Rightarrow> nat option" where
  "resp_queue_index s stream_index =
     (if stream_index = 0 \<or> length (rm_request_streams (mk_regs s)) < stream_index then None
      else
        (let i = unat (rs_rx_resp_stream_index (rm_request_streams (mk_regs s) ! (stream_index - 1))) in
         if i = 0 \<or> length (rm_response_streams (mk_regs s)) < i \<or> length (mk_resp_queues s) < i then None
         else Some (i - 1)))"

definition response_ceiling :: "mock_server \<Rightarrow> nat \<Rightarrow> bool \<Rightarrow> nat" where
  "response_ceiling s stream_index is_gbb =
     (let header_len = (if is_gbb then kAcfGbbMessageInfoLen else kAcfCommonHeaderLen);
          ceiling = (if is_gbb then kAcfGbbMaxPayload else kAcfAbbMaxPayload);
          i = (if stream_index \<noteq> 0 \<and> stream_index \<le> length (rm_request_streams (mk_regs s))
               then unat (rs_rx_resp_stream_index (rm_request_streams (mk_regs s) ! (stream_index - 1))) else 0)
      in if i \<noteq> 0 \<and> i \<le> length (rm_response_streams (mk_regs s)) then
           (let max_size = rq_max_avtpdu_size (rm_response_streams (mk_regs s) ! (i - 1));
                configured = max_fragment_payload (unat max_size * 4) header_len
            in if max_size \<noteq> 0 \<and> configured \<noteq> 0 \<and> configured < ceiling then configured else ceiling)
         else ceiling)"

definition response_fragment :: "acf_info \<Rightarrow> octets \<Rightarrow> segment \<Rightarrow> octets" where
  "response_fragment resp payload seg =
     (let frag = (if sg_ms seg then resp\<lparr>a_ms := True, a_read_size := sg_segment_num seg\<rparr> else resp\<lparr>a_ms := False\<rparr>)
            \<lparr>a_pad := 0, a_msg_length := 0\<rparr>;
          part = slice payload seg
      in if a_msg_type resp = kAcfMsgTypeGbb then encode_acf_gbb frag 0 part else encode_acf_abb frag part)"

text \<open>
  The loop that pushes the fragments until one is refused. \<open>push\<close> is defined on every queue in a
  consistent state.
\<close>

fun push_all :: "octets list \<Rightarrow> resp_queue \<Rightarrow> bool \<times> resp_queue" where
  "push_all [] q = (True, q)"
| "push_all (frame # frames) q =
     (case the (push q frame) of (pushed, q) \<Rightarrow> if pushed then push_all frames q else (False, q))"

definition maybe_fragment_response ::
    "nat \<Rightarrow> reply \<Rightarrow> mock_server \<Rightarrow> dispatched \<times> mock_server" where
  "maybe_fragment_response stream_index rep s =
     (case rep of (resp, payload) \<Rightarrow>
       if \<not> a_rsp resp then ((None, rep), s)
       else
         (let ceiling = response_ceiling s stream_index (a_msg_type resp = kAcfMsgTypeGbb) in
          if length payload \<le> ceiling then ((None, rep), s)
          else
            (let seg_count = plan_count (length payload) ceiling;
                 rejected = set_error_response resp (Core (Regmap_err Request_rejected))
             in
             case resp_queue_index s stream_index of
               None \<Rightarrow> (rejected, s)
             | Some qi \<Rightarrow>
                 if seg_count = 0 \<or> kMaxQueueEntries < seg_count then (rejected, s)
                 else
                   (case plan (length payload) ceiling seg_count of
                      Inl _ \<Rightarrow> (rejected, s)
                    | Inr segs \<Rightarrow>
                        (case push_all (map (response_fragment resp payload) segs) (mk_resp_queues s ! qi) of
                           (pushed_all, queue) \<Rightarrow>
                             (if pushed_all then (Some (Dispatch_code Dispatch_response_fragmented), no_reply)
                              else rejected,
                              s\<lparr>mk_resp_queues := (mk_resp_queues s)[qi := queue]\<rparr>))))))"

section \<open>A protected message that may be a fragment\<close>

definition trim_wire_pad :: "octets \<Rightarrow> u8 \<Rightarrow> octets" where
  "trim_wire_pad payload pad =
     (if pad = 0 then payload
      else if length payload < unat pad then []
      else take (length payload - unat pad) payload)"

definition set_reassembler :: "nat \<Rightarrow> reassembler \<Rightarrow> mock_server \<Rightarrow> mock_server" where
  "set_reassembler i r s = s\<lparr>mk_reassemblers := (mk_reassemblers s)[i := r]\<rparr>"

text \<open>The branch of an intermediate fragment, for the stream with this position in the table.\<close>

definition intermediate_fragment ::
    "nat \<Rightarrow> acf_info \<Rightarrow> octets \<Rightarrow> mock_server \<Rightarrow> dispatched \<times> mock_server" where
  "intermediate_fragment i peek frag s =
     (let is_gbb = (a_msg_type peek = kAcfMsgTypeGbb);
          header_len = (if is_gbb then kAcfGbbMessageInfoLen else kAcfCommonHeaderLen);
          rejected = (Some (Dispatch_code Dispatch_fragment_rejected), no_reply)
      in
      case decode_acf_frame frag is_gbb of
        Inl _ \<Rightarrow> (rejected, s)
      | Inr (hdr, _, payload) \<Rightarrow>
          (let payload = trim_wire_pad payload (a_pad hdr);
               r = mk_reassemblers s ! i;
               s = (if \<not> ra_collecting r
                    then s\<lparr>mk_first_headers := (mk_first_headers s)[i := take header_len frag]\<rparr> else s)
           in case feed r True (a_read_size peek) payload of
                (KContinue, r) \<Rightarrow>
                  ((Some (Dispatch_code Dispatch_fragment_pending), no_reply), set_reassembler i r s)
              | (_, r) \<Rightarrow> (rejected, set_reassembler i (ra_reset r) s)))"

text \<open>
  The branch of the final fragment while the stream is collecting; the result says whether the
  completed request is to be dispatched, and gives its encoding.
\<close>

definition final_fragment ::
    "nat \<Rightarrow> stream_id \<Rightarrow> acf_info \<Rightarrow> octets \<Rightarrow> mock_server \<Rightarrow> (dispatched + octets) \<times> mock_server" where
  "final_fragment i sid peek frag s =
     (let is_gbb = (a_msg_type peek = kAcfMsgTypeGbb);
          rejected = Inl (Some (Dispatch_code Dispatch_fragment_rejected), no_reply);
          r = mk_reassemblers s ! i;
          reset = set_reassembler i (ra_reset r) s
      in
      if length frag < kCrcLengthAdjustOctets \<or> length frag - kCrcLengthAdjustOctets < unat (a_pad peek)
      then (rejected, reset)
      else
        (let real_len = length frag - kCrcLengthAdjustOctets - unat (a_pad peek);
             got = get_u32 (drop real_len frag)
         in
         case unwrap_member sid frag of
           (uw_ec, acf_frame) \<Rightarrow>
             if uw_ec = Some (E2e_err e2e_errc.Short_frame) then (Inl (Some (Core (E2e_err e2e_errc.Short_frame)), no_reply), reset)
             else
               (case decode_acf_frame acf_frame is_gbb of
                  Inl _ \<Rightarrow> (rejected, reset)
                | Inr (final_hdr, final_ts, final_payload) \<Rightarrow>
                    (case feed r False 0 (trim_wire_pad final_payload (a_pad final_hdr)) of
                       (KComplete, r') \<Rightarrow>
                         (let reassembled = ra_data r';
                              want = compute_fragmented_crc kSubtypeNtscf kE2eHeaderOctet1Placeholder False sid None
                                (mk_first_headers s ! i) reassembled;
                              max_payload = (if is_gbb then kAcfGbbMaxPayload else kAcfAbbMaxPayload)
                          in
                          if got \<noteq> want
                          then (Inl (Some (Core (E2e_err Crc_error)), error_reply final_hdr PociFailure),
                                note_stream_crc_error sid reset)
                          else if max_payload < length reassembled
                          then (Inl (set_error_response final_hdr (Core (Regmap_err Request_rejected))), reset)
                          else
                            (let final_hdr = final_hdr\<lparr>a_pad := 0, a_msg_length := 0\<rparr> in
                             (Inr (if is_gbb then encode_acf_gbb final_hdr final_ts reassembled
                                   else encode_acf_abb final_hdr reassembled), reset)))
                     | (_, r') \<Rightarrow> (rejected, reset)))))"

definition dispatch_e2e_fragment_core ::
    "stream_id \<Rightarrow> u8 \<Rightarrow> octets \<Rightarrow> bool \<Rightarrow> mock_server \<Rightarrow> dispatched \<times> mock_server" where
  "dispatch_e2e_fragment_core sid sequence_num frag apply_seq_gate s =
     (let s = rx_watchdog_kick sid 0 s in
      if is_faulted (mk_faults s) (to_u64 sid)
      then ((Some (Dispatch_code Dispatch_stream_faulted), error_reply_from_frame frag PociFailure), s)
      else if length frag < kAcfCommonHeaderLen then ((Some (Core (Regmap_err Invalid_parameter)), no_reply), s)
      else
        (let peek = decode_acf_message_info frag; i = stream_index_of s sid in
         if \<not> crc_enabled (a_byte_bus_id peek) s then decode_and_dispatch frag sid s
         else if i = 0 then dispatch_e2e_core sid sequence_num frag apply_seq_gate s
         else if a_ms peek then intermediate_fragment (i - 1) peek frag s
         else if \<not> ra_collecting (mk_reassemblers s ! (i - 1))
         then dispatch_e2e_core sid sequence_num frag apply_seq_gate s
         else
           (case final_fragment (i - 1) sid peek frag s of
              (Inl result, s) \<Rightarrow> (result, s)
            | (Inr encoded, s) \<Rightarrow>
                (case decode_and_dispatch encoded sid s of
                   ((Some ec, rep), s) \<Rightarrow> ((Some ec, rep), s)
                 | ((None, rep), s) \<Rightarrow> maybe_fragment_response i rep s))))"

definition dispatch_e2e_fragment :: "stream_id \<Rightarrow> octets \<Rightarrow> mock_server \<Rightarrow> dispatched \<times> mock_server" where
  "dispatch_e2e_fragment sid frag s = dispatch_e2e_fragment_core sid 0 frag True s"

section \<open>Protection\<close>

text \<open>The frame as the server expects it from the sender, and what the checks may change.\<close>

definition wrap_member :: "stream_id \<Rightarrow> acf_info \<Rightarrow> u64 option \<Rightarrow> octets \<Rightarrow> octets" where
  "wrap_member sid info mts payload =
     wrap_framed True kE2eHeaderOctet1Placeholder False sid None info mts payload"

definition only_streams :: "mock_server \<Rightarrow> mock_server \<Rightarrow> bool" where
  "only_streams s s' \<longleftrightarrow>
     s' = s\<lparr>mk_watchdogs := mk_watchdogs s', mk_seq := mk_seq s', mk_status := mk_status s', mk_faults := mk_faults s'\<rparr>"

lemma only_streams_iff:
  "only_streams s s' \<longleftrightarrow>
     (\<exists>w q t f. s' = s\<lparr>mk_watchdogs := w, mk_seq := q, mk_status := t, mk_faults := f\<rparr>)"
  by (auto simp: only_streams_def)

lemma only_streams_refl [simp]: "only_streams s s"
  by (simp add: only_streams_def)

lemma only_streams_trans: "only_streams s s' \<Longrightarrow> only_streams s' s'' \<Longrightarrow> only_streams s s''"
  by (fastforce simp: only_streams_iff)

lemma stream_checks_keep [simp]:
  "only_streams s (rx_watchdog_kick sid now s)" "only_streams s (snd (seq_gate_admits sid n s))"
  "only_streams s (note_stream_crc_error sid s)"
  by (simp_all add: only_streams_def rx_watchdog_kick_def seq_gate_admits_def note_stream_crc_error_def Let_def
      split: prod.splits)

lemma stream_checks_regs [simp]:
  "mk_regs (rx_watchdog_kick sid now s) = mk_regs s" "mk_regs (snd (seq_gate_admits sid n s)) = mk_regs s"
  "mk_regs (note_stream_crc_error sid s) = mk_regs s"
  by (simp_all add: mk_regs_def rx_watchdog_kick_def seq_gate_admits_def note_stream_crc_error_def Let_def
      split: prod.splits)

lemma stream_checks_faults [simp]:
  "mk_faults (rx_watchdog_kick sid now s) = mk_faults s" "mk_faults (snd (seq_gate_admits sid n s)) = mk_faults s"
  by (simp_all add: rx_watchdog_kick_def seq_gate_admits_def Let_def split: prod.splits)

lemma crc_enabled_regs: "mk_regs s' = mk_regs s \<Longrightarrow> crc_enabled bus s' = crc_enabled bus s"
  by (simp add: crc_enabled_def)

lemma wire_header_long: "8 \<le> length (wire_header i ts)"
  by (simp add: wire_header_def)

lemma wrapped_bus [simp]: "a_byte_bus_id (wrapped_info info payload) = a_byte_bus_id info"
  by (simp add: wrapped_info_def apply_acf_length_adjustment_def fill_length_def)


text \<open>A message whose CRC does not match is refused, and its stream is blocked when the stream enforces it.\<close>

lemma dispatch_e2e_refused:
  assumes "kAcfCommonHeaderLen \<le> length frame" "\<not> is_faulted (mk_faults s) (to_u64 sid)"
    "crc_enabled (a_byte_bus_id (decode_acf_message_info frame)) s"
    "fst (seq_gate_admits sid n (rx_watchdog_kick sid 0 s))"
    "fst (unwrap_member sid frame) = Some (E2e_err Crc_error)"
  shows "dispatch_e2e sid n frame s =
    ((Some (Core (E2e_err Crc_error)), error_reply (decode_acf_message_info frame) PociFailure),
     note_stream_crc_error sid (snd (seq_gate_admits sid n (rx_watchdog_kick sid 0 s))))"
  using assms crc_enabled_regs [of "rx_watchdog_kick sid 0 s" s "a_byte_bus_id (decode_acf_message_info frame)"]
  by (cases "seq_gate_admits sid n (rx_watchdog_kick sid 0 s)"; cases "unwrap_member sid frame")
    (simp add: dispatch_e2e_def dispatch_e2e_core_def Let_def not_less)

lemma faulted_stream_refused:
  assumes "is_faulted (mk_faults s) (to_u64 sid)"
  shows "dispatch_e2e sid n frame s =
    ((Some (Dispatch_code Dispatch_stream_faulted), error_reply_from_frame frame PociFailure),
     rx_watchdog_kick sid 0 s)"
  using assms by (simp add: dispatch_e2e_def dispatch_e2e_core_def Let_def)

lemma noted_error_blocks:
  assumes "wf_tracker (mk_faults s)" "stream_index_of s sid \<noteq> 0"
    "rs_rx_enforce_e2e (rm_request_streams (mk_regs s) ! (stream_index_of s sid - 1))"
    "\<exists>i < 16. \<not> fl_used (mk_faults s ! i)"
  shows "is_faulted (mk_faults (note_stream_crc_error sid s)) (to_u64 sid)"
proof -
  have "mk_faults (note_stream_crc_error sid s) = snd (on_crc_error (mk_faults s) (to_u64 sid) True)"
    using assms(2,3) by (simp add: note_stream_crc_error_def Let_def)
  then show ?thesis
    using fault_tracker_exact [OF assms(1), where sid = "to_u64 sid" and enforce = True] assms(4) by (auto split: prod.splits)
qed

section \<open>A faulted stream stays faulted\<close>

definition faults_kept :: "mock_server \<Rightarrow> mock_server \<Rightarrow> bool" where
  "faults_kept s s' \<longleftrightarrow>
     (wf_tracker (mk_faults s) \<longrightarrow>
        wf_tracker (mk_faults s') \<and> (\<forall>k. is_faulted (mk_faults s) k \<longrightarrow> is_faulted (mk_faults s') k))"

lemma faults_kept_same: "mk_faults s' = mk_faults s \<Longrightarrow> faults_kept s s'"
  by (simp add: faults_kept_def)

lemma faults_kept_trans: "faults_kept s s' \<Longrightarrow> faults_kept s' s'' \<Longrightarrow> faults_kept s s''"
  by (simp add: faults_kept_def)

lemma faults_kept_crc_error: "faults_kept s (note_stream_crc_error sid s)"
proof -
  have "\<exists>b. mk_faults (note_stream_crc_error sid s) = snd (on_crc_error (mk_faults s) (to_u64 sid) b)"
    by (cases "stream_index_of s sid = 0") (auto simp: note_stream_crc_error_def Let_def)
  then obtain b where "mk_faults (note_stream_crc_error sid s) = snd (on_crc_error (mk_faults s) (to_u64 sid) b)" ..
  then show ?thesis
    using fault_tracker_exact [where slots = "mk_faults s" and sid = "to_u64 sid" and enforce = b] by (auto simp: faults_kept_def split: prod.splits)
qed

lemma set_admission_faults [simp]: "mk_faults (set_admission i ep s) = mk_faults s"
  by (simp add: set_admission_def)

lemma suppressed_state [simp]: "snd (suppressed sid inner s) = snd (inner s)"
  by (simp add: suppressed_def split: prod.split)

lemma dispatch_faults: "mk_faults (snd (dispatch req payload sid s)) = mk_faults s"
proof (cases "a_byte_bus_id req = kEp0 \<or> admission_index (a_byte_bus_id req) = None")
  case True
  then show ?thesis by (auto simp: dispatch_eq dispatch_ep0_def split: option.split)
next
  case False
  then obtain i where i: "admission_index (a_byte_bus_id req) = Some i" by auto
  have run: "mk_faults (snd (run_endpoint i req payload s')) = mk_faults s'" for s'
    using run_endpoint_well [OF admission_index_bound [OF i], of req s' payload]
    by (simp add: well_run_def others_kept_def same_rest_def)
  have "mk_faults (snd (admitted i req payload (run_endpoint i req payload) s)) = mk_faults s"
    by (simp add: admitted_def run split: option.split prod.split)
  then show ?thesis using False i by (simp add: dispatch_eq)
qed

lemma decode_and_dispatch_faults: "mk_faults (snd (decode_and_dispatch frame sid s)) = mk_faults s"
  by (simp add: decode_and_dispatch_def dispatch_faults Let_def split: option.split prod.split sum.split)

lemma faults_kept_core: "faults_kept s (snd (dispatch_e2e_core sid n frame gate s))"
proof -
  have d: "faults_kept s (snd (decode_and_dispatch f sid s'))" if "mk_faults s' = mk_faults s" for f s'
    using that decode_and_dispatch_faults by (intro faults_kept_same) simp
  have c: "faults_kept s (note_stream_crc_error sid s')" if "mk_faults s' = mk_faults s" for s'
    using that faults_kept_crc_error faults_kept_same faults_kept_trans by blast
  obtain b s' where g: "(if gate then seq_gate_admits sid n (rx_watchdog_kick sid 0 s)
      else (True, rx_watchdog_kick sid 0 s)) = (b, s')"
    by fastforce
  then have s': "mk_faults s' = mk_faults s"
    using stream_checks_faults(2) [of sid n "rx_watchdog_kick sid 0 s"]
    by (cases gate) (simp_all add: stream_checks_faults(1), metis snd_conv stream_checks_faults(1))
  have k: "faults_kept s (rx_watchdog_kick sid 0 s)" by (simp add: faults_kept_same)
  show ?thesis
    using d [OF s'] c [OF s'] d [of "rx_watchdog_kick sid 0 s"] faults_kept_same [OF s'] k
    unfolding dispatch_e2e_core_def Let_def g
    by (cases "unwrap_member sid frame") (simp split: bool.split option.split)
qed

lemma fragment_faults:
  "mk_faults (set_reassembler i r s) = mk_faults s"
  "mk_faults (snd (intermediate_fragment i peek frag s)) = mk_faults s"
  "mk_faults (snd (maybe_fragment_response j rep s)) = mk_faults s"
  by (simp_all add: set_reassembler_def intermediate_fragment_def maybe_fragment_response_def Let_def
      split: sum.split prod.split option.split reasm_result.split)

lemma faults_kept_final: "faults_kept s (snd (final_fragment i sid peek frag s))"
proof -
  have "faults_kept s (note_stream_crc_error sid (set_reassembler i r s))" for r
    using faults_kept_crc_error faults_kept_trans faults_kept_same fragment_faults(1) by metis
  then show ?thesis
    by (auto simp: final_fragment_def Let_def faults_kept_same fragment_faults
        split: sum.split prod.split reasm_result.split)
qed

lemma faults_kept_fragment: "faults_kept s (snd (dispatch_e2e_fragment_core sid n frag gate s))"
proof -
  let ?s = "rx_watchdog_kick sid 0 s"
  have k: "faults_kept s ?s" by (simp add: faults_kept_same)
  have dispatched: "faults_kept s (snd (case decode_and_dispatch encoded sid s2 of
         ((Some ec, rep), s) \<Rightarrow> ((Some ec, rep), s) | ((None, rep), s) \<Rightarrow> maybe_fragment_response j rep s))"
    if "faults_kept s s2" for s2 encoded j
    using that decode_and_dispatch_faults [of encoded sid s2]
    by (cases "decode_and_dispatch encoded sid s2")
       (auto simp: fragment_faults faults_kept_def split: prod.split option.split)
  have "faults_kept s (snd (case final_fragment i sid peek frag ?s of
              (Inl result, s) \<Rightarrow> (result, s)
            | (Inr encoded, s) \<Rightarrow>
                (case decode_and_dispatch encoded sid s of
                   ((Some ec, rep), s) \<Rightarrow> ((Some ec, rep), s)
                 | ((None, rep), s) \<Rightarrow> maybe_fragment_response j rep s)))" for i peek j
    using dispatched faults_kept_trans [OF k faults_kept_final [of ?s i sid peek frag]]
    by (cases "final_fragment i sid peek frag ?s") (auto split: sum.split)
  then show ?thesis
    using k faults_kept_core [of ?s] faults_kept_trans [OF k]
    by (simp add: dispatch_e2e_fragment_core_def Let_def faults_kept_same fragment_faults decode_and_dispatch_faults)
qed

text \<open>Messages of whatever streams, each given to \<open>dispatch_e2e\<close> or, as a fragment, to \<open>dispatch_e2e_fragment\<close>.\<close>

datatype e2e_message = Message stream_id u8 octets | Piece stream_id octets

fun e2e_do :: "e2e_message \<Rightarrow> mock_server \<Rightarrow> mock_server" where
  "e2e_do (Message sid n frame) s = snd (dispatch_e2e sid n frame s)"
| "e2e_do (Piece sid frag) s = snd (dispatch_e2e_fragment sid frag s)"

lemma faults_kept_messages: "faults_kept s (fold e2e_do messages s)"
proof (induction messages arbitrary: s)
  case (Cons m messages)
  have "faults_kept s (e2e_do m s)"
    by (cases m) (simp_all add: dispatch_e2e_def dispatch_e2e_fragment_def faults_kept_core faults_kept_fragment)
  then show ?case using Cons.IH faults_kept_trans by auto
qed (simp add: faults_kept_same)

lemma faulted_fragment_refused:
  assumes "is_faulted (mk_faults s) (to_u64 sid)"
  shows "dispatch_e2e_fragment sid frag s =
    ((Some (Dispatch_code Dispatch_stream_faulted), error_reply_from_frame frag PociFailure),
     rx_watchdog_kick sid 0 s)"
  using assms by (simp add: dispatch_e2e_fragment_def dispatch_e2e_fragment_core_def Let_def)


section \<open>Corrupted requests\<close>


section \<open>Witnesses\<close>

definition sample_stream :: stream_id where
  "sample_stream = \<lparr>mac = [1, 2, 3, 4, 5, 6], suffix = 7\<rparr>"

text \<open>A live server with one request stream that enforces protection, which every endpoint requires.\<close>

definition protected_server :: mock_server where
  "protected_server =
     (let s = snd (advance_to_rcp_configured None None new_mock) in
      set_regs ((mk_regs s)
        \<lparr>rm_request_streams := [request_stream_default\<lparr>rs_stream_id := sample_stream, rs_rx_enforce_e2e := True\<rparr>],
         rm_generic_configs := replicate 10 (generic_config_zero\<lparr>eg_ep_req_crc_enable := True\<rparr>)\<rparr>) s)"

definition mdio_write :: acf_info where
  "mdio_write = acf_default\<lparr>a_byte_bus_id := kMdioByteBusId, a_op := True, a_transaction_num := 9\<rparr>"

lemma protected_server_state:
  "mk_faults protected_server = new_tracker" "stream_index_of protected_server sample_stream = 1"
  "rm_request_streams (mk_regs protected_server) =
     [request_stream_default\<lparr>rs_stream_id := sample_stream, rs_rx_enforce_e2e := True\<rparr>]"
  "crc_enabled 10 protected_server" "\<not> is_faulted (mk_faults protected_server) n"
  "mk_seq protected_server ! 0 = \<lparr>sg_has_last = False, sg_last_seq = 0\<rparr>"
proof -
  have st: "\<exists>e. snd (advance_to_rcp_configured None None new_mock) = new_mock\<lparr>mk_ep0 := e\<rparr>"
    by (simp add: advance_to_rcp_configured_def mock_advance_def split: prod.splits option.splits)
       (metis mock_server.update_convs(1) mock_server.surjective)
  show "mk_faults protected_server = new_tracker" "stream_index_of protected_server sample_stream = 1"
    "rm_request_streams (mk_regs protected_server) =
       [request_stream_default\<lparr>rs_stream_id := sample_stream, rs_rx_enforce_e2e := True\<rparr>]"
    "crc_enabled 10 protected_server" "mk_seq protected_server ! 0 = \<lparr>sg_has_last = False, sg_last_seq = 0\<rparr>"
    using st
    by (auto simp: protected_server_def Let_def set_regs_def mk_regs_def stream_index_of_def resolve_index_def
        crc_enabled_def new_mock_def set_discovery_timeout_us_def request_stream_default_def kMaxEntries_def)
  then show "\<not> is_faulted (mk_faults protected_server) n"
    by (auto simp: is_faulted_def find_slot_def new_tracker_def find_Some_iff split: option.splits)
qed

lemma protected_server_admits:
  "fst (seq_gate_admits sample_stream n (rx_watchdog_kick sample_stream 0 protected_server))"
proof -
  have "mk_seq (rx_watchdog_kick sample_stream 0 protected_server) = mk_seq protected_server"
    by (simp add: rx_watchdog_kick_def Let_def)
  moreover have "stream_index_of (rx_watchdog_kick sample_stream 0 protected_server) sample_stream = 1"
    using protected_server_state(2) by (simp add: stream_index_of_def)
  ultimately show ?thesis
    by (simp add: seq_gate_admits_def Let_def protected_server_state evaluate_def)
qed

lemma mdio_write_protectable: "protectable mdio_write [0x12, 0x34]"
  by (simp add: protectable_def mdio_write_def acf_default_def fill_length_def compute_acf_msg_length_def wire_defs)

lemma mdio_write_bus: "a_byte_bus_id mdio_write AND 0x7FF = 10"
  by (simp add: mdio_write_def kMdioByteBusId_def)



end
