(* ===== verification/Mock_Frame.thy ===== *)
theory Mock_Frame
  imports Mock_E2e
begin

text \<open>
  Frames of several members, \<open>include/rcp/mock.hpp\<close>: the split of a frame into its members, the
  dispatch of one member after the other, and the chains, in which a member is executed or aborted
  by what became of its predecessor.
\<close>

section \<open>Members\<close>

definition kMaxFrameMembers :: nat where "kMaxFrameMembers = 32"

text \<open>
  The offsets of all members, \<open>None\<close> for a malformed frame. The code returns the number of
  offsets, 0 for a malformed frame, and stores the first 32.
\<close>

function member_offsets :: "octets \<Rightarrow> nat \<Rightarrow> nat list option" where
  "member_offsets frame offset =
     (if length frame \<le> offset then Some []
      else if length frame - offset < 2 then None
      else
        (let msg_type = drop_bit 1 (frame ! offset) in
         if msg_type \<noteq> kAcfMsgTypeAbb \<and> msg_type \<noteq> kAcfMsgTypeGbb then None
         else
           (let header_len = (if msg_type = kAcfMsgTypeAbb then kAcfCommonHeaderLen else kAcfGbbMessageInfoLen);
                quadlets = push_bit 8 (ucast (frame ! offset AND 0x01)) OR ucast (frame ! (offset + 1)) :: u16;
                msg_len = unat quadlets * 4
            in
            if length frame - offset < header_len then None
            else if msg_len < header_len then None
            else if length frame - offset < msg_len then None
            else map_option ((#) offset) (member_offsets frame (offset + msg_len)))))"
  by pat_completeness auto

termination member_offsets
  by (relation "measure (\<lambda>(frame, offset). length frame - offset)")
    (auto simp: kAcfCommonHeaderLen_def kAcfGbbMessageInfoLen_def kAcfGbbTimestampLen_def split: if_splits)

declare member_offsets.simps [simp del]

definition split_frame_members :: "octets \<Rightarrow> nat \<times> nat list" where
  "split_frame_members frame =
     (case member_offsets frame 0 of
        None \<Rightarrow> (0, [])
      | Some offsets \<Rightarrow> (length offsets, take kMaxFrameMembers offsets))"

text \<open>
  The members that the loop reaches: up to the next offset, the last one up to the end of the frame.
  The last stored offset of a frame with more members has no known end, and the loop stops there.
\<close>

definition frame_members :: "octets \<Rightarrow> octets list" where
  "frame_members frame =
     (case split_frame_members frame of
        (real_count, offsets) \<Rightarrow>
          map (\<lambda>i. let member_end = (if i + 1 < length offsets then offsets ! (i + 1) else length frame)
                   in drop (offsets ! i) (take member_end frame))
            [0..<if real_count = length offsets then real_count else length offsets - 1])"

section \<open>Dispatch of a frame\<close>

record frame_member_result =
  fm_result :: "code option"
  fm_byte_bus_id :: u16
  fm_response :: reply

text \<open>The loop's state beside the server: the progress of the chain.\<close>

record chain_progress =
  cp_aborted :: bool
  cp_prev_errored :: bool
  cp_group :: u32
  cp_position :: u8

definition no_chain :: chain_progress where
  "no_chain = \<lparr>cp_aborted = False, cp_prev_errored = False, cp_group = 0, cp_position = 0\<rparr>"

definition last_pending_index :: "server_endpoint \<Rightarrow> nat" where
  "last_pending_index ep =
     fst (fold (\<lambda>i (best, max_seq).
         case pending i ep of
           None \<Rightarrow> (best, max_seq)
         | Some slot \<Rightarrow>
             if best = kMaxPending \<or> max_seq \<le> pr_sequence slot then (i, pr_sequence slot) else (best, max_seq))
       [0..<kMaxPending] (kMaxPending, 0 :: u64))"

text \<open>A fresh entry of the store takes its place in the chain, and its predecessor is done.\<close>

definition record_chain_place :: "nat \<Rightarrow> nat \<Rightarrow> u32 \<Rightarrow> u8 \<Rightarrow> mock_server \<Rightarrow> mock_server" where
  "record_chain_place i pending_before grp position s =
     (let ep = mk_admissions s ! i; index = last_pending_index ep in
      if pending_before < se_pending_count ep \<and> index < kMaxPending
      then set_admission i
        (set_chain index grp position (snd (chain_predecessor_done index 0 ep))) s
      else s)"

definition decode_member :: "octets \<Rightarrow> acf_info option" where
  "decode_member member =
     (let msg_type = (if member = [] then 0 else peek_acf_msg_type member) in
      if msg_type = kAcfMsgTypeAbb then
        (case decode_acf_abb member of Inl _ \<Rightarrow> None | Inr (hdr, _) \<Rightarrow> Some hdr)
      else if msg_type = kAcfMsgTypeGbb then
        (case decode_acf_gbb member of Inl _ \<Rightarrow> None | Inr (hdr, _) \<Rightarrow> Some hdr)
      else None)"

definition counts_as_error :: "code option \<Rightarrow> bool" where
  "counts_as_error result \<longleftrightarrow>
     result = Some (Dispatch_code Dispatch_unknown_bus) \<or> result = Some (Core (Regmap_err Request_rejected))"

text \<open>One round of the loop, for the \<open>i\<close>-th member, with the dispatch of a member as an argument.\<close>

definition dispatch_member ::
    "(octets \<Rightarrow> mock_server \<Rightarrow> dispatched \<times> mock_server) \<Rightarrow> nat \<Rightarrow> octets \<Rightarrow> chain_progress \<Rightarrow> mock_server \<Rightarrow>
       frame_member_result \<times> chain_progress \<times> mock_server" where
  "dispatch_member dispatch_one i member c s =
     (case decode_member member of
        None \<Rightarrow>
          (\<lparr>fm_result = Some (Dispatch_code Dispatch_unknown_bus), fm_byte_bus_id = 0, fm_response = no_reply\<rparr>,
           c\<lparr>cp_prev_errored := True\<rparr>, s)
      | Some peek \<Rightarrow>
          (let chained = decode_chained_member member;
               c = (if isl chained then c\<lparr>cp_group := of_nat (i + 1), cp_position := 0\<rparr>
                    else c\<lparr>cp_position := 1 + cp_position c\<rparr>)
           in
           if \<not> isl chained \<and> i = 0 then
             (\<lparr>fm_result = Some (Dispatch_code Dispatch_chain_error), fm_byte_bus_id = a_byte_bus_id peek,
               fm_response = error_reply peek ChainError\<rparr>,
              c\<lparr>cp_aborted := True, cp_prev_errored := True\<rparr>, s)
           else if \<not> isl chained \<and>
             (cp_aborted c \<or> \<not> should_execute_chained (ch_cs (projr chained)) (cp_prev_errored c))
           then
             (\<lparr>fm_result = Some (Dispatch_code Dispatch_chain_aborted), fm_byte_bus_id = a_byte_bus_id peek,
               fm_response = error_reply peek ChainAborted\<rparr>,
              c\<lparr>cp_aborted := True, cp_prev_errored := True\<rparr>, s)
           else
             (let pending_before = pending_count (a_byte_bus_id peek) s in
              case dispatch_one member s of
                ((result, rep), s) \<Rightarrow>
                  (\<lparr>fm_result = result, fm_byte_bus_id = a_byte_bus_id peek, fm_response = rep\<rparr>,
                   c\<lparr>cp_prev_errored := counts_as_error result\<rparr>,
                   case admission_index (a_byte_bus_id peek) of
                     None \<Rightarrow> s
                   | Some k \<Rightarrow> record_chain_place k pending_before (cp_group c) (cp_position c) s))))"

fun dispatch_members ::
    "(octets \<Rightarrow> mock_server \<Rightarrow> dispatched \<times> mock_server) \<Rightarrow> nat \<Rightarrow> octets list \<Rightarrow> chain_progress \<Rightarrow>
       mock_server \<Rightarrow> frame_member_result list \<times> chain_progress \<times> mock_server" where
  "dispatch_members dispatch_one i [] c s = ([], c, s)"
| "dispatch_members dispatch_one i (member # members) c s =
     (case dispatch_member dispatch_one i member c s of
        (result, c, s) \<Rightarrow>
          (case dispatch_members dispatch_one (i + 1) members c s of
             (results, c, s) \<Rightarrow> (result # results, c, s)))"

definition dispatch_frame_impl ::
    "(octets \<Rightarrow> mock_server \<Rightarrow> dispatched \<times> mock_server) \<Rightarrow> octets \<Rightarrow> mock_server \<Rightarrow>
       frame_member_result list \<times> mock_server" where
  "dispatch_frame_impl dispatch_one frame s =
     (case dispatch_members dispatch_one 0 (frame_members frame) no_chain s of
        (results, c, s) \<Rightarrow> (results, s))"

definition dispatch_frame :: "stream_id \<Rightarrow> octets \<Rightarrow> mock_server \<Rightarrow> frame_member_result list \<times> mock_server" where
  "dispatch_frame sid frame s = dispatch_frame_impl (\<lambda>member. decode_and_dispatch member sid) frame s"

text \<open>
  With protection, the sequence number is checked once for the frame; a malformed frame is not
  checked. A rejected frame has the same result for every stored offset.
\<close>

definition dispatch_frame_e2e ::
    "stream_id \<Rightarrow> u8 \<Rightarrow> octets \<Rightarrow> mock_server \<Rightarrow> frame_member_result list \<times> mock_server" where
  "dispatch_frame_e2e sid sequence_num frame s =
     (case split_frame_members frame of
        (real_count, offsets) \<Rightarrow>
          if real_count = 0 then ([], s)
          else
            (case seq_gate_admits sid sequence_num s of
               (False, s) \<Rightarrow>
                 (replicate (length offsets)
                    \<lparr>fm_result = Some (Dispatch_code Dispatch_seq_error), fm_byte_bus_id = 0, fm_response = no_reply\<rparr>, s)
             | (True, s) \<Rightarrow>
                 dispatch_frame_impl (\<lambda>member. dispatch_e2e_fragment_core sid sequence_num member False) frame s))"


section \<open>The split is exact\<close>

text \<open>A message of one of the two types that is as long as its header says.\<close>

definition whole_message :: "octets \<Rightarrow> bool" where
  "whole_message m \<longleftrightarrow>
     (let hdr = decode_acf_message_info m in
      (a_msg_type hdr = kAcfMsgTypeAbb \<and> kAcfCommonHeaderLen \<le> length m \<or>
       a_msg_type hdr = kAcfMsgTypeGbb \<and> kAcfGbbMessageInfoLen \<le> length m) \<and>
      unat (a_msg_length hdr) * 4 = length m)"

lemma header_octets:
  "a_msg_type (decode_acf_message_info m) = drop_bit 1 (m ! 0)"
  "a_msg_length (decode_acf_message_info m) = push_bit 8 (ucast (m ! 0 AND 0x01)) OR ucast (m ! 1)"
  by (simp_all add: decode_acf_message_info_def Let_def)

text \<open>The messages that \<open>encode_acf_abb\<close> and \<open>encode_acf_gbb\<close> build are such messages, if padded to quadlets.\<close>

lemma encoded_entry_whole:
  assumes "exact_entry e"
  shows "whole_message (encode_entry e)"
proof -
  have wf: "mask_info (en_info e) = en_info e" using assms by (simp add: exact_entry_def mask_wf)
  have gbb: "gbb_header (en_info e) (en_payload e) = en_info e" if "a_msg_type (en_info e) = kAcfMsgTypeGbb"
    using that exact_length [OF assms] by (simp add: gbb_header_def fill_length_def)
  have abb: "abb_header (en_info e) (en_payload e) = en_info e"
    if "a_msg_type (en_info e) = kAcfMsgTypeAbb" "\<not> a_mtv (en_info e)"
    using that exact_length [OF assms] by (cases "en_info e") (simp add: abb_header_def fill_length_def)
  show ?thesis
    using assms gbb abb
    by (auto simp: exact_entry_def whole_message_def encode_entry_def encode_abb_eq encode_gbb_eq
        encode_acf_gbb_message_info_def wf Let_def kAcfGbbMessageInfoLen_def kAcfCommonHeaderLen_def
        kAcfGbbTimestampLen_def split: if_splits)
qed

fun offsets_of :: "nat \<Rightarrow> octets list \<Rightarrow> nat list" where
  "offsets_of n [] = []"
| "offsets_of n (m # ms) = n # offsets_of (n + length m) ms"

lemma length_offsets [simp]: "length (offsets_of n ms) = length ms"
  by (induction ms arbitrary: n) simp_all

lemma nth_offsets: "i < length ms \<Longrightarrow> offsets_of n ms ! i = n + length (concat (take i ms))"
proof (induction ms arbitrary: n i)
  case (Cons m ms)
  then show ?case by (cases i) simp_all
qed simp

lemma whole_message_long: "whole_message m \<Longrightarrow> 8 \<le> length m"
  by (auto simp: whole_message_def wire_defs Let_def)

lemma member_offsets_concat:
  "\<forall>m \<in> set ms. whole_message m \<Longrightarrow>
     member_offsets (pre @ concat ms) (length pre) = Some (offsets_of (length pre) ms)"
proof (induction ms arbitrary: pre)
  case Nil
  show ?case by (simp add: member_offsets.simps)
next
  case (Cons m ms)
  then have m: "whole_message m" "8 \<le> length m" by (simp_all add: whole_message_long)
  have nth: "(pre @ m @ concat ms) ! length pre = m ! 0" "(pre @ m @ concat ms) ! (length pre + 1) = m ! 1"
    using m(2) by (auto simp: nth_append)
  have "member_offsets (pre @ m @ concat ms) (length pre + length m) = Some (offsets_of (length pre + length m) ms)"
    using Cons.IH [of "pre @ m"] Cons.prems by simp
  then show ?case
    using m(1,2) unfolding whole_message_def header_octets Let_def
    by (subst member_offsets.simps) (auto simp: Let_def nth [simplified] wire_defs)
qed

text \<open>Of a frame with more than 32 messages, the first 31 are reached.\<close>

lemma frame_members_concat:
  assumes "\<forall>m \<in> set ms. whole_message m"
  shows "frame_members (concat ms) = (if length ms \<le> kMaxFrameMembers then ms else take (kMaxFrameMembers - 1) ms)"
    (is "_ = ?reached")
proof -
  let ?frame = "concat ms" and ?offsets = "take kMaxFrameMembers (offsets_of 0 ms)"
  have split: "split_frame_members ?frame = (length ms, ?offsets)"
    using member_offsets_concat [OF assms, of "[]"] by (simp add: split_frame_members_def)
  have part: "drop (?offsets ! i) (take (if i + 1 < length ?offsets then ?offsets ! (i + 1) else length ?frame) ?frame) = ms ! i"
    if i: "i < length ?reached" for i
  proof -
    have i': "i < length ms" "i < kMaxFrameMembers"
      using i by (auto split: if_splits)
    then have at: "?offsets ! i = length (concat (take i ms))" by (simp add: nth_offsets)
    have cut: "ms = take i ms @ ms ! i # drop (Suc i) ms" using i'(1) by (rule id_take_nth_drop)
    then have f: "?frame = concat (take i ms) @ ms ! i @ concat (drop (Suc i) ms)"
      by (metis concat.simps(2) concat_append)
    have "(if i + 1 < length ?offsets then ?offsets ! (i + 1) else length ?frame) =
        length (concat (take i ms)) + length (ms ! i)"
    proof (cases "i + 1 < length ?offsets")
      case True
      then show ?thesis using i' by (simp add: nth_offsets take_Suc_conv_app_nth)
    next
      case False
      then have "drop (Suc i) ms = []" using i i' by (auto split: if_splits)
      then have "concat (drop (Suc i) ms) = []" by simp
      then show ?thesis using False by (subst f) (auto simp del: length_concat)
    qed
    then show ?thesis unfolding at by (subst f) simp
  qed
  have "(if length ms = length ?offsets then length ms else length ?offsets - 1) = length ?reached"
    by auto
  then have "frame_members ?frame =
      map (\<lambda>i. drop (?offsets ! i)
        (take (if i + 1 < length ?offsets then ?offsets ! (i + 1) else length ?frame) ?frame)) [0..<length ?reached]"
    unfolding frame_members_def split Let_def by simp
  also have "\<dots> = map ((!) ?reached) [0..<length ?reached]"
    by (intro map_cong refl) (subst part, auto)
  finally show ?thesis by (simp only: map_nth)
qed

lemma whole_message_decodes:
  assumes "whole_message m"
  shows "decode_member m = Some (decode_acf_message_info m)"
proof -
  have "m \<noteq> []" using whole_message_long [OF assms] by auto
  then show ?thesis
    using assms
    by (auto simp: decode_member_def whole_message_def header_octets peek_acf_msg_type_def decode_acf_abb_def
        decode_acf_gbb_def decode_acf_gbb_message_info_def Let_def wire_defs)
qed

section \<open>Chains\<close>

text \<open>The results that only the loop over the members gives.\<close>

definition frame_code :: "code option \<Rightarrow> bool" where
  "frame_code result \<longleftrightarrow>
     result \<in> {Some (Dispatch_code Dispatch_chain_error), Some (Dispatch_code Dispatch_chain_aborted),
       Some (Dispatch_code Dispatch_unknown_bus)}"

lemma frame_code_simps [simp]:
  "\<not> frame_code None" "\<not> frame_code (Some (Core ec))"
  by (simp_all add: frame_code_def)

lemma request_code_no_frame [simp]:
  "(\<And>e. \<not> frame_code (Some (own e))) \<Longrightarrow> \<not> frame_code (Some (request_code own ec))"
  by (cases ec) simp_all

lemma own_codes_no_frame [simp]:
  "\<not> frame_code (Some (Gpio_code e1))" "\<not> frame_code (Some (Spi_code e2))" "\<not> frame_code (Some (I2c_code e3))"
  "\<not> frame_code (Some (Adc_code e4))" "\<not> frame_code (Some (Pwm_code e5))" "\<not> frame_code (Some (Lin_code e6))"
  "\<not> frame_code (Some (Can_code e7))" "\<not> frame_code (Some (Uart_code e8))" "\<not> frame_code (Some (Iseled_code e9))"
  "\<not> frame_code (Some (Mdio_code e10))"
  by (simp_all add: frame_code_def)

lemma result_codes [simp]:
  "frame_code (fst (set_error_response req ec)) \<longleftrightarrow> frame_code (Some ec)"
  "\<not> frame_code (fst (answer req kind payload))"
  by (simp_all add: set_error_response_def answer_def)

lemma run_endpoint_no_frame_code:
  assumes "i < 10"
  shows "\<not> frame_code (fst (fst (run_endpoint i req payload s)))"
proof -
  note splits = sum.split prod.split option.split evt_row2_kind.split
  have "\<not> frame_code (fst (fst (run_gpio req payload s)))" "\<not> frame_code (fst (fst (run_spi req payload s)))"
    "\<not> frame_code (fst (fst (run_i2c req payload s)))" "\<not> frame_code (fst (fst (run_pwm_in req payload s)))"
    "\<not> frame_code (fst (fst (run_lin req payload s)))" "\<not> frame_code (fst (fst (run_can req payload s)))"
    "\<not> frame_code (fst (fst (run_uart req payload s)))"
    by (simp_all add: run_gpio_def run_spi_def run_i2c_def run_pwm_in_def run_lin_def run_can_def run_uart_def
        split: splits)
  moreover have "\<not> frame_code (fst (fst (run_adc req payload s)))"
    "\<not> frame_code (fst (fst (run_iseled req payload s)))" "\<not> frame_code (fst (fst (run_mdio req payload s)))"
    by (simp_all add: run_adc_def measure_and_collect_def run_iseled_def run_mdio_def Let_def split: splits)
  ultimately show ?thesis
    using assms by (auto simp: run_endpoint_def less_Suc_eq numeral_eq_Suc)
qed

lemma admit_no_frame_code:
  "admit_and_classify frame req ep = (Some result, ep') \<Longrightarrow> \<not> frame_code (fst result)"
  by (auto simp: admit_and_classify_def frame_code_def split: prod.splits admit_outcome.splits if_splits)

lemma suppressed_result [simp]: "fst (fst (suppressed sid inner s)) = fst (fst (inner s))"
  by (simp add: suppressed_def split: prod.split)

lemma admitted_no_frame_code:
  "(\<And>s. \<not> frame_code (fst (fst (run s)))) \<Longrightarrow> \<not> frame_code (fst (fst (admitted i req payload run s)))"
  by (auto simp: admitted_def dest: admit_no_frame_code split: option.split prod.split)

lemma dispatch_no_frame_code: "\<not> frame_code (fst (fst (dispatch req payload sid s)))"
proof (cases "admission_index (a_byte_bus_id req)")
  case (Some i)
  then have "\<not> frame_code (fst (fst (admitted i req payload (run_endpoint i req payload) s)))"
    by (intro admitted_no_frame_code run_endpoint_no_frame_code admission_index_bound)
  then show ?thesis using Some by (simp add: dispatch_eq dispatch_ep0_def split: option.split)
qed (simp add: dispatch_eq dispatch_ep0_def split: option.split)

lemma decode_and_dispatch_no_frame_code: "\<not> frame_code (fst (fst (decode_and_dispatch frame sid s)))"
  by (auto simp: decode_and_dispatch_def dispatch_no_frame_code Let_def dest: admit_no_frame_code
      split: option.split prod.split sum.split)

lemma dispatch_members_append:
  "dispatch_members d i (xs @ ys) c s =
     (case dispatch_members d i xs c s of
        (rs, c, s) \<Rightarrow> (case dispatch_members d (i + length xs) ys c s of (rs', c, s) \<Rightarrow> (rs @ rs', c, s)))"
  by (induction xs arbitrary: i c s) (simp_all split: prod.splits)

text \<open>A member that the server refuses because of its chain.\<close>

definition chain_failed :: "frame_member_result \<Rightarrow> bool" where
  "chain_failed r \<longleftrightarrow>
     fm_result r = Some (Dispatch_code Dispatch_chain_error) \<or> fm_result r = Some (Dispatch_code Dispatch_chain_aborted)"

definition errored :: "frame_member_result \<Rightarrow> bool" where
  "errored r \<longleftrightarrow> chain_failed r \<or> counts_as_error (fm_result r)"

definition is_chained :: "octets \<Rightarrow> bool" where
  "is_chained m \<longleftrightarrow> \<not> isl (decode_chained_member m)"

text \<open>How many messages at the end of the list are chained to a predecessor.\<close>

definition chain_length :: "octets list \<Rightarrow> nat" where
  "chain_length ms = length (takeWhile is_chained (rev ms))"

lemma chain_length_snoc [simp]:
  "chain_length (ms @ [m]) = (if is_chained m then chain_length ms + 1 else 0)"
  "chain_length [] = 0" "chain_length [m] = (if is_chained m then 1 else 0)"
  by (simp_all add: chain_length_def)

lemma chain_length_le: "chain_length ms \<le> length ms"
  unfolding chain_length_def by (metis length_rev length_takeWhile_le)

definition progress :: "octets list \<Rightarrow> frame_member_result list \<Rightarrow> chain_progress" where
  "progress ms rs =
     \<lparr>cp_aborted = (\<exists>r \<in> set rs. chain_failed r), cp_prev_errored = (rs \<noteq> [] \<and> errored (last rs)),
      cp_group = of_nat (length ms - chain_length ms), cp_position = of_nat (chain_length ms)\<rparr>"

text \<open>The result of one more member, given the results of those before it.\<close>

definition next_member ::
    "(octets \<Rightarrow> mock_server \<Rightarrow> dispatched \<times> mock_server) \<Rightarrow> octets list \<Rightarrow> octets \<Rightarrow> frame_member_result list \<Rightarrow>
       mock_server \<Rightarrow> frame_member_result \<times> mock_server" where
  "next_member d ms m rs s =
     (let hdr = decode_acf_message_info m; bus = a_byte_bus_id hdr;
          refused = (\<lambda>code wec. \<lparr>fm_result = Some (Dispatch_code code), fm_byte_bus_id = bus,
            fm_response = error_reply hdr wec\<rparr>)
      in
      if is_chained m \<and> ms = [] then (refused Dispatch_chain_error ChainError, s)
      else if is_chained m \<and>
        ((\<exists>r \<in> set rs. chain_failed r) \<or> ch_cs (projr (decode_chained_member m)) \<and> errored (last rs))
      then (refused Dispatch_chain_aborted ChainAborted, s)
      else
        (case d m s of
           ((ec, rep), s') \<Rightarrow>
             (\<lparr>fm_result = ec, fm_byte_bus_id = bus, fm_response = rep\<rparr>,
              case admission_index bus of
                None \<Rightarrow> s'
              | Some k \<Rightarrow>
                  record_chain_place k (pending_count bus s) (of_nat (length ms + 1 - chain_length (ms @ [m])))
                    (of_nat (chain_length (ms @ [m]))) s')))"

lemma dispatch_member_eq:
  assumes "whole_message m" "\<And>m s. \<not> frame_code (fst (fst (d m s)))" "length rs = length ms"
  shows "dispatch_member d (length ms) m (progress ms rs) s =
    (case next_member d ms m rs s of (r, s') \<Rightarrow> (r, progress (ms @ [m]) (rs @ [r]), s'))"
proof -
  note defs = dispatch_member_def next_member_def whole_message_decodes [OF assms(1)] Let_def is_chained_def
    should_execute_chained_def progress_def chain_failed_def errored_def
  let ?aborted = "(\<exists>r \<in> set rs. chain_failed r) \<or> ch_cs (projr (decode_chained_member m)) \<and> errored (last rs)"
  obtain ec rep s' where d: "d m s = ((ec, rep), s')" by (metis surj_pair)
  then have ec: "ec \<noteq> Some (Dispatch_code Dispatch_chain_error)" "ec \<noteq> Some (Dispatch_code Dispatch_chain_aborted)"
    using assms(2) [of m s] by (auto simp: frame_code_def)
  have len: "Suc (length ms) - chain_length ms = Suc (length ms - chain_length ms)"
    using chain_length_le [of ms] by (simp add: Suc_diff_le)
  consider "is_chained m" "ms = []" | "is_chained m" "ms \<noteq> []" "?aborted" | "is_chained m" "ms \<noteq> []" "\<not> ?aborted" | "\<not> is_chained m"
    by blast
  then show ?thesis
  proof cases
    case 1
    then show ?thesis using assms(3) by (simp add: defs)
  next
    case 2
    then have "rs \<noteq> []" using assms(3) by auto
    then show ?thesis using 2 assms(3) by (simp add: defs)
  next
    case 3
    then have "rs \<noteq> []" using assms(3) by auto
    then show ?thesis using 3 assms(3) ec len by (simp add: defs d split: option.split)
  next
    case 4
    then show ?thesis using assms(3) ec by (simp add: defs d split: option.split)
  qed
qed

lemma next_member_result:
  "\<not> frame_code (fst (fst (d m s))) \<Longrightarrow>
     fm_result (fst (next_member d ms m rs s)) \<noteq> Some (Dispatch_code Dispatch_unknown_bus)"
  by (auto simp: next_member_def frame_code_def Let_def split: prod.split)

lemma dispatch_members_progress:
  assumes "\<forall>m \<in> set ms. whole_message m" "\<And>m s. \<not> frame_code (fst (fst (d m s)))"
  shows "\<exists>rs s'. dispatch_members d 0 ms no_chain s = (rs, progress ms rs, s') \<and> length rs = length ms \<and>
    (\<forall>r \<in> set rs. fm_result r \<noteq> Some (Dispatch_code Dispatch_unknown_bus))"
  using assms(1)
proof (induction ms rule: rev_induct)
  case Nil
  show ?case by (simp add: progress_def no_chain_def chain_length_def)
next
  case (snoc m ms)
  then obtain rs s' where rs: "dispatch_members d 0 ms no_chain s = (rs, progress ms rs, s')" "length rs = length ms"
    "\<forall>r \<in> set rs. fm_result r \<noteq> Some (Dispatch_code Dispatch_unknown_bus)"
    by auto
  obtain r s'' where r: "next_member d ms m rs s' = (r, s'')" by fastforce
  then have "fm_result r \<noteq> Some (Dispatch_code Dispatch_unknown_bus)"
    using next_member_result [of d m s' ms rs] assms(2) by simp
  then show ?case
    using dispatch_member_eq [OF _ assms(2) rs(2), of m] snoc.prems rs r by (simp add: dispatch_members_append)
qed

text \<open>
  One message more, as the loop handles it; what its chain makes of it depends on all messages before, the
  latch is never reset.
\<close>

lemma frame_extended:
  assumes "\<forall>m \<in> set (ms @ [m]). whole_message m" "length ms < kMaxFrameMembers"
  obtains rs s' where "dispatch_frame sid (concat ms) s = (rs, s')" "length rs = length ms"
    "\<forall>r \<in> set rs. fm_result r \<noteq> Some (Dispatch_code Dispatch_unknown_bus)"
    "dispatch_frame sid (concat (ms @ [m])) s =
       (case next_member (\<lambda>m. decode_and_dispatch m sid) ms m rs s' of (r, s'') \<Rightarrow> (rs @ [r], s''))"
proof -
  let ?d = "\<lambda>m. decode_and_dispatch m sid"
  have reached: "frame_members (concat (ms @ [m])) = ms @ [m]" "frame_members (concat ms) = ms"
    using assms frame_members_concat [of "ms @ [m]"] frame_members_concat [of ms] by simp_all
  obtain rs s' where rs: "dispatch_members ?d 0 ms no_chain s = (rs, progress ms rs, s')" "length rs = length ms"
    "\<forall>r \<in> set rs. fm_result r \<noteq> Some (Dispatch_code Dispatch_unknown_bus)"
    using dispatch_members_progress [of ms ?d s] assms(1) decode_and_dispatch_no_frame_code by auto
  show thesis
  proof (rule that [OF _ rs(2,3)])
    show "dispatch_frame sid (concat ms) s = (rs, s')"
      by (simp add: dispatch_frame_def dispatch_frame_impl_def reached rs(1))
    show "dispatch_frame sid (concat (ms @ [m])) s =
        (case next_member ?d ms m rs s' of (r, s'') \<Rightarrow> (rs @ [r], s''))"
      using dispatch_member_eq [of m ?d rs ms s'] assms(1) decode_and_dispatch_no_frame_code rs
      unfolding dispatch_frame_def dispatch_frame_impl_def reached
      by (auto simp: dispatch_members_append split: prod.splits)
  qed
qed

text \<open>
  Three cases in which the comments promise something else: the message behind a first one that is a chain
  error is not ignored if it is not chained; a chain that was aborted aborts the later chains of the frame; and
  a message for a bus without an endpoint does not count as an error for the message chained to it.
\<close>

lemma runs_behind_chain_error:
  "\<not> is_chained m \<Longrightarrow> fst (fst (d m s)) = ec \<Longrightarrow> fm_result (fst (next_member d ms m rs s)) = ec"
  by (auto simp: next_member_def Let_def split: prod.split)

lemma aborted_chain_aborts_later:
  "is_chained m \<Longrightarrow> ms \<noteq> [] \<Longrightarrow> r \<in> set rs \<Longrightarrow> chain_failed r \<Longrightarrow>
     fm_result (fst (next_member d ms m rs s)) = Some (Dispatch_code Dispatch_chain_aborted)"
  by (auto simp: next_member_def Let_def)

lemma unknown_bus_is_no_error:
  assumes "admission_index (a_byte_bus_id req) = None" "a_byte_bus_id req \<noteq> kEp0"
  shows "\<not> counts_as_error (fst (fst (dispatch req payload sid s)))"
  using assms by (simp add: dispatch_eq counts_as_error_def set_error_response_def)

section \<open>The order of a frame\<close>

definition known_bus :: "octets \<Rightarrow> bool" where
  "known_bus m \<longleftrightarrow>
     (let bus = a_byte_bus_id (decode_acf_message_info m) in bus = kEp0 \<or> admission_index bus \<noteq> None)"

text \<open>The results of the chain that the next message, if it is chained, belongs to, without that of its head.\<close>

definition own_chain :: "octets list \<Rightarrow> frame_member_result list \<Rightarrow> frame_member_result list" where
  "own_chain ms rs = drop (length ms - chain_length ms) rs"

definition before_chain :: "octets list \<Rightarrow> frame_member_result list \<Rightarrow> frame_member_result list" where
  "before_chain ms rs = take (length ms - chain_length ms) rs"

text \<open>A message that was aborted, or was refused before it reached its endpoint.\<close>

definition failed_member :: "frame_member_result \<Rightarrow> bool" where
  "failed_member r \<longleftrightarrow> chain_failed r \<or> fm_result r = Some (Core (Regmap_err Request_rejected))"

text \<open>What becomes of one more message, given the results of those before it.\<close>

definition in_order ::
    "(octets \<Rightarrow> mock_server \<Rightarrow> dispatched \<times> mock_server) \<Rightarrow> octets list \<Rightarrow> octets \<Rightarrow> frame_member_result list \<Rightarrow>
       mock_server \<Rightarrow> frame_member_result \<times> mock_server" where
  "in_order alone ms m rs s =
     (let hdr = decode_acf_message_info m; bus = a_byte_bus_id hdr;
          refused = (\<lambda>code wec. \<lparr>fm_result = Some (Dispatch_code code), fm_byte_bus_id = bus,
            fm_response = error_reply hdr wec\<rparr>)
      in
      if is_chained m \<and> ms = [] then (refused Dispatch_chain_error ChainError, s)
      else if is_chained m \<and>
        ((\<exists>r \<in> set (own_chain ms rs). chain_failed r) \<or>
         ch_cs (projr (decode_chained_member m)) \<and> failed_member (last rs))
      then (refused Dispatch_chain_aborted ChainAborted, s)
      else
        (case alone m s of
           ((ec, rep), s') \<Rightarrow>
             (\<lparr>fm_result = ec, fm_byte_bus_id = bus, fm_response = rep\<rparr>,
              case admission_index bus of
                None \<Rightarrow> s'
              | Some k \<Rightarrow>
                  record_chain_place k (pending_count bus s) (of_nat (length ms + 1 - chain_length (ms @ [m])))
                    (of_nat (chain_length (ms @ [m]))) s')))"

lemma next_member_in_order:
  assumes "\<forall>r \<in> set rs. fm_result r \<noteq> Some (Dispatch_code Dispatch_unknown_bus)" "length rs = length ms"
    "is_chained m \<Longrightarrow> \<forall>r \<in> set (before_chain ms rs). \<not> chain_failed r"
  shows "next_member d ms m rs s = in_order d ms m rs s"
proof (cases "is_chained m \<and> ms \<noteq> []")
  case True
  then have "rs \<noteq> []" using assms(2) by auto
  then have "errored (last rs) \<longleftrightarrow> failed_member (last rs)"
    using assms(1) by (auto simp: errored_def failed_member_def counts_as_error_def)
  moreover have "set rs = set (before_chain ms rs) \<union> set (own_chain ms rs)"
    by (metis append_take_drop_id before_chain_def own_chain_def set_append)
  then have "(\<exists>r \<in> set rs. chain_failed r) \<longleftrightarrow> (\<exists>r \<in> set (own_chain ms rs). chain_failed r)"
    using assms(3) True by auto
  ultimately have cond: "(\<exists>r \<in> set rs. chain_failed r) \<or> ch_cs (projr (decode_chained_member m)) \<and> errored (last rs) \<longleftrightarrow>
      (\<exists>r \<in> set (own_chain ms rs). chain_failed r) \<or> ch_cs (projr (decode_chained_member m)) \<and> failed_member (last rs)"
    by simp
  show ?thesis unfolding next_member_def in_order_def cond ..
qed (auto simp: next_member_def in_order_def Let_def)



definition sample_entry :: "u16 \<Rightarrow> acf_entry" where
  "sample_entry bus =
     \<lparr>en_info = acf_default\<lparr>a_msg_length := 3, a_byte_bus_id := bus\<rparr>, en_timestamp = 0, en_payload = [1, 2, 3, 4]\<rparr>"

lemma abb_not_chained: "drop_bit 1 (m ! 0) \<noteq> kAcfMsgTypeGbb \<Longrightarrow> \<not> is_chained m"
  by (auto simp: is_chained_def decode_chained_member_def decode_repurposed_def decode_acf_gbb_def peek_acf_msg_type_def
      Let_def split: sum.split)

lemma sample_entry_message:
  "whole_message (encode_entry (sample_entry bus))" "\<not> is_chained (encode_entry (sample_entry bus))"
  "bus < 0x800 \<Longrightarrow> decode_acf_message_info (encode_entry (sample_entry bus)) = en_info (sample_entry bus)"
proof -
  have e: "encode_entry (sample_entry bus) = encode_acf_message_info (en_info (sample_entry bus)) @ [1, 2, 3, 4]"
    by (simp add: encode_entry_def sample_entry_def encode_abb_eq abb_header_def fill_length_def acf_default_def wire_defs)
  have d: "decode_acf_message_info (encode_entry (sample_entry bus)) = mask_info (en_info (sample_entry bus))"
    by (simp add: e)
  have "length (encode_entry (sample_entry bus)) = 12" by (simp add: e)
  then show "whole_message (encode_entry (sample_entry bus))"
    unfolding whole_message_def d by (simp add: mask_info_def sample_entry_def acf_default_def wire_defs)
  have "drop_bit 1 (encode_entry (sample_entry bus) ! 0) = kAcfMsgTypeAbb"
    using d unfolding header_octets(1) [symmetric] by (simp add: mask_info_def sample_entry_def acf_default_def wire_defs)
  then show "\<not> is_chained (encode_entry (sample_entry bus))"
    using abb_not_chained by (simp add: wire_defs)
  show "decode_acf_message_info (encode_entry (sample_entry bus)) = en_info (sample_entry bus)" if "bus < 0x800"
    using that unfolding d by (simp add: mask_info_def sample_entry_def acf_default_def wire_defs masked_field)
qed


end
