(* ===== verification/Mock_Fragments.thy ===== *)
theory Mock_Fragments
  imports Mock_E2e
begin

text \<open>
  A request that a client sends to the server of \<open>include/rcp/mock.hpp\<close> in protected fragments, and
  that the server answers as if it had come in one message.
\<close>

text \<open>
  The sender's side: intermediate fragments carry \<open>ms\<close> and their number, the last one the CRC over
  the header of the first fragment and the whole payload.
\<close>

definition request_fragment :: "acf_info \<Rightarrow> octets \<Rightarrow> nat \<Rightarrow> nat \<Rightarrow> octets" where
  "request_fragment info payload m k =
     encode_acf_abb (info\<lparr>a_ms := True, a_read_size := of_nat k\<rparr>) (slice payload (intermediate_segment m k))"

definition last_header :: "acf_info \<Rightarrow> octets \<Rightarrow> acf_info" where
  "last_header info part = apply_acf_length_adjustment (abb_header (info\<lparr>a_ms := False\<rparr>) part)"

definition first_header :: "acf_info \<Rightarrow> octets \<Rightarrow> nat \<Rightarrow> octets" where
  "first_header info payload m = take kAcfCommonHeaderLen (request_fragment info payload m 0)"

definition whole_crc :: "stream_id \<Rightarrow> acf_info \<Rightarrow> octets \<Rightarrow> nat \<Rightarrow> u32" where
  "whole_crc sid info payload m =
     compute_fragmented_crc kSubtypeNtscf kE2eHeaderOctet1Placeholder False sid None
       (first_header info payload m) payload"

definition last_request_fragment :: "stream_id \<Rightarrow> acf_info \<Rightarrow> octets \<Rightarrow> nat \<Rightarrow> nat \<Rightarrow> octets" where
  "last_request_fragment sid info payload m k =
     (let part = drop (k * m) payload
      in wire_header (last_header info part) 0 @ part @ put_u32 (whole_crc sid info payload m))"

definition request_fragments :: "stream_id \<Rightarrow> acf_info \<Rightarrow> octets \<Rightarrow> nat \<Rightarrow> nat \<Rightarrow> octets list" where
  "request_fragments sid info payload m k =
     map (request_fragment info payload m) [0..<k] @ [last_request_fragment sid info payload m k]"

fun send_fragments :: "stream_id \<Rightarrow> octets list \<Rightarrow> mock_server \<Rightarrow> dispatched list \<times> mock_server" where
  "send_fragments sid [] s = ([], s)"
| "send_fragments sid (frag # frags) s =
     (case dispatch_e2e_fragment sid frag s of
        (r, s) \<Rightarrow> (case send_fragments sid frags s of (rs, s) \<Rightarrow> (r # rs, s)))"

lemma send_fragments_append:
  "send_fragments sid (fs @ gs) s =
     (case send_fragments sid fs s of (rs, s) \<Rightarrow> (case send_fragments sid gs s of (rs', s) \<Rightarrow> (rs @ rs', s)))"
  by (induction fs arbitrary: s) (auto split: prod.splits)

text \<open>A stream that may send fragments: it is known, not blocked, and the endpoint requires protection.\<close>

definition fragment_ready :: "stream_id \<Rightarrow> nat \<Rightarrow> acf_info \<Rightarrow> mock_server \<Rightarrow> bool" where
  "fragment_ready sid i info s \<longleftrightarrow>
     stream_index_of s sid = Suc i \<and> i < length (mk_reassemblers s) \<and> i < length (mk_first_headers s) \<and>
     \<not> is_faulted (mk_faults s) (to_u64 sid) \<and> crc_enabled (a_byte_bus_id info AND 0x7FF) s"

definition plain_request :: "acf_info \<Rightarrow> bool" where
  "plain_request info \<longleftrightarrow>
     a_msg_type info = kAcfMsgTypeAbb \<and> \<not> a_mtv info \<and> a_pad info = 0 \<and> a_msg_length info = 0"

text \<open>The server after \<open>k\<close> intermediate fragments.\<close>

definition collecting :: "nat \<Rightarrow> octets \<Rightarrow> octets \<Rightarrow> nat \<Rightarrow> nat \<Rightarrow> mock_server \<Rightarrow> mock_server" where
  "collecting i header payload m k s =
     s\<lparr>mk_reassemblers := (mk_reassemblers s)[i := midway kDefaultReassemblyCapacity payload m k],
       mk_first_headers := (if k = 0 then mk_first_headers s else (mk_first_headers s)[i := header])\<rparr>"

lemma collecting_simps [simp]:
  "mk_regs (collecting i h p m k s) = mk_regs s" "mk_faults (collecting i h p m k s) = mk_faults s"
  "stream_index_of (collecting i h p m k s) sid = stream_index_of s sid"
  "crc_enabled bus (collecting i h p m k s) = crc_enabled bus s"
  by (simp_all add: collecting_def mk_regs_def stream_index_of_def crc_enabled_def)

lemma collecting_step:
  "set_reassembler i (midway kDefaultReassemblyCapacity p m (Suc k))
     (if k = 0 then collecting i h p m k s\<lparr>mk_first_headers := (mk_first_headers s)[i := h]\<rparr>
      else collecting i h p m k s) = collecting i h p m (Suc k) s"
  by (simp add: collecting_def set_reassembler_def)

lemma collecting_0:
  assumes "mk_reassemblers s ! i = midway kDefaultReassemblyCapacity p m 0"
  shows "collecting i h p m 0 s = s"
proof -
  have "(mk_reassemblers s)[i := midway kDefaultReassemblyCapacity p m 0] = mk_reassemblers s"
    using assms by (metis list_update_id)
  then show ?thesis by (simp add: collecting_def)
qed

lemma stream_index_kick [simp]: "stream_index_of (rx_watchdog_kick sid' n s) sid = stream_index_of s sid"
  by (simp add: stream_index_of_def)

lemma kick_kick [simp]: "rx_watchdog_kick sid n (rx_watchdog_kick sid n s) = rx_watchdog_kick sid n s"
  by (cases "stream_index_of s sid - 1 < length (mk_watchdogs s)")
    (simp_all add: rx_watchdog_kick_def [of sid n "rx_watchdog_kick sid n s"] Let_def,
     simp_all add: rx_watchdog_kick_def Let_def kick_wd_def not_less list_update_beyond)

lemma kick_collecting: "rx_watchdog_kick sid n (collecting i h p m k s) = collecting i h p m k (rx_watchdog_kick sid n s)"
  by (simp add: rx_watchdog_kick_def Let_def) (simp add: collecting_def)

lemma fragment_header_fields:
  assumes "plain_request info" "k < 4096"
  shows "a_ms (mask_info (abb_header (info\<lparr>a_ms := True, a_read_size := of_nat k\<rparr>) part))"
    "a_read_size (mask_info (abb_header (info\<lparr>a_ms := True, a_read_size := of_nat k\<rparr>) part)) = of_nat k"
    "a_pad (mask_info (abb_header (info\<lparr>a_ms := b, a_read_size := n\<rparr>) part)) = 0"
    "a_byte_bus_id (mask_info (abb_header (info\<lparr>a_ms := b, a_read_size := n\<rparr>) part)) = a_byte_bus_id info AND 0x7FF"
proof -
  have "(of_nat k :: u16) AND 0xFFF = of_nat k"
    using assms(2) by (intro masked_field(6)) (simp add: word_less_nat_alt unat_of_nat)
  then show "a_read_size (mask_info (abb_header (info\<lparr>a_ms := True, a_read_size := of_nat k\<rparr>) part)) = of_nat k"
    by (simp add: mask_info_def abb_header_def fill_length_def)
qed (use assms(1) in \<open>simp_all add: mask_info_def abb_header_def fill_length_def plain_request_def\<close>)


lemma request_fragment_opens:
  assumes "plain_request info" "k < 4096"
    "frag = request_fragment info payload m k"
  shows "decode_acf_frame frag False =
      Inr (decode_acf_message_info frag, 0, slice payload (intermediate_segment m k))"
    and "a_msg_type (decode_acf_message_info frag) = kAcfMsgTypeAbb" "a_ms (decode_acf_message_info frag)"
    and "a_read_size (decode_acf_message_info frag) = of_nat k" "a_pad (decode_acf_message_info frag) = 0"
    and "a_byte_bus_id (decode_acf_message_info frag) = a_byte_bus_id info AND 0x7FF"
    and "kAcfCommonHeaderLen \<le> length frag" "\<not> length frag < kAcfCommonHeaderLen"
  using fragment_header_fields [OF assms(1,2)] unfolding assms(3) request_fragment_def
  by (simp_all add: decode_acf_frame_def encode_abb_eq decode_acf_abb_def wire_defs mask_info_def abb_header_def)

text \<open>One intermediate fragment.\<close>

lemma intermediate_step:
  assumes "fragment_ready sid i info s'" "plain_request info" "k < 4096" "Suc k * m \<le> length payload"
    "length payload \<le> kDefaultReassemblyCapacity"
    "h = first_header info payload m"
    "rx_watchdog_kick sid 0 s = collecting i h payload m k s'"
  shows "dispatch_e2e_fragment sid (request_fragment info payload m k) s =
    ((Some (Dispatch_code Dispatch_fragment_pending), no_reply), collecting i h payload m (Suc k) s')"
proof -
  let ?c = "collecting i h payload m k s'"
  note opens = request_fragment_opens [OF assms(2,3) refl, of payload m]
  have ready: "stream_index_of ?c sid = Suc i" "\<not> is_faulted (mk_faults ?c) (to_u64 sid)"
    "crc_enabled (a_byte_bus_id info AND 0x7FF) ?c"
    using assms(1) by (simp_all add: fragment_ready_def)
  have r: "mk_reassemblers ?c ! i = midway kDefaultReassemblyCapacity payload m k"
    using assms(1) by (simp add: fragment_ready_def collecting_def)
  have "feed (midway kDefaultReassemblyCapacity payload m k) True (of_nat k) (slice payload (intermediate_segment m k)) =
      (KContinue, midway kDefaultReassemblyCapacity payload m (Suc k))"
    using assms(3-5) by (intro feed_next) simp_all
  moreover have "ra_collecting (midway kDefaultReassemblyCapacity payload m k) \<longleftrightarrow> k \<noteq> 0"
    by (simp add: midway_def)
  moreover have "mk_first_headers ?c = mk_first_headers s'" if "k = 0" using that by (simp add: collecting_def)
  ultimately have "intermediate_fragment i (decode_acf_message_info (request_fragment info payload m k))
      (request_fragment info payload m k) ?c =
      ((Some (Dispatch_code Dispatch_fragment_pending), no_reply), collecting i h payload m (Suc k) s')"
    using collecting_step [of i payload m k s' h] opens assms(6) [unfolded first_header_def, symmetric] r
    by (cases "k = 0") (simp_all add: intermediate_fragment_def Let_def trim_wire_pad_def kAcfMsgTypeAbb_def kAcfMsgTypeGbb_def)
  then show ?thesis
    using ready opens by (simp add: dispatch_e2e_fragment_def dispatch_e2e_fragment_core_def assms(7) Let_def)
qed

lemma send_intermediate:
  assumes "fragment_ready sid i info s" "plain_request info" "k \<le> 4096" "k * m \<le> length payload"
    "length payload \<le> kDefaultReassemblyCapacity"
    "h = first_header info payload m"
    "mk_reassemblers s ! i = new_reassembler kDefaultReassemblyCapacity"
  shows "\<exists>s'. send_fragments sid (map (request_fragment info payload m) [0..<k]) s =
      (replicate k (Some (Dispatch_code Dispatch_fragment_pending), no_reply), s') \<and>
    rx_watchdog_kick sid 0 s' = collecting i h payload m k (rx_watchdog_kick sid 0 s)"
  using assms(3,4)
proof (induction k)
  case 0
  have "mk_reassemblers (rx_watchdog_kick sid 0 s) ! i = midway kDefaultReassemblyCapacity payload m 0"
    using assms(7) by (simp add: rx_watchdog_kick_def Let_def new_reassembler_def midway_def)
  then show ?case by (simp add: collecting_0)
next
  case (Suc k)
  then obtain s' where s': "send_fragments sid (map (request_fragment info payload m) [0..<k]) s =
      (replicate k (Some (Dispatch_code Dispatch_fragment_pending), no_reply), s')"
    "rx_watchdog_kick sid 0 s' = collecting i h payload m k (rx_watchdog_kick sid 0 s)"
    by auto
  have "fragment_ready sid i info (rx_watchdog_kick sid 0 s)"
    using assms(1) crc_enabled_regs [of "rx_watchdog_kick sid 0 s" s]
    by (simp add: fragment_ready_def) (simp add: rx_watchdog_kick_def Let_def)
  then have "dispatch_e2e_fragment sid (request_fragment info payload m k) s' =
      ((Some (Dispatch_code Dispatch_fragment_pending), no_reply),
       collecting i h payload m (Suc k) (rx_watchdog_kick sid 0 s))"
    using Suc.prems assms(2,5,6) s'(2) by (intro intermediate_step) simp_all
  then show ?case
    using s'(1) by (simp add: send_fragments_append replicate_append_same kick_collecting del: replicate_Suc)
      (simp add: replicate_append_same [symmetric])
qed


section \<open>The last fragment\<close>

lemma last_header_fields:
  assumes "plain_request info"
  shows "a_msg_type (last_header info part) = kAcfMsgTypeAbb" "a_pad (last_header info part) = 0"
    "\<not> a_ms (mask_info (last_header info part))" "a_pad (mask_info (last_header info part)) = 0"
    "a_msg_type (mask_info (last_header info part)) = kAcfMsgTypeAbb"
    "a_byte_bus_id (mask_info (last_header info part)) = a_byte_bus_id info AND 0x7FF"
    "a_pad (mask_info (mask_info (last_header info part)\<lparr>a_msg_length := n\<rparr>)) = 0"
  using assms by (simp_all add: last_header_def apply_acf_length_adjustment_def abb_header_def fill_length_def
      mask_info_def plain_request_def kAcfMsgTypeAbb_def)

text \<open>The header of the completed request is that of the unfragmented one.\<close>

lemma completed_header:
  assumes "plain_request info"
  shows "encode_acf_abb (mask_info (mask_info (last_header info part)\<lparr>a_msg_length := n\<rparr>)
      \<lparr>a_pad := 0, a_msg_length := 0\<rparr>) payload = encode_acf_abb (info\<lparr>a_ms := False\<rparr>) payload"
proof -
  let ?h = "mask_info (mask_info (last_header info part)\<lparr>a_msg_length := n\<rparr>)\<lparr>a_pad := 0, a_msg_length := 0\<rparr>"
  have "mask_info (abb_header ?h payload) = mask_info (abb_header (info\<lparr>a_ms := False\<rparr>) payload)"
    using assms by (simp add: last_header_def apply_acf_length_adjustment_def abb_header_def fill_length_def
        mask_info_def plain_request_def kAcfMsgTypeAbb_def)
  then show ?thesis
    unfolding encode_abb_eq by (metis encode_mask_info)
qed


lemma last_fragment_opens:
  assumes "plain_request info" "frag = last_request_fragment sid info payload m k" "part = drop (k * m) payload"
  shows "fst (unwrap_member sid frag) \<noteq> Some (E2e_err e2e_errc.Short_frame)"
    and "decode_acf_frame (snd (unwrap_member sid frag)) False =
      Inr (mask_info (mask_info (last_header info part)\<lparr>a_msg_length := a_msg_length (mask_info (last_header info part)) - 1\<rparr>),
           0, part)"
    and "decode_acf_message_info frag = mask_info (last_header info part)" "length frag = length part + 12"
    and "get_u32 (drop (length part + 8) frag) = whole_crc sid info payload m"
proof -
  let ?j = "last_header info part"
  note fields = last_header_fields [OF assms(1), where part = part]
  have f: "frag = wire_header ?j 0 @ part @ put_u32 (whole_crc sid info payload m) @ []"
    by (simp add: assms(2,3) last_request_fragment_def Let_def)
  have w: "length (wire_header ?j 0) = 8"
    by (simp add: wire_header_length fields kAcfMsgTypeAbb_def kAcfMsgTypeGbb_def kAcfCommonHeaderLen_def)
  have u: "unwrap_member sid frag =
     (if whole_crc sid info payload m = crc32 (crc_prefix kSubtypeNtscf kE2eHeaderOctet1Placeholder False sid None @
        wire_header ?j 0 @ part) then None else Some (E2e_err Crc_error),
      wire_header (mask_info ?j\<lparr>a_msg_length := a_msg_length (mask_info ?j) - 1\<rparr>) 0 @ part)"
    unfolding f unwrap_member_def unwrap_framed_def Let_def
    by (subst unwrap_shape) (simp_all add: fields)
  show "fst (unwrap_member sid frag) \<noteq> Some (E2e_err e2e_errc.Short_frame)" by (simp add: u)
  show "decode_acf_frame (snd (unwrap_member sid frag)) False =
      Inr (mask_info (mask_info ?j\<lparr>a_msg_length := a_msg_length (mask_info ?j) - 1\<rparr>), 0, part)"
    by (simp add: u decode_acf_frame_def decode_acf_abb_def wire_header_def fields kAcfMsgTypeAbb_def kAcfMsgTypeGbb_def
        kAcfCommonHeaderLen_def)
  show "decode_acf_message_info frag = mask_info ?j" unfolding f by (rule decode_wire_header(1))
  show "length frag = length part + 12" "get_u32 (drop (length part + 8) frag) = whole_crc sid info payload m"
    by (simp_all add: f w)
qed

lemma last_step:
  assumes "fragment_ready sid i info s'" "plain_request info" "0 < k" "k * m \<le> length payload"
    "length payload \<le> kDefaultReassemblyCapacity" "length payload \<le> kAcfAbbMaxPayload"
    "h = first_header info payload m"
    "rx_watchdog_kick sid 0 s = collecting i h payload m k s'"
    "c = set_reassembler i (new_reassembler kDefaultReassemblyCapacity) (collecting i h payload m k s')"
  shows "dispatch_e2e_fragment sid (last_request_fragment sid info payload m k) s =
    (case decode_and_dispatch (encode_acf_abb (info\<lparr>a_ms := False\<rparr>) payload) sid c of
       ((Some ec, rep), s) \<Rightarrow> ((Some ec, rep), s)
     | ((None, rep), s) \<Rightarrow> maybe_fragment_response (Suc i) rep s)"
proof -
  let ?c = "collecting i h payload m k s'" and ?part = "drop (k * m) payload"
  let ?frag = "last_request_fragment sid info payload m k"
  note opens = last_fragment_opens [OF assms(2) refl refl, where sid = sid and payload = payload and m = m and k = k]
  note fields = last_header_fields [OF assms(2), where part = ?part]
  have ready: "stream_index_of ?c sid = Suc i" "\<not> is_faulted (mk_faults ?c) (to_u64 sid)"
    "crc_enabled (a_byte_bus_id info AND 0x7FF) ?c"
    using assms(1) by (simp_all add: fragment_ready_def)
  have r: "mk_reassemblers ?c ! i = midway kDefaultReassemblyCapacity payload m k" "mk_first_headers ?c ! i = h"
    using assms(1,3) by (simp_all add: fragment_ready_def collecting_def)
  have collects: "ra_collecting (midway kDefaultReassemblyCapacity payload m k)"
    "ra_reset (midway kDefaultReassemblyCapacity payload m k) = new_reassembler kDefaultReassemblyCapacity"
    using assms(3) by (simp_all add: midway_def ra_reset_def new_reassembler_def)
  have "ra_fits (midway kDefaultReassemblyCapacity payload m k) (length ?part)"
    using assms(4,5) by (intro midway_fits) simp_all
  then have feed: "feed (midway kDefaultReassemblyCapacity payload m k) False 0 ?part =
      (KComplete, (midway kDefaultReassemblyCapacity payload m k)\<lparr>ra_data := payload, ra_collecting := False\<rparr>)"
    using collects(1) by (simp add: feed_def) (simp add: ra_append_def midway_def)
  obtain uw acf where uw: "unwrap_member sid ?frag = (uw, acf)" by (metis surj_pair)
  have crc: "get_u32 (drop (8 + (length payload - k * m)) ?frag) =
      compute_fragmented_crc kSubtypeNtscf kE2eHeaderOctet1Placeholder False sid None h payload"
    using opens(5) by (simp add: add.commute whole_crc_def assms(7))
  have "final_fragment i sid (decode_acf_message_info ?frag) ?frag ?c =
      (Inr (encode_acf_abb (info\<lparr>a_ms := False\<rparr>) payload), c)"
    using opens(1,2) assms(6) fields feed
    by (simp add: final_fragment_def opens(3,4) crc uw r collects(2) Let_def trim_wire_pad_def completed_header [OF assms(2)]
        assms(7) [symmetric] assms(9) kAcfMsgTypeAbb_def kAcfMsgTypeGbb_def kCrcLengthAdjustOctets_def)
  moreover have "\<not> length ?frag < kAcfCommonHeaderLen" by (simp add: opens(4) kAcfCommonHeaderLen_def)
  ultimately show ?thesis
    using ready fields r collects(1)
    by (simp add: dispatch_e2e_fragment_def dispatch_e2e_fragment_core_def assms(8) opens(3) Let_def)
qed



lemma protected_server_idle:
  "mk_reassemblers protected_server ! 0 = new_reassembler kDefaultReassemblyCapacity"
  "0 < length (mk_reassemblers protected_server)" "0 < length (mk_first_headers protected_server)"
proof -
  have "\<exists>e. protected_server = new_mock\<lparr>mk_ep0 := e\<rparr>"
    by (simp add: protected_server_def advance_to_rcp_configured_def mock_advance_def set_regs_def Let_def
        split: prod.splits option.splits)
       (metis mock_server.update_convs(1) mock_server.surjective)
  then obtain e where p: "protected_server = new_mock\<lparr>mk_ep0 := e\<rparr>" by blast
  show "mk_reassemblers protected_server ! 0 = new_reassembler kDefaultReassemblyCapacity"
    "0 < length (mk_reassemblers protected_server)" "0 < length (mk_first_headers protected_server)"
    unfolding p by (simp_all add: new_mock_def kMaxEntries_def set_discovery_timeout_us_def set_regs_def)
qed


end
