(* ===== verification/Mock_Run.thy ===== *)
theory Mock_Run
  imports Mock_Frame Mock_Fragments
begin

text \<open>
  Every sequence of calls of the server of \<open>include/rcp/mock.hpp\<close> keeps its state well typed: the
  per-stream arrays have a place for each configured stream, the parts satisfy their own invariants,
  and the admission queues are used only through the operations of \<open>server.hpp\<close>.
\<close>

section \<open>Admission queues are only operated\<close>

definition operated :: "server_endpoint \<Rightarrow> bool" where
  "operated ep \<longleftrightarrow> (\<exists>calls. ep = endpoint_run True calls)"

lemma operated_new [simp]: "operated (new_endpoint True)"
  unfolding operated_def by (intro exI [of _ "[]"]) (simp add: endpoint_run_def)

lemma operated_do [intro]: "operated ep \<Longrightarrow> operated (endpoint_do call ep)"
  unfolding operated_def by (metis endpoint_run_snoc)

lemma operated_wf: "operated ep \<Longrightarrow> wf_endpoint ep"
  by (auto simp: operated_def wf_run)

lemma operated_calls [intro]:
  assumes "operated ep"
  shows "operated (snd (admit_with_ack frame now tv ts ref ep))" "operated (snd (drain_one ep))"
    "operated (snd (select_due ctx ep))" "operated (snd (snd (complete i ctx ep)))"
    "operated (snd (notify_trigger source_ep nr ep))" "operated (snd (chain_predecessor_done i now ep))"
    "operated (set_chain i grp position ep)" "operated (snd (cancel_all_pending ep))"
    "operated (snd (cancel_non_safestate ep))" "operated (snd (watchdog_purge ep))"
    "operated (snd (cancel_chain_from grp position ep))" "operated (snd (cancel_single_pending txn state ep))"
  using operated_do [OF assms, of "Admit frame now tv ts ref"] operated_do [OF assms, of Drain]
    operated_do [OF assms, of "Select ctx"] operated_do [OF assms, of "Complete i ctx"]
    operated_do [OF assms, of "Notify source_ep nr"] operated_do [OF assms, of "Predecessor_done i now"]
    operated_do [OF assms, of "Set_chain i grp position"] operated_do [OF assms, of Cancel_all_pending]
    operated_do [OF assms, of Cancel_unsafe] operated_do [OF assms, of Purge]
    operated_do [OF assms, of "Cancel_chain grp position"] operated_do [OF assms, of "Cancel_one txn state"]
  by simp_all

lemma operated_result: "f ep = (r, ep') \<Longrightarrow> operated (snd (f ep)) \<Longrightarrow> operated ep'"
  by simp

lemma operated_admit:
  assumes "operated ep" "admit_and_classify frame req ep = (r, ep')"
  shows "operated ep'"
proof -
  have cancel: "operated (snd (apply_cancellation type frame req ep1))" if "operated ep1" for type ep1
    using that operated_calls(8,9) [OF that] operated_calls(12) [OF that]
    by (auto simp: apply_cancellation_def Let_def split: sum.split prod.split cancel_result.split)
       (metis operated_calls(11,12) snd_conv)+
  obtain ad ep1 where ad: "admit_with_ack frame 0 False 0 0 ep = (ad, ep1)" by (metis surj_pair)
  have ep1: "operated ep1" using operated_calls(1) [OF assms(1)] ad by (metis snd_conv)
  then show ?thesis
    using assms(2) cancel [OF ep1]
    by (auto simp: admit_and_classify_def ad split: admit_outcome.splits prod.splits) (metis snd_conv)
qed

section \<open>The server's type\<close>

definition typed_streams :: "mock_server \<Rightarrow> bool" where
  "typed_streams s \<longleftrightarrow>
     length (rm_request_streams (mk_regs s)) \<le> 64 \<and> length (mk_seq s) = 64 \<and> length (mk_watchdogs s) = 64 \<and>
     length (mk_status s) = 64 \<and> length (mk_reassemblers s) = 64 \<and> length (mk_first_headers s) = 64 \<and>
     length (mk_resp_queues s) = 64 \<and> (\<forall>r \<in> set (mk_reassemblers s). wf_reassembler r) \<and>
     (\<forall>q \<in> set (mk_resp_queues s). wf_queue q) \<and> wf_tracker (mk_faults s)"

definition typed_server :: "mock_server \<Rightarrow> bool" where
  "typed_server s \<longleftrightarrow>
     typed_streams s \<and> length (mk_admissions s) = 10 \<and> (\<forall>ep \<in> set (mk_admissions s). operated ep)"

lemma typed_streams_rest: "same_rest s s' \<Longrightarrow> typed_streams s' \<longleftrightarrow> typed_streams s"
  by (simp add: same_rest_def typed_streams_def mk_regs_def)

lemma typed_set_admission:
  assumes "typed_server s" "operated ep"
  shows "typed_server (set_admission i ep s)"
proof -
  have a: "mk_admissions (set_admission i ep s) = (mk_admissions s)[i := ep]" by (simp add: set_admission_def)
  have "\<forall>x \<in> set ((mk_admissions s)[i := ep]). operated x"
    using assms by (auto simp: typed_server_def dest!: set_update_slot)
  moreover have "typed_streams (set_admission i ep s)"
    using typed_streams_rest [of s "set_admission i ep s"] assms(1) by (simp add: typed_server_def)
  ultimately show ?thesis using assms(1) by (simp add: typed_server_def a)
qed

lemma typed_admission: "typed_server s \<Longrightarrow> i < 10 \<Longrightarrow> operated (mk_admissions s ! i)"
  by (simp add: typed_server_def)

lemma typed_run_endpoint:
  assumes "typed_server s" "i < 10"
  shows "typed_server (snd (run_endpoint i req payload s))"
proof -
  have "same_rest s (snd (run_endpoint i req payload s))"
    "mk_admissions (snd (run_endpoint i req payload s)) = mk_admissions s"
    using run_endpoint_well [OF assms(2), of req s payload] by (simp_all add: well_run_def others_kept_def)
  then show ?thesis using assms(1) typed_streams_rest by (simp add: typed_server_def)
qed

lemma typed_admit:
  "typed_server s \<Longrightarrow> i < 10 \<Longrightarrow> admit_and_classify frame req (mk_admissions s ! i) = (r, ep) \<Longrightarrow>
     typed_server (set_admission i ep s)"
  by (meson operated_admit typed_admission typed_set_admission)

lemma typed_dispatch:
  assumes "typed_server s"
  shows "typed_server (snd (dispatch req payload sid s))"
proof (cases "admission_index (a_byte_bus_id req)")
  case None
  then show ?thesis using assms by (simp add: dispatch_eq dispatch_ep0_def)
next
  case (Some i)
  then have i: "i < 10" by (rule admission_index_bound)
  have "typed_server (snd (admitted i req payload (run_endpoint i req payload) s))"
    using typed_admit [OF assms i] assms i
    by (auto simp: admitted_def typed_run_endpoint split: prod.split option.split)
  then show ?thesis using Some assms by (simp add: dispatch_eq dispatch_ep0_def)
qed

lemma typed_decode_and_dispatch:
  assumes "typed_server s"
  shows "typed_server (snd (decode_and_dispatch frame sid s))"
  using assms typed_dispatch [OF assms] typed_admit [OF assms admission_index_bound]
  by (auto simp: decode_and_dispatch_def Let_def split: option.split prod.split sum.split)


section \<open>What the server keeps of its streams\<close>

lemma typed_only_streams:
  assumes "typed_server s" "only_streams s s'" "length (mk_seq s') = 64" "length (mk_watchdogs s') = 64"
    "length (mk_status s') = 64" "wf_tracker (mk_faults s')"
  shows "typed_server s'"
proof -
  obtain w q t f where "s' = s\<lparr>mk_watchdogs := w, mk_seq := q, mk_status := t, mk_faults := f\<rparr>"
    using assms(2) by (auto simp: only_streams_iff)
  then show ?thesis using assms by (simp add: typed_server_def typed_streams_def mk_regs_def)
qed

lemma typed_kick: "typed_server s \<Longrightarrow> typed_server (rx_watchdog_kick sid now s)"
  by (rule typed_only_streams [of s])
     (auto simp: typed_server_def typed_streams_def, simp_all add: rx_watchdog_kick_def Let_def)

lemma typed_seq_gate: "typed_server s \<Longrightarrow> typed_server (snd (seq_gate_admits sid n s))"
  by (rule typed_only_streams [of s])
     (auto simp: typed_server_def typed_streams_def, simp_all add: seq_gate_admits_def Let_def split: prod.splits)

lemma tracker_on_error: "wf_tracker t \<Longrightarrow> wf_tracker (snd (on_crc_error t sid enforce))"
  using fault_tracker_exact [of t, where sid = sid and enforce = enforce] by (auto split: prod.splits)

lemma typed_crc_error: "typed_server s \<Longrightarrow> typed_server (note_stream_crc_error sid s)"
  by (rule typed_only_streams [of s])
     (auto simp: typed_server_def typed_streams_def,
      simp_all add: note_stream_crc_error_def Let_def tracker_on_error)

lemma typed_dispatch_e2e_core:
  assumes "typed_server s"
  shows "typed_server (snd (dispatch_e2e_core sid n frame gate s))"
proof -
  have "typed_server (snd (if gate then seq_gate_admits sid n (rx_watchdog_kick sid 0 s) else (True, rx_watchdog_kick sid 0 s)))"
    using assms by (simp add: typed_kick typed_seq_gate)
  then show ?thesis
    using assms by (auto simp: dispatch_e2e_core_def Let_def typed_kick typed_decode_and_dispatch typed_crc_error
        split: prod.split bool.split option.split)
qed

lemma push_wf:
  assumes "wf_queue q"
  shows "wf_queue (snd (the (push q frame)))"
proof (cases "fits_alone q (length frame)")
  case True
  then show ?thesis using push_accepted [OF assms True] by auto
next
  case False
  then show ?thesis using push_seq_refused [OF False] assms by (simp add: push_def)
qed

lemma push_all_wf: "wf_queue q \<Longrightarrow> wf_queue (snd (push_all frames q))"
proof (induction frames arbitrary: q)
  case (Cons frame frames)
  then show ?case using push_wf [of q frame] by (auto split: prod.split)
qed simp


lemma typed_set_reassembler:
  "typed_server s \<Longrightarrow> wf_reassembler r \<Longrightarrow> typed_server (set_reassembler i r s)"
  by (auto simp: typed_server_def typed_streams_def set_reassembler_def mk_regs_def dest!: set_update_slot)

lemma typed_first_header: "typed_server s \<Longrightarrow> typed_server (s\<lparr>mk_first_headers := (mk_first_headers s)[i := h]\<rparr>)"
  by (simp add: typed_server_def typed_streams_def mk_regs_def)

lemma typed_resp_queue:
  "typed_server s \<Longrightarrow> wf_queue q \<Longrightarrow> typed_server (s\<lparr>mk_resp_queues := (mk_resp_queues s)[i := q]\<rparr>)"
  by (auto simp: typed_server_def typed_streams_def mk_regs_def dest!: set_update_slot)

text \<open>A stream's number is a position in the table, so it lies within the arrays.\<close>

lemma stream_index_bound:
  assumes "typed_server s"
  shows "stream_index_of s sid \<le> length (rm_request_streams (mk_regs s))" "stream_index_of s sid \<le> 64"
proof -
  have short: "length (rm_request_streams (mk_regs s)) \<le> 64" using assms by (simp add: typed_server_def typed_streams_def)
  show "stream_index_of s sid \<le> length (rm_request_streams (mk_regs s))"
  proof (cases "find (\<lambda>i. to_u64 (rs_stream_id (rm_request_streams (mk_regs s) ! i)) = to_u64 sid)
      [0..<length (rm_request_streams (mk_regs s))]")
    case (Some i)
    then have "i < length (rm_request_streams (mk_regs s))" by (auto simp: find_Some_iff)
    moreover from this short have "unat (of_nat (i + 1) :: u8) = i + 1"
      by (simp add: unsigned_of_nat take_bit_eq_mod del: of_nat_Suc of_nat_add)
    ultimately show ?thesis using Some by (simp add: stream_index_of_def resolve_index_def del: of_nat_Suc of_nat_add)
  qed (simp add: stream_index_of_def resolve_index_def)
  with short show "stream_index_of s sid \<le> 64" by simp
qed

lemma typed_response:
  assumes "typed_server s"
  shows "typed_server (snd (maybe_fragment_response i rep s))"
proof -
  have "wf_queue (mk_resp_queues s ! qi)" if "resp_queue_index s i = Some qi" for qi
    using that assms by (auto simp: resp_queue_index_def Let_def typed_server_def typed_streams_def split: if_splits)
  then show ?thesis
    using assms by (auto simp: maybe_fragment_response_def Let_def typed_resp_queue push_all_wf
        split: prod.split option.split sum.split) (metis push_all_wf snd_conv typed_resp_queue)
qed

lemma reset_wf [simp]: "wf_reassembler (ra_reset r)"
  by (simp add: wf_reassembler_def ra_reset_def)

lemma typed_intermediate:
  assumes "typed_server s" "i < 64"
  shows "typed_server (snd (intermediate_fragment i peek frag s))"
proof -
  have "wf_reassembler (mk_reassemblers s ! i)" using assms by (simp add: typed_server_def typed_streams_def)
  then have "wf_reassembler (snd (feed (mk_reassemblers s ! i) True n payload))" for n payload by (rule feed_wf)
  then show ?thesis
    using assms typed_first_header [OF assms(1)]
    by (auto simp: intermediate_fragment_def Let_def typed_set_reassembler
        split: prod.split sum.split reasm_result.split) (metis snd_conv typed_set_reassembler)+
qed

lemma typed_final:
  assumes "typed_server s"
  shows "typed_server (snd (final_fragment i sid peek frag s))"
  using assms
  by (auto simp: final_fragment_def Let_def typed_set_reassembler typed_crc_error
      split: prod.split sum.split reasm_result.split)

lemma typed_dispatch_fragment_core:
  assumes "typed_server s"
  shows "typed_server (snd (dispatch_e2e_fragment_core sid n frag gate s))"
proof -
  let ?s = "rx_watchdog_kick sid 0 s" and ?peek = "decode_acf_message_info frag"
  have k: "typed_server ?s" using assms by (rule typed_kick)
  then have i: "stream_index_of ?s sid - 1 < 64" using stream_index_bound(2) [of ?s sid] by simp
  have f: "typed_server (snd (final_fragment (stream_index_of ?s sid - 1) sid ?peek frag ?s))"
    using k by (rule typed_final)
  have r: "typed_server s2 \<Longrightarrow> typed_server (snd (case decode_and_dispatch encoded sid s2 of
         ((Some ec, rep), s) \<Rightarrow> ((Some ec, rep), s) | ((None, rep), s) \<Rightarrow> maybe_fragment_response j rep s))" for s2 encoded j
    using typed_decode_and_dispatch [of s2 encoded sid] typed_response [of "snd (decode_and_dispatch encoded sid s2)" j]
    by (cases "decode_and_dispatch encoded sid s2") (auto split: prod.split option.split)
  have main: "typed_server (snd (case final_fragment (stream_index_of ?s sid - 1) sid ?peek frag ?s of
              (Inl result, s) \<Rightarrow> (result, s)
            | (Inr encoded, s) \<Rightarrow>
                (case decode_and_dispatch encoded sid s of
                   ((Some ec, rep), s) \<Rightarrow> ((Some ec, rep), s)
                 | ((None, rep), s) \<Rightarrow> maybe_fragment_response (stream_index_of s0 sid) rep s)))" for s0
    using f r by (cases "final_fragment (stream_index_of ?s sid - 1) sid ?peek frag ?s") (simp split: sum.split)
  show ?thesis
    using main [of s] k i assms
    by (simp add: dispatch_e2e_fragment_core_def Let_def typed_decode_and_dispatch typed_dispatch_e2e_core typed_intermediate)
qed


lemma typed_purge: "typed_server s \<Longrightarrow> typed_server (snd (mock_watchdog_purge bus s))"
  by (auto simp: mock_watchdog_purge_def split: option.split prod.split)
     (metis admission_index_bound operated_calls(10) snd_conv typed_admission typed_set_admission)

lemma typed_purge_mapped: "typed_server s \<Longrightarrow> typed_server (snd (purge_mapped index s))"
proof -
  let ?step = "\<lambda>e (purged, s). if em_request_stream_index e = index
    then (case mock_watchdog_purge (em_byte_bus_id e) s of (n, s) \<Rightarrow> (purged + n, s)) else (purged :: nat, s)"
  have "typed_server s \<Longrightarrow> typed_server (snd (fold ?step es (n, s)))" for es n s
  proof (induction es arbitrary: n s)
    case (Cons e es)
    then have "typed_server (snd (?step e (n, s)))"
      using typed_purge [of s "em_byte_bus_id e"] by (cases "mock_watchdog_purge (em_byte_bus_id e) s") simp
    then have "typed_server (snd (fold ?step es (?step e (n, s))))"
      using Cons.IH [of "snd (?step e (n, s))" "fst (?step e (n, s))"] by (simp only: prod.collapse)
    then show ?case by (simp only: fold_simps)
  qed simp
  then show "typed_server s \<Longrightarrow> typed_server (snd (purge_mapped index s))" by (simp add: purge_mapped_def)
qed

lemma typed_overflow:
  assumes "typed_server s"
  shows "typed_server (snd (snd (check_watchdog_overflow sid now s)))"
proof -
  have "typed_server (s\<lparr>mk_status := (mk_status s)[i := x]\<rparr>)"
    "typed_server (s\<lparr>mk_status := (mk_status s)[i := x], mk_watchdogs := (mk_watchdogs s)[j := y]\<rparr>)" for i x j y
    using assms by (simp_all add: typed_server_def typed_streams_def mk_regs_def)
  then show ?thesis
    using assms typed_purge_mapped by (simp add: check_watchdog_overflow_def Let_def split: prod.split)
qed

section \<open>Frames\<close>

lemma typed_record_place:
  assumes "typed_server s" "i < 10"
  shows "typed_server (record_chain_place i n grp position s)"
  using assms by (auto simp: record_chain_place_def Let_def intro!: typed_set_admission operated_calls typed_admission)

lemma typed_dispatch_member:
  assumes "\<And>m s. typed_server s \<Longrightarrow> typed_server (snd (d m s))" "typed_server s"
  shows "typed_server (snd (snd (dispatch_member d i m c s)))"
proof -
  have "typed_server (snd (d m s))" using assms by blast
  then show ?thesis
    using assms(2) typed_record_place admission_index_bound
    by (cases "d m s") (auto simp: dispatch_member_def Let_def split: option.split)
qed

lemma typed_dispatch_members:
  assumes "\<And>m s. typed_server s \<Longrightarrow> typed_server (snd (d m s))"
  shows "typed_server s \<Longrightarrow> typed_server (snd (snd (dispatch_members d i ms c s)))"
proof (induction ms arbitrary: i c s)
  case (Cons m ms)
  obtain r c' s' where m: "dispatch_member d i m c s = (r, c', s')" by (metis surj_pair)
  then have "typed_server s'" using typed_dispatch_member [of d s i m c] assms Cons.prems by simp
  then have "typed_server (snd (snd (dispatch_members d (i + 1) ms c' s')))" by (rule Cons.IH)
  then show ?case by (cases "dispatch_members d (i + 1) ms c' s'") (simp add: m)
qed simp

lemma typed_frame:
  assumes "\<And>m s. typed_server s \<Longrightarrow> typed_server (snd (d m s))" "typed_server s"
  shows "typed_server (snd (dispatch_frame_impl d frame s))"
  using typed_dispatch_members [of d s 0 "frame_members frame" no_chain] assms
  by (cases "dispatch_members d 0 (frame_members frame) no_chain s") (simp add: dispatch_frame_impl_def)

section \<open>Sequences of calls\<close>

text \<open>
  The public calls that change the server. \<open>Operate\<close> is a call of the owner on the admission queue that
  \<open>admission(byte_bus_id)\<close> hands out, \<open>Ep0\<close> one on the EP0 that \<open>ep0()\<close> hands out, \<open>Reset_fault\<close>
  one on the tracker of \<open>stream_fault_tracker()\<close>.
\<close>

datatype server_call =
    Dispatch acf_info octets stream_id
  | Dispatch_e2e stream_id u8 octets
  | Dispatch_fragment stream_id octets
  | Dispatch_frame stream_id octets
  | Dispatch_frame_e2e stream_id u8 octets
  | Check_overflow stream_id u64
  | Purge_bus u16
  | Drain_bus u16
  | Notify_trigger u8 u8
  | Notify_gptp bool u8
  | Tick u16 tick_context
  | Operate u16 endpoint_call
  | Ep0 ep0_call
  | Reset_fault stream_id
  | Set_streams "request_stream_config list"
  | Set_ids "ep_id_mapping_entry list"
  | Advance "bool option" "bool option" server_state
  | Set_discovery_timeout u16
  | Set_poci u8 octets
  | Set_i2c octets bool
  | Set_adc "u16 list"
  | Set_pwm_in pwm_value
  | Set_lin octets bool
  | Set_iseled octets

fun server_do :: "server_call \<Rightarrow> mock_server \<Rightarrow> mock_server" where
  "server_do (Dispatch req payload sid) s = snd (dispatch req payload sid s)"
| "server_do (Dispatch_e2e sid n frame) s = snd (dispatch_e2e sid n frame s)"
| "server_do (Dispatch_fragment sid frag) s = snd (dispatch_e2e_fragment sid frag s)"
| "server_do (Dispatch_frame sid frame) s = snd (dispatch_frame sid frame s)"
| "server_do (Dispatch_frame_e2e sid n frame) s = snd (dispatch_frame_e2e sid n frame s)"
| "server_do (Check_overflow sid now) s = snd (snd (check_watchdog_overflow sid now s))"
| "server_do (Purge_bus bus) s = snd (mock_watchdog_purge bus s)"
| "server_do (Drain_bus bus) s = snd (mock_drain_one bus s)"
| "server_do (Notify_trigger source_ep nr) s = snd (mock_notify_trigger source_ep nr s)"
| "server_do (Notify_gptp locked source_ep) s = snd (notify_gptp_lock_state locked source_ep s)"
| "server_do (Tick bus ctx) s = snd (snd (mock_tick bus ctx s))"
| "server_do (Operate bus call) s =
     (case admission_index bus of
        None \<Rightarrow> s
      | Some i \<Rightarrow> set_admission i (endpoint_do call (mk_admissions s ! i)) s)"
| "server_do (Ep0 call) s = s\<lparr>mk_ep0 := ep0_do call (mk_ep0 s)\<rparr>"
| "server_do (Reset_fault sid) s = s\<lparr>mk_faults := reset_fault (mk_faults s) (to_u64 sid)\<rparr>"
| "server_do (Set_streams entries) s = snd (set_request_stream_cfg entries s)"
| "server_do (Set_ids entries) s = snd (set_ep_id_map entries s)"
| "server_do (Advance hw rcp target) s = snd (mock_advance hw rcp target s)"
| "server_do (Set_discovery_timeout us) s = set_discovery_timeout_us us s"
| "server_do (Set_poci channel data) s = set_spi_poci channel data s"
| "server_do (Set_i2c data acked) s = set_i2c_response data acked s"
| "server_do (Set_adc samples) s = set_adc_response samples s"
| "server_do (Set_pwm_in v) s = set_pwm_in_response v s"
| "server_do (Set_lin data responded) s = set_lin_response data responded s"
| "server_do (Set_iseled response) s = set_iseled_response response s"

lemma typed_notify: "typed_server s \<Longrightarrow> typed_server (snd (mock_notify_trigger source_ep nr s))"
  using operated_calls(5)
  by (auto simp: mock_notify_trigger_def Let_def typed_server_def typed_streams_def mk_regs_def)

lemma typed_gptp: "typed_server s \<Longrightarrow> typed_server (snd (notify_gptp_lock_state locked source_ep s))"
proof -
  assume "typed_server s"
  then have "typed_server (s\<lparr>mk_gptp := state\<rparr>)" for state
    by (simp add: typed_server_def typed_streams_def mk_regs_def)
  then show ?thesis by (simp add: notify_gptp_lock_state_def typed_notify split: prod.split option.split)
qed

lemma typed_tick:
  assumes "typed_server s"
  shows "typed_server (snd (snd (mock_tick bus ctx s)))"
proof (cases "admission_index bus")
  case (Some i)
  then have a: "operated (mk_admissions s ! i)" using assms admission_index_bound typed_admission by blast
  obtain r ep where sel: "select_due ctx (mk_admissions s ! i) = (r, ep)" by (metis surj_pair)
  then have "operated ep" using operated_calls(3) [OF a, of ctx] by simp
  then have "operated (snd (snd (complete index ctx ep)))" for index by (rule operated_calls(4))
  then show ?thesis
    using Some sel assms \<open>operated ep\<close>
    by (auto simp: mock_tick_def typed_set_admission split: option.split prod.split) (metis snd_conv typed_set_admission)
qed (simp add: mock_tick_def assms)

lemma typed_settings:
  assumes "typed_server s"
  shows "typed_server (set_discovery_timeout_us us s)" "typed_server (set_spi_poci channel data s)"
    "typed_server (set_i2c_response data acked s)" "typed_server (set_adc_response samples s)"
    "typed_server (set_pwm_in_response v s)" "typed_server (set_lin_response data responded s)"
    "typed_server (set_iseled_response data s)"
  using assms
  by (simp_all add: typed_server_def typed_streams_def mk_regs_def set_discovery_timeout_us_def set_spi_poci_def
      set_i2c_response_def set_adc_response_def set_pwm_in_response_def set_lin_response_def set_iseled_response_def
      set_regs_def Let_def)

text \<open>
  A call that keeps the table of request streams within the 64 rows that there are arrays for. A whole-map write
  does not check that, so that it is a condition on the caller.
\<close>

fun rows_in_range :: "server_call \<Rightarrow> bool" where
  "rows_in_range (Ep0 (Write_map client new_map)) \<longleftrightarrow> length (rm_request_streams new_map) \<le> 64"
| "rows_in_range call \<longleftrightarrow> True"

lemma long_table_is_installed:
  assumes "is_root_client (mk_ep0 s) client" "size_invariant_holds new_map"
  shows "rm_request_streams (mk_regs (server_do (Ep0 (Write_map client new_map)) s)) = rm_request_streams new_map"
  using assms by (simp add: write_whole_map_def mk_regs_def)

lemma typed_ep0:
  assumes "typed_server s" "rows_in_range (Ep0 call)"
  shows "typed_server (s\<lparr>mk_ep0 := ep0_do call (mk_ep0 s)\<rparr>)"
proof -
  have "length (rm_request_streams (e0_regs (ep0_do call (mk_ep0 s)))) \<le> 64"
    using assms
    by (cases call) (simp_all add: typed_server_def typed_streams_def mk_regs_def claim_root_client_def
        release_root_client_def set_endpoint_owner_def write_whole_map_def write_generic_config_def
        write_functional_config_def Let_def split: option.split)
  then show ?thesis using assms(1) by (simp add: typed_server_def typed_streams_def mk_regs_def)
qed

lemma typed_do:
  assumes "typed_server s" "rows_in_range call"
  shows "typed_server (server_do call s)"
proof (cases call)
  case (Dispatch_frame_e2e sid n frame)
  have "typed_server (snd (seq_gate_admits sid n s))" using assms(1) by (rule typed_seq_gate)
  then show ?thesis
    using Dispatch_frame_e2e assms(1) typed_frame [of "\<lambda>m. dispatch_e2e_fragment_core sid n m False"] typed_dispatch_fragment_core
    by (auto simp: dispatch_frame_e2e_def split: prod.split bool.split)
next
  case (Drain_bus bus)
  then show ?thesis
    using assms(1) operated_calls(2) [OF typed_admission [OF assms(1) admission_index_bound]]
    by (auto simp: mock_drain_one_def typed_set_admission split: option.split prod.split) (metis snd_conv typed_set_admission)
next
  case (Operate bus c)
  then show ?thesis
    using assms(1) operated_do [OF typed_admission [OF assms(1) admission_index_bound]]
    by (auto simp: typed_set_admission split: option.split)
next
  case (Ep0 call)
  then show ?thesis using assms typed_ep0 by simp
next
  case (Reset_fault sid)
  have "wf_tracker (reset_fault (mk_faults s) (to_u64 sid))"
    using fault_tracker_exact [where slots = "mk_faults s" and sid = "to_u64 sid" and enforce = True] assms(1)
    by (auto simp: typed_server_def typed_streams_def split: prod.splits)
  then show ?thesis
    using Reset_fault assms(1) by (simp add: typed_server_def typed_streams_def mk_regs_def)
next
  case (Set_streams entries)
  then show ?thesis
    using assms(1) by (simp add: set_request_stream_cfg_def typed_server_def typed_streams_def set_regs_def mk_regs_def kMaxEntries_def)
next
  case (Set_ids entries)
  then show ?thesis
    using assms by (simp add: set_ep_id_map_def typed_server_def typed_streams_def set_regs_def mk_regs_def)
next
  case (Advance hw rcp target)
  then show ?thesis
    using assms by (simp add: mock_advance_def typed_server_def typed_streams_def mk_regs_def split: prod.split)
qed (use assms(1) in \<open>simp_all add: typed_dispatch dispatch_e2e_def typed_dispatch_e2e_core dispatch_e2e_fragment_def
  typed_dispatch_fragment_core dispatch_frame_def typed_frame typed_decode_and_dispatch typed_overflow typed_purge
  typed_notify typed_gptp typed_tick typed_settings\<close>)


lemma typed_new: "typed_server new_mock"
proof -
  have "wf_queue (new_queue 0 0)" by (simp add: new_queue_def wf_queue_def)
  moreover have "wf_reassembler (new_reassembler kDefaultReassemblyCapacity)"
    by (simp add: new_reassembler_def wf_reassembler_def)
  ultimately show ?thesis
    by (simp add: typed_server_def typed_streams_def new_mock_def set_discovery_timeout_us_def mk_regs_def set_regs_def
        kMaxEntries_def wf_new_tracker make_initial_register_map_def new_ep0_def Let_def)
qed

text \<open>
  C9. Through every sequence of calls on the server, on its admission queues and on its EP0, with whatever
  messages and fragments, in which no whole-map write installs more than 64 request streams, the server keeps
  its type. The table of request streams has at most 64 rows, and each array of per-stream state 64 places, so
  that the number by which a stream is looked up is always a place of the arrays. The reassemblers and
  response queues stay within their capacities, no two places of the fault tracker are for the same
  stream, and the ten admission queues are what their own operations make of them, so that everything
  proved of an endpoint's store holds for them. Not covered is what the owner does with its other references:
  to the register map and to single reassemblers, response queues and endpoints.
\<close>

theorem reachable_server_typed:
  assumes "s = fold server_do calls new_mock" "\<forall>call \<in> set calls. rows_in_range call"
  shows "length (rm_request_streams (mk_regs s)) \<le> 64 \<and>
    stream_index_of s sid \<le> length (rm_request_streams (mk_regs s)) \<and>
    length (mk_seq s) = 64 \<and> length (mk_watchdogs s) = 64 \<and> length (mk_status s) = 64 \<and>
    length (mk_reassemblers s) = 64 \<and> length (mk_first_headers s) = 64 \<and> length (mk_resp_queues s) = 64 \<and>
    (\<forall>r \<in> set (mk_reassemblers s). wf_reassembler r) \<and> (\<forall>q \<in> set (mk_resp_queues s). wf_queue q) \<and>
    wf_tracker (mk_faults s) \<and> length (mk_admissions s) = 10 \<and>
    (\<forall>ep \<in> set (mk_admissions s). \<exists>ops. ep = endpoint_run True ops)"
proof -
  have "typed_server s"
    unfolding assms(1) using assms(2)
    by (induction calls rule: rev_induct) (simp_all add: typed_new typed_do)
  then show ?thesis
    using stream_index_bound(1) [of s sid] by (simp add: typed_server_def typed_streams_def operated_def)
qed

theorem reachable_server_typed_witness:
  "wf_queue (mk_resp_queues (fold server_do
     [Set_streams [request_stream_default], Ep0 (Claim 0), Dispatch_frame sample_stream [28, 2, 0, 1, 0, 0, 0, 0], Purge_bus 1]
     new_mock) ! 0)"
    (is "wf_queue (mk_resp_queues ?s ! 0)")
proof -
  have "length (mk_resp_queues ?s) = 64" "\<forall>q \<in> set (mk_resp_queues ?s). wf_queue q"
    using reachable_server_typed [where s = ?s and sid = sample_stream, OF refl] by simp_all
  then show ?thesis by (metis nth_mem zero_less_numeral)
qed

end
