(* ===== verification/Transport.thy ===== *)
theory Transport
  imports Acf_Response
begin

text \<open>
  What the two transports, \<open>include/rcp/l2.hpp\<close> and \<open>include/rcp/udp.hpp\<close>, put on the wire: one
  AVTP frame with one ACF message or with several, and the table of requests that wait for an answer.
  The two headers declare the same structures and repeat the same code; the structures and the
  functions of \<open>l2.hpp\<close> are modelled here, those of \<open>udp.hpp\<close> in \<open>Udp\<close>.
\<close>

section \<open>Frames\<close>

record avtp_frame =
  fr_use_tscf :: bool
  fr_stream_id :: stream_id
  fr_sequence_num :: u16
  fr_timestamp_valid :: bool
  fr_avtp_timestamp :: u32
  fr_info :: acf_info
  fr_message_timestamp :: u64
  fr_payload :: octets

record multi_frame =
  mf_use_tscf :: bool
  mf_stream_id :: stream_id
  mf_sequence_num :: u16
  mf_timestamp_valid :: bool
  mf_avtp_timestamp :: u32
  mf_messages :: "acf_entry list"

record avtp_frame_header =
  fh_use_tscf :: bool
  fh_stream_id :: stream_id
  fh_sequence_num :: u16
  fh_timestamp_valid :: bool
  fh_avtp_timestamp :: u32
  fh_acf_offset :: nat

text \<open>\<open>len\<close> is the number of octets behind the header; the field that announces it has 16 bits.\<close>

definition avtp_header :: "bool \<Rightarrow> stream_id \<Rightarrow> u16 \<Rightarrow> bool \<Rightarrow> u32 \<Rightarrow> nat \<Rightarrow> octets" where
  "avtp_header use_tscf sid sequence_num timestamp_valid avtp_timestamp len =
     (if use_tscf then
        encode_tscf_header
          \<lparr>t_sv = True, t_version = 0, t_mr = False, t_stream_id = sid,
           t_sequence_num = ucast sequence_num, t_control_data_length = of_nat len,
           t_timestamp_valid = timestamp_valid, t_avtp_timestamp = avtp_timestamp, t_tu = False,
           t_reserved0 = 0, t_reserved1 = 0\<rparr>
      else
        encode_ntscf_header
          \<lparr>n_sv = True, n_version = 0, n_stream_id = sid, n_sequence_num = ucast sequence_num,
           n_control_data_length = of_nat len\<rparr>)"

definition encode_frame :: "avtp_frame \<Rightarrow> octets" where
  "encode_frame f =
     (let acf_msg =
        (if a_msg_type (fr_info f) = kAcfMsgTypeGbb
         then encode_acf_gbb (fr_info f) (fr_message_timestamp f) (fr_payload f)
         else encode_acf_abb (fr_info f) (fr_payload f))
      in avtp_header (fr_use_tscf f) (fr_stream_id f) (fr_sequence_num f) (fr_timestamp_valid f)
           (fr_avtp_timestamp f) (length acf_msg) @ acf_msg)"

definition decode_avtp_frame_header :: "octets \<Rightarrow> avtp_frame_header result" where
  "decode_avtp_frame_header b =
     (if length b < 1 then Inl (Avtp_err Short_buffer)
      else if b ! 0 = kSubtypeTscf then
        (case decode_tscf_header b of
           Inl e \<Rightarrow> Inl e
         | Inr hdr \<Rightarrow>
             if unat (t_control_data_length hdr) \<noteq> length b - kTscfHeaderLen
             then Inl (Avtp_err Length_mismatch)
             else Inr
               \<lparr>fh_use_tscf = True, fh_stream_id = t_stream_id hdr,
                fh_sequence_num = ucast (t_sequence_num hdr), fh_timestamp_valid = t_timestamp_valid hdr,
                fh_avtp_timestamp = t_avtp_timestamp hdr, fh_acf_offset = kTscfHeaderLen\<rparr>)
      else
        (case decode_ntscf_header b of
           Inl e \<Rightarrow> Inl e
         | Inr hdr \<Rightarrow>
             if unat (n_control_data_length hdr) \<noteq> length b - kNtscfHeaderLen
             then Inl (Avtp_err Length_mismatch)
             else Inr
               \<lparr>fh_use_tscf = False, fh_stream_id = n_stream_id hdr,
                fh_sequence_num = ucast (n_sequence_num hdr), fh_timestamp_valid = False,
                fh_avtp_timestamp = 0, fh_acf_offset = kNtscfHeaderLen\<rparr>))"

text \<open>
  The decoders of a frame repeat the code of \<open>decode_avtp_frame_header\<close> before they decode the
  message or the messages.
\<close>

definition decode_frame :: "octets \<Rightarrow> avtp_frame result" where
  "decode_frame b =
     (case decode_avtp_frame_header b of
        Inl e \<Rightarrow> Inl e
      | Inr h \<Rightarrow>
          (let acf_off = fh_acf_offset h;
               frame = (\<lambda>info message_timestamp payload.
                 \<lparr>fr_use_tscf = fh_use_tscf h, fr_stream_id = fh_stream_id h,
                  fr_sequence_num = fh_sequence_num h, fr_timestamp_valid = fh_timestamp_valid h,
                  fr_avtp_timestamp = fh_avtp_timestamp h, fr_info = info,
                  fr_message_timestamp = message_timestamp, fr_payload = payload\<rparr>)
           in
           if length b < acf_off + 1 then Inl (Avtp_err Short_buffer)
           else if peek_acf_msg_type (drop acf_off b) = kAcfMsgTypeGbb then
             (case decode_acf_gbb (drop acf_off b) of
                Inl e \<Rightarrow> Inl e
              | Inr (info, message_timestamp, payload) \<Rightarrow> Inr (frame info message_timestamp payload))
           else
             (case decode_acf_abb (drop acf_off b) of
                Inl e \<Rightarrow> Inl e
              | Inr (info, payload) \<Rightarrow> Inr (frame info 0 payload))))"

definition encode_multi_frame :: "multi_frame \<Rightarrow> octets" where
  "encode_multi_frame f =
     (let acf_bytes = concat (map (\<lambda>m.
        if a_msg_type (en_info m) = kAcfMsgTypeGbb
        then encode_acf_gbb (en_info m) (en_timestamp m) (en_payload m)
        else encode_acf_abb (en_info m) (en_payload m)) (mf_messages f))
      in avtp_header (mf_use_tscf f) (mf_stream_id f) (mf_sequence_num f) (mf_timestamp_valid f)
           (mf_avtp_timestamp f) (length acf_bytes) @ acf_bytes)"

definition decode_multi_frame :: "octets \<Rightarrow> multi_frame result" where
  "decode_multi_frame b =
     (case decode_avtp_frame_header b of
        Inl e \<Rightarrow> Inl e
      | Inr h \<Rightarrow>
          if length b < fh_acf_offset h + 1 then Inl (Avtp_err Short_buffer)
          else
            (case decode_acf_messages (drop (fh_acf_offset h) b) of
               Inl e \<Rightarrow> Inl e
             | Inr messages \<Rightarrow> Inr
                 \<lparr>mf_use_tscf = fh_use_tscf h, mf_stream_id = fh_stream_id h,
                  mf_sequence_num = fh_sequence_num h, mf_timestamp_valid = fh_timestamp_valid h,
                  mf_avtp_timestamp = fh_avtp_timestamp h, mf_messages = messages\<rparr>))"

definition pending_key :: "u16 \<Rightarrow> u8 \<Rightarrow> u32" where
  "pending_key bus_id transaction_num = push_bit 8 (ucast bus_id) OR ucast transaction_num"

text \<open>A response as a server puts it into a frame.\<close>

definition response_entry :: "acf_info \<Rightarrow> octets \<Rightarrow> acf_entry" where
  "response_entry info payload = \<lparr>en_info = info, en_timestamp = 0, en_payload = payload\<rparr>"

text \<open>The responses that are sent: a result without a response is dropped.\<close>

definition sent_responses :: "(acf_info \<times> octets) list \<Rightarrow> acf_entry list" where
  "sent_responses results =
     map (\<lambda>(info, payload). response_entry info payload) (filter (\<lambda>(info, payload). a_rsp info) results)"

text \<open>The frame that answers a frame with this header: of the same kind, with its timestamp.\<close>

definition reply_frame :: "stream_id \<Rightarrow> u16 \<Rightarrow> avtp_frame_header \<Rightarrow> acf_entry list \<Rightarrow> multi_frame" where
  "reply_frame sid sequence_num h messages =
     \<lparr>mf_use_tscf = fh_use_tscf h, mf_stream_id = sid, mf_sequence_num = sequence_num,
      mf_timestamp_valid = fh_timestamp_valid h, mf_avtp_timestamp = fh_avtp_timestamp h,
      mf_messages = messages\<rparr>"

section \<open>Frames survive the wire\<close>

text \<open>The largest message that the length field of the header can announce.\<close>

definition frame_capacity :: "bool \<Rightarrow> nat" where
  "frame_capacity use_tscf = (if use_tscf then 2 ^ 16 else 2 ^ 11)"

text \<open>What the receiver finds in the header: the timestamp only in a TSCF frame.\<close>

definition received_header :: "bool \<Rightarrow> stream_id \<Rightarrow> u16 \<Rightarrow> bool \<Rightarrow> u32 \<Rightarrow> avtp_frame_header" where
  "received_header use_tscf sid sequence_num timestamp_valid avtp_timestamp =
     \<lparr>fh_use_tscf = use_tscf, fh_stream_id = sid,
      fh_sequence_num = ucast (ucast sequence_num :: u8),
      fh_timestamp_valid = (use_tscf \<and> timestamp_valid),
      fh_avtp_timestamp = (if use_tscf then avtp_timestamp else 0),
      fh_acf_offset = (if use_tscf then kTscfHeaderLen else kNtscfHeaderLen)\<rparr>"

lemma low_sequence_num [simp]: "ucast (ucast (ucast (n :: u16) :: u8) :: u16) = (ucast n :: u8)"
  by (rule bit_eqI) (simp add: bit_simps)

lemma avtp_header_len [simp, wire_len]:
  "length (avtp_header use_tscf sid n tv ts len) = (if use_tscf then kTscfHeaderLen else kNtscfHeaderLen)"
  by (simp add: avtp_header_def wire_len)

lemma avtp_header_subtype:
  "(avtp_header use_tscf sid n tv ts len @ r) ! 0 = (if use_tscf then kSubtypeTscf else kSubtypeNtscf)"
  by (simp add: avtp_header_def encode_tscf_header_def encode_ntscf_header_def Let_def)

lemma low_11_bits: "n < 2048 \<Longrightarrow> unat ((of_nat n :: u16) AND kNtscfDataLengthMask) = n"
  by (simp add: kNtscfDataLengthMask_def masked_field word_less_nat_alt unsigned_of_nat take_bit_eq_mod)

lemma decode_avtp_header:
  assumes "wf_stream_id sid" "length r < frame_capacity use_tscf"
  shows "decode_avtp_frame_header (avtp_header use_tscf sid n tv ts (length r) @ r)
     = Inr (received_header use_tscf sid n tv ts)"
proof (cases use_tscf)
  case True
  then have "unat (of_nat (length r) :: u16) = length r"
    using assms(2) by (simp add: frame_capacity_def unsigned_of_nat take_bit_eq_mod)
  then show ?thesis
    using True assms avtp_header_subtype [of use_tscf sid n tv ts "length r" r]
    by (simp add: decode_avtp_frame_header_def received_header_def avtp_header_def decode_encode_tscf
        wire_len kTscfHeaderLen_def)
next
  case False
  then show ?thesis
    using assms avtp_header_subtype [of use_tscf sid n tv ts "length r" r]
    by (simp add: decode_avtp_frame_header_def received_header_def avtp_header_def decode_encode_ntscf
        wire_len low_11_bits frame_capacity_def kSubtypeTscf_def kSubtypeNtscf_def kNtscfHeaderLen_def)
qed

text \<open>What the receiver finds of a message: its header with the computed length, and no timestamp in an ACF_ABB message.\<close>

definition sent_entry :: "acf_entry \<Rightarrow> acf_entry" where
  "sent_entry e =
     (if a_msg_type (en_info e) = kAcfMsgTypeGbb
      then e\<lparr>en_info := mask_info (gbb_header (en_info e) (en_payload e))\<rparr>
      else e\<lparr>en_info := mask_info (abb_header (en_info e) (en_payload e)), en_timestamp := 0\<rparr>)"

definition frame_entry :: "avtp_frame \<Rightarrow> acf_entry" where
  "frame_entry f = \<lparr>en_info = fr_info f, en_timestamp = fr_message_timestamp f, en_payload = fr_payload f\<rparr>"

definition received_frame :: "avtp_frame_header \<Rightarrow> acf_entry \<Rightarrow> avtp_frame" where
  "received_frame h e =
     \<lparr>fr_use_tscf = fh_use_tscf h, fr_stream_id = fh_stream_id h,
      fr_sequence_num = fh_sequence_num h, fr_timestamp_valid = fh_timestamp_valid h,
      fr_avtp_timestamp = fh_avtp_timestamp h, fr_info = en_info e,
      fr_message_timestamp = en_timestamp e, fr_payload = en_payload e\<rparr>"

lemma encode_frame_eq:
  "encode_frame f =
     avtp_header (fr_use_tscf f) (fr_stream_id f) (fr_sequence_num f) (fr_timestamp_valid f)
       (fr_avtp_timestamp f) (length (encode_entry (frame_entry f))) @ encode_entry (frame_entry f)"
  by (simp add: encode_frame_def encode_entry_def frame_entry_def Let_def)

lemma encode_multi_frame_eq:
  "encode_multi_frame f =
     (let acf_bytes = concat (map encode_entry (mf_messages f)) in
      avtp_header (mf_use_tscf f) (mf_stream_id f) (mf_sequence_num f) (mf_timestamp_valid f)
       (mf_avtp_timestamp f) (length acf_bytes) @ acf_bytes)"
  by (simp add: encode_multi_frame_def encode_entry_def [abs_def] Let_def)

lemma gbb_is_not_abb: "kAcfMsgTypeAbb \<noteq> kAcfMsgTypeGbb"
  by (simp add: wire_defs)

lemma decode_single_message:
  "decode_frame (hdr @ encode_entry e) = Inr (received_frame h (sent_entry e))"
  if "decode_avtp_frame_header (hdr @ encode_entry e) = Inr h" "fh_acf_offset h = length hdr"
proof (cases "a_msg_type (en_info e) = kAcfMsgTypeGbb")
  case True
  have "peek_acf_msg_type (encode_entry e) = kAcfMsgTypeGbb" "encode_entry e \<noteq> []"
    using True by (simp_all add: encode_entry_def encode_gbb_eq gbb_header_def wire_defs)
  then show ?thesis
    using that True decode_encode_gbb [of "en_info e" "en_timestamp e" "en_payload e"]
    by (simp add: decode_frame_def Let_def received_frame_def sent_entry_def encode_entry_def Suc_le_eq)
next
  case False
  have "peek_acf_msg_type (encode_entry e) = kAcfMsgTypeAbb" "encode_entry e \<noteq> []"
    using False by (simp_all add: encode_entry_def encode_abb_eq abb_header_def wire_defs)
  then show ?thesis
    using that False decode_encode_abb [of "en_info e" "en_payload e"] gbb_is_not_abb
    by (simp add: decode_frame_def Let_def received_frame_def sent_entry_def encode_entry_def Suc_le_eq)
qed

definition frame_fits :: "avtp_frame \<Rightarrow> bool" where
  "frame_fits f \<longleftrightarrow>
     wf_stream_id (fr_stream_id f) \<and> length (encode_entry (frame_entry f)) < frame_capacity (fr_use_tscf f)"

lemma decode_encode_frame:
  assumes "frame_fits f"
  shows "decode_frame (encode_frame f) =
    Inr (received_frame
      (received_header (fr_use_tscf f) (fr_stream_id f) (fr_sequence_num f) (fr_timestamp_valid f) (fr_avtp_timestamp f))
      (sent_entry (frame_entry f)))"
  unfolding encode_frame_eq
  by (rule decode_single_message)
     (use assms in \<open>simp_all add: frame_fits_def decode_avtp_header received_header_def\<close>)

text \<open>Messages whose length is left to the encoder and whose payload is padded to whole quadlets.\<close>

definition padded_entry :: "acf_entry \<Rightarrow> bool" where
  "padded_entry e \<longleftrightarrow>
     a_msg_type (en_info e) \<in> {kAcfMsgTypeAbb, kAcfMsgTypeGbb} \<and> a_msg_length (en_info e) = 0 \<and>
     length (en_payload e) mod 4 = 0 \<and> length (en_payload e) \<le> kAcfGbbMaxPayload"

lemma wf_mask [simp]: "wf_info (mask_info info)"
proof -
  have small: "w AND 0x7F < 0x80" "w AND 0x03 < 0x04" "w AND 0x07 < 0x08" for w :: u8
    using word_and_le1 [of w "0x7F"] word_and_le1 [of w "0x03"] word_and_le1 [of w "0x07"]
    by (auto intro: le_less_trans)
  have wide: "w AND 0x1FF < 0x200" "w AND 0x7FF < 0x800" "w AND 0xFFF < 0x1000" for w :: u16
    using word_and_le1 [of w "0x1FF"] word_and_le1 [of w "0x7FF"] word_and_le1 [of w "0xFFF"]
    by (auto intro: le_less_trans)
  show ?thesis
    using small wide by (simp add: wf_info_def mask_info_def)
qed

lemma padded_sent_exact:
  assumes "padded_entry e"
  shows "exact_entry (sent_entry e)"
proof -
  have "unat (compute_acf_msg_length kAcfMsgTypeAbb (length (en_payload e))) * 4 = 8 + length (en_payload e)"
    "unat (compute_acf_msg_length kAcfMsgTypeGbb (length (en_payload e))) * 4 = 16 + length (en_payload e)"
    using assms by (auto intro!: compute_length_exact simp: padded_entry_def wire_defs)
  moreover have "length (en_payload e) \<le> 2028"
    using assms by (simp add: padded_entry_def wire_defs)
  ultimately show ?thesis
    using assms
    by (auto simp: padded_entry_def exact_entry_def sent_entry_def unat_msg_length)
       (auto simp: gbb_header_def abb_header_def fill_length_def wire_defs mask_info_def)
qed

lemma header_kept:
  "a_msg_length info \<noteq> 0 \<Longrightarrow> a_msg_type info = kAcfMsgTypeGbb \<Longrightarrow> gbb_header info payload = info"
  "a_msg_length info \<noteq> 0 \<Longrightarrow> a_msg_type info = kAcfMsgTypeAbb \<Longrightarrow> \<not> a_mtv info \<Longrightarrow> abb_header info payload = info"
  by (cases info; simp add: gbb_header_def abb_header_def fill_length_def)+

lemma sent_type:
  "a_msg_type (mask_info (gbb_header info payload)) = kAcfMsgTypeGbb"
  "a_msg_type (mask_info (abb_header info payload)) = kAcfMsgTypeAbb"
  "\<not> a_mtv (mask_info (abb_header info payload))"
  by (simp_all add: mask_info_def gbb_header_def abb_header_def wire_defs)

lemma encode_sent_entry:
  assumes "padded_entry e"
  shows "encode_entry (sent_entry e) = encode_entry e"
  using exact_length [OF padded_sent_exact [OF assms]] gbb_is_not_abb
  by (auto simp: encode_entry_def sent_entry_def encode_gbb_eq encode_abb_eq sent_type header_kept
      encode_mask_info encode_acf_gbb_message_info_def)

lemma concat_sent: "\<forall>e \<in> set es. padded_entry e \<Longrightarrow>
    concat (map encode_entry (map sent_entry es)) = concat (map encode_entry es)"
  by (induction es) (simp_all add: encode_sent_entry)

definition multi_fits :: "multi_frame \<Rightarrow> bool" where
  "multi_fits f \<longleftrightarrow>
     wf_stream_id (mf_stream_id f) \<and> mf_messages f \<noteq> [] \<and> (\<forall>e \<in> set (mf_messages f). padded_entry e) \<and>
     length (concat (map encode_entry (mf_messages f))) < frame_capacity (mf_use_tscf f)"

definition received_multi :: "avtp_frame_header \<Rightarrow> acf_entry list \<Rightarrow> multi_frame" where
  "received_multi h es =
     \<lparr>mf_use_tscf = fh_use_tscf h, mf_stream_id = fh_stream_id h,
      mf_sequence_num = fh_sequence_num h, mf_timestamp_valid = fh_timestamp_valid h,
      mf_avtp_timestamp = fh_avtp_timestamp h, mf_messages = es\<rparr>"

lemma encode_entry_ne_Nil [simp]: "encode_entry e \<noteq> []"
  by (simp add: encode_entry_def encode_gbb_eq encode_abb_eq)

lemma decode_encode_multi_frame:
  assumes "multi_fits f"
  shows "decode_multi_frame (encode_multi_frame f) =
    Inr (received_multi
      (received_header (mf_use_tscf f) (mf_stream_id f) (mf_sequence_num f) (mf_timestamp_valid f) (mf_avtp_timestamp f))
      (map sent_entry (mf_messages f)))"
proof -
  let ?r = "concat (map encode_entry (mf_messages f))"
  have "decode_acf_messages ?r = Inr (map sent_entry (mf_messages f))"
    using assms loop_entries [of "map sent_entry (mf_messages f)" "[]"] padded_sent_exact concat_sent
    by (auto simp: multi_fits_def decode_acf_messages_def)
  moreover have "?r \<noteq> []"
    using assms by (cases "mf_messages f") (auto simp: multi_fits_def)
  ultimately show ?thesis
    using assms
    by (simp add: encode_multi_frame_eq Let_def decode_multi_frame_def multi_fits_def decode_avtp_header
        received_multi_def Suc_le_eq) (simp add: received_header_def Suc_le_eq)
qed

section \<open>Requests that wait for an answer\<close>

text \<open>
  The table \<open>pending_\<close> of a client maps a key to the promise that the reading thread is to fulfil.
  Promises are numbered in the order of the calls. \<open>wt_calls\<close> stands for the local variables of the
  calls of \<open>request()\<close> that have not returned: for each promise the \<open>key\<close> it was entered under.
\<close>

record waiting =
  wt_pending :: "u32 \<Rightarrow> nat option"
  wt_calls :: "nat \<Rightarrow> u32 option"
  wt_values :: "nat \<Rightarrow> avtp_frame option"
  wt_next :: nat

definition no_requests :: waiting where
  "no_requests = \<lparr>wt_pending = (\<lambda>_. None), wt_calls = (\<lambda>_. None), wt_values = (\<lambda>_. None), wt_next = 0\<rparr>"

definition register_request :: "u32 \<Rightarrow> waiting \<Rightarrow> nat \<times> waiting" where
  "register_request key w =
     (let promise = wt_next w in
      (promise, w\<lparr>wt_pending := (wt_pending w)(key := Some promise),
         wt_calls := (wt_calls w)(promise := Some key), wt_next := promise + 1\<rparr>))"

text \<open>\<open>cleanup()\<close>, after which the call returns.\<close>

definition cleanup_request :: "nat \<Rightarrow> waiting \<Rightarrow> waiting" where
  "cleanup_request promise w =
     (case wt_calls w promise of
        None \<Rightarrow> w
      | Some key \<Rightarrow>
          w\<lparr>wt_pending := (wt_pending w)(key := None), wt_calls := (wt_calls w)(promise := None)\<rparr>)"

text \<open>
  The reading thread hands a frame over. \<open>None\<close> stands for the exception that \<open>set_value\<close> throws for a
  promise that has a value: nothing catches it in the thread, and the process ends.
\<close>

definition complete_request :: "avtp_frame \<Rightarrow> waiting \<Rightarrow> waiting option" where
  "complete_request resp w =
     (let key = pending_key (a_byte_bus_id (fr_info resp)) (a_transaction_num (fr_info resp)) in
      case wt_pending w key of
        None \<Rightarrow> Some w
      | Some promise \<Rightarrow>
          if wt_values w promise \<noteq> None then None
          else Some (w\<lparr>wt_values := (wt_values w)(promise := Some resp),
             wt_pending := (wt_pending w)(key := None)\<rparr>))"

datatype request_failure = Err_closed | Err_timeout

text \<open>
  The end of the wait, with the status it ended with. Without a timeout the wait ends only when there
  is a value; \<open>None\<close> means that the call still waits.
\<close>

definition await_request ::
    "bool \<Rightarrow> nat \<Rightarrow> waiting \<Rightarrow> (request_failure + acf_info \<times> octets) option \<times> waiting" where
  "await_request timeout promise w =
     (if wt_calls w promise = None then (None, w)
      else if timeout then (Some (Inl Err_timeout), cleanup_request promise w)
      else
        (case wt_values w promise of
           None \<Rightarrow> (None, w)
         | Some resp \<Rightarrow> (Some (Inr (fr_info resp, fr_payload resp)), cleanup_request promise w)))"

text \<open>
  Whatever the threads do: a promise in the table belongs to a call that waits under this key and has
  no value yet, and a value that a call finds carries the key of its request.
\<close>

definition frame_key :: "avtp_frame \<Rightarrow> u32" where
  "frame_key f = pending_key (a_byte_bus_id (fr_info f)) (a_transaction_num (fr_info f))"

definition waiting_wf :: "waiting \<Rightarrow> bool" where
  "waiting_wf w \<longleftrightarrow>
     (\<forall>key p. wt_pending w key = Some p \<longrightarrow> wt_calls w p = Some key \<and> wt_values w p = None) \<and>
     (\<forall>p key f. wt_calls w p = Some key \<longrightarrow> wt_values w p = Some f \<longrightarrow> frame_key f = key) \<and>
     (\<forall>p. wt_next w \<le> p \<longrightarrow> wt_calls w p = None \<and> wt_values w p = None)"

named_theorems waiting_ops

lemma no_requests_wf [waiting_ops]: "waiting_wf no_requests"
  by (simp add: waiting_wf_def no_requests_def)

lemma register_wf [waiting_ops]: "waiting_wf w \<Longrightarrow> waiting_wf (snd (register_request key w))"
  unfolding waiting_wf_def register_request_def Let_def
  by (auto simp: le_Suc_eq split: if_splits)

lemma cleanup_wf [waiting_ops]: "waiting_wf w \<Longrightarrow> waiting_wf (cleanup_request p w)"
  unfolding waiting_wf_def cleanup_request_def
  by (auto split: option.split if_splits)

lemma waiting_wfD:
  assumes "waiting_wf w"
  shows "wt_pending w key = Some p \<Longrightarrow> wt_calls w p = Some key"
    and "wt_pending w key = Some p \<Longrightarrow> wt_values w p = None"
    and "wt_calls w p = Some key \<Longrightarrow> wt_values w p = Some f \<Longrightarrow> frame_key f = key"
    and "wt_next w \<le> p \<Longrightarrow> wt_calls w p = None"
    and "wt_next w \<le> p \<Longrightarrow> wt_values w p = None"
  using assms unfolding waiting_wf_def by blast+

lemma complete_wf [waiting_ops]:
  assumes wf: "waiting_wf w" and step: "complete_request f w = Some w'"
  shows "waiting_wf w'"
proof (cases "wt_pending w (frame_key f)")
  case None
  then show ?thesis using assms by (simp add: complete_request_def Let_def frame_key_def)
next
  case (Some p)
  note D = waiting_wfD [OF wf]
  have own: "wt_calls w p = Some (frame_key f)" "wt_values w p = None"
    using D(1,2) Some by simp_all
  have "p < wt_next w"
    using D(4) [of p] own by (cases "wt_next w \<le> p") auto
  have w': "w' = w\<lparr>wt_values := (wt_values w)(p := Some f), wt_pending := (wt_pending w)(frame_key f := None)\<rparr>"
    using step Some own(2) by (simp add: complete_request_def Let_def frame_key_def)
  show ?thesis
    unfolding waiting_wf_def
  proof (intro conjI allI impI)
    fix key q assume "wt_pending w' key = Some q"
    then have "wt_pending w key = Some q" "key \<noteq> frame_key f" by (auto simp: w' split: if_splits)
    then have q: "wt_calls w q = Some key" "wt_values w q = None" "q \<noteq> p" using D(1,2) own(1) by auto
    then show "wt_calls w' q = Some key" "wt_values w' q = None" by (simp_all add: w')
  next
    fix q key g assume "wt_calls w' q = Some key" "wt_values w' q = Some g"
    then show "frame_key g = key" using D(3) own(1) by (cases "q = p") (simp_all add: w')
  next
    fix q assume "wt_next w' \<le> q"
    then have q: "wt_next w \<le> q" "q \<noteq> p" using \<open>p < wt_next w\<close> by (auto simp: w')
    show "wt_calls w' q = None" "wt_values w' q = None" using D(4,5) [OF q(1)] q(2) by (simp_all add: w')
  qed
qed

lemma complete_no_exception: "waiting_wf w \<Longrightarrow> complete_request f w \<noteq> None"
  unfolding waiting_wf_def complete_request_def Let_def
  by (auto split: option.splits if_splits)

lemma await_wf [waiting_ops]: "waiting_wf w \<Longrightarrow> waiting_wf (snd (await_request timeout p w))"
  by (simp add: await_request_def cleanup_wf split: option.split)

lemma pending_key_inject [simp]:
  "pending_key b t = pending_key b' t' \<longleftrightarrow> b = b' \<and> t = t'"
proof
  assume eq: "pending_key b t = pending_key b' t'"
  have bus: "ucast (drop_bit 8 (pending_key b t)) = b" for b t
    by (rule bit_eqI) (auto simp: pending_key_def bit_simps)
  have txn: "ucast (pending_key b t) = t" for b t
    by (rule bit_eqI) (auto simp: pending_key_def bit_simps)
  show "b = b' \<and> t = t'"
    using bus [of b t] bus [of b' t'] txn [of b t] txn [of b' t'] eq by simp
qed simp

lemma await_matches:
  assumes "waiting_wf w" "wt_calls w p = Some (pending_key bus txn)"
    "await_request timeout p w = (Some (Inr (info, payload)), w')"
  shows "a_byte_bus_id info = bus \<and> a_transaction_num info = txn"
  using assms waiting_wfD(3) [OF assms(1,2)]
  by (auto simp: await_request_def frame_key_def split: if_splits option.splits)

text \<open>
  A promise that is in the table no more and has no value, because a later request with the same key
  took its place or was cleaned up, never gets one: its call waits for its deadline.
\<close>

definition stranded :: "nat \<Rightarrow> waiting \<Rightarrow> bool" where
  "stranded p w \<longleftrightarrow> p < wt_next w \<and> wt_values w p = None \<and> (\<forall>key. wt_pending w key \<noteq> Some p)"

lemma stranded_kept:
  assumes "stranded p w"
  shows "stranded p (snd (register_request key w))" "stranded p (cleanup_request q w)"
    "stranded p (snd (await_request timeout q w))" "complete_request f w = Some w' \<Longrightarrow> stranded p w'"
    "\<not> timeout \<Longrightarrow> fst (await_request timeout p w) = None"
  using assms
  by (auto simp: stranded_def register_request_def cleanup_request_def await_request_def complete_request_def Let_def
      split: option.splits if_splits)

lemma second_request_strands_first:
  assumes "waiting_wf w" "wt_pending w key = Some p"
  shows "stranded p (snd (register_request key w))"
proof -
  have "wt_calls w p = Some key" "wt_values w p = None"
    using waiting_wfD(1,2) [OF assms] by simp_all
  moreover from this have "\<not> wt_next w \<le> p"
    using waiting_wfD(4) [OF assms(1), of p] by auto
  moreover have "k = key" if "wt_pending w k = Some p" for k
    using waiting_wfD(1) [OF assms(1) that] \<open>wt_calls w p = Some key\<close> by simp
  ultimately show ?thesis
    by (auto simp: stranded_def register_request_def Let_def)
qed

section \<open>The service behind a server\<close>

text \<open>
  What the transports rely on: to a frame of one padded message the service gives one result, and a
  response answers that message.
\<close>

definition request_entry :: "acf_info \<Rightarrow> u64 \<Rightarrow> octets \<Rightarrow> acf_entry" where
  "request_entry req mts payload = \<lparr>en_info = req, en_timestamp = mts, en_payload = payload\<rparr>"

definition request_key :: "acf_info \<Rightarrow> u32" where
  "request_key req = pending_key (a_byte_bus_id req) (a_transaction_num req)"

locale frame_service =
  fixes serve :: "nat \<Rightarrow> stream_id \<Rightarrow> u8 \<Rightarrow> octets \<Rightarrow> 'w \<Rightarrow> (acf_info \<times> octets) list \<times> 'w"
  assumes one_result: "padded_entry e \<Longrightarrow> length (fst (serve client sid n (encode_entry e) w)) = 1"
    and result_key: "padded_entry e \<Longrightarrow> a_byte_bus_id (en_info e) < 0x800 \<Longrightarrow>
      (info, payload) \<in> set (fst (serve client sid n (encode_entry e) w)) \<Longrightarrow> a_rsp info \<Longrightarrow>
      a_byte_bus_id info = a_byte_bus_id (en_info e) \<and> a_transaction_num info = a_transaction_num (en_info e)"
begin

lemma one_response:
  assumes "padded_entry e" "a_byte_bus_id (en_info e) < 0x800"
  obtains info payload where
    "fst (serve client sid n (encode_entry e) w) = [(info, payload)]"
    "sent_responses (fst (serve client sid n (encode_entry e) w)) =
       (if a_rsp info then [response_entry info payload] else [])"
    "a_rsp info \<Longrightarrow> frame_key (received_frame h (sent_entry (response_entry info payload))) = request_key (en_info e)"
proof -
  obtain info payload where r: "fst (serve client sid n (encode_entry e) w) = [(info, payload)]"
    using one_result [OF assms(1), of client sid n w] by (auto simp: length_Suc_conv)
  moreover have "frame_key (received_frame h (sent_entry (response_entry info payload))) = request_key (en_info e)"
    if "a_rsp info"
    using result_key [of e info payload client sid n w] that assms r
    by (auto simp: frame_key_def request_key_def received_frame_def sent_entry_def response_entry_def
        mask_info_def gbb_header_def abb_header_def fill_length_def masked_field)
  ultimately show thesis
    using that by (simp add: sent_responses_def)
qed

end

end
