(* ===== verification/L2.thy ===== *)
theory L2
  imports Transport
begin

text \<open>
  The raw Ethernet transport, \<open>include/rcp/l2.hpp\<close>: the Ethernet header, the server's receive loop
  with its two kinds of handler, and the client, whose calls of \<open>request()\<close> run in several threads
  beside one reading thread. Sockets are the environment: what they deliver is a parameter.
\<close>

section \<open>The Ethernet header\<close>

definition kMacLen :: nat where [wire_defs]: "kMacLen = 6"

definition kEtherType :: u16 where [wire_defs]: "kEtherType = 0x22F0"

definition kEthHeaderLen :: nat where [wire_defs]: "kEthHeaderLen = 2 * kMacLen + 2"

definition kMaxFrame :: nat where "kMaxFrame = 9018"

datatype l2_errc = Bad_ethertype

datatype l2_error = Frame_error error | L2_error l2_errc

text \<open>A \<open>MacAddress\<close> is a list of six octets.\<close>

record eth_header =
  eh_dst :: octets
  eh_src :: octets
  eh_ethertype :: u16

definition encode_eth_header :: "octets \<Rightarrow> octets \<Rightarrow> octets" where
  "encode_eth_header dst src = dst @ src @ put_u16 kEtherType"

definition decode_eth_header :: "octets \<Rightarrow> eth_header result" where
  "decode_eth_header b =
     (if length b < kEthHeaderLen then Inl (Avtp_err Short_buffer)
      else Inr
        \<lparr>eh_dst = take kMacLen b, eh_src = take kMacLen (drop kMacLen b),
         eh_ethertype = get_u16 (drop (2 * kMacLen) b)\<rparr>)"

definition is_unicast_mac :: "octets \<Rightarrow> bool" where
  "is_unicast_mac addr \<longleftrightarrow> addr ! 0 AND 0x01 = 0"

definition encode_l2_frame :: "octets \<Rightarrow> octets \<Rightarrow> avtp_frame \<Rightarrow> octets" where
  "encode_l2_frame dst src f = encode_eth_header dst src @ encode_frame f"

text \<open>What the three decoders of \<open>l2.hpp\<close> have in common: the header, then the rest of the frame.\<close>

definition decode_behind_eth :: "(octets \<Rightarrow> 'a result) \<Rightarrow> octets \<Rightarrow> l2_error + eth_header \<times> 'a" where
  "decode_behind_eth decode b =
     (case decode_eth_header b of
        Inl e \<Rightarrow> Inl (Frame_error e)
      | Inr hdr \<Rightarrow>
          if eh_ethertype hdr \<noteq> kEtherType then Inl (L2_error Bad_ethertype)
          else
            (case decode (drop kEthHeaderLen b) of
               Inl e \<Rightarrow> Inl (Frame_error e)
             | Inr x \<Rightarrow> Inr (hdr, x)))"

definition decode_l2_frame :: "octets \<Rightarrow> l2_error + eth_header \<times> avtp_frame" where
  "decode_l2_frame = decode_behind_eth decode_frame"

definition encode_l2_multi_frame :: "octets \<Rightarrow> octets \<Rightarrow> multi_frame \<Rightarrow> octets" where
  "encode_l2_multi_frame dst src f = encode_eth_header dst src @ encode_multi_frame f"

definition decode_l2_multi_frame :: "octets \<Rightarrow> l2_error + eth_header \<times> multi_frame" where
  "decode_l2_multi_frame = decode_behind_eth decode_multi_frame"

definition decode_l2_frame_header :: "octets \<Rightarrow> l2_error + eth_header \<times> avtp_frame_header" where
  "decode_l2_frame_header = decode_behind_eth decode_avtp_frame_header"

definition hex_digit :: "u8 \<Rightarrow> char" where
  "hex_digit nibble = ''0123456789abcdef'' ! unat nibble"

definition mac_to_hex :: "octets \<Rightarrow> string" where
  "mac_to_hex addr =
     concat (map (\<lambda>i. (if i \<noteq> 0 then '':'' else []) @
         [hex_digit (drop_bit 4 (addr ! i) AND 0x0F), hex_digit (addr ! i AND 0x0F)]) [0..<length addr])"

section \<open>The server\<close>

text \<open>
  What a handler returns for a member of a frame. Handlers are functions of the caller; their state
  is the type \<open>'w\<close>, and \<open>'e\<close> is the type of their results.
\<close>

record 'e member_result =
  mr_result :: 'e
  mr_byte_bus_id :: u16
  mr_response :: acf_info
  mr_response_payload :: octets

type_synonym ('e, 'w) frame_handler =
  "nat \<Rightarrow> stream_id \<Rightarrow> u8 \<Rightarrow> octets \<Rightarrow> 'w \<Rightarrow> 'e member_result list \<times> 'w"

type_synonym 'w message_handler = "nat \<Rightarrow> acf_info \<Rightarrow> octets \<Rightarrow> 'w \<Rightarrow> (acf_info \<times> octets) \<times> 'w"

record l2_server =
  ls_stream_id :: stream_id
  ls_local_mac :: octets
  ls_seq :: u16
  ls_client_ids :: "string \<Rightarrow> nat option"
  ls_next_client_id :: nat

definition client_id_for :: "octets \<Rightarrow> l2_server \<Rightarrow> nat \<times> l2_server" where
  "client_id_for src s =
     (let key = mac_to_hex src in
      case ls_client_ids s key of
        Some client_id \<Rightarrow> (client_id, s)
      | None \<Rightarrow>
          (let client_id = ls_next_client_id s in
           (client_id, s\<lparr>ls_next_client_id := client_id + 1, ls_client_ids := (ls_client_ids s)(key := Some client_id)\<rparr>)))"

definition handle_message :: "'w message_handler option \<Rightarrow> nat \<Rightarrow> acf_entry \<Rightarrow> 'w \<Rightarrow> acf_entry \<times> 'w" where
  "handle_message handler client m w =
     (case handler of
        Some h \<Rightarrow>
          (case h client (en_info m) (en_payload m) w of
             ((info, payload), w) \<Rightarrow> (response_entry info payload, w))
      | None \<Rightarrow> (response_entry (make_response (en_info m) Acknowledge) [], w))"

fun handle_messages ::
    "'w message_handler option \<Rightarrow> nat \<Rightarrow> acf_entry list \<Rightarrow> 'w \<Rightarrow> acf_entry list \<times> 'w" where
  "handle_messages handler client [] w = ([], w)"
| "handle_messages handler client (m # ms) w =
     (case handle_message handler client m w of
        (entry, w) \<Rightarrow>
          (case handle_messages handler client ms w of (entries, w) \<Rightarrow> (entry # entries, w)))"

text \<open>
  One turn of \<open>serve()\<close> for a received frame. The number of the reply is taken from the counter as
  soon as the headers are decoded; a frame without an answer uses one up.
\<close>

definition l2_serve_frame ::
    "('e, 'w) frame_handler option \<Rightarrow> 'w message_handler option \<Rightarrow> octets \<Rightarrow> l2_server \<Rightarrow> 'w \<Rightarrow>
       octets option \<times> l2_server \<times> 'w" where
  "l2_serve_frame frame_handler handler b s w =
     (case decode_l2_frame_header b of
        Inl _ \<Rightarrow> (None, s, w)
      | Inr (eth, avtp) \<Rightarrow>
          (let acf = drop (kEthHeaderLen + fh_acf_offset avtp) b;
               s = s\<lparr>ls_seq := ls_seq s + 1\<rparr>;
               send = (\<lambda>messages. Some (encode_l2_multi_frame (eh_src eth) (ls_local_mac s)
                 (reply_frame (ls_stream_id s) (ls_seq s) avtp messages)))
           in
           case client_id_for (eh_src eth) s of
             (client, s) \<Rightarrow>
               (case frame_handler of
                  Some handle \<Rightarrow>
                    (case handle client (fh_stream_id avtp) (ucast (fh_sequence_num avtp)) acf w of
                       (results, w) \<Rightarrow>
                         (let messages = sent_responses (map (\<lambda>r. (mr_response r, mr_response_payload r)) results)
                          in (if messages = [] then None else send messages, s, w)))
                | None \<Rightarrow>
                    (case decode_acf_messages acf of
                       Inl _ \<Rightarrow> (None, s, w)
                     | Inr req_messages \<Rightarrow>
                         (case handle_messages handler client req_messages w of
                            (messages, w) \<Rightarrow> (send messages, s, w))))))"

text \<open>
  The loop, over what \<open>recvfrom\<close> delivers: a frame, cut to the buffer, with the mark of the
  interface's own outgoing frames; a timeout; or any other failure, also of a socket that was closed.
\<close>

datatype l2_received = Received bool octets | Receive_timeout | Receive_failed

fun l2_serve ::
    "('e, 'w) frame_handler option \<Rightarrow> 'w message_handler option \<Rightarrow> l2_received list \<Rightarrow> l2_server \<Rightarrow> 'w \<Rightarrow>
       octets list \<times> l2_server \<times> 'w" where
  "l2_serve frame_handler handler [] s w = ([], s, w)"
| "l2_serve frame_handler handler (Receive_timeout # es) s w = l2_serve frame_handler handler es s w"
| "l2_serve frame_handler handler (Receive_failed # es) s w = ([], s, w)"
| "l2_serve frame_handler handler (Received outgoing b # es) s w =
     (if b = [] \<or> outgoing then l2_serve frame_handler handler es s w
      else
        (case l2_serve_frame frame_handler handler (take kMaxFrame b) s w of
           (reply, s, w) \<Rightarrow>
             (case l2_serve frame_handler handler es s w of
                (replies, s, w) \<Rightarrow> ((case reply of None \<Rightarrow> replies | Some r \<Rightarrow> r # replies), s, w))))"

section \<open>The client\<close>

record l2_client =
  lc_stream_id :: stream_id
  lc_dest_mac :: octets
  lc_local_mac :: octets
  lc_closed :: bool
  lc_seq :: u16
  lc_reading :: bool
  lc_waiting :: waiting

text \<open>
  \<open>request()\<close> up to \<open>sendto\<close>: the promise to wait for and the octets to send. The call goes on with
  \<open>l2_request_unsent\<close> or with the wait.
\<close>

definition l2_request ::
    "bool \<Rightarrow> acf_info \<Rightarrow> octets \<Rightarrow> bool \<Rightarrow> u32 \<Rightarrow> u64 \<Rightarrow> l2_client \<Rightarrow>
       (request_failure + nat \<times> octets) \<times> l2_client" where
  "l2_request ctx_done req req_payload use_tscf avtp_timestamp message_timestamp c =
     (if lc_closed c then (Inl Err_closed, c)
      else if ctx_done then (Inl Err_timeout, c)
      else
        (let c = c\<lparr>lc_seq := lc_seq c + 1\<rparr>;
             out = \<lparr>fr_use_tscf = use_tscf, fr_stream_id = lc_stream_id c, fr_sequence_num = lc_seq c,
               fr_timestamp_valid = use_tscf, fr_avtp_timestamp = avtp_timestamp, fr_info = req,
               fr_message_timestamp = message_timestamp, fr_payload = req_payload\<rparr>;
             (promise, w) = register_request (pending_key (a_byte_bus_id req) (a_transaction_num req)) (lc_waiting c)
         in (Inr (promise, encode_l2_frame (lc_dest_mac c) (lc_local_mac c) out), c\<lparr>lc_waiting := w\<rparr>)))"

definition l2_request_unsent :: "nat \<Rightarrow> l2_client \<Rightarrow> request_failure \<times> l2_client" where
  "l2_request_unsent promise c = (Err_closed, c\<lparr>lc_waiting := cleanup_request promise (lc_waiting c)\<rparr>)"

definition l2_request_await ::
    "bool \<Rightarrow> nat \<Rightarrow> l2_client \<Rightarrow> (request_failure + acf_info \<times> octets) option \<times> l2_client" where
  "l2_request_await timeout promise c =
     (case await_request timeout promise (lc_waiting c) of (result, w) \<Rightarrow> (result, c\<lparr>lc_waiting := w\<rparr>))"

definition l2_client_close :: "l2_client \<Rightarrow> l2_client" where
  "l2_client_close c = c\<lparr>lc_closed := True\<rparr>"

text \<open>
  One turn of \<open>read_loop()\<close>, \<open>None\<close> for an exception. \<open>lc_reading\<close> says that the loop has not ended.
\<close>

definition l2_client_read :: "l2_received \<Rightarrow> l2_client \<Rightarrow> l2_client option" where
  "l2_client_read e c =
     (if \<not> lc_reading c then Some c
      else if lc_closed c then Some (c\<lparr>lc_reading := False\<rparr>)
      else
        (case e of
           Receive_timeout \<Rightarrow> Some c
         | Receive_failed \<Rightarrow> Some (c\<lparr>lc_reading := False\<rparr>)
         | Received outgoing b \<Rightarrow>
             if b = [] \<or> outgoing then Some c
             else
               (case decode_l2_frame (take kMaxFrame b) of
                  Inl _ \<Rightarrow> Some c
                | Inr (hdr, resp) \<Rightarrow>
                    map_option (\<lambda>w. c\<lparr>lc_waiting := w\<rparr>) (complete_request resp (lc_waiting c)))))"

text \<open>What the threads of a client can do, in any order.\<close>

inductive l2_client_step :: "l2_client \<Rightarrow> l2_client \<Rightarrow> bool" where
  request: "l2_client_step c (snd (l2_request ctx_done req payload use_tscf ts mts c))"
| unsent: "l2_client_step c (snd (l2_request_unsent p c))"
| await: "l2_client_step c (snd (l2_request_await timeout p c))"
| read: "l2_client_read e c = Some c' \<Longrightarrow> l2_client_step c c'"
| close: "l2_client_step c (l2_client_close c)"

definition l2_new_client :: "stream_id \<Rightarrow> octets \<Rightarrow> octets \<Rightarrow> l2_client" where
  "l2_new_client sid dest_mac local_mac =
     \<lparr>lc_stream_id = sid, lc_dest_mac = dest_mac, lc_local_mac = local_mac, lc_closed = False, lc_seq = 0,
      lc_reading = True, lc_waiting = no_requests\<rparr>"

definition l2_client_reachable :: "l2_client \<Rightarrow> bool" where
  "l2_client_reachable c \<longleftrightarrow> (\<exists>sid dest_mac local_mac. l2_client_step\<^sup>*\<^sup>* (l2_new_client sid dest_mac local_mac) c)"

lemma l2_step_wf: "l2_client_step c c' \<Longrightarrow> waiting_wf (lc_waiting c) \<Longrightarrow> waiting_wf (lc_waiting c')"
proof (induction rule: l2_client_step.induct)
  case (request c ctx_done req payload use_tscf ts mts)
  then show ?case
    using register_wf [of "lc_waiting c"] by (auto simp: l2_request_def Let_def split: prod.splits) (metis snd_conv)
next
  case (await c timeout p)
  then show ?case
    using await_wf [of "lc_waiting c" timeout p] by (auto simp: l2_request_await_def split: prod.splits)
qed (auto simp: l2_request_unsent_def l2_client_close_def l2_client_read_def waiting_ops
      split: l2_received.splits if_splits sum.splits prod.splits)

lemma l2_reachable_wf: "l2_client_reachable c \<Longrightarrow> waiting_wf (lc_waiting c)"
proof -
  have "l2_client_step\<^sup>*\<^sup>* c0 c \<Longrightarrow> waiting_wf (lc_waiting c0) \<Longrightarrow> waiting_wf (lc_waiting c)" for c0
    by (induction rule: rtranclp_induct) (auto dest: l2_step_wf)
  then show "l2_client_reachable c \<Longrightarrow> waiting_wf (lc_waiting c)"
    by (auto simp: l2_client_reachable_def l2_new_client_def no_requests_wf)
qed

section \<open>A request and its answer\<close>

lemma eth_header_len [simp, wire_len]:
  "length dst = kMacLen \<Longrightarrow> length src = kMacLen \<Longrightarrow> length (encode_eth_header dst src) = kEthHeaderLen"
  by (simp add: encode_eth_header_def wire_defs)

lemma decode_behind_eth_eq:
  assumes "length dst = kMacLen" "length src = kMacLen"
  shows "decode_behind_eth decode (encode_eth_header dst src @ r) =
    (case decode r of
       Inl e \<Rightarrow> Inl (Frame_error e)
     | Inr x \<Rightarrow> Inr (\<lparr>eh_dst = dst, eh_src = src, eh_ethertype = kEtherType\<rparr>, x))"
proof -
  have "decode_eth_header (encode_eth_header dst src @ r) =
      Inr \<lparr>eh_dst = dst, eh_src = src, eh_ethertype = kEtherType\<rparr>"
    using assms by (simp add: decode_eth_header_def encode_eth_header_def wire_defs)
  then show ?thesis using assms by (simp add: decode_behind_eth_def)
qed

locale l2_service =
  fixes handle :: "('e, 'w) frame_handler"
  assumes service: "frame_service (\<lambda>client sid n acf w.
    case handle client sid n acf w of
      (results, w') \<Rightarrow> (map (\<lambda>r. (mr_response r, mr_response_payload r)) results, w'))"

sublocale l2_service \<subseteq> frame_service "\<lambda>client sid n acf w.
    case handle client sid n acf w of
      (results, w') \<Rightarrow> (map (\<lambda>r. (mr_response r, mr_response_payload r)) results, w')"
  by (rule service)

text \<open>The octets of a message fit into a frame of this kind and into the buffer.\<close>

definition l2_fits :: "bool \<Rightarrow> acf_entry \<Rightarrow> bool" where
  "l2_fits use_tscf e \<longleftrightarrow>
     length (encode_entry e) < frame_capacity use_tscf \<and>
     kEthHeaderLen + (if use_tscf then kTscfHeaderLen else kNtscfHeaderLen) + length (encode_entry e) \<le> kMaxFrame"

definition reply_entry :: "'e member_result \<Rightarrow> acf_entry" where
  "reply_entry r = response_entry (mr_response r) (mr_response_payload r)"

text \<open>The addresses have six octets.\<close>

definition l2_addressed :: "l2_client \<Rightarrow> l2_server \<Rightarrow> bool" where
  "l2_addressed c s \<longleftrightarrow>
     wf_stream_id (lc_stream_id c) \<and> wf_stream_id (ls_stream_id s) \<and> length (lc_dest_mac c) = kMacLen \<and>
     length (lc_local_mac c) = kMacLen \<and> length (ls_local_mac s) = kMacLen"

lemma behind_header:
  assumes "length dst = kMacLen" "length src = kMacLen"
  shows "drop (kEthHeaderLen + (if use_tscf then kTscfHeaderLen else kNtscfHeaderLen))
      (encode_eth_header dst src @ avtp_header use_tscf sid n tv ts k @ r) = r"
  using assms by (simp add: drop_append)

lemma client_id_for_keeps [simp]:
  "client_id_for src s = (client, s') \<Longrightarrow> ls_stream_id s' = ls_stream_id s \<and> ls_local_mac s' = ls_local_mac s \<and> ls_seq s' = ls_seq s"
  by (auto simp: client_id_for_def Let_def split: option.splits)

text \<open>The server's turn for a frame with one message.\<close>

lemma serve_one:
  assumes "length dst = kMacLen" "length src = kMacLen" "frame_fits f"
    and ids: "client_id_for src (s\<lparr>ls_seq := ls_seq s + 1\<rparr>) = (client, s')"
    and run: "handle client (fr_stream_id f) (ucast (fr_sequence_num f)) (encode_entry (frame_entry f)) w = (results, w')"
    and h: "h = received_header (fr_use_tscf f) (fr_stream_id f) (fr_sequence_num f) (fr_timestamp_valid f) (fr_avtp_timestamp f)"
    and ms: "ms = sent_responses (map (\<lambda>r. (mr_response r, mr_response_payload r)) results)"
  shows "l2_serve_frame (Some handle) handler (encode_l2_frame dst src f) s w =
    (if ms = [] then None
     else Some (encode_l2_multi_frame src (ls_local_mac s) (reply_frame (ls_stream_id s) (ls_seq s + 1) h ms)), s', w')"
proof -
  have "decode_l2_frame_header (encode_l2_frame dst src f)
      = Inr (\<lparr>eh_dst = dst, eh_src = src, eh_ethertype = kEtherType\<rparr>, h)"
    using assms(1-3) by (simp add: decode_l2_frame_header_def encode_l2_frame_def decode_behind_eth_eq
        encode_frame_eq decode_avtp_header frame_fits_def h)
  moreover have "drop (kEthHeaderLen + fh_acf_offset h) (encode_l2_frame dst src f) = encode_entry (frame_entry f)"
    using assms(1,2) behind_header [OF assms(1,2)]
    by (simp add: h received_header_def encode_l2_frame_def encode_frame_eq)
  moreover have "fh_stream_id h = fr_stream_id f" "(ucast (fh_sequence_num h) :: u8) = ucast (fr_sequence_num f)"
    by (simp_all add: h received_header_def)
  ultimately show ?thesis
    using ids run ms client_id_for_keeps [OF ids] by (simp add: l2_serve_frame_def Let_def)
qed

text \<open>The client's turn for a frame with one message.\<close>

lemma read_one:
  assumes "length dst = kMacLen" "length src = kMacLen" "wf_stream_id sid" "l2_fits (fh_use_tscf h) e"
    and c: "waiting_wf (lc_waiting c)" "lc_reading c" "\<not> lc_closed c"
      "wt_pending (lc_waiting c) (request_key (en_info (sent_entry e))) = Some p"
  shows "\<exists>c'. l2_client_read (Received False (encode_l2_multi_frame dst src (reply_frame sid n h [e]))) c = Some c' \<and>
    fst (l2_request_await False p c') = Some (Inr (en_info (sent_entry e), en_payload e))"
proof -
  let ?m = "reply_frame sid n h [e]" and ?w = "lc_waiting c"
  let ?b = "encode_l2_multi_frame dst src ?m"
  define h' where "h' = received_header (mf_use_tscf ?m) (mf_stream_id ?m) (mf_sequence_num ?m) (mf_timestamp_valid ?m) (mf_avtp_timestamp ?m)"
  have b: "?b = encode_eth_header dst src @ avtp_header (mf_use_tscf ?m) (mf_stream_id ?m) (mf_sequence_num ?m)
      (mf_timestamp_valid ?m) (mf_avtp_timestamp ?m) (length (encode_entry e)) @ encode_entry e"
    by (simp add: encode_l2_multi_frame_def encode_multi_frame_eq reply_frame_def Let_def)
  have "decode_frame (encode_multi_frame ?m) = Inr (received_frame h' (sent_entry e))"
    using assms(3,4) decode_single_message [of _ e h']
    by (simp add: encode_multi_frame_eq Let_def decode_avtp_header reply_frame_def l2_fits_def h'_def received_header_def)
  then have "decode_l2_frame ?b = Inr (\<lparr>eh_dst = dst, eh_src = src, eh_ethertype = kEtherType\<rparr>, received_frame h' (sent_entry e))"
    using assms(1,2) by (simp add: decode_l2_frame_def encode_l2_multi_frame_def decode_behind_eth_eq)
  moreover have "length ?b \<le> kMaxFrame" "?b \<noteq> []"
    using assms(1,2,4) unfolding b by (simp_all add: l2_fits_def reply_frame_def)
  moreover have "wt_calls ?w p = Some (request_key (en_info (sent_entry e)))" "wt_values ?w p = None"
    using waiting_wfD(1,2) [OF c(1) c(4)] by simp_all
  ultimately show ?thesis
    using c(2,3,4) by (simp add: l2_client_read_def complete_request_def request_key_def received_frame_def
        l2_request_await_def await_request_def sent_entry_def split: prod.split)
qed

text \<open>The frame that a call of \<open>request()\<close> sends.\<close>

definition request_frame :: "l2_client \<Rightarrow> acf_info \<Rightarrow> octets \<Rightarrow> bool \<Rightarrow> u32 \<Rightarrow> u64 \<Rightarrow> avtp_frame" where
  "request_frame c req payload use_tscf ts mts =
     \<lparr>fr_use_tscf = use_tscf, fr_stream_id = lc_stream_id c, fr_sequence_num = lc_seq c + 1,
      fr_timestamp_valid = use_tscf, fr_avtp_timestamp = ts, fr_info = req,
      fr_message_timestamp = mts, fr_payload = payload\<rparr>"

lemma request_sends:
  assumes "l2_request False req payload use_tscf ts mts c = (Inr (p, wire), c')"
  shows "wire = encode_l2_frame (lc_dest_mac c) (lc_local_mac c) (request_frame c req payload use_tscf ts mts)"
  using assms by (auto simp: l2_request_def request_frame_def Let_def split: if_splits prod.splits)

definition l2_client_id :: "l2_client \<Rightarrow> l2_server \<Rightarrow> nat" where
  "l2_client_id c s = fst (client_id_for (lc_local_mac c) s)"

lemma l2_frame_len:
  "length dst = kMacLen \<Longrightarrow> length src = kMacLen \<Longrightarrow>
     length (encode_l2_frame dst src f) =
       kEthHeaderLen + (if fr_use_tscf f then kTscfHeaderLen else kNtscfHeaderLen) + length (encode_entry (frame_entry f))"
  by (simp add: encode_l2_frame_def encode_frame_eq)

lemma client_id_seq: "fst (client_id_for (lc_local_mac c) (s\<lparr>ls_seq := n\<rparr>)) = l2_client_id c s"
  by (simp add: l2_client_id_def client_id_for_def Let_def split: option.split)

context l2_service
begin

lemma one_member:
  assumes "padded_entry e" "a_byte_bus_id (en_info e) < 0x800"
  obtains r where "fst (handle client sid n (encode_entry e) w) = [r]"
    "a_rsp (mr_response r) \<Longrightarrow> request_key (en_info (sent_entry (reply_entry r))) = request_key (en_info e)"
proof -
  obtain rs w' where h: "handle client sid n (encode_entry e) w = (rs, w')" by fastforce
  obtain r where r: "rs = [r]"
    using one_result [OF assms(1), of client sid n w] h by (auto simp: length_Suc_conv)
  have "request_key (en_info (sent_entry (reply_entry r))) = request_key (en_info e)" if "a_rsp (mr_response r)"
    using result_key [of e "mr_response r" "mr_response_payload r" client sid n w] that assms h r
    by (auto simp: request_key_def sent_entry_def reply_entry_def response_entry_def
        mask_info_def gbb_header_def abb_header_def fill_length_def masked_field)
  then show thesis using that h r by simp
qed

lemma request_answered:
  assumes e_def: "e = request_entry req mts payload"
    and start: "l2_addressed c s" "l2_request False req payload use_tscf ts mts c = (Inr (p, wire), c1)"
    and e: "padded_entry e" "a_byte_bus_id req < 0x800" "l2_fits use_tscf e"
    and run: "handle (l2_client_id c s) (lc_stream_id c) (ucast (lc_seq c + 1)) (encode_entry e) w = (results, w')"
    and size: "\<forall>r \<in> set results. l2_fits use_tscf (reply_entry r)"
    and later: "waiting_wf (lc_waiting c2)" "lc_reading c2" "\<not> lc_closed c2" "wt_pending (lc_waiting c2) (request_key req) = Some p"
  shows "\<exists>r s'. results = [r] \<and>
    (if a_rsp (mr_response r)
     then \<exists>reply c3. l2_serve (Some handle) handler [Received False wire] s w = ([reply], s', w') \<and>
       l2_client_read (Received False reply) c2 = Some c3 \<and>
       fst (l2_request_await False p c3) = Some (Inr (en_info (sent_entry (reply_entry r)), mr_response_payload r))
     else l2_serve (Some handle) handler [Received False wire] s w = ([], s', w'))"
proof -
  let ?f = "request_frame c req payload use_tscf ts mts"
  obtain r where r: "results = [r]"
    "a_rsp (mr_response r) \<Longrightarrow> request_key (en_info (sent_entry (reply_entry r))) = request_key req"
  proof -
    have "a_byte_bus_id (en_info e) < 0x800" "en_info e = req" using e(2) by (simp_all add: e_def request_entry_def)
    then show thesis
      using that one_member [OF e(1), of "l2_client_id c s" "lc_stream_id c" "ucast (lc_seq c + 1)" w]
      unfolding run by (metis fst_conv)
  qed
  obtain client s' where ids: "client_id_for (lc_local_mac c) (s\<lparr>ls_seq := ls_seq s + 1\<rparr>) = (client, s')"
    by fastforce
  then have client: "client = l2_client_id c s"
    by (metis client_id_seq fst_conv)
  define h where "h = received_header (fr_use_tscf ?f) (fr_stream_id ?f) (fr_sequence_num ?f) (fr_timestamp_valid ?f) (fr_avtp_timestamp ?f)"
  let ?ms = "sent_responses (map (\<lambda>r. (mr_response r, mr_response_payload r)) results)"
  let ?reply = "encode_l2_multi_frame (lc_local_mac c) (ls_local_mac s) (reply_frame (ls_stream_id s) (ls_seq s + 1) h ?ms)"
  have fits: "frame_fits ?f" "frame_entry ?f = e"
    using start(1) e by (auto simp: frame_fits_def request_frame_def frame_entry_def l2_addressed_def l2_fits_def
        e_def request_entry_def)
  have "wire = encode_l2_frame (lc_dest_mac c) (lc_local_mac c) ?f" using start(2) by (rule request_sends)
  then have "length wire \<le> kMaxFrame" "0 < length wire"
    using start(1) e(3) l2_frame_len [of "lc_dest_mac c" "lc_local_mac c" ?f] fits(2)
    by (simp_all add: l2_addressed_def l2_fits_def request_frame_def kEthHeaderLen_def)
  then have "take kMaxFrame wire = wire" "wire \<noteq> []"
    by auto
  moreover have "l2_serve_frame (Some handle) handler wire s w = (if ?ms = [] then None else Some ?reply, s', w')"
    unfolding \<open>wire = _\<close>
    by (rule serve_one [OF _ _ fits(1) ids])
       (use start(1) run client fits(2) in \<open>simp_all add: l2_addressed_def h_def request_frame_def\<close>)
  ultimately have served: "l2_serve (Some handle) handler [Received False wire] s w
      = (if ?ms = [] then [] else [?reply], s', w')"
    by simp
  show ?thesis
  proof (cases "a_rsp (mr_response r)")
    case True
    then have ms: "?ms = [reply_entry r]" by (simp add: r(1) sent_responses_def reply_entry_def)
    obtain c3 where "l2_client_read (Received False ?reply) c2 = Some c3"
      "fst (l2_request_await False p c3) = Some (Inr (en_info (sent_entry (reply_entry r)), en_payload (reply_entry r)))"
      using read_one [of "lc_local_mac c" "ls_local_mac s" "ls_stream_id s" h "reply_entry r" c2 p] start(1) size later r(2) [OF True] ms
      by (auto simp: r(1) l2_addressed_def h_def received_header_def request_frame_def)
    then show ?thesis using True r(1) served ms by (auto simp: reply_entry_def response_entry_def)
  next
    case False
    then show ?thesis using r(1) served by (auto simp: sent_responses_def)
  qed
qed

end

end
