(* ===== verification/Udp.thy ===== *)
theory Udp
  imports Transport
begin

text \<open>
  The UDP transport, \<open>include/rcp/udp.hpp\<close>: the encapsulation of IEEE 1722 Annex J, the frames, whose
  code repeats that of \<open>l2.hpp\<close>, the server's receive loop and the client. Sockets are the environment.
\<close>

section \<open>Encapsulation\<close>

definition kMaxDatagram :: nat where "kMaxDatagram = 65507"

definition kEncapSeqLen :: nat where [wire_defs]: "kEncapSeqLen = 4"

definition encode_annexj_datagram :: "u32 \<Rightarrow> octets \<Rightarrow> octets" where
  "encode_annexj_datagram encap_seq avtpdu = put_u32 encap_seq @ avtpdu"

definition decode_annexj_datagram :: "octets \<Rightarrow> (u32 \<times> octets) result" where
  "decode_annexj_datagram b =
     (if length b < kEncapSeqLen then Inl (Avtp_err Short_buffer)
      else Inr (get_u32 b, drop kEncapSeqLen b))"

lemma decode_encode_annexj [simp]: "decode_annexj_datagram (encode_annexj_datagram n b) = Inr (n, b)"
  by (simp add: decode_annexj_datagram_def encode_annexj_datagram_def wire_defs)

section \<open>Frames\<close>

definition udp_pending_key :: "u16 \<Rightarrow> u8 \<Rightarrow> u32" where
  "udp_pending_key bus_id transaction_num = push_bit 8 (ucast bus_id) OR ucast transaction_num"

definition udp_encode_frame :: "avtp_frame \<Rightarrow> octets" where
  "udp_encode_frame f =
     (let acf_msg =
        (if a_msg_type (fr_info f) = kAcfMsgTypeGbb
         then encode_acf_gbb (fr_info f) (fr_message_timestamp f) (fr_payload f)
         else encode_acf_abb (fr_info f) (fr_payload f));
        out =
        (if fr_use_tscf f
         then encode_tscf_header
           \<lparr>t_sv = True, t_version = 0, t_mr = False, t_stream_id = fr_stream_id f,
            t_sequence_num = ucast (fr_sequence_num f), t_control_data_length = of_nat (length acf_msg),
            t_timestamp_valid = fr_timestamp_valid f, t_avtp_timestamp = fr_avtp_timestamp f,
            t_tu = False, t_reserved0 = 0, t_reserved1 = 0\<rparr>
         else encode_ntscf_header
           \<lparr>n_sv = True, n_version = 0, n_stream_id = fr_stream_id f,
            n_sequence_num = ucast (fr_sequence_num f), n_control_data_length = of_nat (length acf_msg)\<rparr>)
      in out @ acf_msg)"

text \<open>What the two decoders begin with.\<close>

definition udp_decode_start :: "octets \<Rightarrow> avtp_frame_header result" where
  "udp_decode_start b =
     (if length b < 1 then Inl (Avtp_err Short_buffer)
      else if b ! 0 = kSubtypeTscf then
        (case decode_tscf_header b of
           Inl e \<Rightarrow> Inl e
         | Inr hdr \<Rightarrow>
             (let out = \<lparr>fh_use_tscf = True, fh_stream_id = t_stream_id hdr,
                fh_sequence_num = ucast (t_sequence_num hdr), fh_timestamp_valid = t_timestamp_valid hdr,
                fh_avtp_timestamp = t_avtp_timestamp hdr, fh_acf_offset = kTscfHeaderLen\<rparr>
              in if unat (t_control_data_length hdr) \<noteq> length b - fh_acf_offset out
                 then Inl (Avtp_err Length_mismatch) else Inr out))
      else
        (case decode_ntscf_header b of
           Inl e \<Rightarrow> Inl e
         | Inr hdr \<Rightarrow>
             (let out = \<lparr>fh_use_tscf = False, fh_stream_id = n_stream_id hdr,
                fh_sequence_num = ucast (n_sequence_num hdr), fh_timestamp_valid = False,
                fh_avtp_timestamp = 0, fh_acf_offset = kNtscfHeaderLen\<rparr>
              in if unat (n_control_data_length hdr) \<noteq> length b - fh_acf_offset out
                 then Inl (Avtp_err Length_mismatch) else Inr out)))"

definition udp_decode_frame :: "octets \<Rightarrow> avtp_frame result" where
  "udp_decode_frame b =
     (case udp_decode_start b of
        Inl e \<Rightarrow> Inl e
      | Inr h \<Rightarrow>
          (let acf_off = fh_acf_offset h;
               frame = (\<lambda>info message_timestamp payload.
                 \<lparr>fr_use_tscf = fh_use_tscf h, fr_stream_id = fh_stream_id h,
                  fr_sequence_num = fh_sequence_num h, fr_timestamp_valid = fh_timestamp_valid h,
                  fr_avtp_timestamp = fh_avtp_timestamp h, fr_info = info,
                  fr_message_timestamp = message_timestamp, fr_payload = payload\<rparr>)
           in
           if length b < acf_off + 1 then Inl (Avtp_err Short_buffer)
           else if peek_acf_msg_type (drop acf_off b) = kAcfMsgTypeGbb then
             (case decode_acf_gbb (drop acf_off b) of
                Inl e \<Rightarrow> Inl e
              | Inr (info, message_timestamp, payload) \<Rightarrow> Inr (frame info message_timestamp payload))
           else
             (case decode_acf_abb (drop acf_off b) of
                Inl e \<Rightarrow> Inl e
              | Inr (info, payload) \<Rightarrow> Inr (frame info 0 payload))))"

definition udp_encode_multi_frame :: "multi_frame \<Rightarrow> octets" where
  "udp_encode_multi_frame f =
     (let acf_bytes = concat (map (\<lambda>m.
            if a_msg_type (en_info m) = kAcfMsgTypeGbb
            then encode_acf_gbb (en_info m) (en_timestamp m) (en_payload m)
            else encode_acf_abb (en_info m) (en_payload m)) (mf_messages f));
          out =
        (if mf_use_tscf f
         then encode_tscf_header
           \<lparr>t_sv = True, t_version = 0, t_mr = False, t_stream_id = mf_stream_id f,
            t_sequence_num = ucast (mf_sequence_num f), t_control_data_length = of_nat (length acf_bytes),
            t_timestamp_valid = mf_timestamp_valid f, t_avtp_timestamp = mf_avtp_timestamp f,
            t_tu = False, t_reserved0 = 0, t_reserved1 = 0\<rparr>
         else encode_ntscf_header
           \<lparr>n_sv = True, n_version = 0, n_stream_id = mf_stream_id f,
            n_sequence_num = ucast (mf_sequence_num f), n_control_data_length = of_nat (length acf_bytes)\<rparr>)
      in out @ acf_bytes)"

definition udp_decode_multi_frame :: "octets \<Rightarrow> multi_frame result" where
  "udp_decode_multi_frame b =
     (case udp_decode_start b of
        Inl e \<Rightarrow> Inl e
      | Inr h \<Rightarrow>
          if length b < fh_acf_offset h + 1 then Inl (Avtp_err Short_buffer)
          else
            (case decode_acf_messages (drop (fh_acf_offset h) b) of
               Inl e \<Rightarrow> Inl e
             | Inr messages \<Rightarrow> Inr
                 \<lparr>mf_use_tscf = fh_use_tscf h, mf_stream_id = fh_stream_id h,
                  mf_sequence_num = fh_sequence_num h, mf_timestamp_valid = fh_timestamp_valid h,
                  mf_avtp_timestamp = fh_avtp_timestamp h, mf_messages = messages\<rparr>))"

text \<open>The two copies of the code agree.\<close>

lemma udp_encode_frame_eq [simp]: "udp_encode_frame = encode_frame"
  by (rule ext) (simp add: udp_encode_frame_def encode_frame_def avtp_header_def Let_def)

lemma udp_encode_multi_frame_eq [simp]: "udp_encode_multi_frame = encode_multi_frame"
  by (rule ext) (simp add: udp_encode_multi_frame_def encode_multi_frame_def avtp_header_def Let_def)

lemma udp_decode_start_eq: "udp_decode_start = decode_avtp_frame_header"
  by (rule ext) (simp add: udp_decode_start_def decode_avtp_frame_header_def Let_def split: sum.split)

lemma udp_decode_frame_eq [simp]: "udp_decode_frame = decode_frame"
  by (rule ext) (simp add: udp_decode_frame_def decode_frame_def udp_decode_start_eq)

lemma udp_decode_multi_frame_eq [simp]: "udp_decode_multi_frame = decode_multi_frame"
  by (rule ext) (simp add: udp_decode_multi_frame_def decode_multi_frame_def udp_decode_start_eq)

lemma udp_pending_key_eq [simp]: "udp_pending_key = pending_key"
  by (intro ext) (simp add: udp_pending_key_def pending_key_def)

section \<open>The server\<close>

type_synonym 'w udp_handler = "nat \<Rightarrow> stream_id \<Rightarrow> u8 \<Rightarrow> octets \<Rightarrow> 'w \<Rightarrow> (acf_info \<times> octets) list \<times> 'w"

text \<open>A sender is the text that \<open>addr_key()\<close> makes of its address.\<close>

record udp_server =
  us_stream_id :: stream_id
  us_seq :: u16
  us_encap_seq :: u32
  us_client_ids :: "string \<Rightarrow> nat option"
  us_next_client_id :: nat
  us_last_recv_encap_seq :: "nat \<Rightarrow> u32 option"

definition udp_client_id_for :: "string \<Rightarrow> udp_server \<Rightarrow> nat \<times> udp_server" where
  "udp_client_id_for key s =
     (case us_client_ids s key of
        Some client_id \<Rightarrow> (client_id, s)
      | None \<Rightarrow>
          (let client_id = us_next_client_id s in
           (client_id, s\<lparr>us_next_client_id := client_id + 1,
              us_client_ids := (us_client_ids s)(key := Some client_id)\<rparr>)))"

definition last_recv_encap_seq :: "nat \<Rightarrow> udp_server \<Rightarrow> u32" where
  "last_recv_encap_seq client s = (case us_last_recv_encap_seq s client of Some n \<Rightarrow> n | None \<Rightarrow> 0)"

definition udp_serve_datagram ::
    "'w udp_handler option \<Rightarrow> string \<Rightarrow> octets \<Rightarrow> udp_server \<Rightarrow> 'w \<Rightarrow> octets option \<times> udp_server \<times> 'w" where
  "udp_serve_datagram handler sender b s w =
     (case decode_annexj_datagram b of
        Inl _ \<Rightarrow> (None, s, w)
      | Inr (in_encap_seq, avtpdu) \<Rightarrow>
          (case udp_decode_multi_frame avtpdu of
             Inl _ \<Rightarrow> (None, s, w)
           | Inr req \<Rightarrow>
               (let acf_off = (if mf_use_tscf req then kTscfHeaderLen else kNtscfHeaderLen);
                    acf_frame = drop acf_off avtpdu;
                    s = s\<lparr>us_seq := us_seq s + 1\<rparr>
                in
                case udp_client_id_for sender s of
                  (client, s) \<Rightarrow>
                    (let s = s\<lparr>us_last_recv_encap_seq := (us_last_recv_encap_seq s)(client := Some in_encap_seq)\<rparr> in
                     case (case handler of
                         Some handle \<Rightarrow> handle client (mf_stream_id req) (ucast (mf_sequence_num req)) acf_frame w
                       | None \<Rightarrow> (map (\<lambda>m. (make_response (en_info m) Acknowledge, [])) (mf_messages req), w))
                     of
                       (results, w) \<Rightarrow>
                         (let messages = sent_responses results;
                              resp = \<lparr>mf_use_tscf = mf_use_tscf req, mf_stream_id = us_stream_id s,
                                mf_sequence_num = us_seq s, mf_timestamp_valid = mf_timestamp_valid req,
                                mf_avtp_timestamp = mf_avtp_timestamp req, mf_messages = messages\<rparr>
                          in
                          if messages = [] then (None, s, w)
                          else
                            (let s = s\<lparr>us_encap_seq := us_encap_seq s + 1\<rparr> in
                             (Some (encode_annexj_datagram (us_encap_seq s) (udp_encode_multi_frame resp)), s, w)))))))"

text \<open>\<open>recvfrom\<close> delivers a datagram, cut to the buffer, or fails. A datagram without octets ends the loop.\<close>

datatype udp_received = Datagram string octets | Datagram_failed

fun udp_serve ::
    "'w udp_handler option \<Rightarrow> udp_received list \<Rightarrow> udp_server \<Rightarrow> 'w \<Rightarrow> octets list \<times> udp_server \<times> 'w" where
  "udp_serve handler [] s w = ([], s, w)"
| "udp_serve handler (Datagram_failed # es) s w = ([], s, w)"
| "udp_serve handler (Datagram sender b # es) s w =
     (if b = [] then ([], s, w)
      else
        (case udp_serve_datagram handler sender (take kMaxDatagram b) s w of
           (reply, s, w) \<Rightarrow>
             (case udp_serve handler es s w of
                (replies, s, w) \<Rightarrow> ((case reply of None \<Rightarrow> replies | Some r \<Rightarrow> r # replies), s, w))))"

text \<open>What arrives after such a datagram is never answered.\<close>

lemma empty_datagram_ends_server:
  "udp_serve handler (es @ Datagram sender [] # later) s w = udp_serve handler es s w"
  by (induction handler es s w rule: udp_serve.induct) (auto split: prod.splits)

section \<open>The client\<close>

record udp_client =
  uc_stream_id :: stream_id
  uc_closed :: bool
  uc_seq :: u16
  uc_encap_seq :: u32
  uc_last_recv_encap_seq :: u32
  uc_reading :: bool
  uc_waiting :: waiting

definition udp_request ::
    "bool \<Rightarrow> acf_info \<Rightarrow> octets \<Rightarrow> bool \<Rightarrow> u32 \<Rightarrow> u64 \<Rightarrow> udp_client \<Rightarrow>
       (request_failure + nat \<times> octets) \<times> udp_client" where
  "udp_request ctx_done req req_payload use_tscf avtp_timestamp message_timestamp c =
     (if uc_closed c then (Inl Err_closed, c)
      else if ctx_done then (Inl Err_timeout, c)
      else
        (let c = c\<lparr>uc_seq := uc_seq c + 1\<rparr>;
             out = \<lparr>fr_use_tscf = use_tscf, fr_stream_id = uc_stream_id c, fr_sequence_num = uc_seq c,
               fr_timestamp_valid = use_tscf, fr_avtp_timestamp = avtp_timestamp, fr_info = req,
               fr_message_timestamp = message_timestamp, fr_payload = req_payload\<rparr>;
             (promise, w) =
               register_request (udp_pending_key (a_byte_bus_id req) (a_transaction_num req)) (uc_waiting c);
             c = c\<lparr>uc_waiting := w, uc_encap_seq := uc_encap_seq c + 1\<rparr>
         in (Inr (promise, encode_annexj_datagram (uc_encap_seq c) (udp_encode_frame out)), c)))"

definition udp_request_unsent :: "nat \<Rightarrow> udp_client \<Rightarrow> request_failure \<times> udp_client" where
  "udp_request_unsent promise c = (Err_closed, c\<lparr>uc_waiting := cleanup_request promise (uc_waiting c)\<rparr>)"

definition udp_request_await ::
    "bool \<Rightarrow> nat \<Rightarrow> udp_client \<Rightarrow> (request_failure + acf_info \<times> octets) option \<times> udp_client" where
  "udp_request_await timeout promise c =
     (case await_request timeout promise (uc_waiting c) of (result, w) \<Rightarrow> (result, c\<lparr>uc_waiting := w\<rparr>))"

definition udp_client_close :: "udp_client \<Rightarrow> udp_client" where
  "udp_client_close c = c\<lparr>uc_closed := True\<rparr>"

text \<open>One turn of \<open>read_loop()\<close>; the sender of a datagram is always the server the socket is connected to.\<close>

definition udp_client_read :: "udp_received \<Rightarrow> udp_client \<Rightarrow> udp_client option" where
  "udp_client_read e c =
     (if \<not> uc_reading c then Some c
      else if uc_closed c then Some (c\<lparr>uc_reading := False\<rparr>)
      else
        (case e of
           Datagram_failed \<Rightarrow> Some (c\<lparr>uc_reading := False\<rparr>)
         | Datagram sender b \<Rightarrow>
             if b = [] then Some (c\<lparr>uc_reading := False\<rparr>)
             else
               (case decode_annexj_datagram (take kMaxDatagram b) of
                  Inl _ \<Rightarrow> Some c
                | Inr (in_encap_seq, avtpdu) \<Rightarrow>
                    (let c = c\<lparr>uc_last_recv_encap_seq := in_encap_seq\<rparr> in
                     case udp_decode_frame avtpdu of
                       Inl _ \<Rightarrow> Some c
                     | Inr resp \<Rightarrow>
                         map_option (\<lambda>w. c\<lparr>uc_waiting := w\<rparr>) (complete_request resp (uc_waiting c))))))"

inductive udp_client_step :: "udp_client \<Rightarrow> udp_client \<Rightarrow> bool" where
  request: "udp_client_step c (snd (udp_request ctx_done req payload use_tscf ts mts c))"
| unsent: "udp_client_step c (snd (udp_request_unsent p c))"
| await: "udp_client_step c (snd (udp_request_await timeout p c))"
| read: "udp_client_read e c = Some c' \<Longrightarrow> udp_client_step c c'"
| close: "udp_client_step c (udp_client_close c)"

definition udp_new_client :: "stream_id \<Rightarrow> udp_client" where
  "udp_new_client sid =
     \<lparr>uc_stream_id = sid, uc_closed = False, uc_seq = 0, uc_encap_seq = 0, uc_last_recv_encap_seq = 0,
      uc_reading = True, uc_waiting = no_requests\<rparr>"

definition udp_client_reachable :: "udp_client \<Rightarrow> bool" where
  "udp_client_reachable c \<longleftrightarrow> (\<exists>sid. udp_client_step\<^sup>*\<^sup>* (udp_new_client sid) c)"

lemma udp_step_wf: "udp_client_step c c' \<Longrightarrow> waiting_wf (uc_waiting c) \<Longrightarrow> waiting_wf (uc_waiting c')"
proof (induction rule: udp_client_step.induct)
  case (request c ctx_done req payload use_tscf ts mts)
  then show ?case
    using register_wf [of "uc_waiting c"] by (auto simp: udp_request_def Let_def split: prod.splits) (metis snd_conv)
next
  case (await c timeout p)
  then show ?case
    using await_wf [of "uc_waiting c" timeout p] by (auto simp: udp_request_await_def split: prod.splits)
qed (auto simp: udp_request_unsent_def udp_client_close_def udp_client_read_def Let_def waiting_ops
      split: udp_received.splits if_splits sum.splits prod.splits)

lemma udp_reachable_wf: "udp_client_reachable c \<Longrightarrow> waiting_wf (uc_waiting c)"
proof -
  have "udp_client_step\<^sup>*\<^sup>* c0 c \<Longrightarrow> waiting_wf (uc_waiting c0) \<Longrightarrow> waiting_wf (uc_waiting c)" for c0
    by (induction rule: rtranclp_induct) (auto dest: udp_step_wf)
  then show "udp_client_reachable c \<Longrightarrow> waiting_wf (uc_waiting c)"
    by (auto simp: udp_client_reachable_def udp_new_client_def no_requests_wf)
qed

section \<open>A request and its answer\<close>

text \<open>The octets of a message fit into a frame of this kind and into the buffer.\<close>

definition udp_fits :: "bool \<Rightarrow> acf_entry \<Rightarrow> bool" where
  "udp_fits use_tscf e \<longleftrightarrow>
     length (encode_entry e) < frame_capacity use_tscf \<and>
     kEncapSeqLen + (if use_tscf then kTscfHeaderLen else kNtscfHeaderLen) + length (encode_entry e) \<le> kMaxDatagram"

definition udp_request_frame :: "udp_client \<Rightarrow> acf_info \<Rightarrow> octets \<Rightarrow> bool \<Rightarrow> u32 \<Rightarrow> u64 \<Rightarrow> avtp_frame" where
  "udp_request_frame c req payload use_tscf ts mts =
     \<lparr>fr_use_tscf = use_tscf, fr_stream_id = uc_stream_id c, fr_sequence_num = uc_seq c + 1,
      fr_timestamp_valid = use_tscf, fr_avtp_timestamp = ts, fr_info = req,
      fr_message_timestamp = mts, fr_payload = payload\<rparr>"

lemma udp_request_sends:
  assumes "udp_request False req payload use_tscf ts mts c = (Inr (p, wire), c')"
  shows "wire = encode_annexj_datagram (uc_encap_seq c + 1) (encode_frame (udp_request_frame c req payload use_tscf ts mts))"
  using assms by (auto simp: udp_request_def udp_request_frame_def Let_def split: if_splits prod.splits)

lemma annexj_len: "length (encode_annexj_datagram n b) = kEncapSeqLen + length b"
  by (simp add: encode_annexj_datagram_def wire_defs)

lemma udp_client_id_for_keeps:
  "udp_client_id_for key s = (client, s') \<Longrightarrow> us_stream_id s' = us_stream_id s \<and> us_seq s' = us_seq s \<and> us_encap_seq s' = us_encap_seq s"
  by (auto simp: udp_client_id_for_def Let_def split: option.splits)

lemma udp_read_one:
  assumes "wf_stream_id sid" "udp_fits (fh_use_tscf h) e"
    and c: "waiting_wf (uc_waiting c)" "uc_reading c" "\<not> uc_closed c"
      "wt_pending (uc_waiting c) (request_key (en_info (sent_entry e))) = Some p"
  shows "\<exists>c'. udp_client_read (Datagram sender (encode_annexj_datagram k (encode_multi_frame (reply_frame sid n h [e])))) c = Some c' \<and>
    fst (udp_request_await False p c') = Some (Inr (en_info (sent_entry e), en_payload e))"
proof -
  let ?m = "reply_frame sid n h [e]" and ?w = "uc_waiting c"
  let ?b = "encode_annexj_datagram k (encode_multi_frame ?m)"
  define h' where "h' = received_header (mf_use_tscf ?m) (mf_stream_id ?m) (mf_sequence_num ?m) (mf_timestamp_valid ?m) (mf_avtp_timestamp ?m)"
  have "decode_frame (encode_multi_frame ?m) = Inr (received_frame h' (sent_entry e))"
    using assms(1,2) decode_single_message [of _ e h']
    by (simp add: encode_multi_frame_eq Let_def decode_avtp_header reply_frame_def udp_fits_def h'_def received_header_def)
  moreover have "length ?b \<le> kMaxDatagram"
    using assms(2) by (simp add: annexj_len encode_multi_frame_eq Let_def udp_fits_def reply_frame_def)
  moreover have "?b \<noteq> []" using annexj_len [of k "encode_multi_frame ?m"] by (auto simp: wire_defs)
  moreover have "wt_calls ?w p = Some (request_key (en_info (sent_entry e)))" "wt_values ?w p = None"
    using waiting_wfD(1,2) [OF c(1) c(4)] by simp_all
  ultimately show ?thesis
    using c(2,3,4) by (simp add: udp_client_read_def complete_request_def request_key_def received_frame_def
        udp_request_await_def await_request_def sent_entry_def Let_def split: prod.split)
qed

text \<open>A frame of one message is a frame of several messages with one.\<close>

definition as_multi :: "avtp_frame \<Rightarrow> multi_frame" where
  "as_multi f =
     \<lparr>mf_use_tscf = fr_use_tscf f, mf_stream_id = fr_stream_id f, mf_sequence_num = fr_sequence_num f,
      mf_timestamp_valid = fr_timestamp_valid f, mf_avtp_timestamp = fr_avtp_timestamp f,
      mf_messages = [frame_entry f]\<rparr>"

lemma frame_is_multi: "encode_frame f = encode_multi_frame (as_multi f)"
  by (simp add: encode_frame_eq encode_multi_frame_eq as_multi_def Let_def)

definition udp_client_id :: "string \<Rightarrow> udp_server \<Rightarrow> nat" where
  "udp_client_id sender s = fst (udp_client_id_for sender s)"

lemma udp_client_id_seq: "fst (udp_client_id_for sender (s\<lparr>us_seq := n\<rparr>)) = udp_client_id sender s"
  by (simp add: udp_client_id_def udp_client_id_for_def Let_def split: option.split)

lemma udp_serve_one:
  assumes f: "frame_fits f" "padded_entry (frame_entry f)"
    and run: "handle (udp_client_id sender s) (fr_stream_id f) (ucast (fr_sequence_num f)) (encode_entry (frame_entry f)) w = (results, w')"
    and h: "h = received_header (fr_use_tscf f) (fr_stream_id f) (fr_sequence_num f) (fr_timestamp_valid f) (fr_avtp_timestamp f)"
  shows "\<exists>s'. udp_serve_datagram (Some handle) sender (encode_annexj_datagram n (encode_frame f)) s w =
    (if sent_responses results = [] then None
     else Some (encode_annexj_datagram (us_encap_seq s + 1) (encode_multi_frame
       (reply_frame (us_stream_id s) (us_seq s + 1) h (sent_responses results)))), s', w')"
proof -
  have "multi_fits (as_multi f)"
    using f by (simp add: multi_fits_def as_multi_def frame_fits_def)
  then have "decode_multi_frame (encode_frame f) = Inr (received_multi h [sent_entry (frame_entry f)])"
    using decode_encode_multi_frame [of "as_multi f"] by (simp add: frame_is_multi h as_multi_def)
  moreover have "drop (if fr_use_tscf f then kTscfHeaderLen else kNtscfHeaderLen) (encode_frame f) = encode_entry (frame_entry f)"
    by (simp add: encode_frame_eq)
  moreover obtain client s1 where ids: "udp_client_id_for sender (s\<lparr>us_seq := us_seq s + 1\<rparr>) = (client, s1)"
    by fastforce
  moreover have "client = udp_client_id sender s"
    using ids by (metis udp_client_id_seq fst_conv)
  ultimately show ?thesis
    using run udp_client_id_for_keeps [OF ids]
    by (simp add: udp_serve_datagram_def received_multi_def h received_header_def reply_frame_def Let_def)
qed

context frame_service
begin

lemma udp_request_answered:
  assumes e_def: "e = request_entry req mts payload"
    and start: "wf_stream_id (uc_stream_id c)" "wf_stream_id (us_stream_id s)"
      "udp_request False req payload use_tscf ts mts c = (Inr (p, wire), c1)"
    and e: "padded_entry e" "a_byte_bus_id req < 0x800" "udp_fits use_tscf e"
    and run: "serve (udp_client_id sender s) (uc_stream_id c) (ucast (uc_seq c + 1)) (encode_entry e) w = (results, w')"
    and size: "\<forall>(info, payload) \<in> set results. udp_fits use_tscf (response_entry info payload)"
    and later: "waiting_wf (uc_waiting c2)" "uc_reading c2" "\<not> uc_closed c2"
      "wt_pending (uc_waiting c2) (request_key req) = Some p"
  shows "\<exists>info answer s'. results = [(info, answer)] \<and>
    (if a_rsp info
     then \<exists>reply c3. udp_serve (Some serve) [Datagram sender wire] s w = ([reply], s', w') \<and>
       udp_client_read (Datagram peer reply) c2 = Some c3 \<and>
       fst (udp_request_await False p c3) = Some (Inr (en_info (sent_entry (response_entry info answer)), answer))
     else udp_serve (Some serve) [Datagram sender wire] s w = ([], s', w'))"
proof -
  let ?f = "udp_request_frame c req payload use_tscf ts mts"
  define h where "h = received_header (fr_use_tscf ?f) (fr_stream_id ?f) (fr_sequence_num ?f) (fr_timestamp_valid ?f) (fr_avtp_timestamp ?f)"
  have eq: "a_byte_bus_id (en_info e) < 0x800" "en_info e = req" using e(2) by (simp_all add: e_def request_entry_def)
  obtain info answer where r: "results = [(info, answer)]"
    "sent_responses results = (if a_rsp info then [response_entry info answer] else [])"
    "a_rsp info \<Longrightarrow> frame_key (received_frame h (sent_entry (response_entry info answer))) = request_key req"
    using one_response [OF e(1) eq(1), of "udp_client_id sender s" "uc_stream_id c" "ucast (uc_seq c + 1)" w h]
    unfolding run eq(2) by (metis fst_conv)
  have fits: "frame_fits ?f" "frame_entry ?f = e"
    using start(1) e by (auto simp: frame_fits_def udp_request_frame_def frame_entry_def udp_fits_def
        e_def request_entry_def)
  have wire: "wire = encode_annexj_datagram (uc_encap_seq c + 1) (encode_frame ?f)"
    using start(3) by (rule udp_request_sends)
  then have "length wire \<le> kMaxDatagram" "0 < length wire"
    using e(3) fits(2) by (simp_all add: annexj_len encode_frame_eq udp_fits_def udp_request_frame_def kEncapSeqLen_def)
  then have "take kMaxDatagram wire = wire" "wire \<noteq> []"
    by auto
  moreover have "fr_stream_id ?f = uc_stream_id c" "fr_sequence_num ?f = uc_seq c + 1" by (simp_all add: udp_request_frame_def)
  then obtain s' where "udp_serve_datagram (Some serve) sender wire s w = (if sent_responses results = [] then None
     else Some (encode_annexj_datagram (us_encap_seq s + 1) (encode_multi_frame
       (reply_frame (us_stream_id s) (us_seq s + 1) h (sent_responses results)))), s', w')"
    using udp_serve_one [OF fits(1), of serve sender s w results w' h "uc_encap_seq c + 1"] run e(1) fits(2)
    by (auto simp: wire h_def)
  ultimately have served: "udp_serve (Some serve) [Datagram sender wire] s w = (if a_rsp info
      then [encode_annexj_datagram (us_encap_seq s + 1) (encode_multi_frame (reply_frame (us_stream_id s) (us_seq s + 1) h [response_entry info answer]))]
      else [], s', w')"
    by (simp add: r(2))
  show ?thesis
  proof (cases "a_rsp info")
    case True
    obtain c3 where "udp_client_read (Datagram peer (encode_annexj_datagram (us_encap_seq s + 1)
          (encode_multi_frame (reply_frame (us_stream_id s) (us_seq s + 1) h [response_entry info answer])))) c2 = Some c3"
      "fst (udp_request_await False p c3) = Some (Inr (en_info (sent_entry (response_entry info answer)), en_payload (response_entry info answer)))"
      using udp_read_one [of "us_stream_id s" h "response_entry info answer" c2 p peer "us_encap_seq s + 1"] start(2) size later r(1) r(3) [OF True]
      by (auto simp: h_def received_header_def udp_request_frame_def frame_key_def request_key_def received_frame_def)
    then show ?thesis using True r(1) served by (auto simp: response_entry_def)
  next
    case False
    then show ?thesis using r(1) served by auto
  qed
qed

end

end
