(* ===== verification/Transport_Mock.thy ===== *)
theory Transport_Mock
  imports L2 Udp Mock_Frame
begin

text \<open>
  The in-process server of \<open>include/rcp/mock.hpp\<close> behind the two transports, wired as the comment in
  \<open>include/rcp/l2.hpp\<close> asks for: the handler of the transport's server passes the messages of a frame
  to \<open>dispatch_frame\<close>. With it, a request that a client sends is executed and its answer returns to the
  call that waits for it.
\<close>

section \<open>The handlers\<close>

definition mock_l2_handler :: "(code option, mock_server) frame_handler" where
  "mock_l2_handler client sid sequence_num acf s =
     (case dispatch_frame sid acf s of
        (results, s) \<Rightarrow>
          (map (\<lambda>m. \<lparr>mr_result = fm_result m, mr_byte_bus_id = fm_byte_bus_id m,
             mr_response = fst (fm_response m), mr_response_payload = snd (fm_response m)\<rparr>) results, s))"

definition mock_udp_handler :: "mock_server udp_handler" where
  "mock_udp_handler client sid sequence_num acf s =
     (case dispatch_frame sid acf s of (results, s) \<Rightarrow> (map fm_response results, s))"

section \<open>A response carries the bus and the transaction of its request\<close>

definition carries_key :: "acf_info \<Rightarrow> reply \<Rightarrow> bool" where
  "carries_key req rep \<longleftrightarrow>
     (a_rsp (fst rep) \<longrightarrow>
        a_byte_bus_id (fst rep) = a_byte_bus_id req \<and> a_transaction_num (fst rep) = a_transaction_num req)"

lemma carries_simps [simp]:
  "carries_key req no_reply" "carries_key req (error_reply req wec)" "carries_key req (make_response req kind, payload)"
  "carries_key req (make_acknowledge_rejected_response req, payload)"
  "carries_key req (snd (set_error_response req ec))" "carries_key req (snd (answer req kind payload))"
  by (auto simp: carries_key_def no_reply_def acf_default_def error_reply_def make_response_def Let_def
      make_acknowledge_rejected_response_def set_error_response_def answer_def)

lemma answers_carries: "answers req ec rep \<Longrightarrow> carries_key req rep"
  by (simp add: answers_def carries_key_def split: prod.splits)

lemma suppress_carries [simp]: "carries_key req rep \<Longrightarrow> carries_key req (suppress_response_per_stream_cfg regs sid rep)"
  using suppress_cases [of regs sid rep] by auto

lemma cancellation_carries: "carries_key req (fst (apply_cancellation rt frame req ep))"
  by (simp add: apply_cancellation_def split: sum.split prod.split cancel_result.split)

lemma admit_carries: "admit_and_classify frame req ep = (Some (ec, rep), ep') \<Longrightarrow> carries_key req rep"
  using cancellation_carries [of req]
  by (auto simp: admit_and_classify_def split: prod.splits admit_outcome.splits if_splits option.splits) (metis fst_conv)

lemma dispatch_carries: "carries_key req (snd (fst (dispatch req payload sid s)))"
proof (cases "admission_index (a_byte_bus_id req)")
  case (Some i)
  have "carries_key req (snd (fst (run_endpoint i req payload s')))" for s'
    using run_endpoint_well [OF admission_index_bound [OF Some], of req s' payload]
    by (auto simp: well_run_def intro: answers_carries)
  then have "carries_key req (snd (fst (admitted i req payload (run_endpoint i req payload) s)))"
    by (auto simp: admitted_def dest: admit_carries split: option.split prod.split)
  then show ?thesis
    using Some by (auto simp: dispatch_eq suppressed_def dispatch_ep0_def split: prod.splits option.splits)
qed (auto simp: dispatch_eq dispatch_ep0_def split: option.splits)

lemma suppressed_carries:
  "carries_key req (snd (fst (inner s))) \<Longrightarrow> carries_key req (snd (fst (suppressed sid inner s)))"
  by (cases "inner s") (auto simp: suppressed_def)

lemma decode_and_dispatch_carries:
  "carries_key (decode_acf_message_info frame) (snd (fst (decode_and_dispatch frame sid s)))"
proof (cases "frame = [] \<or> peek_conditional_request_type frame \<noteq> None")
  case True
  have "carries_key (decode_acf_message_info frame)
      (snd (fst (case admit_and_classify frame (decode_acf_message_info frame) ep of
         (None, ep') \<Rightarrow> ((None, no_reply), f ep')
       | (Some (ec, rep), ep') \<Rightarrow> ((ec, suppress_response_per_stream_cfg regs sid rep), f ep'))))" for ep f regs
    by (auto dest: admit_carries split: option.split prod.split)
  then show ?thesis
    using True by (auto simp: decode_and_dispatch_def Let_def suppressed_carries split: option.split)
next
  case False
  have "decode_acf_frame frame gbb = Inr (req, ts, payload) \<Longrightarrow> req = decode_acf_message_info frame" for gbb req ts payload
    by (auto simp: decode_acf_frame_def decode_acf_abb_def decode_acf_gbb_def decode_acf_gbb_message_info_def
        split: if_splits sum.splits prod.splits)
  then show ?thesis
    using False dispatch_carries [of "decode_acf_message_info frame"]
    by (auto simp: decode_and_dispatch_def split: sum.split prod.split)
qed

section \<open>A frame of one message\<close>

lemma padded_whole: "padded_entry e \<Longrightarrow> whole_message (encode_entry e)"
  using encoded_entry_whole [OF padded_sent_exact] by (simp add: encode_sent_entry)

lemma dispatch_frame_one:
  assumes "whole_message m"
  obtains r s' where "dispatch_frame sid m s = ([r], s')" "carries_key (decode_acf_message_info m) (fm_response r)"
proof -
  let ?d = "\<lambda>m. decode_and_dispatch m sid"
  have "frame_members m = [m]"
    using frame_members_concat [of "[m]"] assms by (simp add: kMaxFrameMembers_def)
  moreover obtain r s' where next': "next_member ?d [] m [] s = (r, s')" by fastforce
  moreover have "dispatch_member ?d 0 m no_chain s = (case next_member ?d [] m [] s of (r, s') \<Rightarrow> (r, progress [m] [r], s'))"
    using dispatch_member_eq [OF assms, of ?d "[]" "[]" s] decode_and_dispatch_no_frame_code
    by (simp add: progress_def no_chain_def)
  ultimately have "dispatch_frame sid m s = ([r], s')"
    by (simp add: dispatch_frame_def dispatch_frame_impl_def)
  moreover have "carries_key (decode_acf_message_info m) (fm_response r)"
    using next' decode_and_dispatch_carries [of m sid s]
    by (auto simp: next_member_def Let_def split: if_splits prod.splits)
  ultimately show thesis by (rule that)
qed

lemma entry_header:
  "padded_entry e \<Longrightarrow> decode_acf_message_info (encode_entry e) = en_info (sent_entry e)"
  by (auto simp: padded_entry_def encode_entry_def sent_entry_def encode_gbb_eq encode_abb_eq
      encode_acf_gbb_message_info_def)

lemma entry_key:
  "padded_entry e \<Longrightarrow> a_byte_bus_id (en_info e) < 0x800 \<Longrightarrow>
     a_byte_bus_id (decode_acf_message_info (encode_entry e)) = a_byte_bus_id (en_info e) \<and>
     a_transaction_num (decode_acf_message_info (encode_entry e)) = a_transaction_num (en_info e)"
  by (simp add: entry_header sent_entry_def mask_info_def gbb_header_def abb_header_def fill_length_def masked_field)

lemma mock_answers_one:
  assumes "padded_entry e"
  obtains info payload where "fst (mock_udp_handler client sid n (encode_entry e) s) = [(info, payload)]"
    "carries_key (decode_acf_message_info (encode_entry e)) (info, payload)"
proof -
  obtain r s' where r: "dispatch_frame sid (encode_entry e) s = ([r], s')"
    "carries_key (decode_acf_message_info (encode_entry e)) (fm_response r)"
    using dispatch_frame_one [OF padded_whole [OF assms]] by blast
  then show thesis
    using that [of "fst (fm_response r)" "snd (fm_response r)"] by (simp add: mock_udp_handler_def)
qed

interpretation mock_udp: frame_service mock_udp_handler
proof
  fix e :: acf_entry and client sid n and s :: mock_server
  assume e: "padded_entry e"
  obtain i p where r: "fst (mock_udp_handler client sid n (encode_entry e) s) = [(i, p)]"
    "carries_key (decode_acf_message_info (encode_entry e)) (i, p)"
    using mock_answers_one [OF e] by blast
  show "length (fst (mock_udp_handler client sid n (encode_entry e) s)) = 1"
    by (simp add: r(1))
  fix info payload
  assume "a_byte_bus_id (en_info e) < 0x800" "a_rsp info"
    "(info, payload) \<in> set (fst (mock_udp_handler client sid n (encode_entry e) s))"
  then show "a_byte_bus_id info = a_byte_bus_id (en_info e) \<and> a_transaction_num info = a_transaction_num (en_info e)"
    using r entry_key [OF e] by (simp add: carries_key_def)
qed

lemma mock_handlers_agree:
  "(case mock_l2_handler client sid n acf s of
      (results, s') \<Rightarrow> (map (\<lambda>r. (mr_response r, mr_response_payload r)) results, s'))
   = mock_udp_handler client sid n acf s"
  by (simp add: mock_l2_handler_def mock_udp_handler_def split: prod.split)

interpretation mock_l2: l2_service mock_l2_handler
  by (rule l2_service.intro) (simp only: mock_handlers_agree mock_udp.frame_service_axioms)

section \<open>Properties\<close>

text \<open>An example: a request to a bus without an endpoint is answered with an error code.\<close>

definition sample_request :: acf_info where
  "sample_request = acf_default\<lparr>a_byte_bus_id := 100, a_transaction_num := 7\<rparr>"

definition sample_result :: frame_member_result where
  "sample_result =
     \<lparr>fm_result = Some (Core (Regmap_err Invalid_parameter)), fm_byte_bus_id = 100,
      fm_response = error_reply (en_info (sent_entry (request_entry sample_request 0 [1, 2, 3, 4]))) InvalidParameter\<rparr>"

lemma sample_padded: "padded_entry (request_entry sample_request 0 [1, 2, 3, 4])"
  by (simp add: padded_entry_def request_entry_def sample_request_def acf_default_def wire_defs)

lemma sample_encoded: "encode_entry (request_entry sample_request 0 [1, 2, 3, 4]) = encode_acf_abb sample_request [1, 2, 3, 4]"
  by (simp add: encode_entry_def request_entry_def sample_request_def acf_default_def wire_defs)

lemma sample_dispatched:
  "dispatch_frame sid (encode_entry (request_entry sample_request 0 [1, 2, 3, 4])) s = ([sample_result], s)"
proof -
  let ?m = "encode_entry (request_entry sample_request 0 [1, 2, 3, 4])"
  let ?hdr = "en_info (sent_entry (request_entry sample_request 0 [1, 2, 3, 4]))"
  have hdr: "decode_acf_message_info ?m = ?hdr" "a_byte_bus_id ?hdr = 100" "a_msg_type ?hdr = kAcfMsgTypeAbb"
    using entry_header [OF sample_padded] entry_key [OF sample_padded]
    by (simp_all add: sent_entry_def request_entry_def sample_request_def acf_default_def wire_defs mask_info_def
        abb_header_def)
  have unchained: "\<not> is_chained ?m"
    by (simp add: is_chained_def decode_chained_member_def decode_repurposed_def sample_encoded encode_abb_eq
        decode_acf_gbb_def abb_header_def wire_defs Let_def)
  have "?hdr = mask_info (abb_header sample_request [1, 2, 3, 4])"
    by (simp add: sent_entry_def request_entry_def sample_request_def acf_default_def wire_defs)
  then have "decode_acf_frame ?m False = Inr (?hdr, 0, [1, 2, 3, 4])"
    using decode_encode_abb [of sample_request "[1, 2, 3, 4]"] by (simp add: decode_acf_frame_def sample_encoded)
  moreover have "peek_acf_msg_type ?m \<noteq> kAcfMsgTypeGbb"
    using hdr(3) gbb_is_not_abb unfolding hdr(1) [symmetric] decode_type by simp
  moreover have "?m \<noteq> []" by (rule encode_entry_ne_Nil)
  moreover have "admission_index 100 = None" "(100 :: u16) \<noteq> kEp0"
    by (simp_all add: admission_index_def bus_ids kEp0_def)
  ultimately have "decode_and_dispatch ?m sid s = (set_error_response ?hdr (Core (Regmap_err Invalid_parameter)), s)"
    using hdr by (simp add: decode_and_dispatch_def dispatch_eq peek_conditional_request_type_def Let_def
        kAcfMsgTypeAbb_def kAcfMsgTypeGbb_def)
  then have next': "next_member (\<lambda>m. decode_and_dispatch m sid) [] ?m [] s = (sample_result, s)"
    using hdr unchained \<open>admission_index 100 = None\<close>
    by (simp add: next_member_def Let_def set_error_response_def sample_result_def wire_error_code_for_def)
  have whole: "whole_message ?m" by (rule padded_whole [OF sample_padded])
  then have "frame_members ?m = [?m]"
    using frame_members_concat [of "[?m]"] by (simp add: kMaxFrameMembers_def)
  moreover have "dispatch_member (\<lambda>m. decode_and_dispatch m sid) 0 ?m no_chain s = (sample_result, progress [?m] [sample_result], s)"
    using dispatch_member_eq [OF whole, of "\<lambda>m. decode_and_dispatch m sid" "[]" "[]" s] decode_and_dispatch_no_frame_code next'
    by (simp add: progress_def no_chain_def)
  ultimately show ?thesis
    by (simp add: dispatch_frame_def dispatch_frame_impl_def)
qed

lemma sample_response:
  "snd (fm_response sample_result) = encode_error_payload InvalidParameter" "a_rsp (fst (fm_response sample_result))"
  by (simp_all add: sample_result_def error_reply_def make_response_def Let_def)

lemma sample_small:
  "length (encode_entry (response_entry info (encode_error_payload ec))) \<le> 17"
  by (simp add: encode_entry_def encode_abb_eq encode_gbb_eq response_entry_def encode_error_payload_def)

text \<open>
  Padding is the caller's: of a request whose payload is not padded to whole quadlets the header counts more
  octets than there are, the frame is malformed, and nothing is executed or answered.
\<close>

lemma unpadded_request_dropped:
  assumes "length payload mod 4 \<noteq> 0" "length payload \<le> kAcfAbbMaxPayload" "a_msg_length req = 0"
  shows "dispatch_frame sid (encode_acf_abb req payload) s = ([], s)"
proof -
  let ?f = "encode_acf_abb req payload" and ?i = "abb_header req payload"
  have "unat (compute_acf_msg_length kAcfMsgTypeAbb (length payload)) = (8 + length payload + 3) div 4"
    using assms(2) by (simp add: compute_acf_msg_length_def Let_def unsigned_of_nat take_bit_eq_mod wire_defs)
  moreover have "(8 + length payload + 3) div 4 < 512" using assms(2) by (simp add: wire_defs)
  ultimately have "unat (a_msg_length (decode_acf_message_info ?f)) * 4 = (8 + length payload + 3) div 4 * 4"
    using assms(3) by (simp add: encode_abb_eq unat_msg_length abb_header_def fill_length_def)
  moreover have "8 + length payload < (8 + length payload + 3) div 4 * 4"
    using assms(1) by presburger
  moreover have "length ?f = 8 + length payload" by (simp add: encode_abb_eq wire_defs)
  ultimately have "length ?f < unat (a_msg_length (decode_acf_message_info ?f)) * 4" by simp
  then have "member_offsets ?f 0 = None"
    unfolding header_octets using \<open>length ?f = 8 + length payload\<close>
    by (subst member_offsets.simps) (simp add: Let_def)
  then have "frame_members ?f = []"
    by (simp add: frame_members_def split_frame_members_def)
  then show ?thesis by (simp add: dispatch_frame_def dispatch_frame_impl_def)
qed

text \<open>
  C11. A request that a client sends over Ethernet is executed by the server and answered to its caller:
  the server behind the transport makes exactly the step that \<open>dispatch_frame\<close> makes for the message,
  with the client's stream; if there is a response, it is sent in one frame, and when that frame is read
  while the call still waits, the call returns the response's payload and its header, as it was put on
  the wire. Otherwise nothing is sent. What other threads of the client do in between does not matter. This
  is for an ACF_ABB or ACF_GBB request with at most 2028 octets of data that the caller has padded to whole
  quadlets, with the length left to the encoder and a bus number of eleven bits, when it and its response fit in
  an Ethernet frame, between addresses of six octets; a request that is not padded is dropped
  (\<open>unpadded_request_dropped\<close>).
\<close>

theorem l2_request_executed:
  assumes "l2_addressed c s" "l2_request False req payload use_tscf ts mts c = (Inr (p, wire), c1)"
    and "padded_entry (request_entry req mts payload)" "a_byte_bus_id req < 0x800"
      "l2_fits use_tscf (request_entry req mts payload)"
    and "dispatch_frame (lc_stream_id c) (encode_entry (request_entry req mts payload)) m = (results, m')"
      "\<forall>r \<in> set results. l2_fits use_tscf (response_entry (fst (fm_response r)) (snd (fm_response r)))"
    and "l2_client_reachable c2" "lc_reading c2" "\<not> lc_closed c2"
      "wt_pending (lc_waiting c2) (request_key req) = Some p"
  shows "\<exists>info answer s'. map fm_response results = [(info, answer)] \<and>
    (if a_rsp info
     then \<exists>reply c3. l2_serve (Some mock_l2_handler) handler [Received False wire] s m = ([reply], s', m') \<and>
       l2_client_read (Received False reply) c2 = Some c3 \<and>
       fst (l2_request_await False p c3) = Some (Inr (en_info (sent_entry (response_entry info answer)), answer))
     else l2_serve (Some mock_l2_handler) handler [Received False wire] s m = ([], s', m'))"
proof -
  let ?rs = "map (\<lambda>m. \<lparr>mr_result = fm_result m, mr_byte_bus_id = fm_byte_bus_id m,
    mr_response = fst (fm_response m), mr_response_payload = snd (fm_response m)\<rparr>) results"
  have run: "mock_l2_handler (l2_client_id c s) (lc_stream_id c) (ucast (lc_seq c + 1))
      (encode_entry (request_entry req mts payload)) m = (?rs, m')"
    using assms(6) by (simp add: mock_l2_handler_def)
  have size: "\<forall>r \<in> set ?rs. l2_fits use_tscf (reply_entry r)"
    using assms(7) by (simp add: reply_entry_def)
  note answered = mock_l2.request_answered
    [OF refl assms(1-5) run size l2_reachable_wf [OF assms(8)] assms(9-11), where handler = handler]
  then obtain r where "?rs = [r]" by (elim exE conjE)
  then obtain x where x: "results = [x]" by auto
  have "\<exists>s'. if a_rsp (fst (fm_response x))
     then \<exists>reply c3. l2_serve (Some mock_l2_handler) handler [Received False wire] s m = ([reply], s', m') \<and>
       l2_client_read (Received False reply) c2 = Some c3 \<and>
       fst (l2_request_await False p c3) =
         Some (Inr (en_info (sent_entry (response_entry (fst (fm_response x)) (snd (fm_response x)))), snd (fm_response x)))
     else l2_serve (Some mock_l2_handler) handler [Received False wire] s m = ([], s', m')"
    using answered unfolding x
    by (cases "a_rsp (fst (fm_response x))") (simp_all add: reply_entry_def del: l2_serve.simps)
  then show ?thesis
    by (intro exI [of _ "fst (fm_response x)"] exI [of _ "snd (fm_response x)"])
       (simp add: x del: l2_serve.simps)
qed

definition sample_l2_client :: l2_client where
  "sample_l2_client = l2_new_client sample_stream [2, 0, 0, 0, 0, 2] [2, 0, 0, 0, 0, 1]"

definition sample_l2_server :: l2_server where
  "sample_l2_server =
     \<lparr>ls_stream_id = sample_stream, ls_local_mac = [2, 0, 0, 0, 0, 2], ls_seq = 0,
      ls_client_ids = (\<lambda>_. None), ls_next_client_id = 0\<rparr>"

theorem l2_request_executed_witness:
  "\<exists>wire c1 reply s' c3 answer.
     l2_request False sample_request [1, 2, 3, 4] False 0 0 sample_l2_client = (Inr (0, wire), c1) \<and>
     l2_serve (Some mock_l2_handler) None [Received False wire] sample_l2_server new_mock = ([reply], s', new_mock) \<and>
     l2_client_read (Received False reply) c1 = Some c3 \<and>
     fst (l2_request_await False 0 c3) = Some (Inr (answer, encode_error_payload InvalidParameter))"
proof -
  obtain wire c1 where start: "l2_request False sample_request [1, 2, 3, 4] False 0 0 sample_l2_client = (Inr (0, wire), c1)"
    "c1 = snd (l2_request False sample_request [1, 2, 3, 4] False 0 0 sample_l2_client)"
    "lc_reading c1" "\<not> lc_closed c1" "wt_pending (lc_waiting c1) (request_key sample_request) = Some 0"
    by (simp add: l2_request_def sample_l2_client_def l2_new_client_def register_request_def no_requests_def request_key_def Let_def)
  have "l2_client_reachable c1"
    unfolding l2_client_reachable_def start(2) sample_l2_client_def by (blast intro: l2_client_step.request)
  moreover have "l2_addressed sample_l2_client sample_l2_server"
    by (simp add: l2_addressed_def sample_l2_client_def l2_new_client_def sample_l2_server_def wf_stream_id_def
        sample_stream_def kMacLen_def)
  moreover have "l2_fits False (request_entry sample_request 0 [1, 2, 3, 4])"
    "\<forall>r \<in> set [sample_result]. l2_fits False (response_entry (fst (fm_response r)) (snd (fm_response r)))"
    using sample_small [of "fst (fm_response sample_result)" InvalidParameter]
    by (simp_all add: l2_fits_def sample_encoded encode_abb_eq frame_capacity_def kEthHeaderLen_def kMacLen_def
        kNtscfHeaderLen_def kMaxFrame_def sample_response)
  moreover have "a_byte_bus_id sample_request < 0x800" by (simp add: sample_request_def)
  moreover obtain hdr where h: "fm_response sample_result = (hdr, encode_error_payload InvalidParameter)" "a_rsp hdr"
    using sample_response by (metis prod.collapse)
  ultimately show ?thesis
    using l2_request_executed [OF _ start(1) sample_padded _ _ sample_dispatched _ _ start(3-5),
        where s = sample_l2_server and m = new_mock and handler = None] start(1)
    by (auto simp: h simp del: l2_serve.simps)
qed

text \<open>
  C12. The same holds over UDP, for an ACF_ABB or ACF_GBB request with at most 2028 octets of data that the caller
  has padded to whole quadlets, with the length left to the encoder and a bus number of eleven bits, when it and
  its response fit in a datagram: the server makes the step of \<open>dispatch_frame\<close> for the message, and the
  response, if there is one, is what the waiting call returns once the datagram is read. A request that is not
  padded is dropped (\<open>unpadded_request_dropped\<close>).
\<close>

theorem udp_request_executed:
  assumes "wf_stream_id (uc_stream_id c)" "wf_stream_id (us_stream_id s)"
    and "udp_request False req payload use_tscf ts mts c = (Inr (p, wire), c1)"
    and "padded_entry (request_entry req mts payload)" "a_byte_bus_id req < 0x800"
      "udp_fits use_tscf (request_entry req mts payload)"
    and "dispatch_frame (uc_stream_id c) (encode_entry (request_entry req mts payload)) m = (results, m')"
      "\<forall>r \<in> set results. udp_fits use_tscf (response_entry (fst (fm_response r)) (snd (fm_response r)))"
    and "udp_client_reachable c2" "uc_reading c2" "\<not> uc_closed c2"
      "wt_pending (uc_waiting c2) (request_key req) = Some p"
  shows "\<exists>info answer s'. map fm_response results = [(info, answer)] \<and>
    (if a_rsp info
     then \<exists>reply c3. udp_serve (Some mock_udp_handler) [Datagram sender wire] s m = ([reply], s', m') \<and>
       udp_client_read (Datagram peer reply) c2 = Some c3 \<and>
       fst (udp_request_await False p c3) = Some (Inr (en_info (sent_entry (response_entry info answer)), answer))
     else udp_serve (Some mock_udp_handler) [Datagram sender wire] s m = ([], s', m'))"
proof -
  have run: "mock_udp_handler (udp_client_id sender s) (uc_stream_id c) (ucast (uc_seq c + 1))
      (encode_entry (request_entry req mts payload)) m = (map fm_response results, m')"
    using assms(7) by (simp add: mock_udp_handler_def)
  have size: "\<forall>(info, payload) \<in> set (map fm_response results). udp_fits use_tscf (response_entry info payload)"
    using assms(8) by (auto simp: split_beta)
  show ?thesis
    by (rule mock_udp.udp_request_answered [OF refl assms(1-6) run size udp_reachable_wf [OF assms(9)] assms(10-12)])
qed

definition sample_udp_server :: udp_server where
  "sample_udp_server =
     \<lparr>us_stream_id = sample_stream, us_seq = 0, us_encap_seq = 0, us_client_ids = (\<lambda>_. None),
      us_next_client_id = 0, us_last_recv_encap_seq = (\<lambda>_. None)\<rparr>"

theorem udp_request_executed_witness:
  "\<exists>wire c1 reply s' c3 answer.
     udp_request False sample_request [1, 2, 3, 4] False 0 0 (udp_new_client sample_stream) = (Inr (0, wire), c1) \<and>
     udp_serve (Some mock_udp_handler) [Datagram ''10.0.0.1:9'' wire] sample_udp_server new_mock = ([reply], s', new_mock) \<and>
     udp_client_read (Datagram '''' reply) c1 = Some c3 \<and>
     fst (udp_request_await False 0 c3) = Some (Inr (answer, encode_error_payload InvalidParameter))"
proof -
  obtain wire c1 where start: "udp_request False sample_request [1, 2, 3, 4] False 0 0 (udp_new_client sample_stream) = (Inr (0, wire), c1)"
    "c1 = snd (udp_request False sample_request [1, 2, 3, 4] False 0 0 (udp_new_client sample_stream))"
    "uc_reading c1" "\<not> uc_closed c1" "wt_pending (uc_waiting c1) (request_key sample_request) = Some 0"
    by (simp add: udp_request_def udp_new_client_def register_request_def no_requests_def request_key_def Let_def)
  have "udp_client_reachable c1"
    unfolding udp_client_reachable_def start(2) by (blast intro: udp_client_step.request)
  moreover have "wf_stream_id sample_stream" "uc_stream_id (udp_new_client sample_stream) = sample_stream"
    "us_stream_id sample_udp_server = sample_stream"
    by (simp_all add: wf_stream_id_def sample_stream_def udp_new_client_def sample_udp_server_def)
  moreover have "udp_fits False (request_entry sample_request 0 [1, 2, 3, 4])"
    "\<forall>r \<in> set [sample_result]. udp_fits False (response_entry (fst (fm_response r)) (snd (fm_response r)))"
    using sample_small [of "fst (fm_response sample_result)" InvalidParameter]
    by (simp_all add: udp_fits_def sample_encoded encode_abb_eq frame_capacity_def kEncapSeqLen_def
        kNtscfHeaderLen_def kMaxDatagram_def sample_response)
  moreover have "a_byte_bus_id sample_request < 0x800" by (simp add: sample_request_def)
  moreover obtain hdr where h: "fm_response sample_result = (hdr, encode_error_payload InvalidParameter)" "a_rsp hdr"
    using sample_response by (metis prod.collapse)
  ultimately show ?thesis
    using udp_request_executed [OF _ _ start(1) sample_padded _ _ sample_dispatched _ _ start(3-5),
        where s = sample_udp_server and m = new_mock and sender = "''10.0.0.1:9''" and peer = "''''"] start(1)
    by (auto simp: h simp del: udp_serve.simps)
qed

text \<open>
  C13. Whatever the threads of a client do, and whatever arrives from the network: the reading thread
  never fulfils a promise twice, which would end the process, and a call of \<open>request()\<close> that returns an
  answer returns one with the bus and the transaction number of its own request.
\<close>

theorem client_answers_match:
  "(l2_client_reachable c \<longrightarrow>
      l2_client_read e c \<noteq> None \<and>
      (wt_calls (lc_waiting c) p = Some (pending_key bus txn) \<longrightarrow>
       fst (l2_request_await timeout p c) = Some (Inr (info, payload)) \<longrightarrow>
       a_byte_bus_id info = bus \<and> a_transaction_num info = txn)) \<and>
   (udp_client_reachable u \<longrightarrow>
      udp_client_read d u \<noteq> None \<and>
      (wt_calls (uc_waiting u) p = Some (pending_key bus txn) \<longrightarrow>
       fst (udp_request_await timeout p u) = Some (Inr (info, payload)) \<longrightarrow>
       a_byte_bus_id info = bus \<and> a_transaction_num info = txn))"
proof -
  have l2: "l2_client_read e c \<noteq> None" if "waiting_wf (lc_waiting c)"
    using complete_no_exception [OF that]
    by (auto simp: l2_client_read_def split: l2_received.split sum.split prod.split)
  have udp: "udp_client_read d u \<noteq> None" if "waiting_wf (uc_waiting u)"
    using complete_no_exception [OF that]
    by (auto simp: udp_client_read_def Let_def split: udp_received.split sum.split prod.split)
  have await: "a_byte_bus_id info = bus \<and> a_transaction_num info = txn"
    if "waiting_wf w" "wt_calls w p = Some (pending_key bus txn)" "fst (await_request timeout p w) = Some (Inr (info, payload))" for w
    using await_matches [OF that(1,2)] that(3) by (metis prod.collapse)
  show ?thesis
    using l2 [OF l2_reachable_wf] udp [OF udp_reachable_wf] await [OF l2_reachable_wf] await [OF udp_reachable_wf]
    by (auto simp: l2_request_await_def udp_request_await_def split: prod.splits)
qed

theorem client_answers_match_witness:
  "l2_client_read (Received False [1, 2]) sample_l2_client \<noteq> None \<and>
   udp_client_read (Datagram '''' [1, 2]) (udp_new_client sample_stream) \<noteq> None"
proof -
  have "l2_client_reachable sample_l2_client" "udp_client_reachable (udp_new_client sample_stream)"
    unfolding l2_client_reachable_def sample_l2_client_def udp_client_reachable_def by blast+
  then show ?thesis
    using client_answers_match [of sample_l2_client "Received False [1, 2]" 0 0 0 False acf_default "[]" "udp_new_client sample_stream"
        "Datagram '''' [1, 2]"] by blast
qed

end
