(* ===== verification/Signals.thy ===== *)
theory Signals
  imports Regmap
begin

text \<open>
  The named signals of \<open>include/rcp/regmap.hpp\<close> that the hardware pin map refers to: their order, their
  names and the numbers they have within their endpoint type; the octets of a pin's configuration.
\<close>

section \<open>Signals\<close>

datatype named_signal =
    Sig_Gpio0 | Sig_Gpio1 | Sig_Gpio2 | Sig_Gpio3 | Sig_Gpio4 | Sig_Gpio5 | Sig_Gpio6 | Sig_Gpio7
  | Sig_Gpio8 | Sig_Gpio9 | Sig_Gpio10 | Sig_Gpio11 | Sig_Gpio12 | Sig_Gpio13 | Sig_Gpio14
  | Sig_Gpio15 | Sig_Gpio16 | Sig_Gpio17 | Sig_Gpio18 | Sig_Gpio19 | Sig_Gpio20 | Sig_Gpio21
  | Sig_Gpio22 | Sig_Gpio23 | Sig_Gpio24 | Sig_Gpio25 | Sig_Gpio26 | Sig_Gpio27 | Sig_Gpio28
  | Sig_Gpio29 | Sig_Gpio30 | Sig_Gpio31 | Sig_SpiClk | Sig_SpiPico | Sig_SpiPoci | Sig_SpiCs0
  | Sig_SpiCs1 | Sig_SpiCs2 | Sig_SpiCs3 | Sig_SpiCs4 | Sig_SpiCs5 | Sig_I2cScl | Sig_I2cSda
  | Sig_UartTx | Sig_UartRx | Sig_UartRts | Sig_UartCts | Sig_LinTxd | Sig_LinRxd | Sig_LinNslp
  | Sig_PwmOut | Sig_PwmOutn | Sig_PwmIn | Sig_AdcIn | Sig_DacOut | Sig_CanRxd | Sig_CanTxd
  | Sig_IseledIspP | Sig_IseledIspN | Sig_MdioMdc | Sig_MdioData | Signal_count

text \<open>\<open>static_cast<uint8_t>\<close> of a signal: its place in the declaration.\<close>

primrec signal_code :: "named_signal \<Rightarrow> u8" where
  "signal_code Sig_Gpio0 = 0"
| "signal_code Sig_Gpio1 = 1"
| "signal_code Sig_Gpio2 = 2"
| "signal_code Sig_Gpio3 = 3"
| "signal_code Sig_Gpio4 = 4"
| "signal_code Sig_Gpio5 = 5"
| "signal_code Sig_Gpio6 = 6"
| "signal_code Sig_Gpio7 = 7"
| "signal_code Sig_Gpio8 = 8"
| "signal_code Sig_Gpio9 = 9"
| "signal_code Sig_Gpio10 = 10"
| "signal_code Sig_Gpio11 = 11"
| "signal_code Sig_Gpio12 = 12"
| "signal_code Sig_Gpio13 = 13"
| "signal_code Sig_Gpio14 = 14"
| "signal_code Sig_Gpio15 = 15"
| "signal_code Sig_Gpio16 = 16"
| "signal_code Sig_Gpio17 = 17"
| "signal_code Sig_Gpio18 = 18"
| "signal_code Sig_Gpio19 = 19"
| "signal_code Sig_Gpio20 = 20"
| "signal_code Sig_Gpio21 = 21"
| "signal_code Sig_Gpio22 = 22"
| "signal_code Sig_Gpio23 = 23"
| "signal_code Sig_Gpio24 = 24"
| "signal_code Sig_Gpio25 = 25"
| "signal_code Sig_Gpio26 = 26"
| "signal_code Sig_Gpio27 = 27"
| "signal_code Sig_Gpio28 = 28"
| "signal_code Sig_Gpio29 = 29"
| "signal_code Sig_Gpio30 = 30"
| "signal_code Sig_Gpio31 = 31"
| "signal_code Sig_SpiClk = 32"
| "signal_code Sig_SpiPico = 33"
| "signal_code Sig_SpiPoci = 34"
| "signal_code Sig_SpiCs0 = 35"
| "signal_code Sig_SpiCs1 = 36"
| "signal_code Sig_SpiCs2 = 37"
| "signal_code Sig_SpiCs3 = 38"
| "signal_code Sig_SpiCs4 = 39"
| "signal_code Sig_SpiCs5 = 40"
| "signal_code Sig_I2cScl = 41"
| "signal_code Sig_I2cSda = 42"
| "signal_code Sig_UartTx = 43"
| "signal_code Sig_UartRx = 44"
| "signal_code Sig_UartRts = 45"
| "signal_code Sig_UartCts = 46"
| "signal_code Sig_LinTxd = 47"
| "signal_code Sig_LinRxd = 48"
| "signal_code Sig_LinNslp = 49"
| "signal_code Sig_PwmOut = 50"
| "signal_code Sig_PwmOutn = 51"
| "signal_code Sig_PwmIn = 52"
| "signal_code Sig_AdcIn = 53"
| "signal_code Sig_DacOut = 54"
| "signal_code Sig_CanRxd = 55"
| "signal_code Sig_CanTxd = 56"
| "signal_code Sig_IseledIspP = 57"
| "signal_code Sig_IseledIspN = 58"
| "signal_code Sig_MdioMdc = 59"
| "signal_code Sig_MdioData = 60"
| "signal_code Signal_count = 61"

primrec named_signal_string :: "named_signal \<Rightarrow> string" where
  "named_signal_string Sig_Gpio0 = ''GPIO0''"
| "named_signal_string Sig_Gpio1 = ''GPIO1''"
| "named_signal_string Sig_Gpio2 = ''GPIO2''"
| "named_signal_string Sig_Gpio3 = ''GPIO3''"
| "named_signal_string Sig_Gpio4 = ''GPIO4''"
| "named_signal_string Sig_Gpio5 = ''GPIO5''"
| "named_signal_string Sig_Gpio6 = ''GPIO6''"
| "named_signal_string Sig_Gpio7 = ''GPIO7''"
| "named_signal_string Sig_Gpio8 = ''GPIO8''"
| "named_signal_string Sig_Gpio9 = ''GPIO9''"
| "named_signal_string Sig_Gpio10 = ''GPIO10''"
| "named_signal_string Sig_Gpio11 = ''GPIO11''"
| "named_signal_string Sig_Gpio12 = ''GPIO12''"
| "named_signal_string Sig_Gpio13 = ''GPIO13''"
| "named_signal_string Sig_Gpio14 = ''GPIO14''"
| "named_signal_string Sig_Gpio15 = ''GPIO15''"
| "named_signal_string Sig_Gpio16 = ''GPIO16''"
| "named_signal_string Sig_Gpio17 = ''GPIO17''"
| "named_signal_string Sig_Gpio18 = ''GPIO18''"
| "named_signal_string Sig_Gpio19 = ''GPIO19''"
| "named_signal_string Sig_Gpio20 = ''GPIO20''"
| "named_signal_string Sig_Gpio21 = ''GPIO21''"
| "named_signal_string Sig_Gpio22 = ''GPIO22''"
| "named_signal_string Sig_Gpio23 = ''GPIO23''"
| "named_signal_string Sig_Gpio24 = ''GPIO24''"
| "named_signal_string Sig_Gpio25 = ''GPIO25''"
| "named_signal_string Sig_Gpio26 = ''GPIO26''"
| "named_signal_string Sig_Gpio27 = ''GPIO27''"
| "named_signal_string Sig_Gpio28 = ''GPIO28''"
| "named_signal_string Sig_Gpio29 = ''GPIO29''"
| "named_signal_string Sig_Gpio30 = ''GPIO30''"
| "named_signal_string Sig_Gpio31 = ''GPIO31''"
| "named_signal_string Sig_SpiClk = ''SPI_CLK''"
| "named_signal_string Sig_SpiPico = ''SPI_PICO''"
| "named_signal_string Sig_SpiPoci = ''SPI_POCI''"
| "named_signal_string Sig_SpiCs0 = ''SPI_CS0''"
| "named_signal_string Sig_SpiCs1 = ''SPI_CS1''"
| "named_signal_string Sig_SpiCs2 = ''SPI_CS2''"
| "named_signal_string Sig_SpiCs3 = ''SPI_CS3''"
| "named_signal_string Sig_SpiCs4 = ''SPI_CS4''"
| "named_signal_string Sig_SpiCs5 = ''SPI_CS5''"
| "named_signal_string Sig_I2cScl = ''I2C_SCL''"
| "named_signal_string Sig_I2cSda = ''I2C_SDA''"
| "named_signal_string Sig_UartTx = ''UART_TX''"
| "named_signal_string Sig_UartRx = ''UART_RX''"
| "named_signal_string Sig_UartRts = ''UART_RTS''"
| "named_signal_string Sig_UartCts = ''UART_CTS''"
| "named_signal_string Sig_LinTxd = ''LIN_TXD''"
| "named_signal_string Sig_LinRxd = ''LIN_RXD''"
| "named_signal_string Sig_LinNslp = ''LIN_NSLP''"
| "named_signal_string Sig_PwmOut = ''PWM_OUT''"
| "named_signal_string Sig_PwmOutn = ''PWM_OUTN''"
| "named_signal_string Sig_PwmIn = ''PWM_IN''"
| "named_signal_string Sig_AdcIn = ''ADC_IN''"
| "named_signal_string Sig_DacOut = ''DAC_OUT''"
| "named_signal_string Sig_CanRxd = ''CAN_RXD''"
| "named_signal_string Sig_CanTxd = ''CAN_TXD''"
| "named_signal_string Sig_IseledIspP = ''ISELED_ISP_P''"
| "named_signal_string Sig_IseledIspN = ''ISELED_ISP_N''"
| "named_signal_string Sig_MdioMdc = ''MDIO_MDC''"
| "named_signal_string Sig_MdioData = ''MDIO_DATA''"
| "named_signal_string Signal_count = ''unknown''"

definition named_signal_ep_signal_nr :: "named_signal \<Rightarrow> u8" where
  "named_signal_ep_signal_nr sig =
     (let raw = signal_code sig in
      if raw \<le> signal_code Sig_Gpio31 then raw
      else if raw \<le> signal_code Sig_SpiCs5 then raw - signal_code Sig_SpiClk
      else if raw \<le> signal_code Sig_I2cSda then raw - signal_code Sig_I2cScl
      else if raw \<le> signal_code Sig_UartCts then raw - signal_code Sig_UartTx
      else if raw \<le> signal_code Sig_LinNslp then raw - signal_code Sig_LinTxd
      else if raw \<le> signal_code Sig_PwmOutn then raw - signal_code Sig_PwmOut
      else if sig = Sig_PwmIn then 0
      else if sig = Sig_AdcIn then 0
      else if sig = Sig_DacOut then 0
      else if raw \<le> signal_code Sig_CanTxd then raw - signal_code Sig_CanRxd
      else if raw \<le> signal_code Sig_IseledIspN then raw - signal_code Sig_IseledIspP
      else if raw \<le> signal_code Sig_MdioData then raw - signal_code Sig_MdioMdc
      else 0)"

text \<open>The signals by the endpoint type they belong to, in the order of their numbers.\<close>

definition signal_groups :: "named_signal list list" where
  "signal_groups =
     [[Sig_Gpio0, Sig_Gpio1, Sig_Gpio2, Sig_Gpio3, Sig_Gpio4, Sig_Gpio5, Sig_Gpio6,
       Sig_Gpio7, Sig_Gpio8, Sig_Gpio9, Sig_Gpio10, Sig_Gpio11, Sig_Gpio12, Sig_Gpio13,
       Sig_Gpio14, Sig_Gpio15, Sig_Gpio16, Sig_Gpio17, Sig_Gpio18, Sig_Gpio19,
       Sig_Gpio20, Sig_Gpio21, Sig_Gpio22, Sig_Gpio23, Sig_Gpio24, Sig_Gpio25,
       Sig_Gpio26, Sig_Gpio27, Sig_Gpio28, Sig_Gpio29, Sig_Gpio30, Sig_Gpio31],
      [Sig_SpiClk, Sig_SpiPico, Sig_SpiPoci, Sig_SpiCs0, Sig_SpiCs1, Sig_SpiCs2,
       Sig_SpiCs3, Sig_SpiCs4, Sig_SpiCs5],
      [Sig_I2cScl, Sig_I2cSda],
      [Sig_UartTx, Sig_UartRx, Sig_UartRts, Sig_UartCts],
      [Sig_LinTxd, Sig_LinRxd, Sig_LinNslp],
      [Sig_PwmOut, Sig_PwmOutn],
      [Sig_PwmIn],
      [Sig_AdcIn],
      [Sig_DacOut],
      [Sig_CanRxd, Sig_CanTxd],
      [Sig_IseledIspP, Sig_IseledIspN],
      [Sig_MdioMdc, Sig_MdioData]]"

text \<open>
  Within its endpoint type each signal has its place in the group as its number, and no two signals have
  the same name or the same code.
\<close>

lemma signal_numbers_exact:
  "map (map (unat \<circ> named_signal_ep_signal_nr)) signal_groups = map (\<lambda>g. [0..<length g]) signal_groups"
  by code_simp

lemma signal_names_distinct: "distinct (map named_signal_string (concat signal_groups))"
  by code_simp

lemma signal_codes_exact: "map (unat \<circ> signal_code) (concat signal_groups @ [Signal_count]) = [0..<62]"
  by code_simp

lemma signals_complete: "sig = Signal_count \<or> sig \<in> set (concat signal_groups)"
  by (cases sig) (simp_all add: signal_groups_def)

section \<open>Small definitions of the register map\<close>

definition is_ep0 :: "u16 \<Rightarrow> bool" where
  "is_ep0 ep_index \<longleftrightarrow> ep_index = kEp0"

record ep_functional_cfg =
  ef_enable :: bool
  ef_clear_req_storage :: bool
  ef_req_crc_enable :: bool
  ef_response_ts_enable :: bool
  ef_suppress_response :: bool

text \<open>The fields of the octet that configures a pin: pull, stage, drive strength and Schmitt trigger.\<close>

definition kPullMask :: u8 where "kPullMask = 0x3"
definition kPullFloat :: u8 where "kPullFloat = 0x0"
definition kPullDown :: u8 where "kPullDown = 0x1"
definition kPullUp :: u8 where "kPullUp = 0x2"
definition kStageMask :: u8 where "kStageMask = 0xC"
definition kStageInput :: u8 where "kStageInput = 0x0"
definition kStageOpenDrain :: u8 where "kStageOpenDrain = 0x4"
definition kStageOpenSource :: u8 where "kStageOpenSource = 0x8"
definition kStagePushPull :: u8 where "kStagePushPull = 0xC"
definition kDriveMask :: u8 where "kDriveMask = 0x30"
definition kDriveInput :: u8 where "kDriveInput = 0x00"
definition kDriveLow :: u8 where "kDriveLow = 0x10"
definition kDriveMedium :: u8 where "kDriveMedium = 0x20"
definition kDriveHigh :: u8 where "kDriveHigh = 0x30"
definition kSchmittTrigger :: u8 where "kSchmittTrigger = 0x80"

lemmas pin_fields = kPullMask_def kPullFloat_def kPullDown_def kPullUp_def kStageMask_def kStageInput_def
  kStageOpenDrain_def kStageOpenSource_def kStagePushPull_def kDriveMask_def kDriveInput_def kDriveLow_def
  kDriveMedium_def kDriveHigh_def kSchmittTrigger_def

text \<open>The fields do not overlap, and every value of a field lies in its mask.\<close>

lemma pin_fields_disjoint:
  "kPullMask AND kStageMask = 0" "(kPullMask OR kStageMask) AND kDriveMask = 0"
  "(kPullMask OR kStageMask OR kDriveMask) AND kSchmittTrigger = 0"
  "\<forall>v \<in> {kPullFloat, kPullDown, kPullUp}. v AND kPullMask = v"
  "\<forall>v \<in> {kStageInput, kStageOpenDrain, kStageOpenSource, kStagePushPull}. v AND kStageMask = v"
  "\<forall>v \<in> {kDriveInput, kDriveLow, kDriveMedium, kDriveHigh}. v AND kDriveMask = v"
  by (simp_all add: pin_fields)

end
