(* ===== verification/Shmem.thy ===== *)
theory Shmem
  imports Transport
begin

text \<open>
  The in-process channel, \<open>include/rcp/shmem.hpp\<close>: a fixed number of slots, each of which holds the
  encoded message of one call; the channel, whose calls run in several threads; and the registry of
  channels. A channel is an object behind shared pointers, so the registry holds references to it.
\<close>

section \<open>Messages in a slot\<close>

definition encode_acf_message :: "acf_info \<Rightarrow> octets \<Rightarrow> octets" where
  "encode_acf_message info payload =
     (if a_msg_type info = kAcfMsgTypeGbb then encode_acf_gbb info 0 payload else encode_acf_abb info payload)"

definition decode_acf_message :: "octets \<Rightarrow> (acf_info \<times> octets) result" where
  "decode_acf_message bytes =
     (if bytes = [] then Inl (Avtp_err Short_buffer)
      else if peek_acf_msg_type bytes = kAcfMsgTypeGbb then
        (case decode_acf_gbb bytes of Inl e \<Rightarrow> Inl e | Inr (info, ts, payload) \<Rightarrow> Inr (info, payload))
      else decode_acf_abb bytes)"

text \<open>A message comes back with its fields cut to their width and its length filled in.\<close>

definition through_slot :: "acf_info \<Rightarrow> octets \<Rightarrow> acf_info" where
  "through_slot info payload = en_info (sent_entry \<lparr>en_info = info, en_timestamp = 0, en_payload = payload\<rparr>)"

lemma decode_encode_acf_message: "decode_acf_message (encode_acf_message info payload) = Inr (through_slot info payload, payload)"
proof (cases "a_msg_type info = kAcfMsgTypeGbb")
  case True
  then have "peek_acf_msg_type (encode_acf_gbb info 0 payload) = kAcfMsgTypeGbb" "encode_acf_gbb info 0 payload \<noteq> []"
    by (simp_all add: encode_gbb_eq gbb_header_def wire_defs)
  then show ?thesis
    using True by (simp add: decode_acf_message_def encode_acf_message_def decode_encode_gbb through_slot_def sent_entry_def)
next
  case False
  then have "peek_acf_msg_type (encode_acf_abb info payload) = kAcfMsgTypeAbb" "encode_acf_abb info payload \<noteq> []"
    by (simp_all add: encode_abb_eq abb_header_def wire_defs)
  then show ?thesis
    using False gbb_is_not_abb
    by (simp add: decode_acf_message_def encode_acf_message_def decode_encode_abb through_slot_def sent_entry_def)
qed

section \<open>Slots\<close>

definition kMaxQueueCapacity :: nat where "kMaxQueueCapacity = 32"

definition kDefaultQueueCapacity :: nat where "kDefaultQueueCapacity = 8"

record frame_slots =
  sl_slots :: "octets list"
  sl_occupied :: "bool list"
  sl_logical_capacity :: nat

definition new_slots :: frame_slots where
  "new_slots =
     \<lparr>sl_slots = replicate kMaxQueueCapacity [], sl_occupied = replicate kMaxQueueCapacity False,
      sl_logical_capacity = kMaxQueueCapacity\<rparr>"

definition set_logical_capacity :: "nat \<Rightarrow> frame_slots \<Rightarrow> frame_slots" where
  "set_logical_capacity n s =
     s\<lparr>sl_logical_capacity := (if n < 1 then 1 else if kMaxQueueCapacity < n then kMaxQueueCapacity else n)\<rparr>"

text \<open>\<open>None\<close> is \<open>npos\<close>.\<close>

definition acquire :: "octets \<Rightarrow> frame_slots \<Rightarrow> nat option \<times> frame_slots" where
  "acquire frame s =
     (case find (\<lambda>i. \<not> sl_occupied s ! i) [0..<sl_logical_capacity s] of
        None \<Rightarrow> (None, s)
      | Some i \<Rightarrow>
          (Some i, s\<lparr>sl_slots := (sl_slots s)[i := frame], sl_occupied := (sl_occupied s)[i := True]\<rparr>))"

definition slot_at :: "nat \<Rightarrow> frame_slots \<Rightarrow> octets" where
  "slot_at index s = sl_slots s ! index"

definition store_slot :: "nat \<Rightarrow> octets \<Rightarrow> frame_slots \<Rightarrow> frame_slots" where
  "store_slot index frame s = s\<lparr>sl_slots := (sl_slots s)[index := frame]\<rparr>"

definition release_slot :: "nat \<Rightarrow> frame_slots \<Rightarrow> frame_slots" where
  "release_slot index s =
     s\<lparr>sl_slots := (sl_slots s)[index := []], sl_occupied := (sl_occupied s)[index := False]\<rparr>"

definition occupied_count :: "frame_slots \<Rightarrow> nat" where
  "occupied_count s = length (filter (\<lambda>i. sl_occupied s ! i) [0..<sl_logical_capacity s])"

section \<open>A channel\<close>

record shm_channel =
  sc_stream_key :: u64
  sc_closed :: bool
  sc_slots :: frame_slots

definition new_shm_channel :: "u64 \<Rightarrow> nat \<Rightarrow> shm_channel" where
  "new_shm_channel stream_key queue_capacity =
     \<lparr>sc_stream_key = stream_key, sc_closed = False, sc_slots = set_logical_capacity queue_capacity new_slots\<rparr>"

definition queue_capacity :: "shm_channel \<Rightarrow> nat" where
  "queue_capacity ch = sl_logical_capacity (sc_slots ch)"

definition queue_depth :: "shm_channel \<Rightarrow> nat" where
  "queue_depth ch = occupied_count (sc_slots ch)"

datatype 'e shm_error = Shm_closed | Shm_busy | Shm_codec error | Shm_handler 'e

text \<open>
  \<open>request()\<close> in its parts, between which other threads run: it takes a slot, it reads its request back,
  it calls the handler with no lock held, it stores the response, and on every way out the slot guard
  releases the slot.
\<close>

definition shm_begin :: "acf_info \<Rightarrow> octets \<Rightarrow> shm_channel \<Rightarrow> ('e shm_error + nat) \<times> shm_channel" where
  "shm_begin req req_payload ch =
     (if sc_closed ch then (Inl Shm_closed, ch)
      else
        (case acquire (encode_acf_message req req_payload) (sc_slots ch) of
           (None, s) \<Rightarrow> (Inl Shm_busy, ch\<lparr>sc_slots := s\<rparr>)
         | (Some slot, s) \<Rightarrow> (Inr slot, ch\<lparr>sc_slots := s\<rparr>)))"

definition shm_read_back :: "nat \<Rightarrow> shm_channel \<Rightarrow> (acf_info \<times> octets) result" where
  "shm_read_back slot ch = decode_acf_message (slot_at slot (sc_slots ch))"

type_synonym ('e, 'w) shm_handler = "nat \<Rightarrow> acf_info \<Rightarrow> octets \<Rightarrow> 'w \<Rightarrow> ('e option \<times> acf_info \<times> octets) \<times> 'w"

definition shm_call_handler ::
    "('e, 'w) shm_handler option \<Rightarrow> nat \<Rightarrow> acf_info \<Rightarrow> octets \<Rightarrow> 'w \<Rightarrow> ('e option \<times> acf_info \<times> octets) \<times> 'w" where
  "shm_call_handler handler client req payload w =
     (case handler of
        Some handle \<Rightarrow> handle client req payload w
      | None \<Rightarrow> ((None, make_response req Acknowledge, []), w))"

definition shm_respond :: "nat \<Rightarrow> acf_info \<Rightarrow> octets \<Rightarrow> shm_channel \<Rightarrow> (acf_info \<times> octets) result \<times> shm_channel" where
  "shm_respond slot info payload ch =
     (let resp_bytes = encode_acf_message info payload in
      (decode_acf_message resp_bytes, ch\<lparr>sc_slots := store_slot slot resp_bytes (sc_slots ch)\<rparr>))"

definition shm_end :: "nat \<Rightarrow> shm_channel \<Rightarrow> shm_channel" where
  "shm_end slot ch = ch\<lparr>sc_slots := release_slot slot (sc_slots ch)\<rparr>"

text \<open>The whole call, when no other thread interferes.\<close>

definition shm_request ::
    "('e, 'w) shm_handler option \<Rightarrow> nat \<Rightarrow> acf_info \<Rightarrow> octets \<Rightarrow> shm_channel \<Rightarrow> 'w \<Rightarrow>
       ('e shm_error + acf_info \<times> octets) \<times> shm_channel \<times> 'w" where
  "shm_request handler client req req_payload ch w =
     (case shm_begin req req_payload ch of
        (Inl e, ch) \<Rightarrow> (Inl e, ch, w)
      | (Inr slot, ch) \<Rightarrow>
          (case shm_read_back slot ch of
             Inl e \<Rightarrow> (Inl (Shm_codec e), shm_end slot ch, w)
           | Inr (decoded_req, decoded_payload) \<Rightarrow>
               (case shm_call_handler handler client decoded_req decoded_payload w of
                  ((Some ec, _), w) \<Rightarrow> (Inl (Shm_handler ec), shm_end slot ch, w)
                | ((None, info, payload), w) \<Rightarrow>
                    (case shm_respond slot info payload ch of
                       (Inl e, ch) \<Rightarrow> (Inl (Shm_codec e), shm_end slot ch, w)
                     | (Inr resp, ch) \<Rightarrow> (Inr resp, shm_end slot ch, w)))))"

definition shm_close :: "shm_channel \<Rightarrow> shm_channel" where
  "shm_close ch = ch\<lparr>sc_closed := True\<rparr>"

section \<open>Slots of running calls\<close>

text \<open>The shape of the slots: what the capacity allows, and nothing is occupied beyond it.\<close>

definition wf_slots :: "frame_slots \<Rightarrow> bool" where
  "wf_slots s \<longleftrightarrow>
     length (sl_slots s) = kMaxQueueCapacity \<and> length (sl_occupied s) = kMaxQueueCapacity \<and>
     0 < sl_logical_capacity s \<and> sl_logical_capacity s \<le> kMaxQueueCapacity \<and>
     (\<forall>i. i < kMaxQueueCapacity \<longrightarrow> sl_occupied s ! i \<longrightarrow> i < sl_logical_capacity s)"

definition occupied :: "frame_slots \<Rightarrow> nat set" where
  "occupied s = {i. i < kMaxQueueCapacity \<and> sl_occupied s ! i}"

lemma new_slots_wf [simp]: "wf_slots (set_logical_capacity n new_slots)" "occupied (set_logical_capacity n new_slots) = {}"
  by (auto simp: wf_slots_def new_slots_def set_logical_capacity_def occupied_def kMaxQueueCapacity_def)

lemma nth_update_at: "j < length xs \<Longrightarrow> xs[i := y] ! j = (if i = j then y else xs ! j)"
  by auto

lemma acquire_None:
  assumes "wf_slots s"
  shows "fst (acquire frame s) = None \<longleftrightarrow> occupied s = {..<sl_logical_capacity s}"
proof (cases "find (\<lambda>i. \<not> sl_occupied s ! i) [0..<sl_logical_capacity s]")
  case None
  then have "\<forall>x < sl_logical_capacity s. sl_occupied s ! x" by (auto simp: find_None_iff)
  then show ?thesis
    using None assms by (auto simp: acquire_def wf_slots_def occupied_def)
next
  case (Some i)
  then have "i < sl_logical_capacity s" "i \<notin> occupied s"
    by (auto simp: find_Some_iff occupied_def)
  then show ?thesis using Some by (auto simp: acquire_def)
qed

lemma acquire_Some:
  assumes "wf_slots s" "acquire frame s = (Some i, s')"
  shows "i \<notin> occupied s" "occupied s' = insert i (occupied s)" "slot_at i s' = frame" "i < sl_logical_capacity s"
    "j \<noteq> i \<Longrightarrow> slot_at j s' = slot_at j s" "wf_slots s'" "sl_logical_capacity s' = sl_logical_capacity s"
  using assms
  by (auto simp: acquire_def wf_slots_def occupied_def slot_at_def find_Some_iff nth_update_at split: option.splits if_splits)

lemma release_frees:
  assumes "wf_slots s"
  shows "occupied (release_slot i s) = occupied s - {i}" "wf_slots (release_slot i s)"
    "j \<noteq> i \<Longrightarrow> slot_at j (release_slot i s) = slot_at j s" "sl_logical_capacity (release_slot i s) = sl_logical_capacity s"
  using assms by (auto simp: release_slot_def wf_slots_def occupied_def slot_at_def nth_update_at split: if_splits)

lemma store_keeps:
  assumes "wf_slots s"
  shows "occupied (store_slot i frame s) = occupied s" "wf_slots (store_slot i frame s)"
    "j \<noteq> i \<Longrightarrow> slot_at j (store_slot i frame s) = slot_at j s" "sl_logical_capacity (store_slot i frame s) = sl_logical_capacity s"
  using assms by (auto simp: store_slot_def wf_slots_def occupied_def slot_at_def)

text \<open>
  The threads of a channel: \<open>calls\<close> lists, for each call that runs, its slot and the request it was
  made with, until it stores its response.
\<close>

inductive shm_step :: "shm_channel \<times> (nat \<times> (acf_info \<times> octets) option) list \<Rightarrow>
    shm_channel \<times> (nat \<times> (acf_info \<times> octets) option) list \<Rightarrow> bool" where
  start: "shm_begin req payload ch = (Inr slot :: unit shm_error + nat, ch') \<Longrightarrow>
    shm_step (ch, calls) (ch', (slot, Some (req, payload)) # calls)"
| refused: "shm_begin req payload ch = (Inl e :: unit shm_error + nat, ch') \<Longrightarrow> shm_step (ch, calls) (ch', calls)"
| respond: "shm_step (ch, before @ (slot, req) # after)
    (snd (shm_respond slot info payload ch), before @ (slot, None) # after)"
| finish: "shm_step (ch, before @ (slot, req) # after) (shm_end slot ch, before @ after)"
| close: "shm_step (ch, calls) (shm_close ch, calls)"

definition shm_inv :: "shm_channel \<times> (nat \<times> (acf_info \<times> octets) option) list \<Rightarrow> bool" where
  "shm_inv x \<longleftrightarrow>
     (case x of (ch, calls) \<Rightarrow>
        wf_slots (sc_slots ch) \<and> distinct (map fst calls) \<and> set (map fst calls) = occupied (sc_slots ch) \<and>
        (\<forall>slot req payload. (slot, Some (req, payload)) \<in> set calls \<longrightarrow>
           slot_at slot (sc_slots ch) = encode_acf_message req payload))"

lemma shm_begin_cases:
  "shm_begin req payload ch = (Inr slot, ch') \<Longrightarrow>
     \<exists>s. acquire (encode_acf_message req payload) (sc_slots ch) = (Some slot, s) \<and> ch' = ch\<lparr>sc_slots := s\<rparr> \<and> \<not> sc_closed ch"
  "shm_begin req payload ch = (Inl e, ch') \<Longrightarrow> ch' = ch"
  by (auto simp: shm_begin_def acquire_def split: if_splits prod.splits option.splits)

lemma shm_step_inv:
  assumes "shm_step x y" "shm_inv x"
  shows "shm_inv y"
  using assms
proof (induction rule: shm_step.induct)
  case (start req payload ch slot ch' calls)
  then obtain s where s: "acquire (encode_acf_message req payload) (sc_slots ch) = (Some slot, s)" "ch' = ch\<lparr>sc_slots := s\<rparr>"
    using shm_begin_cases(1) by blast
  have wf: "wf_slots (sc_slots ch)" using start.prems by (simp add: shm_inv_def)
  note a = acquire_Some [OF wf s(1)]
  have "slot \<notin> set (map fst calls)" using a(1) start.prems by (simp add: shm_inv_def)
  then show ?case
    using start.prems a s(2) by (auto simp: shm_inv_def image_iff)
next
  case (refused req payload ch e ch' calls)
  then show ?case using shm_begin_cases(2) by metis
next
  case (respond ch before slot req after info payload)
  then have wf: "wf_slots (sc_slots ch)" by (simp add: shm_inv_def)
  show ?case
    using respond store_keeps [OF wf, where i = slot and frame = "encode_acf_message info payload"]
    by (auto simp: shm_inv_def shm_respond_def Let_def) (metis fst_conv image_eqI)+
next
  case (finish ch before slot req after)
  then have wf: "wf_slots (sc_slots ch)" by (simp add: shm_inv_def)
  show ?case
    using finish release_frees [OF wf, where i = slot]
    by (auto simp: shm_inv_def shm_end_def) (metis fst_conv image_eqI)+
qed (simp add: shm_inv_def shm_close_def)

lemma shm_reachable_inv: "shm_step\<^sup>*\<^sup>* (new_shm_channel key capacity, []) x \<Longrightarrow> shm_inv x"
proof (induction rule: rtranclp_induct)
  case base
  then show ?case by (simp add: shm_inv_def new_shm_channel_def)
next
  case (step y z)
  then show ?case using shm_step_inv by blast
qed

lemma occupied_count_card: "wf_slots s \<Longrightarrow> occupied_count s = card (occupied s)"
proof -
  assume wf: "wf_slots s"
  then have "occupied s = set (filter (\<lambda>i. sl_occupied s ! i) [0..<sl_logical_capacity s])"
    by (auto simp: occupied_def wf_slots_def)
  then show ?thesis
    by (simp only: occupied_count_def distinct_card [OF distinct_filter [OF distinct_upt]])
qed

lemma occupied_bound: "wf_slots s \<Longrightarrow> occupied s \<subseteq> {..<sl_logical_capacity s}"
  by (auto simp: occupied_def wf_slots_def)

text \<open>
  Whatever calls run at the same time: each has a slot of its own, as many slots are occupied as calls
  run, never more than the capacity; each call finds its own request in its slot until it stores the
  response; and a new call is refused as busy exactly when all slots of an open channel are taken.
\<close>

theorem channel_calls_separate:
  assumes "shm_step\<^sup>*\<^sup>* (new_shm_channel key capacity, []) (ch, calls)"
  shows "distinct (map fst calls) \<and> queue_depth ch = length calls \<and> length calls \<le> queue_capacity ch \<and>
    (\<forall>slot req payload. (slot, Some (req, payload)) \<in> set calls \<longrightarrow>
       shm_read_back slot ch = Inr (through_slot req payload, payload)) \<and>
    (fst (shm_begin req payload ch) = (Inl Shm_busy :: 'e shm_error + nat) \<longleftrightarrow>
       \<not> sc_closed ch \<and> length calls = queue_capacity ch)"
proof -
  have inv: "wf_slots (sc_slots ch)" "distinct (map fst calls)" "set (map fst calls) = occupied (sc_slots ch)"
    "\<And>slot req payload. (slot, Some (req, payload)) \<in> set calls \<Longrightarrow> slot_at slot (sc_slots ch) = encode_acf_message req payload"
    using shm_reachable_inv [OF assms] by (auto simp: shm_inv_def)
  have n: "card (occupied (sc_slots ch)) = length calls"
    using inv(2,3) distinct_card [of "map fst calls"] by simp
  have le: "length calls \<le> queue_capacity ch"
    using card_mono [OF _ occupied_bound [OF inv(1)]] n by (simp add: queue_capacity_def)
  have full: "occupied (sc_slots ch) = {..<sl_logical_capacity (sc_slots ch)} \<longleftrightarrow> length calls = queue_capacity ch"
    using card_subset_eq [OF finite_lessThan occupied_bound [OF inv(1)]] n unfolding queue_capacity_def
    by (metis card_lessThan)
  have "fst (shm_begin req payload ch) = (Inl Shm_busy :: 'e shm_error + nat) \<longleftrightarrow> \<not> sc_closed ch \<and> length calls = queue_capacity ch"
  proof -
    have "fst (shm_begin req payload ch) = (Inl Shm_busy :: 'e shm_error + nat) \<longleftrightarrow>
        \<not> sc_closed ch \<and> fst (acquire (encode_acf_message req payload) (sc_slots ch)) = None"
      by (simp add: shm_begin_def split: prod.split option.split)
    then show ?thesis by (simp only: acquire_None [OF inv(1)] full)
  qed
  then show ?thesis
    using inv n le by (simp add: queue_depth_def occupied_count_card shm_read_back_def decode_encode_acf_message)
qed

theorem channel_calls_separate_witness:
  "fst (shm_begin acf_default []
     (snd (shm_begin acf_default [7] (new_shm_channel 1 1) :: (unit shm_error + nat) \<times> shm_channel)))
   = (Inl Shm_busy :: unit shm_error + nat)"
proof -
  let ?ch = "new_shm_channel 1 1"
  obtain slot ch' where b: "shm_begin acf_default [7] ?ch = (Inr slot :: unit shm_error + nat, ch')" "queue_capacity ch' = 1" "\<not> sc_closed ch'"
    by (simp add: shm_begin_def acquire_def new_shm_channel_def set_logical_capacity_def new_slots_def kMaxQueueCapacity_def
        queue_capacity_def)
  from b(1) have "shm_step (?ch, []) (ch', [(slot, Some (acf_default, [7]))])" by (rule shm_step.start)
  then have "shm_step\<^sup>*\<^sup>* (?ch, []) (ch', [(slot, Some (acf_default, [7]))])" by blast
  then show ?thesis
    using channel_calls_separate [where 'e = unit, of 1 1 ch' "[(slot, Some (acf_default, [7]))]" acf_default "[]"] b by simp
qed

text \<open>A call that runs alone gives the handler its request, and the caller the handler's response.\<close>

lemma shm_request_alone:
  assumes "wf_slots (sc_slots ch)" "\<not> sc_closed ch" "occupied (sc_slots ch) \<noteq> {..<sl_logical_capacity (sc_slots ch)}"
  shows "\<exists>ch'. shm_request handler client req payload ch w =
    (case shm_call_handler handler client (through_slot req payload) payload w of
       ((Some ec, _), w') \<Rightarrow> (Inl (Shm_handler ec), ch', w')
     | ((None, info, answer), w') \<Rightarrow> (Inr (through_slot info answer, answer), ch', w')) \<and>
    occupied (sc_slots ch') = occupied (sc_slots ch) \<and> wf_slots (sc_slots ch')"
proof -
  obtain slot s where a: "acquire (encode_acf_message req payload) (sc_slots ch) = (Some slot, s)"
    using acquire_None [OF assms(1), of "encode_acf_message req payload"] assms(3)
    by (cases "acquire (encode_acf_message req payload) (sc_slots ch)") auto
  note at = acquire_Some [OF assms(1) a]
  note rel = release_frees [OF at(6), of slot]
  obtain ec info answer w' where run:
    "shm_call_handler handler client (through_slot req payload) payload w = ((ec, info, answer), w')"
    by (metis surj_pair)
  note st = store_keeps [OF at(6), where i = slot and frame = "encode_acf_message info answer"]
  have started: "shm_begin req payload ch = (Inr slot, ch\<lparr>sc_slots := s\<rparr>)"
    using assms(2) a by (simp add: shm_begin_def)
  have "shm_read_back slot (ch\<lparr>sc_slots := s\<rparr>) = Inr (through_slot req payload, payload)"
    using at(3) by (simp add: shm_read_back_def decode_encode_acf_message)
  moreover have "shm_respond slot info answer (ch\<lparr>sc_slots := s\<rparr>) =
      (Inr (through_slot info answer, answer), ch\<lparr>sc_slots := store_slot slot (encode_acf_message info answer) s\<rparr>)"
    by (simp add: shm_respond_def Let_def decode_encode_acf_message)
  moreover have "occupied s - {slot} = occupied (sc_slots ch)" using at(1,2) by simp
  ultimately show ?thesis
    using rel(1,2) st(1,2) release_frees(1,2) [OF st(2), of slot]
    by (cases ec) (simp_all add: shm_request_def started run shm_end_def)
qed

section \<open>The registry\<close>

text \<open>
  \<open>std::map\<close> from stream keys to channels: a list in the order of the keys. The channels are in a store,
  and the map holds their places in it.
\<close>

record shm_registry =
  sr_channels :: "(u64 \<times> nat) list"
  sr_closed :: bool

type_synonym channel_store = "nat \<Rightarrow> shm_channel"

datatype registry_error = Reg_closed | Reg_already_exists | Reg_not_found

definition new_shm_registry :: shm_registry where
  "new_shm_registry = \<lparr>sr_channels = [], sr_closed = False\<rparr>"

definition add_channel :: "nat \<Rightarrow> channel_store \<Rightarrow> shm_registry \<Rightarrow> registry_error option \<times> shm_registry" where
  "add_channel ch store r =
     (let key = sc_stream_key (store ch) in
      if sr_closed r then (Some Reg_closed, r)
      else if map_of (sr_channels r) key \<noteq> None then (Some Reg_already_exists, r)
      else (None, r\<lparr>sr_channels := insort_key fst (key, ch) (sr_channels r)\<rparr>))"

definition deregister ::
    "u64 \<Rightarrow> channel_store \<Rightarrow> shm_registry \<Rightarrow> registry_error option \<times> channel_store \<times> shm_registry" where
  "deregister stream_key store r =
     (case map_of (sr_channels r) stream_key of
        None \<Rightarrow> (Some Reg_not_found, store, r)
      | Some ch \<Rightarrow>
          (None, store(ch := shm_close (store ch)),
           r\<lparr>sr_channels := filter (\<lambda>(key, _). key \<noteq> stream_key) (sr_channels r)\<rparr>))"

definition lookup_channel :: "u64 \<Rightarrow> shm_registry \<Rightarrow> registry_error + nat" where
  "lookup_channel stream_key r =
     (if sr_closed r then Inl Reg_closed
      else (case map_of (sr_channels r) stream_key of None \<Rightarrow> Inl Reg_not_found | Some ch \<Rightarrow> Inr ch))"

definition registry_channels :: "shm_registry \<Rightarrow> nat list" where
  "registry_channels r = map snd (sr_channels r)"

definition registry_close :: "channel_store \<Rightarrow> shm_registry \<Rightarrow> channel_store \<times> shm_registry" where
  "registry_close store r =
     (if sr_closed r then (store, r)
      else (fold (\<lambda>ch store. store(ch := shm_close (store ch))) (map snd (sr_channels r)) store,
            r\<lparr>sr_closed := True, sr_channels := []\<rparr>))"

definition wf_registry :: "shm_registry \<Rightarrow> bool" where
  "wf_registry r \<longleftrightarrow> distinct (map fst (sr_channels r)) \<and> sorted (map fst (sr_channels r)) \<and>
     (sr_closed r \<longrightarrow> sr_channels r = [])"

lemma registry_ops_wf:
  assumes "wf_registry r"
  shows "wf_registry (snd (add_channel ch store r))" "wf_registry (snd (snd (deregister key store r)))"
    "wf_registry (snd (registry_close store r))" "wf_registry new_shm_registry"
proof -
  have "distinct (map fst (insort_key fst (k, ch) xs)) \<longleftrightarrow> distinct (map fst xs) \<and> k \<notin> fst ` set xs" for k xs
    by (induction xs) (auto simp: set_insort_key)
  then show "wf_registry (snd (add_channel ch store r))"
    using assms by (auto simp: wf_registry_def add_channel_def Let_def map_of_eq_None_iff sorted_insort_key)
  show "wf_registry (snd (snd (deregister key store r)))"
    using assms by (auto simp: wf_registry_def deregister_def distinct_map_filter sorted_filter split: option.split)
  show "wf_registry (snd (registry_close store r))" "wf_registry new_shm_registry"
    using assms by (auto simp: wf_registry_def registry_close_def new_shm_registry_def)
qed

lemma map_of_insort: "k \<notin> fst ` set xs \<Longrightarrow> map_of (insort_key fst (k, v) xs) = (map_of xs)(k \<mapsto> v)"
  by (induction xs) (auto simp: fun_eq_iff)

lemma map_of_without: "map_of (filter (\<lambda>(key, _). key \<noteq> k) xs) = (map_of xs)(k := None)"
  by (induction xs) (auto simp: fun_eq_iff)

lemma closed_by_fold:
  "fold (\<lambda>ch store. store(ch := shm_close (store ch))) chs store c = (if c \<in> set chs then shm_close (store c) else store c)"
  by (induction chs arbitrary: store) (auto simp: shm_close_def)

text \<open>
  The registry is a map: what was added is found, in the order of the keys, until it is removed or the
  registry is closed; a key is added once; and a channel that leaves the registry is closed, no other.
\<close>

lemma registry_is_map:
  assumes "wf_registry r"
  shows "add_channel ch store r = (None, r') \<longleftrightarrow>
      \<not> sr_closed r \<and> map_of (sr_channels r) (sc_stream_key (store ch)) = None \<and>
      r' = r\<lparr>sr_channels := insort_key fst (sc_stream_key (store ch), ch) (sr_channels r)\<rparr>"
    and "add_channel ch store r = (None, r') \<Longrightarrow>
      map_of (sr_channels r') = (map_of (sr_channels r))(sc_stream_key (store ch) \<mapsto> ch)"
    and "deregister key store r = (None, store', r') \<Longrightarrow>
      map_of (sr_channels r') = (map_of (sr_channels r))(key := None) \<and>
      (\<forall>c. store' c = (if map_of (sr_channels r) key = Some c then shm_close (store c) else store c))"
    and "registry_close store r = (store', r') \<Longrightarrow>
      lookup_channel key r' = Inl Reg_closed \<and>
      (\<forall>c. store' c = (if \<exists>k. map_of (sr_channels r) k = Some c then shm_close (store c) else store c))"
proof -
  show "add_channel ch store r = (None, r') \<longleftrightarrow>
      \<not> sr_closed r \<and> map_of (sr_channels r) (sc_stream_key (store ch)) = None \<and>
      r' = r\<lparr>sr_channels := insort_key fst (sc_stream_key (store ch), ch) (sr_channels r)\<rparr>"
    by (auto simp: add_channel_def Let_def)
  then show "add_channel ch store r = (None, r') \<Longrightarrow>
      map_of (sr_channels r') = (map_of (sr_channels r))(sc_stream_key (store ch) \<mapsto> ch)"
    by (simp add: map_of_insort map_of_eq_None_iff)
  show "deregister key store r = (None, store', r') \<Longrightarrow>
      map_of (sr_channels r') = (map_of (sr_channels r))(key := None) \<and>
      (\<forall>c. store' c = (if map_of (sr_channels r) key = Some c then shm_close (store c) else store c))"
    by (auto simp: deregister_def map_of_without split: option.splits)
  have "c \<in> set (map snd (sr_channels r)) \<longleftrightarrow> (\<exists>k. map_of (sr_channels r) k = Some c)" for c
    using assms by (auto simp: wf_registry_def dest: map_of_SomeD intro: map_of_is_SomeI rev_image_eqI)
  then show "registry_close store r = (store', r') \<Longrightarrow>
      lookup_channel key r' = Inl Reg_closed \<and>
      (\<forall>c. store' c = (if \<exists>k. map_of (sr_channels r) k = Some c then shm_close (store c) else store c))"
    using assms
    by (auto simp: registry_close_def lookup_channel_def closed_by_fold wf_registry_def split: if_splits)
qed

end
