(* ===== verification/Loan.thy ===== *)
theory Loan
  imports Prelude
begin

text \<open>
  Buffers on loan, \<open>include/rcp/loan.hpp\<close>, with the injected failures of \<open>include/rcp/alloc.hpp\<close> and the
  \<open>Loan\<close> of \<open>include/rcp/rcp.hpp\<close>: a pool lends zeroed buffers and takes them back. The buffers that
  \<open>new\<close> allocates and \<open>delete\<close> frees are a heap from addresses to their contents.
\<close>

section \<open>Injected failures\<close>

text \<open>\<open>remaining_\<close>: 0 is disarmed, a negative number fires for ever.\<close>

record fault_injector =
  fi_remaining :: int

definition arm :: "int \<Rightarrow> fault_injector \<Rightarrow> fault_injector" where
  "arm count fi = fi\<lparr>fi_remaining := count\<rparr>"

definition disarm :: "fault_injector \<Rightarrow> fault_injector" where
  "disarm fi = fi\<lparr>fi_remaining := 0\<rparr>"

definition armed :: "fault_injector \<Rightarrow> bool" where
  "armed fi \<longleftrightarrow> fi_remaining fi \<noteq> 0"

definition should_fail :: "fault_injector \<Rightarrow> bool \<times> fault_injector" where
  "should_fail fi =
     (if fi_remaining fi = 0 then (False, fi)
      else (True, if 0 < fi_remaining fi then fi\<lparr>fi_remaining := fi_remaining fi - 1\<rparr> else fi))"

fun attempts :: "nat \<Rightarrow> fault_injector \<Rightarrow> bool list" where
  "attempts 0 fi = []"
| "attempts (Suc n) fi = fst (should_fail fi) # attempts n (snd (should_fail fi))"

text \<open>Armed with a count, exactly that many attempts fail; with a negative one, all of them.\<close>

lemma armed_attempts:
  "attempts n (arm count fi) = (if count < 0 then replicate n True else map (\<lambda>i. int i < count) [0..<n])"
proof (induction n arbitrary: count)
  case (Suc n)
  have shift: "map (\<lambda>i. int i < count) [0..<Suc n] = (0 < count) # map (\<lambda>i. int i < count - 1) [0..<n]"
    by (subst upt_conv_Cons) (simp, simp add: map_Suc_upt [symmetric] del: upt_Suc, auto)
  have step: "snd (should_fail (arm count fi)) = arm (if 0 < count then count - 1 else count) fi"
    by (simp add: should_fail_def arm_def)
  show ?case
    using Suc [of "if 0 < count then count - 1 else count"] shift
    by (auto simp: step should_fail_def arm_def simp del: upt_Suc)
qed simp

section \<open>The pool\<close>

definition kPoolMaxEntries :: nat where "kPoolMaxEntries = 64"

datatype loan_error = Loan_closed | Loan_invalid_argument | Loan_allocation_failure

text \<open>\<open>pl_entries\<close> are the first \<open>entries_len_\<close> pointers of the array \<open>entries_\<close>.\<close>

record buffer_pool =
  pl_closed :: bool
  pl_entries :: "nat list"
  pl_injector :: "fault_injector option"
  pl_heap :: "nat \<Rightarrow> octets option"
  pl_next :: nat

definition new_buffer_pool :: "fault_injector option \<Rightarrow> buffer_pool" where
  "new_buffer_pool fi =
     \<lparr>pl_closed = False, pl_entries = [], pl_injector = fi, pl_heap = (\<lambda>_. None), pl_next = 0\<rparr>"

text \<open>A \<open>Loan\<close> with its copy of the payload and, until it is returned, the buffer to give back.\<close>

record loaned =
  ln_payload :: octets
  ln_release :: "nat option"

text \<open>The pointer at \<open>i\<close> is replaced by the last one.\<close>

definition take_entry :: "nat \<Rightarrow> nat list \<Rightarrow> nat list" where
  "take_entry i entries = butlast (entries[i := last entries])"

definition pool_loan :: "int \<Rightarrow> buffer_pool \<Rightarrow> (loan_error + loaned) \<times> buffer_pool" where
  "pool_loan len p =
     (if pl_closed p then (Inl Loan_closed, p)
      else if len < 0 then (Inl Loan_invalid_argument, p)
      else
        (case find (\<lambda>i. nat len \<le> length (the (pl_heap p (pl_entries p ! i)))) [0..<length (pl_entries p)] of
           Some i \<Rightarrow>
             (let raw = pl_entries p ! i; zeros = replicate (nat len) 0 in
              (Inr \<lparr>ln_payload = zeros, ln_release = Some raw\<rparr>,
               p\<lparr>pl_entries := take_entry i (pl_entries p), pl_heap := (pl_heap p)(raw := Some zeros)\<rparr>))
         | None \<Rightarrow>
             (let (fails, fi) = (case pl_injector p of
                  None \<Rightarrow> (False, None)
                | Some f \<Rightarrow> (case should_fail f of (fails, f) \<Rightarrow> (fails, Some f)));
                  p = p\<lparr>pl_injector := fi\<rparr>
              in
              if fails then (Inl Loan_allocation_failure, p)
              else
                (let raw = pl_next p; zeros = replicate (nat len) 0 in
                 (Inr \<lparr>ln_payload = zeros, ln_release = Some raw\<rparr>,
                  p\<lparr>pl_heap := (pl_heap p)(raw := Some zeros), pl_next := raw + 1\<rparr>)))))"

definition pool_release :: "nat \<Rightarrow> buffer_pool \<Rightarrow> buffer_pool" where
  "pool_release raw p =
     (if length (pl_entries p) < kPoolMaxEntries then p\<lparr>pl_entries := pl_entries p @ [raw]\<rparr>
      else p\<lparr>pl_heap := (pl_heap p)(raw := None)\<rparr>)"

text \<open>\<open>Loan::ret()\<close>, and the destructor of a loan that was not returned.\<close>

definition loan_ret :: "loaned \<Rightarrow> buffer_pool \<Rightarrow> loaned \<times> buffer_pool" where
  "loan_ret l p =
     (case ln_release l of
        None \<Rightarrow> (l, p)
      | Some raw \<Rightarrow> (l\<lparr>ln_release := None\<rparr>, pool_release raw p))"

definition pool_close :: "buffer_pool \<Rightarrow> buffer_pool" where
  "pool_close p = p\<lparr>pl_closed := True\<rparr>"

definition pooled_count :: "buffer_pool \<Rightarrow> nat" where
  "pooled_count p = length (pl_entries p)"

text \<open>The destructor of the pool's implementation, after the last loan is gone.\<close>

definition pool_destroy :: "buffer_pool \<Rightarrow> buffer_pool" where
  "pool_destroy p = p\<lparr>pl_entries := [], pl_heap := fold (\<lambda>raw heap. heap(raw := None)) (pl_entries p) (pl_heap p)\<rparr>"

section \<open>No buffer is lent twice or lost\<close>

text \<open>A pool and the loans of its clients, in any order of calls.\<close>

inductive pool_step :: "buffer_pool \<times> loaned list \<Rightarrow> buffer_pool \<times> loaned list \<Rightarrow> bool" where
  lend: "pool_loan len p = (Inr l, p') \<Longrightarrow> pool_step (p, ls) (p', l # ls)"
| refuse: "pool_loan len p = (Inl e, p') \<Longrightarrow> pool_step (p, ls) (p', ls)"
| return: "loan_ret l p = (l', p') \<Longrightarrow> pool_step (p, before @ l # after) (p', before @ l' # after)"
| close: "pool_step (p, ls) (pool_close p, ls)"

definition lent :: "loaned list \<Rightarrow> nat list" where
  "lent ls = List.map_filter ln_release ls"

lemma lent_simps [simp]:
  "lent [] = []" "lent (l # ls) = (case ln_release l of None \<Rightarrow> lent ls | Some raw \<Rightarrow> raw # lent ls)"
  "lent (ls @ ks) = lent ls @ lent ks"
  by (simp_all add: lent_def map_filter_simps map_filter_def split: option.split)

definition wf_pool :: "buffer_pool \<times> loaned list \<Rightarrow> bool" where
  "wf_pool x \<longleftrightarrow>
     (case x of (p, ls) \<Rightarrow>
        distinct (pl_entries p @ lent ls) \<and> dom (pl_heap p) = set (pl_entries p @ lent ls) \<and>
        (\<forall>raw \<in> dom (pl_heap p). raw < pl_next p) \<and> length (pl_entries p) \<le> kPoolMaxEntries)"

lemma take_entry_set:
  assumes "distinct xs" "i < length xs"
  shows "distinct (take_entry i xs)" "set (take_entry i xs) = set xs - {xs ! i}" "length (take_entry i xs) = length xs - 1"
proof -
  obtain ys y where xs: "xs = ys @ [y]" using assms(2) by (cases xs rule: rev_cases) auto
  have "take_entry i xs = (if i = length ys then ys else ys[i := y])"
    using assms(2) by (auto simp: take_entry_def xs list_update_append)
  moreover have "set (ys[i := y]) = insert y (set ys - {ys ! i})" if "i < length ys"
    using assms(1) that by (auto simp: xs set_conv_nth nth_list_update nth_eq_iff_index_eq)
  ultimately show "distinct (take_entry i xs)" "set (take_entry i xs) = set xs - {xs ! i}" "length (take_entry i xs) = length xs - 1"
    using assms by (auto simp: xs nth_append distinct_list_update)
qed

text \<open>What a granted loan is: a pooled buffer or a fresh one, zeroed.\<close>

lemma pool_loan_granted:
  assumes "pool_loan len p = (Inr l, p')" "wf_pool (p, ls)"
  obtains raw where "ln_release l = Some raw" "ln_payload l = replicate (nat len) 0" "0 \<le> len" "\<not> pl_closed p"
    "pl_heap p' = (pl_heap p)(raw := Some (replicate (nat len) 0))" "raw \<notin> set (lent ls)"
    "distinct (pl_entries p')" "set (pl_entries p') = set (pl_entries p) - {raw}"
    "length (pl_entries p') \<le> length (pl_entries p)" "raw < pl_next p'" "pl_next p \<le> pl_next p'"
proof (cases "find (\<lambda>i. nat len \<le> length (the (pl_heap p (pl_entries p ! i)))) [0..<length (pl_entries p)]")
  case (Some i)
  then have i: "i < length (pl_entries p)" by (auto simp: find_Some_iff)
  have wf: "distinct (pl_entries p)" "set (pl_entries p) \<inter> set (lent ls) = {}" "\<forall>raw \<in> dom (pl_heap p). raw < pl_next p"
    "dom (pl_heap p) = set (pl_entries p @ lent ls)"
    using assms(2) by (auto simp: wf_pool_def)
  have raw: "pl_entries p ! i \<in> set (pl_entries p)" using i by simp
  then have free: "pl_entries p ! i \<notin> set (lent ls)" "pl_entries p ! i < pl_next p"
    using wf(2-4) by auto
  have granted: "l = \<lparr>ln_payload = replicate (nat len) 0, ln_release = Some (pl_entries p ! i)\<rparr>"
    "p' = p\<lparr>pl_entries := take_entry i (pl_entries p),
       pl_heap := (pl_heap p)(pl_entries p ! i := Some (replicate (nat len) 0))\<rparr>" "0 \<le> len" "\<not> pl_closed p"
    using assms(1) Some by (auto simp: pool_loan_def Let_def split: if_splits)
  show thesis
    by (rule that [of "pl_entries p ! i"])
       (use granted free take_entry_set [OF wf(1) i] in simp_all)
next
  case None
  have "pl_next p \<notin> dom (pl_heap p)" "dom (pl_heap p) = set (pl_entries p @ lent ls)" "distinct (pl_entries p)"
    using assms(2) by (auto simp: wf_pool_def)
  then show thesis
    using that [of "pl_next p"] assms(1) None
    by (auto simp: pool_loan_def Let_def split: if_splits prod.splits)
qed

lemma pool_loan_refused:
  "pool_loan len p = (Inl e, p') \<Longrightarrow>
     pl_entries p' = pl_entries p \<and> pl_heap p' = pl_heap p \<and> pl_next p' = pl_next p"
  by (auto simp: pool_loan_def Let_def split: if_splits option.splits prod.splits)

lemma pool_step_wf:
  assumes "pool_step x y" "wf_pool x"
  shows "wf_pool y"
  using assms
proof (induction rule: pool_step.induct)
  case (lend len p l p' ls)
  obtain raw where raw: "ln_release l = Some raw" "pl_heap p' = (pl_heap p)(raw := Some (replicate (nat len) 0))" "raw \<notin> set (lent ls)"
    "distinct (pl_entries p')" "set (pl_entries p') = set (pl_entries p) - {raw}"
    "length (pl_entries p') \<le> length (pl_entries p)" "raw < pl_next p'" "pl_next p \<le> pl_next p'"
    using pool_loan_granted [OF lend] by metis
  have bound: "r < pl_next p'" if "r \<in> dom (pl_heap p')" for r
  proof (cases "r = raw")
    case False
    then have "r < pl_next p" using that lend.prems by (auto simp: raw(2) wf_pool_def)
    then show ?thesis using raw(8) by simp
  qed (use raw(7) in simp)
  have owned: "dom (pl_heap p') = set (pl_entries p' @ lent (l # ls))"
    using raw(1-3,5) lend.prems by (auto simp: wf_pool_def)
  have distinct: "distinct (pl_entries p' @ lent (l # ls))"
    using raw(1,3-5) lend.prems by (auto simp: wf_pool_def)
  have "length (pl_entries p') \<le> kPoolMaxEntries"
    using raw(6) lend.prems by (simp add: wf_pool_def)
  then show ?case
    unfolding wf_pool_def prod.case by (intro conjI ballI bound owned distinct)
next
  case (refuse len p e p' ls)
  then show ?case using pool_loan_refused [OF refuse.hyps] by (auto simp: wf_pool_def)
next
  case (return l p l' p' before after)
  show ?case
  proof (cases "ln_release l")
    case None
    then show ?thesis using return by (simp add: loan_ret_def)
  next
    case (Some raw)
    then have l': "p' = pool_release raw p" "ln_release l' = None" using return.hyps by (auto simp: loan_ret_def)
    have wf: "distinct (pl_entries p @ lent before @ raw # lent after)"
      "dom (pl_heap p) = set (pl_entries p @ lent before @ raw # lent after)"
      "\<forall>r \<in> dom (pl_heap p). r < pl_next p" "length (pl_entries p) \<le> kPoolMaxEntries"
      using return.prems Some by (simp_all add: wf_pool_def)
    show ?thesis
    proof (cases "length (pl_entries p) < kPoolMaxEntries")
      case True
      then show ?thesis using wf l' by (simp add: wf_pool_def pool_release_def)
    next
      case False
      have "set (pl_entries p @ lent before @ raw # lent after) - {raw} = set (pl_entries p @ lent before @ lent after)"
        using wf(1) by auto
      then show ?thesis using wf l' False by (simp add: wf_pool_def pool_release_def)
    qed
  qed
next
  case (close p ls)
  then show ?case by (simp add: wf_pool_def pool_close_def)
qed

text \<open>
  Whatever the clients do, a buffer is lent to one of them or pooled, never both and never twice, every
  allocated buffer is one or the other, and at most 64 are pooled; and a loan is granted with exactly
  the octets asked for, all zero, in a buffer that nobody else has.
\<close>

theorem pool_lends_exclusively:
  assumes "pool_step\<^sup>*\<^sup>* (new_buffer_pool fi, []) (p, ls)"
  shows "distinct (pl_entries p @ lent ls) \<and> dom (pl_heap p) = set (pl_entries p @ lent ls) \<and>
    pooled_count p \<le> kPoolMaxEntries \<and>
    (case pool_loan len p of
       (Inl e, p') \<Rightarrow> True
     | (Inr l, p') \<Rightarrow> \<not> pl_closed p \<and> ln_payload l = replicate (nat len) 0 \<and>
         (\<exists>raw. ln_release l = Some raw \<and> raw \<notin> set (lent ls) \<and> pl_heap p' raw = Some (ln_payload l)))"
proof -
  have wf: "wf_pool (p, ls)"
    using assms
  proof (induction rule: rtranclp_induct)
    case base
    then show ?case by (simp add: wf_pool_def new_buffer_pool_def)
  next
    case (step y z)
    then show ?case using pool_step_wf by blast
  qed
  have "case pool_loan len p of
       (Inl e, p') \<Rightarrow> True
     | (Inr l, p') \<Rightarrow> \<not> pl_closed p \<and> ln_payload l = replicate (nat len) 0 \<and>
         (\<exists>raw. ln_release l = Some raw \<and> raw \<notin> set (lent ls) \<and> pl_heap p' raw = Some (ln_payload l))"
  proof (cases "pool_loan len p")
    case (Pair r p')
    then show ?thesis
      using pool_loan_granted [OF _ wf, of len _ p'] by (cases r) (auto, metis fun_upd_same)
  qed
  then show ?thesis using wf by (simp add: wf_pool_def pooled_count_def)
qed

theorem pool_lends_exclusively_witness:
  "distinct (pl_entries (new_buffer_pool None) @ lent []) \<and>
   (case pool_loan 3 (new_buffer_pool None) of (r, p') \<Rightarrow> r = Inr \<lparr>ln_payload = [0, 0, 0], ln_release = Some 0\<rparr>)"
proof -
  have "pool_step\<^sup>*\<^sup>* (new_buffer_pool None, []) (new_buffer_pool None, [])" by simp
  from pool_lends_exclusively [OF this, of 3] show ?thesis
    by (simp add: pool_loan_def new_buffer_pool_def Let_def numeral_eq_Suc)
qed

text \<open>When all loans are returned, destroying the pool frees every buffer.\<close>

lemma heap_after_fold: "fold (\<lambda>raw heap. heap(raw := None)) xs h = (\<lambda>r. if r \<in> set xs then None else h r)"
  by (induction xs arbitrary: h) auto

lemma destroyed_pool_is_empty: "wf_pool (p, ls) \<Longrightarrow> lent ls = [] \<Longrightarrow> dom (pl_heap (pool_destroy p)) = {}"
  by (auto simp: wf_pool_def pool_destroy_def heap_after_fold fun_eq_iff domIff set_eq_iff)

end
