(* ===== verification/Recording.thy ===== *)
theory Recording
  imports Shmem
begin

text \<open>
  Recorded traffic, \<open>include/rcp/record.hpp\<close>: a client that records each request with its response, the
  file format, and the replay of a record. Integers are written in the byte order of the host, here
  little-endian; clock readings are arguments, and the pauses of the replay are left out.
\<close>

section \<open>Records\<close>

text \<open>A \<open>std::error_code\<close>: a value, zero for success, and the name of its category.\<close>

record error_code =
  ec_value :: u32
  ec_category :: string

definition no_error :: error_code where
  "no_error = \<lparr>ec_value = 0, ec_category = ''system''\<rparr>"

record rec_entry =
  re_timestamp_ns :: u64
  re_request :: acf_info
  re_request_payload :: octets
  re_response :: acf_info
  re_response_payload :: octets
  re_error :: error_code

text \<open>
  A \<open>RequestFn\<close> gets what its two out-parameters hold and returns what they hold afterwards.
\<close>

type_synonym 'w request_fn =
  "acf_info \<Rightarrow> octets \<Rightarrow> acf_info \<times> octets \<Rightarrow> 'w \<Rightarrow> (error_code \<times> acf_info \<times> octets) \<times> 'w"

definition recording_request ::
    "'w request_fn \<Rightarrow> u64 \<Rightarrow> acf_info \<Rightarrow> octets \<Rightarrow> acf_info \<times> octets \<Rightarrow> rec_entry list \<Rightarrow> 'w \<Rightarrow>
       (error_code \<times> acf_info \<times> octets) \<times> rec_entry list \<times> 'w" where
  "recording_request inner now_ns req req_payload out entries w =
     (case inner req req_payload out w of
        ((ec, resp, resp_payload), w) \<Rightarrow>
          ((ec, resp, resp_payload),
           entries @ [\<lparr>re_timestamp_ns = now_ns, re_request = req, re_request_payload = req_payload,
             re_response = resp, re_response_payload = resp_payload, re_error = ec\<rparr>], w))"

text \<open>\<open>run_all()\<close>: the requests in their order; the results of the target are ignored.\<close>

fun playback :: "'w request_fn \<Rightarrow> rec_entry list \<Rightarrow> 'w \<Rightarrow> 'w" where
  "playback target [] w = w"
| "playback target (e # es) w =
     playback target es (snd (target (re_request e) (re_request_payload e) (acf_default, []) w))"

section \<open>The file\<close>

definition write8 :: "u64 \<Rightarrow> octets" where "write8 v = rev (put_u64 v)"

definition write4 :: "u32 \<Rightarrow> octets" where "write4 v = rev (put_u32 v)"

definition write1 :: "u8 \<Rightarrow> octets" where "write1 v = [v]"

definition write_msg :: "acf_info \<Rightarrow> octets \<Rightarrow> octets" where
  "write_msg info payload =
     (let encoded = (if a_msg_type info = kAcfMsgTypeGbb then encode_acf_gbb info 0 payload
        else encode_acf_abb info payload)
      in write4 (of_nat (length encoded)) @ encoded)"

definition write_entry :: "rec_entry \<Rightarrow> octets" where
  "write_entry e =
     write8 (re_timestamp_ns e) @ write_msg (re_request e) (re_request_payload e) @
     write_msg (re_response e) (re_response_payload e) @ write4 (ec_value (re_error e)) @
     write1 (if ec_value (re_error e) \<noteq> 0 then 1 else 0)"

definition write_binary :: "rec_entry list \<Rightarrow> octets" where
  "write_binary entries = concat (map write_entry entries)"

text \<open>A reader takes octets off the front of the file, or fails.\<close>

datatype file_error = Io_error | File_codec error

type_synonym 'a reader = "octets \<Rightarrow> file_error + 'a \<times> octets"

definition read_octets :: "nat \<Rightarrow> octets reader" where
  "read_octets n f = (if length f < n then Inl Io_error else Inr (take n f, drop n f))"

definition and_then :: "'a reader \<Rightarrow> ('a \<Rightarrow> 'b reader) \<Rightarrow> 'b reader" where
  "and_then r k f = (case r f of Inl e \<Rightarrow> Inl e | Inr (x, f) \<Rightarrow> k x f)"

definition give :: "'a \<Rightarrow> 'a reader" where "give x f = Inr (x, f)"

definition read8 :: "u64 reader" where "read8 = and_then (read_octets 8) (\<lambda>b. give (get_u64 (rev b)))"

definition read4 :: "u32 reader" where "read4 = and_then (read_octets 4) (\<lambda>b. give (get_u32 (rev b)))"

definition read1 :: "u8 reader" where "read1 = and_then (read_octets 1) (\<lambda>b. give (hd b))"

definition read_msg :: "(acf_info \<times> octets) reader" where
  "read_msg =
     and_then read4 (\<lambda>len.
     and_then (read_octets (unat len)) (\<lambda>encoded f.
       (case (if encoded \<noteq> [] \<and> peek_acf_msg_type encoded = kAcfMsgTypeGbb
          then (case decode_acf_gbb encoded of Inl e \<Rightarrow> Inl e | Inr (info, ts, payload) \<Rightarrow> Inr (info, payload))
          else decode_acf_abb encoded)
        of Inl e \<Rightarrow> Inl (File_codec e) | Inr msg \<Rightarrow> Inr (msg, f))))"

definition read_entry :: "rec_entry reader" where
  "read_entry =
     and_then read8 (\<lambda>timestamp_ns.
     and_then read_msg (\<lambda>(request, request_payload).
     and_then read_msg (\<lambda>(response, response_payload).
     and_then read4 (\<lambda>err_value.
     and_then read1 (\<lambda>has_error.
       give \<lparr>re_timestamp_ns = timestamp_ns, re_request = request, re_request_payload = request_payload,
         re_response = response, re_response_payload = response_payload,
         re_error = (if has_error \<noteq> 0 then \<lparr>ec_value = err_value, ec_category = ''generic''\<rparr> else no_error)\<rparr>)))))"

lemma and_then_shorter:
  assumes "and_then r k f = Inr (y, f')"
  obtains x f1 where "r f = Inr (x, f1)" "k x f1 = Inr (y, f')"
  using assms by (auto simp: and_then_def split: sum.splits prod.splits)

lemma read_octets_length: "read_octets n f = Inr (x, f') \<Longrightarrow> length f = n + length f'"
  by (auto simp: read_octets_def split: if_splits)

lemma read_int_length:
  "read8 f = Inr (x8, f') \<Longrightarrow> length f = 8 + length f'"
  "read4 f = Inr (x4, f') \<Longrightarrow> length f = 4 + length f'"
  "read1 f = Inr (x1, f') \<Longrightarrow> length f = 1 + length f'"
  by (auto simp: read8_def read4_def read1_def give_def and_then_def dest!: read_octets_length
      split: sum.splits prod.splits)

lemma read_msg_length: "read_msg f = Inr (x, f') \<Longrightarrow> length f' \<le> length f"
  unfolding read_msg_def
  by (elim and_then_shorter) (auto dest!: read_int_length read_octets_length split: sum.splits if_splits)

lemma read_entry_length: "read_entry f = Inr (e, f') \<Longrightarrow> length f' < length f"
  unfolding read_entry_def
  by (elim and_then_shorter case_prodE)
     (auto simp: give_def dest!: read_int_length read_msg_length elim!: and_then_shorter split: prod.splits)

text \<open>\<open>read_binary()\<close> up to the end of the file.\<close>

function read_entries :: "octets \<Rightarrow> file_error + rec_entry list" where
  "read_entries f =
     (if f = [] then Inr []
      else
        (case read_entry f of
           Inl e \<Rightarrow> Inl e
         | Inr (e, f') \<Rightarrow> (case read_entries f' of Inl err \<Rightarrow> Inl err | Inr es \<Rightarrow> Inr (e # es))))"
  by pat_completeness auto

termination read_entries
  by (relation "measure length") (auto dest: read_entry_length)

declare read_entries.simps [simp del]

text \<open>A file that cannot be read leaves the record as it was.\<close>

definition read_binary :: "octets \<Rightarrow> rec_entry list \<Rightarrow> file_error option \<times> rec_entry list" where
  "read_binary f entries =
     (case read_entries f of Inl e \<Rightarrow> (Some e, entries) | Inr loaded \<Rightarrow> (None, loaded))"

section \<open>What is read is what was written\<close>

text \<open>The reader recognises exactly these octets, and of less than all of them reports the end of the file.\<close>

definition reads :: "'a reader \<Rightarrow> octets \<Rightarrow> 'a \<Rightarrow> bool" where
  "reads r b x \<longleftrightarrow> (\<forall>f. r (b @ f) = Inr (x, f)) \<and> (\<forall>n < length b. r (take n b) = Inl Io_error)"

lemma reads_octets: "reads (read_octets (length b)) b b"
  by (simp add: reads_def read_octets_def)

lemma reads_give: "reads (give x) [] x"
  by (simp add: reads_def give_def)

lemma reads_and_then:
  assumes "reads r b x" "reads (k x) c y"
  shows "reads (and_then r k) (b @ c) y"
  unfolding reads_def
proof (intro conjI allI impI)
  show "and_then r k ((b @ c) @ f) = Inr (y, f)" for f
    using assms by (simp add: reads_def and_then_def)
  fix n assume n: "n < length (b @ c)"
  show "and_then r k (take n (b @ c)) = Inl Io_error"
    using assms n by (cases "n < length b") (auto simp: reads_def and_then_def)
qed

lemma reads_mapped: "reads r b x \<Longrightarrow> reads (and_then r (\<lambda>x. give (g x))) b (g x)"
  using reads_and_then [of r b x "\<lambda>x. give (g x)" "[]" "g x"] by (simp add: reads_give)

lemma reads_ints: "reads read8 (write8 v8) v8" "reads read4 (write4 v4) v4" "reads read1 (write1 v1) v1"
proof -
  have b: "reads (read_octets 8) (write8 v8) (write8 v8)" "reads (read_octets 4) (write4 v4) (write4 v4)"
    "reads (read_octets 1) (write1 v1) (write1 v1)"
    using reads_octets [of "write8 v8"] reads_octets [of "write4 v4"] reads_octets [of "write1 v1"]
    by (simp_all add: write8_def write4_def write1_def)
  show "reads read8 (write8 v8) v8"
    using reads_mapped [OF b(1), of "\<lambda>b. get_u64 (rev b)"] get_put_u64 [of v8 "[]"] by (simp add: read8_def write8_def)
  show "reads read4 (write4 v4) v4"
    using reads_mapped [OF b(2), of "\<lambda>b. get_u32 (rev b)"] get_put_u32 [of v4 "[]"] by (simp add: read4_def write4_def)
  show "reads read1 (write1 v1) v1"
    using reads_mapped [OF b(3), of hd] by (simp add: read1_def write1_def)
qed

definition storable_message :: "acf_info \<Rightarrow> octets \<Rightarrow> bool" where
  "storable_message info payload \<longleftrightarrow> length (encode_acf_message info payload) < 2 ^ 32"

lemma reads_msg:
  assumes "storable_message info payload"
  shows "reads read_msg (write_msg info payload) (through_slot info payload, payload)"
proof -
  let ?b = "encode_acf_message info payload"
  have w: "write_msg info payload = write4 (of_nat (length ?b)) @ ?b"
    by (simp add: write_msg_def encode_acf_message_def Let_def)
  have len: "unat (of_nat (length ?b) :: u32) = length ?b"
    using assms by (simp add: storable_message_def unsigned_of_nat take_bit_eq_mod)
  have decoded: "(if ?b \<noteq> [] \<and> peek_acf_msg_type ?b = kAcfMsgTypeGbb
        then (case decode_acf_gbb ?b of Inl e \<Rightarrow> Inl e | Inr (info, ts, payload) \<Rightarrow> Inr (info, payload))
        else decode_acf_abb ?b) = Inr (through_slot info payload, payload)"
    using decode_encode_acf_message [of info payload] by (simp add: decode_acf_message_def split: if_splits)
  have "reads (and_then (read_octets (length ?b)) (\<lambda>encoded f.
       (case (if encoded \<noteq> [] \<and> peek_acf_msg_type encoded = kAcfMsgTypeGbb
          then (case decode_acf_gbb encoded of Inl e \<Rightarrow> Inl e | Inr (info, ts, payload) \<Rightarrow> Inr (info, payload))
          else decode_acf_abb encoded)
        of Inl e \<Rightarrow> Inl (File_codec e) | Inr msg \<Rightarrow> Inr (msg, f)))) (?b @ []) (through_slot info payload, payload)"
    by (rule reads_and_then [OF reads_octets]) (simp add: reads_def decoded)
  then show ?thesis
    unfolding w read_msg_def by (intro reads_and_then [OF reads_ints(2)]) (simp add: len)
qed

definition storable :: "rec_entry \<Rightarrow> bool" where
  "storable e \<longleftrightarrow> storable_message (re_request e) (re_request_payload e) \<and>
     storable_message (re_response e) (re_response_payload e)"

text \<open>What a file keeps of an entry: the messages as the wire keeps them; of an error only its value.\<close>

definition stored :: "rec_entry \<Rightarrow> rec_entry" where
  "stored e = e
     \<lparr>re_request := through_slot (re_request e) (re_request_payload e),
      re_response := through_slot (re_response e) (re_response_payload e),
      re_error := (if ec_value (re_error e) \<noteq> 0 then \<lparr>ec_value = ec_value (re_error e), ec_category = ''generic''\<rparr>
                   else no_error)\<rparr>"

lemma reads_entry:
  assumes "storable e"
  shows "reads read_entry (write_entry e) (stored e)"
proof -
  let ?has = "if ec_value (re_error e) \<noteq> 0 then 1 else 0 :: u8"
  let ?e = "\<lambda>ts request response err has. \<lparr>re_timestamp_ns = ts, re_request = fst request, re_request_payload = snd request,
    re_response = fst response, re_response_payload = snd response,
    re_error = (if has \<noteq> (0 :: u8) then \<lparr>ec_value = err, ec_category = ''generic''\<rparr> else no_error)\<rparr>"
  note msgs = reads_msg [of "re_request e" "re_request_payload e"] reads_msg [of "re_response e" "re_response_payload e"]
  have whole: "?e (re_timestamp_ns e) (through_slot (re_request e) (re_request_payload e), re_request_payload e)
      (through_slot (re_response e) (re_response_payload e), re_response_payload e) (ec_value (re_error e)) ?has = stored e"
    by (simp add: stored_def)
  have "reads (and_then read8 (\<lambda>ts. and_then read_msg (\<lambda>request. and_then read_msg (\<lambda>response.
      and_then read4 (\<lambda>err. and_then read1 (\<lambda>has. give (?e ts request response err has)))))))
      (write8 (re_timestamp_ns e) @ write_msg (re_request e) (re_request_payload e) @
       write_msg (re_response e) (re_response_payload e) @ write4 (ec_value (re_error e)) @ write1 ?has) (stored e)"
    by (rule reads_and_then [OF reads_ints(1)], rule reads_and_then [OF msgs(1)], use assms in \<open>simp add: storable_def\<close>,
        rule reads_and_then [OF msgs(2)], use assms in \<open>simp add: storable_def\<close>,
        rule reads_and_then [OF reads_ints(2)], subst whole [symmetric], rule reads_mapped [OF reads_ints(3)])
  then show ?thesis
    by (simp add: read_entry_def write_entry_def case_prod_unfold)
qed

lemma reads_entry_length: "reads read_entry (write_entry e) x \<Longrightarrow> write_entry e \<noteq> []"
  by (simp add: write_entry_def write8_def)

lemma read_entries_written:
  assumes "storable e"
  shows "read_entries (write_entry e @ f) =
    (case read_entries f of Inl err \<Rightarrow> Inl err | Inr es \<Rightarrow> Inr (stored e # es))"
  using reads_entry [OF assms] reads_entry_length [OF reads_entry [OF assms]]
  by (subst read_entries.simps) (simp add: reads_def)

lemma read_entries_cut:
  assumes "storable e" "0 < n" "n < length (write_entry e)"
  shows "read_entries (take n (write_entry e)) = Inl Io_error"
  using reads_entry [OF assms(1)] assms(2,3)
  by (subst read_entries.simps) (auto simp: reads_def)

lemma read_entries_all: "\<forall>e \<in> set es. storable e \<Longrightarrow> read_entries (write_binary es) = Inr (map stored es)"
  by (induction es) (simp_all add: write_binary_def read_entries_written read_entries.simps [of "[]"])

lemma read_entries_cut_off:
  assumes "n < length (write_binary es)" "\<forall>k. n \<noteq> length (write_binary (take k es))" "\<forall>e \<in> set es. storable e"
  shows "read_entries (take n (write_binary es)) = Inl Io_error"
  using assms
proof (induction es arbitrary: n)
  case (Cons e es)
  have n: "n \<noteq> 0" using Cons.prems(2) [rule_format, of 0] by (simp add: write_binary_def)
  show ?case
  proof (cases "n < length (write_entry e)")
    case True
    then show ?thesis using read_entries_cut [of e n] Cons.prems(3) n by (simp add: write_binary_def)
  next
    case False
    let ?m = "n - length (write_entry e)"
    have "?m \<noteq> length (write_binary (take k es))" for k
      using Cons.prems(2) [rule_format, of "Suc k"] False by (auto simp: write_binary_def)
    then have "read_entries (take ?m (write_binary es)) = Inl Io_error"
      using Cons.IH [of ?m] Cons.prems(1,3) False by (auto simp: write_binary_def)
    then show ?thesis using False Cons.prems(3) by (simp add: write_binary_def read_entries_written)
  qed
qed (simp add: write_binary_def)

text \<open>
  A written record is read back entry by entry, in order, as \<open>stored\<close> says; of a file that was cut off
  anywhere but between two entries nothing is taken over: the read fails and the record keeps the
  entries it had.
\<close>

theorem recorded_file_roundtrip:
  assumes "\<forall>e \<in> set es. storable e"
  shows "read_binary (write_binary es) old = (None, map stored es) \<and>
    (\<forall>n < length (write_binary es). (\<forall>k. n \<noteq> length (write_binary (take k es))) \<longrightarrow>
      read_binary (take n (write_binary es)) old = (Some Io_error, old))"
  using assms by (auto simp: read_binary_def read_entries_all read_entries_cut_off)

text \<open>A record of one exchange: a read request of two octets and its two answers, the second an error.\<close>

definition sample_record :: "rec_entry list" where
  "sample_record =
     [\<lparr>re_timestamp_ns = 1000, re_request = acf_default\<lparr>a_msg_type := kAcfMsgTypeAbb\<rparr>, re_request_payload = [1, 2],
       re_response = acf_default\<lparr>a_msg_type := kAcfMsgTypeGbb\<rparr>, re_response_payload = [3, 4], re_error = no_error\<rparr>,
      \<lparr>re_timestamp_ns = 2000, re_request = acf_default\<lparr>a_msg_type := kAcfMsgTypeAbb\<rparr>, re_request_payload = [1],
       re_response = acf_default, re_response_payload = [],
       re_error = \<lparr>ec_value = 3, ec_category = ''rcp''\<rparr>\<rparr>]"

text \<open>An error of the library comes back as one of the generic category, which it does not equal.\<close>

lemma stored_error_changes_category:
  "ec_value (re_error e) \<noteq> 0 \<Longrightarrow> ec_category (re_error e) \<noteq> ''generic'' \<Longrightarrow> re_error (stored e) \<noteq> re_error e"
  by (cases "re_error e") (auto simp: stored_def)

lemma playback_calls: "playback target es w =
    fold (\<lambda>e w. snd (target (re_request e) (re_request_payload e) (acf_default, []) w)) es w"
  by (induction es arbitrary: w) simp_all

end
