(* ===== verification/Deadline.thy ===== *)
theory Deadline
  imports Prelude "HOL-Library.AList"
begin

text \<open>
  The liveness monitor of \<open>include/rcp/deadline.hpp\<close>: one tracker per registered target, noted by
  heartbeats and lifecycle changes, evaluated against the deadline by \<open>check()\<close>, which reports every
  change to the subscribers.
\<close>

section \<open>One target\<close>

record liveness_event =
  le_target :: u64
  le_alive :: bool

definition default_deadline :: u64 where "default_deadline = 50"

record liveness_tracker =
  lt_has_ever_reported :: bool
  lt_last_seen_ms :: u64

definition new_tracker :: liveness_tracker where
  "new_tracker = \<lparr>lt_has_ever_reported = False, lt_last_seen_ms = 0\<rparr>"

definition note_activity :: "u64 \<Rightarrow> liveness_tracker \<Rightarrow> liveness_tracker" where
  "note_activity now_ms t = t\<lparr>lt_last_seen_ms := now_ms, lt_has_ever_reported := True\<rparr>"

definition dead :: "u64 \<Rightarrow> u64 \<Rightarrow> liveness_tracker \<Rightarrow> bool" where
  "dead deadline now_ms t =
     (if \<not> lt_has_ever_reported t then True else deadline < now_ms - lt_last_seen_ms t)"

section \<open>The monitor\<close>

text \<open>
  \<open>trackers_\<close> is walked in the order of its keys, so it is a sorted association list; of \<open>alive_\<close> only
  lookups are made. The callbacks are the client's code: their number, and the calls made.
\<close>

record monitor =
  mo_trackers :: "(u64 \<times> liveness_tracker) list"
  mo_alive :: "u64 \<Rightarrow> bool option"
  mo_callbacks :: nat

definition new_monitor :: monitor where
  "new_monitor = \<lparr>mo_trackers = [], mo_alive = (\<lambda>_. None), mo_callbacks = 0\<rparr>"

fun try_emplace :: "u64 \<Rightarrow> (u64 \<times> liveness_tracker) list \<Rightarrow> (u64 \<times> liveness_tracker) list" where
  "try_emplace k [] = [(k, new_tracker)]"
| "try_emplace k ((k', t) # ts) =
     (if k < k' then (k, new_tracker) # (k', t) # ts
      else if k = k' then (k', t) # ts
      else (k', t) # try_emplace k ts)"

definition register_target :: "u64 \<Rightarrow> monitor \<Rightarrow> monitor" where
  "register_target k m = m\<lparr>mo_trackers := try_emplace k (mo_trackers m)\<rparr>"

definition unregister_target :: "u64 \<Rightarrow> monitor \<Rightarrow> monitor" where
  "unregister_target k m =
     m\<lparr>mo_trackers := AList.delete k (mo_trackers m), mo_alive := (mo_alive m)(k := None)\<rparr>"

definition target_registered :: "monitor \<Rightarrow> u64 \<Rightarrow> bool" where
  "target_registered m k \<longleftrightarrow> map_of (mo_trackers m) k \<noteq> None"

definition note_target :: "u64 \<Rightarrow> u64 \<Rightarrow> monitor \<Rightarrow> monitor" where
  "note_target k now_ms m =
     m\<lparr>mo_trackers := map (\<lambda>(k', t). (k', if k' = k then note_activity now_ms t else t)) (mo_trackers m)\<rparr>"

text \<open>\<open>note_heartbeat()\<close> and \<open>note_lifecycle_change()\<close> are the same call.\<close>

definition note_heartbeat :: "u64 \<Rightarrow> u64 \<Rightarrow> monitor \<Rightarrow> monitor" where "note_heartbeat = note_target"

definition note_lifecycle_change :: "u64 \<Rightarrow> u64 \<Rightarrow> monitor \<Rightarrow> monitor" where "note_lifecycle_change = note_target"

text \<open>The loop of \<open>check()\<close>: the events of the changes, and the states after it.\<close>

fun check_targets ::
    "u64 \<Rightarrow> u64 \<Rightarrow> (u64 \<times> liveness_tracker) list \<Rightarrow> (u64 \<Rightarrow> bool option) \<Rightarrow>
       liveness_event list \<times> (u64 \<Rightarrow> bool option)" where
  "check_targets deadline now_ms [] alive = ([], alive)"
| "check_targets deadline now_ms ((k, t) # ts) alive =
     (let is_alive = \<not> dead deadline now_ms t in
      if alive k = Some is_alive then check_targets deadline now_ms ts alive
      else
        (let (evs, alive') = check_targets deadline now_ms ts (alive(k \<mapsto> is_alive))
         in (\<lparr>le_target = k, le_alive = is_alive\<rparr> # evs, alive')))"

text \<open>\<open>check()\<close>: the events in their order, and the calls, each with the index of its callback.\<close>

definition check_monitor ::
    "u64 \<Rightarrow> u64 \<Rightarrow> monitor \<Rightarrow> liveness_event list \<times> (nat \<times> liveness_event) list \<times> monitor" where
  "check_monitor deadline now_ms m =
     (let (evs, alive) = check_targets deadline now_ms (mo_trackers m) (mo_alive m)
      in (evs, concat (map (\<lambda>e. map (\<lambda>i. (i, e)) [0..<mo_callbacks m]) evs), m\<lparr>mo_alive := alive\<rparr>))"

definition alive :: "monitor \<Rightarrow> u64 \<Rightarrow> bool" where
  "alive m k \<longleftrightarrow> mo_alive m k = Some True"

definition subscribe_liveness :: "monitor \<Rightarrow> monitor" where
  "subscribe_liveness m = m\<lparr>mo_callbacks := mo_callbacks m + 1\<rparr>"

section \<open>The trackers as a map\<close>

definition wf_monitor :: "monitor \<Rightarrow> bool" where
  "wf_monitor m \<longleftrightarrow> sorted_wrt (<) (map fst (mo_trackers m)) \<and> dom (mo_alive m) \<subseteq> dom (map_of (mo_trackers m))"

lemma map_of_try_emplace:
  "sorted_wrt (<) (map fst ts) \<Longrightarrow>
   map_of (try_emplace k ts) = (if map_of ts k = None then (map_of ts)(k \<mapsto> new_tracker) else map_of ts)"
proof (induction k ts rule: try_emplace.induct)
  case (2 k k' t ts)
  have "map_of ts k = None" if "k < k'"
    using that 2(2) by (fastforce simp: map_of_eq_None_iff)
  then show ?case using 2 by (auto simp: fun_eq_iff)
qed simp

lemma set_try_emplace: "fst ` set (try_emplace k ts) = insert k (fst ` set ts)"
  by (induction k ts rule: try_emplace.induct) auto

lemma sorted_try_emplace: "sorted_wrt (<) (map fst ts) \<Longrightarrow> sorted_wrt (<) (map fst (try_emplace k ts))"
proof (induction k ts rule: try_emplace.induct)
  case (2 k k' t ts)
  then show ?case using set_try_emplace [of k ts] by (auto dest: less_trans)
qed simp

lemma map_of_note:
  "map_of (mo_trackers (note_target k now m)) =
     (\<lambda>k'. if k' = k then map_option (note_activity now) (map_of (mo_trackers m) k) else map_of (mo_trackers m) k')"
proof -
  have "map_of (map (\<lambda>(k', t). (k', if k' = k then note_activity now t else t)) ts) k2 =
      (if k2 = k then map_option (note_activity now) (map_of ts k) else map_of ts k2)" for ts k2
    by (induction ts) auto
  then show ?thesis by (simp add: note_target_def fun_eq_iff)
qed

lemma keys_note: "map fst (mo_trackers (note_target k now m)) = map fst (mo_trackers m)"
  by (simp add: note_target_def case_prod_unfold comp_def)

lemma check_targets_Cons:
  "check_targets d now ((k, t) # ts) al =
     (let r = check_targets d now ts (al(k \<mapsto> \<not> dead d now t))
      in if al k = Some (\<not> dead d now t) then check_targets d now ts al
         else (\<lparr>le_target = k, le_alive = \<not> dead d now t\<rparr> # fst r, snd r))"
  by (simp add: Let_def split_beta)

text \<open>What the loop leaves: every tracked target has its state, the others keep theirs.\<close>

lemma check_targets_state:
  assumes "distinct (map fst ts)"
  shows "snd (check_targets d now ts al) k =
     (case map_of ts k of None \<Rightarrow> al k | Some t \<Rightarrow> Some (\<not> dead d now t))"
  using assms
proof (induction ts arbitrary: al)
  case (Cons p ts)
  obtain k' t where p: "p = (k', t)" by force
  have n: "map_of ts k' = None" using Cons.prems p by (simp add: map_of_eq_None_iff)
  define al' where "al' = al(k' \<mapsto> \<not> dead d now t)"
  have al': "al' k' = Some (\<not> dead d now t)" "k \<noteq> k' \<Longrightarrow> al' k = al k" by (simp_all add: al'_def)
  show ?case
    unfolding p check_targets_Cons al'_def [symmetric]
    using Cons.IH [of al] Cons.IH [of al'] Cons.prems n p by (cases "k = k'") (auto simp: al' Let_def split: option.splits)
qed simp

text \<open>The events of one target: at most one, and exactly when its state differs from the recorded one.\<close>

lemma check_targets_events:
  assumes "distinct (map fst ts)"
  shows "filter (\<lambda>e. le_target e = k) (fst (check_targets d now ts al)) =
     (case map_of ts k of None \<Rightarrow> []
      | Some t \<Rightarrow> if al k = Some (\<not> dead d now t) then [] else [\<lparr>le_target = k, le_alive = \<not> dead d now t\<rparr>])"
  using assms
proof (induction ts arbitrary: al)
  case (Cons p ts)
  obtain k' t where p: "p = (k', t)" by force
  have n: "map_of ts k' = None" using Cons.prems p by (simp add: map_of_eq_None_iff)
  define al' where "al' = al(k' \<mapsto> \<not> dead d now t)"
  have al': "al' k' = Some (\<not> dead d now t)" "k \<noteq> k' \<Longrightarrow> al' k = al k" by (simp_all add: al'_def)
  show ?case
    unfolding p check_targets_Cons al'_def [symmetric]
    using Cons.IH [of al] Cons.IH [of al'] Cons.prems n p by (cases "k = k'") (auto simp: al' Let_def split: option.splits)
qed simp

lemma wf_distinct: "wf_monitor m \<Longrightarrow> distinct (map fst (mo_trackers m))"
  by (simp add: wf_monitor_def strict_sorted_iff)

section \<open>Runs\<close>

datatype monitor_op =
    Register u64
  | Unregister u64
  | Heartbeat u64 u64
  | Lifecycle_change u64 u64
  | Check u64 u64
  | Subscribe

fun monitor_step :: "monitor_op \<Rightarrow> monitor \<Rightarrow> liveness_event list \<times> monitor" where
  "monitor_step (Register k) m = ([], register_target k m)"
| "monitor_step (Unregister k) m = ([], unregister_target k m)"
| "monitor_step (Heartbeat k now) m = ([], note_heartbeat k now m)"
| "monitor_step (Lifecycle_change k now) m = ([], note_lifecycle_change k now m)"
| "monitor_step (Check d now) m = (case check_monitor d now m of (evs, calls, m) \<Rightarrow> (evs, m))"
| "monitor_step Subscribe m = ([], subscribe_liveness m)"

fun monitor_run :: "monitor_op list \<Rightarrow> monitor \<Rightarrow> liveness_event list \<times> monitor" where
  "monitor_run [] m = ([], m)"
| "monitor_run (op # ops) m =
     (let (evs, m) = monitor_step op m; (evs', m) = monitor_run ops m in (evs @ evs', m))"

lemma monitor_run_append:
  "monitor_run (xs @ ys) m =
     (let (evs, m) = monitor_run xs m; (evs', m) = monitor_run ys m in (evs @ evs', m))"
  by (induction xs arbitrary: m) (simp_all add: Let_def split_beta)

lemma wf_monitor_step: "wf_monitor m \<Longrightarrow> wf_monitor (snd (monitor_step op m))"
proof (cases op)
  case (Check d now)
  assume wf: "wf_monitor m"
  have "mo_alive (snd (monitor_step op m)) = snd (check_targets d now (mo_trackers m) (mo_alive m))"
    "mo_trackers (snd (monitor_step op m)) = mo_trackers m"
    by (simp_all add: Check check_monitor_def Let_def split_beta)
  then show ?thesis
    using wf by (auto simp: wf_monitor_def dom_def check_targets_state [OF wf_distinct [OF wf]] split: option.splits)
next
  case (Unregister k)
  assume wf: "wf_monitor m"
  have "sorted_wrt (<) (map fst (AList.delete k (mo_trackers m)))"
    using wf by (simp add: wf_monitor_def AList.delete_eq sorted_wrt_filter sorted_wrt_map)
  then show ?thesis
    using wf by (auto simp: Unregister wf_monitor_def unregister_target_def AList.delete_conv' split: if_splits)
next
  case (Register k)
  assume "wf_monitor m"
  then show ?thesis
    by (auto simp: Register wf_monitor_def register_target_def map_of_try_emplace sorted_try_emplace)
qed (auto simp: wf_monitor_def note_heartbeat_def note_lifecycle_change_def keys_note map_of_note
      subscribe_liveness_def dom_def simp flip: map_map; simp add: note_target_def)+

lemma wf_new_monitor: "wf_monitor new_monitor"
  by (simp add: wf_monitor_def new_monitor_def)

lemma wf_monitor_run: "wf_monitor m \<Longrightarrow> wf_monitor (snd (monitor_run ops m))"
  by (induction ops arbitrary: m) (use wf_monitor_step in \<open>force simp: Let_def split_beta\<close>)+

definition events_of :: "u64 \<Rightarrow> liveness_event list \<Rightarrow> bool list" where
  "events_of k evs = map le_alive (filter (\<lambda>e. le_target e = k) evs)"

lemma events_of_append: "events_of k (xs @ ys) = events_of k xs @ events_of k ys"
  by (simp add: events_of_def)

text \<open>One operation reports at most one state of a target, and only one that was not recorded for it.\<close>

lemma step_events:
  assumes "wf_monitor m" "op \<noteq> Unregister k"
  shows "(events_of k (fst (monitor_step op m)) = [] \<and> mo_alive (snd (monitor_step op m)) k = mo_alive m k) \<or>
    (\<exists>b. events_of k (fst (monitor_step op m)) = [b] \<and> mo_alive (snd (monitor_step op m)) k = Some b \<and> mo_alive m k \<noteq> Some b)"
proof (cases op)
  case (Check d now)
  have "fst (monitor_step op m) = fst (check_targets d now (mo_trackers m) (mo_alive m))"
    "mo_alive (snd (monitor_step op m)) = snd (check_targets d now (mo_trackers m) (mo_alive m))"
    by (simp_all add: Check check_monitor_def Let_def split_beta)
  then show ?thesis
    using check_targets_state [OF wf_distinct [OF assms(1)], of d now "mo_alive m"]
      check_targets_events [OF wf_distinct [OF assms(1)], of k d now "mo_alive m"]
    by (auto simp: events_of_def split: option.splits if_splits)
qed (use assms in \<open>auto simp: events_of_def register_target_def unregister_target_def note_heartbeat_def
      note_lifecycle_change_def note_target_def subscribe_liveness_def\<close>)

text \<open>
  What the subscribers hear of a target that stays registered alternates between alive and dead, and
  \<open>alive()\<close> is what they heard last, false while they have heard nothing.
\<close>

theorem liveness_reports_alternate:
  assumes "Unregister k \<notin> set ops"
  shows "let (evs, m) = monitor_run ops new_monitor in
    distinct_adj (events_of k evs) \<and>
    mo_alive m k = (if events_of k evs = [] then None else Some (last (events_of k evs)))"
  using assms
proof (induction ops rule: rev_induct)
  case (snoc op ops)
  let ?m = "snd (monitor_run ops new_monitor)"
  have "wf_monitor ?m" "op \<noteq> Unregister k"
    using wf_monitor_run [OF wf_new_monitor] snoc.prems by auto
  from step_events [OF this] snoc show ?case
    by (auto simp: monitor_run_append Let_def split_beta events_of_append distinct_adj_append_iff split: if_splits)
qed (simp add: events_of_def new_monitor_def)

lemma liveness_reports_alternate_witness:
  "let (evs, m) = monitor_run [Register 7, Check 50 0, Heartbeat 7 100, Check 50 120, Check 50 140, Check 50 200] new_monitor in
    distinct_adj (events_of 7 evs) \<and>
    mo_alive m 7 = (if events_of 7 evs = [] then None else Some (last (events_of 7 evs)))"
  by (rule liveness_reports_alternate) simp

text \<open>After a check a target counts as alive exactly when its last sign of life is at most the deadline old.\<close>

lemma check_decides:
  assumes "wf_monitor m" "check_monitor deadline now_ms m = (evs, calls, m')"
  shows "alive m' k \<longleftrightarrow> (\<exists>t. map_of (mo_trackers m) k = Some t \<and> lt_has_ever_reported t \<and> now_ms - lt_last_seen_ms t \<le> deadline)"
proof -
  have "mo_alive m' = snd (check_targets deadline now_ms (mo_trackers m) (mo_alive m))"
    using assms(2) by (auto simp: check_monitor_def Let_def split: prod.splits)
  moreover have "mo_alive m k = None" if "map_of (mo_trackers m) k = None"
    using that assms(1) unfolding wf_monitor_def by blast
  ultimately show ?thesis
    using check_targets_state [OF wf_distinct [OF assms(1)], of deadline now_ms "mo_alive m"]
    by (auto simp: alive_def dead_def not_less split: option.splits)
qed

text \<open>A check with a clock reading just before the last sign of life finds the target dead: the age wraps around.\<close>

lemma early_check_is_dead:
  "deadline < - 1 \<Longrightarrow> dead deadline (now - 1) (note_activity now t)"
  by (simp add: dead_def note_activity_def)

lemma monitor_example:
  "fst (monitor_run [Register 7, Check 50 0, Heartbeat 7 100, Check 50 120, Check 50 140, Check 50 200] new_monitor) =
     [\<lparr>le_target = 7, le_alive = False\<rparr>, \<lparr>le_target = 7, le_alive = True\<rparr>, \<lparr>le_target = 7, le_alive = False\<rparr>]"
  by code_simp

end
