(* ===== verification/Relay.thy ===== *)
theory Relay
  imports Recording
begin

text \<open>
  The protocol-neutral interface, \<open>include/relay/relay.hpp\<close>, the error codes of \<open>include/rcp/rcp.hpp\<close>
  and the adapter between the two message formats, \<open>include/rcp/adapt.hpp\<close>.
\<close>

section \<open>Error codes\<close>

datatype rcp_errc = Rcp_closed | Rcp_not_found | Rcp_already_exists | Rcp_timeout | Rcp_busy

fun rcp_errc_value :: "rcp_errc \<Rightarrow> u32" where
  "rcp_errc_value Rcp_closed = 1"
| "rcp_errc_value Rcp_not_found = 2"
| "rcp_errc_value Rcp_already_exists = 3"
| "rcp_errc_value Rcp_timeout = 4"
| "rcp_errc_value Rcp_busy = 5"

definition make_rcp_error_code :: "rcp_errc \<Rightarrow> error_code" where
  "make_rcp_error_code e = \<lparr>ec_value = rcp_errc_value e, ec_category = ''rcp''\<rparr>"

definition ErrClosed :: error_code where "ErrClosed = make_rcp_error_code Rcp_closed"
definition ErrNotFound :: error_code where "ErrNotFound = make_rcp_error_code Rcp_not_found"
definition ErrAlreadyExists :: error_code where "ErrAlreadyExists = make_rcp_error_code Rcp_already_exists"
definition ErrTimeout :: error_code where "ErrTimeout = make_rcp_error_code Rcp_timeout"
definition ErrBusy :: error_code where "ErrBusy = make_rcp_error_code Rcp_busy"

text \<open>A code of the RCP category stands for one condition of the relay interface, or for none.\<close>

datatype relay_errc = Relay_closed | Relay_not_connected | Relay_timeout | Relay_payload_too_large

fun relay_condition :: "rcp_errc \<Rightarrow> relay_errc \<Rightarrow> bool" where
  "relay_condition Rcp_closed re \<longleftrightarrow> re = Relay_closed"
| "relay_condition Rcp_timeout re \<longleftrightarrow> re = Relay_timeout"
| "relay_condition Rcp_busy re \<longleftrightarrow> re = Relay_timeout"
| "relay_condition Rcp_not_found re \<longleftrightarrow> re = Relay_not_connected"
| "relay_condition Rcp_already_exists re \<longleftrightarrow> False"

lemma relay_condition_unique: "relay_condition e a \<Longrightarrow> relay_condition e b \<Longrightarrow> a = b"
  by (cases e) simp_all

section \<open>Channels\<close>

record 'a relay_channel =
  rc_queue :: "'a list"
  rc_cap :: nat
  rc_closed :: bool

definition new_relay_channel :: "nat \<Rightarrow> 'a relay_channel" where
  "new_relay_channel capacity = \<lparr>rc_queue = [], rc_cap = capacity, rc_closed = False\<rparr>"

definition channel_push :: "'a \<Rightarrow> 'a relay_channel \<Rightarrow> bool \<times> 'a relay_channel" where
  "channel_push v ch =
     (if rc_closed ch then (False, ch)
      else if rc_cap ch \<le> length (rc_queue ch) then (False, ch)
      else (True, ch\<lparr>rc_queue := rc_queue ch @ [v]\<rparr>))"

definition channel_try_recv :: "'a relay_channel \<Rightarrow> 'a option \<times> 'a relay_channel" where
  "channel_try_recv ch =
     (case rc_queue ch of [] \<Rightarrow> (None, ch) | v # vs \<Rightarrow> (Some v, ch\<lparr>rc_queue := vs\<rparr>))"

text \<open>\<open>recv()\<close> waits while the channel is open and its queue is empty: no step is possible then.\<close>

definition channel_recv :: "'a relay_channel \<Rightarrow> ('a option \<times> 'a relay_channel) option" where
  "channel_recv ch =
     (if rc_queue ch \<noteq> [] \<or> rc_closed ch then
        (case rc_queue ch of [] \<Rightarrow> Some (None, ch) | v # vs \<Rightarrow> Some (Some v, ch\<lparr>rc_queue := vs\<rparr>))
      else None)"

definition channel_close :: "'a relay_channel \<Rightarrow> 'a relay_channel" where
  "channel_close ch = ch\<lparr>rc_closed := True\<rparr>"

text \<open>One step of a channel, with the values it accepts and those it hands out.\<close>

inductive channel_step :: "'a relay_channel \<Rightarrow> 'a list \<Rightarrow> 'a list \<Rightarrow> 'a relay_channel \<Rightarrow> bool" where
  push: "channel_push v ch = (accepted, ch') \<Longrightarrow> channel_step ch (if accepted then [v] else []) [] ch'"
| try_recv: "channel_try_recv ch = (r, ch') \<Longrightarrow> channel_step ch [] (case r of None \<Rightarrow> [] | Some v \<Rightarrow> [v]) ch'"
| recv: "channel_recv ch = Some (r, ch') \<Longrightarrow> channel_step ch [] (case r of None \<Rightarrow> [] | Some v \<Rightarrow> [v]) ch'"
| close: "channel_step ch [] [] (channel_close ch)"

inductive channel_run :: "'a relay_channel \<Rightarrow> 'a list \<Rightarrow> 'a list \<Rightarrow> 'a relay_channel \<Rightarrow> bool" where
  stop: "channel_run ch [] [] ch"
| more: "channel_run ch ins outs ch1 \<Longrightarrow> channel_step ch1 i outs' ch2 \<Longrightarrow> channel_run ch (ins @ i) (outs @ outs') ch2"

lemma channel_step_queue:
  assumes "channel_step ch i outs ch'"
  shows "rc_queue ch @ i = outs @ rc_queue ch'"
    "length (rc_queue ch) \<le> rc_cap ch \<Longrightarrow> length (rc_queue ch') \<le> rc_cap ch'"
    "rc_closed ch \<Longrightarrow> i = []"
  using assms
  by (auto elim!: channel_step.cases simp: channel_push_def channel_try_recv_def channel_recv_def channel_close_def
      split: if_splits list.splits)

text \<open>
  Whoever pushes, receives and closes, in whatever order: what a channel has handed out is what it accepted,
  in the same order, up to the values still queued, of which there are never more than its capacity.
\<close>

theorem channel_is_fifo:
  assumes "channel_run (new_relay_channel n) ins outs ch"
  shows "ins = outs @ rc_queue ch \<and> length (rc_queue ch) \<le> rc_cap ch"
  using assms
proof (induction "new_relay_channel n :: 'a relay_channel" ins outs ch rule: channel_run.induct)
  case stop
  show ?case by (simp add: new_relay_channel_def)
next
  case (more ins outs ch1 i outs' ch2)
  then show ?case using channel_step_queue [OF more(3)] by simp
qed

section \<open>Numbers as text\<close>

definition digit :: "nat \<Rightarrow> char" where "digit d = char_of (48 + d)"

definition is_digit :: "char \<Rightarrow> bool" where
  "is_digit c \<longleftrightarrow> 48 \<le> (of_char c :: nat) \<and> (of_char c :: nat) \<le> 57"

definition digit_value :: "char \<Rightarrow> nat" where "digit_value c = of_char c - 48"

text \<open>\<open>std::to_string()\<close> of an unsigned number.\<close>

fun to_string :: "nat \<Rightarrow> string" where
  "to_string n = (if n < 10 then [digit n] else to_string (n div 10) @ [digit (n mod 10)])"

declare to_string.simps [simp del]

definition number :: "string \<Rightarrow> nat" where
  "number s = foldl (\<lambda>v c. 10 * v + digit_value c) 0 s"

text \<open>
  \<open>std::from_chars()\<close> for an \<open>unsigned\<close> of 32 bits, base ten: the digits at the front, with no sign; it fails
  without any, and on a number that is out of range.
\<close>

definition from_chars :: "string \<Rightarrow> (nat \<times> string) option" where
  "from_chars s =
     (let ds = takeWhile is_digit s in
      if ds = [] \<or> 2 ^ 32 \<le> number ds then None else Some (number ds, dropWhile is_digit s))"

lemma of_char_digit: "d < 10 \<Longrightarrow> of_char (digit d) = 48 + d"
  by (simp add: digit_def take_bit_eq_mod)

lemma to_string_nonempty: "to_string n \<noteq> []"
  by (subst to_string.simps) simp

lemma to_string_digits: "\<forall>c \<in> set (to_string n). is_digit c"
proof (induction n rule: to_string.induct)
  case (1 n)
  have "n mod 10 \<le> 9" using mod_less_divisor [of 10 n] by linarith
  then show ?case using 1 by (subst to_string.simps) (simp add: is_digit_def of_char_digit)
qed

lemma to_string_whole: "takeWhile is_digit (to_string n) = to_string n" "dropWhile is_digit (to_string n) = []"
  using to_string_digits [of n] by (simp_all add: takeWhile_eq_all_conv)

lemma number_to_string: "number (to_string n) = n"
proof (induction n rule: to_string.induct)
  case (1 n)
  then show ?case
    by (subst to_string.simps) (auto simp: number_def digit_value_def of_char_digit)
qed

lemma from_chars_to_string: "n < 2 ^ 32 \<Longrightarrow> from_chars (to_string n) = Some (n, [])"
  by (simp add: to_string_whole to_string_nonempty from_chars_def Let_def number_to_string)

text \<open>The whole text is a number of at most \<open>limit\<close>: the test of the three fields below.\<close>

definition bounded_number :: "nat \<Rightarrow> string \<Rightarrow> nat option" where
  "bounded_number limit s =
     (case from_chars s of
        None \<Rightarrow> None
      | Some (v, rest) \<Rightarrow> if rest \<noteq> [] \<or> limit < v then None else Some v)"

lemma bounded_number_to_string:
  "limit < 2 ^ 32 \<Longrightarrow> bounded_number limit (to_string n) = (if n \<le> limit then Some n else None)"
proof (cases "n < 2 ^ 32")
  case False
  assume "limit < 2 ^ 32"
  then show ?thesis
    using False by (simp add: to_string_whole to_string_nonempty bounded_number_def from_chars_def Let_def number_to_string)
qed (simp add: bounded_number_def from_chars_to_string)

lemma bounded_number_le: "bounded_number limit s = Some v \<Longrightarrow> v \<le> limit"
  by (auto simp: bounded_number_def split: option.splits if_splits)

section \<open>Addresses\<close>

definition endpoint_id_to_relay_id :: "u16 \<Rightarrow> string" where
  "endpoint_id_to_relay_id byte_bus_id = to_string (unat byte_bus_id)"

definition relay_id_to_endpoint_id :: "string \<Rightarrow> u16 option" where
  "relay_id_to_endpoint_id s =
     (if s = [] then None
      else (case bounded_number 0xFF s of None \<Rightarrow> None | Some bus_id \<Rightarrow> Some (of_nat bus_id)))"

text \<open>
  The text of a bus number up to 255 names that bus again; the text of any other number is refused,
  although a bus number has eleven bits on the wire.
\<close>

lemma relay_id_roundtrip:
  "relay_id_to_endpoint_id (endpoint_id_to_relay_id b) = (if b \<le> 255 then Some b else None)"
  by (simp add: relay_id_to_endpoint_id_def endpoint_id_to_relay_id_def bounded_number_to_string to_string_nonempty
      word_le_nat_alt)

section \<open>Messages\<close>

datatype relay_protocol = Proto_CAN | Proto_DDS | Proto_LIN | Proto_MQTT | Proto_RCP | Proto_SOMEIP

record relay_message =
  rm_protocol :: relay_protocol
  rm_version :: "int \<times> int \<times> int"
  rm_id :: string
  rm_payload :: octets
  rm_timestamp :: u64
  rm_seq :: u64
  rm_meta :: "string \<Rightarrow> string option"

definition default_message :: relay_message where
  "default_message =
     \<lparr>rm_protocol = Proto_RCP, rm_version = (0, 0, 0), rm_id = [], rm_payload = [], rm_timestamp = 0, rm_seq = 0,
      rm_meta = (\<lambda>_. None)\<rparr>"

definition op_from_meta :: "(string \<Rightarrow> string option) \<Rightarrow> bool" where
  "op_from_meta meta \<longleftrightarrow> meta ''rcp.op'' = Some ''write''"

definition evt_op_from_meta :: "(string \<Rightarrow> string option) \<Rightarrow> u8" where
  "evt_op_from_meta meta =
     (case meta ''rcp.evt_op'' of
        None \<Rightarrow> 0
      | Some s \<Rightarrow> (case bounded_number 7 s of None \<Rightarrow> 0 | Some v \<Rightarrow> of_nat v))"

definition read_size_from_meta :: "(string \<Rightarrow> string option) \<Rightarrow> u16" where
  "read_size_from_meta meta =
     (case meta ''rcp.read_size'' of
        None \<Rightarrow> 0
      | Some s \<Rightarrow> (case bounded_number 0x0FFF s of None \<Rightarrow> 0 | Some v \<Rightarrow> of_nat v))"

fun response_kind_value :: "response_kind \<Rightarrow> nat" where
  "response_kind_value Acknowledge = 0"
| "response_kind_value WriteResponse = 1"
| "response_kind_value ReadResponse = 2"
| "response_kind_value ErrorResponse = 3"

definition response_to_message :: "u64 \<Rightarrow> acf_info \<Rightarrow> octets \<Rightarrow> relay_message" where
  "response_to_message now resp payload = default_message
     \<lparr>rm_protocol := Proto_RCP,
      rm_id := endpoint_id_to_relay_id (a_byte_bus_id resp),
      rm_payload := payload,
      rm_timestamp := now,
      rm_meta := [''rcp.response_kind'' \<mapsto> to_string (response_kind_value (response_kind_of resp)),
                  ''rcp.err'' \<mapsto> (if a_err resp then ''true'' else ''false''),
                  ''rcp.read_size'' \<mapsto> to_string (unat (a_read_size resp))]\<rparr>"

definition message_to_request :: "relay_message \<Rightarrow> (acf_info \<times> octets) option" where
  "message_to_request msg =
     (case relay_id_to_endpoint_id (rm_id msg) of
        None \<Rightarrow> None
      | Some byte_bus_id \<Rightarrow>
          Some (acf_default
            \<lparr>a_byte_bus_id := byte_bus_id,
             a_op := op_from_meta (rm_meta msg),
             a_evt_op := evt_op_from_meta (rm_meta msg),
             a_read_size := read_size_from_meta (rm_meta msg)\<rparr>, rm_payload msg))"

section \<open>The adapter\<close>

text \<open>\<open>None\<close> is an adapter without a function.\<close>

datatype adapter_error = Not_connected | Invalid_argument | Function_not_supported | From_request error_code

definition adapter_send ::
    "'w request_fn option \<Rightarrow> relay_message \<Rightarrow> 'w \<Rightarrow> adapter_error option \<times> 'w" where
  "adapter_send fn msg w =
     (case fn of
        None \<Rightarrow> (Some Not_connected, w)
      | Some fn \<Rightarrow>
          (case message_to_request msg of
             None \<Rightarrow> (Some Invalid_argument, w)
           | Some (req, payload) \<Rightarrow>
               (case fn req payload (acf_default, []) w of
                  ((ec, out), w) \<Rightarrow> (if ec_value ec \<noteq> 0 then Some (From_request ec) else None, w))))"

definition adapter_call ::
    "'w request_fn option \<Rightarrow> u64 \<Rightarrow> relay_message \<Rightarrow> 'w \<Rightarrow> (relay_message \<times> adapter_error option) \<times> 'w" where
  "adapter_call fn now req_msg w =
     (case fn of
        None \<Rightarrow> ((default_message, Some Not_connected), w)
      | Some fn \<Rightarrow>
          (case message_to_request req_msg of
             None \<Rightarrow> ((default_message, Some Invalid_argument), w)
           | Some (req, payload) \<Rightarrow>
               (case fn req payload (acf_default, []) w of
                  ((ec, out_info, out_payload), w) \<Rightarrow>
                    (if ec_value ec \<noteq> 0 then ((default_message, Some (From_request ec)), w)
                     else ((response_to_message now out_info out_payload, None), w)))))"

definition adapter_subscribe :: "'c option \<times> adapter_error option" where
  "adapter_subscribe = (None, Some Function_not_supported)"

definition adapter_close :: "adapter_error option" where "adapter_close = None"

text \<open>The message that asks for a standard request; the fields the adapter does not carry are the defaults.\<close>

definition request_message :: "u16 \<Rightarrow> bool \<Rightarrow> u8 \<Rightarrow> u16 \<Rightarrow> octets \<Rightarrow> relay_message" where
  "request_message b op evt_op read_size payload = default_message
     \<lparr>rm_id := endpoint_id_to_relay_id b, rm_payload := payload,
      rm_meta := [''rcp.op'' \<mapsto> (if op then ''write'' else ''read''),
                  ''rcp.evt_op'' \<mapsto> to_string (unat evt_op),
                  ''rcp.read_size'' \<mapsto> to_string (unat read_size)]\<rparr>"

lemma message_to_request_message:
  assumes "b \<le> 255" "evt_op \<le> 7" "read_size \<le> 0x0FFF"
  shows "message_to_request (request_message b op evt_op read_size payload) =
    Some (acf_default\<lparr>a_byte_bus_id := b, a_op := op, a_evt_op := evt_op, a_read_size := read_size\<rparr>, payload)"
  using assms relay_id_roundtrip [of b]
  by (simp add: message_to_request_def request_message_def op_from_meta_def evt_op_from_meta_def
      read_size_from_meta_def bounded_number_to_string word_le_nat_alt)

text \<open>
  A call through the adapter is the call of the function it wraps: with a message for a bus up to 255 and
  fields of their width the function gets exactly the request the message describes, once, and its response
  comes back with its kind, its error flag, its size and its payload; an error of the function is passed on.
\<close>

theorem adapter_call_is_request:
  assumes "b \<le> 255" "evt_op \<le> 7" "read_size \<le> 0x0FFF"
  shows "adapter_call (Some fn) now (request_message b op evt_op read_size payload) w =
    (let ((ec, resp, resp_payload), w') =
           fn (acf_default\<lparr>a_byte_bus_id := b, a_op := op, a_evt_op := evt_op, a_read_size := read_size\<rparr>) payload
             (acf_default, []) w
     in (if ec_value ec = 0 then (response_to_message now resp resp_payload, None)
         else (default_message, Some (From_request ec)), w'))"
  using message_to_request_message [OF assms] by (simp add: adapter_call_def Let_def split: prod.splits)

text \<open>A function that answers every request with its own payload, and counts its calls.\<close>

definition echo :: "nat request_fn" where
  "echo req payload out n = ((no_error, make_response req ReadResponse, payload), Suc n)"

lemma adapter_call_is_request_witness:
  "adapter_call (Some echo) 5 (request_message 9 False 3 12 [1, 2]) 0 =
    (let ((ec, resp, resp_payload), w') =
           echo (acf_default\<lparr>a_byte_bus_id := 9, a_op := False, a_evt_op := 3, a_read_size := 12\<rparr>) [1, 2]
             (acf_default, []) 0
     in (if ec_value ec = 0 then (response_to_message 5 resp resp_payload, None)
         else (default_message, Some (From_request ec)), w'))"
  by (rule adapter_call_is_request) simp_all

text \<open>A message whose address is not the text of a bus number up to 255 reaches no function.\<close>

lemma adapter_refuses:
  "relay_id_to_endpoint_id (rm_id msg) = None \<Longrightarrow>
     adapter_call (Some fn) now msg w = ((default_message, Some Invalid_argument), w) \<and>
     adapter_send (Some fn) msg w = (Some Invalid_argument, w)"
  by (simp add: adapter_call_def adapter_send_def message_to_request_def)

end
