(* ===== verification/Spec2Isabelle.thy ===== *)
theory Spec2Isabelle
  imports Prelude Codec Avtp Acf Acf_Response Request Schedule Ledger Regmap E2e RespQueue
    Fragment Endpoint Lifecycle Watchdog General_Map Ep0 Server Server_Store Server_Behaviour Discovery
    Ep_Block Ep_Fragments I2c Gpio Spi Adc Pwm Uart Lin
    Iseled Can Mdio Wakeup Powerstate Endpoint_Types Mock Mock_E2e Mock_Frame
    Mock_Fragments Mock_Run Transport L2 Udp Transport_Mock
    Signals Shmem Loan Recording Deadline Relay
begin

text \<open>
  A verification library for cpp-RCP, the header-only C++ implementation of the OPEN Alliance
  Remote Control Protocol (RCP) over IEEE 1722: the wire codec, the request lifecycle, end-to-end
  protection, and the register map and state machine of an RC server. Every definition is
  translated from the headers under \<open>src/include/rcp/\<close>.

  \<^bold>\<open>How the program fits together.\<close>
  A client's request is an ACF message (\<open>acf.hpp\<close>) inside an AVTP control frame (\<open>avtp.hpp\<close>). The
  server checks the frame's stream against its tables (\<open>regmap.hpp\<close>) and, where protection is
  configured, the CRC and sequence number (\<open>e2e.hpp\<close>) and a watchdog per stream
  (\<open>watchdog.hpp\<close>). It accepts the request only in a suitable lifecycle state
  (\<open>lifecycle.hpp\<close>), decodes its kind (\<open>request.hpp\<close>), admits it to an endpoint, stores it and
  schedules it (\<open>server.hpp\<close>, with the ledger of \<open>request.hpp\<close>). Execution produces a response (\<open>acf.hpp\<close>), which is split when it is too long
  (\<open>fragment.hpp\<close>) and waits in a bounded queue (\<open>respqueue.hpp\<close>).

  \<^bold>\<open>Theories, from the bottom.\<close>
  \<^item> \<open>Prelude\<close>: words for the fixed-width integers, the error codes as one sum, results as
    \<open>error + 'a\<close>, big-endian packing, \<open>size_t\<close> arithmetic modulo \<open>2 ^ 64\<close>.
  \<^item> \<open>Codec\<close>: the contract of an encoder/decoder pair as the locales \<open>message_codec\<close> and
    \<open>header_codec\<close>, interpreted by every codec below.
  \<^item> \<open>Avtp\<close> (\<open>avtp.hpp\<close>): stream identifiers, NTSCF and TSCF headers, the widening of 32-bit
    timestamps.
  \<^item> \<open>Acf\<close> and \<open>Acf_Response\<close> (\<open>acf.hpp\<close>): ACF_ABB and ACF_GBB messages, the message walk of a
    frame, response kinds and builders, compound wait modes, the relay view.
  \<^item> \<open>Request\<close>, \<open>Schedule\<close>, \<open>Ledger\<close> (\<open>request.hpp\<close>): the codecs of the conditional request kinds;
    selection of the next due request and the sequencer; the ledger of tracked requests with its
    states, chains and cancellations.
  \<^item> \<open>Regmap\<close>, \<open>General_Map\<close>, \<open>Ep0\<close> (\<open>regmap.hpp\<close>): the configuration tables as rows of octets with
    the locale \<open>row_table\<close>; the general register map; EP0's access control over the whole map.
  \<^item> \<open>E2e\<close> (\<open>e2e.hpp\<close>): CRC-32, wrapping and unwrapping, the guards with their latches (locale
    \<open>latch\<close>), the fault tracker, the sequence guard, the watchdog and the response to overflow.
  \<^item> \<open>RespQueue\<close> (\<open>respqueue.hpp\<close>): the response queue with its octet budget and eviction.
  \<^item> \<open>Fragment\<close> (\<open>fragment.hpp\<close>): the plan of a fragmented payload and its reassembly.
  \<^item> \<open>Endpoint\<close> (\<open>endpoint.hpp\<close>): the meaning of the event field and the trigger registry.
  \<^item> \<open>Lifecycle\<close> (\<open>lifecycle.hpp\<close>): the server's state machine, its plausibility checks and the
    rules of which register may be written when and by whom.
  \<^item> \<open>Watchdog\<close> (\<open>watchdog.hpp\<close>): the manager of one watchdog per request stream.
  \<^item> \<open>Server\<close>, \<open>Server_Store\<close>, \<open>Server_Behaviour\<close> (\<open>server.hpp\<close>): the server's endpoint: the queue
    of a disabled endpoint, admission, the store of conditional requests and its scheduler; the
    store's invariant; what is served, repeated, queued and cancelled.
  \<^item> \<open>Discovery\<close> (\<open>discovery.hpp\<close>): the discovery messages, whole and fragmented, the claim that
    lets one client configure at a time, and the cache of discovered servers.
  \<^item> \<open>Ep_Block\<close>: what the endpoint types repeat: their common flags and configuration writes with
    the locale \<open>register_block\<close>, opening and building of messages, guarded setters;
    \<open>Ep_Fragments\<close>: long responses, split and reassembled.
  \<^item> \<open>I2c\<close>, \<open>Gpio\<close>, \<open>Spi\<close>, \<open>Adc\<close>, \<open>Pwm\<close>, \<open>Uart\<close>, \<open>Lin\<close>, \<open>Iseled\<close>, \<open>Can\<close>,
    \<open>Mdio\<close> (the headers of these names): the endpoint types, each with its
    registers, messages and behaviour; \<open>Endpoint_Types\<close> joins what holds for all of them.
  \<^item> \<open>Wakeup\<close> and \<open>Powerstate\<close> (\<open>wakeup.hpp\<close>, \<open>powerstate.hpp\<close>): wake-up sources and messages, and
    the power modes with the handshake that wakes a sleeping device.
  \<^item> \<open>Mock\<close>, \<open>Mock_E2e\<close>, \<open>Mock_Frame\<close>, \<open>Mock_Fragments\<close>, \<open>Mock_Run\<close> (\<open>mock.hpp\<close>): the in-process
    server that joins the parts: the dispatch of requests to EP0 and the ten endpoints through
    their admission queues; protected messages and what the server keeps of each stream; frames
    of several messages and their chains; fragmented requests and responses; what every sequence
    of calls keeps of its state.
  \<^item> \<open>Transport\<close>, \<open>L2\<close>, \<open>Udp\<close> (\<open>l2.hpp\<close>, \<open>udp.hpp\<close>): frames on the wire, the table of requests that
    wait for an answer, and the servers and clients of the two transports, whose threads are the
    steps of a transition relation; the service behind a server is the locale \<open>frame_service\<close>.
    \<open>Transport_Mock\<close> interprets it on the in-process server and follows a request from the client's
    call through both transports to the server's state and back.
  \<^item> \<open>Signals\<close> (\<open>regmap.hpp\<close>): the named trigger signals and the fields of a pin's configuration.
  \<^item> \<open>Shmem\<close> (\<open>shmem.hpp\<close>): the in-process channel, whose requests interleave on a bounded set of slots,
    and the registry of channels; \<open>Loan\<close> (\<open>loan.hpp\<close>, \<open>alloc.hpp\<close>): the pool of payload buffers;
    \<open>Recording\<close> (\<open>record.hpp\<close>): recorded traffic, its file format and its replay; \<open>Deadline\<close>
    (\<open>deadline.hpp\<close>): the monitor of liveness; \<open>Relay\<close> (\<open>adapt.hpp\<close>, \<open>rcp.hpp\<close>,
    \<open>relay/relay.hpp\<close>): the adapter to the relay interface and its channel.
  \<^item> This theory: the properties that join components.

  \<^bold>\<open>Correspondence.\<close>
  A class is a \<open>record\<close> of its fields, a method a function from the record to its result and the
  updated record, a \<open>std::error_code\<close> result the datatype \<open>error\<close>, with \<open>Inl\<close> for a failed decode.
  Field and function names are those of the sources, with a prefix for fields. Callbacks are the
  client's code: where the sources call them, the model records the calls in order or takes the
  callback as an argument. Mutexes guard each object against concurrent calls, so an object is
  modelled by the sequences of its calls; interleavings are sequences too.

  \<^bold>\<open>Bounds and termination.\<close>
  Octets and protocol fields are words of their width. \<open>size_t\<close> is 64 bits wide: lengths are
  natural numbers, and where a sum or difference could wrap (\<open>fragment.hpp\<close>) it is taken modulo
  \<open>2 ^ 64\<close> and the theorem says for which lengths it does not. Loops are recursive functions with
  termination proofs; no fuel is used. A read outside an array is an explicit \<open>None\<close> where a caller
  could cause it, and a theorem shows that it does not happen.

  \<^bold>\<open>What the groups of lemmas show.\<close>
  Round trips of every codec on well-formed values, and that no decoder fails on longer input or
  reads past its end; exact error behaviour of the response kinds, field writes and general map
  reads; invariants of the ledger, the response queue, the reassembler and EP0 over every sequence
  of calls; refinement of an abstract map by the watchdog manager and of the state diagram by the
  lifecycle; detection of burst errors by the CRC; termination and completeness of reassembly.

  \<^bold>\<open>Not modelled.\<close>
  The calls of the operating system below the transports (sockets, clocks, the scheduling of
  threads), TLS, multicast DNS and the bridges to other protocols (\<open>tls.hpp\<close>, \<open>mdns.hpp\<close>, the \<open>*br.hpp\<close> headers), the command line tools and the C interface, which
  are input and output around the core; the wrappers around a client that limit, authorise, observe,
  disturb or duplicate its calls (\<open>ratelimit.hpp\<close>, \<open>authz.hpp\<close>, \<open>observe.hpp\<close>, \<open>faultinject.hpp\<close>,
  \<open>redundancy.hpp\<close> and the like). Of the mock server: the references to its parts that it hands out
  to tests, apart from its admission queues, EP0 and the fault tracker.

  \<^bold>\<open>Where comments and code disagree.\<close>
  A property covers only the cases in which the two agree, or names the case; each divergence is a
  lemma of its own: \<open>gated_overflow_without_code\<close> (\<open>Server_Behaviour\<close>), \<open>runs_behind_chain_error\<close>,
  \<open>aborted_chain_aborts_later\<close> and \<open>unknown_bus_is_no_error\<close> (\<open>Mock_Frame\<close>),
  \<open>long_table_is_installed\<close> (\<open>Mock_Run\<close>), \<open>early_reference_wraps\<close> (\<open>Avtp\<close>), \<open>upper_limit_wins\<close>
  (\<open>Pwm\<close>), \<open>long_frame_wraps_length\<close> (\<open>Can\<close>), \<open>long_burst_wraps_length\<close> (\<open>Mdio\<close>) and
  \<open>wakeup_write_exact\<close> (\<open>Wakeup\<close>).
\<close>

section \<open>Who may write to a live server\<close>

text \<open>
  C19. While the server is live (\<open>RCP_CONFIGURED\<close>), with the writer context that
  \<open>GeneralMap::writer_ctx\<close> derives from a request, exactly the functional registers are writable,
  over unicast, and by two parties only: the root client through EP0 and the stream that owns the
  endpoint. The discovery stream and a valid association of the stream, which count before, do
  not help; and only a configured root client through EP0 can take the server back to
  \<open>HW_UNCONFIGURED\<close>.
\<close>

theorem live_write_needs_owner:
  "(field_writable Rcp_configured kind (Ep0.writer_ctx gm owner stream ep0 unicast discovery bus table) \<longleftrightarrow>
      kind = Functional_w \<and> unicast \<and>
      (ep0 \<and> gm_svr_root_client_index gm \<noteq> kNoRootClient \<and> stream = gm_svr_root_client_index gm \<or>
       (\<exists>c. owner = Some c \<and> ec_has_owning_stream c \<and> stream = ec_owning_stream_index c))) \<and>
   (fst (Lifecycle.transition Hw_unconfigured snap
           (Ep0.writer_ctx gm owner stream ep0 unicast discovery bus table) idle
           (lc\<lparr>lc_state := Rcp_configured\<rparr>)) = None \<longleftrightarrow>
      idle \<and> ep0 \<and> gm_svr_root_client_index gm \<noteq> kNoRootClient \<and> stream = gm_svr_root_client_index gm)"
  by (cases kind; cases owner)
     (auto simp: field_writable_def Ep0.writer_ctx_def Lifecycle.transition_def Let_def)

section \<open>Fragments and the response queue\<close>

text \<open>
  A response split with the fragment size that the response queue advises for its message
  limit always goes into the queue: each slice, encoded as an abbreviated message and padded to
  whole quadlets, is accepted, whatever is in the queue.
\<close>

theorem planned_fragments_are_queued:
  assumes "wf_queue q" "q_max_avtpdu_size_octets q \<noteq> 0"
    "q_capacity_octets q = 0 \<or> q_max_avtpdu_size_octets q \<le> q_capacity_octets q"
    "length payload + q_max_avtpdu_size_octets q < 2 ^ 64"
    "m = max_fragment_payload (q_max_avtpdu_size_octets q) kAcfCommonHeaderLen"
    "plan (length payload) m (plan_count (length payload) m) = Inr segs" "m \<noteq> 0"
    "s \<in> set segs" "msg = encode_acf_abb info (slice payload s)"
  shows "\<exists>q'. push q (msg @ replicate (unat (pad_len (length msg))) 0) = Some (True, q') \<and> wf_queue q'"
proof -
  have m: "m + 11 = q_max_avtpdu_size_octets q"
    using assms(5,7) by (auto simp: max_fragment_payload_def kAcfCommonHeaderLen_def Let_def split: if_splits)
  obtain k off where k: "m = 0 \<or> length payload - off \<le> m"
      "segs = map (intermediate_segment m) [0..<k] @
        [\<lparr>sg_offset = off, sg_len = length payload - off, sg_ms = False, sg_segment_num = 0\<rparr>]"
    using plan_eq [OF _ assms(6)] assms(4) m by auto
  have "length (slice payload s) \<le> m"
    using assms(7,8) k by (auto simp: slice_def intermediate_segment_def)
  then have "length msg \<le> m + 8" using assms(9) by (simp add: encode_abb_eq)
  moreover have "unat (pad_len (length msg)) \<le> 3"
    by (simp add: pad_len_def unat_of_nat take_bit_eq_mod)
  ultimately have "fits_alone q (length (msg @ replicate (unat (pad_len (length msg))) 0))"
    using m assms(3) by (auto simp: fits_alone_def)
  then show ?thesis by (rule push_accepted [OF assms(1)])
qed

lemma planned_fragments_are_queued_witness:
  "\<exists>q'. push (new_queue 32 20) ([28, 5, 0, 0, 0, 0, 0, 0, 1, 2, 3, 4, 5, 6, 7, 8, 9] @ replicate 3 0) = Some (True, q') \<and>
     wf_queue q'"
proof -
  let ?q = "new_queue 32 20"
  let ?s = "\<lparr>sg_offset = 0, sg_len = 9, sg_ms = True, sg_segment_num = 0\<rparr>"
  let ?payload = "[1, 2, 3, 4, 5, 6, 7, 8, 9, 10] :: octets"
  have "max_fragment_payload 20 kAcfCommonHeaderLen = 9" by code_simp
  moreover have "plan (length ?payload) 9 (plan_count (length ?payload) 9) =
     Inr [?s, \<lparr>sg_offset = 9, sg_len = 1, sg_ms = False, sg_segment_num = 0\<rparr>]"
    by (simp add: plan_def plan_count_def Let_def size_add_def size_sub_def kMaxIntermediateSegments_def)
  moreover have "wf_queue ?q" by (simp add: new_queue_def wf_queue_def)
  moreover have "encode_acf_abb acf_default (slice ?payload ?s) = [28, 5, 0, 0, 0, 0, 0, 0, 1, 2, 3, 4, 5, 6, 7, 8, 9]"
    by code_simp
  ultimately show ?thesis
    using planned_fragments_are_queued [of ?q ?payload 9 _ ?s _ acf_default]
    by (simp add: new_queue_def pad_len_def)
qed

end
